(* ===== verification/Batch_Errors.thy ===== *)
theory Batch_Errors
  imports Prelude
begin

text \<open>
  \<open>support/util/exception/exception.go\<close>: the framework's error values, their constructors
  and their classification. A nil \<open>error\<close> is \<open>None\<close>. Stack traces are left out: they are
  text for debugging that no function reads.

  Go errors are modelled by their dynamic type: a \<open>*BatchError\<close>, an error made by
  \<open>fmt.Errorf\<close> with a \<open>%w\<close> verb, one made by \<open>errors.Join\<close>, or any other error, a leaf
  with an identity, the name of its type as \<open>reflect\<close> prints it, and its text.
\<close>

datatype goerr =
    BatchError (Module: string) (Message: string) (OriginalErr: "goerr option")
      (isRetryable: bool) (isSkippable: bool)
  | WrapError string goerr
  | JoinError "goerr list"
  | LeafError string string string

text \<open>An error is retryable or skippable only if it is a \<open>*BatchError\<close> with the flag set.\<close>

definition NewBatchError ::
  "string \<Rightarrow> string \<Rightarrow> goerr option \<Rightarrow> bool \<Rightarrow> bool \<Rightarrow> goerr" where
  "NewBatchError module message originalErr skippable retryable =
     BatchError module message originalErr retryable skippable"

fun BatchError_IsRetryable :: "goerr \<Rightarrow> bool" where
  "BatchError_IsRetryable (BatchError m t e r s) = r"
| "BatchError_IsRetryable _ = False"

fun BatchError_IsSkippable :: "goerr \<Rightarrow> bool" where
  "BatchError_IsSkippable (BatchError m t e r s) = s"
| "BatchError_IsSkippable _ = False"

fun IsBatchError :: "goerr option \<Rightarrow> bool" where
  "IsBatchError (Some (BatchError m t e r s)) = True"
| "IsBatchError _ = False"

section \<open>Error texts\<close>

fun Error_text :: "goerr \<Rightarrow> string" where
  "Error_text (BatchError m t (Some e) r s) =
     ''['' @ m @ ''] '' @ t @ '': '' @ Error_text e"
| "Error_text (BatchError m t None r s) = ''['' @ m @ ''] '' @ t"
| "Error_text (WrapError t e) = t"
| "Error_text (JoinError es) = str_join [char_of (10 :: nat)] (map Error_text es)"
| "Error_text (LeafError i n t) = t"

text \<open>\<open>errors.Unwrap\<close>: only a single \<open>Unwrap() error\<close> counts, so a joined error has none.\<close>

fun errors_Unwrap :: "goerr \<Rightarrow> goerr option" where
  "errors_Unwrap (BatchError m t e r s) = e"
| "errors_Unwrap (WrapError t e) = Some e"
| "errors_Unwrap (JoinError es) = None"
| "errors_Unwrap (LeafError i n t) = None"

text \<open>\<open>reflect.TypeOf(err).String()\<close>.\<close>

fun type_string :: "goerr \<Rightarrow> string" where
  "type_string (BatchError m t e r s) = ''*exception.BatchError''"
| "type_string (WrapError t e) = ''*fmt.wrapError''"
| "type_string (JoinError es) = ''*errors.joinError''"
| "type_string (LeafError i n t) = n"

text \<open>
  \<open>errors.Is(err, target)\<close>. The targets the source uses are leaves (values of \<open>errors.New\<close>
  and of \<open>context\<close> and \<open>sql\<close>), whose identity is the whole leaf.
\<close>

fun errors_Is :: "goerr \<Rightarrow> goerr \<Rightarrow> bool" where
  "errors_Is (BatchError m t (Some e) r s) target = errors_Is e target"
| "errors_Is (BatchError m t None r s) target = False"
| "errors_Is (WrapError t e) target = errors_Is e target"
| "errors_Is (JoinError es) target = list_ex (\<lambda>e. errors_Is e target) es"
| "errors_Is (LeafError i n t) target = (LeafError i n t = target)"

section \<open>The registry of error types\<close>

type_synonym registry = "(string, goerr) gomap"

text \<open>\<open>None\<close>: the function panics.\<close>

definition RegisterErrorType :: "string \<Rightarrow> goerr option \<Rightarrow> registry \<Rightarrow> registry option" where
  "RegisterErrorType name prototype reg =
     (if name = '''' then None
      else (case prototype of None \<Rightarrow> None | Some p \<Rightarrow> Some (gm_put name p reg)))"

definition IsErrorTypeRegistered :: "registry \<Rightarrow> string \<Rightarrow> bool" where
  "IsErrorTypeRegistered reg name = (gm_get reg name \<noteq> None)"

definition plain_error :: "string \<Rightarrow> goerr" where
  "plain_error t = LeafError t ''*errors.errorString'' t"

definition ErrOptimisticLockingFailure :: goerr where
  "ErrOptimisticLockingFailure = plain_error ''OptimisticLockingFailureException''"

definition context_DeadlineExceeded :: goerr where
  "context_DeadlineExceeded =
     LeafError ''context.DeadlineExceeded'' ''context.deadlineExceededError''
       ''context deadline exceeded''"

definition context_Canceled :: goerr where
  "context_Canceled = LeafError ''context.Canceled'' ''*errors.errorString'' ''context canceled''"

definition sql_ErrNoRows :: goerr where
  "sql_ErrNoRows = LeafError ''sql.ErrNoRows'' ''*errors.errorString''
     ''sql: no rows in result set''"

text \<open>The registry after \<open>init\<close>. The entry \<open>io.EOF\<close> is a fresh error, not Go's \<open>io.EOF\<close>.\<close>

definition init_registry :: registry where
  "init_registry =
     [(''OptimisticLockingFailureException'', ErrOptimisticLockingFailure),
      (''io.EOF'', LeafError ''exception io.EOF'' ''*errors.errorString'' ''io.EOF''),
      (''net.OpError'', LeafError ''exception net.OpError'' ''*errors.errorString'' ''net.OpError''),
      (''context.DeadlineExceeded'', context_DeadlineExceeded),
      (''context.Canceled'', context_Canceled),
      (''sql.ErrNoRows'', sql_ErrNoRows)]"

text \<open>Go's own \<open>io.EOF\<close>.\<close>

definition io_EOF :: goerr where
  "io_EOF = LeafError ''io.EOF'' ''*errors.errorString'' ''EOF''"

definition NewOptimisticLockingFailureException ::
  "string \<Rightarrow> string \<Rightarrow> goerr option \<Rightarrow> goerr" where
  "NewOptimisticLockingFailureException module message originalErr =
     (let errToWrap = (case originalErr of
          Some e \<Rightarrow> JoinError [ErrOptimisticLockingFailure, e]
        | None \<Rightarrow> ErrOptimisticLockingFailure)
      in NewBatchError module message (Some errToWrap) False False)"

definition IsOptimisticLockingFailure :: "goerr option \<Rightarrow> bool" where
  "IsOptimisticLockingFailure err =
     (case err of None \<Rightarrow> False | Some e \<Rightarrow> errors_Is e ErrOptimisticLockingFailure)"

definition ExtractErrorMessage :: "goerr option \<Rightarrow> string" where
  "ExtractErrorMessage err = (case err of
       None \<Rightarrow> ''''
     | Some (BatchError m t e r s) \<Rightarrow> t
     | Some e \<Rightarrow> Error_text e)"

section \<open>Classification\<close>

definition IsTemporary :: "goerr option \<Rightarrow> bool" where
  "IsTemporary err = (case err of
       None \<Rightarrow> False
     | Some (BatchError m t e r s) \<Rightarrow> r
     | Some e \<Rightarrow>
         (let errStr = Error_text e
          in str_contains errStr ''timeout'' \<or> str_contains errStr ''connection refused''
             \<or> str_contains errStr ''EOF''))"

definition IsFatal :: "goerr option \<Rightarrow> bool" where
  "IsFatal err = (case err of
       None \<Rightarrow> False
     | Some (BatchError m t e r s) \<Rightarrow> \<not> r \<and> \<not> s
     | Some e \<Rightarrow>
         (let errStr = Error_text e
          in str_contains errStr ''invalid argument'' \<or> str_contains errStr ''permission denied''
             \<or> str_contains errStr ''data corruption''))"

text \<open>A pointer type's name is the name of its element type behind a star.\<close>

definition type_matches :: "string \<Rightarrow> string \<Rightarrow> bool" where
  "type_matches ty name = (ty = name \<or> (ty \<noteq> [] \<and> hd ty = CHR ''*'' \<and> tl ty = name))"

text \<open>The loop over the chain of \<open>errors.Unwrap\<close>.\<close>

fun chain_matches :: "goerr \<Rightarrow> string \<Rightarrow> bool" where
  "chain_matches (BatchError m t e r s) name =
     (str_contains (Error_text (BatchError m t e r s)) name
      \<or> type_matches ''*exception.BatchError'' name
      \<or> (case e of None \<Rightarrow> False | Some e' \<Rightarrow> chain_matches e' name))"
| "chain_matches (WrapError t e) name =
     (str_contains t name \<or> type_matches ''*fmt.wrapError'' name \<or> chain_matches e name)"
| "chain_matches (JoinError es) name =
     (str_contains (Error_text (JoinError es)) name \<or> type_matches ''*errors.joinError'' name)"
| "chain_matches (LeafError i n t) name = (str_contains t name \<or> type_matches n name)"

definition IsErrorOfType :: "registry \<Rightarrow> goerr option \<Rightarrow> string \<Rightarrow> bool" where
  "IsErrorOfType reg err errorTypeName = (case err of
       None \<Rightarrow> False
     | Some e \<Rightarrow>
         (case gm_get reg errorTypeName of
            Some targetError \<Rightarrow> errors_Is e targetError \<or> chain_matches e errorTypeName
          | None \<Rightarrow> chain_matches e errorTypeName))"

section \<open>The variadic constructor\<close>

datatype garg = ArgStr string | ArgInt int | ArgBool bool | ArgErr goerr

fun arg_type :: "garg \<Rightarrow> string" where
  "arg_type (ArgStr s) = ''string''"
| "arg_type (ArgInt i) = ''int''"
| "arg_type (ArgBool b) = ''bool''"
| "arg_type (ArgErr e) = type_string e"

fun arg_text :: "garg \<Rightarrow> string" where
  "arg_text (ArgStr s) = s"
| "arg_text (ArgInt i) = int_str i"
| "arg_text (ArgBool b) = (if b then ''true'' else ''false'')"
| "arg_text (ArgErr e) = Error_text e"

text \<open>
  \<open>fmt.Sprintf\<close> for verbs without flags: \<open>%v\<close> prints every argument, \<open>%s\<close> strings and
  errors, \<open>%d\<close> integers, \<open>%T\<close> the type; another pair of verb and argument prints
  \<open>%!verb(type=value)\<close>, a verb without an argument \<open>%!verb(MISSING)\<close>, the arguments left over
  are listed behind \<open>%!(EXTRA\<close>.
\<close>

definition verb_text :: "char \<Rightarrow> garg \<Rightarrow> string" where
  "verb_text c a =
     (if c = CHR ''v'' then arg_text a
      else if c = CHR ''T'' then arg_type a
      else if c = CHR ''s'' \<and> (case a of ArgStr _ \<Rightarrow> True | ArgErr _ \<Rightarrow> True | _ \<Rightarrow> False) then arg_text a
      else if c = CHR ''d'' \<and> (case a of ArgInt _ \<Rightarrow> True | _ \<Rightarrow> False) then arg_text a
      else ''%!'' @ [c] @ ''('' @ arg_type a @ ''='' @ arg_text a @ '')'')"

fun sprintf :: "string \<Rightarrow> garg list \<Rightarrow> string" where
  "sprintf [] [] = []"
| "sprintf [] (a # as) =
     ''%!(EXTRA '' @ str_join '', '' (map (\<lambda>x. arg_type x @ ''='' @ arg_text x) (a # as)) @ '')''"
| "sprintf [c] as = (if c = CHR ''%'' then ''%!(NOVERB)'' else [c]) @ sprintf [] as"
| "sprintf (c # d # cs) as =
     (if c = CHR ''%'' then
        (if d = CHR ''%'' then CHR ''%'' # sprintf cs as
         else (case as of
            [] \<Rightarrow> ''%!'' @ [d] @ ''(MISSING)'' @ sprintf cs []
          | a # as' \<Rightarrow> verb_text d a @ sprintf cs as'))
      else c # sprintf (d # cs) as)"

text \<open>
  The last argument is taken off when it is an error, then the last when it is a bool (the
  retryable flag), then the last when it is a bool (the skippable flag).
\<close>

definition NewBatchErrorf :: "string \<Rightarrow> string \<Rightarrow> garg list \<Rightarrow> goerr" where
  "NewBatchErrorf module format a =
     (let (orig, args) = (case rev a of ArgErr e # r \<Rightarrow> (Some e, rev r) | _ \<Rightarrow> (None, a));
          (retryable, args) = (case rev args of ArgBool b # r \<Rightarrow> (b, rev r) | _ \<Rightarrow> (False, args));
          (skippable, args) = (case rev args of ArgBool b # r \<Rightarrow> (b, rev r) | _ \<Rightarrow> (False, args))
      in BatchError module (sprintf format args) orig retryable skippable)"

section \<open>Lemmas\<close>

lemma IsErrorOfType_None [simp, err_simps]: "\<not> IsErrorOfType reg None n"
  by (simp add: IsErrorOfType_def)

lemma chain_matches_text: "str_contains (Error_text e) n \<Longrightarrow> chain_matches e n"
  by (cases e) auto

lemma chain_matches_Unwrap:
  "errors_Unwrap e = Some e' \<Longrightarrow> chain_matches e' n \<Longrightarrow> chain_matches e n"
  by (cases e) auto

lemma errors_Is_Unwrap:
  "errors_Unwrap e = Some e' \<Longrightarrow> errors_Is e' t \<Longrightarrow> errors_Is e t"
  by (cases e) auto

text \<open>One more wrapping, by a \<open>BatchError\<close> or by \<open>fmt.Errorf\<close>, hides no error type.\<close>

lemma IsErrorOfType_Unwrap:
  assumes "errors_Unwrap e = Some e'" "IsErrorOfType reg (Some e') n"
  shows "IsErrorOfType reg (Some e) n"
  using assms chain_matches_Unwrap errors_Is_Unwrap
  by (fastforce simp: IsErrorOfType_def split: option.splits)

text \<open>
  The message test is on the whole text, and the text of a \<open>BatchError\<close> ends with that of
  the error it wraps: along a chain of \<open>BatchError\<close>s the first message test decides.
\<close>

lemma Error_text_suffix:
  "suffix (Error_text e) (Error_text (BatchError m t (Some e) r s))"
  by (auto simp: suffix_def)

lemma optimistic_classified:
  "IsOptimisticLockingFailure (Some (NewOptimisticLockingFailureException m t e))"
  by (auto simp: IsOptimisticLockingFailure_def NewOptimisticLockingFailureException_def
      NewBatchError_def ErrOptimisticLockingFailure_def plain_error_def split: option.splits)

text \<open>The sentinels of the registry are leaves.\<close>

lemma init_registry_leaf:
  "gm_get init_registry n = Some e \<Longrightarrow> (\<exists>i ty t. e = LeafError i ty t)"
  by (auto simp: init_registry_def ErrOptimisticLockingFailure_def plain_error_def
      context_DeadlineExceeded_def context_Canceled_def sql_ErrNoRows_def split: if_splits)

text \<open>Without a trailing error or bool the format receives every argument.\<close>

lemma NewBatchErrorf_plain:
  assumes "\<forall>x\<in>set a. case x of ArgErr _ \<Rightarrow> False | ArgBool _ \<Rightarrow> False | _ \<Rightarrow> True"
  shows "NewBatchErrorf m f a = BatchError m (sprintf f a) None False False"
proof -
  have "case rev a of ArgErr e # r \<Rightarrow> False | ArgBool b # r \<Rightarrow> False | _ \<Rightarrow> True"
  proof (cases "rev a")
    case (Cons x r)
    then have "x \<in> set a" by (metis list.set_intros(1) set_rev)
    then show ?thesis using assms Cons by (cases x) auto
  qed simp
  then show ?thesis
    by (auto simp: NewBatchErrorf_def Let_def split: list.splits garg.splits)
qed

end
