(* ===== verification/Batch_Values.thy ===== *)
theory Batch_Values
  imports Batch_Errors Complex_Main "HOL-Library.List_Lexorder" "HOL-Library.Char_ord"
begin

text \<open>
  \<open>core/domain/model/models.go\<close>, first half: execution contexts and job parameters, which are
  maps from strings to Go values, and their storage as JSON. A nil map of parameters is \<open>None\<close>.
  Contexts are not nil: every constructor of the source makes one.
\<close>

section \<open>Go values\<close>

text \<open>
  A \<open>float64\<close> is a rational number or one of the values without one. Conversion from an
  integer rounds to 53 binary digits, ties to even.
\<close>

datatype f64 = Fin rat | NaN | Inf bool

fun bit_len :: "nat \<Rightarrow> nat" where
  "bit_len n = (if n = 0 then 0 else Suc (bit_len (n div 2)))"

declare bit_len.simps [simp del]

definition round53 :: "nat \<Rightarrow> nat" where
  "round53 n =
     (let k = bit_len n - 53; q = n div 2 ^ k; r = n mod 2 ^ k
      in (if 2 ^ k < 2 * r \<or> (2 * r = 2 ^ k \<and> odd q) then q + 1 else q) * 2 ^ k)"

definition f64_of_int :: "int \<Rightarrow> f64" where
  "f64_of_int i = Fin (of_int (sgn i * int (round53 (nat \<bar>i\<bar>))))"

text \<open>Go's \<open>==\<close> on \<open>float64\<close>: a NaN differs from itself.\<close>

fun f64_eq :: "f64 \<Rightarrow> f64 \<Rightarrow> bool" where
  "f64_eq (Fin a) (Fin b) = (a = b)"
| "f64_eq (Inf a) (Inf b) = (a = b)"
| "f64_eq _ _ = False"

text \<open>
  \<open>int(v)\<close> truncates towards zero; what it does with a value an \<open>int\<close> cannot hold is left
  open by Go, and is the parameter \<open>oor\<close>.
\<close>

definition rat_trunc :: "rat \<Rightarrow> int" where
  "rat_trunc r = (if r < 0 then - \<lfloor>- r\<rfloor> else \<lfloor>r\<rfloor>)"

fun int_of_f64 :: "(f64 \<Rightarrow> int) \<Rightarrow> f64 \<Rightarrow> int" where
  "int_of_f64 oor (Fin r) =
     (let i = rat_trunc r in if - (2 ^ 63) \<le> i \<and> i < 2 ^ 63 then i else oor (Fin r))"
| "int_of_f64 oor f = oor f"

text \<open>
  The dynamic types the source tells apart in an \<open>interface{}\<close>: \<open>VCtx\<close> is an
  \<open>ExecutionContext\<close>, \<open>VMap\<close> a \<open>map[string]interface{}\<close>, \<open>VOther\<close> a value of any other
  comparable type, with the type's name and its identity.
\<close>

datatype gval =
    VNil
  | VStr string
  | VInt int
  | VBool bool
  | VFloat f64
  | VCtx "(string \<times> gval) list"
  | VMap "(string \<times> gval) list"
  | VList "gval list"
  | VOther string nat

type_synonym ec = "(string, gval) gomap"

section \<open>ExecutionContext\<close>

definition NewExecutionContext :: ec where
  "NewExecutionContext = []"

definition ExecutionContext_Copy :: "ec \<Rightarrow> ec" where
  "ExecutionContext_Copy ec = gm_merge ec NewExecutionContext"

definition ExecutionContext_Remove :: "string \<Rightarrow> ec \<Rightarrow> ec" where
  "ExecutionContext_Remove key ec = gm_del key ec"

definition ExecutionContext_Get :: "ec \<Rightarrow> string \<Rightarrow> gval option" where
  "ExecutionContext_Get ec key = gm_get ec key"

definition ExecutionContext_Put :: "string \<Rightarrow> gval \<Rightarrow> ec \<Rightarrow> ec" where
  "ExecutionContext_Put key v ec = gm_put key v ec"

text \<open>The walk of \<open>PutNested\<close>: a missing or non-context value on the way is replaced.\<close>

fun put_path :: "string list \<Rightarrow> gval \<Rightarrow> ec \<Rightarrow> ec" where
  "put_path [] v current = current"
| "put_path [p] v current = gm_put p v current"
| "put_path (p # q # ps) v current =
     (case gm_get current p of
        Some (VCtx m) \<Rightarrow> gm_put p (VCtx (put_path (q # ps) v m)) current
      | _ \<Rightarrow> gm_put p (VCtx (put_path (q # ps) v NewExecutionContext)) current)"

definition ExecutionContext_PutNested :: "string \<Rightarrow> gval \<Rightarrow> ec \<Rightarrow> ec" where
  "ExecutionContext_PutNested key v ec =
     (if \<not> str_contains key ''.'' then gm_put key v ec
      else put_path (str_split CHR ''.'' key) v ec)"

fun get_path :: "string list \<Rightarrow> ec \<Rightarrow> gval option" where
  "get_path [] current = None"
| "get_path [p] current = gm_get current p"
| "get_path (p # q # ps) current =
     (case gm_get current p of Some (VCtx m) \<Rightarrow> get_path (q # ps) m | _ \<Rightarrow> None)"

definition ExecutionContext_GetNested :: "ec \<Rightarrow> string \<Rightarrow> gval option" where
  "ExecutionContext_GetNested ec key =
     (case gm_get ec key of
        Some v \<Rightarrow> Some v
      | None \<Rightarrow> get_path (str_split CHR ''.'' key) ec)"

definition ExecutionContext_GetString :: "ec \<Rightarrow> string \<Rightarrow> string option" where
  "ExecutionContext_GetString ec key = (case gm_get ec key of Some (VStr s) \<Rightarrow> Some s | _ \<Rightarrow> None)"

definition ExecutionContext_GetInt :: "(f64 \<Rightarrow> int) \<Rightarrow> ec \<Rightarrow> string \<Rightarrow> int option" where
  "ExecutionContext_GetInt oor ec key = (case gm_get ec key of
       Some (VInt i) \<Rightarrow> Some i
     | Some (VFloat f) \<Rightarrow> Some (int_of_f64 oor f)
     | _ \<Rightarrow> None)"

definition ExecutionContext_GetBool :: "ec \<Rightarrow> string \<Rightarrow> bool option" where
  "ExecutionContext_GetBool ec key = (case gm_get ec key of Some (VBool b) \<Rightarrow> Some b | _ \<Rightarrow> None)"

definition ExecutionContext_GetFloat64 :: "ec \<Rightarrow> string \<Rightarrow> f64 option" where
  "ExecutionContext_GetFloat64 ec key = (case gm_get ec key of Some (VFloat f) \<Rightarrow> Some f | _ \<Rightarrow> None)"

section \<open>JSON\<close>

text \<open>
  \<open>encoding/json\<close> at the level of values: \<open>JInt\<close> is the numeral of an \<open>int\<close>, \<open>JReal\<close> the
  shortest numeral that reads back as the \<open>float64\<close> it was printed from. Strings are valid
  UTF-8. A database text is what it reads as.
\<close>

datatype json =
    JNull | JBool bool | JInt int | JReal rat | JStr string
  | JArr "json list" | JObj "(string \<times> json) list"

datatype dbtext = TEmpty | TInvalid goerr | TJson json

datatype dbval = DbNil | DbBytes dbtext | DbString dbtext | DbOther string

definition json_unsupported :: goerr where
  "json_unsupported = LeafError ''json'' ''*json.UnsupportedValueError'' ''json: unsupported value''"

definition json_type_error :: goerr where
  "json_type_error = LeafError ''json'' ''*json.UnmarshalTypeError'' ''json: cannot unmarshal''"

fun collect :: "('e, 'a) result list \<Rightarrow> ('e, 'a list) result" where
  "collect [] = Inr []"
| "collect (r # rs) = bind_res r (\<lambda>a. bind_res (collect rs) (\<lambda>as. Inr (a # as)))"

text \<open>
  \<open>json.Marshal\<close>; \<open>mo\<close> is what it does with a value of another type. A map prints as an object,
  whose keys are unique; the order of its entries is not read by any function.
\<close>

fun json_marshal :: "(string \<Rightarrow> nat \<Rightarrow> goerr + json) \<Rightarrow> gval \<Rightarrow> goerr + json" where
  "json_marshal mo VNil = Inr JNull"
| "json_marshal mo (VStr s) = Inr (JStr s)"
| "json_marshal mo (VInt i) = Inr (JInt i)"
| "json_marshal mo (VBool b) = Inr (JBool b)"
| "json_marshal mo (VFloat f) = (case f of Fin r \<Rightarrow> Inr (JReal r) | _ \<Rightarrow> Inl json_unsupported)"
| "json_marshal mo (VCtx m) =
     bind_res (collect (map (\<lambda>(k, v). bind_res (json_marshal mo v) (\<lambda>j. Inr (k, j))) m))
       (\<lambda>kvs. Inr (JObj kvs))"
| "json_marshal mo (VMap m) =
     bind_res (collect (map (\<lambda>(k, v). bind_res (json_marshal mo v) (\<lambda>j. Inr (k, j))) m))
       (\<lambda>kvs. Inr (JObj kvs))"
| "json_marshal mo (VList vs) =
     bind_res (collect (map (json_marshal mo) vs)) (\<lambda>js. Inr (JArr js))"
| "json_marshal mo (VOther t n) = mo t n"

text \<open>Reading into an \<open>interface{}\<close>: every number is a \<open>float64\<close>, every object a plain map.\<close>

fun json_value :: "json \<Rightarrow> gval" where
  "json_value JNull = VNil"
| "json_value (JBool b) = VBool b"
| "json_value (JInt i) = VFloat (f64_of_int i)"
| "json_value (JReal r) = VFloat (Fin r)"
| "json_value (JStr s) = VStr s"
| "json_value (JArr js) = VList (map json_value js)"
| "json_value (JObj kvs) = VMap (map (\<lambda>(k, j). (k, json_value j)) kvs)"

text \<open>\<open>json.Unmarshal\<close> into a map adds to it; \<open>null\<close> makes it nil, read as empty.\<close>

fun json_unmarshal_map :: "json \<Rightarrow> ec \<Rightarrow> goerr + ec" where
  "json_unmarshal_map JNull m = Inr []"
| "json_unmarshal_map (JObj kvs) m = Inr (gm_merge (map (\<lambda>(k, j). (k, json_value j)) kvs) m)"
| "json_unmarshal_map _ m = Inl json_type_error"

definition ExecutionContext_Value :: "(string \<Rightarrow> nat \<Rightarrow> goerr + json) \<Rightarrow> ec \<Rightarrow> goerr + dbval" where
  "ExecutionContext_Value mo ec =
     bind_res (json_marshal mo (VCtx ec)) (\<lambda>j. Inr (DbString (TJson j)))"

definition scan_text :: "string \<Rightarrow> dbtext \<Rightarrow> ec \<Rightarrow> goerr + ec" where
  "scan_text what t ec = (case t of
       TEmpty \<Rightarrow> Inr NewExecutionContext
     | TInvalid e \<Rightarrow> Inl (WrapError (''failed to unmarshal '' @ what @ '' JSON: '' @ Error_text e) e)
     | TJson j \<Rightarrow> (case json_unmarshal_map j ec of
           Inl e \<Rightarrow> Inl (WrapError (''failed to unmarshal '' @ what @ '' JSON: '' @ Error_text e) e)
         | Inr ec' \<Rightarrow> Inr ec'))"

definition ExecutionContext_Scan :: "dbval \<Rightarrow> ec \<Rightarrow> goerr + ec" where
  "ExecutionContext_Scan value ec = (case value of
       DbNil \<Rightarrow> Inr NewExecutionContext
     | DbBytes t \<Rightarrow> scan_text ''ExecutionContext'' t ec
     | DbString t \<Rightarrow> scan_text ''ExecutionContext'' t ec
     | DbOther ty \<Rightarrow> Inl (plain_error (''unsupported Scan type for ExecutionContext: '' @ ty)))"

section \<open>JobParameters\<close>

record JobParameters =
  Params :: "ec option"

definition NewJobParameters :: JobParameters where
  "NewJobParameters = \<lparr>Params = Some []\<rparr>"

text \<open>Reading a nil map is reading an empty one.\<close>

definition jp_map :: "JobParameters \<Rightarrow> ec" where
  "jp_map jp = (case Params jp of None \<Rightarrow> [] | Some m \<Rightarrow> m)"

definition JobParameters_Value :: "(string \<Rightarrow> nat \<Rightarrow> goerr + json) \<Rightarrow> JobParameters \<Rightarrow> goerr + dbval" where
  "JobParameters_Value mo jp = (case Params jp of
       None \<Rightarrow> Inr (DbString (TJson (JObj [])))
     | Some m \<Rightarrow> bind_res (json_marshal mo (VMap m)) (\<lambda>j. Inr (DbString (TJson j))))"

definition JobParameters_Scan :: "dbval \<Rightarrow> JobParameters \<Rightarrow> goerr + JobParameters" where
  "JobParameters_Scan value jp = (case value of
       DbNil \<Rightarrow> Inr \<lparr>Params = Some []\<rparr>
     | DbBytes t \<Rightarrow> bind_res (scan_text ''JobParameters'' t (jp_map jp)) (\<lambda>m. Inr \<lparr>Params = Some m\<rparr>)
     | DbString t \<Rightarrow> bind_res (scan_text ''JobParameters'' t (jp_map jp)) (\<lambda>m. Inr \<lparr>Params = Some m\<rparr>)
     | DbOther ty \<Rightarrow> Inl (plain_error (''unsupported Scan type for JobParameters: '' @ ty)))"

definition toFloat64 :: "gval \<Rightarrow> f64 option" where
  "toFloat64 v = (case v of VInt i \<Rightarrow> Some (f64_of_int i) | VFloat f \<Rightarrow> Some f | _ \<Rightarrow> None)"

text \<open>
  \<open>==\<close> on interfaces: different dynamic types are different; two values of one type that has
  no equality (a map or a slice) make it panic, \<open>None\<close>.
\<close>

fun iface_eq :: "gval \<Rightarrow> gval \<Rightarrow> bool option" where
  "iface_eq (VFloat a) (VFloat b) = Some (f64_eq a b)"
| "iface_eq (VCtx a) (VCtx b) = None"
| "iface_eq (VMap a) (VMap b) = None"
| "iface_eq (VList a) (VList b) = None"
| "iface_eq a b = Some (a = b)"

text \<open>One parameter of the other set against the value found for its key.\<close>

definition param_matches :: "gval \<Rightarrow> gval \<Rightarrow> bool option" where
  "param_matches val v = (case (toFloat64 val, toFloat64 v) of
       (Some f1, Some f2) \<Rightarrow> Some (f64_eq f1 f2)
     | _ \<Rightarrow> iface_eq val v)"

fun contains_loop :: "ec \<Rightarrow> ec \<Rightarrow> bool option" where
  "contains_loop m [] = Some True"
| "contains_loop m ((k, v) # rest) = (case gm_get m k of
       None \<Rightarrow> Some False
     | Some val \<Rightarrow> (case param_matches val v of
           None \<Rightarrow> None
         | Some False \<Rightarrow> Some False
         | Some True \<Rightarrow> contains_loop m rest))"

definition JobParameters_Contains :: "JobParameters \<Rightarrow> JobParameters \<Rightarrow> bool option" where
  "JobParameters_Contains jp other = contains_loop (jp_map jp) (jp_map other)"

definition JobParameters_GetString :: "JobParameters \<Rightarrow> string \<Rightarrow> string option" where
  "JobParameters_GetString jp key = (case gm_get (jp_map jp) key of Some (VStr s) \<Rightarrow> Some s | _ \<Rightarrow> None)"

definition JobParameters_GetInt :: "(f64 \<Rightarrow> int) \<Rightarrow> JobParameters \<Rightarrow> string \<Rightarrow> int option" where
  "JobParameters_GetInt oor jp key = (case gm_get (jp_map jp) key of
       Some (VInt i) \<Rightarrow> Some i
     | Some (VFloat f) \<Rightarrow> Some (int_of_f64 oor f)
     | _ \<Rightarrow> None)"

definition JobParameters_GetBool :: "JobParameters \<Rightarrow> string \<Rightarrow> bool option" where
  "JobParameters_GetBool jp key = (case gm_get (jp_map jp) key of Some (VBool b) \<Rightarrow> Some b | _ \<Rightarrow> None)"

definition JobParameters_GetFloat64 :: "JobParameters \<Rightarrow> string \<Rightarrow> f64 option" where
  "JobParameters_GetFloat64 jp key = (case gm_get (jp_map jp) key of Some (VFloat f) \<Rightarrow> Some f | _ \<Rightarrow> None)"

text \<open>
  \<open>Put\<close> has a value receiver: on parameters with a nil map it writes into a map that the
  caller never sees.
\<close>

definition JobParameters_Put :: "string \<Rightarrow> gval \<Rightarrow> JobParameters \<Rightarrow> JobParameters" where
  "JobParameters_Put key v jp = (case Params jp of
       None \<Rightarrow> jp
     | Some m \<Rightarrow> \<lparr>Params = Some (gm_put key v m)\<rparr>)"

text \<open>
  The verb \<open>%v\<close>. A \<open>float64\<close> prints its shortest digits, in exponent form from \<open>1e+06\<close> on;
  this is written out for whole numbers below \<open>2 ^ 53\<close>, whose shortest digits are their own,
  and the parameter \<open>ff\<close> prints the others. Maps print sorted by key, strings unquoted.
\<close>

definition exp_form :: "nat \<Rightarrow> string" where
  "exp_form n =
     (let ds = nat_str n; e = length ds - 1;
          m = rev (dropWhile (\<lambda>c. c = CHR ''0'') (rev ds))
      in hd m # (if tl m = [] then [] else CHR ''.'' # tl m) @ ''e+''
         @ (if e < 10 then ''0'' else []) @ nat_str e)"

definition int_g :: "int \<Rightarrow> string" where
  "int_g i = (if \<bar>i\<bar> < 10 ^ 6 then int_str i
              else (if i < 0 then ''-'' else []) @ exp_form (nat \<bar>i\<bar>))"

definition float_v :: "(f64 \<Rightarrow> string) \<Rightarrow> f64 \<Rightarrow> string" where
  "float_v ff f = (case f of
       Fin r \<Rightarrow> (let i = rat_trunc r in if of_int i = r \<and> \<bar>i\<bar> < 2 ^ 53 then int_g i else ff f)
     | _ \<Rightarrow> ff f)"

fun fmt_v :: "(f64 \<Rightarrow> string) \<Rightarrow> (string \<Rightarrow> nat \<Rightarrow> string) \<Rightarrow> gval \<Rightarrow> string" where
  "fmt_v ff fo VNil = ''<nil>''"
| "fmt_v ff fo (VStr s) = s"
| "fmt_v ff fo (VInt i) = int_str i"
| "fmt_v ff fo (VBool b) = (if b then ''true'' else ''false'')"
| "fmt_v ff fo (VFloat f) = float_v ff f"
| "fmt_v ff fo (VCtx m) = ''map['' @ str_join '' ''
     (map (\<lambda>(k, t). k @ '':'' @ t) (sort_key fst (map (\<lambda>(k, v). (k, fmt_v ff fo v)) m))) @ '']''"
| "fmt_v ff fo (VMap m) = ''map['' @ str_join '' ''
     (map (\<lambda>(k, t). k @ '':'' @ t) (sort_key fst (map (\<lambda>(k, v). (k, fmt_v ff fo v)) m))) @ '']''"
| "fmt_v ff fo (VList vs) = ''['' @ str_join '' '' (map (fmt_v ff fo) vs) @ '']''"
| "fmt_v ff fo (VOther t n) = fo t n"

text \<open>A nil map prints as an empty one.\<close>

definition JobParameters_Equal ::
  "(f64 \<Rightarrow> string) \<Rightarrow> (string \<Rightarrow> nat \<Rightarrow> string) \<Rightarrow> JobParameters \<Rightarrow> JobParameters \<Rightarrow> bool" where
  "JobParameters_Equal ff fo jp other =
     (fmt_v ff fo (VMap (jp_map jp)) = fmt_v ff fo (VMap (jp_map other)))"

section \<open>Nested paths\<close>

lemma put_path_Cons2:
  "put_path (p # q # ps) v c =
     gm_put p (VCtx (put_path (q # ps) v (case gm_get c p of Some (VCtx m) \<Rightarrow> m | _ \<Rightarrow> []))) c"
  by (simp add: NewExecutionContext_def split: option.splits gval.splits)

lemma get_put_path: "ps \<noteq> [] \<Longrightarrow> get_path ps (put_path ps v c) = Some v"
proof (induction ps arbitrary: c)
  case (Cons p ps)
  then show ?case by (cases ps) (simp_all add: put_path_Cons2 del: put_path.simps(3))
qed simp

lemma get_path_None_Nil: "get_path ps [] = None"
  by (induction ps rule: induct_list012) auto

lemma get_put_path_other:
  assumes "\<not> prefix ps qs" "\<not> prefix qs ps"
  shows "get_path qs (put_path ps v c) = get_path qs c"
  using assms
proof (induction ps arbitrary: qs c)
  case (Cons p ps)
  obtain q qs' where qs: "qs = q # qs'" using Cons.prems by (cases qs) auto
  show ?case
  proof (cases "p = q")
    case False
    then show ?thesis using qs
      by (cases ps; cases qs') (simp_all add: put_path_Cons2 del: put_path.simps(3))
  next
    case True
    then have pre: "\<not> prefix ps qs'" "\<not> prefix qs' ps" using Cons.prems qs by auto
    then obtain p' ps' where ps: "ps = p' # ps'" by (cases ps) auto
    obtain q' qs'' where qs': "qs' = q' # qs''" using pre by (cases qs') auto
    have "get_path qs' (put_path ps v m) = get_path qs' m" for m
      using Cons.IH[OF pre] by simp
    then show ?thesis using True qs ps qs'
      by (auto simp: put_path_Cons2 get_path_None_Nil simp del: put_path.simps(3)
          split: option.splits gval.splits)
  qed
qed auto

lemma put_path_root:
  "ps \<noteq> [] \<Longrightarrow> k \<noteq> hd ps \<Longrightarrow> gm_get (put_path ps v c) k = gm_get c k"
  by (cases ps rule: remdups_adj.cases)
    (simp_all add: put_path_Cons2 del: put_path.simps(3))

lemma dotted_not_part:
  "str_contains k ''.'' \<Longrightarrow> k \<noteq> hd (str_split CHR ''.'' k)"
  using str_split_parts[of "hd (str_split CHR ''.'' k)" "CHR ''.''" k]
  by (auto simp: str_contains_single)

text \<open>
  What \<open>PutNested\<close> stores under a dotted key is what \<open>GetNested\<close> finds there, and every
  dotted path that is neither above nor below the one written keeps its value. The hypothesis is
  needed: a flat entry under the whole dotted key shadows the nested one.
\<close>

theorem nested_put_get:
  assumes "gm_get c key = None \<or> \<not> str_contains key ''.''"
  shows "ExecutionContext_GetNested (ExecutionContext_PutNested key v c) key = Some v
    \<and> (str_contains key ''.'' \<longrightarrow>
         (\<forall>qs. \<not> prefix (str_split CHR ''.'' key) qs \<longrightarrow> \<not> prefix qs (str_split CHR ''.'' key) \<longrightarrow>
            get_path qs (ExecutionContext_PutNested key v c) = get_path qs c))"
proof
  show "ExecutionContext_GetNested (ExecutionContext_PutNested key v c) key = Some v"
  proof (cases "str_contains key ''.''")
    case True
    then have "gm_get (put_path (str_split CHR ''.'' key) v c) key = None"
      using assms put_path_root[OF str_split_not_Nil dotted_not_part] by auto
    then show ?thesis using True
      by (simp add: ExecutionContext_GetNested_def ExecutionContext_PutNested_def get_put_path)
  qed (simp add: ExecutionContext_GetNested_def ExecutionContext_PutNested_def)
qed (simp add: ExecutionContext_PutNested_def get_put_path_other)

lemma nested_put_get_witness:
  "ExecutionContext_GetNested
     (ExecutionContext_PutNested ''a.b'' (VInt 1) [(''a'', VStr ''x'')]) ''a.b'' = Some (VInt 1)
   \<and> get_path [''a'', ''c''] (ExecutionContext_PutNested ''a.b'' (VInt 1) [(''a'', VCtx [(''c'', VNil)])])
     = Some VNil"
proof -
  have "get_path [''a'', ''c'']
      (ExecutionContext_PutNested ''a.b'' (VInt 1) [(''a'', VCtx [(''c'', VNil)])])
    = get_path [''a'', ''c''] [(''a'', VCtx [(''c'', VNil)])]"
    using nested_put_get[of "[(''a'', VCtx [(''c'', VNil)])]" "''a.b''" "VInt 1"]
    by (simp del: get_path.simps)
  also have "\<dots> = Some VNil" by simp
  finally show ?thesis using nested_put_get[of "[(''a'', VStr ''x'')]" "''a.b''" "VInt 1"]
    by (simp del: get_path.simps)
qed

section \<open>Storage as JSON\<close>

text \<open>What storing a value and reading it back makes of it.\<close>

fun json_image :: "gval \<Rightarrow> gval" where
  "json_image (VInt i) = VFloat (f64_of_int i)"
| "json_image (VCtx m) = VMap (map (\<lambda>(k, v). (k, json_image v)) m)"
| "json_image (VMap m) = VMap (map (\<lambda>(k, v). (k, json_image v)) m)"
| "json_image (VList vs) = VList (map json_image vs)"
| "json_image v = v"

text \<open>The values JSON can hold: no infinity, no NaN, no value of another type.\<close>

fun storable :: "gval \<Rightarrow> bool" where
  "storable (VFloat (Fin r)) = True"
| "storable (VFloat _) = False"
| "storable (VCtx m) = list_all (\<lambda>(k, v). storable v) m"
| "storable (VMap m) = list_all (\<lambda>(k, v). storable v) m"
| "storable (VList vs) = list_all storable vs"
| "storable (VOther t n) = False"
| "storable _ = True"

lemma collect_map_Inr:
  "(\<And>x. x \<in> set xs \<Longrightarrow> \<exists>y. f x = Inr y \<and> g y = h x) \<Longrightarrow>
     \<exists>ys. collect (map f xs) = Inr ys \<and> map g ys = map h xs"
proof (induction xs)
  case (Cons x xs)
  obtain y where "f x = Inr y" "g y = h x" using Cons.prems[of x] by auto
  moreover obtain ys where "collect (map f xs) = Inr ys" "map g ys = map h xs"
    using Cons.IH Cons.prems by (metis list.set_intros(2))
  ultimately show ?case by simp
qed simp

lemma marshal_object:
  assumes "\<And>k v. (k, v) \<in> set m \<Longrightarrow> \<exists>j. json_marshal mo v = Inr j \<and> json_value j = json_image v"
  shows "\<exists>kvs. collect (map (\<lambda>(k, v). bind_res (json_marshal mo v) (\<lambda>j. Inr (k, j))) m) = Inr kvs
    \<and> map (\<lambda>(k, j). (k, json_value j)) kvs = map (\<lambda>(k, v). (k, json_image v)) m"
proof (rule collect_map_Inr)
  fix x assume "x \<in> set m"
  then show "\<exists>y. (\<lambda>(k, v). bind_res (json_marshal mo v) (\<lambda>j. Inr (k, j))) x = Inr y
    \<and> (\<lambda>(k, j). (k, json_value j)) y = (\<lambda>(k, v). (k, json_image v)) x"
  proof (cases x rule: prod.exhaust)
    case (Pair k v)
    then obtain j where "json_marshal mo v = Inr j" "json_value j = json_image v"
      using assms \<open>x \<in> set m\<close> by blast
    then show ?thesis using Pair by simp
  qed
qed

lemma marshal_value:
  "storable v \<Longrightarrow> \<exists>j. json_marshal mo v = Inr j \<and> json_value j = json_image v"
proof (induction v)
  case (VFloat f)
  then show ?case by (cases f) auto
next
  case (VCtx m)
  have "\<exists>j. json_marshal mo v = Inr j \<and> json_value j = json_image v" if "(k, v) \<in> set m" for k v
    using VCtx that by (auto simp: list_all_iff)
  then have "\<exists>kvs. collect (map (\<lambda>(k, v). bind_res (json_marshal mo v) (\<lambda>j. Inr (k, j))) m) = Inr kvs
    \<and> map (\<lambda>(k, j). (k, json_value j)) kvs = map (\<lambda>(k, v). (k, json_image v)) m"
    by (rule marshal_object)
  then show ?case by auto
next
  case (VMap m)
  have "\<exists>j. json_marshal mo v = Inr j \<and> json_value j = json_image v" if "(k, v) \<in> set m" for k v
    using VMap that by (auto simp: list_all_iff)
  then have "\<exists>kvs. collect (map (\<lambda>(k, v). bind_res (json_marshal mo v) (\<lambda>j. Inr (k, j))) m) = Inr kvs
    \<and> map (\<lambda>(k, j). (k, json_value j)) kvs = map (\<lambda>(k, v). (k, json_image v)) m"
    by (rule marshal_object)
  then show ?case by auto
next
  case (VList vs)
  have "\<exists>j. json_marshal mo v = Inr j \<and> json_value j = json_image v" if "v \<in> set vs" for v
    using VList that by (auto simp: list_all_iff)
  from collect_map_Inr[of vs "json_marshal mo" json_value json_image, OF this]
  show ?case by auto
qed auto

lemma gm_get_map_values: "gm_get (map (\<lambda>(k, v). (k, f v)) m) k = map_option f (gm_get m k)"
  by (induction m) auto

lemma gm_wf_map_values [simp]: "gm_wf (map (\<lambda>(k, v). (k, f v)) m) = gm_wf m"
  by (simp add: gm_wf_def comp_def case_prod_beta)

text \<open>A context and parameters come back entry by entry, each value as its image.\<close>

lemma ctx_roundtrip:
  assumes "gm_wf c" "storable (VCtx c)"
  obtains d c' where "ExecutionContext_Value mo c = Inr d" "ExecutionContext_Scan d [] = Inr c'"
    "\<And>k. gm_get c' k = map_option json_image (gm_get c k)"
proof -
  obtain j where j: "json_marshal mo (VCtx c) = Inr j" "json_value j = json_image (VCtx c)"
    using marshal_value[OF assms(2)] by blast
  then obtain kvs where kvs: "j = JObj kvs" by (auto simp: bind_res_Inr_iff)
  let ?img = "map (\<lambda>(k, v). (k, json_image v)) c"
  have "map (\<lambda>(k, j). (k, json_value j)) kvs = ?img" using j kvs by simp
  then have "ExecutionContext_Scan (DbString (TJson j)) [] = Inr (gm_merge ?img [])"
    using kvs by (simp add: ExecutionContext_Scan_def scan_text_def)
  moreover have "ExecutionContext_Value mo c = Inr (DbString (TJson j))"
    using j(1) by (simp add: ExecutionContext_Value_def del: json_marshal.simps)
  moreover have "gm_get (gm_merge ?img []) k = map_option json_image (gm_get c k)" for k
    using assms(1) by (simp add: gm_get_merge gm_get_map_values split: option.splits)
  ultimately show ?thesis using that by blast
qed

lemma params_roundtrip:
  assumes "gm_wf m" "storable (VMap m)"
  obtains d m' where "JobParameters_Value mo \<lparr>Params = Some m\<rparr> = Inr d"
    "JobParameters_Scan d \<lparr>Params = None\<rparr> = Inr \<lparr>Params = Some m'\<rparr>"
    "\<And>k. gm_get m' k = map_option json_image (gm_get m k)"
proof -
  obtain j where j: "json_marshal mo (VMap m) = Inr j" "json_value j = json_image (VMap m)"
    using marshal_value[OF assms(2)] by blast
  then obtain kvs where kvs: "j = JObj kvs" by (auto simp: bind_res_Inr_iff)
  let ?img = "map (\<lambda>(k, v). (k, json_image v)) m"
  have "map (\<lambda>(k, j). (k, json_value j)) kvs = ?img" using j kvs by simp
  then have "JobParameters_Scan (DbString (TJson j)) \<lparr>Params = None\<rparr>
      = Inr \<lparr>Params = Some (gm_merge ?img [])\<rparr>"
    using kvs by (simp add: JobParameters_Scan_def scan_text_def jp_map_def)
  moreover have "JobParameters_Value mo \<lparr>Params = Some m\<rparr> = Inr (DbString (TJson j))"
    using j(1) by (simp add: JobParameters_Value_def del: json_marshal.simps)
  moreover have "gm_get (gm_merge ?img []) k = map_option json_image (gm_get m k)" for k
    using assms(1) by (simp add: gm_get_merge gm_get_map_values split: option.splits)
  ultimately show ?thesis using that by blast
qed

section \<open>Numbers through JSON\<close>

lemma bit_len_le: "n < 2 ^ k \<Longrightarrow> bit_len n \<le> k"
proof (induction k arbitrary: n)
  case (Suc k)
  have "n div 2 < 2 ^ k" using Suc.prems by auto
  then show ?case using Suc.IH[of "n div 2"] by (subst bit_len.simps) auto
qed (simp add: bit_len.simps)

lemma round53_small: "n < 2 ^ 53 \<Longrightarrow> round53 n = n"
  using bit_len_le[of n 53] by (simp add: round53_def Let_def)

lemma f64_of_int_small:
  assumes "\<bar>i\<bar> < 2 ^ 53"
  shows "f64_of_int i = Fin (of_int i)"
proof -
  have "nat \<bar>i\<bar> < 2 ^ 53" using assms by (simp add: nat_less_iff)
  then have "sgn i * int (round53 (nat \<bar>i\<bar>)) = i"
    by (simp add: round53_small sgn_mult_abs)
  then show ?thesis by (simp add: f64_of_int_def)
qed

lemma rat_trunc_of_int [simp]: "rat_trunc (of_int i) = i"
  by (simp add: rat_trunc_def)

lemma int_of_f64_of_int:
  assumes "\<bar>i\<bar> < 2 ^ 53"
  shows "int_of_f64 oor (f64_of_int i) = i"
proof -
  have "- (2 ^ 63) \<le> i" "i < 2 ^ 63" using assms by simp_all
  then show ?thesis using assms by (simp add: f64_of_int_small Let_def)
qed

lemma f64_eq_refl_Fin: "f64_eq (f64_of_int i) (f64_of_int i)"
  by (simp add: f64_of_int_def)

section \<open>Parameters after storage\<close>

text \<open>Values of the dynamic types that have an equality and a JSON form.\<close>

fun scalar :: "gval \<Rightarrow> bool" where
  "scalar VNil = True"
| "scalar (VStr s) = True"
| "scalar (VInt i) = True"
| "scalar (VBool b) = True"
| "scalar (VFloat f) = (case f of Fin r \<Rightarrow> True | _ \<Rightarrow> False)"
| "scalar _ = False"

lemma scalar_storable: "scalar v \<Longrightarrow> storable v"
  by (cases v) (auto split: f64.splits)

lemma scalar_matches_image:
  "scalar v \<Longrightarrow> param_matches (json_image v) v = Some True"
  "scalar v \<Longrightarrow> param_matches v (json_image v) = Some True"
  by (cases v; auto simp: param_matches_def toFloat64_def f64_eq_refl_Fin split: f64.splits)+

lemma contains_loop_True:
  "(\<And>k v. (k, v) \<in> set m \<Longrightarrow> \<exists>val. gm_get m' k = Some val \<and> param_matches val v = Some True) \<Longrightarrow>
     contains_loop m' m = Some True"
proof (induction m)
  case (Cons kv m)
  obtain k v where kv: "kv = (k, v)" by (cases kv)
  then obtain val where "gm_get m' k = Some val" "param_matches val v = Some True"
    using Cons.prems[of k v] by auto
  then show ?case using Cons kv by auto
qed simp



lemma nat_str_digits: "c \<in> set (nat_str n) \<Longrightarrow> c \<noteq> CHR ''e''"
proof (induction n rule: nat_str.induct)
  case (1 n)
  have d: "char_of (48 + d) \<noteq> CHR ''e''" if "d < 10" for d :: nat
  proof
    assume "char_of (48 + d) = CHR ''e''"
    then have "of_char (char_of (48 + d) :: char) = (of_char CHR ''e'' :: nat)" by simp
    then show False using that by simp
  qed
  show ?case
  proof (cases "n < 10")
    case True
    then show ?thesis using 1 d[of n] by (subst (asm) nat_str.simps) auto
  next
    case False
    then show ?thesis using 1 d[of "n mod 10"] by (subst (asm) nat_str.simps) auto
  qed
qed

lemma int_g_eq: "int_g i = int_str i \<longleftrightarrow> \<bar>i\<bar> < 10 ^ 6"
proof
  assume eq: "int_g i = int_str i"
  show "\<bar>i\<bar> < 10 ^ 6"
  proof (rule ccontr)
    assume "\<not> \<bar>i\<bar> < 10 ^ 6"
    then have "CHR ''e'' \<in> set (int_g i)"
      by (simp add: int_g_def exp_form_def Let_def)
    moreover have "CHR ''e'' \<notin> set (int_str i)"
      using nat_str_digits by (auto simp: int_str_def)
    ultimately show False using eq by simp
  qed
qed (simp add: int_g_def)

lemma float_v_of_int:
  "\<bar>i\<bar> < 2 ^ 53 \<Longrightarrow> float_v ff (f64_of_int i) = int_g i"
  by (simp add: f64_of_int_small float_v_def Let_def)

text \<open>
  The exact search for a stored job instance by an integer parameter succeeds only below
  one million: the stored value comes back as a \<open>float64\<close>, whose text switches to exponent
  form there, and \<open>Equal\<close> compares texts.
\<close>

theorem params_equal_after_storage:
  assumes "\<bar>i\<bar> < 2 ^ 53"
  shows "\<exists>d jp'. JobParameters_Value mo \<lparr>Params = Some [(k, VInt i)]\<rparr> = Inr d
    \<and> JobParameters_Scan d \<lparr>Params = None\<rparr> = Inr jp'
    \<and> (JobParameters_Equal ff fo jp' \<lparr>Params = Some [(k, VInt i)]\<rparr> \<longleftrightarrow> \<bar>i\<bar> < 10 ^ 6)"
  using assms int_g_eq[of i]
  by (simp add: JobParameters_Value_def JobParameters_Scan_def scan_text_def jp_map_def
      JobParameters_Equal_def float_v_of_int)

lemma params_equal_after_storage_witness:
  "\<exists>d jp'. JobParameters_Value (\<lambda>t n. Inl json_unsupported) \<lparr>Params = Some [(''run.id'', VInt 1000000)]\<rparr> = Inr d
    \<and> JobParameters_Scan d \<lparr>Params = None\<rparr> = Inr jp'
    \<and> \<not> JobParameters_Equal (\<lambda>f. []) (\<lambda>t n. []) jp' \<lparr>Params = Some [(''run.id'', VInt 1000000)]\<rparr>"
  using params_equal_after_storage[of 1000000 "\<lambda>t n. Inl json_unsupported" "''run.id''"
      "\<lambda>f. []" "\<lambda>t n. []"]
  by simp

text \<open>Equality by text does not tell a string from the value it spells.\<close>

lemma params_equal_confuses_types:
  "JobParameters_Equal ff fo \<lparr>Params = Some [(k, VStr ''1'')]\<rparr> \<lparr>Params = Some [(k, VInt 1)]\<rparr>"
proof -
  have "nat_str 1 = ''1''" by code_simp
  then show ?thesis by (simp add: JobParameters_Equal_def jp_map_def int_str_def)
qed

text \<open>Parameters print alike in whatever order their map is visited.\<close>

lemma params_equal_order:
  assumes "gm_wf m" "set m' = set m" "gm_wf m'"
  shows "JobParameters_Equal ff fo \<lparr>Params = Some m\<rparr> \<lparr>Params = Some m'\<rparr>"
proof -
  let ?f = "\<lambda>(k, v). (k, fmt_v ff fo v)"
  have d: "distinct (map fst (map ?f m))" "distinct (map fst (map ?f m'))"
    using assms by (auto simp: gm_wf_def comp_def case_prod_beta)
  then have "sort_key fst (map ?f m) = sort_key fst (map ?f m')"
    using assms(2)
    by (intro map_sorted_distinct_set_unique[of fst])
      (auto simp: inj_on_def distinct_map dest: eq_key_imp_eq_value)
  then show ?thesis by (simp add: JobParameters_Equal_def jp_map_def)
qed

section \<open>Contexts after storage\<close>

lemma image_getters:
  "(case json_image v of VStr s \<Rightarrow> Some s | _ \<Rightarrow> None) = (case v of VStr s \<Rightarrow> Some s | _ \<Rightarrow> None)"
  "(case json_image v of VBool b \<Rightarrow> Some b | _ \<Rightarrow> None) = (case v of VBool b \<Rightarrow> Some b | _ \<Rightarrow> None)"
  by (cases v; simp)+

lemma get_path_through_map:
  assumes "gm_get c k = Some (VMap m)" "CHR ''.'' \<notin> set k"
  shows "get_path (str_split CHR ''.'' (k @ ''.'' @ p)) c = None"
proof -
  have "str_split CHR ''.'' (k @ ''.'' @ p) = k # str_split CHR ''.'' p"
    using str_split_append[OF assms(2), of p] by simp
  then show ?thesis using assms(1)
    by (cases "str_split CHR ''.'' p") (simp_all add: str_split_not_Nil[THEN notE])
qed

text \<open>
  A context that is stored and read back keeps its strings and booleans, and its integers
  below \<open>2 ^ 53\<close> when they are read with \<open>GetInt\<close>; a nested context comes back as a plain
  map, in which \<open>GetNested\<close> finds nothing any more.
\<close>

theorem ctx_getters_after_storage:
  assumes "gm_wf c" "storable (VCtx c)"
  shows "\<exists>d c'. ExecutionContext_Value mo c = Inr d \<and> ExecutionContext_Scan d [] = Inr c'
    \<and> (\<forall>k. ExecutionContext_GetString c' k = ExecutionContext_GetString c k)
    \<and> (\<forall>k. ExecutionContext_GetBool c' k = ExecutionContext_GetBool c k)
    \<and> (\<forall>k i. gm_get c k = Some (VInt i) \<longrightarrow> \<bar>i\<bar> < 2 ^ 53 \<longrightarrow>
         ExecutionContext_GetInt oor c' k = Some i)
    \<and> (\<forall>k m p. gm_get c k = Some (VCtx m) \<longrightarrow> CHR ''.'' \<notin> set k \<longrightarrow>
         gm_get c (k @ ''.'' @ p) = None \<longrightarrow>
         ExecutionContext_GetNested c' (k @ ''.'' @ p) = None)"
proof -
  obtain d c' where rt: "ExecutionContext_Value mo c = Inr d" "ExecutionContext_Scan d [] = Inr c'"
    "\<And>k. gm_get c' k = map_option json_image (gm_get c k)"
    using ctx_roundtrip[OF assms] by blast
  have "ExecutionContext_GetString c' k = ExecutionContext_GetString c k" for k
    by (cases "gm_get c k")
      (simp_all add: ExecutionContext_GetString_def rt(3) image_getters)
  moreover have "ExecutionContext_GetBool c' k = ExecutionContext_GetBool c k" for k
    by (cases "gm_get c k")
      (simp_all add: ExecutionContext_GetBool_def rt(3) image_getters)
  moreover have "ExecutionContext_GetInt oor c' k = Some i"
    if "gm_get c k = Some (VInt i)" "\<bar>i\<bar> < 2 ^ 53" for k i
    using that by (simp add: ExecutionContext_GetInt_def rt(3) int_of_f64_of_int
        del: int_of_f64.simps)
  moreover have "ExecutionContext_GetNested c' (k @ ''.'' @ p) = None"
    if "gm_get c k = Some (VCtx m)" "CHR ''.'' \<notin> set k" "gm_get c (k @ ''.'' @ p) = None" for k m p
  proof -
    have "gm_get c' (k @ ''.'' @ p) = None" using that(3) by (simp add: rt(3))
    moreover have "gm_get c' k = Some (VMap (map (\<lambda>(k, v). (k, json_image v)) m))"
      using that(1) by (simp add: rt(3))
    ultimately show ?thesis using get_path_through_map[OF _ that(2)]
      by (simp add: ExecutionContext_GetNested_def)
  qed
  ultimately show ?thesis using rt(1,2) by blast
qed

lemma ctx_getters_after_storage_witness:
  "\<exists>d c'. ExecutionContext_Value (\<lambda>t n. Inl json_unsupported)
      [(''n'', VInt 42), (''reader'', VCtx [(''pos'', VInt 3)])] = Inr d
    \<and> ExecutionContext_Scan d [] = Inr c'
    \<and> ExecutionContext_GetInt (\<lambda>f. 0) c' ''n'' = Some 42
    \<and> ExecutionContext_GetNested c' ''reader.pos'' = None"
proof -
  obtain d c' where r: "ExecutionContext_Value (\<lambda>t n. Inl json_unsupported)
      [(''n'', VInt 42), (''reader'', VCtx [(''pos'', VInt 3)])] = Inr d"
    "ExecutionContext_Scan d [] = Inr c'"
    "\<forall>k i. gm_get [(''n'', VInt 42), (''reader'', VCtx [(''pos'', VInt 3)])] k = Some (VInt i) \<longrightarrow>
       \<bar>i\<bar> < 2 ^ 53 \<longrightarrow> ExecutionContext_GetInt (\<lambda>f. 0) c' k = Some i"
    "\<forall>k m p. gm_get [(''n'', VInt 42), (''reader'', VCtx [(''pos'', VInt 3)])] k = Some (VCtx m) \<longrightarrow>
       CHR ''.'' \<notin> set k \<longrightarrow>
       gm_get [(''n'', VInt 42), (''reader'', VCtx [(''pos'', VInt 3)])] (k @ ''.'' @ p) = None \<longrightarrow>
       ExecutionContext_GetNested c' (k @ ''.'' @ p) = None"
    using ctx_getters_after_storage[of "[(''n'', VInt 42), (''reader'', VCtx [(''pos'', VInt 3)])]"
        "\<lambda>t n. Inl json_unsupported" "\<lambda>f. 0"]
    by (auto simp: gm_wf_def simp del: json_marshal.simps)
  have "ExecutionContext_GetInt (\<lambda>f. 0) c' ''n'' = Some 42"
    using r(3)[rule_format, of "''n''" 42] by simp
  moreover have "ExecutionContext_GetNested c' ''reader.pos'' = None"
    using r(4)[rule_format, of "''reader''" "[(''pos'', VInt 3)]" "''pos''"] by simp
  ultimately show ?thesis using r(1,2) by blast
qed

text \<open>
  \<open>Put\<close> on parameters whose map is nil (the zero value, as \<open>JobParameters\<close> embedded in a
  struct starts out) loses the entry, although the code allocates a map for it; on any other
  parameters the entry is found and every other entry kept.
\<close>

theorem params_put:
  "(case Params jp of
      None \<Rightarrow> JobParameters_Put k v jp = jp
    | Some m \<Rightarrow> (\<forall>k'. gm_get (jp_map (JobParameters_Put k v jp)) k' =
                   (if k' = k then Some v else gm_get (jp_map jp) k')))"
  by (auto simp: JobParameters_Put_def jp_map_def split: option.splits)

end
