(* ===== verification/Batch_Model.thy ===== *)
theory Batch_Model
  imports Batch_Values
begin

text \<open>
  \<open>core/domain/model/models.go\<close>, second half: statuses, job instances, job and step executions,
  their transitions, and flow definitions. Times are integers passed in by the caller of
  \<open>time.Now\<close>; identifiers are passed in by the caller of \<open>NewID\<close>. A job execution holds its
  step executions; the pointer back from a step execution is its \<open>se_JobExecutionID\<close>.
\<close>

type_synonym time = int

section \<open>Statuses\<close>

text \<open>Go's string types: the named constants, and any other string (\<open>[]\<close> is the zero value).\<close>

datatype JobStatus =
    STARTING | STARTED | STOPPING | STOPPED | COMPLETED | FAILED | ABANDONED | COMPLETING
  | STOPPING_FAILED | RESTARTING | UNKNOWN | CANCELLED | OtherStatus string

datatype ExitStatus =
    ExitUnknown | ExitCompleted | ExitFailed | ExitStopped | ExitAbandoned | ExitNoOp
  | OtherExit string

fun JobStatus_String :: "JobStatus \<Rightarrow> string" where
  "JobStatus_String STARTING = ''STARTING''"
| "JobStatus_String STARTED = ''STARTED''"
| "JobStatus_String STOPPING = ''STOPPING''"
| "JobStatus_String STOPPED = ''STOPPED''"
| "JobStatus_String COMPLETED = ''COMPLETED''"
| "JobStatus_String FAILED = ''FAILED''"
| "JobStatus_String ABANDONED = ''ABANDONED''"
| "JobStatus_String COMPLETING = ''COMPLETING''"
| "JobStatus_String STOPPING_FAILED = ''STOPPING_FAILED''"
| "JobStatus_String RESTARTING = ''RESTARTING''"
| "JobStatus_String UNKNOWN = ''UNKNOWN''"
| "JobStatus_String CANCELLED = ''CANCELLED''"
| "JobStatus_String (OtherStatus s) = s"

fun IsFinished :: "JobStatus \<Rightarrow> bool" where
  "IsFinished COMPLETED = True"
| "IsFinished FAILED = True"
| "IsFinished STOPPED = True"
| "IsFinished ABANDONED = True"
| "IsFinished CANCELLED = True"
| "IsFinished _ = False"

fun ToExitStatus :: "JobStatus \<Rightarrow> ExitStatus" where
  "ToExitStatus COMPLETED = ExitCompleted"
| "ToExitStatus FAILED = ExitFailed"
| "ToExitStatus STOPPED = ExitStopped"
| "ToExitStatus ABANDONED = ExitAbandoned"
| "ToExitStatus CANCELLED = ExitStopped"
| "ToExitStatus _ = ExitUnknown"

fun ExitStatus_String :: "ExitStatus \<Rightarrow> string" where
  "ExitStatus_String ExitUnknown = ''UNKNOWN''"
| "ExitStatus_String ExitCompleted = ''COMPLETED''"
| "ExitStatus_String ExitFailed = ''FAILED''"
| "ExitStatus_String ExitStopped = ''STOPPED''"
| "ExitStatus_String ExitAbandoned = ''ABANDONED''"
| "ExitStatus_String ExitNoOp = ''NO_OP''"
| "ExitStatus_String (OtherExit s) = s"

text \<open>The conversions \<open>model.JobStatus(s)\<close> and \<open>model.ExitStatus(s)\<close> of a string.\<close>

definition JobStatus_of :: "string \<Rightarrow> JobStatus" where
  "JobStatus_of s =
     (case find (\<lambda>st. JobStatus_String st = s)
         [STARTING, STARTED, STOPPING, STOPPED, COMPLETED, FAILED, ABANDONED, COMPLETING,
          STOPPING_FAILED, RESTARTING, UNKNOWN, CANCELLED] of
        Some st \<Rightarrow> st | None \<Rightarrow> OtherStatus s)"

definition ExitStatus_of :: "string \<Rightarrow> ExitStatus" where
  "ExitStatus_of s =
     (case find (\<lambda>st. ExitStatus_String st = s)
         [ExitUnknown, ExitCompleted, ExitFailed, ExitStopped, ExitAbandoned, ExitNoOp] of
        Some st \<Rightarrow> st | None \<Rightarrow> OtherExit s)"

section \<open>Executions\<close>

record JobInstance =
  ji_ID :: string
  ji_JobName :: string
  ji_Parameters :: JobParameters
  ji_ParametersHash :: string
  ji_Version :: int
  ji_CreateTime :: time

record StepExecution =
  se_ID :: string
  se_StepName :: string
  se_JobExecutionID :: string
  se_Status :: JobStatus
  se_ExitStatus :: ExitStatus
  se_StartTime :: time
  se_EndTime :: "time option"
  se_LastUpdated :: time
  se_ExecutionContext :: ec
  se_ReadCount :: int
  se_WriteCount :: int
  se_CommitCount :: int
  se_RollbackCount :: int
  se_FilterCount :: int
  se_SkipReadCount :: int
  se_SkipProcessCount :: int
  se_SkipWriteCount :: int
  se_Failures :: "string list"
  se_Version :: int

record JobExecution =
  je_ID :: string
  je_JobInstanceID :: string
  je_JobName :: string
  je_Status :: JobStatus
  je_ExitStatus :: ExitStatus
  je_ExitCode :: int
  je_StartTime :: time
  je_EndTime :: "time option"
  je_CreateTime :: time
  je_LastUpdated :: time
  je_ExecutionContext :: ec
  je_Parameters :: JobParameters
  je_Failures :: "string list"
  je_Version :: int
  je_RestartCount :: int
  je_StepExecutions :: "StepExecution list"
  je_CurrentStepName :: string

record CheckpointData =
  cd_StepExecutionID :: string
  cd_ExecutionContext :: ec
  cd_LastUpdated :: time

record ExecutionContextPromotion =
  pr_Keys :: "string list"
  pr_JobLevelKeys :: "(string, string) gomap"

text \<open>Go's zero value: no status, no identifiers, no times.\<close>

definition zero_time :: time where
  "zero_time = 0"

definition zero_StepExecution :: StepExecution where
  "zero_StepExecution =
     \<lparr>se_ID = [], se_StepName = [], se_JobExecutionID = [], se_Status = OtherStatus [],
      se_ExitStatus = OtherExit [], se_StartTime = zero_time, se_EndTime = None,
      se_LastUpdated = zero_time, se_ExecutionContext = [], se_ReadCount = 0, se_WriteCount = 0,
      se_CommitCount = 0, se_RollbackCount = 0, se_FilterCount = 0, se_SkipReadCount = 0,
      se_SkipProcessCount = 0, se_SkipWriteCount = 0, se_Failures = [], se_Version = 0\<rparr>"

definition CopyForRestart :: "string \<Rightarrow> StepExecution \<Rightarrow> StepExecution" where
  "CopyForRestart newID se = zero_StepExecution
     \<lparr>se_ID := newID, se_StepName := se_StepName se,
      se_ExecutionContext := ExecutionContext_Copy (se_ExecutionContext se)\<rparr>"

text \<open>\<open>now1\<close> and \<open>now2\<close> are the two readings of the clock.\<close>

definition NewJobExecution ::
  "string \<Rightarrow> time \<Rightarrow> time \<Rightarrow> string \<Rightarrow> string \<Rightarrow> JobParameters \<Rightarrow> JobExecution" where
  "NewJobExecution newID now1 now2 jobInstanceID jobName params =
     \<lparr>je_ID = newID, je_JobInstanceID = jobInstanceID, je_JobName = jobName,
      je_Status = STARTING, je_ExitStatus = ExitUnknown, je_ExitCode = 0, je_StartTime = now1,
      je_EndTime = None, je_CreateTime = now2, je_LastUpdated = zero_time,
      je_ExecutionContext = NewExecutionContext, je_Parameters = params, je_Failures = [],
      je_Version = 0, je_RestartCount = 0, je_StepExecutions = [], je_CurrentStepName = []\<rparr>"

text \<open>\<open>hash\<close> is the hexadecimal text of the parameters' JSON, empty when that fails.\<close>

definition NewJobInstance ::
  "string \<Rightarrow> time \<Rightarrow> (JobParameters \<Rightarrow> string) \<Rightarrow> string \<Rightarrow> JobParameters \<Rightarrow> JobInstance" where
  "NewJobInstance newID now hash jobName params =
     \<lparr>ji_ID = newID, ji_JobName = jobName, ji_Parameters = params,
      ji_ParametersHash = hash params, ji_Version = 0, ji_CreateTime = now\<rparr>"

definition NewStepExecution :: "time \<Rightarrow> string \<Rightarrow> JobExecution \<Rightarrow> string \<Rightarrow> StepExecution" where
  "NewStepExecution now newID jobExec stepName = zero_StepExecution
     \<lparr>se_ID := newID, se_JobExecutionID := je_ID jobExec, se_StepName := stepName,
      se_Status := STARTING, se_ExitStatus := ExitUnknown, se_StartTime := now,
      se_ExecutionContext := NewExecutionContext, se_Failures := []\<rparr>"

definition NewExecutionContextPromotion :: ExecutionContextPromotion where
  "NewExecutionContextPromotion = \<lparr>pr_Keys = [], pr_JobLevelKeys = []\<rparr>"

definition IncrementRestartCount :: "time \<Rightarrow> JobExecution \<Rightarrow> JobExecution" where
  "IncrementRestartCount now je =
     je\<lparr>je_RestartCount := je_RestartCount je + 1, je_LastUpdated := now\<rparr>"

section \<open>Transitions\<close>

definition isValidJobTransition :: "JobStatus \<Rightarrow> JobStatus \<Rightarrow> bool" where
  "isValidJobTransition from to = (case from of
       STARTING \<Rightarrow> to = STARTED \<or> to = FAILED
     | STARTED \<Rightarrow> to = STOPPING \<or> to = COMPLETED \<or> to = FAILED
     | STOPPING \<Rightarrow> to = STOPPED
     | STOPPED \<Rightarrow> to = RESTARTING
     | RESTARTING \<Rightarrow> to = STARTED \<or> to = FAILED
     | FAILED \<Rightarrow> to = ABANDONED \<or> to = RESTARTING
     | _ \<Rightarrow> False)"

definition isValidStepTransition :: "JobStatus \<Rightarrow> JobStatus \<Rightarrow> bool" where
  "isValidStepTransition from to = (case from of
       STARTING \<Rightarrow> to = STARTED \<or> to = FAILED \<or> to = CANCELLED
     | STARTED \<Rightarrow> to = COMPLETED \<or> to = FAILED \<or> to = STOPPED \<or> to = CANCELLED
     | STOPPED \<Rightarrow> to = STARTED
     | _ \<Rightarrow> False)"

definition transition_error :: "JobStatus \<Rightarrow> JobStatus \<Rightarrow> goerr" where
  "transition_error from to = plain_error
     (''Invalid state transition: '' @ JobStatus_String from @ '' -> '' @ JobStatus_String to)"

definition JobExecution_TransitionTo ::
  "time \<Rightarrow> JobStatus \<Rightarrow> JobExecution \<Rightarrow> goerr + JobExecution" where
  "JobExecution_TransitionTo now status je =
     (if \<not> isValidJobTransition (je_Status je) status
      then Inl (transition_error (je_Status je) status)
      else Inr (je\<lparr>je_Status := status, je_LastUpdated := now\<rparr>))"

definition StepExecution_TransitionTo ::
  "time \<Rightarrow> JobStatus \<Rightarrow> StepExecution \<Rightarrow> goerr + StepExecution" where
  "StepExecution_TransitionTo now status se =
     (if \<not> isValidStepTransition (se_Status se) status
      then Inl (transition_error (se_Status se) status)
      else Inr (se\<lparr>se_Status := status, se_LastUpdated := now\<rparr>))"

definition add_failure :: "goerr \<Rightarrow> string list \<Rightarrow> string list" where
  "add_failure err fs = (let msg = Error_text err in if msg \<in> set fs then fs else fs @ [msg])"

definition JobExecution_AddFailureException :: "goerr \<Rightarrow> JobExecution \<Rightarrow> JobExecution" where
  "JobExecution_AddFailureException err je = je\<lparr>je_Failures := add_failure err (je_Failures je)\<rparr>"

definition StepExecution_AddFailureException :: "goerr \<Rightarrow> StepExecution \<Rightarrow> StepExecution" where
  "StepExecution_AddFailureException err se = se\<lparr>se_Failures := add_failure err (se_Failures se)\<rparr>"

definition JobExecution_MarkAsStarted :: "time \<Rightarrow> JobExecution \<Rightarrow> JobExecution" where
  "JobExecution_MarkAsStarted now je = je\<lparr>je_Status := STARTED, je_LastUpdated := now\<rparr>"

definition JobExecution_MarkAsCompleted :: "time \<Rightarrow> JobExecution \<Rightarrow> JobExecution" where
  "JobExecution_MarkAsCompleted now je =
     je\<lparr>je_Status := COMPLETED, je_ExitStatus := ExitCompleted,
        je_EndTime := Some now, je_LastUpdated := now\<rparr>"

definition JobExecution_MarkAsFailed :: "time \<Rightarrow> goerr \<Rightarrow> JobExecution \<Rightarrow> JobExecution" where
  "JobExecution_MarkAsFailed now err je = JobExecution_AddFailureException err
     (je\<lparr>je_Status := FAILED, je_ExitStatus := ExitFailed,
         je_EndTime := Some now, je_LastUpdated := now\<rparr>)"

definition JobExecution_MarkAsStopped :: "time \<Rightarrow> JobExecution \<Rightarrow> JobExecution" where
  "JobExecution_MarkAsStopped now je =
     je\<lparr>je_Status := STOPPED, je_ExitStatus := ExitStopped,
        je_EndTime := Some now, je_LastUpdated := now\<rparr>"

definition JobExecution_MarkAsAbandoned :: "time \<Rightarrow> JobExecution \<Rightarrow> JobExecution" where
  "JobExecution_MarkAsAbandoned now je =
     je\<lparr>je_Status := ABANDONED, je_ExitStatus := ExitAbandoned,
        je_EndTime := Some now, je_LastUpdated := now\<rparr>"

definition AddStepExecution :: "StepExecution \<Rightarrow> JobExecution \<Rightarrow> JobExecution" where
  "AddStepExecution se je = je\<lparr>je_StepExecutions := je_StepExecutions je @ [se]\<rparr>"

definition StepExecution_MarkAsStarted :: "time \<Rightarrow> StepExecution \<Rightarrow> StepExecution" where
  "StepExecution_MarkAsStarted now se = se\<lparr>se_Status := STARTED, se_LastUpdated := now\<rparr>"

definition StepExecution_MarkAsCompleted :: "time \<Rightarrow> StepExecution \<Rightarrow> StepExecution" where
  "StepExecution_MarkAsCompleted now se =
     se\<lparr>se_Status := COMPLETED, se_ExitStatus := ExitCompleted,
        se_EndTime := Some now, se_LastUpdated := now\<rparr>"

definition StepExecution_MarkAsFailed :: "time \<Rightarrow> goerr \<Rightarrow> StepExecution \<Rightarrow> StepExecution" where
  "StepExecution_MarkAsFailed now err se = StepExecution_AddFailureException err
     (se\<lparr>se_Status := FAILED, se_ExitStatus := ExitFailed,
         se_EndTime := Some now, se_LastUpdated := now\<rparr>)"

definition StepExecution_MarkAsStopped :: "time \<Rightarrow> StepExecution \<Rightarrow> StepExecution" where
  "StepExecution_MarkAsStopped now se =
     se\<lparr>se_Status := STOPPED, se_ExitStatus := ExitStopped,
        se_EndTime := Some now, se_LastUpdated := now\<rparr>"

section \<open>Flow definitions\<close>

record Transition =
  tr_To :: string
  tr_End :: bool
  tr_Fail :: bool
  tr_Stop :: bool

record 'el FlowDefinition =
  fd_StartElement :: string
  fd_Elements :: "(string, 'el) gomap"
  fd_Transitions :: "(string, Transition list) gomap"

definition NewFlowDefinition :: "string \<Rightarrow> 'el FlowDefinition" where
  "NewFlowDefinition start = \<lparr>fd_StartElement = start, fd_Elements = [], fd_Transitions = []\<rparr>"

definition AddElement :: "string \<Rightarrow> 'el \<Rightarrow> 'el FlowDefinition \<Rightarrow> goerr + 'el FlowDefinition" where
  "AddElement eid element fd =
     (if gm_get (fd_Elements fd) eid \<noteq> None
      then Inl (plain_error (''element with ID '' @ quoted eid @ '' already exists''))
      else Inr (fd\<lparr>fd_Elements := gm_put eid element (fd_Elements fd)\<rparr>))"

text \<open>The status a rule is declared for is not kept.\<close>

definition AddTransitionRule ::
  "string \<Rightarrow> string \<Rightarrow> string \<Rightarrow> bool \<Rightarrow> bool \<Rightarrow> bool \<Rightarrow> 'el FlowDefinition \<Rightarrow> 'el FlowDefinition" where
  "AddTransitionRule from status to endF fail stop fd =
     (let rules = (case gm_get (fd_Transitions fd) from of Some rs \<Rightarrow> rs | None \<Rightarrow> [])
      in fd\<lparr>fd_Transitions := gm_put from
             (rules @ [\<lparr>tr_To = to, tr_End = endF, tr_Fail = fail, tr_Stop = stop\<rparr>])
             (fd_Transitions fd)\<rparr>)"

text \<open>The first rule of the element, for every exit status.\<close>

definition GetTransitionRule ::
  "'el FlowDefinition \<Rightarrow> string \<Rightarrow> ExitStatus \<Rightarrow> bool \<Rightarrow> Transition option" where
  "GetTransitionRule fd from status isError = (case gm_get (fd_Transitions fd) from of
       None \<Rightarrow> None
     | Some [] \<Rightarrow> None
     | Some (r # rs) \<Rightarrow> Some r)"

section \<open>Lemmas\<close>

lemmas mark_defs = JobExecution_MarkAsStarted_def JobExecution_MarkAsCompleted_def
  JobExecution_MarkAsFailed_def JobExecution_MarkAsStopped_def JobExecution_MarkAsAbandoned_def
  StepExecution_MarkAsStarted_def StepExecution_MarkAsCompleted_def
  StepExecution_MarkAsFailed_def StepExecution_MarkAsStopped_def
  JobExecution_AddFailureException_def StepExecution_AddFailureException_def

lemma JobStatus_of_String:
  "JobStatus_String (JobStatus_of s) = s"
  by (auto simp: JobStatus_of_def)

lemma JobStatus_of_const:
  "(\<forall>t. s \<noteq> OtherStatus t) \<Longrightarrow> JobStatus_of (JobStatus_String s) = s"
  by (cases s) (simp_all add: JobStatus_of_def)

lemma ExitStatus_of_String:
  "ExitStatus_String (ExitStatus_of s) = s"
  by (auto simp: ExitStatus_of_def)

lemma ExitStatus_of_const:
  "(\<forall>t. s \<noteq> OtherExit t) \<Longrightarrow> ExitStatus_of (ExitStatus_String s) = s"
  by (cases s) (simp_all add: ExitStatus_of_def)

lemma add_failure_distinct: "distinct fs \<Longrightarrow> distinct (add_failure e fs)"
  by (simp add: add_failure_def Let_def)

lemma add_failure_mem [simp]: "set (add_failure e fs) = insert (Error_text e) (set fs)"
  by (auto simp: add_failure_def Let_def)

lemma add_failure_idem: "add_failure e (add_failure e fs) = add_failure e fs"
  by (auto simp: add_failure_def Let_def)

lemma mark_step_status [simp, status_simps]:
  "se_Status (StepExecution_MarkAsStarted n se) = STARTED"
  "se_Status (StepExecution_MarkAsCompleted n se) = COMPLETED"
  "se_Status (StepExecution_MarkAsFailed n e se) = FAILED"
  "se_Status (StepExecution_MarkAsStopped n se) = STOPPED"
  "se_ExitStatus (StepExecution_MarkAsCompleted n se) = ExitCompleted"
  "se_ExitStatus (StepExecution_MarkAsFailed n e se) = ExitFailed"
  "se_ExitStatus (StepExecution_MarkAsStopped n se) = ExitStopped"
  "se_ID (StepExecution_MarkAsStarted n se) = se_ID se"
  "se_ID (StepExecution_MarkAsCompleted n se) = se_ID se"
  "se_ID (StepExecution_MarkAsFailed n e se) = se_ID se"
  "se_ID (StepExecution_MarkAsStopped n se) = se_ID se"
  by (simp_all add: mark_defs)

lemma mark_job_status [simp, status_simps]:
  "je_Status (JobExecution_MarkAsStarted n je) = STARTED"
  "je_Status (JobExecution_MarkAsCompleted n je) = COMPLETED"
  "je_Status (JobExecution_MarkAsFailed n e je) = FAILED"
  "je_Status (JobExecution_MarkAsStopped n je) = STOPPED"
  "je_Status (JobExecution_MarkAsAbandoned n je) = ABANDONED"
  "je_ExitStatus (JobExecution_MarkAsCompleted n je) = ExitCompleted"
  "je_ExitStatus (JobExecution_MarkAsFailed n e je) = ExitFailed"
  "je_ExitStatus (JobExecution_MarkAsStopped n je) = ExitStopped"
  "je_ID (JobExecution_MarkAsStarted n je) = je_ID je"
  "je_ID (JobExecution_MarkAsCompleted n je) = je_ID je"
  "je_ID (JobExecution_MarkAsFailed n e je) = je_ID je"
  "je_ID (JobExecution_MarkAsStopped n je) = je_ID je"
  "je_ID (JobExecution_MarkAsAbandoned n je) = je_ID je"
  by (simp_all add: mark_defs)

text \<open>
  What a reader of a stored execution relies on: a finished one has an end time and the exit
  status of its status. Every \<open>MarkAs\<close> operation that finishes an execution establishes it.
\<close>

definition step_closed :: "StepExecution \<Rightarrow> bool" where
  "step_closed se \<longleftrightarrow> IsFinished (se_Status se) \<and> se_EndTime se = Some (se_LastUpdated se)
     \<and> se_ExitStatus se = ToExitStatus (se_Status se)"

definition job_closed :: "JobExecution \<Rightarrow> bool" where
  "job_closed je \<longleftrightarrow> IsFinished (je_Status je) \<and> je_EndTime je = Some (je_LastUpdated je)
     \<and> je_ExitStatus je = ToExitStatus (je_Status je)"

lemma mark_step_closed [simp]:
  "step_closed (StepExecution_MarkAsCompleted n se)"
  "step_closed (StepExecution_MarkAsFailed n e se)"
  "step_closed (StepExecution_MarkAsStopped n se)"
  by (simp_all add: step_closed_def mark_defs)

lemma mark_job_closed [simp]:
  "job_closed (JobExecution_MarkAsCompleted n je)"
  "job_closed (JobExecution_MarkAsFailed n e je)"
  "job_closed (JobExecution_MarkAsStopped n je)"
  "job_closed (JobExecution_MarkAsAbandoned n je)"
  by (simp_all add: job_closed_def mark_defs)

text \<open>The statuses an execution reaches by \<open>TransitionTo\<close>, with the history of the run.\<close>

inductive job_run :: "JobExecution \<Rightarrow> JobStatus list \<Rightarrow> JobExecution \<Rightarrow> bool" where
  job_run_Nil: "job_run je [] je"
| job_run_Step: "job_run je ss je' \<Longrightarrow> JobExecution_TransitionTo now s je' = Inr je'' \<Longrightarrow>
    job_run je (ss @ [s]) je''"

inductive step_run :: "StepExecution \<Rightarrow> JobStatus list \<Rightarrow> StepExecution \<Rightarrow> bool" where
  step_run_Nil: "step_run se [] se"
| step_run_Step: "step_run se ss se' \<Longrightarrow> StepExecution_TransitionTo now s se' = Inr se'' \<Longrightarrow>
    step_run se (ss @ [s]) se''"

inductive_cases job_run_elims: "job_run je ss je'"

lemma job_transition_iff:
  "JobExecution_TransitionTo now s je = Inr je' \<longleftrightarrow>
     isValidJobTransition (je_Status je) s \<and> je' = je\<lparr>je_Status := s, je_LastUpdated := now\<rparr>"
  by (auto simp: JobExecution_TransitionTo_def)

lemma step_transition_iff:
  "StepExecution_TransitionTo now s se = Inr se' \<longleftrightarrow>
     isValidStepTransition (se_Status se) s \<and> se' = se\<lparr>se_Status := s, se_LastUpdated := now\<rparr>"
  by (auto simp: StepExecution_TransitionTo_def)

lemma step_valid_cases:
  "isValidStepTransition a b \<Longrightarrow>
     a \<in> {STARTING, STARTED, STOPPED} \<and> b \<in> {STARTED, COMPLETED, FAILED, STOPPED, CANCELLED}"
  by (auto simp: isValidStepTransition_def split: JobStatus.splits)

lemma job_valid_cases:
  "isValidJobTransition a b \<Longrightarrow>
     a \<in> {STARTING, STARTED, STOPPING, STOPPED, RESTARTING, FAILED}
     \<and> b \<in> {STARTED, STOPPING, COMPLETED, FAILED, STOPPED, RESTARTING, ABANDONED}"
  by (auto simp: isValidJobTransition_def split: JobStatus.splits)

lemma job_valid_into:
  "isValidJobTransition a COMPLETED \<longleftrightarrow> a = STARTED"
  "isValidJobTransition a ABANDONED \<longleftrightarrow> a = FAILED"
  "isValidJobTransition a STOPPED \<longleftrightarrow> a = STOPPING"
  "isValidJobTransition a STOPPING \<longleftrightarrow> a = STARTED"
  by (auto simp: isValidJobTransition_def split: JobStatus.splits)

text \<open>The invariant of the job's status machine, from a new execution on.\<close>

definition job_hist_ok :: "JobStatus list \<Rightarrow> JobStatus \<Rightarrow> bool" where
  "job_hist_ok ss st \<longleftrightarrow>
     last (STARTING # ss) = st
     \<and> (COMPLETED \<in> set ss \<longrightarrow> st = COMPLETED)
     \<and> (ABANDONED \<in> set ss \<longrightarrow> st = ABANDONED \<and> FAILED \<in> set ss)
     \<and> (COMPLETED \<in> set ss \<or> STOPPING \<in> set ss \<longrightarrow> STARTED \<in> set ss)
     \<and> (STOPPED \<in> set ss \<longrightarrow> STOPPING \<in> set ss)
     \<and> set ss \<subseteq> {STARTED, STOPPING, COMPLETED, FAILED, STOPPED, RESTARTING, ABANDONED}"

lemma last_ConsD: "last (a # xs) = b \<Longrightarrow> b = a \<or> b \<in> set xs"
  by (auto split: if_splits)

lemma job_hist_ok_step:
  assumes ok: "job_hist_ok ss st" and v: "isValidJobTransition st s"
  shows "job_hist_ok (ss @ [s]) s"
proof -
  have st: "st = STARTING \<or> st \<in> set ss"
    using ok last_ConsD unfolding job_hist_ok_def by metis
  have nst: "st \<noteq> COMPLETED" "st \<noteq> ABANDONED"
    using job_valid_cases[OF v] by auto
  have s: "s \<in> {STARTED, STOPPING, COMPLETED, FAILED, STOPPED, RESTARTING, ABANDONED}"
    using job_valid_cases[OF v] by (rule conjunct2)
  have into: "s = COMPLETED \<or> s = STOPPING \<Longrightarrow> st = STARTED" "s = ABANDONED \<Longrightarrow> st = FAILED"
    "s = STOPPED \<Longrightarrow> st = STOPPING"
    using v job_valid_into by blast+
  have no: "COMPLETED \<notin> set ss" "ABANDONED \<notin> set ss"
    using ok nst unfolding job_hist_ok_def by auto
  have "s = COMPLETED \<or> s = STOPPING \<Longrightarrow> STARTED \<in> set ss"
    using into st by fastforce
  moreover have "s = ABANDONED \<Longrightarrow> FAILED \<in> set ss"
    using into st by fastforce
  moreover have "s = STOPPED \<Longrightarrow> STOPPING \<in> set ss"
    using into st by fastforce
  moreover have "last (STARTING # ss @ [s]) = s" by simp
  ultimately show ?thesis using ok no s unfolding job_hist_ok_def by auto
qed

text \<open>
  C12: along every sequence of \<open>TransitionTo\<close> calls on a new job execution, \<open>COMPLETED\<close> and
  \<open>ABANDONED\<close> are final, a job completes, stops or is being stopped only after it has started,
  stops only by way of \<open>STOPPING\<close>, and is abandoned only after a failure; a refused call
  changes nothing.
\<close>

theorem job_status_machine:
  assumes "job_run (NewJobExecution i n1 n2 inst name ps) ss je"
  shows "job_hist_ok ss (je_Status je)
    \<and> (\<forall>now s. \<not> isValidJobTransition (je_Status je) s \<longrightarrow>
         JobExecution_TransitionTo now s je = Inl (transition_error (je_Status je) s))
    \<and> (je_Status je \<in> {COMPLETED, ABANDONED} \<longrightarrow>
         (\<forall>now s je'. JobExecution_TransitionTo now s je \<noteq> Inr je'))"
proof -
  have "job_hist_ok ss (je_Status je)"
    using assms
  proof (induction "NewJobExecution i n1 n2 inst name ps" ss je rule: job_run.induct)
    case job_run_Nil
    then show ?case by (simp add: job_hist_ok_def NewJobExecution_def)
  next
    case (job_run_Step ss je' now s je'')
    then show ?case using job_hist_ok_step by (simp add: job_transition_iff)
  qed
  moreover have "\<not> isValidJobTransition (je_Status je) s" if "je_Status je \<in> {COMPLETED, ABANDONED}" for s
    using that job_valid_cases[of "je_Status je" s] by auto
  ultimately show ?thesis by (auto simp: job_transition_iff JobExecution_TransitionTo_def)
qed

lemma job_run_example:
  "job_run je [] je"
  "job_run je ss je' \<Longrightarrow> isValidJobTransition (je_Status je') s \<Longrightarrow>
     job_run je (ss @ [s]) (je'\<lparr>je_Status := s, je_LastUpdated := now\<rparr>)"
  by (auto intro: job_run_Nil job_run_Step simp: job_transition_iff)

lemma job_status_machine_witness:
  "\<exists>je. job_run (NewJobExecution ''e'' 0 0 ''i'' ''j'' NewJobParameters) [STARTED, FAILED, ABANDONED] je
    \<and> (\<forall>now s je'. JobExecution_TransitionTo now s je \<noteq> Inr je')"
proof -
  let ?je = "NewJobExecution ''e'' 0 0 ''i'' ''j'' NewJobParameters"
  let ?st = "\<lambda>s je. je\<lparr>je_Status := s, je_LastUpdated := 0\<rparr>"
  have v: "isValidJobTransition STARTING STARTED" "isValidJobTransition STARTED FAILED"
    "isValidJobTransition FAILED ABANDONED" by (simp_all add: isValidJobTransition_def)
  have "job_run ?je ([] @ [STARTED]) (?st STARTED ?je)"
    by (rule job_run_example) (simp_all add: job_run_Nil v NewJobExecution_def)
  then have "job_run ?je ([STARTED] @ [FAILED]) (?st FAILED (?st STARTED ?je))"
    by (intro job_run_example) (simp_all add: v)
  then have "job_run ?je ([STARTED, FAILED] @ [ABANDONED]) (?st ABANDONED (?st FAILED (?st STARTED ?je)))"
    by (intro job_run_example) (simp_all add: v)
  then have r: "job_run ?je [STARTED, FAILED, ABANDONED] (?st ABANDONED (?st FAILED (?st STARTED ?je)))"
    by simp
  moreover have "je_Status (?st ABANDONED (?st FAILED (?st STARTED ?je))) = ABANDONED" by simp
  ultimately have "\<forall>now s je'. JobExecution_TransitionTo now s
      (?st ABANDONED (?st FAILED (?st STARTED ?je))) \<noteq> Inr je'"
    using job_status_machine[OF r] by simp
  with r show ?thesis by blast
qed

lemma GetTransitionRule_AddTransitionRule:
  "GetTransitionRule (AddTransitionRule from s to e f st fd) from' x b =
     (if from' = from \<and> GetTransitionRule fd from' x b = None
      then Some \<lparr>tr_To = to, tr_End = e, tr_Fail = f, tr_Stop = st\<rparr>
      else GetTransitionRule fd from' x b)"
  by (auto simp: GetTransitionRule_def AddTransitionRule_def Let_def split: option.splits list.splits)

end
