(* ===== verification/Fault_Policies.thy ===== *)
theory Fault_Policies
  imports Batch_Model
begin

text \<open>
  \<open>engine/step/skip/policy.go\<close> and \<open>engine/step/retry/policy.go\<close>: the policies that decide
  whether a failed item is skipped or tried again, and the contract of \<open>SkipPolicy\<close> that the
  chunk engine relies on. \<open>reg\<close> is the registry of error types.
\<close>

section \<open>Skip policy\<close>

record SkipPolicy =
  skipLimit :: int
  skippableExceptions :: "string list"
  currentSkipCount :: int

definition SkipPolicy_Create :: "int \<Rightarrow> string list \<Rightarrow> SkipPolicy" where
  "SkipPolicy_Create limit exs =
     \<lparr>skipLimit = limit, skippableExceptions = exs, currentSkipCount = 0\<rparr>"

definition ShouldSkip :: "registry \<Rightarrow> SkipPolicy \<Rightarrow> goerr option \<Rightarrow> bool" where
  "ShouldSkip reg p err = (case err of
       None \<Rightarrow> False
     | Some e \<Rightarrow>
         if skipLimit p > 0 \<and> currentSkipCount p \<ge> skipLimit p then False
         else if skipLimit p = 0 then False
         else if BatchError_IsSkippable e then True
         else list_ex (\<lambda>typeName. IsErrorOfType reg err typeName) (skippableExceptions p))"

definition CanSkip :: "SkipPolicy \<Rightarrow> bool" where
  "CanSkip p \<longleftrightarrow> skipLimit p > 0 \<and> currentSkipCount p < skipLimit p"

definition IncrementSkipCount :: "SkipPolicy \<Rightarrow> SkipPolicy" where
  "IncrementSkipCount p = p\<lparr>currentSkipCount := currentSkipCount p + 1\<rparr>"

definition GetSkipCount :: "SkipPolicy \<Rightarrow> int" where
  "GetSkipCount p = currentSkipCount p"

definition GetSkipLimit :: "SkipPolicy \<Rightarrow> int" where
  "GetSkipLimit p = skipLimit p"

section \<open>Retry policy\<close>

record RetryPolicy =
  maxAttempts :: int
  initialInterval :: int
  retryableExceptions :: "string list"

definition RetryPolicy_Create :: "int \<Rightarrow> int \<Rightarrow> string list \<Rightarrow> RetryPolicy" where
  "RetryPolicy_Create ma ii exs =
     \<lparr>maxAttempts = ma, initialInterval = ii, retryableExceptions = exs\<rparr>"

definition GetMaxAttempts :: "RetryPolicy \<Rightarrow> int" where
  "GetMaxAttempts p = maxAttempts p"

definition ShouldRetry :: "registry \<Rightarrow> RetryPolicy \<Rightarrow> goerr option \<Rightarrow> bool" where
  "ShouldRetry reg p err = (case err of
       None \<Rightarrow> False
     | Some e \<Rightarrow>
         if BatchError_IsRetryable e then True
         else list_ex (\<lambda>typeName. IsErrorOfType reg err typeName) (retryableExceptions p))"

definition GetBackoffInterval :: "RetryPolicy \<Rightarrow> int \<Rightarrow> int" where
  "GetBackoffInterval p attempt = initialInterval p"

section \<open>The contract of a skip policy\<close>

text \<open>
  The chunk engine calls \<open>ShouldSkip\<close>, then \<open>IncrementSkipCount\<close> for every skip. The contract:
  an increment counts one, and a policy whose limit is not negative only agrees to a skip below
  its limit.
\<close>

locale skip_contract =
  fixes should :: "'p \<Rightarrow> 'e \<Rightarrow> bool"
    and incr :: "'p \<Rightarrow> 'p"
    and used :: "'p \<Rightarrow> int"
    and limit :: "'p \<Rightarrow> int"
  assumes used_incr: "used (incr p) = used p + 1"
    and limit_incr: "limit (incr p) = limit p"
    and should_below: "should p e \<Longrightarrow> 0 \<le> limit p \<Longrightarrow> used p < limit p"
begin

text \<open>What the engine does with a sequence of failures: each is skipped or refused.\<close>

fun offer :: "'e list \<Rightarrow> 'p \<Rightarrow> 'p" where
  "offer [] p = p"
| "offer (e # es) p = offer es (if should p e then incr p else p)"

lemma offer_limit: "limit (offer es p) = limit p"
  by (induction es arbitrary: p) (auto simp: limit_incr)

lemma offer_bounded: "0 \<le> limit p \<Longrightarrow> used p \<le> limit p \<Longrightarrow> used (offer es p) \<le> limit p"
proof (induction es arbitrary: p)
  case (Cons e es)
  from Cons.IH[of "incr p"] Cons.IH[of p] show ?case
    using Cons.prems should_below[of p e] by (auto simp: used_incr limit_incr)
qed simp

lemma offer_mono: "used p \<le> used (offer es p)"
proof (induction es arbitrary: p)
  case (Cons e es)
  from Cons.IH[of "incr p"] Cons.IH[of p] show ?case by (auto simp: used_incr)
qed simp

lemma incr_bounded: "should p e \<Longrightarrow> 0 \<le> limit p \<Longrightarrow> used (incr p) \<le> limit (incr p)"
  using should_below[of p e] by (simp add: used_incr limit_incr)

end

lemma ShouldSkip_below:
  "ShouldSkip reg p err \<Longrightarrow> 0 \<le> skipLimit p \<Longrightarrow> currentSkipCount p < skipLimit p"
  by (auto simp: ShouldSkip_def split: option.splits if_splits)

interpretation default_skip: skip_contract "ShouldSkip reg" IncrementSkipCount GetSkipCount GetSkipLimit
  for reg
  by unfold_locales
    (auto simp: IncrementSkipCount_def GetSkipCount_def GetSkipLimit_def dest: ShouldSkip_below)

lemma ShouldSkip_agrees:
  "0 \<le> skipLimit p \<Longrightarrow> ShouldSkip reg p err \<Longrightarrow> CanSkip p"
  using ShouldSkip_below[of reg p err] by (auto simp: CanSkip_def ShouldSkip_def split: option.splits if_splits)

lemma skip_fields [simp, step_simps]:
  "skipLimit (IncrementSkipCount p) = skipLimit p"
  "currentSkipCount (IncrementSkipCount p) = currentSkipCount p + 1"
  "skippableExceptions (IncrementSkipCount p) = skippableExceptions p"
  by (simp_all add: IncrementSkipCount_def)

lemma ShouldSkip_None [simp]: "\<not> ShouldSkip reg p None"
  by (simp add: ShouldSkip_def)

lemma ShouldSkip_zero [simp]: "skipLimit p = 0 \<Longrightarrow> \<not> ShouldSkip reg p err"
  by (simp add: ShouldSkip_def split: option.splits)

lemma ShouldRetry_None [simp]: "\<not> ShouldRetry reg p None"
  by (simp add: ShouldRetry_def)

text \<open>
  A policy never agrees to more skips than its limit, whatever errors are offered to it in
  whatever order; a limit of zero allows none, and a skippable \<open>BatchError\<close> below a positive
  limit is always skipped. A negative limit is no limit: the policy never refuses such an error.
\<close>

theorem skip_policy_limit:
  "(0 \<le> n \<longrightarrow> GetSkipCount (default_skip.offer reg es (SkipPolicy_Create n exs)) \<le> n)
   \<and> (n = 0 \<longrightarrow> \<not> ShouldSkip reg (SkipPolicy_Create n exs) err)
   \<and> (currentSkipCount p < skipLimit p \<or> skipLimit p < 0 \<longrightarrow> skipLimit p \<noteq> 0 \<longrightarrow>
        ShouldSkip reg p (Some (BatchError m t e r True)))"
proof (intro conjI impI)
  assume "0 \<le> n"
  then show "GetSkipCount (default_skip.offer reg es (SkipPolicy_Create n exs)) \<le> n"
    using default_skip.offer_bounded[of "SkipPolicy_Create n exs" reg es]
    by (simp add: GetSkipCount_def GetSkipLimit_def SkipPolicy_Create_def)
next
  assume "n = 0"
  then show "\<not> ShouldSkip reg (SkipPolicy_Create n exs) err"
    by (simp add: SkipPolicy_Create_def)
qed (auto simp: ShouldSkip_def)

lemma skip_policy_limit_witness:
  "GetSkipCount (default_skip.offer init_registry
     (replicate 9 (Some (BatchError ''r'' ''bad'' None False True))) (SkipPolicy_Create 3 [])) \<le> 3
   \<and> ShouldSkip init_registry (SkipPolicy_Create (- 1) []) (Some (BatchError ''r'' ''bad'' None False True))"
  using skip_policy_limit[of 3 init_registry "replicate 9 (Some (BatchError ''r'' ''bad'' None False True))" "[]"]
    skip_policy_limit[of "- 1" init_registry "[]" "[]" None "SkipPolicy_Create (- 1) []" "''r''" "''bad''" None False]
  by (simp add: SkipPolicy_Create_def)

text \<open>
  The policies classify a wrapped error at least as widely as the error itself: an error that
  a configured list makes retryable or skippable stays so when a \<open>BatchError\<close> or
  \<open>fmt.Errorf("... %w", err)\<close> wraps it, and the class \<open>OptimisticLockingFailureException\<close>
  finds every error made for a failed optimistic lock.
\<close>

theorem policies_see_through_wrapping:
  assumes "errors_Unwrap outer = Some inner" "n \<in> set (retryableExceptions rp)"
    and "IsErrorOfType reg (Some inner) n"
  shows "ShouldRetry reg rp (Some outer)
    \<and> IsErrorOfType reg (Some (NewBatchError m t (Some outer) sk rt)) n
    \<and> IsErrorOfType init_registry (Some (NewOptimisticLockingFailureException m t e))
        ''OptimisticLockingFailureException''"
proof (intro conjI)
  have o: "IsErrorOfType reg (Some outer) n" by (rule IsErrorOfType_Unwrap[OF assms(1,3)])
  then show "ShouldRetry reg rp (Some outer)" using assms(2) by (auto simp: ShouldRetry_def list_ex_iff)
  show "IsErrorOfType reg (Some (NewBatchError m t (Some outer) sk rt)) n"
    using o by (rule IsErrorOfType_Unwrap[rotated]) (simp add: NewBatchError_def)
  have "errors_Is (NewOptimisticLockingFailureException m t e) ErrOptimisticLockingFailure"
    using optimistic_classified[of m t e] by (simp add: IsOptimisticLockingFailure_def)
  then show "IsErrorOfType init_registry (Some (NewOptimisticLockingFailureException m t e))
      ''OptimisticLockingFailureException''"
    by (simp add: IsErrorOfType_def init_registry_def)
qed

lemma policies_see_through_wrapping_witness:
  "ShouldRetry init_registry (RetryPolicy_Create 3 0 [''context.DeadlineExceeded''])
     (Some (BatchError ''reader'' ''read failed'' (Some context_DeadlineExceeded) False False))"
proof -
  have "IsErrorOfType init_registry (Some context_DeadlineExceeded) ''context.DeadlineExceeded''"
    by (simp add: IsErrorOfType_def init_registry_def context_DeadlineExceeded_def)
  then show ?thesis
    using policies_see_through_wrapping[of
        "BatchError ''reader'' ''read failed'' (Some context_DeadlineExceeded) False False"
        context_DeadlineExceeded "''context.DeadlineExceeded''"
        "RetryPolicy_Create 3 0 [''context.DeadlineExceeded'']" init_registry]
    by (simp add: RetryPolicy_Create_def)
qed

end
