(* ===== verification/Chunk_Items.thy ===== *)
theory Chunk_Items
  imports Fault_Policies
begin

text \<open>
  \<open>engine/step/item/chunk_step.go\<close>, the item level of \<open>ChunkStep\<close>: what the step is made of,
  and the loops that read and process one item and one chunk of items.

  The reader, the processor, the writer, the transaction manager and the repository are operations
  on a world \<open>'w\<close> that only they look into; \<open>'i\<close> are the items read, \<open>'o\<close> those written. Every
  notification of the listeners, every call that a transaction or a write consists of and every
  saved execution is an entry of the log; an entry stands for the whole list of listeners.
  Listeners observe: they do not write into the execution they are given. Metrics, traces and
  log lines are left out.
\<close>

section \<open>The step\<close>

datatype ('i, 'o) ev =
    BeforeStep | AfterStep
  | TxBegin nat | TxCommit nat | TxCommitFailed nat goerr | TxRollback nat
  | BeforeChunk | ChunkOnError goerr | AfterChunk
  | BeforeRead | AfterRead 'i | OnReadError goerr | OnRetryRead goerr | OnSkipRead goerr
  | BeforeProcess 'i | AfterProcess 'i "'o option" | OnProcessError 'i goerr
  | OnRetryProcess 'i goerr | OnSkipProcess 'i goerr | OnSkipInProcess 'i goerr
  | BeforeWrite "'o list" | AfterWrite "'o list" | OnWriteError "'o list" goerr
  | OnRetryWrite "'o list" goerr | OnSkipInWrite 'o goerr | OnSkipWrite 'o goerr
  | Wrote nat "'o list"
  | SavedCheckpoint CheckpointData | Persisted StepExecution

record ('w, 'o) writer_ops =
  wr_Open :: "ec \<Rightarrow> 'w \<Rightarrow> goerr option \<times> 'w"
  wr_Write :: "nat \<Rightarrow> 'o list \<Rightarrow> 'w \<Rightarrow> goerr option \<times> 'w"
  wr_Close :: "'w \<Rightarrow> goerr option \<times> 'w"
  wr_GetExecutionContext :: "'w \<Rightarrow> (goerr + ec) \<times> 'w"
  wr_GetTargetResourceName :: string
  wr_GetResourcePath :: string
  wr_Update :: "(ec \<Rightarrow> 'w \<Rightarrow> (goerr option \<times> ec) \<times> 'w) option"

record ('w, 'i, 'o) chunk_step =
  st_id :: string
  st_chunkSize :: int
  st_itemRetryPolicy :: RetryPolicy
  st_registry :: registry
  rd_Open :: "ec \<Rightarrow> 'w \<Rightarrow> goerr option \<times> 'w"
  rd_Read :: "'w \<Rightarrow> (goerr + 'i) \<times> 'w"
  rd_Close :: "'w \<Rightarrow> goerr option \<times> 'w"
  rd_GetExecutionContext :: "'w \<Rightarrow> (goerr + ec) \<times> 'w"
  rd_Update :: "(ec \<Rightarrow> 'w \<Rightarrow> (goerr option \<times> ec) \<times> 'w) option"
  pr_Process :: "'i \<Rightarrow> 'w \<Rightarrow> (goerr + 'o option) \<times> 'w"
  pr_Update :: "(ec \<Rightarrow> 'w \<Rightarrow> (goerr option \<times> ec) \<times> 'w) option"
  st_writer :: "('w, 'o) writer_ops option"
  db_Resolve :: "string \<Rightarrow> 'w \<Rightarrow> (goerr + bool) \<times> 'w"
  tm_Begin :: "'w \<Rightarrow> (goerr + nat) \<times> 'w"
  tm_Commit :: "nat \<Rightarrow> 'w \<Rightarrow> goerr option \<times> 'w"
  tm_Rollback :: "nat \<Rightarrow> 'w \<Rightarrow> 'w"
  bw_Wait :: "int \<Rightarrow> 'w \<Rightarrow> goerr option \<times> 'w"
  jr_UpdateStepExecution :: "StepExecution \<Rightarrow> 'w \<Rightarrow> (goerr option \<times> StepExecution) \<times> 'w"
  jr_FindCheckpointData :: "string \<Rightarrow> 'w \<Rightarrow> (goerr + CheckpointData option) \<times> 'w"
  jr_SaveCheckpointData :: "CheckpointData \<Rightarrow> 'w \<Rightarrow> goerr option \<times> 'w"
  cv_OutOfRange :: "f64 \<Rightarrow> int"
  time_Now :: "'w \<Rightarrow> time \<times> 'w"

text \<open>The local variables of \<open>Execute\<close>, the step execution it fills in, and the skip policy.\<close>

record ('w, 'i, 'o) cstate =
  cs_world :: 'w
  cs_se :: StepExecution
  cs_skip :: SkipPolicy
  cs_readCount :: int
  cs_writeCount :: int
  cs_commitCount :: int
  cs_log :: "('i, 'o) ev list"

definition call :: "('w \<Rightarrow> 'r \<times> 'w) \<Rightarrow> ('w, 'i, 'o) cstate \<Rightarrow> 'r \<times> ('w, 'i, 'o) cstate" where
  "call f s = (case f (cs_world s) of (r, w) \<Rightarrow> (r, s\<lparr>cs_world := w\<rparr>))"

definition emit :: "('i, 'o) ev list \<Rightarrow> ('w, 'i, 'o) cstate \<Rightarrow> ('w, 'i, 'o) cstate" where
  "emit es s = s\<lparr>cs_log := cs_log s @ es\<rparr>"

definition on_se ::
  "(StepExecution \<Rightarrow> StepExecution) \<Rightarrow> ('w, 'i, 'o) cstate \<Rightarrow> ('w, 'i, 'o) cstate" where
  "on_se f s = s\<lparr>cs_se := f (cs_se s)\<rparr>"

definition ErrNoMoreItems :: goerr where
  "ErrNoMoreItems = LeafError ''port.ErrNoMoreItems'' ''*errors.errorString'' ''no more items to read''"

definition ErrExecutionContextNotSupported :: goerr where
  "ErrExecutionContextNotSupported = LeafError ''port.ErrExecutionContextNotSupported''
     ''*errors.errorString'' ''execution context not supported by this component''"

definition end_of_input :: "goerr \<Rightarrow> bool" where
  "end_of_input e \<longleftrightarrow> errors_Is e ErrNoMoreItems \<or> errors_Is e io_EOF"

datatype isolation =
    LevelReadUncommitted | LevelReadCommitted | LevelWriteCommitted | LevelRepeatableRead
  | LevelSerializable | LevelDefault

definition parseIsolationLevel :: "string \<Rightarrow> isolation" where
  "parseIsolationLevel level =
     (if level = ''READ_UNCOMMITTED'' then LevelReadUncommitted
      else if level = ''READ_COMMITTED'' then LevelReadCommitted
      else if level = ''WRITE_COMMITTED'' then LevelWriteCommitted
      else if level = ''REPEATABLE_READ'' then LevelRepeatableRead
      else if level = ''SERIALIZABLE'' then LevelSerializable
      else LevelDefault)"

section \<open>Skips\<close>

text \<open>The skip policy and the counter of one kind of skip agree to one more.\<close>

definition may_skip :: "('w, 'i, 'o) chunk_step \<Rightarrow> (StepExecution \<Rightarrow> int) \<Rightarrow> goerr \<Rightarrow>
    ('w, 'i, 'o) cstate \<Rightarrow> bool" where
  "may_skip st kind e s \<longleftrightarrow>
     ShouldSkip (st_registry st) (cs_skip s) (Some e) \<and> kind (cs_se s) < GetSkipLimit (cs_skip s)"

definition skip_read :: "goerr \<Rightarrow> ('w, 'i, 'o) cstate \<Rightarrow> ('w, 'i, 'o) cstate" where
  "skip_read e s = emit [OnSkipRead e]
     (on_se (\<lambda>se. StepExecution_AddFailureException e
               (se\<lparr>se_SkipReadCount := se_SkipReadCount se + 1\<rparr>))
        (s\<lparr>cs_skip := IncrementSkipCount (cs_skip s)\<rparr>))"

definition skip_process :: "'i \<Rightarrow> goerr \<Rightarrow> ('w, 'i, 'o) cstate \<Rightarrow> ('w, 'i, 'o) cstate" where
  "skip_process item e s = emit [OnSkipProcess item e, OnSkipInProcess item e]
     (on_se (\<lambda>se. StepExecution_AddFailureException e
               (se\<lparr>se_SkipProcessCount := se_SkipProcessCount se + 1,
                   se_FilterCount := se_FilterCount se + 1\<rparr>))
        (s\<lparr>cs_skip := IncrementSkipCount (cs_skip s)\<rparr>))"

definition backoff :: "('w, 'i, 'o) chunk_step \<Rightarrow> int \<Rightarrow> ('w, 'i, 'o) cstate \<Rightarrow>
    goerr option \<times> ('w, 'i, 'o) cstate" where
  "backoff st attempt s =
     (let b = GetBackoffInterval (st_itemRetryPolicy st) attempt
      in if b > 0 then call (bw_Wait st b) s else (None, s))"

section \<open>Reading one item\<close>

text \<open>\<open>ReadAbort\<close> is \<open>goto EndChunkLoop\<close> with the chunk error set.\<close>

datatype 'i read_result = ReadItem 'i | ReadEOF | ReadSkipped goerr | ReadAbort goerr

function read_item :: "('w, 'i, 'o) chunk_step \<Rightarrow> int \<Rightarrow> ('w, 'i, 'o) cstate \<Rightarrow>
    'i read_result \<times> ('w, 'i, 'o) cstate" where
  "read_item st attempts s =
     (case call (rd_Read st) (emit [BeforeRead] s) of
        (Inr item, s1) \<Rightarrow> (ReadItem item, emit [AfterRead item] s1)
      | (Inl e, s1) \<Rightarrow>
          if end_of_input e then (ReadEOF, s1)
          else if ShouldRetry (st_registry st) (st_itemRetryPolicy st) (Some e)
                \<and> attempts < GetMaxAttempts (st_itemRetryPolicy st)
          then (case backoff st (attempts + 1) (emit [OnRetryRead e] s1) of
                  (Some we, s2) \<Rightarrow> (ReadAbort we, s2)
                | (None, s2) \<Rightarrow> read_item st (attempts + 1) s2)
          else if may_skip st se_SkipReadCount e s1 then (ReadSkipped e, skip_read e s1)
          else (ReadAbort (NewBatchError (st_id st) ''Item read failed (Fatal or limit reached)''
                             (Some e) False False),
                emit [OnReadError e] s1))"
  by pat_completeness auto

termination
  by (relation "measure (\<lambda>(st, attempts, s). nat (GetMaxAttempts (st_itemRetryPolicy st) - attempts))")
    auto

declare read_item.simps [simp del]

section \<open>Processing one item\<close>

text \<open>\<open>ProcFatal\<close> is \<open>goto EndReadLoop\<close>, \<open>ProcAbort\<close> is \<open>goto EndChunkLoop\<close>.\<close>

datatype 'o proc_result = ProcItem "'o option" | ProcSkipped goerr | ProcFatal goerr | ProcAbort goerr

function process_item :: "('w, 'i, 'o) chunk_step \<Rightarrow> 'i \<Rightarrow> int \<Rightarrow> ('w, 'i, 'o) cstate \<Rightarrow>
    'o proc_result \<times> ('w, 'i, 'o) cstate" where
  "process_item st item attempts s =
     (case call (pr_Process st item) (emit [BeforeProcess item] s) of
        (Inr out, s1) \<Rightarrow> (ProcItem out, emit [AfterProcess item out] s1)
      | (Inl e, s1) \<Rightarrow>
          if BatchError_IsRetryable e \<and> attempts < GetMaxAttempts (st_itemRetryPolicy st)
          then (case backoff st (attempts + 1) (emit [OnRetryProcess item e] s1) of
                  (Some we, s2) \<Rightarrow> (ProcAbort we, s2)
                | (None, s2) \<Rightarrow> process_item st item (attempts + 1) s2)
          else if may_skip st se_SkipProcessCount e s1 then (ProcSkipped e, skip_process item e s1)
          else (ProcFatal (NewBatchError (st_id st) ''Item process failed (Fatal or limit reached)''
                             (Some e) False False),
                emit [OnProcessError item e] s1))"
  by pat_completeness auto

termination
  by (relation "measure (\<lambda>(st, item, attempts, s). nat (GetMaxAttempts (st_itemRetryPolicy st) - attempts))")
    auto

declare process_item.simps [simp del]

section \<open>What one item changes\<close>

lemma call_fields [simp, step_simps]:
  "call f s = (r, s') \<Longrightarrow> cs_se s' = cs_se s"
  "call f s = (r, s') \<Longrightarrow> cs_skip s' = cs_skip s"
  "call f s = (r, s') \<Longrightarrow> cs_readCount s' = cs_readCount s"
  "call f s = (r, s') \<Longrightarrow> cs_writeCount s' = cs_writeCount s"
  "call f s = (r, s') \<Longrightarrow> cs_commitCount s' = cs_commitCount s"
  "call f s = (r, s') \<Longrightarrow> cs_log s' = cs_log s"
  by (auto simp: call_def split: prod.splits)

lemma emit_fields [simp, step_simps]:
  "cs_world (emit es s) = cs_world s" "cs_se (emit es s) = cs_se s"
  "cs_skip (emit es s) = cs_skip s" "cs_readCount (emit es s) = cs_readCount s"
  "cs_writeCount (emit es s) = cs_writeCount s" "cs_commitCount (emit es s) = cs_commitCount s"
  "cs_log (emit es s) = cs_log s @ es"
  by (simp_all add: emit_def)

lemma on_se_fields [simp, step_simps]:
  "cs_world (on_se f s) = cs_world s" "cs_se (on_se f s) = f (cs_se s)"
  "cs_skip (on_se f s) = cs_skip s" "cs_readCount (on_se f s) = cs_readCount s"
  "cs_writeCount (on_se f s) = cs_writeCount s" "cs_commitCount (on_se f s) = cs_commitCount s"
  "cs_log (on_se f s) = cs_log s"
  by (simp_all add: on_se_def)

lemma add_failure_fields [simp, step_simps]:
  "se_SkipReadCount (StepExecution_AddFailureException e se) = se_SkipReadCount se"
  "se_SkipProcessCount (StepExecution_AddFailureException e se) = se_SkipProcessCount se"
  "se_SkipWriteCount (StepExecution_AddFailureException e se) = se_SkipWriteCount se"
  "se_FilterCount (StepExecution_AddFailureException e se) = se_FilterCount se"
  "se_RollbackCount (StepExecution_AddFailureException e se) = se_RollbackCount se"
  "se_ReadCount (StepExecution_AddFailureException e se) = se_ReadCount se"
  "se_WriteCount (StepExecution_AddFailureException e se) = se_WriteCount se"
  "se_ExecutionContext (StepExecution_AddFailureException e se) = se_ExecutionContext se"
  "se_Status (StepExecution_AddFailureException e se) = se_Status se"
  "se_ID (StepExecution_AddFailureException e se) = se_ID se"
  by (simp_all add: StepExecution_AddFailureException_def)

lemma backoff_fields:
  assumes "backoff st a s = (r, s')"
  shows "cs_se s' = cs_se s" "cs_skip s' = cs_skip s" "cs_readCount s' = cs_readCount s"
    "cs_writeCount s' = cs_writeCount s" "cs_commitCount s' = cs_commitCount s"
    "cs_log s' = cs_log s"
  using assms call_fields by (auto simp: backoff_def Let_def split: if_splits)

text \<open>The events of one item: no transaction begins or ends while it is read or processed.\<close>

fun item_event :: "('i, 'o) ev \<Rightarrow> bool" where
  "item_event BeforeRead = True"
| "item_event (AfterRead _) = True"
| "item_event (OnReadError _) = True"
| "item_event (OnRetryRead _) = True"
| "item_event (OnSkipRead _) = True"
| "item_event (BeforeProcess _) = True"
| "item_event (AfterProcess _ _) = True"
| "item_event (OnProcessError _ _) = True"
| "item_event (OnRetryProcess _ _) = True"
| "item_event (OnSkipProcess _ _) = True"
| "item_event (OnSkipInProcess _ _) = True"
| "item_event _ = False"

text \<open>What reading or processing an item leaves alone.\<close>

definition item_frame :: "('w, 'i, 'o) cstate \<Rightarrow> ('w, 'i, 'o) cstate \<Rightarrow> bool" where
  "item_frame s s' \<longleftrightarrow>
     cs_readCount s' = cs_readCount s \<and> cs_writeCount s' = cs_writeCount s
     \<and> cs_commitCount s' = cs_commitCount s
     \<and> skipLimit (cs_skip s') = skipLimit (cs_skip s)
     \<and> se_SkipWriteCount (cs_se s') = se_SkipWriteCount (cs_se s)
     \<and> se_RollbackCount (cs_se s') = se_RollbackCount (cs_se s)
     \<and> se_ExecutionContext (cs_se s') = se_ExecutionContext (cs_se s)
     \<and> se_Status (cs_se s') = se_Status (cs_se s)
     \<and> se_ID (cs_se s') = se_ID (cs_se s)
     \<and> (\<exists>es. cs_log s' = cs_log s @ es \<and> list_all item_event es)"

lemma item_frame_refl [simp]: "item_frame s s"
  by (simp add: item_frame_def)

lemma item_frame_trans [trans]: "item_frame s t \<Longrightarrow> item_frame t u \<Longrightarrow> item_frame s u"
  by (force simp: item_frame_def)

lemma item_frame_call: "call f s = (r, s') \<Longrightarrow> item_frame s s'"
  by (simp add: item_frame_def)

lemma item_frame_emit: "list_all item_event es \<Longrightarrow> item_frame s (emit es s)"
  by (simp add: item_frame_def)

lemma item_frame_backoff: "backoff st a s = (r, s') \<Longrightarrow> item_frame s s'"
  using backoff_fields by (fastforce simp: item_frame_def)

lemma item_frame_skip: "item_frame s (skip_read e s)" "item_frame s (skip_process i e s)"
  by (simp_all add: item_frame_def skip_read_def skip_process_def)

lemma skip_fields2 [simp, step_simps]:
  "cs_skip (skip_read e s) = IncrementSkipCount (cs_skip s)"
  "cs_skip (skip_process i e s) = IncrementSkipCount (cs_skip s)"
  "cs_se (skip_read e s) = StepExecution_AddFailureException e
     ((cs_se s)\<lparr>se_SkipReadCount := se_SkipReadCount (cs_se s) + 1\<rparr>)"
  "cs_se (skip_process i e s) = StepExecution_AddFailureException e
     ((cs_se s)\<lparr>se_SkipProcessCount := se_SkipProcessCount (cs_se s) + 1,
                se_FilterCount := se_FilterCount (cs_se s) + 1\<rparr>)"
  by (simp_all add: skip_read_def skip_process_def)

text \<open>
  Reading an item changes the step execution and the policy only by a skip: the policy agreed,
  the counter was below the limit, both count one more and the failure is recorded.
\<close>

lemma read_item_spec:
  "read_item st a s = (r, s') \<Longrightarrow>
     item_frame s s'
     \<and> (case r of
          ReadSkipped e \<Rightarrow> \<not> end_of_input e
            \<and> ShouldSkip (st_registry st) (cs_skip s) (Some e)
            \<and> se_SkipReadCount (cs_se s) < skipLimit (cs_skip s)
            \<and> cs_skip s' = IncrementSkipCount (cs_skip s)
            \<and> cs_se s' = StepExecution_AddFailureException e
                 ((cs_se s)\<lparr>se_SkipReadCount := se_SkipReadCount (cs_se s) + 1\<rparr>)
        | _ \<Rightarrow> cs_se s' = cs_se s \<and> cs_skip s' = cs_skip s)"
proof (induction st a s arbitrary: r s' rule: read_item.induct)
  case (1 st a s)
  obtain x s1 where rd: "call (rd_Read st) (emit [BeforeRead] s) = (x, s1)" by fastforce
  have f1: "item_frame s s1"
    using item_frame_trans[OF item_frame_emit item_frame_call[OF rd]] by simp
  have same: "cs_se s1 = cs_se s" "cs_skip s1 = cs_skip s" using rd by simp_all
  show ?case
  proof (cases x)
    case (Inr item)
    then show ?thesis using "1.prems" rd f1 same
      by (auto simp: read_item.simps[of st a s] intro: item_frame_trans[OF _ item_frame_emit])
  next
    case (Inl e)
    let ?retry = "ShouldRetry (st_registry st) (st_itemRetryPolicy st) (Some e)
      \<and> a < GetMaxAttempts (st_itemRetryPolicy st)"
    consider (eof) "end_of_input e" | (retry) "\<not> end_of_input e" ?retry
      | (other) "\<not> end_of_input e" "\<not> ?retry" by blast
    then show ?thesis
    proof cases
      case eof
      then show ?thesis using "1.prems" rd f1 same Inl by (auto simp: read_item.simps[of st a s])
    next
      case other
      then show ?thesis using "1.prems" rd f1 same Inl item_frame_trans[OF f1 item_frame_skip(1)[of s1 e]]
        by (auto simp: read_item.simps[of st a s] may_skip_def GetSkipLimit_def
            split: if_splits intro: item_frame_trans[OF _ item_frame_emit])
    next
      case retry
      obtain y s2 where bo: "backoff st (a + 1) (emit [OnRetryRead e] s1) = (y, s2)" by fastforce
      have f2: "item_frame s s2"
        using item_frame_trans[OF f1 item_frame_trans[OF item_frame_emit item_frame_backoff[OF bo]]]
        by simp
      have same2: "cs_se s2 = cs_se s" "cs_skip s2 = cs_skip s"
        using backoff_fields[OF bo] same by simp_all
      show ?thesis
      proof (cases y)
        case None
        then have rec: "read_item st (a + 1) s2 = (r, s')"
          using "1.prems" rd Inl retry bo by (simp add: read_item.simps[of st a s])
        from "1.IH"[OF rd[symmetric] Inl retry(1) retry(2) bo[symmetric] None rec]
        show ?thesis using f2 same2 item_frame_trans by (auto split: read_result.splits)
      next
        case (Some we)
        then show ?thesis using "1.prems" rd Inl retry bo f2 same2
          by (auto simp: read_item.simps[of st a s])
      qed
    qed
  qed
qed

lemma process_item_spec:
  "process_item st item a s = (r, s') \<Longrightarrow>
     item_frame s s'
     \<and> (case r of
          ProcSkipped e \<Rightarrow>
            ShouldSkip (st_registry st) (cs_skip s) (Some e)
            \<and> se_SkipProcessCount (cs_se s) < skipLimit (cs_skip s)
            \<and> cs_skip s' = IncrementSkipCount (cs_skip s)
            \<and> cs_se s' = StepExecution_AddFailureException e
                 ((cs_se s)\<lparr>se_SkipProcessCount := se_SkipProcessCount (cs_se s) + 1,
                            se_FilterCount := se_FilterCount (cs_se s) + 1\<rparr>)
        | _ \<Rightarrow> cs_se s' = cs_se s \<and> cs_skip s' = cs_skip s)"
proof (induction st item a s arbitrary: r s' rule: process_item.induct)
  case (1 st item a s)
  obtain x s1 where rd: "call (pr_Process st item) (emit [BeforeProcess item] s) = (x, s1)" by fastforce
  have f1: "item_frame s s1"
    using item_frame_trans[OF item_frame_emit item_frame_call[OF rd]] by simp
  have same: "cs_se s1 = cs_se s" "cs_skip s1 = cs_skip s" using rd by simp_all
  show ?case
  proof (cases x)
    case (Inr out)
    then show ?thesis using "1.prems" rd f1 same
      by (auto simp: process_item.simps[of st item a s] intro: item_frame_trans[OF _ item_frame_emit])
  next
    case (Inl e)
    let ?retry = "BatchError_IsRetryable e \<and> a < GetMaxAttempts (st_itemRetryPolicy st)"
    show ?thesis
    proof (cases ?retry)
      case False
      then show ?thesis
        using "1.prems" rd f1 same Inl item_frame_trans[OF f1 item_frame_skip(2)[of s1 item e]]
        by (auto simp: process_item.simps[of st item a s] may_skip_def GetSkipLimit_def
            split: if_splits intro: item_frame_trans[OF _ item_frame_emit])
    next
      case True
      obtain y s2 where bo: "backoff st (a + 1) (emit [OnRetryProcess item e] s1) = (y, s2)" by fastforce
      have f2: "item_frame s s2"
        using item_frame_trans[OF f1 item_frame_trans[OF item_frame_emit item_frame_backoff[OF bo]]]
        by simp
      have same2: "cs_se s2 = cs_se s" "cs_skip s2 = cs_skip s"
        using backoff_fields[OF bo] same by simp_all
      show ?thesis
      proof (cases y)
        case None
        then have rec: "process_item st item (a + 1) s2 = (r, s')"
          using "1.prems" rd Inl True bo by (simp add: process_item.simps[of st item a s])
        from "1.IH"[OF rd[symmetric] Inl True bo[symmetric] None rec]
        show ?thesis using f2 same2 item_frame_trans by (auto split: proc_result.splits)
      next
        case (Some we)
        then show ?thesis using "1.prems" rd Inl True bo f2 same2
          by (auto simp: process_item.simps[of st item a s])
      qed
    qed
  qed
qed

section \<open>Reading and processing one chunk\<close>

text \<open>
  \<open>LoopEnd\<close> reaches \<open>EndReadLoop\<close> without an error, with the number of items read, the items to
  write and whether the input ended; \<open>LoopFatal\<close> reaches it with the chunk error set;
  \<open>LoopAbort\<close> is \<open>goto EndChunkLoop\<close>.
\<close>

datatype 'o loop_result = LoopEnd int "'o list" bool | LoopFatal goerr | LoopAbort goerr

definition count_read :: "('w, 'i, 'o) cstate \<Rightarrow> ('w, 'i, 'o) cstate" where
  "count_read s = s\<lparr>cs_readCount := cs_readCount s + 1\<rparr>"

definition count_filter :: "('w, 'i, 'o) cstate \<Rightarrow> ('w, 'i, 'o) cstate" where
  "count_filter s = on_se (\<lambda>se. se\<lparr>se_FilterCount := se_FilterCount se + 1\<rparr>) s"

lemma count_fields [simp, step_simps]:
  "cs_se (count_read s) = cs_se s" "cs_skip (count_read s) = cs_skip s"
  "cs_log (count_read s) = cs_log s" "cs_world (count_read s) = cs_world s"
  "cs_readCount (count_read s) = cs_readCount s + 1"
  "cs_writeCount (count_read s) = cs_writeCount s" "cs_commitCount (count_read s) = cs_commitCount s"
  "cs_se (count_filter s) = (cs_se s)\<lparr>se_FilterCount := se_FilterCount (cs_se s) + 1\<rparr>"
  "cs_skip (count_filter s) = cs_skip s" "cs_log (count_filter s) = cs_log s"
  "cs_world (count_filter s) = cs_world s" "cs_readCount (count_filter s) = cs_readCount s"
  "cs_writeCount (count_filter s) = cs_writeCount s"
  "cs_commitCount (count_filter s) = cs_commitCount s"
  by (simp_all add: count_read_def count_filter_def)

text \<open>
  The loop ends: every round reads an item, of which there are at most the chunk size, or skips
  one, of which there are at most the skip limit.
\<close>

lemma process_keeps:
  assumes "process_item st i 0 (count_read s1) = (r, s2)"
  shows "se_SkipReadCount (cs_se s2) = se_SkipReadCount (cs_se s1)"
    "skipLimit (cs_skip s2) = skipLimit (cs_skip s1)"
  using process_item_spec[OF assms] by (auto simp: item_frame_def split: proc_result.splits)

lemma read_keeps:
  assumes "read_item st 0 s = (ReadItem i, s1)"
  shows "se_SkipReadCount (cs_se s1) = se_SkipReadCount (cs_se s)"
    "skipLimit (cs_skip s1) = skipLimit (cs_skip s)"
  using read_item_spec[OF assms] by auto

lemma read_skips:
  assumes "read_item st 0 s = (ReadSkipped e, s1)"
  shows "se_SkipReadCount (cs_se s1) = se_SkipReadCount (cs_se s) + 1"
    "skipLimit (cs_skip s1) = skipLimit (cs_skip s)"
    "se_SkipReadCount (cs_se s) < skipLimit (cs_skip s)"
  using read_item_spec[OF assms] by auto

definition rounds_left :: "('w, 'i, 'o) chunk_step \<Rightarrow> int \<Rightarrow> ('w, 'i, 'o) cstate \<Rightarrow> nat" where
  "rounds_left st cnt s =
     nat (st_chunkSize st - cnt) + nat (skipLimit (cs_skip s) - se_SkipReadCount (cs_se s))"

lemma rounds_left_item:
  assumes "cnt < st_chunkSize st" "(ReadItem i, s1) = read_item st 0 s"
    "(r, s2) = process_item st i 0 (count_read s1)"
  shows "rounds_left st (cnt + 1) s2 < rounds_left st cnt s"
  using assms(1) read_keeps[OF assms(2)[symmetric]] process_keeps[OF assms(3)[symmetric]]
  by (simp add: rounds_left_def)

lemma rounds_left_filter: "rounds_left st cnt (count_filter s) = rounds_left st cnt s"
  by (simp add: rounds_left_def)

lemma rounds_left_skip:
  assumes "(ReadSkipped e, s1) = read_item st 0 s"
  shows "rounds_left st cnt s1 < rounds_left st cnt s"
  using read_skips[OF assms[symmetric]] by (simp add: rounds_left_def)

function read_loop :: "('w, 'i, 'o) chunk_step \<Rightarrow> int \<Rightarrow> 'o list \<Rightarrow> ('w, 'i, 'o) cstate \<Rightarrow>
    'o loop_result \<times> ('w, 'i, 'o) cstate" where
  "read_loop st cnt items s =
     (if \<not> cnt < st_chunkSize st then (LoopEnd cnt items False, s)
      else (case read_item st 0 s of
        (ReadEOF, s1) \<Rightarrow> (LoopEnd cnt items True, s1)
      | (ReadAbort e, s1) \<Rightarrow> (LoopAbort e, s1)
      | (ReadSkipped e, s1) \<Rightarrow> read_loop st cnt items s1
      | (ReadItem i, s1) \<Rightarrow>
          (case process_item st i 0 (count_read s1) of
             (ProcAbort e, s2) \<Rightarrow> (LoopAbort e, s2)
           | (ProcFatal e, s2) \<Rightarrow> (LoopFatal e, s2)
           | (ProcSkipped e, s2) \<Rightarrow> read_loop st (cnt + 1) items s2
           | (ProcItem (Some out), s2) \<Rightarrow> read_loop st (cnt + 1) (items @ [out]) s2
           | (ProcItem None, s2) \<Rightarrow> read_loop st (cnt + 1) items (count_filter s2))))"
  by pat_completeness auto

termination
  by (relation "measure (\<lambda>(st, cnt, items, s). rounds_left st cnt s)")
    (auto simp: rounds_left_filter intro: rounds_left_item rounds_left_skip)

declare read_loop.simps [simp del]

end
