(* ===== verification/Chunk_Step.thy ===== *)
theory Chunk_Step
  imports Chunk_Items
begin

text \<open>
  \<open>engine/step/item/chunk_step.go\<close>, the chunk level of \<open>ChunkStep\<close>: the transaction of a chunk,
  the write with its retry and its splitting, the commit, the checkpoint, the loop over chunks
  and \<open>Execute\<close> around it.

  The loop over chunks need not end: a writer that keeps failing with a retryable error keeps it
  running. \<open>chunk_loop\<close> takes the number of rounds as fuel and returns \<open>None\<close> when it runs out.
\<close>

section \<open>Transactions\<close>

definition rollback :: "('w, 'i, 'o) chunk_step \<Rightarrow> nat \<Rightarrow> ('w, 'i, 'o) cstate \<Rightarrow> ('w, 'i, 'o) cstate" where
  "rollback st t s = emit [TxRollback t] (s\<lparr>cs_world := tm_Rollback st t (cs_world s)\<rparr>)"

definition commit :: "('w, 'i, 'o) chunk_step \<Rightarrow> nat \<Rightarrow> ('w, 'i, 'o) cstate \<Rightarrow>
    goerr option \<times> ('w, 'i, 'o) cstate" where
  "commit st t s = (case call (tm_Commit st t) s of
       (Some e, s1) \<Rightarrow> (Some e, emit [TxCommitFailed t e] s1)
     | (None, s1) \<Rightarrow> (None, emit [TxCommit t] s1))"

definition count_rollback :: "('w, 'i, 'o) cstate \<Rightarrow> ('w, 'i, 'o) cstate" where
  "count_rollback s = on_se (\<lambda>se. se\<lparr>se_RollbackCount := se_RollbackCount se + 1\<rparr>) s"

definition target_name :: "('w, 'i, 'o) chunk_step \<Rightarrow> string" where
  "target_name st = (case st_writer st of None \<Rightarrow> [] | Some wr \<Rightarrow> wr_GetTargetResourceName wr)"

text \<open>The start of a round: the connection of the writer's target and a transaction on it.\<close>

definition begin_chunk :: "('w, 'i, 'o) chunk_step \<Rightarrow> ('w, 'i, 'o) cstate \<Rightarrow>
    (goerr + nat) \<times> ('w, 'i, 'o) cstate" where
  "begin_chunk st s =
     (if target_name st = [] \<and> st_writer st \<noteq> None
      then (Inl (NewBatchError (st_id st)
              ''ItemWriter must provide a target resource name (expected to be a DB name for ChunkStep) for transaction management.''
              None False False), s)
      else (case call (db_Resolve st (target_name st)) s of
        (Inl e, s1) \<Rightarrow> (Inl (NewBatchError (st_id st)
            (''Failed to resolve DB connection '' @ quoted (target_name st) @ '' for chunk transaction'')
            (Some e) False False), s1)
      | (Inr isDB, s1) \<Rightarrow>
          if \<not> isDB
          then (Inl (NewBatchError (st_id st)
              (''Internal error: Resolved connection '' @ quoted (target_name st)
                @ '' is not a database.DBConnection'') None False False), s1)
          else (case call (tm_Begin st) s1 of
              (Inl e, s2) \<Rightarrow> (Inl (NewBatchError (st_id st) ''Failed to begin transaction for chunk''
                  (Some e) False False), s2)
            | (Inr t, s2) \<Rightarrow> (Inr t, emit [TxBegin t, BeforeChunk] s2))))"

section \<open>Writing\<close>

definition skip_write_item :: "'o \<Rightarrow> goerr \<Rightarrow> ('w, 'i, 'o) cstate \<Rightarrow> ('w, 'i, 'o) cstate" where
  "skip_write_item item e s = emit [OnSkipInWrite item e, OnSkipWrite item e]
     (on_se (\<lambda>se. StepExecution_AddFailureException e
               (se\<lparr>se_SkipWriteCount := se_SkipWriteCount se + 1\<rparr>))
        (s\<lparr>cs_skip := IncrementSkipCount (cs_skip s)\<rparr>))"

text \<open>The skip that triggers the splitting of a chunk: counted like that of an item, not notified.\<close>

definition skip_write_chunk :: "goerr \<Rightarrow> ('w, 'i, 'o) cstate \<Rightarrow> ('w, 'i, 'o) cstate" where
  "skip_write_chunk e s =
     on_se (\<lambda>se. StepExecution_AddFailureException e
               (se\<lparr>se_SkipWriteCount := se_SkipWriteCount se + 1\<rparr>))
        (s\<lparr>cs_skip := IncrementSkipCount (cs_skip s)\<rparr>)"

definition count_write :: "('w, 'i, 'o) cstate \<Rightarrow> ('w, 'i, 'o) cstate" where
  "count_write s = on_se (\<lambda>se. se\<lparr>se_WriteCount := se_WriteCount se + 1\<rparr>) s"

text \<open>Chunk splitting: every item in a transaction of its own.\<close>

fun HandleSkippableWriteFailure ::
  "('w, 'i, 'o) chunk_step \<Rightarrow> ('w, 'o) writer_ops \<Rightarrow> 'o list \<Rightarrow> ('w, 'i, 'o) cstate \<Rightarrow>
     goerr option \<times> ('w, 'i, 'o) cstate" where
  "HandleSkippableWriteFailure st wr [] s = (None, s)"
| "HandleSkippableWriteFailure st wr (item # items) s =
     (case call (tm_Begin st) s of
        (Inl e, s1) \<Rightarrow> (Some (NewBatchError (st_id st)
            ''Failed to begin transaction for chunk splitting'' (Some e) False False), s1)
      | (Inr t, s1) \<Rightarrow>
          (case call (wr_Write wr t [item]) (emit [TxBegin t] s1) of
             (Some e, s2) \<Rightarrow>
               if may_skip st se_SkipWriteCount e s2
               then HandleSkippableWriteFailure st wr items
                      (rollback st t (skip_write_item item e s2))
               else (Some (NewBatchError (st_id st)
                       ''Item write failed during chunk splitting (Fatal or limit reached)''
                       (Some e) False False), rollback st t s2)
           | (None, s2) \<Rightarrow>
               (case commit st t (emit [Wrote t [item]] s2) of
                  (Some ce, s3) \<Rightarrow> (Some (NewBatchError (st_id st)
                      ''Failed to commit transaction during chunk splitting'' (Some ce) False False),
                      rollback st t s3)
                | (None, s3) \<Rightarrow> HandleSkippableWriteFailure st wr items (count_write s3))))"

text \<open>The reader is closed and opened again at the step's execution context; errors are dropped.\<close>

definition reopen_reader :: "('w, 'i, 'o) chunk_step \<Rightarrow> ('w, 'i, 'o) cstate \<Rightarrow> ('w, 'i, 'o) cstate" where
  "reopen_reader st s =
     snd (call (rd_Open st (se_ExecutionContext (cs_se s))) (snd (call (rd_Close st) s)))"

text \<open>
  \<open>WriteRetry\<close> is \<open>goto RetryChunk\<close>, \<open>WriteSplit\<close> \<open>goto EndChunkTransaction\<close>, \<open>WriteAbort\<close>
  \<open>goto EndChunkLoop\<close>. The count of attempts is a variable of the round: it is zero at every
  failure, so only whether any attempt is allowed matters.
\<close>

datatype write_result = WriteDone | WriteRetry | WriteSplit | WriteAbort goerr

definition write_chunk ::
  "('w, 'i, 'o) chunk_step \<Rightarrow> ('w, 'o) writer_ops \<Rightarrow> nat \<Rightarrow> 'o list \<Rightarrow> ('w, 'i, 'o) cstate \<Rightarrow>
     write_result \<times> ('w, 'i, 'o) cstate" where
  "write_chunk st wr t items s =
     (let writeAttempts = 0 in
      case call (wr_Write wr t items) (emit [BeforeWrite items] s) of
        (None, s1) \<Rightarrow> (WriteDone, emit [Wrote t items, AfterWrite items] s1)
      | (Some e, s1) \<Rightarrow>
          if BatchError_IsRetryable e \<and> writeAttempts < GetMaxAttempts (st_itemRetryPolicy st)
          then (case backoff st (writeAttempts + 1)
                  (reopen_reader st (count_rollback (rollback st t (emit [OnRetryWrite items e] s1)))) of
                  (Some we, s2) \<Rightarrow> (WriteAbort we, s2)
                | (None, s2) \<Rightarrow> (WriteRetry, s2))
          else if may_skip st se_SkipWriteCount e s1
          then (case HandleSkippableWriteFailure st wr items
                  (count_rollback (rollback st t (skip_write_chunk e s1))) of
                  (Some fe, s2) \<Rightarrow> (WriteAbort fe, s2)
                | (None, s2) \<Rightarrow> (WriteSplit, s2))
          else (WriteAbort (NewBatchError (st_id st) ''Item write failed (Fatal or limit reached)''
                   (Some e) False False),
                rollback st t (emit [OnWriteError items e] s1)))"

definition write_phase ::
  "('w, 'i, 'o) chunk_step \<Rightarrow> nat \<Rightarrow> 'o list \<Rightarrow> ('w, 'i, 'o) cstate \<Rightarrow>
     write_result \<times> ('w, 'i, 'o) cstate" where
  "write_phase st t items s = (case st_writer st of
       None \<Rightarrow> (WriteDone, s)
     | Some wr \<Rightarrow>
         if items = [] then (WriteDone, s)
         else (case write_chunk st wr t items s of
             (WriteDone, s1) \<Rightarrow>
               (WriteDone, s1\<lparr>cs_writeCount := cs_writeCount s1 + int (length items)\<rparr>)
           | (r, s1) \<Rightarrow> (r, s1)))"

section \<open>Checkpoints\<close>

text \<open>The state of a component, merged into \<open>acc\<close>; one without state is passed over.\<close>

definition merge_state ::
  "string \<Rightarrow> ('w \<Rightarrow> (goerr + ec) \<times> 'w) \<Rightarrow> ec \<Rightarrow> ('w, 'i, 'o) cstate \<Rightarrow>
     (goerr + ec) \<times> ('w, 'i, 'o) cstate" where
  "merge_state what get acc s = (case call get s of
       (Inr ec, s1) \<Rightarrow> (Inr (gm_merge ec acc), s1)
     | (Inl e, s1) \<Rightarrow>
         if errors_Is e ErrExecutionContextNotSupported then (Inr acc, s1)
         else (Inl (WrapError (''failed to get ExecutionContext from '' @ what @ '': '' @ Error_text e) e), s1))"

definition component_state ::
  "('w, 'i, 'o) chunk_step \<Rightarrow> ('w, 'i, 'o) cstate \<Rightarrow> (goerr + ec) \<times> ('w, 'i, 'o) cstate" where
  "component_state st s =
     (case merge_state ''ItemReader'' (rd_GetExecutionContext st) NewExecutionContext s of
        (Inl e, s1) \<Rightarrow> (Inl e, s1)
      | (Inr acc, s1) \<Rightarrow> (case st_writer st of
            None \<Rightarrow> (Inr acc, s1)
          | Some wr \<Rightarrow> merge_state ''ItemWriter'' (wr_GetExecutionContext wr) acc s1))"

definition put_counts :: "int \<Rightarrow> int \<Rightarrow> ec \<Rightarrow> ec" where
  "put_counts readCount writeCount ec =
     gm_put ''writeCount'' (VInt writeCount) (gm_put ''readCount'' (VInt readCount) ec)"

definition saveCheckpoint ::
  "('w, 'i, 'o) chunk_step \<Rightarrow> int \<Rightarrow> int \<Rightarrow> ('w, 'i, 'o) cstate \<Rightarrow>
     goerr option \<times> ('w, 'i, 'o) cstate" where
  "saveCheckpoint st readCount writeCount s = (case component_state st s of
       (Inl e, s1) \<Rightarrow> (Some e, s1)
     | (Inr ec, s1) \<Rightarrow>
         if ec = [] then (None, s1)
         else (let cp = \<lparr>cd_StepExecutionID = se_ID (cs_se s1),
                         cd_ExecutionContext = put_counts readCount writeCount ec,
                         cd_LastUpdated = zero_time\<rparr>
               in case call (jr_SaveCheckpointData st cp) s1 of
                    (Some e, s2) \<Rightarrow> (Some (WrapError (''failed to save checkpoint data: '' @ Error_text e) e), s2)
                  | (None, s2) \<Rightarrow> (None, emit [SavedCheckpoint cp] s2)))"

section \<open>One round\<close>

definition stream_update ::
  "(ec \<Rightarrow> 'w \<Rightarrow> (goerr option \<times> ec) \<times> 'w) option \<Rightarrow> ('w, 'i, 'o) cstate \<Rightarrow> ('w, 'i, 'o) cstate" where
  "stream_update f s = (case f of
       None \<Rightarrow> s
     | Some g \<Rightarrow> (case call (g (se_ExecutionContext (cs_se s))) s of
           ((err, ec), s1) \<Rightarrow> on_se (\<lambda>se. se\<lparr>se_ExecutionContext := ec\<rparr>) s1))"

definition update_streams :: "('w, 'i, 'o) chunk_step \<Rightarrow> ('w, 'i, 'o) cstate \<Rightarrow> ('w, 'i, 'o) cstate" where
  "update_streams st s =
     stream_update (case st_writer st of None \<Rightarrow> None | Some wr \<Rightarrow> wr_Update wr)
       (stream_update (pr_Update st) (stream_update (rd_Update st) s))"

definition verify_target :: "('w, 'i, 'o) chunk_step \<Rightarrow> ('w, 'i, 'o) cstate \<Rightarrow> ('w, 'i, 'o) cstate" where
  "verify_target st s = (case st_writer st of
       None \<Rightarrow> s
     | Some wr \<Rightarrow>
         if wr_GetTargetResourceName wr \<noteq> [] \<and> wr_GetResourcePath wr \<noteq> []
         then snd (call (db_Resolve st (wr_GetTargetResourceName wr)) s) else s)"

text \<open>\<open>EndChunks\<close> leaves the loop, with the chunk error.\<close>

datatype chunk_result = NextChunk | EndChunks "goerr option"

definition commit_chunk ::
  "('w, 'i, 'o) chunk_step \<Rightarrow> nat \<Rightarrow> bool \<Rightarrow> ('w, 'i, 'o) cstate \<Rightarrow>
     chunk_result \<times> ('w, 'i, 'o) cstate" where
  "commit_chunk st t isEOF s = (case commit st t (verify_target st s) of
       (Some ce, s1) \<Rightarrow>
         (let err = NewBatchError (st_id st) ''Failed to commit transaction for chunk'' (Some ce) False False
          in (EndChunks (Some err), emit [ChunkOnError err, AfterChunk] s1))
     | (None, s1) \<Rightarrow>
         (let s2 = emit [AfterChunk] (update_streams st (s1\<lparr>cs_commitCount := cs_commitCount s1 + 1\<rparr>))
          in case saveCheckpoint st (cs_readCount s2) (cs_writeCount s2) s2 of
               (Some e, s3) \<Rightarrow> (EndChunks (Some (NewBatchError (st_id st)
                   ''Failed to save checkpoint after commit'' (Some e) False False)), s3)
             | (None, s3) \<Rightarrow> (if isEOF then EndChunks None else NextChunk, s3)))"

definition chunk_round ::
  "('w, 'i, 'o) chunk_step \<Rightarrow> ('w, 'i, 'o) cstate \<Rightarrow> chunk_result \<times> ('w, 'i, 'o) cstate" where
  "chunk_round st s = (case begin_chunk st s of
       (Inl e, s1) \<Rightarrow> (EndChunks (Some e), s1)
     | (Inr t, s1) \<Rightarrow> (case read_loop st 0 [] s1 of
           (LoopAbort e, s2) \<Rightarrow> (EndChunks (Some e), s2)
         | (LoopFatal e, s2) \<Rightarrow>
             (EndChunks (Some e), emit [ChunkOnError e, AfterChunk] (rollback st t s2))
         | (LoopEnd cnt items isEOF, s2) \<Rightarrow>
             if cnt = 0 \<and> items = []
             then (EndChunks None, emit [AfterChunk] (rollback st t s2))
             else (case write_phase st t items s2 of
                 (WriteDone, s3) \<Rightarrow> commit_chunk st t isEOF s3
               | (WriteRetry, s3) \<Rightarrow> (NextChunk, s3)
               | (WriteSplit, s3) \<Rightarrow> (NextChunk, s3)
               | (WriteAbort e, s3) \<Rightarrow> (EndChunks (Some e), s3))))"

fun chunk_loop :: "nat \<Rightarrow> ('w, 'i, 'o) chunk_step \<Rightarrow> ('w, 'i, 'o) cstate \<Rightarrow>
    (goerr option \<times> ('w, 'i, 'o) cstate) option" where
  "chunk_loop 0 st s = None"
| "chunk_loop (Suc n) st s = (case chunk_round st s of
       (NextChunk, s1) \<Rightarrow> chunk_loop n st s1
     | (EndChunks e, s1) \<Rightarrow> Some (e, s1))"

section \<open>Execute\<close>

definition persist_se ::
  "('w, 'i, 'o) chunk_step \<Rightarrow> ('w, 'i, 'o) cstate \<Rightarrow> goerr option \<times> ('w, 'i, 'o) cstate" where
  "persist_se st s = (case call (jr_UpdateStepExecution st (cs_se s)) s of
       ((Some e, se), s1) \<Rightarrow> (Some e, s1\<lparr>cs_se := se\<rparr>)
     | ((None, se), s1) \<Rightarrow> (None, emit [Persisted se] (s1\<lparr>cs_se := se\<rparr>)))"

definition mark_started ::
  "('w, 'i, 'o) chunk_step \<Rightarrow> ('w, 'i, 'o) cstate \<Rightarrow> ('w, 'i, 'o) cstate" where
  "mark_started st s = (case call (time_Now st) s of
       (now, s1) \<Rightarrow> on_se (StepExecution_MarkAsStarted now) s1)"

text \<open>The counts of the checkpoint go into the step execution, its context to the components.\<close>

definition restore_counts :: "(f64 \<Rightarrow> int) \<Rightarrow> ec \<Rightarrow> StepExecution \<Rightarrow> StepExecution" where
  "restore_counts oor ec se =
     (let se1 = (case ExecutionContext_GetInt oor ec ''readCount'' of
                   Some rc \<Rightarrow> se\<lparr>se_ReadCount := rc\<rparr> | None \<Rightarrow> se)
      in (case ExecutionContext_GetInt oor ec ''writeCount'' of
            Some wc \<Rightarrow> se1\<lparr>se_WriteCount := wc\<rparr> | None \<Rightarrow> se1))"

definition load_checkpoint ::
  "('w, 'i, 'o) chunk_step \<Rightarrow> ('w, 'i, 'o) cstate \<Rightarrow> (goerr + ec) \<times> ('w, 'i, 'o) cstate" where
  "load_checkpoint st s =
     (case call (jr_FindCheckpointData st (se_ID (cs_se s))) s of
        (Inl e, s1) \<Rightarrow>
          if errors_Is e (plain_error ''checkpoint data not found'') then (Inr NewExecutionContext, s1)
          else (Inl (NewBatchError (st_id st) ''Failed to load checkpoint data'' (Some e) False False), s1)
      | (Inr None, s1) \<Rightarrow> (Inr NewExecutionContext, s1)
      | (Inr (Some cp), s1) \<Rightarrow>
          (Inr (cd_ExecutionContext cp),
           on_se (restore_counts (cv_OutOfRange st) (cd_ExecutionContext cp)) s1))"

definition open_components ::
  "('w, 'i, 'o) chunk_step \<Rightarrow> ec \<Rightarrow> ('w, 'i, 'o) cstate \<Rightarrow> goerr option \<times> ('w, 'i, 'o) cstate" where
  "open_components st ec s = (case call (rd_Open st ec) s of
       (Some e, s1) \<Rightarrow> (Some (NewBatchError (st_id st) ''Failed to open ItemReader'' (Some e) False False), s1)
     | (None, s1) \<Rightarrow> (case st_writer st of
           None \<Rightarrow> (None, s1)
         | Some wr \<Rightarrow> (case call (wr_Open wr ec) s1 of
               (Some e, s2) \<Rightarrow> (Some (NewBatchError (st_id st) ''Failed to open ItemWriter''
                   (Some e) False False), snd (call (rd_Close st) s2))
             | (None, s2) \<Rightarrow> (None, s2))))"

text \<open>Up to the loop: \<open>Inl e\<close> is an early return.\<close>

definition start_step ::
  "('w, 'i, 'o) chunk_step \<Rightarrow> ('w, 'i, 'o) cstate \<Rightarrow> goerr option \<times> ('w, 'i, 'o) cstate" where
  "start_step st s =
     (case persist_se st (mark_started st (emit [BeforeStep] s)) of
        (Some e, s1) \<Rightarrow> (Some (NewBatchError (st_id st)
            ''Failed to update StepExecution status to STARTED'' (Some e) False False), s1)
      | (None, s1) \<Rightarrow> (case load_checkpoint st s1 of
            (Inl e, s2) \<Rightarrow> (Some e, s2)
          | (Inr ec, s2) \<Rightarrow> (case open_components st ec s2 of
                (Some e, s3) \<Rightarrow> (Some e, s3)
              | (None, s3) \<Rightarrow>
                  (None, s3\<lparr>cs_readCount := se_ReadCount (cs_se s3),
                            cs_writeCount := se_WriteCount (cs_se s3),
                            cs_commitCount := se_CommitCount (cs_se s3)\<rparr>))))"

text \<open>An error of \<open>Close\<close> becomes the chunk error or joins it.\<close>

definition join_error :: "goerr option \<Rightarrow> goerr option \<Rightarrow> goerr option" where
  "join_error chunkError closeErr = (case closeErr of
       None \<Rightarrow> chunkError
     | Some ce \<Rightarrow> (case chunkError of None \<Rightarrow> Some ce | Some e \<Rightarrow> Some (JoinError [e, ce])))"

definition close_components ::
  "('w, 'i, 'o) chunk_step \<Rightarrow> goerr option \<Rightarrow> ('w, 'i, 'o) cstate \<Rightarrow>
     goerr option \<times> ('w, 'i, 'o) cstate" where
  "close_components st chunkError s = (case call (rd_Close st) s of
       (r, s1) \<Rightarrow> (case st_writer st of
           None \<Rightarrow> (join_error chunkError r, s1)
         | Some wr \<Rightarrow> (case call (wr_Close wr) s1 of
               (r2, s2) \<Rightarrow> (join_error (join_error chunkError r) r2, s2))))"

text \<open>The final context: every state the components report; a failing one is only logged.\<close>

definition collect_state :: "('w \<Rightarrow> (goerr + ec) \<times> 'w) \<Rightarrow> ec \<Rightarrow> ('w, 'i, 'o) cstate \<Rightarrow>
    ec \<times> ('w, 'i, 'o) cstate" where
  "collect_state get acc s = (case call get s of
       (Inr ec, s1) \<Rightarrow> (gm_merge ec acc, s1)
     | (Inl e, s1) \<Rightarrow> (acc, s1))"

definition final_context ::
  "('w, 'i, 'o) chunk_step \<Rightarrow> ('w, 'i, 'o) cstate \<Rightarrow> ec \<times> ('w, 'i, 'o) cstate" where
  "final_context st s =
     (case collect_state (rd_GetExecutionContext st) NewExecutionContext s of
        (acc, s1) \<Rightarrow> (case st_writer st of
            None \<Rightarrow> (acc, s1)
          | Some wr \<Rightarrow> collect_state (wr_GetExecutionContext wr) acc s1))"

definition mark_finished ::
  "('w, 'i, 'o) chunk_step \<Rightarrow> goerr option \<Rightarrow> ('w, 'i, 'o) cstate \<Rightarrow> ('w, 'i, 'o) cstate" where
  "mark_finished st chunkError s = (case call (time_Now st) s of
       (now, s1) \<Rightarrow> on_se (case chunkError of
           Some e \<Rightarrow> StepExecution_MarkAsFailed now e
         | None \<Rightarrow> StepExecution_MarkAsCompleted now) s1)"

definition finish_step ::
  "('w, 'i, 'o) chunk_step \<Rightarrow> goerr option \<Rightarrow> ('w, 'i, 'o) cstate \<Rightarrow>
     goerr option \<times> ('w, 'i, 'o) cstate" where
  "finish_step st loopError s =
     (let s1 = on_se (\<lambda>se. se\<lparr>se_ReadCount := cs_readCount s, se_WriteCount := cs_writeCount s,
                              se_CommitCount := cs_commitCount s\<rparr>) s
      in case close_components st loopError s1 of
           (chunkError, s2) \<Rightarrow> (case final_context st s2 of
             (ec, s3) \<Rightarrow>
               (let s4 = mark_finished st chunkError
                      (on_se (\<lambda>se. se\<lparr>se_ExecutionContext :=
                           put_counts (cs_readCount s) (cs_writeCount s) ec\<rparr>) s3)
                in case persist_se st s4 of
                     (Some e, s5) \<Rightarrow> (case chunkError of None \<Rightarrow> (Some e, s5) | Some ce \<Rightarrow> (Some ce, s5))
                   | (None, s5) \<Rightarrow> (chunkError, s5))))"

text \<open>\<open>AfterStep\<close> is deferred: it is notified on every return. \<open>None\<close>: the fuel ran out.\<close>

definition Execute :: "nat \<Rightarrow> ('w, 'i, 'o) chunk_step \<Rightarrow> ('w, 'i, 'o) cstate \<Rightarrow>
    (goerr option \<times> ('w, 'i, 'o) cstate) option" where
  "Execute fuel st s = (case start_step st s of
       (Some e, s1) \<Rightarrow> Some (Some e, emit [AfterStep] s1)
     | (None, s1) \<Rightarrow> (case chunk_loop fuel st s1 of
           None \<Rightarrow> None
         | Some (loopError, s2) \<Rightarrow> (case finish_step st loopError s2 of
               (err, s3) \<Rightarrow> Some (err, emit [AfterStep] s3))))"

text \<open>\<open>Close\<close> saves a last checkpoint with the counts of the step execution.\<close>

definition ChunkStep_Close ::
  "('w, 'i, 'o) chunk_step \<Rightarrow> ('w, 'i, 'o) cstate \<Rightarrow> goerr option \<times> ('w, 'i, 'o) cstate" where
  "ChunkStep_Close st s =
     saveCheckpoint st (se_ReadCount (cs_se s)) (se_WriteCount (cs_se s)) s"

end
