(* ===== verification/Chunk_Safety.thy ===== *)
theory Chunk_Safety
  imports Chunk_Step
begin

text \<open>
  Safety of the chunk engine: the protocol of its transactions, the budget of its skips, the
  statuses \<open>Execute\<close> leaves behind.
\<close>

section \<open>The transaction protocol\<close>

text \<open>
  The open transaction along a log: at most one is open, a write and a commit belong to the open
  one, a rollback closes it and does nothing when none is open. \<open>None\<close>: the protocol is broken.
\<close>

fun tx_step :: "nat option \<Rightarrow> ('i, 'o) ev \<Rightarrow> nat option option" where
  "tx_step tx (TxBegin t) = (case tx of None \<Rightarrow> Some (Some t) | Some _ \<Rightarrow> None)"
| "tx_step tx (TxCommit t) = (if tx = Some t then Some None else None)"
| "tx_step tx (TxCommitFailed t e) = (if tx = Some t then Some None else None)"
| "tx_step tx (TxRollback t) = (if tx = Some t \<or> tx = None then Some None else None)"
| "tx_step tx (Wrote t items) = (if tx = Some t then Some tx else None)"
| "tx_step tx _ = Some tx"

fun tx_run :: "nat option \<Rightarrow> ('i, 'o) ev list \<Rightarrow> nat option option" where
  "tx_run tx [] = Some tx"
| "tx_run tx (e # es) = (case tx_step tx e of None \<Rightarrow> None | Some tx' \<Rightarrow> tx_run tx' es)"

lemma tx_run_append:
  "tx_run tx (es @ fs) = (case tx_run tx es of None \<Rightarrow> None | Some tx' \<Rightarrow> tx_run tx' fs)"
  by (induction es arbitrary: tx) (auto split: option.splits)

lemma tx_step_item [simp]: "item_event e \<Longrightarrow> tx_step tx e = Some tx"
  by (cases e) auto

lemma tx_run_item [simp]: "list_all item_event es \<Longrightarrow> tx_run tx es = Some tx"
  by (induction es) auto

text \<open>The open transaction of a state, or a broken protocol.\<close>

definition tx_of :: "('w, 'i, 'o) cstate \<Rightarrow> nat option option" where
  "tx_of s = tx_run None (cs_log s)"

lemma tx_of_emit [simp]:
  "tx_of (emit es s) = (case tx_of s of None \<Rightarrow> None | Some tx \<Rightarrow> tx_run tx es)"
  by (simp add: tx_of_def tx_run_append)

lemma tx_of_same: "cs_log s' = cs_log s \<Longrightarrow> tx_of s' = tx_of s"
  by (simp add: tx_of_def)

lemma tx_of_call: "call f s = (r, s') \<Longrightarrow> tx_of s' = tx_of s"
  by (simp add: tx_of_def)

lemma tx_of_call_snd [simp]: "tx_of (snd (call f s)) = tx_of s"
  by (simp add: tx_of_def call_def split: prod.splits)

lemma tx_of_on_se [simp]: "tx_of (on_se f s) = tx_of s"
  by (simp add: tx_of_def)

lemma tx_of_count [simp]:
  "tx_of (count_rollback s) = tx_of s" "tx_of (count_write s) = tx_of s"
  "tx_of (count_read s) = tx_of s" "tx_of (count_filter s) = tx_of s"
  "tx_of (skip_write_chunk e s) = tx_of s"
  by (simp_all add: tx_of_def count_rollback_def count_write_def count_read_def count_filter_def
      skip_write_chunk_def)

lemma tx_of_update [simp]:
  "tx_of (s\<lparr>cs_writeCount := a\<rparr>) = tx_of s" "tx_of (s\<lparr>cs_commitCount := a\<rparr>) = tx_of s"
  "tx_of (s\<lparr>cs_readCount := a\<rparr>) = tx_of s" "tx_of (s\<lparr>cs_se := x\<rparr>) = tx_of s"
  "tx_of (s\<lparr>cs_skip := p\<rparr>) = tx_of s" "tx_of (s\<lparr>cs_world := w\<rparr>) = tx_of s"
  by (simp_all add: tx_of_def)

lemma tx_of_skip_item [simp]: "tx_of (skip_write_item i e s) = tx_of s"
  by (simp add: skip_write_item_def split: option.splits)

lemma tx_of_frame: "item_frame s s' \<Longrightarrow> tx_of s' = tx_of s"
  by (auto simp: item_frame_def tx_of_def tx_run_append split: option.splits)

lemma tx_of_rollback [simp]:
  "tx_of s = Some (Some t) \<Longrightarrow> tx_of (rollback st t s) = Some None"
  "tx_of s = Some None \<Longrightarrow> tx_of (rollback st t s) = Some None"
  by (simp_all add: rollback_def)

lemma tx_of_commit:
  "commit st t s = (r, s') \<Longrightarrow> tx_of s = Some (Some t) \<Longrightarrow> tx_of s' = Some None"
  by (auto simp: commit_def tx_of_call split: prod.splits option.splits)

lemma tx_of_backoff: "backoff st a s = (r, s') \<Longrightarrow> tx_of s' = tx_of s"
  by (rule tx_of_frame[OF item_frame_backoff])

text \<open>What every item keeps, a whole chunk of items keeps.\<close>

lemma read_loop_rel:
  assumes refl: "\<And>s. P s s" and trans: "\<And>s t u. P s t \<Longrightarrow> P t u \<Longrightarrow> P s u"
    and rd: "\<And>st s r s'. read_item st 0 s = (r, s') \<Longrightarrow> P s s'"
    and pr: "\<And>st i s r s'. process_item st i 0 s = (r, s') \<Longrightarrow> P s s'"
    and cr: "\<And>s. P s (count_read s)" and cf: "\<And>s. P s (count_filter s)"
  shows "read_loop st cnt items s = (r, s') \<Longrightarrow> P s s'"
proof (induction st cnt items s arbitrary: r s' rule: read_loop.induct)
  case (1 st cnt items s)
  show ?case
  proof (cases "cnt < st_chunkSize st")
    case False
    then show ?thesis using "1.prems" refl by (simp add: read_loop.simps[of st cnt])
  next
    case True
    then have nn: "\<not> \<not> cnt < st_chunkSize st" by simp
    obtain x s1 where x: "(x, s1) = read_item st 0 s" by (metis surj_pair)
    note step = "1.prems" nn x[symmetric] read_loop.simps[of st cnt items s]
    have p1: "P s s1" using rd x by metis
    show ?thesis
    proof (cases x)
      case (ReadItem i)
      obtain y s2 where y: "(y, s2) = process_item st i 0 (count_read s1)" by (metis surj_pair)
      have p2: "P s s2" using p1 cr pr y trans by metis
      show ?thesis
      proof (cases y)
        case (ProcItem out)
        show ?thesis
        proof (cases out)
          case None
          then have "P (count_filter s2) s'"
            using "1.IH"(1)[OF nn x ReadItem y ProcItem None] step ReadItem y[symmetric] ProcItem by simp
          then show ?thesis using p2 cf trans by metis
        next
          case (Some z)
          then have "P s2 s'"
            using "1.IH"(2)[OF nn x ReadItem y ProcItem Some] step ReadItem y[symmetric] ProcItem by simp
          then show ?thesis using p2 trans by metis
        qed
      next
        case (ProcSkipped e)
        then have "P s2 s'"
          using "1.IH"(3)[OF nn x ReadItem y ProcSkipped] step ReadItem y[symmetric] by simp
        then show ?thesis using p2 trans by metis
      qed (use step ReadItem y[symmetric] p2 in simp_all)
    next
      case (ReadSkipped e)
      then have "P s1 s'" using "1.IH"(4)[OF nn x ReadSkipped] step by simp
      then show ?thesis using p1 trans by metis
    qed (use step p1 in simp_all)
  qed
qed

lemma tx_of_read_loop: "read_loop st cnt items s = (r, s') \<Longrightarrow> tx_of s' = tx_of s"
  by (rule read_loop_rel[where P = "\<lambda>s s'. tx_of s' = tx_of s"])
    (auto dest!: read_item_spec process_item_spec dest: tx_of_frame)

lemma tx_of_split:
  "HandleSkippableWriteFailure st wr items s = (r, s') \<Longrightarrow> tx_of s = Some None \<Longrightarrow>
     tx_of s' = Some None"
proof (induction items arbitrary: s r s')
  case (Cons item items)
  obtain x s1 where b: "call (tm_Begin st) s = (x, s1)" by fastforce
  have t1: "tx_of s1 = Some None" using tx_of_call[OF b] Cons.prems(2) by simp
  show ?case
  proof (cases x)
    case (Inl e)
    then show ?thesis using Cons.prems b t1 by auto
  next
    case (Inr t)
    obtain y s2 where w: "call (wr_Write wr t [item]) (emit [TxBegin t] s1) = (y, s2)" by fastforce
    have t2: "tx_of s2 = Some (Some t)" using tx_of_call[OF w] t1 by simp
    show ?thesis
    proof (cases y)
      case (Some e)
      then show ?thesis using Cons.prems b w t2 Inr
        by (auto split: if_splits intro: Cons.IH)
    next
      case None
      obtain z s3 where c: "commit st t (emit [Wrote t [item]] s2) = (z, s3)" by fastforce
      have "tx_of s3 = Some None" using tx_of_commit[OF c] t2 by simp
      then show ?thesis using Cons.prems b w c Inr None
        by (auto split: option.splits intro: Cons.IH)
    qed
  qed
qed simp

lemma tx_of_reopen [simp]: "tx_of (reopen_reader st s) = tx_of s"
  by (simp add: reopen_reader_def)

lemma tx_of_write_chunk:
  assumes "write_chunk st wr t items s = (r, s')" "tx_of s = Some (Some t)"
  shows "tx_of s' = Some (if r = WriteDone then Some t else None)"
proof -
  obtain y s1 where w: "call (wr_Write wr t items) (emit [BeforeWrite items] s) = (y, s1)" by fastforce
  have t1: "tx_of s1 = Some (Some t)" using tx_of_call[OF w] assms(2) by simp
  show ?thesis using assms(1) w t1
    by (auto simp: write_chunk_def Let_def split: option.splits if_splits prod.splits
        dest!: tx_of_backoff tx_of_split)
qed

lemma tx_of_write_phase:
  assumes "write_phase st t items s = (r, s')" "tx_of s = Some (Some t)"
  shows "tx_of s' = Some (if r = WriteDone then Some t else None)"
proof (cases "st_writer st")
  case (Some wr)
  obtain x s1 where x: "write_chunk st wr t items s = (x, s1)" by fastforce
  show ?thesis using assms Some x tx_of_write_chunk[OF x assms(2)]
    by (cases x) (auto simp: write_phase_def split: if_splits)
qed (use assms in \<open>simp add: write_phase_def\<close>)

lemma tx_of_verify [simp]: "tx_of (verify_target st s) = tx_of s"
  by (simp add: verify_target_def split: option.splits)

lemma tx_of_stream [simp]: "tx_of (stream_update f s) = tx_of s"
  by (auto simp: stream_update_def tx_of_call split: option.splits prod.splits)

lemma tx_of_update_streams [simp]: "tx_of (update_streams st s) = tx_of s"
  by (simp add: update_streams_def)

lemma tx_of_merge_state: "merge_state what g acc s = (r, s') \<Longrightarrow> tx_of s' = tx_of s"
  by (auto simp: merge_state_def tx_of_call split: prod.splits sum.splits if_splits)

lemma tx_of_component_state: "component_state st s = (r, s') \<Longrightarrow> tx_of s' = tx_of s"
  by (auto simp: component_state_def split: prod.splits sum.splits option.splits
      dest!: tx_of_merge_state)

lemma tx_of_save: "saveCheckpoint st a b s = (r, s') \<Longrightarrow> tx_of s' = tx_of s"
  by (auto simp: saveCheckpoint_def Let_def tx_of_call
      split: prod.splits sum.splits option.splits if_splits dest!: tx_of_component_state)

lemma tx_of_commit_chunk:
  assumes "commit_chunk st t isEOF s = (r, s')" "tx_of s = Some (Some t)"
  shows "tx_of s' = Some None"
proof -
  obtain y s1 where c: "commit st t (verify_target st s) = (y, s1)" by fastforce
  have "tx_of s1 = Some None" using tx_of_commit[OF c] assms(2) by simp
  then show ?thesis using assms(1) c
    by (auto simp: commit_chunk_def Let_def split: option.splits prod.splits dest!: tx_of_save)
qed

lemma tx_of_begin_chunk:
  assumes "begin_chunk st s = (r, s')" "tx_of s = Some None"
  shows "tx_of s' = Some (case r of Inl e \<Rightarrow> None | Inr t \<Rightarrow> Some t)"
  using assms
  by (auto simp: begin_chunk_def tx_of_call split: if_splits prod.splits sum.splits)

text \<open>
  A round ends with its transaction closed, unless the read loop aborted: an error of the reader
  that is neither retried nor skipped, or a cancelled wait before a retry.
\<close>

lemma tx_of_round:
  assumes "chunk_round st s = (r, s')" "tx_of s = Some None"
  shows "tx_of s' = Some None \<or> (\<exists>t s1 e s2. begin_chunk st s = (Inr t, s1)
    \<and> read_loop st 0 [] s1 = (LoopAbort e, s2) \<and> r = EndChunks (Some e) \<and> s' = s2
    \<and> tx_of s' = Some (Some t))"
proof -
  obtain b s1 where b: "begin_chunk st s = (b, s1)" by fastforce
  show ?thesis
  proof (cases b)
    case (Inl e)
    then show ?thesis using assms tx_of_begin_chunk[OF b] b by (auto simp: chunk_round_def)
  next
    case (Inr t)
    obtain l s2 where l: "read_loop st 0 [] s1 = (l, s2)" by fastforce
    have t2: "tx_of s2 = Some (Some t)"
      using tx_of_read_loop[OF l] tx_of_begin_chunk[OF b assms(2)] Inr by simp
    show ?thesis
    proof (cases l)
      case (LoopEnd cnt items isEOF)
      obtain w s3 where w: "write_phase st t items s2 = (w, s3)" by fastforce
      show ?thesis using assms(1) b Inr l t2 LoopEnd w tx_of_write_phase[OF w t2]
        by (auto simp: chunk_round_def split: if_splits write_result.splits
            dest!: tx_of_commit_chunk)
    next
      case (LoopFatal e)
      then show ?thesis using assms(1) b Inr l t2 by (auto simp: chunk_round_def)
    next
      case (LoopAbort e)
      then show ?thesis using assms(1) b Inr l t2 by (auto simp: chunk_round_def)
    qed
  qed
qed

lemma tx_of_loop:
  "chunk_loop n st s = Some (err, s') \<Longrightarrow> tx_of s = Some None \<Longrightarrow>
     (\<exists>tx. tx_of s' = Some tx \<and> (err = None \<longrightarrow> tx = None))"
proof (induction n arbitrary: s)
  case (Suc n)
  obtain r s1 where r: "chunk_round st s = (r, s1)" by fastforce
  show ?case
  proof (cases r)
    case NextChunk
    then have "tx_of s1 = Some None" using tx_of_round[OF r Suc.prems(2)] by auto
    then show ?thesis using Suc.IH[of s1] Suc.prems(1) r NextChunk by simp
  next
    case (EndChunks e)
    then show ?thesis using tx_of_round[OF r Suc.prems(2)] Suc.prems(1) r by auto
  qed
qed simp

lemma tx_of_persist: "persist_se st s = (r, s') \<Longrightarrow> tx_of s' = tx_of s"
  by (auto simp: persist_se_def tx_of_call split: prod.splits option.splits)

lemma tx_of_marks [simp]:
  "tx_of (mark_started st s) = tx_of s" "tx_of (mark_finished st e s) = tx_of s"
  by (auto simp: mark_started_def mark_finished_def tx_of_call split: prod.splits)

lemma tx_of_load: "load_checkpoint st s = (r, s') \<Longrightarrow> tx_of s' = tx_of s"
  by (auto simp: load_checkpoint_def tx_of_call split: prod.splits sum.splits option.splits if_splits)

lemma tx_of_open: "open_components st ec s = (r, s') \<Longrightarrow> tx_of s' = tx_of s"
  by (auto simp: open_components_def tx_of_call split: prod.splits option.splits)

lemma tx_of_start: "start_step st s = (r, s') \<Longrightarrow> tx_of s = Some tx \<Longrightarrow> tx_of s' = Some tx"
  by (auto simp: start_step_def split: prod.splits sum.splits option.splits
      dest!: tx_of_persist tx_of_load tx_of_open)

lemma tx_of_close: "close_components st e s = (r, s') \<Longrightarrow> tx_of s' = tx_of s"
  by (auto simp: close_components_def tx_of_call split: prod.splits option.splits)

lemma tx_of_final: "final_context st s = (r, s') \<Longrightarrow> tx_of s' = tx_of s"
  by (auto simp: final_context_def collect_state_def tx_of_call
      split: prod.splits option.splits sum.splits)

lemma tx_of_finish: "finish_step st e s = (r, s') \<Longrightarrow> tx_of s' = tx_of s"
  by (auto simp: finish_step_def Let_def split: prod.splits option.splits
      dest!: tx_of_persist tx_of_close tx_of_final)

lemma join_error_None: "join_error a b = None \<longleftrightarrow> a = None \<and> b = None"
  by (auto simp: join_error_def split: option.splits)

lemma close_components_None: "close_components st e s = (None, s') \<Longrightarrow> e = None"
  by (auto simp: close_components_def join_error_None split: prod.splits option.splits)

lemma finish_step_None: "finish_step st e s = (None, s') \<Longrightarrow> e = None"
  by (auto simp: finish_step_def Let_def split: prod.splits option.splits
      dest!: close_components_None)

section \<open>A scripted step\<close>

text \<open>
  A concrete step for the witnesses: the reads and the writes give the results of a script, one
  after the other, then the end of the input and successful writes; the processor is the
  identity; transactions are numbered; the repository and the resolver always succeed.
\<close>

record script =
  sc_reads :: "(goerr + nat) list"
  sc_writes :: "goerr option list"
  sc_tx :: nat
  sc_out :: "nat list"

definition script_read :: "script \<Rightarrow> (goerr + nat) \<times> script" where
  "script_read w = (case sc_reads w of
       [] \<Rightarrow> (Inl ErrNoMoreItems, w) | r # rs \<Rightarrow> (r, w\<lparr>sc_reads := rs\<rparr>))"

definition script_write :: "nat \<Rightarrow> nat list \<Rightarrow> script \<Rightarrow> goerr option \<times> script" where
  "script_write t items w = (case sc_writes w of
       [] \<Rightarrow> (None, w\<lparr>sc_out := sc_out w @ items\<rparr>)
     | None # rs \<Rightarrow> (None, w\<lparr>sc_writes := rs, sc_out := sc_out w @ items\<rparr>)
     | Some e # rs \<Rightarrow> (Some e, w\<lparr>sc_writes := rs\<rparr>))"

definition script_writer :: "(script, nat) writer_ops" where
  "script_writer = \<lparr>wr_Open = \<lambda>ec w. (None, w), wr_Write = script_write,
     wr_Close = \<lambda>w. (None, w),
     wr_GetExecutionContext = \<lambda>w. (Inr [(''out'', VInt (int (length (sc_out w))))], w),
     wr_GetTargetResourceName = ''db'', wr_GetResourcePath = ''t'', wr_Update = None\<rparr>"

definition scripted :: "int \<Rightarrow> RetryPolicy \<Rightarrow> (script, nat, nat) chunk_step" where
  "scripted csize rp = \<lparr>st_id = ''step'', st_chunkSize = csize, st_itemRetryPolicy = rp,
     st_registry = init_registry, rd_Open = \<lambda>ec w. (None, w), rd_Read = script_read,
     rd_Close = \<lambda>w. (None, w), rd_GetExecutionContext = \<lambda>w. (Inr [], w), rd_Update = None,
     pr_Process = \<lambda>i w. (Inr (Some i), w), pr_Update = None, st_writer = Some script_writer,
     db_Resolve = \<lambda>n w. (Inr True, w), tm_Begin = \<lambda>w. (Inr (sc_tx w), w\<lparr>sc_tx := sc_tx w + 1\<rparr>),
     tm_Commit = \<lambda>t w. (None, w), tm_Rollback = \<lambda>t w. w, bw_Wait = \<lambda>d w. (None, w),
     jr_UpdateStepExecution = \<lambda>se w. ((None, se), w), jr_FindCheckpointData = \<lambda>i w. (Inr None, w),
     jr_SaveCheckpointData = \<lambda>cp w. (None, w), cv_OutOfRange = \<lambda>f. 0, time_Now = \<lambda>w. (1, w)\<rparr>"

definition script_state :: "(goerr + nat) list \<Rightarrow> goerr option list \<Rightarrow> SkipPolicy \<Rightarrow>
    (script, nat, nat) cstate" where
  "script_state reads writes p =
     \<lparr>cs_world = \<lparr>sc_reads = reads, sc_writes = writes, sc_tx = 0, sc_out = []\<rparr>,
      cs_se = zero_StepExecution, cs_skip = p, cs_readCount = 0, cs_writeCount = 0,
      cs_commitCount = 0, cs_log = []\<rparr>"

lemma script_run_ok:
  "map_option (\<lambda>(e, s). (e, sc_out (cs_world s), cs_readCount s, cs_writeCount s, cs_commitCount s))
     (chunk_loop 3 (scripted 2 (RetryPolicy_Create 1 0 []))
       (script_state [Inr 4, Inr 5, Inr 6] [] (SkipPolicy_Create 0 [])))
   = Some (None, [4, 5, 6], 3, 3, 2)"
  by code_simp

text \<open>
  C1: in the log of every run of \<open>Execute\<close>, at most one transaction is open at any time, every
  write happens inside the open transaction and every commit is of the open transaction; and a
  run that returns no error has closed all of them.
\<close>

theorem execute_transaction_protocol:
  assumes "Execute n st s = Some (err, s')" "cs_log s = []"
  shows "\<exists>tx. tx_run None (cs_log s') = Some tx \<and> (err = None \<longrightarrow> tx = None)"
proof -
  have t0: "tx_of s = Some None" using assms(2) by (simp add: tx_of_def)
  obtain r s1 where st: "start_step st s = (r, s1)" by fastforce
  have t1: "tx_of s1 = Some None" using tx_of_start[OF st t0] .
  have "\<exists>tx. tx_of s' = Some tx \<and> (err = None \<longrightarrow> tx = None)"
  proof (cases r)
    case (Some e)
    then show ?thesis using assms(1) st t1 by (auto simp: Execute_def)
  next
    case None
    then obtain le s2 where l: "chunk_loop n st s1 = Some (le, s2)"
      using assms(1) st by (auto simp: Execute_def split: option.splits)
    obtain fe s3 where f: "finish_step st le s2 = (fe, s3)" by fastforce
    have "err = fe" "tx_of s' = tx_of s3"
      using assms(1) st None l f by (auto simp: Execute_def split: option.splits)
    then show ?thesis using tx_of_loop[OF l t1] tx_of_finish[OF f] finish_step_None f by metis
  qed
  then show ?thesis by (simp add: tx_of_def)
qed

lemma execute_transaction_protocol_witness:
  "\<exists>err s'. Execute 5 (scripted 2 (RetryPolicy_Create 1 0 []))
      (script_state [Inr 4, Inr 5, Inr 6] [None, Some (BatchError [] [] None True False)] (SkipPolicy_Create 0 []))
      = Some (err, s')
    \<and> (\<exists>tx. tx_run None (cs_log s') = Some tx \<and> (err = None \<longrightarrow> tx = None))"
proof -
  let ?s = "script_state [Inr 4, Inr 5, Inr 6] [None, Some (BatchError [] [] None True False)] (SkipPolicy_Create 0 [])"
  have "Execute 5 (scripted 2 (RetryPolicy_Create 1 0 [])) ?s \<noteq> None" by code_simp
  then obtain err s' where "Execute 5 (scripted 2 (RetryPolicy_Create 1 0 [])) ?s = Some (err, s')"
    by (metis not_None_eq surj_pair)
  with execute_transaction_protocol[OF this] show ?thesis by (auto simp: script_state_def)
qed



section \<open>The budget of skips\<close>

definition total_skips :: "StepExecution \<Rightarrow> int" where
  "total_skips se = se_SkipReadCount se + se_SkipProcessCount se + se_SkipWriteCount se"

definition skip_counts_ok :: "StepExecution \<Rightarrow> bool" where
  "skip_counts_ok se \<longleftrightarrow>
     0 \<le> se_SkipReadCount se \<and> 0 \<le> se_SkipProcessCount se \<and> 0 \<le> se_SkipWriteCount se"

text \<open>What a part of a run does to the skips: counted alike, never above the limit.\<close>

definition skips_ok :: "('w, 'i, 'o) cstate \<Rightarrow> ('w, 'i, 'o) cstate \<Rightarrow> bool" where
  "skips_ok s s' \<longleftrightarrow>
     skipLimit (cs_skip s') = skipLimit (cs_skip s)
     \<and> currentSkipCount (cs_skip s') - currentSkipCount (cs_skip s)
         = total_skips (cs_se s') - total_skips (cs_se s)
     \<and> total_skips (cs_se s) \<le> total_skips (cs_se s')
     \<and> (skip_counts_ok (cs_se s) \<longrightarrow> skip_counts_ok (cs_se s')
          \<and> (skipLimit (cs_skip s) \<le> 0 \<longrightarrow> total_skips (cs_se s') = total_skips (cs_se s)))
     \<and> (0 \<le> skipLimit (cs_skip s) \<longrightarrow> currentSkipCount (cs_skip s) \<le> skipLimit (cs_skip s) \<longrightarrow>
          currentSkipCount (cs_skip s') \<le> skipLimit (cs_skip s))"

lemma skips_ok_refl [simp]: "skips_ok s s"
  by (simp add: skips_ok_def)

lemma skips_ok_trans: "skips_ok s t \<Longrightarrow> skips_ok t u \<Longrightarrow> skips_ok s u"
  by (auto simp: skips_ok_def)

lemma skips_ok_same:
  "cs_skip s' = cs_skip s \<Longrightarrow> se_SkipReadCount (cs_se s') = se_SkipReadCount (cs_se s) \<Longrightarrow>
   se_SkipProcessCount (cs_se s') = se_SkipProcessCount (cs_se s) \<Longrightarrow>
   se_SkipWriteCount (cs_se s') = se_SkipWriteCount (cs_se s) \<Longrightarrow> skips_ok s s'"
  by (simp add: skips_ok_def total_skips_def skip_counts_ok_def)

text \<open>One agreed skip of one kind.\<close>

lemma skips_ok_skip:
  assumes "cs_skip s' = IncrementSkipCount (cs_skip s)"
    and "total_skips (cs_se s') = total_skips (cs_se s) + 1"
    and "skip_counts_ok (cs_se s) \<longrightarrow> skip_counts_ok (cs_se s') \<and> 0 \<le> kind (cs_se s)"
    and "ShouldSkip reg (cs_skip s) (Some e)" "kind (cs_se s) < skipLimit (cs_skip s)"
  shows "skips_ok s s'"
proof -
  have below: "currentSkipCount (cs_skip s) + 1 \<le> skipLimit (cs_skip s)" if "0 \<le> skipLimit (cs_skip s)"
    using ShouldSkip_below[OF assms(4) that] by simp
  have pos: "\<not> skipLimit (cs_skip s) \<le> 0" if "skip_counts_ok (cs_se s)"
    using assms(3,5) that by linarith
  show ?thesis
    unfolding skips_ok_def assms(1,2) skip_fields using assms(3) below pos by simp
qed

lemma skips_ok_read: "read_item st a s = (r, s') \<Longrightarrow> skips_ok s s'"
proof -
  assume rd: "read_item st a s = (r, s')"
  note sp = read_item_spec[OF rd]
  show ?thesis
  proof (cases r)
    case (ReadSkipped e)
    then show ?thesis using sp
      by (intro skips_ok_skip[of s' s se_SkipReadCount "st_registry st" e])
        (auto simp: total_skips_def skip_counts_ok_def)
  qed (use sp in \<open>auto intro: skips_ok_same\<close>)
qed

lemma skips_ok_process: "process_item st i a s = (r, s') \<Longrightarrow> skips_ok s s'"
proof -
  assume rd: "process_item st i a s = (r, s')"
  note sp = process_item_spec[OF rd]
  show ?thesis
  proof (cases r)
    case (ProcSkipped e)
    then show ?thesis using sp
      by (intro skips_ok_skip[of s' s se_SkipProcessCount "st_registry st" e])
        (auto simp: total_skips_def skip_counts_ok_def)
  qed (use sp in \<open>auto intro: skips_ok_same\<close>)
qed

lemma skips_ok_read_loop: "read_loop st cnt items s = (r, s') \<Longrightarrow> skips_ok s s'"
  by (rule read_loop_rel[where P = skips_ok])
    (auto intro: skips_ok_trans skips_ok_read skips_ok_process skips_ok_same)

lemma skips_ok_call: "call f s = (r, s') \<Longrightarrow> skips_ok s s'"
  by (rule skips_ok_same) simp_all

lemma skips_ok_call_snd [simp]: "skips_ok s (snd (call f s))"
  by (cases "call f s") (simp add: skips_ok_call)

lemma skips_ok_emit [simp]: "skips_ok s (emit es s)"
  by (rule skips_ok_same) simp_all

lemma skips_ok_rollback [simp]: "skips_ok s (rollback st t s)" "skips_ok s (count_rollback s)"
  "skips_ok s (count_write s)"
  by (rule skips_ok_same; simp add: rollback_def count_rollback_def count_write_def)+

lemma skips_ok_commit: "commit st t s = (r, s') \<Longrightarrow> skips_ok s s'"
  by (rule skips_ok_same) (auto simp: commit_def split: prod.splits option.splits)

lemma skips_ok_backoff: "backoff st a s = (r, s') \<Longrightarrow> skips_ok s s'"
  using backoff_fields by (intro skips_ok_same) fastforce+

lemma write_skip_fields [simp]:
  "cs_skip (skip_write_item i e s) = IncrementSkipCount (cs_skip s)"
  "cs_skip (skip_write_chunk e s) = IncrementSkipCount (cs_skip s)"
  "cs_se (skip_write_item i e s) = StepExecution_AddFailureException e
     ((cs_se s)\<lparr>se_SkipWriteCount := se_SkipWriteCount (cs_se s) + 1\<rparr>)"
  "cs_se (skip_write_chunk e s) = StepExecution_AddFailureException e
     ((cs_se s)\<lparr>se_SkipWriteCount := se_SkipWriteCount (cs_se s) + 1\<rparr>)"
  by (simp_all add: skip_write_item_def skip_write_chunk_def)

lemma skips_ok_write_skip:
  assumes "may_skip st se_SkipWriteCount e s" "cs_skip s' = IncrementSkipCount (cs_skip s)"
    "cs_se s' = StepExecution_AddFailureException e
       ((cs_se s)\<lparr>se_SkipWriteCount := se_SkipWriteCount (cs_se s) + 1\<rparr>)"
  shows "skips_ok s s'"
  by (rule skips_ok_skip[of s' s se_SkipWriteCount "st_registry st" e])
    (use assms in \<open>simp_all add: total_skips_def skip_counts_ok_def may_skip_def GetSkipLimit_def\<close>)

lemma skips_ok_split:
  "HandleSkippableWriteFailure st wr items s = (r, s') \<Longrightarrow> skips_ok s s'"
proof (induction items arbitrary: s r s')
  case (Cons item items)
  obtain x s1 where b: "call (tm_Begin st) s = (x, s1)" by fastforce
  note k1 = skips_ok_call[OF b]
  show ?case
  proof (cases x)
    case (Inl e)
    then show ?thesis using Cons.prems b k1 by auto
  next
    case (Inr t)
    obtain y s2 where w: "call (wr_Write wr t [item]) (emit [TxBegin t] s1) = (y, s2)" by fastforce
    have k2: "skips_ok s s2"
      using skips_ok_trans[OF k1 skips_ok_trans[OF skips_ok_emit skips_ok_call[OF w]]] .
    show ?thesis
    proof (cases y)
      case (Some e)
      show ?thesis
      proof (cases "may_skip st se_SkipWriteCount e s2")
        case True
        then have "HandleSkippableWriteFailure st wr items (rollback st t (skip_write_item item e s2)) = (r, s')"
          using Cons.prems b w Inr Some by simp
        from Cons.IH[OF this] show ?thesis
          using k2 skips_ok_write_skip[OF True write_skip_fields(1,3)] skips_ok_rollback(1) skips_ok_trans
          by meson
      next
        case False
        then show ?thesis using Cons.prems b w Inr Some k2 skips_ok_trans[OF k2 skips_ok_rollback(1)]
          by auto
      qed
    next
      case None
      obtain z s3 where c: "commit st t (emit [Wrote t [item]] s2) = (z, s3)" by fastforce
      have k3: "skips_ok s s3"
        using skips_ok_trans[OF k2 skips_ok_trans[OF skips_ok_emit skips_ok_commit[OF c]]] .
      show ?thesis
      proof (cases z)
        case (Some ce)
        then show ?thesis using Cons.prems b w Inr None c skips_ok_trans[OF k3 skips_ok_rollback(1)] by auto
      next
        case None
        then have "HandleSkippableWriteFailure st wr items (count_write s3) = (r, s')"
          using Cons.prems b w Inr \<open>y = None\<close> c by simp
        from Cons.IH[OF this] show ?thesis using k3 skips_ok_rollback(3) skips_ok_trans by meson
      qed
    qed
  qed
qed simp

lemma skips_ok_reopen [simp]: "skips_ok s (reopen_reader st s)"
  unfolding reopen_reader_def by (meson skips_ok_call_snd skips_ok_trans)

lemma skips_ok_write_chunk:
  assumes "write_chunk st wr t items s = (r, s')"
  shows "skips_ok s s'"
proof -
  obtain y s1 where w: "call (wr_Write wr t items) (emit [BeforeWrite items] s) = (y, s1)" by fastforce
  have k1: "skips_ok s s1" using skips_ok_trans[OF skips_ok_emit skips_ok_call[OF w]] .
  show ?thesis
  proof (cases y)
    case None
    then show ?thesis using assms w skips_ok_trans[OF k1 skips_ok_emit]
      by (auto simp: write_chunk_def Let_def)
  next
    case (Some e)
    let ?r = "reopen_reader st (count_rollback (rollback st t (emit [OnRetryWrite items e] s1)))"
    let ?k = "count_rollback (rollback st t (skip_write_chunk e s1))"
    have kr: "skips_ok s ?r"
      using k1 by (meson skips_ok_reopen skips_ok_rollback skips_ok_emit skips_ok_trans)
    have kk: "skips_ok s ?k" if "may_skip st se_SkipWriteCount e s1"
      using k1 skips_ok_write_skip[OF that write_skip_fields(2,4)]
      by (meson skips_ok_rollback skips_ok_trans)
    have kf: "skips_ok s (rollback st t (emit [OnWriteError items e] s1))"
      using k1 by (meson skips_ok_rollback skips_ok_emit skips_ok_trans)
    show ?thesis using assms w Some kf
      by (auto simp: write_chunk_def Let_def split: if_splits prod.splits option.splits
          dest!: skips_ok_backoff skips_ok_split intro: skips_ok_trans[OF kr] skips_ok_trans[OF kk])
  qed
qed

lemma skips_ok_write_phase: "write_phase st t items s = (r, s') \<Longrightarrow> skips_ok s s'"
proof (cases "st_writer st")
  case (Some wr)
  assume p: "write_phase st t items s = (r, s')"
  obtain x s1 where x: "write_chunk st wr t items s = (x, s1)" by fastforce
  have "skips_ok s1 (s1\<lparr>cs_writeCount := c\<rparr>)" for c by (rule skips_ok_same) simp_all
  then show ?thesis using p Some x skips_ok_write_chunk[OF x] skips_ok_trans
    by (cases x) (fastforce simp: write_phase_def split: if_splits)+
qed (simp add: write_phase_def)

lemma skips_ok_stream [simp]: "skips_ok s (stream_update f s)"
  by (rule skips_ok_same) (auto simp: stream_update_def split: option.splits prod.splits)

lemma skips_ok_update_streams [simp]: "skips_ok s (update_streams st s)"
  unfolding update_streams_def by (meson skips_ok_stream skips_ok_trans)

lemma component_state_fields:
  assumes "component_state st s = (r, s')"
  shows "cs_se s' = cs_se s" "cs_skip s' = cs_skip s" "cs_readCount s' = cs_readCount s"
    "cs_writeCount s' = cs_writeCount s" "cs_commitCount s' = cs_commitCount s"
    "cs_log s' = cs_log s"
  using assms by (auto simp: component_state_def merge_state_def
      split: prod.splits sum.splits option.splits if_splits)

lemma saveCheckpoint_fields:
  assumes "saveCheckpoint st a b s = (r, s')"
  shows "cs_se s' = cs_se s" "cs_skip s' = cs_skip s" "cs_readCount s' = cs_readCount s"
    "cs_writeCount s' = cs_writeCount s" "cs_commitCount s' = cs_commitCount s"
  using assms component_state_fields
  by (auto simp: saveCheckpoint_def Let_def split: prod.splits sum.splits option.splits if_splits)

lemma skips_ok_commit_chunk:
  assumes "commit_chunk st t isEOF s = (r, s')"
  shows "skips_ok s s'"
proof -
  obtain y s1 where c: "commit st t (verify_target st s) = (y, s1)" by fastforce
  have "skips_ok s (verify_target st s)" by (simp add: verify_target_def split: option.splits)
  then have k1: "skips_ok s s1" using skips_ok_commit[OF c] skips_ok_trans by metis
  show ?thesis
  proof (cases y)
    case (Some ce)
    then show ?thesis using assms c skips_ok_trans[OF k1 skips_ok_emit]
      by (auto simp: commit_chunk_def Let_def)
  next
    case None
    let ?s2 = "emit [AfterChunk] (update_streams st (s1\<lparr>cs_commitCount := cs_commitCount s1 + 1\<rparr>))"
    have "skips_ok s1 (s1\<lparr>cs_commitCount := cs_commitCount s1 + 1\<rparr>)"
      by (rule skips_ok_same) simp_all
    then have k2: "skips_ok s ?s2"
      using k1 by (meson skips_ok_emit skips_ok_update_streams skips_ok_trans)
    obtain z s3 where sv: "saveCheckpoint st (cs_readCount ?s2) (cs_writeCount ?s2) ?s2 = (z, s3)"
      by fastforce
    have "skips_ok ?s2 s3" using saveCheckpoint_fields[OF sv] by (intro skips_ok_same) simp_all
    then have "skips_ok s s3" using k2 skips_ok_trans by metis
    moreover have "s' = s3" using assms c None sv
      by (auto simp: commit_chunk_def Let_def split: option.splits)
    ultimately show ?thesis by simp
  qed
qed

lemma skips_ok_begin: "begin_chunk st s = (r, s') \<Longrightarrow> skips_ok s s'"
  by (rule skips_ok_same) (auto simp: begin_chunk_def split: if_splits prod.splits sum.splits)

lemma skips_ok_round:
  assumes "chunk_round st s = (r, s')"
  shows "skips_ok s s'"
proof -
  obtain b s1 where b: "begin_chunk st s = (b, s1)" by fastforce
  note k1 = skips_ok_begin[OF b]
  show ?thesis
  proof (cases b)
    case (Inl e)
    then show ?thesis using assms b k1 by (simp add: chunk_round_def)
  next
    case (Inr t)
    obtain l s2 where l: "read_loop st 0 [] s1 = (l, s2)" by fastforce
    have k2: "skips_ok s s2" using skips_ok_trans[OF k1 skips_ok_read_loop[OF l]] .
    have kr: "skips_ok s (emit es (rollback st t s2))" for es
      using k2 by (meson skips_ok_emit skips_ok_rollback skips_ok_trans)
    show ?thesis
    proof (cases l)
      case (LoopEnd cnt items isEOF)
      obtain w s3 where w: "write_phase st t items s2 = (w, s3)" by fastforce
      have k3: "skips_ok s s3" using skips_ok_trans[OF k2 skips_ok_write_phase[OF w]] .
      show ?thesis using assms b Inr l LoopEnd w k3 kr
        by (auto simp: chunk_round_def split: if_splits write_result.splits
            dest!: skips_ok_commit_chunk intro: skips_ok_trans)
    qed (use assms b Inr l k2 kr in \<open>auto simp: chunk_round_def\<close>)
  qed
qed

text \<open>
  C5: over a whole run of the chunk loop, the skips of the reader, the processor and the writer
  together stay within the limit of the policy, the policy and the counters of the step
  execution agree on their number, and with a limit of zero or below nothing is skipped at all.
\<close>

theorem skips_within_limit:
  assumes "chunk_loop n st s = Some (err, s')" "skip_counts_ok (cs_se s)"
    and "currentSkipCount (cs_skip s) = total_skips (cs_se s)"
  shows "currentSkipCount (cs_skip s') = total_skips (cs_se s')
    \<and> (0 < skipLimit (cs_skip s) \<longrightarrow> total_skips (cs_se s) \<le> skipLimit (cs_skip s) \<longrightarrow>
         total_skips (cs_se s') \<le> skipLimit (cs_skip s))
    \<and> (skipLimit (cs_skip s) \<le> 0 \<longrightarrow> total_skips (cs_se s') = total_skips (cs_se s))"
proof -
  have "skips_ok s s'"
    using assms(1)
  proof (induction n arbitrary: s)
    case (Suc n)
    obtain r s1 where r: "chunk_round st s = (r, s1)" by fastforce
    show ?case using Suc.IH[of s1] Suc.prems r skips_ok_round[OF r] skips_ok_trans
      by (cases r) auto
  qed simp
  then have "currentSkipCount (cs_skip s') = total_skips (cs_se s')"
    and "0 \<le> skipLimit (cs_skip s) \<Longrightarrow> currentSkipCount (cs_skip s) \<le> skipLimit (cs_skip s) \<Longrightarrow>
      currentSkipCount (cs_skip s') \<le> skipLimit (cs_skip s)"
    and "skipLimit (cs_skip s) \<le> 0 \<Longrightarrow> total_skips (cs_se s') = total_skips (cs_se s)"
    using assms(2,3) unfolding skips_ok_def by simp_all
  then show ?thesis using assms(3) by simp
qed

lemma skips_within_limit_witness:
  "\<exists>err s'. chunk_loop 9 (scripted 2 (RetryPolicy_Create 1 0 []))
      (script_state [Inr 4, Inl (BatchError [] [] None False True), Inr 5, Inr 6]
         [Some (BatchError [] [] None False True)] (SkipPolicy_Create 3 [])) = Some (err, s')
    \<and> total_skips (cs_se s') \<le> 3"
proof -
  let ?st = "scripted 2 (RetryPolicy_Create 1 0 [])"
  let ?s = "script_state [Inr 4, Inl (BatchError [] [] None False True), Inr 5, Inr 6]
         [Some (BatchError [] [] None False True)] (SkipPolicy_Create 3 [])"
  have "chunk_loop 9 ?st ?s \<noteq> None" by code_simp
  then obtain err s' where "chunk_loop 9 ?st ?s = Some (err, s')" by (metis not_None_eq surj_pair)
  with skips_within_limit[OF this] show ?thesis
    by (simp add: script_state_def skip_counts_ok_def total_skips_def zero_StepExecution_def
        SkipPolicy_Create_def)
qed

end
