(* ===== verification/Chunk_Correct.thy ===== *)
theory Chunk_Correct
  imports Chunk_Safety
begin

text \<open>
  What the chunk engine computes: the statuses of \<open>Execute\<close>, the items a fault-free run commits,
  chunk splitting, and the retry of a write.
\<close>

section \<open>Statuses\<close>

text \<open>
  The repository changes a step execution it updates in its version only. This is what the
  in-memory and the SQL repository of the framework do.
\<close>

definition repo_keeps :: "('w, 'i, 'o) chunk_step \<Rightarrow> bool" where
  "repo_keeps st \<longleftrightarrow> (\<forall>se w e se' w'. jr_UpdateStepExecution st se w = ((e, se'), w') \<longrightarrow>
     se' = se\<lparr>se_Version := se_Version se'\<rparr>)"

lemma version_update_fields:
  assumes "se' = se\<lparr>se_Version := se_Version se'\<rparr>"
  shows "se_Status se' = se_Status se" "se_Failures se' = se_Failures se"
    "step_closed se' = step_closed se" "se_ID se' = se_ID se"
    "se_ExecutionContext se' = se_ExecutionContext se"
  by (subst assms, simp add: step_closed_def)+

lemma persist_keeps:
  assumes "persist_se st s = (r, s')" "repo_keeps st"
  shows "cs_se s' = (cs_se s)\<lparr>se_Version := se_Version (cs_se s')\<rparr>"
proof -
  obtain e se s1 where "call (jr_UpdateStepExecution st (cs_se s)) s = ((e, se), s1)"
    by (metis surj_pair)
  moreover from this obtain w where "jr_UpdateStepExecution st (cs_se s) (cs_world s) = ((e, se), w)"
    by (auto simp: call_def split: prod.splits)
  with assms(2) have "se = (cs_se s)\<lparr>se_Version := se_Version se\<rparr>"
    unfolding repo_keeps_def by blast
  ultimately show ?thesis using assms(1) by (auto simp: persist_se_def split: option.splits)
qed

lemma persist_log:
  "persist_se st s = (None, s') \<Longrightarrow> cs_log s' = cs_log s @ [Persisted (cs_se s')]"
  by (auto simp: persist_se_def split: prod.splits option.splits)

lemma restore_status: "se_Status (restore_counts oor ec se) = se_Status se"
  by (simp add: restore_counts_def Let_def split: option.splits)

lemma load_status: "load_checkpoint st s = (r, s') \<Longrightarrow> se_Status (cs_se s') = se_Status (cs_se s)"
  by (auto simp: load_checkpoint_def restore_status split: prod.splits sum.splits option.splits if_splits)

lemma open_status: "open_components st ec s = (r, s') \<Longrightarrow> cs_se s' = cs_se s"
  by (auto simp: open_components_def split: prod.splits option.splits)
    (metis call_fields(1) prod.collapse)+

lemma mark_started_status [simp]: "se_Status (cs_se (mark_started st s)) = STARTED"
  by (simp add: mark_started_def split: prod.splits)

lemma start_status:
  assumes "start_step st s = (r, s')" "repo_keeps st"
  shows "se_Status (cs_se s') = STARTED"
proof -
  obtain p s1 where p: "persist_se st (mark_started st (emit [BeforeStep] s)) = (p, s1)" by fastforce
  have s1: "se_Status (cs_se s1) = STARTED"
    using version_update_fields(1)[OF persist_keeps[OF p assms(2)]] by simp
  obtain l s2 where l: "load_checkpoint st s1 = (l, s2)" by fastforce
  have s2: "se_Status (cs_se s2) = STARTED" using load_status[OF l] s1 by simp
  show ?thesis
    using assms(1) p l s1 s2
    by (auto simp: start_step_def split: option.splits sum.splits prod.splits dest!: open_status)
qed

lemma mark_finished_spec:
  "step_closed (cs_se (mark_finished st e s))"
  "se_Status (cs_se (mark_finished st e s)) = (case e of None \<Rightarrow> COMPLETED | Some _ \<Rightarrow> FAILED)"
  "e = Some x \<Longrightarrow> Error_text x \<in> set (se_Failures (cs_se (mark_finished st e s)))"
  by (auto simp: mark_finished_def mark_defs step_closed_def split: prod.splits option.splits)

lemma finish_status:
  assumes "finish_step st le s = (err, s')" "repo_keeps st"
  shows "step_closed (cs_se s')
    \<and> (se_Status (cs_se s') = COMPLETED \<or>
       se_Status (cs_se s') = FAILED \<and> (\<exists>e. err = Some e \<and> Error_text e \<in> set (se_Failures (cs_se s'))))
    \<and> (err = None \<longrightarrow> se_Status (cs_se s') = COMPLETED
         \<and> (\<exists>es. cs_log s' = es @ [Persisted (cs_se s')]))"
proof -
  let ?s1 = "on_se (\<lambda>se. se\<lparr>se_ReadCount := cs_readCount s, se_WriteCount := cs_writeCount s,
                              se_CommitCount := cs_commitCount s\<rparr>) s"
  obtain ce s2 where c: "close_components st le ?s1 = (ce, s2)" by fastforce
  obtain ec s3 where f: "final_context st s2 = (ec, s3)" by fastforce
  let ?s4 = "mark_finished st ce (on_se (\<lambda>se. se\<lparr>se_ExecutionContext :=
                           put_counts (cs_readCount s) (cs_writeCount s) ec\<rparr>) s3)"
  obtain p s5 where p: "persist_se st ?s4 = (p, s5)" by fastforce
  have s': "s' = s5" "err = (case ce of Some x \<Rightarrow> Some x | None \<Rightarrow> p)"
    using assms(1) c f p by (auto simp: finish_step_def Let_def split: option.splits)
  note v = version_update_fields[OF persist_keeps[OF p assms(2)]]
  have cl: "step_closed (cs_se s5)" using v(3) mark_finished_spec(1) by blast
  show ?thesis
  proof (cases ce)
    case None
    then have "se_Status (cs_se s5) = COMPLETED" using v(1) by (simp add: mark_finished_spec(2))
    then show ?thesis using s' None cl persist_log p by auto
  next
    case (Some x)
    then have "se_Status (cs_se s5) = FAILED" "Error_text x \<in> set (se_Failures (cs_se s5))"
      using v(1,2) by (simp_all add: mark_finished_spec(2,3))
    then show ?thesis using s' Some cl by simp
  qed
qed

text \<open>
  C8: \<open>Execute\<close> leaves the step execution in one of three states. After an early return (the
  first update, the checkpoint or an \<open>Open\<close> failed) it returns that error and the status is
  still \<open>STARTED\<close>. Otherwise the execution is closed, with an end time and the exit status of
  its status: \<open>FAILED\<close> with the returned error among its failures, or \<open>COMPLETED\<close>; a run that
  returns no error is completed and its final state is the last thing the repository was given.
  \<open>AfterStep\<close> is the last notification in every case.
\<close>

theorem execute_statuses:
  assumes "Execute n st s = Some (err, s')" "repo_keeps st"
  shows "(fst (start_step st s) \<noteq> None \<longrightarrow>
            err = fst (start_step st s) \<and> se_Status (cs_se s') = STARTED)
    \<and> (fst (start_step st s) = None \<longrightarrow> step_closed (cs_se s')
         \<and> (se_Status (cs_se s') = COMPLETED \<or> se_Status (cs_se s') = FAILED
              \<and> (\<exists>e. err = Some e \<and> Error_text e \<in> set (se_Failures (cs_se s')))))
    \<and> (err = None \<longrightarrow> se_Status (cs_se s') = COMPLETED
         \<and> (\<exists>es. cs_log s' = es @ [Persisted (cs_se s'), AfterStep]))
    \<and> last (cs_log s') = AfterStep"
proof -
  obtain r s1 where st: "start_step st s = (r, s1)" by fastforce
  show ?thesis
  proof (cases r)
    case (Some e)
    then show ?thesis using assms(1) st start_status[OF st assms(2)] by (auto simp: Execute_def)
  next
    case None
    then obtain le s2 where l: "chunk_loop n st s1 = Some (le, s2)"
      using assms(1) st by (auto simp: Execute_def split: option.splits)
    obtain fe s3 where f: "finish_step st le s2 = (fe, s3)" by fastforce
    have "err = fe" "s' = emit [AfterStep] s3"
      using assms(1) st None l f by (auto simp: Execute_def split: option.splits)
    then show ?thesis using finish_status[OF f assms(2)] st None by auto
  qed
qed

lemma repo_keeps_scripted: "repo_keeps (scripted k rp)"
  by (simp add: repo_keeps_def scripted_def)

lemma execute_statuses_witness:
  "\<exists>err s'. Execute 5 (scripted 2 (RetryPolicy_Create 0 0 []))
      (script_state [Inr 4] [Some (plain_error ''full'')] (SkipPolicy_Create 0 [])) = Some (err, s')
    \<and> se_Status (cs_se s') = FAILED \<and> step_closed (cs_se s')"
proof -
  let ?st = "scripted 2 (RetryPolicy_Create 0 0 [])"
  let ?s = "script_state [Inr 4] [Some (plain_error ''full'')] (SkipPolicy_Create 0 [])"
  have "map_option (\<lambda>(err, s'). (err \<noteq> None, se_Status (cs_se s'))) (Execute 5 ?st ?s) = Some (True, FAILED)"
    by code_simp
  then obtain err s' where e: "Execute 5 ?st ?s = Some (err, s')" "se_Status (cs_se s') = FAILED"
    by auto
  moreover have "fst (start_step ?st ?s) = None" by code_simp
  ultimately show ?thesis using execute_statuses[OF e(1) repo_keeps_scripted] by blast
qed

section \<open>Committed items\<close>

text \<open>
  The items that a log commits: those written in a transaction count when it is committed. The
  accumulators are the items of the open transaction and those committed so far.
\<close>

fun committed :: "'o list \<Rightarrow> 'o list \<Rightarrow> ('i, 'o) ev list \<Rightarrow> 'o list \<times> 'o list" where
  "committed buf acc [] = (buf, acc)"
| "committed buf acc (TxBegin t # es) = committed [] acc es"
| "committed buf acc (Wrote t items # es) = committed (buf @ items) acc es"
| "committed buf acc (TxCommit t # es) = committed [] (acc @ buf) es"
| "committed buf acc (TxCommitFailed t e # es) = committed [] acc es"
| "committed buf acc (TxRollback t # es) = committed [] acc es"
| "committed buf acc (_ # es) = committed buf acc es"

lemma committed_append:
  "committed buf acc (es @ fs) = (case committed buf acc es of (b, d) \<Rightarrow> committed b d fs)"
  by (induction buf acc es rule: committed.induct) auto

lemma committed_item [simp]: "list_all item_event es \<Longrightarrow> committed buf acc es = (buf, acc)"
proof (induction es)
  case (Cons e es)
  then show ?case by (cases e) auto
qed simp

text \<open>The items of the open transaction, and the committed ones, of a state.\<close>

definition out_of :: "('w, 'i, 'o) cstate \<Rightarrow> 'o list \<times> 'o list" where
  "out_of s = committed [] [] (cs_log s)"

lemma out_of_emit: "out_of (emit es s) = (case out_of s of (b, d) \<Rightarrow> committed b d es)"
  by (simp add: out_of_def committed_append)

lemma out_of_same: "cs_log s' = cs_log s \<Longrightarrow> out_of s' = out_of s"
  by (simp add: out_of_def)

lemma out_of_frame: "item_frame s s' \<Longrightarrow> out_of s' = out_of s"
  by (auto simp: item_frame_def out_of_def committed_append split: prod.splits)

lemma out_of_call: "call f s = (r, s') \<Longrightarrow> out_of s' = out_of s"
  by (simp add: out_of_def)

lemma out_of_simps [simp]:
  "out_of (on_se f s) = out_of s" "out_of (count_write s) = out_of s"
  "out_of (count_rollback s) = out_of s" "out_of (skip_write_chunk e s) = out_of s"
  "out_of (s\<lparr>cs_writeCount := a\<rparr>) = out_of s" "out_of (s\<lparr>cs_commitCount := a\<rparr>) = out_of s"
  "out_of (count_read s) = out_of s" "out_of (count_filter s) = out_of s"
  "out_of (skip_write_item i e s) = out_of s"
  by (simp_all add: out_of_def count_write_def count_rollback_def skip_write_chunk_def
      skip_write_item_def committed_append split: prod.splits)

lemma out_of_rollback: "out_of (rollback st t s) = ([], snd (out_of s))"
  by (simp add: rollback_def out_of_def committed_append split: prod.splits)

section \<open>Chunk splitting\<close>

text \<open>
  A writer that rejects exactly the items of \<open>bad\<close>, with skippable errors, while transactions
  work: what is written alone is accepted or rejected for itself.
\<close>

definition rejects :: "('w, 'i, 'o) chunk_step \<Rightarrow> ('w, 'o) writer_ops \<Rightarrow> ('o \<Rightarrow> bool) \<Rightarrow> bool" where
  "rejects st wr bad \<longleftrightarrow>
     (\<forall>w. \<exists>t w'. tm_Begin st w = (Inr t, w')) \<and> (\<forall>t w. \<exists>w'. tm_Commit st t w = (None, w'))
     \<and> (\<forall>t x w. \<exists>r w'. wr_Write wr t [x] w = (r, w') \<and>
          (if bad x then \<exists>m msg e rt. r = Some (BatchError m msg e rt True) else r = None))"

text \<open>The skips that are left for writes.\<close>

definition write_budget :: "('w, 'i, 'o) cstate \<Rightarrow> int" where
  "write_budget s = skipLimit (cs_skip s) - currentSkipCount (cs_skip s)"

text \<open>The counter of the writer's skips is part of the policy's.\<close>

definition skips_agree :: "('w, 'i, 'o) cstate \<Rightarrow> bool" where
  "skips_agree s \<longleftrightarrow> 0 < skipLimit (cs_skip s) \<and> se_SkipWriteCount (cs_se s) \<le> currentSkipCount (cs_skip s)"

lemma may_skip_write:
  assumes "skips_agree s"
  shows "may_skip st se_SkipWriteCount (BatchError m msg e rt True) s \<longleftrightarrow> 0 < write_budget s"
  using assms
  by (auto simp: may_skip_def skips_agree_def write_budget_def ShouldSkip_def GetSkipLimit_def)

lemma rollback_fields [simp]:
  "cs_se (rollback st t s) = cs_se s" "cs_skip (rollback st t s) = cs_skip s"
  "cs_readCount (rollback st t s) = cs_readCount s" "cs_writeCount (rollback st t s) = cs_writeCount s"
  "cs_commitCount (rollback st t s) = cs_commitCount s"
  by (simp_all add: rollback_def)

lemma skip_write_counts [simp]:
  "cs_writeCount (skip_write_item i e s) = cs_writeCount s"
  "cs_writeCount (skip_write_chunk e s) = cs_writeCount s"
  by (simp_all add: skip_write_item_def skip_write_chunk_def)

lemma count_write_fields [simp]:
  "cs_se (count_write s) = (cs_se s)\<lparr>se_WriteCount := se_WriteCount (cs_se s) + 1\<rparr>"
  "cs_skip (count_write s) = cs_skip s" "cs_writeCount (count_write s) = cs_writeCount s"
  "cs_se (count_rollback s) = (cs_se s)\<lparr>se_RollbackCount := se_RollbackCount (cs_se s) + 1\<rparr>"
  "cs_skip (count_rollback s) = cs_skip s" "cs_writeCount (count_rollback s) = cs_writeCount s"
  by (simp_all add: count_write_def count_rollback_def)

lemma commit_fields:
  assumes "commit st t s = (r, s')"
  shows "cs_se s' = cs_se s" "cs_skip s' = cs_skip s" "cs_writeCount s' = cs_writeCount s"
    "cs_readCount s' = cs_readCount s" "cs_commitCount s' = cs_commitCount s"
  using assms by (auto simp: commit_def split: prod.splits option.splits)

text \<open>What splitting does to a state, when \<open>n\<close> items are skipped and \<open>good\<close> are written.\<close>

definition split_done :: "('w, 'i, 'o) cstate \<Rightarrow> int \<Rightarrow> 'o list \<Rightarrow> ('w, 'i, 'o) cstate \<Rightarrow> bool" where
  "split_done s n good s' \<longleftrightarrow>
     out_of s' = ([], snd (out_of s) @ good)
     \<and> se_SkipWriteCount (cs_se s') = se_SkipWriteCount (cs_se s) + n
     \<and> se_WriteCount (cs_se s') = se_WriteCount (cs_se s) + int (length good)
     \<and> currentSkipCount (cs_skip s') = currentSkipCount (cs_skip s) + n
     \<and> skipLimit (cs_skip s') = skipLimit (cs_skip s)
     \<and> cs_writeCount s' = cs_writeCount s"

lemma split_done_trans:
  "split_done s n xs t \<Longrightarrow> split_done t m ys u \<Longrightarrow> split_done s (n + m) (xs @ ys) u"
  by (simp add: split_done_def)

lemma split_done_agree: "split_done s n xs t \<Longrightarrow> skips_agree s \<Longrightarrow> skips_agree t"
  "split_done s n xs t \<Longrightarrow> write_budget t = write_budget s - n"
  by (auto simp: split_done_def skips_agree_def write_budget_def)

text \<open>One item of a split chunk.\<close>

lemma split_one_bad:
  assumes "rejects st wr bad" "bad x" "skips_agree s" "fst (out_of s) = []"
  shows "(\<exists>s1. split_done s 1 [] s1 \<and> 0 < write_budget s \<and>
      HandleSkippableWriteFailure st wr (x # xs) s = HandleSkippableWriteFailure st wr xs s1) \<or>
    (\<exists>e s1. write_budget s \<le> 0 \<and> HandleSkippableWriteFailure st wr (x # xs) s = (Some e, s1))"
proof -
  obtain t w1 where b: "tm_Begin st (cs_world s) = (Inr t, w1)"
    using assms(1) unfolding rejects_def by blast
  obtain m msg oe rt w2 where w: "wr_Write wr t [x] w1 = (Some (BatchError m msg oe rt True), w2)"
    using assms(1,2) unfolding rejects_def by metis
  let ?e = "BatchError m msg oe rt True"
  let ?s1 = "s\<lparr>cs_world := w1\<rparr>"
  let ?s2 = "(emit [TxBegin t] ?s1)\<lparr>cs_world := w2\<rparr>"
  have cb: "call (tm_Begin st) s = (Inr t, ?s1)" using b by (simp add: call_def)
  have cw: "call (wr_Write wr t [x]) (emit [TxBegin t] ?s1) = (Some ?e, ?s2)"
    using w by (simp add: call_def)
  have ag: "skips_agree ?s2" "write_budget ?s2 = write_budget s"
    using assms(3) by (simp_all add: skips_agree_def write_budget_def)
  note unf = HandleSkippableWriteFailure.simps(2)[of st wr x xs s, unfolded cb cw prod.case sum.case option.case]
  show ?thesis
  proof (cases "0 < write_budget s")
    case True
    let ?s3 = "rollback st t (skip_write_item x ?e ?s2)"
    have "out_of ?s3 = ([], snd (out_of s))"
      by (simp add: out_of_rollback out_of_emit out_of_same[of "?s2" "emit [TxBegin t] ?s1"]
          out_of_same[of ?s1 s] split: prod.splits)
    then have "split_done s 1 [] ?s3" by (simp add: split_done_def)
    then show ?thesis using True unf may_skip_write[OF ag(1)] ag(2) by auto
  next
    case False
    then show ?thesis using unf cb cw may_skip_write[OF ag(1)] ag(2) by auto
  qed
qed

lemma split_one_good:
  assumes "rejects st wr bad" "\<not> bad x" "fst (out_of s) = []"
  shows "\<exists>s1. split_done s 0 [x] s1 \<and>
      HandleSkippableWriteFailure st wr (x # xs) s = HandleSkippableWriteFailure st wr xs s1"
proof -
  obtain t w1 where b: "tm_Begin st (cs_world s) = (Inr t, w1)"
    using assms(1) unfolding rejects_def by blast
  obtain w2 where w: "wr_Write wr t [x] w1 = (None, w2)"
    using assms(1,2) unfolding rejects_def by metis
  obtain w3 where c: "tm_Commit st t w2 = (None, w3)" using assms(1) unfolding rejects_def by blast
  let ?s1 = "s\<lparr>cs_world := w1\<rparr>"
  let ?s2 = "(emit [TxBegin t] ?s1)\<lparr>cs_world := w2\<rparr>"
  let ?s3 = "emit [TxCommit t] ((emit [Wrote t [x]] ?s2)\<lparr>cs_world := w3\<rparr>)"
  have cb: "call (tm_Begin st) s = (Inr t, ?s1)" using b by (simp add: call_def)
  have cw: "call (wr_Write wr t [x]) (emit [TxBegin t] ?s1) = (None, ?s2)"
    using w by (simp add: call_def)
  have cc: "commit st t (emit [Wrote t [x]] ?s2) = (None, ?s3)"
    using c by (simp add: commit_def call_def)
  have "HandleSkippableWriteFailure st wr (x # xs) s
      = HandleSkippableWriteFailure st wr xs (count_write ?s3)"
    using cb cw cc by simp
  moreover have "cs_log (count_write ?s3) = cs_log s @ [TxBegin t, Wrote t [x], TxCommit t]"
    by (simp add: count_write_def)
  then have "split_done s 0 [x] (count_write ?s3)"
    using assms(3) by (simp add: split_done_def out_of_def committed_append split: prod.splits)
  ultimately show ?thesis by blast
qed

lemma split_result:
  assumes "rejects st wr bad"
  shows "skips_agree s \<Longrightarrow> fst (out_of s) = [] \<Longrightarrow>
    (if int (length (filter bad items)) \<le> write_budget s \<or> filter bad items = []
     then \<exists>s'. HandleSkippableWriteFailure st wr items s = (None, s')
            \<and> split_done s (int (length (filter bad items))) (filter (\<lambda>x. \<not> bad x) items) s'
     else \<exists>e s'. HandleSkippableWriteFailure st wr items s = (Some e, s'))"
proof (induction items arbitrary: s)
  case Nil
  then show ?case by (cases "out_of s") (simp add: split_done_def)
next
  case (Cons x xs)
  show ?case
  proof (cases "bad x")
    case False
    from split_one_good[OF assms False Cons.prems(2)] obtain s1 where
      s1: "split_done s 0 [x] s1"
        "HandleSkippableWriteFailure st wr (x # xs) s = HandleSkippableWriteFailure st wr xs s1"
      by blast
    have "fst (out_of s1) = []" using s1(1) by (simp add: split_done_def)
    from Cons.IH[OF split_done_agree(1)[OF s1(1) Cons.prems(1)] this]
    show ?thesis using s1 False split_done_agree(2)[OF s1(1)] split_done_trans[OF s1(1)]
      by (auto simp del: HandleSkippableWriteFailure.simps split: if_splits)
  next
    case True
    from split_one_bad[OF assms True Cons.prems]
    consider (skip) s1 where "split_done s 1 [] s1" "0 < write_budget s"
        "HandleSkippableWriteFailure st wr (x # xs) s = HandleSkippableWriteFailure st wr xs s1"
      | (fatal) e s1 where "write_budget s \<le> 0" "HandleSkippableWriteFailure st wr (x # xs) s = (Some e, s1)"
      by blast
    then show ?thesis
    proof cases
      case skip
      have "fst (out_of s1) = []" using skip(1) by (simp add: split_done_def)
      from Cons.IH[OF split_done_agree(1)[OF skip(1) Cons.prems(1)] this]
      show ?thesis using skip True split_done_agree(2)[OF skip(1)] split_done_trans[OF skip(1)]
        by (auto simp del: HandleSkippableWriteFailure.simps split: if_splits)
    next
      case fatal
      then show ?thesis using True by (auto simp del: HandleSkippableWriteFailure.simps)
    qed
  qed
qed

text \<open>
  C7: when a chunk fails with a skippable error and the writer, given the items one by one,
  rejects exactly the bad ones, splitting commits the good items in their order, each in a
  transaction of its own, and nothing else, provided the skip budget covers the bad items and
  one more: the failure of the whole chunk is counted as a skip too. With a smaller budget the
  step fails, so a limit of one tolerates no bad item. The engine's own count of written items,
  which \<open>Execute\<close> stores at the end, does not change.
\<close>

theorem chunk_splitting:
  assumes "rejects st wr bad" "skips_agree s" "\<exists>x\<in>set items. bad x"
    and "wr_Write wr t items (cs_world s) = (Some (BatchError m msg oe False True), w)"
  shows "if 1 + int (length (filter bad items)) \<le> write_budget s
    then \<exists>s'. write_chunk st wr t items s = (WriteSplit, s')
      \<and> out_of s' = ([], snd (out_of s) @ filter (\<lambda>x. \<not> bad x) items)
      \<and> se_SkipWriteCount (cs_se s') = se_SkipWriteCount (cs_se s) + 1 + int (length (filter bad items))
      \<and> cs_writeCount s' = cs_writeCount s
    else \<exists>e s'. write_chunk st wr t items s = (WriteAbort e, s')"
proof -
  let ?e = "BatchError m msg oe False True"
  let ?s1 = "(emit [BeforeWrite items] s)\<lparr>cs_world := w\<rparr>"
  let ?k = "count_rollback (rollback st t (skip_write_chunk ?e ?s1))"
  have cw: "call (wr_Write wr t items) (emit [BeforeWrite items] s) = (Some ?e, ?s1)"
    using assms(4) by (simp add: call_def)
  have ag: "skips_agree ?s1" "write_budget ?s1 = write_budget s"
    using assms(2) by (simp_all add: skips_agree_def write_budget_def)
  have k: "skips_agree ?k" "write_budget ?k = write_budget s - 1" "out_of ?k = ([], snd (out_of s))"
    "se_SkipWriteCount (cs_se ?k) = se_SkipWriteCount (cs_se s) + 1" "cs_writeCount ?k = cs_writeCount s"
    using assms(2)
    by (simp_all add: skips_agree_def write_budget_def out_of_rollback)
      (simp add: out_of_def committed_append split: prod.splits)
  have ne: "filter bad items \<noteq> []" using assms(3) by (auto simp: filter_empty_conv)
  show ?thesis
  proof (cases "0 < write_budget s")
    case False
    then show ?thesis using cw may_skip_write[OF ag(1)] ag(2)
      by (auto simp: write_chunk_def Let_def)
  next
    case True
    then have w: "write_chunk st wr t items s = (case HandleSkippableWriteFailure st wr items ?k of
        (Some fe, s2) \<Rightarrow> (WriteAbort fe, s2) | (None, s2) \<Rightarrow> (WriteSplit, s2))"
      using cw may_skip_write[OF ag(1)] ag(2) by (simp add: write_chunk_def Let_def)
    have "fst (out_of ?k) = []" using k(3) by simp
    from split_result[OF assms(1) k(1) this, of items] show ?thesis
      using w ne k by (auto simp: split_done_def split: if_splits)
  qed
qed

text \<open>A writer that rejects the item 5, alone or in a chunk.\<close>

definition picky_writer :: "(script, nat) writer_ops" where
  "picky_writer = script_writer\<lparr>wr_Write := \<lambda>t items w.
     if 5 \<in> set items then (Some (BatchError ''db'' ''bad row'' None False True), w)
     else (None, w\<lparr>sc_out := sc_out w @ items\<rparr>)\<rparr>"

lemma rejects_picky: "rejects (scripted k rp) picky_writer (\<lambda>x. x = 5)"
  by (auto simp: rejects_def scripted_def picky_writer_def intro: exI[of _ False])

lemma chunk_splitting_witness:
  "(\<exists>s'. write_chunk (scripted 3 (RetryPolicy_Create 1 0 [])) picky_writer 0 [4, 5, 6]
        (script_state [] [] (SkipPolicy_Create 2 [])) = (WriteSplit, s') \<and> snd (out_of s') = [4, 6])
   \<and> (\<exists>e s'. write_chunk (scripted 3 (RetryPolicy_Create 1 0 [])) picky_writer 0 [4, 5, 6]
        (script_state [] [] (SkipPolicy_Create 1 [])) = (WriteAbort e, s'))"
proof -
  let ?st = "scripted 3 (RetryPolicy_Create 1 0 [])"
  have "wr_Write picky_writer 0 [4, 5, 6] w = (Some (BatchError ''db'' ''bad row'' None False True), w)" for w
    by (simp add: picky_writer_def)
  note th = chunk_splitting[OF rejects_picky[of 3 "RetryPolicy_Create 1 0 []"] _ _ this]
  have "skips_agree (script_state [] [] (SkipPolicy_Create 2 []))"
    "skips_agree (script_state [] [] (SkipPolicy_Create 1 []))"
    "write_budget (script_state [] [] (SkipPolicy_Create 2 [])) = 2"
    "write_budget (script_state [] [] (SkipPolicy_Create 1 [])) = 1"
    "out_of (script_state [] [] (SkipPolicy_Create 2 [])) = ([], [])"
    by (simp_all add: skips_agree_def write_budget_def script_state_def SkipPolicy_Create_def
        zero_StepExecution_def out_of_def)
  then show ?thesis using th[of "script_state [] [] (SkipPolicy_Create 2 [])"]
      th[of "script_state [] [] (SkipPolicy_Create 1 [])"] by auto
qed

end
