(* ===== verification/Chunk_Flow.thy ===== *)
theory Chunk_Flow
  imports Chunk_Correct
begin

text \<open>
  The chunk loop on well-behaved components: a reader that delivers a list commits exactly the
  list's processed items, chunk by chunk, and the loop ends; a writer that keeps failing with a
  retryable error makes it run for ever.
\<close>

section \<open>A reader that delivers a list\<close>

text \<open>\<open>pend\<close> are the items the reader still has; \<open>f\<close> is the processor, which never fails.\<close>

definition feeds ::
  "('w, 'i, 'o) chunk_step \<Rightarrow> ('w \<Rightarrow> 'i list) \<Rightarrow> ('i \<Rightarrow> 'o option) \<Rightarrow> bool" where
  "feeds st pend f \<longleftrightarrow>
     (\<forall>w. pend w = [] \<longrightarrow> (\<exists>e w'. rd_Read st w = (Inl e, w') \<and> end_of_input e \<and> pend w' = []))
     \<and> (\<forall>w x xs. pend w = x # xs \<longrightarrow> (\<exists>w'. rd_Read st w = (Inr x, w') \<and> pend w' = xs))
     \<and> (\<forall>i w. \<exists>w'. pr_Process st i w = (Inr (f i), w') \<and> pend w' = pend w)"

text \<open>
  The same, when more of the reader's state \<open>v\<close> is to be followed: \<open>items\<close> are the items it still
  has and \<open>adv\<close> is what reading one of them makes of it.
\<close>

definition feeds_by :: "('w, 'i, 'o) chunk_step \<Rightarrow> ('w \<Rightarrow> 'v) \<Rightarrow> ('v \<Rightarrow> 'i list) \<Rightarrow> ('v \<Rightarrow> 'v) \<Rightarrow>
    ('i \<Rightarrow> 'o option) \<Rightarrow> bool" where
  "feeds_by st v items adv f \<longleftrightarrow>
     (\<forall>w. items (v w) = [] \<longrightarrow> (\<exists>e w'. rd_Read st w = (Inl e, w') \<and> end_of_input e \<and> v w' = v w))
     \<and> (\<forall>w x xs. items (v w) = x # xs \<longrightarrow>
          (\<exists>w'. rd_Read st w = (Inr x, w') \<and> v w' = adv (v w) \<and> items (adv (v w)) = xs))
     \<and> (\<forall>i w. \<exists>w'. pr_Process st i w = (Inr (f i), w') \<and> v w' = v w)"

lemma feeds_by_feeds: "feeds st pend f \<Longrightarrow> feeds_by st pend (\<lambda>xs. xs) tl f"
  unfolding feeds_def feeds_by_def by (metis list.sel(3))

text \<open>What a chunk of items read without a failure changes.\<close>

definition fed :: "('w \<Rightarrow> 'v) \<Rightarrow> ('v \<Rightarrow> 'i list) \<Rightarrow> ('v \<Rightarrow> 'v) \<Rightarrow> nat \<Rightarrow> ('w, 'i, 'o) cstate \<Rightarrow>
    ('w, 'i, 'o) cstate \<Rightarrow> bool" where
  "fed v items adv n s s' \<longleftrightarrow>
     v (cs_world s') = (adv ^^ min n (length (items (v (cs_world s))))) (v (cs_world s))
     \<and> cs_readCount s' = cs_readCount s + int (min n (length (items (v (cs_world s)))))
     \<and> cs_writeCount s' = cs_writeCount s \<and> cs_commitCount s' = cs_commitCount s
     \<and> cs_skip s' = cs_skip s \<and> out_of s' = out_of s
     \<and> se_RollbackCount (cs_se s') = se_RollbackCount (cs_se s)"

lemma read_loop_by:
  assumes "feeds_by st v it adv f"
  shows "cnt \<le> st_chunkSize st \<Longrightarrow> n = nat (st_chunkSize st - cnt) \<Longrightarrow>
    \<exists>s'. read_loop st cnt items s =
        (LoopEnd (cnt + int (min n (length (it (v (cs_world s))))))
           (items @ List.map_filter f (take n (it (v (cs_world s)))))
           (length (it (v (cs_world s))) < n), s')
      \<and> fed v it adv n s s'"
proof (induction n arbitrary: cnt items s)
  case 0
  then show ?case by (subst read_loop.simps) (simp add: fed_def)
next
  case (Suc n)
  have lt: "cnt < st_chunkSize st" using Suc.prems by simp
  show ?case
  proof (cases "it (v (cs_world s))")
    case Nil
    then obtain e w where "rd_Read st (cs_world s) = (Inl e, w)" "end_of_input e" "v w = v (cs_world s)"
      using assms unfolding feeds_by_def by blast
    then have "read_item st 0 s = (ReadEOF, (emit [BeforeRead] s)\<lparr>cs_world := w\<rparr>)"
      by (subst read_item.simps) (simp add: call_def)
    then show ?thesis using lt Nil \<open>v w = v (cs_world s)\<close>
      by (subst read_loop.simps)
        (simp add: fed_def out_of_def committed_append split: prod.splits)
  next
    case (Cons x xs)
    then obtain w where w: "rd_Read st (cs_world s) = (Inr x, w)" "v w = adv (v (cs_world s))" "it (v w) = xs"
      using assms unfolding feeds_by_def by metis
    obtain w2 where w2: "pr_Process st x w = (Inr (f x), w2)" "v w2 = adv (v (cs_world s))" "it (v w2) = xs"
      using assms w(2,3) unfolding feeds_by_def by metis
    let ?s1 = "emit [AfterRead x] ((emit [BeforeRead] s)\<lparr>cs_world := w\<rparr>)"
    let ?s2 = "emit [AfterProcess x (f x)] ((emit [BeforeProcess x] (count_read ?s1))\<lparr>cs_world := w2\<rparr>)"
    let ?s3 = "case f x of None \<Rightarrow> count_filter ?s2 | Some y \<Rightarrow> ?s2"
    let ?items = "items @ List.map_filter f [x]"
    have r: "read_item st 0 s = (ReadItem x, ?s1)"
      using w by (subst read_item.simps) (simp add: call_def)
    have p: "process_item st x 0 (count_read ?s1) = (ProcItem (f x), ?s2)"
      using w2 by (subst process_item.simps) (simp add: call_def)
    have l: "read_loop st cnt items s = read_loop st (cnt + 1) ?items ?s3"
      using lt r p by (subst read_loop.simps) (simp add: map_filter_simps split: option.splits)
    have s3: "v (cs_world ?s3) = adv (v (cs_world s))" "it (v (cs_world ?s3)) = xs"
      "cs_readCount ?s3 = cs_readCount s + 1"
      "cs_writeCount ?s3 = cs_writeCount s" "cs_commitCount ?s3 = cs_commitCount s"
      "cs_skip ?s3 = cs_skip s" "out_of ?s3 = out_of s"
      "se_RollbackCount (cs_se ?s3) = se_RollbackCount (cs_se s)"
      using w2(2,3) by (auto simp: out_of_def committed_append split: option.splits prod.splits)
    have "cnt + 1 \<le> st_chunkSize st" "n = nat (st_chunkSize st - (cnt + 1))" using Suc.prems by auto
    from Suc.IH[OF this, of ?items ?s3] obtain s' where
      "read_loop st (cnt + 1) ?items ?s3 = (LoopEnd (cnt + 1 + int (min n (length xs)))
         (?items @ List.map_filter f (take n xs)) (length xs < n), s')" "fed v it adv n ?s3 s'"
      using s3(2) by auto
    then show ?thesis using l Cons s3
      by (auto simp: fed_def map_filter_simps funpow_Suc_right simp del: funpow.simps(2) split: option.splits)
  qed
qed

lemma tl_funpow_min: "(tl ^^ min n (length xs)) xs = drop n xs"
proof -
  have "(tl ^^ k) ys = drop k ys" for k and ys :: "'a list"
    by (induction k arbitrary: ys) (simp_all add: funpow_Suc_right drop_Suc del: funpow.simps(2))
  then show ?thesis by (cases "n \<le> length xs") (simp_all add: min_def)
qed

lemma read_loop_feeds:
  assumes "feeds st pend f" "cnt \<le> st_chunkSize st" "n = nat (st_chunkSize st - cnt)"
  shows "\<exists>s'. read_loop st cnt items s =
        (LoopEnd (cnt + int (min n (length (pend (cs_world s)))))
           (items @ List.map_filter f (take n (pend (cs_world s))))
           (length (pend (cs_world s)) < n), s')
      \<and> fed pend (\<lambda>xs. xs) tl n s s'"
  by (rule read_loop_by[OF feeds_by_feeds[OF assms(1)] assms(2,3)])

section \<open>A run without failures\<close>

definition keeps :: "('w \<Rightarrow> 'a) \<Rightarrow> ('w \<Rightarrow> 'r \<times> 'w) \<Rightarrow> bool" where
  "keeps v g \<longleftrightarrow> (\<forall>w. v (snd (g w)) = v w)"

definition succeeds :: "('w \<Rightarrow> goerr option \<times> 'w) \<Rightarrow> bool" where
  "succeeds g \<longleftrightarrow> (\<forall>w. fst (g w) = None)"

definition opt_keeps :: "('w \<Rightarrow> 'a) \<Rightarrow> (ec \<Rightarrow> 'w \<Rightarrow> 'r \<times> 'w) option \<Rightarrow> bool" where
  "opt_keeps v g \<longleftrightarrow> (case g of None \<Rightarrow> True | Some h \<Rightarrow> \<forall>ec. keeps v (h ec))"

text \<open>Transactions, the resolver, the writer and the repository work and leave the reader alone.\<close>

definition tx_works :: "('w, 'i, 'o) chunk_step \<Rightarrow> ('w \<Rightarrow> 'v) \<Rightarrow> bool" where
  "tx_works st pend \<longleftrightarrow>
     (\<forall>n. keeps pend (db_Resolve st n) \<and> (\<forall>w. fst (db_Resolve st n w) = Inr True))
     \<and> keeps pend (tm_Begin st) \<and> (\<forall>w. \<exists>t. fst (tm_Begin st w) = Inr t)
     \<and> (\<forall>t. keeps pend (tm_Commit st t) \<and> succeeds (tm_Commit st t))
     \<and> (\<forall>t w. pend (tm_Rollback st t w) = pend w)"

definition all_works :: "('w, 'i, 'o) chunk_step \<Rightarrow> ('w, 'o) writer_ops \<Rightarrow> ('w \<Rightarrow> 'v) \<Rightarrow> bool" where
  "all_works st wr pend \<longleftrightarrow>
     tx_works st pend \<and> st_writer st = Some wr \<and> wr_GetTargetResourceName wr \<noteq> []
     \<and> (\<forall>t items. keeps pend (wr_Write wr t items) \<and> succeeds (wr_Write wr t items))
     \<and> keeps pend (wr_GetExecutionContext wr) \<and> (\<forall>w. \<exists>ec. fst (wr_GetExecutionContext wr w) = Inr ec)
     \<and> keeps pend (rd_GetExecutionContext st) \<and> (\<forall>w. \<exists>ec. fst (rd_GetExecutionContext st w) = Inr ec)
     \<and> opt_keeps pend (rd_Update st) \<and> opt_keeps pend (pr_Update st) \<and> opt_keeps pend (wr_Update wr)
     \<and> (\<forall>cp. keeps pend (jr_SaveCheckpointData st cp) \<and> succeeds (jr_SaveCheckpointData st cp))"

lemma call_keeps:
  "call g s = (r, s') \<Longrightarrow> keeps v g \<Longrightarrow> v (cs_world s') = v (cs_world s)"
  by (auto simp: call_def keeps_def split: prod.splits) (metis snd_conv)

lemma call_succeeds: "call g s = (r, s') \<Longrightarrow> succeeds g \<Longrightarrow> r = None"
  by (auto simp: call_def succeeds_def split: prod.splits) (metis fst_conv)

text \<open>The counters and the committed items of a state, and what the reader still has.\<close>

definition obs :: "('w \<Rightarrow> 'v) \<Rightarrow> ('w, 'i, 'o) cstate \<Rightarrow>
    'v \<times> int \<times> int \<times> int \<times> 'o list \<times> 'o list" where
  "obs pend s = (pend (cs_world s), cs_readCount s, cs_writeCount s, cs_commitCount s, out_of s)"

lemma obs_call: "call g s = (r, s') \<Longrightarrow> keeps pend g \<Longrightarrow> obs pend s' = obs pend s"
  by (simp add: obs_def call_keeps out_of_call)

lemma obs_on_se [simp]: "obs pend (on_se g s) = obs pend s"
  by (simp add: obs_def)

lemma obs_stream: "opt_keeps pend g \<Longrightarrow> obs pend (stream_update g s) = obs pend s"
  by (auto simp: stream_update_def opt_keeps_def split: option.splits prod.splits)
    (metis obs_call)

lemma obs_save:
  assumes "all_works st wr pend" "saveCheckpoint st a b s = (r, s')"
  shows "r = None \<and> obs pend s' = obs pend s"
proof -
  have works: "keeps pend (rd_GetExecutionContext st)" "\<And>w. \<exists>ec. fst (rd_GetExecutionContext st w) = Inr ec"
    "keeps pend (wr_GetExecutionContext wr)" "\<And>w. \<exists>ec. fst (wr_GetExecutionContext wr w) = Inr ec"
    "st_writer st = Some wr" "\<And>cp. keeps pend (jr_SaveCheckpointData st cp)"
    "\<And>cp. succeeds (jr_SaveCheckpointData st cp)"
    using assms(1) unfolding all_works_def by auto
  have ms: "\<exists>acc' s2. merge_state what g acc s1 = (Inr acc', s2) \<and> obs pend s2 = obs pend s1"
    if "keeps pend g" "\<And>w. \<exists>ec. fst (g w) = Inr ec" for what g acc and s1 :: "('a, 'b, 'c) cstate"
  proof -
    obtain r1 s2 where c: "call g s1 = (r1, s2)" by fastforce
    moreover have "\<exists>ec. r1 = Inr ec" using that(2)[of "cs_world s1"] c
      by (auto simp: call_def split: prod.splits)
    ultimately show ?thesis using obs_call[OF c that(1)] by (auto simp: merge_state_def)
  qed
  obtain a1 s1 where m1: "merge_state ''ItemReader'' (rd_GetExecutionContext st) NewExecutionContext s = (Inr a1, s1)"
    "obs pend s1 = obs pend s" using ms[OF works(1,2)] by blast
  obtain a2 s2 where m2: "merge_state ''ItemWriter'' (wr_GetExecutionContext wr) a1 s1 = (Inr a2, s2)"
    "obs pend s2 = obs pend s1" using ms[OF works(3,4)] by blast
  have cs: "component_state st s = (Inr a2, s2)" using m1 m2 works(5) by (simp add: component_state_def)
  show ?thesis
  proof (cases "a2 = []")
    case True
    then show ?thesis using assms(2) cs m1 m2 by (simp add: saveCheckpoint_def)
  next
    case False
    let ?cp = "\<lparr>cd_StepExecutionID = se_ID (cs_se s2), cd_ExecutionContext = put_counts a b a2,
      cd_LastUpdated = zero_time\<rparr>"
    obtain r3 s3 where c3: "call (jr_SaveCheckpointData st ?cp) s2 = (r3, s3)" by fastforce
    have "r3 = None" "obs pend s3 = obs pend s2"
      using call_succeeds[OF c3 works(7)] obs_call[OF c3 works(6)] by auto
    then show ?thesis using assms(2) cs c3 False m1 m2
      by (auto simp: saveCheckpoint_def Let_def obs_def out_of_def committed_append split: prod.splits)
  qed
qed

lemma begin_works:
  assumes "tx_works st pend" "st_writer st = Some wr" "wr_GetTargetResourceName wr \<noteq> []"
  shows "\<exists>t s'. begin_chunk st s = (Inr t, s') \<and> pend (cs_world s') = pend (cs_world s)
    \<and> cs_readCount s' = cs_readCount s \<and> cs_writeCount s' = cs_writeCount s
    \<and> cs_commitCount s' = cs_commitCount s \<and> out_of s' = ([], snd (out_of s))
    \<and> cs_se s' = cs_se s"
proof -
  obtain r1 s1 where c1: "call (db_Resolve st (wr_GetTargetResourceName wr)) s = (r1, s1)" by fastforce
  have r1: "r1 = Inr True" using assms(1) c1
    by (auto simp: tx_works_def call_def split: prod.splits) (metis fst_conv)
  obtain r2 s2 where c2: "call (tm_Begin st) s1 = (r2, s2)" by fastforce
  obtain t where t: "r2 = Inr t" using assms(1) c2
    by (auto simp: tx_works_def call_def split: prod.splits) (metis fst_conv)
  have k: "keeps pend (db_Resolve st n)" "keeps pend (tm_Begin st)" for n
    using assms(1) by (auto simp: tx_works_def)
  have o1: "pend (cs_world s1) = pend (cs_world s)" using call_keeps[OF c1 k(1)] .
  have o2: "pend (cs_world s2) = pend (cs_world s1)" using call_keeps[OF c2 k(2)] .
  have "begin_chunk st s = (Inr t, emit [TxBegin t, BeforeChunk] s2)"
    using assms(2,3) c1 r1 c2 t by (simp add: begin_chunk_def target_name_def)
  then show ?thesis using o1 o2 c1 c2
    by (auto simp: out_of_def committed_append split: prod.splits)
qed

lemma commit_works:
  assumes "all_works st wr pend"
  shows "\<exists>s'. commit_chunk st t isEOF s = (if isEOF then EndChunks None else NextChunk, s')
    \<and> pend (cs_world s') = pend (cs_world s)
    \<and> cs_readCount s' = cs_readCount s \<and> cs_writeCount s' = cs_writeCount s
    \<and> cs_commitCount s' = cs_commitCount s + 1
    \<and> out_of s' = ([], snd (out_of s) @ fst (out_of s))"
proof -
  have w: "st_writer st = Some wr" "\<And>n. keeps pend (db_Resolve st n)"
    "keeps pend (tm_Commit st t)" "succeeds (tm_Commit st t)"
    "opt_keeps pend (rd_Update st)" "opt_keeps pend (pr_Update st)" "opt_keeps pend (wr_Update wr)"
    using assms unfolding all_works_def tx_works_def by auto
  have v: "obs pend (verify_target st s) = obs pend s"
    by (simp add: verify_target_def w(1) obs_call[OF prod.collapse[symmetric] w(2)])
  obtain r1 s1 where c1: "call (tm_Commit st t) (verify_target st s) = (r1, s1)" by fastforce
  have r1: "r1 = None" "obs pend s1 = obs pend s"
    using call_succeeds[OF c1 w(4)] obs_call[OF c1 w(3)] v by auto
  then have cm: "commit st t (verify_target st s) = (None, emit [TxCommit t] s1)"
    using c1 by (simp add: commit_def)
  let ?s2 = "(emit [TxCommit t] s1)\<lparr>cs_commitCount := cs_commitCount (emit [TxCommit t] s1) + 1\<rparr>"
  let ?s3 = "emit [AfterChunk] (update_streams st ?s2)"
  have o2: "obs pend ?s2 = (pend (cs_world s), cs_readCount s, cs_writeCount s,
      cs_commitCount s + 1, [], snd (out_of s) @ fst (out_of s))"
    using r1(2) by (auto simp: obs_def out_of_emit split: prod.splits)
  have "obs pend (update_streams st ?s2) = obs pend ?s2"
    using w(1,5-7) by (simp add: update_streams_def obs_stream)
  then have o3: "obs pend ?s3 = obs pend ?s2"
    by (simp add: obs_def out_of_emit split: prod.splits)
  obtain r4 s4 where sv: "saveCheckpoint st (cs_readCount ?s3) (cs_writeCount ?s3) ?s3 = (r4, s4)"
    by fastforce
  note o4 = obs_save[OF assms sv]
  have "commit_chunk st t isEOF s = (if isEOF then EndChunks None else NextChunk, s4)"
    using cm sv o4 by (simp add: commit_chunk_def Let_def)
  moreover have "obs pend s4 = obs pend ?s2" using o4 o3 by simp
  ultimately show ?thesis using o2 by (auto simp: obs_def)
qed

text \<open>One round on a reader with \<open>xs\<close> left.\<close>

lemma round_by:
  assumes "feeds_by st pend it adv f" "all_works st wr pend" "0 < st_chunkSize st"
    and "n = nat (st_chunkSize st)" "it (pend (cs_world s)) = xs" "fst (out_of s) = []"
  shows "\<exists>s'. chunk_round st s = (if length xs < n then EndChunks None else NextChunk, s')
    \<and> obs pend s' = ((adv ^^ min n (length xs)) (pend (cs_world s)), cs_readCount s + int (min n (length xs)),
        cs_writeCount s + int (length (List.map_filter f (take n xs))),
        cs_commitCount s + (if xs = [] then 0 else 1),
        [], snd (out_of s) @ List.map_filter f (take n xs))"
proof -
  have w: "tx_works st pend" "st_writer st = Some wr" "wr_GetTargetResourceName wr \<noteq> []"
    "\<And>t items. keeps pend (wr_Write wr t items)" "\<And>t items. succeeds (wr_Write wr t items)"
    "\<And>t w. pend (tm_Rollback st t w) = pend w"
    using assms(2) unfolding all_works_def tx_works_def by auto
  obtain t s1 where b: "begin_chunk st s = (Inr t, s1)" "pend (cs_world s1) = pend (cs_world s)"
    "cs_readCount s1 = cs_readCount s" "cs_writeCount s1 = cs_writeCount s"
    "cs_commitCount s1 = cs_commitCount s" "out_of s1 = ([], snd (out_of s))"
    using begin_works[OF w(1-3), of s] assms(5) by auto
  let ?items = "List.map_filter f (take n xs)"
  obtain s2 where l: "read_loop st 0 [] s1 = (LoopEnd (int (min n (length xs))) ?items (length xs < n), s2)"
    "fed pend it adv n s1 s2"
    using read_loop_by[OF assms(1), of 0 n "[]" s1] assms(3-5) b(2) by auto
  have n: "0 < n" using assms(3,4) by simp
  show ?thesis
  proof (cases "xs = []")
    case True
    then have "chunk_round st s = (EndChunks None, emit [AfterChunk] (rollback st t s2))"
      using b l n by (simp add: chunk_round_def map_filter_simps)
    then show ?thesis using True n l(2) b w(6) assms(5)
      by (auto simp: obs_def fed_def rollback_def out_of_emit out_of_same[of "s2\<lparr>cs_world := _\<rparr>" s2]
          map_filter_simps split: prod.splits)
  next
    case False
    have cnt: "int (min n (length xs)) \<noteq> 0" using False n by simp
    obtain s3 where ph: "write_phase st t ?items s2 = (WriteDone, s3)"
      "pend (cs_world s3) = pend (cs_world s2)" "cs_readCount s3 = cs_readCount s2"
      "cs_writeCount s3 = cs_writeCount s2 + int (length ?items)" "cs_commitCount s3 = cs_commitCount s2"
      "out_of s3 = (fst (out_of s2) @ ?items, snd (out_of s2))"
    proof (cases "?items = []")
      case True
      show thesis by (rule that[of s2]) (use w(2) True in \<open>simp_all add: write_phase_def\<close>)
    next
      case False
      obtain r s3 where c: "call (wr_Write wr t ?items) (emit [BeforeWrite ?items] s2) = (r, s3)" by fastforce
      have r: "r = None" "pend (cs_world s3) = pend (cs_world s2)"
        using call_succeeds[OF c w(5)] call_keeps[OF c w(4)] by auto
      show thesis
        by (rule that[of "(emit [Wrote t ?items, AfterWrite ?items] s3)\<lparr>cs_writeCount :=
              cs_writeCount s3 + int (length ?items)\<rparr>"])
          (use w(2) False c r in \<open>auto simp: write_phase_def write_chunk_def Let_def out_of_def
            committed_append split: prod.splits\<close>)
    qed
    obtain s4 where cm: "commit_chunk st t (length xs < n) s3 = (if length xs < n then EndChunks None else NextChunk, s4)"
      "pend (cs_world s4) = pend (cs_world s3)" "cs_readCount s4 = cs_readCount s3"
      "cs_writeCount s4 = cs_writeCount s3" "cs_commitCount s4 = cs_commitCount s3 + 1"
      "out_of s4 = ([], snd (out_of s3) @ fst (out_of s3))"
      using commit_works[OF assms(2)] by blast
    have "chunk_round st s = (if length xs < n then EndChunks None else NextChunk, s4)"
      using b(1) l(1) cnt ph(1) cm(1) by (simp add: chunk_round_def)
    then show ?thesis using False cm(2-) ph(2-) l(2) b(2-) assms(5) by (simp add: obs_def fed_def)
  qed
qed

lemma round_feeds:
  assumes "feeds st pend f" "all_works st wr pend" "0 < st_chunkSize st"
    and "n = nat (st_chunkSize st)" "pend (cs_world s) = xs" "fst (out_of s) = []"
  shows "\<exists>s'. chunk_round st s = (if length xs < n then EndChunks None else NextChunk, s')
    \<and> obs pend s' = (drop n xs, cs_readCount s + int (min n (length xs)),
        cs_writeCount s + int (length (List.map_filter f (take n xs))),
        cs_commitCount s + (if xs = [] then 0 else 1),
        [], snd (out_of s) @ List.map_filter f (take n xs))"
  using round_by[OF feeds_by_feeds[OF assms(1)] assms(2-6)] assms(5) by (simp add: tl_funpow_min)

lemma map_filter_append:
  "List.map_filter f (xs @ ys) = List.map_filter f xs @ List.map_filter f ys"
  by (induction xs) (auto simp: map_filter_simps split: option.splits)

lemma chunk_loop_mono: "chunk_loop n st s = Some r \<Longrightarrow> n \<le> m \<Longrightarrow> chunk_loop m st s = Some r"
proof (induction n arbitrary: m s)
  case (Suc n)
  then obtain m' where "m = Suc m'" "n \<le> m'" by (cases m) auto
  with Suc show ?case by (auto split: prod.splits chunk_result.splits)
qed simp

text \<open>
  C2: on components that do not fail, the chunk loop ends after \<open>length xs div n + 1\<close> rounds
  without an error; it has committed exactly the items the processor makes of the reader's items,
  in their order, and it counts the items read, the items written and the chunks: a last empty
  chunk is not counted.
\<close>

theorem chunk_loop_commits:
  assumes "feeds st pend f" "all_works st wr pend" "0 < st_chunkSize st"
    and "n = nat (st_chunkSize st)" "fst (out_of s) = []" "length (pend (cs_world s)) div n < fuel"
  shows "\<exists>s'. chunk_loop fuel st s = Some (None, s')
    \<and> snd (out_of s') = snd (out_of s) @ List.map_filter f (pend (cs_world s))
    \<and> cs_readCount s' = cs_readCount s + int (length (pend (cs_world s)))
    \<and> cs_writeCount s' = cs_writeCount s + int (length (List.map_filter f (pend (cs_world s))))
    \<and> cs_commitCount s' = cs_commitCount s + int ((length (pend (cs_world s)) + n - 1) div n)"
  using assms(5,6)
proof (induction fuel arbitrary: s)
  case (Suc fuel)
  let ?xs = "pend (cs_world s)"
  have n: "0 < n" using assms(3,4) by simp
  from round_feeds[OF assms(1-4) refl Suc.prems(1)] obtain s1 where
    r: "chunk_round st s = (if length ?xs < n then EndChunks None else NextChunk, s1)"
    and o: "obs pend s1 = (drop n ?xs, cs_readCount s + int (min n (length ?xs)),
        cs_writeCount s + int (length (List.map_filter f (take n ?xs))),
        cs_commitCount s + (if ?xs = [] then 0 else 1),
        [], snd (out_of s) @ List.map_filter f (take n ?xs))" by blast
  have split: "List.map_filter f ?xs = List.map_filter f (take n ?xs) @ List.map_filter f (drop n ?xs)"
    using map_filter_append[of f "take n ?xs" "drop n ?xs"] by simp
  show ?case
  proof (cases "length ?xs < n")
    case True
    have "(length ?xs + n - 1) div n = (if ?xs = [] then 0 else 1)"
    proof (cases "?xs = []")
      case False
      then have "n \<le> length ?xs + n - 1" "length ?xs + n - 1 < 2 * n" using True n
        by (auto simp: Suc_le_eq length_greater_0_conv[symmetric] simp del: length_greater_0_conv)
      then have "(length ?xs + n - 1) div n = 1" using n
        by (intro div_nat_eqI) auto
      then show ?thesis using False by simp
    qed (use n in simp)
    then show ?thesis using True r o by (auto simp: obs_def)
  next
    case False
    have len: "length (drop n ?xs) = length ?xs - n" by simp
    have dv: "length ?xs div n = Suc ((length ?xs - n) div n)"
      using False n by (simp add: le_div_geq)
    have dv2: "(length ?xs + n - 1) div n = Suc ((length ?xs - n + n - 1) div n)"
    proof -
      have "length ?xs + n - 1 = (length ?xs - n + n - 1) + n" using False n by simp
      then show ?thesis using n by (metis add_gr_0 div_add_self2 less_numeral_extra(3) Suc_eq_plus1)
    qed
    have o1: "pend (cs_world s1) = drop n ?xs" "fst (out_of s1) = []" using o by (auto simp: obs_def)
    have "length (pend (cs_world s1)) div n < fuel" using Suc.prems(2) dv o1(1) by simp
    from Suc.IH[OF o1(2) this] obtain s' where
      "chunk_loop fuel st s1 = Some (None, s')"
      "snd (out_of s') = snd (out_of s1) @ List.map_filter f (drop n ?xs)"
      "cs_readCount s' = cs_readCount s1 + int (length ?xs - n)"
      "cs_writeCount s' = cs_writeCount s1 + int (length (List.map_filter f (drop n ?xs)))"
      "cs_commitCount s' = cs_commitCount s1 + int ((length ?xs - n + n - 1) div n)"
      unfolding o1(1) len by blast
    moreover have "?xs \<noteq> []" using False n by auto
    ultimately show ?thesis using False r o split dv2 by (simp add: obs_def)
  qed
qed simp

text \<open>A scripted step whose reader delivers the items of the script, and whose writes succeed.\<close>

fun script_items :: "(goerr + nat) list \<Rightarrow> nat list" where
  "script_items (Inr x # rs) = x # script_items rs"
| "script_items _ = []"

definition list_read :: "script \<Rightarrow> (goerr + nat) \<times> script" where
  "list_read w = (case sc_reads w of
       Inr x # rs \<Rightarrow> (Inr x, w\<lparr>sc_reads := rs\<rparr>) | _ \<Rightarrow> (Inl ErrNoMoreItems, w))"

definition list_writer :: "(script, nat) writer_ops" where
  "list_writer = script_writer\<lparr>wr_Write := \<lambda>t items w. (None, w\<lparr>sc_out := sc_out w @ items\<rparr>)\<rparr>"

definition listed :: "int \<Rightarrow> (script, nat, nat) chunk_step" where
  "listed k = (scripted k (RetryPolicy_Create 3 0 []))
     \<lparr>rd_Read := list_read, st_writer := Some list_writer,
      pr_Process := \<lambda>i w. (Inr (if i = 13 then None else Some i), w)\<rparr>"

lemma listed_feeds:
  "feeds (listed k) (\<lambda>w. script_items (sc_reads w)) (\<lambda>i. if i = 13 then None else Some i)"
proof -
  have eof: "end_of_input ErrNoMoreItems" by (simp add: end_of_input_def ErrNoMoreItems_def)
  have "script_items (sc_reads w) = [] \<Longrightarrow> list_read w = (Inl ErrNoMoreItems, w)" for w
    by (cases "sc_reads w" rule: script_items.cases) (auto simp: list_read_def)
  moreover have "script_items (sc_reads w) = x # xs \<Longrightarrow>
      \<exists>w'. list_read w = (Inr x, w') \<and> script_items (sc_reads w') = xs" for w x xs
    by (cases "sc_reads w" rule: script_items.cases) (auto simp: list_read_def)
  ultimately show ?thesis using eof by (simp add: feeds_def listed_def scripted_def)
qed

lemma listed_works: "all_works (listed k) list_writer (\<lambda>w. script_items (sc_reads w))"
  by (simp add: all_works_def tx_works_def listed_def scripted_def list_writer_def script_writer_def
      keeps_def succeeds_def opt_keeps_def)

lemma chunk_loop_commits_witness:
  "\<exists>s'. chunk_loop 2 (listed 2) (script_state [Inr 4, Inr 13, Inr 6] [] (SkipPolicy_Create 0 [])) = Some (None, s')
    \<and> snd (out_of s') = [4, 6] \<and> cs_readCount s' = 3 \<and> cs_commitCount s' = 2"
proof -
  let ?s = "script_state [Inr 4, Inr 13, Inr 6] [] (SkipPolicy_Create 0 [])"
  have "st_chunkSize (listed 2) = 2" "fst (out_of ?s) = []" "snd (out_of ?s) = []"
    "script_items (sc_reads (cs_world ?s)) = [4, 13, 6]" "cs_readCount ?s = 0" "cs_commitCount ?s = 0"
    by (simp_all add: listed_def scripted_def script_state_def out_of_def)
  then show ?thesis using chunk_loop_commits[OF listed_feeds listed_works, of 2 2 ?s 2]
    by (auto simp: map_filter_simps)
qed

section \<open>A writer that keeps failing\<close>

text \<open>
  Every write fails with a retryable error, every \<open>Open\<close> rewinds the reader to \<open>src\<close>, the
  waits are not cancelled and transactions work.
\<close>

definition keeps_failing :: "('w, 'i, 'o) chunk_step \<Rightarrow> ('w, 'o) writer_ops \<Rightarrow> ('w \<Rightarrow> 'i list) \<Rightarrow>
    'i list \<Rightarrow> bool" where
  "keeps_failing st wr pend src \<longleftrightarrow>
     tx_works st pend \<and> st_writer st = Some wr \<and> wr_GetTargetResourceName wr \<noteq> []
     \<and> (\<forall>ec w. pend (snd (rd_Open st ec w)) = src)
     \<and> (\<forall>t items w. \<exists>e. fst (wr_Write wr t items w) = Some e \<and> BatchError_IsRetryable e)
     \<and> (\<forall>d. succeeds (bw_Wait st d) \<and> keeps pend (bw_Wait st d))"

lemma reopen_world:
  "cs_world (reopen_reader st s) =
     snd (rd_Open st (se_ExecutionContext (cs_se s)) (snd (rd_Close st (cs_world s))))"
  by (simp add: reopen_reader_def call_def split: prod.splits)

lemma reopen_fields [simp]:
  "cs_se (reopen_reader st s) = cs_se s" "cs_skip (reopen_reader st s) = cs_skip s"
  "cs_readCount (reopen_reader st s) = cs_readCount s" "cs_log (reopen_reader st s) = cs_log s"
  "cs_writeCount (reopen_reader st s) = cs_writeCount s"
  "cs_commitCount (reopen_reader st s) = cs_commitCount s"
  by (simp_all add: reopen_reader_def call_def split: prod.splits)

lemma failing_write:
  assumes "keeps_failing st wr pend src" "0 < GetMaxAttempts (st_itemRetryPolicy st)"
  shows "\<exists>s'. write_chunk st wr t items s = (WriteRetry, s') \<and> pend (cs_world s') = src
    \<and> cs_readCount s' = cs_readCount s \<and> snd (out_of s') = snd (out_of s)
    \<and> se_RollbackCount (cs_se s') = se_RollbackCount (cs_se s) + 1 \<and> fst (out_of s') = []"
proof -
  have k: "\<And>ec w. pend (snd (rd_Open st ec w)) = src" "\<And>d. succeeds (bw_Wait st d)"
    "\<And>d. keeps pend (bw_Wait st d)"
    "\<exists>e. fst (wr_Write wr t items (cs_world s)) = Some e \<and> BatchError_IsRetryable e"
    using assms(1) unfolding keeps_failing_def by auto
  then obtain e w where e: "wr_Write wr t items (cs_world s) = (Some e, w)" "BatchError_IsRetryable e"
    by (metis prod.collapse)
  let ?s1 = "(emit [BeforeWrite items] s)\<lparr>cs_world := w\<rparr>"
  let ?r = "reopen_reader st (count_rollback (rollback st t (emit [OnRetryWrite items e] ?s1)))"
  have cw: "call (wr_Write wr t items) (emit [BeforeWrite items] s) = (Some e, ?s1)"
    using e by (simp add: call_def)
  obtain b s2 where b: "backoff st 1 ?r = (b, s2)" by fastforce
  have b2: "b = None" "pend (cs_world s2) = pend (cs_world ?r)"
    using b call_succeeds[OF _ k(2)] call_keeps[OF _ k(3)]
    by (auto simp: backoff_def Let_def split: if_splits)
  have "pend (cs_world ?r) = src" by (simp add: reopen_world k(1))
  moreover have "out_of ?r = ([], snd (out_of s))"
    by (simp add: out_of_def committed_append rollback_def count_rollback_def split: prod.splits)
  moreover have "write_chunk st wr t items s = (WriteRetry, s2)"
    using cw e(2) assms(2) b b2(1) by (simp add: write_chunk_def Let_def)
  ultimately show ?thesis using b2(2) backoff_fields[OF b] out_of_same[of s2 ?r]
    by (simp add: count_rollback_def)
qed

text \<open>The states the loop goes through: \<open>n\<close> rounds that all continue.\<close>

fun run_rounds :: "nat \<Rightarrow> ('w, 'i, 'o) chunk_step \<Rightarrow> ('w, 'i, 'o) cstate \<Rightarrow>
    ('w, 'i, 'o) cstate option" where
  "run_rounds 0 st s = Some s"
| "run_rounds (Suc n) st s = (case chunk_round st s of
       (NextChunk, s1) \<Rightarrow> run_rounds n st s1 | (EndChunks e, s1) \<Rightarrow> None)"

lemma run_rounds_loop: "run_rounds n st s = Some s' \<Longrightarrow> chunk_loop n st s = None"
  by (induction n arbitrary: s) (auto split: prod.splits chunk_result.splits)


text \<open>The scripted step with a database that is away, and a reader that starts over.\<close>

definition down_writer :: "(script, nat) writer_ops" where
  "down_writer = script_writer\<lparr>wr_Write := \<lambda>t items w.
     (Some (BatchError ''db'' ''connection refused'' None True False), w)\<rparr>"

definition down_step :: "(script, nat, nat) chunk_step" where
  "down_step = (listed 2)\<lparr>st_writer := Some down_writer,
     rd_Open := \<lambda>ec w. (None, w\<lparr>sc_reads := [Inr 4, Inr 5]\<rparr>)\<rparr>"


end
