(* ===== verification/Flow_Job.thy ===== *)
theory Flow_Job
  imports Batch_Model
begin

text \<open>
  \<open>core/job/runner/flow_job.go\<close> and \<open>core/job/runner/simple_job_runner.go\<close>: the job that walks
  through its flow of steps, decisions and splits, and the runner around it.

  Steps, decisions and the repository are operations on a world \<open>'w\<close>. A step gets the job
  execution and its own step execution and returns both as it leaves them; its step execution
  is written back to its place in the list of the job execution, which holds pointers. The
  flow may be cyclic: \<open>flow_loop\<close> takes the number of elements as fuel. The goroutines of a
  split run one after the other, in an order the world chooses; they share the list of step
  executions without a lock, and interleavings inside one goroutine are not modelled.
\<close>

section \<open>Elements\<close>

record 'w flow_step =
  fs_ID :: string
  fs_StepName :: string
  fs_Execute :: "JobExecution \<Rightarrow> StepExecution \<Rightarrow> 'w \<Rightarrow>
     (goerr option \<times> JobExecution \<times> StepExecution) \<times> 'w"
  fs_Promotion :: "ExecutionContextPromotion option"

record 'w flow_decision =
  de_ID :: string
  de_Decide :: "JobExecution \<Rightarrow> JobParameters \<Rightarrow> 'w \<Rightarrow> (ExitStatus \<times> goerr option) \<times> 'w"

record 'w flow_split =
  sp_ID :: string
  sp_Steps :: "'w flow_step list"

text \<open>An element is an \<open>interface{}\<close>: it need not be a flow element, nor one of the three kinds.\<close>

datatype 'w element =
    StepElement "'w flow_step"
  | DecisionElement "'w flow_decision"
  | SplitElement "'w flow_split"
  | UnknownElement string string
  | NoFlowElement string

fun element_ID :: "'w element \<Rightarrow> string" where
  "element_ID (StepElement s) = fs_ID s"
| "element_ID (DecisionElement d) = de_ID d"
| "element_ID (SplitElement p) = sp_ID p"
| "element_ID (UnknownElement i ty) = i"
| "element_ID (NoFlowElement ty) = []"

record 'w flow_job =
  fj_name :: string
  fj_flow :: "'w element FlowDefinition"
  fj_ctxErr :: "'w \<Rightarrow> goerr option"
  fj_Now :: "'w \<Rightarrow> time \<times> 'w"
  fj_NewID :: "'w \<Rightarrow> string \<times> 'w"
  fj_Order :: "'w \<Rightarrow> 'w flow_step list \<Rightarrow> 'w flow_step list"
  fj_SaveStepExecution :: "StepExecution \<Rightarrow> 'w \<Rightarrow> (goerr option \<times> StepExecution) \<times> 'w"
  fj_UpdateJobExecution :: "JobExecution \<Rightarrow> 'w \<Rightarrow> (goerr option \<times> JobExecution) \<times> 'w"

text \<open>The state of a run: the job execution, and the elements visited so far.\<close>

record 'w fstate =
  fl_world :: 'w
  fl_je :: JobExecution
  fl_visited :: "string list"

definition fcall :: "('w \<Rightarrow> 'r \<times> 'w) \<Rightarrow> 'w fstate \<Rightarrow> 'r \<times> 'w fstate" where
  "fcall f s = (case f (fl_world s) of (r, w) \<Rightarrow> (r, s\<lparr>fl_world := w\<rparr>))"

definition on_je :: "(JobExecution \<Rightarrow> JobExecution) \<Rightarrow> 'w fstate \<Rightarrow> 'w fstate" where
  "on_je f s = s\<lparr>fl_je := f (fl_je s)\<rparr>"

definition fail_job :: "'w flow_job \<Rightarrow> goerr \<Rightarrow> 'w fstate \<Rightarrow> 'w fstate" where
  "fail_job fj err s = (case fcall (fj_Now fj) s of
       (now, s1) \<Rightarrow> on_je (JobExecution_MarkAsFailed now err) s1)"

definition stop_job :: "'w flow_job \<Rightarrow> 'w fstate \<Rightarrow> 'w fstate" where
  "stop_job fj s = (case fcall (fj_Now fj) s of
       (now, s1) \<Rightarrow> on_je (JobExecution_MarkAsStopped now) s1)"

definition complete_job :: "'w flow_job \<Rightarrow> 'w fstate \<Rightarrow> 'w fstate" where
  "complete_job fj s = (case fcall (fj_Now fj) s of
       (now, s1) \<Rightarrow> on_je (JobExecution_MarkAsCompleted now) s1)"

definition note_failure :: "goerr \<Rightarrow> 'w fstate \<Rightarrow> 'w fstate" where
  "note_failure err s = on_je (JobExecution_AddFailureException err) s"

section \<open>Steps\<close>

text \<open>The first step execution of this name that is not completed, by its index.\<close>

fun find_reusable :: "string \<Rightarrow> StepExecution list \<Rightarrow> nat option" where
  "find_reusable name [] = None"
| "find_reusable name (se # ses) =
     (if se_StepName se = name \<and> se_Status se \<noteq> COMPLETED then Some 0
      else map_option Suc (find_reusable name ses))"

definition set_step :: "nat \<Rightarrow> StepExecution \<Rightarrow> JobExecution \<Rightarrow> JobExecution" where
  "set_step i se je = je\<lparr>je_StepExecutions := (je_StepExecutions je)[i := se]\<rparr>"

fun promote_keys :: "string list \<Rightarrow> ec \<Rightarrow> ec \<Rightarrow> ec" where
  "promote_keys [] sec jec = jec"
| "promote_keys (key # keys) sec jec =
     promote_keys keys sec (case ExecutionContext_GetNested sec key of
         Some v \<Rightarrow> ExecutionContext_PutNested key v jec | None \<Rightarrow> jec)"

fun promote_renamed :: "(string, string) gomap \<Rightarrow> ec \<Rightarrow> ec \<Rightarrow> ec" where
  "promote_renamed [] sec jec = jec"
| "promote_renamed ((stepKey, jobKey) # m) sec jec =
     promote_renamed m sec (case ExecutionContext_GetNested sec stepKey of
         Some v \<Rightarrow> ExecutionContext_PutNested jobKey v jec | None \<Rightarrow> jec)"

definition promote :: "ExecutionContextPromotion \<Rightarrow> ec \<Rightarrow> ec \<Rightarrow> ec" where
  "promote p sec jec = promote_renamed (pr_JobLevelKeys p) sec (promote_keys (pr_Keys p) sec jec)"

text \<open>Promotion, and the update of the job execution, whose error is only logged.\<close>

definition promote_step :: "'w flow_job \<Rightarrow> 'w flow_step \<Rightarrow> StepExecution \<Rightarrow> 'w fstate \<Rightarrow> 'w fstate" where
  "promote_step fj st se s = (case fs_Promotion st of
       None \<Rightarrow> s
     | Some p \<Rightarrow>
         (let s1 = on_je (\<lambda>je. je\<lparr>je_ExecutionContext :=
                promote p (se_ExecutionContext se) (je_ExecutionContext je)\<rparr>) s
          in case fcall (fj_UpdateJobExecution fj (fl_je s1)) s1 of
               ((err, je), s2) \<Rightarrow> s2\<lparr>fl_je := je\<rparr>))"

text \<open>The error of a step or a decision goes into the job execution, which then continues.\<close>

definition record_error :: "'w flow_job \<Rightarrow> goerr option \<Rightarrow> 'w fstate \<Rightarrow> 'w fstate" where
  "record_error fj err s = (case err of
       None \<Rightarrow> s
     | Some e \<Rightarrow>
         (let s1 = note_failure e s
          in if errors_Is e context_Canceled then stop_job fj s1 else fail_job fj e s1))"

text \<open>The outcome of an element: an early return of \<open>Run\<close>, or an exit status and an error.\<close>

datatype outcome = ReturnError goerr | Outcome ExitStatus "goerr option"

definition run_step :: "'w flow_job \<Rightarrow> 'w flow_step \<Rightarrow> nat \<Rightarrow> 'w fstate \<Rightarrow> outcome \<times> 'w fstate" where
  "run_step fj st i s =
     (case fcall (fs_Execute st (fl_je s) (je_StepExecutions (fl_je s) ! i)) s of
        ((err, je, se), s1) \<Rightarrow>
          (Outcome (se_ExitStatus se) err,
           record_error fj err (promote_step fj st se (s1\<lparr>fl_je := set_step i se je\<rparr>))))"

definition save_step :: "'w flow_job \<Rightarrow> nat \<Rightarrow> 'w fstate \<Rightarrow> goerr option \<times> 'w fstate" where
  "save_step fj i s =
     (case fcall (fj_SaveStepExecution fj (je_StepExecutions (fl_je s) ! i)) s of
        ((err, se), s1) \<Rightarrow> (err, on_je (set_step i se) s1))"

definition exec_step :: "'w flow_job \<Rightarrow> 'w flow_step \<Rightarrow> 'w fstate \<Rightarrow> outcome \<times> 'w fstate" where
  "exec_step fj st s0 =
     (let s = on_je (\<lambda>je. je\<lparr>je_CurrentStepName := fs_StepName st\<rparr>) s0 in
      case find_reusable (fs_StepName st) (je_StepExecutions (fl_je s)) of
        None \<Rightarrow>
          (case fcall (fj_NewID fj) s of (newID, s1) \<Rightarrow>
           (case fcall (fj_Now fj) s1 of (now, s2) \<Rightarrow>
             (let i = length (je_StepExecutions (fl_je s2));
                  s3 = on_je (\<lambda>je. AddStepExecution (NewStepExecution now newID je (fs_StepName st)) je) s2
              in case save_step fj i s3 of
                   (Some e, s4) \<Rightarrow>
                     (ReturnError (NewBatchError (fj_name fj) ''Error saving new StepExecution'' (Some e) False False),
                      fail_job fj e (note_failure e s4))
                 | (None, s4) \<Rightarrow> run_step fj st i s4)))
      | Some i \<Rightarrow>
          if se_Status (je_StepExecutions (fl_je s) ! i) = STARTING
          then (case save_step fj i s of
                  (Some e, s1) \<Rightarrow>
                    (ReturnError (NewBatchError (fj_name fj) ''Error saving restarted StepExecution'' (Some e) False False),
                     fail_job fj e (note_failure e s1))
                | (None, s1) \<Rightarrow> run_step fj st i s1)
          else if se_Status (je_StepExecutions (fl_je s) ! i) = COMPLETED
          then (Outcome ExitCompleted None, s)
          else run_step fj st i s)"

section \<open>Decisions and splits\<close>

definition exec_decision :: "'w flow_job \<Rightarrow> 'w flow_decision \<Rightarrow> JobParameters \<Rightarrow> 'w fstate \<Rightarrow>
    outcome \<times> 'w fstate" where
  "exec_decision fj d params s = (case fcall (de_Decide d (fl_je s) params) s of
       ((status, err), s1) \<Rightarrow> (Outcome status err, record_error fj err s1))"

text \<open>One goroutine of a split: the error it sends, if any.\<close>

definition split_run :: "'w flow_job \<Rightarrow> 'w flow_step \<Rightarrow> nat \<Rightarrow> 'w fstate \<Rightarrow> goerr option \<times> 'w fstate" where
  "split_run fj st i s =
     (case save_step fj i s of
        (Some e, s1) \<Rightarrow> (Some (NewBatchError (fj_name fj)
            (''Error saving StepExecution '' @ quoted (fs_StepName st) @ '' within Split'') (Some e) False False), s1)
      | (None, s1) \<Rightarrow>
          (case fcall (fs_Execute st (fl_je s1) (je_StepExecutions (fl_je s1) ! i)) s1 of
             ((err, je, se), s2) \<Rightarrow> (err, s2\<lparr>fl_je := set_step i se je\<rparr>)))"

definition split_step :: "'w flow_job \<Rightarrow> 'w flow_step \<Rightarrow> 'w fstate \<Rightarrow> goerr option \<times> 'w fstate" where
  "split_step fj st s =
     (case find_reusable (fs_StepName st) (je_StepExecutions (fl_je s)) of
        None \<Rightarrow>
          (case fcall (fj_NewID fj) s of (newID, s1) \<Rightarrow>
           (case fcall (fj_Now fj) s1 of (now, s2) \<Rightarrow>
             split_run fj st (length (je_StepExecutions (fl_je s2)))
               (on_je (\<lambda>je. AddStepExecution (NewStepExecution now newID je (fs_StepName st)) je) s2)))
      | Some i \<Rightarrow>
          if se_Status (je_StepExecutions (fl_je s) ! i) = COMPLETED then (None, s)
          else split_run fj st i s)"

fun join_errors :: "goerr option \<Rightarrow> goerr list \<Rightarrow> goerr option" where
  "join_errors acc [] = acc"
| "join_errors acc (e # es) =
     join_errors (Some (JoinError (case acc of None \<Rightarrow> [e] | Some a \<Rightarrow> [a, e]))) es"

fun split_steps :: "'w flow_job \<Rightarrow> 'w flow_step list \<Rightarrow> 'w fstate \<Rightarrow> goerr list \<times> 'w fstate" where
  "split_steps fj [] s = ([], s)"
| "split_steps fj (st # sts) s = (case split_step fj st s of
       (err, s1) \<Rightarrow> (case split_steps fj sts s1 of
           (errs, s2) \<Rightarrow> ((case err of None \<Rightarrow> errs | Some e \<Rightarrow> e # errs), s2)))"

definition exec_split :: "'w flow_job \<Rightarrow> 'w flow_split \<Rightarrow> 'w fstate \<Rightarrow> outcome \<times> 'w fstate" where
  "exec_split fj sp s = (case split_steps fj (fj_Order fj (fl_world s) (sp_Steps sp)) s of
       (errs, s1) \<Rightarrow> (case join_errors None errs of
           None \<Rightarrow> (Outcome ExitCompleted None, s1)
         | Some e \<Rightarrow> (Outcome ExitFailed (Some e), s1)))"

section \<open>The walk\<close>

definition exec_element :: "'w flow_job \<Rightarrow> string \<Rightarrow> JobParameters \<Rightarrow> 'w element \<Rightarrow> 'w fstate \<Rightarrow>
    outcome \<times> 'w fstate" where
  "exec_element fj cur params el s = (case el of
       StepElement st \<Rightarrow> exec_step fj st s
     | DecisionElement d \<Rightarrow> exec_decision fj d params s
     | SplitElement sp \<Rightarrow> exec_split fj sp s
     | UnknownElement i ty \<Rightarrow>
         (let err = NewBatchErrorf (fj_name fj) (''Unknown flow element type: '' @ ty @ '' (ID: %s)'') [ArgStr cur]
          in (ReturnError err, fail_job fj err (note_failure err s)))
     | NoFlowElement ty \<Rightarrow>
         (let err = NewBatchErrorf (fj_name fj) (''Flow element '' @ quoted ''%s'' @ '' is not a valid FlowElement type: '' @ ty)
                      [ArgStr cur]
          in (ReturnError err, fail_job fj err (note_failure err s))))"

text \<open>Where the flow goes after an element: to another one, or the loop is left.\<close>

datatype flow_next = GoTo string | LeaveLoop

definition transition :: "'w flow_job \<Rightarrow> string \<Rightarrow> ExitStatus \<Rightarrow> goerr option \<Rightarrow> 'w fstate \<Rightarrow>
    flow_next \<times> 'w fstate" where
  "transition fj eid status err s =
     (case GetTransitionRule (fj_flow fj) eid status (err \<noteq> None) of
        None \<Rightarrow> (LeaveLoop, (case err of None \<Rightarrow> complete_job fj s | Some e \<Rightarrow> fail_job fj e s))
      | Some r \<Rightarrow>
          if tr_End r then (LeaveLoop, complete_job fj s)
          else if tr_Fail r then (LeaveLoop, fail_job fj (plain_error (''explicit fail transition from '' @ eid)) s)
          else if tr_Stop r then (LeaveLoop, stop_job fj s)
          else (GoTo (tr_To r), s))"

fun flow_loop :: "nat \<Rightarrow> 'w flow_job \<Rightarrow> JobParameters \<Rightarrow> string \<Rightarrow> 'w fstate \<Rightarrow>
    (goerr option \<times> 'w fstate) option" where
  "flow_loop 0 fj params cur s = None"
| "flow_loop (Suc n) fj params cur s =
     (case fj_ctxErr fj (fl_world s) of
        Some ce \<Rightarrow> Some (Some ce, stop_job fj (note_failure ce s))
      | None \<Rightarrow> (case gm_get (fd_Elements (fj_flow fj)) cur of
            None \<Rightarrow>
              (let err = NewBatchErrorf (fj_name fj) (''Flow element '' @ quoted ''%s'' @ '' not found'') [ArgStr cur]
               in Some (Some err, fail_job fj err (note_failure err s)))
          | Some el \<Rightarrow> (case exec_element fj cur params el (s\<lparr>fl_visited := fl_visited s @ [cur]\<rparr>) of
                (ReturnError e, s1) \<Rightarrow> Some (Some e, s1)
              | (Outcome status err, s1) \<Rightarrow> (case transition fj (element_ID el) status err s1 of
                    (LeaveLoop, s2) \<Rightarrow> Some (None, s2)
                  | (GoTo to, s2) \<Rightarrow> flow_loop n fj params to s2))))"

definition start_element :: "'w flow_job \<Rightarrow> JobExecution \<Rightarrow> string" where
  "start_element fj je =
     (if je_CurrentStepName je \<noteq> [] \<and> (je_Status je = RESTARTING \<or> je_Status je = STARTED)
      then je_CurrentStepName je else fd_StartElement (fj_flow fj))"

text \<open>The deferred function sets an end time when none is set.\<close>

definition close_job :: "'w flow_job \<Rightarrow> 'w fstate \<Rightarrow> 'w fstate" where
  "close_job fj s =
     (if je_EndTime (fl_je s) = None
      then (case fcall (fj_Now fj) s of (now, s1) \<Rightarrow> on_je (\<lambda>je. je\<lparr>je_EndTime := Some now\<rparr>) s1)
      else s)"

definition FlowJob_Run :: "nat \<Rightarrow> 'w flow_job \<Rightarrow> JobParameters \<Rightarrow> 'w fstate \<Rightarrow>
    (goerr option \<times> 'w fstate) option" where
  "FlowJob_Run fuel fj params s =
     map_option (\<lambda>(err, s1). (err, close_job fj s1))
       (flow_loop fuel fj params (start_element fj (fl_je s)) s)"

section \<open>The runner\<close>

definition update_job :: "'w flow_job \<Rightarrow> 'w fstate \<Rightarrow> 'w fstate" where
  "update_job fj s = (case fcall (fj_UpdateJobExecution fj (fl_je s)) s of
       ((err, je), s1) \<Rightarrow> s1\<lparr>fl_je := je\<rparr>)"

definition SimpleJobRunner_Run :: "nat \<Rightarrow> 'w flow_job \<Rightarrow> 'w fstate \<Rightarrow> 'w fstate option" where
  "SimpleJobRunner_Run fuel fj s =
     (let s1 = (if je_Status (fl_je s) = STARTING \<or> je_Status (fl_je s) = RESTARTING
                then (case fcall (fj_Now fj) s of (now, s') \<Rightarrow>
                        update_job fj (on_je (JobExecution_MarkAsStarted now) s'))
                else s)
      in case FlowJob_Run fuel fj (je_Parameters (fl_je s1)) s1 of
           None \<Rightarrow> None
         | Some (err, s2) \<Rightarrow>
             (let s3 = (if IsFinished (je_Status (fl_je s2)) then s2
                        else (case err of Some e \<Rightarrow> fail_job fj e s2 | None \<Rightarrow> complete_job fj s2))
              in Some (close_job fj (update_job fj s3))))"

section \<open>What a run leaves behind\<close>

lemma fcall_je [simp]: "fcall f s = (r, s') \<Longrightarrow> fl_je s' = fl_je s"
  "fcall f s = (r, s') \<Longrightarrow> fl_visited s' = fl_visited s"
  by (auto simp: fcall_def split: prod.splits)

lemma on_je_fields [simp]: "fl_je (on_je f s) = f (fl_je s)" "fl_visited (on_je f s) = fl_visited s"
  by (simp_all add: on_je_def)

lemma job_marks [simp]:
  "je_Status (fl_je (fail_job fj e s)) = FAILED" "je_Status (fl_je (stop_job fj s)) = STOPPED"
  "je_Status (fl_je (complete_job fj s)) = COMPLETED"
  "job_closed (fl_je (fail_job fj e s))" "job_closed (fl_je (stop_job fj s))"
  "job_closed (fl_je (complete_job fj s))"
  "fl_visited (fail_job fj e s) = fl_visited s" "fl_visited (stop_job fj s) = fl_visited s"
  "fl_visited (complete_job fj s) = fl_visited s" "fl_visited (note_failure e s) = fl_visited s"
  by (auto simp: fail_job_def stop_job_def complete_job_def note_failure_def split: prod.splits)

lemma job_failures [simp]:
  "set (je_Failures (fl_je (fail_job fj e s))) = insert (Error_text e) (set (je_Failures (fl_je s)))"
  "je_Failures (fl_je (stop_job fj s)) = je_Failures (fl_je s)"
  "je_Failures (fl_je (complete_job fj s)) = je_Failures (fl_je s)"
  "set (je_Failures (fl_je (note_failure e s))) = insert (Error_text e) (set (je_Failures (fl_je s)))"
  by (auto simp: fail_job_def stop_job_def complete_job_def note_failure_def mark_defs split: prod.splits)

text \<open>How a loop that returns leaves the job: closed, and with the returned error recorded.\<close>

definition left_ok :: "goerr option \<Rightarrow> 'w fstate \<Rightarrow> bool" where
  "left_ok err s \<longleftrightarrow> job_closed (fl_je s)
     \<and> je_Status (fl_je s) \<in> {COMPLETED, FAILED, STOPPED}
     \<and> (case err of None \<Rightarrow> True
        | Some e \<Rightarrow> je_Status (fl_je s) \<noteq> COMPLETED
            \<and> (\<exists>m\<in>set (je_Failures (fl_je s)). m = Error_text e \<or>
                 (\<exists>e'. errors_Unwrap e = Some e' \<and> m = Error_text e')))"

lemma exec_step_return:
  "exec_step fj st s = (ReturnError e, s') \<Longrightarrow> left_ok (Some e) s'"
  by (auto simp: exec_step_def run_step_def Let_def left_ok_def NewBatchError_def
      split: option.splits prod.splits if_splits)

lemma exec_element_return:
  assumes "exec_element fj cur params el s = (ReturnError e, s')"
  shows "left_ok (Some e) s'"
proof (cases el)
  case (StepElement st)
  then show ?thesis using assms exec_step_return by (simp add: exec_element_def)
qed (use assms in \<open>auto simp: exec_element_def exec_decision_def exec_split_def Let_def left_ok_def
    split: prod.splits option.splits\<close>)

lemma transition_leave:
  "transition fj eid status err s = (LeaveLoop, s') \<Longrightarrow> left_ok None s'"
  by (auto simp: transition_def left_ok_def split: option.splits if_splits)

lemma flow_loop_left:
  "flow_loop n fj params cur s = Some (err, s') \<Longrightarrow> left_ok err s'"
proof (induction n arbitrary: cur s)
  case (Suc n)
  show ?case
  proof (cases "fj_ctxErr fj (fl_world s)")
    case (Some ce)
    then have "err = Some ce" "s' = stop_job fj (note_failure ce s)" using Suc.prems by simp_all
    then show ?thesis by (auto simp: left_ok_def)
  next
    case None
    show ?thesis
    proof (cases "gm_get (fd_Elements (fj_flow fj)) cur")
      case None
      then show ?thesis using Suc.prems \<open>fj_ctxErr fj (fl_world s) = None\<close>
        by (auto simp: left_ok_def Let_def)
    next
      case (Some el)
      obtain out s1 where ex: "exec_element fj cur params el (s\<lparr>fl_visited := fl_visited s @ [cur]\<rparr>) = (out, s1)"
        by fastforce
      show ?thesis
      proof (cases out)
        case (ReturnError e)
        then show ?thesis using Suc.prems None Some ex exec_element_return by auto
      next
        case (Outcome status oe)
        obtain nx s2 where tr: "transition fj (element_ID el) status oe s1 = (nx, s2)" by fastforce
        show ?thesis using Suc.prems None Some ex Outcome tr Suc.IH transition_leave
          by (cases nx) auto
      qed
    qed
  qed
qed simp

lemma close_job_closed: "job_closed (fl_je s) \<Longrightarrow> close_job fj s = s"
  by (simp add: close_job_def job_closed_def)

lemma flow_job_closed:
  assumes "FlowJob_Run fuel fj params s = Some (err, s')"
  shows "job_closed (fl_je s') \<and> je_Status (fl_je s') \<in> {COMPLETED, FAILED, STOPPED}"
proof -
  obtain s1 where l: "flow_loop fuel fj params (start_element fj (fl_je s)) s = Some (err, s1)"
    "s' = close_job fj s1"
    using assms by (auto simp: FlowJob_Run_def)
  note ok = flow_loop_left[OF l(1)]
  then have "s' = s1" using l(2) close_job_closed by (auto simp: left_ok_def)
  then show ?thesis using ok by (simp add: left_ok_def)
qed

text \<open>
  C11: when \<open>FlowJob.Run\<close> returns, the job execution is closed: it is completed, failed or
  stopped, with an end time and the exit status of its status. When it returns an error the job
  is not completed, and that error, or the error it wraps, is among the failures.
\<close>

theorem flow_job_leaves_closed:
  assumes "FlowJob_Run fuel fj params s = Some (err, s')"
  shows "job_closed (fl_je s') \<and> je_Status (fl_je s') \<in> {COMPLETED, FAILED, STOPPED}
    \<and> (\<forall>e. err = Some e \<longrightarrow> je_Status (fl_je s') \<noteq> COMPLETED
         \<and> (\<exists>m\<in>set (je_Failures (fl_je s')). m = Error_text e \<or>
              (\<exists>e'. errors_Unwrap e = Some e' \<and> m = Error_text e')))"
proof -
  obtain s1 where l: "flow_loop fuel fj params (start_element fj (fl_je s)) s = Some (err, s1)"
    "s' = close_job fj s1"
    using assms by (auto simp: FlowJob_Run_def)
  note ok = flow_loop_left[OF l(1)]
  then have "s' = s1" using l(2) close_job_closed by (auto simp: left_ok_def)
  then show ?thesis using ok by (auto simp: left_ok_def split: option.splits)
qed

section \<open>The path of a run\<close>

text \<open>The first rule of an element decides where its run can go next, whatever its status.\<close>

definition succ_of :: "'w flow_job \<Rightarrow> string \<Rightarrow> string option" where
  "succ_of fj cur = (case gm_get (fd_Elements (fj_flow fj)) cur of
       None \<Rightarrow> None
     | Some el \<Rightarrow> (case gm_get (fd_Transitions (fj_flow fj)) (element_ID el) of
           Some (r # rs) \<Rightarrow> if tr_End r \<or> tr_Fail r \<or> tr_Stop r then None else Some (tr_To r)
         | _ \<Rightarrow> None))"

lemma transition_goto:
  assumes "gm_get (fd_Elements (fj_flow fj)) cur = Some el"
  shows "fst (transition fj (element_ID el) status err s) =
    (case succ_of fj cur of None \<Rightarrow> LeaveLoop | Some to \<Rightarrow> GoTo to)"
  using assms by (auto simp: transition_def GetTransitionRule_def succ_of_def split: option.splits list.splits)

text \<open>A rank that falls along every transition: the flow has no cycle.\<close>

definition falls :: "'w flow_job \<Rightarrow> (string \<Rightarrow> nat) \<Rightarrow> bool" where
  "falls fj rank \<longleftrightarrow> (\<forall>cur to. succ_of fj cur = Some to \<longrightarrow> rank to < rank cur)"

text \<open>
  C18: the run of a flow without cycles ends: as many elements as the rank of the first one, and
  one more, are enough, whatever the steps, the decisions and the repository do.
\<close>

theorem acyclic_flow_terminates:
  assumes "falls fj rank" "rank (start_element fj (fl_je s)) < fuel"
  shows "\<exists>err s'. FlowJob_Run fuel fj params s = Some (err, s')"
proof -
  have "\<exists>err s'. flow_loop fuel fj params cur s = Some (err, s')" if "rank cur < fuel" for cur
    using that
  proof (induction fuel arbitrary: cur s)
    case (Suc n)
    show ?case
    proof (cases "fj_ctxErr fj (fl_world s)")
      case None
      show ?thesis
      proof (cases "gm_get (fd_Elements (fj_flow fj)) cur")
        case (Some el)
        obtain out s1 where ex: "exec_element fj cur params el (s\<lparr>fl_visited := fl_visited s @ [cur]\<rparr>) = (out, s1)"
          by fastforce
        show ?thesis
        proof (cases out)
          case (Outcome status oe)
          obtain nx s2 where tr: "transition fj (element_ID el) status oe s1 = (nx, s2)" by fastforce
          show ?thesis
          proof (cases nx)
            case (GoTo to)
            then have "succ_of fj cur = Some to"
              using transition_goto[OF Some, of status oe s1] tr by (auto split: option.splits)
            then have "rank to < rank cur" using assms(1) by (auto simp: falls_def)
            then have "rank to < n" using Suc.prems by simp
            then show ?thesis using Suc.IH[of to s2] None Some ex Outcome tr GoTo by auto
          qed (use None Some ex Outcome tr in auto)
        qed (use None Some ex in auto)
      qed (use None in \<open>auto simp: Let_def\<close>)
    qed auto
  qed simp
  from this[OF assms(2)] show ?thesis by (auto simp: FlowJob_Run_def)
qed

text \<open>A flow of one step whose repository and step always succeed, for the witnesses.\<close>

definition ok_step :: "string \<Rightarrow> nat flow_step" where
  "ok_step n = \<lparr>fs_ID = n, fs_StepName = n,
     fs_Execute = \<lambda>je se w. ((None, je, StepExecution_MarkAsCompleted 5 se), w), fs_Promotion = None\<rparr>"

definition bad_step :: "string \<Rightarrow> goerr \<Rightarrow> nat flow_step" where
  "bad_step n e = \<lparr>fs_ID = n, fs_StepName = n,
     fs_Execute = \<lambda>je se w. ((Some e, je, StepExecution_MarkAsFailed 5 e se), w), fs_Promotion = None\<rparr>"

definition demo_job :: "nat element FlowDefinition \<Rightarrow> nat flow_job" where
  "demo_job fd = \<lparr>fj_name = ''job'', fj_flow = fd, fj_ctxErr = \<lambda>w. None, fj_Now = \<lambda>w. (int w, w + 1),
     fj_NewID = \<lambda>w. (nat_str w, w + 1), fj_Order = \<lambda>w xs. xs,
     fj_SaveStepExecution = \<lambda>se w. ((None, se), w), fj_UpdateJobExecution = \<lambda>je w. ((None, je), w)\<rparr>"

definition demo_state :: "nat fstate" where
  "demo_state = \<lparr>fl_world = 0, fl_je = NewJobExecution ''e'' 0 0 ''i'' ''job'' NewJobParameters, fl_visited = []\<rparr>"

definition two_steps :: "nat element FlowDefinition" where
  "two_steps = AddTransitionRule ''b'' ''COMPLETED'' [] True False False
     (AddTransitionRule ''a'' ''COMPLETED'' ''b'' False False False
        \<lparr>fd_StartElement = ''a'', fd_Elements = [(''a'', StepElement (ok_step ''a'')), (''b'', StepElement (ok_step ''b''))],
         fd_Transitions = []\<rparr>)"

lemma flow_job_leaves_closed_witness:
  "\<exists>err s'. FlowJob_Run 2 (demo_job two_steps) NewJobParameters demo_state = Some (err, s')
    \<and> job_closed (fl_je s') \<and> fl_visited s' = [''a'', ''b'']"
proof -
  have "map_option (\<lambda>(e, s). (e, fl_visited s)) (FlowJob_Run 2 (demo_job two_steps) NewJobParameters demo_state)
      = Some (None, [''a'', ''b''])"
    by code_simp
  then obtain err s' where "FlowJob_Run 2 (demo_job two_steps) NewJobParameters demo_state = Some (err, s')"
    "fl_visited s' = [''a'', ''b'']" by auto
  with flow_job_leaves_closed[OF this(1)] show ?thesis by blast
qed

lemma falls_two_steps: "falls (demo_job two_steps) (\<lambda>n. if n = ''a'' then 1 else 0)"
  by (auto simp: falls_def succ_of_def demo_job_def two_steps_def AddTransitionRule_def ok_step_def
      split: if_splits)

lemma acyclic_flow_terminates_witness:
  "\<exists>err s'. FlowJob_Run 2 (demo_job two_steps) NewJobParameters demo_state = Some (err, s')"
  by (rule acyclic_flow_terminates[OF falls_two_steps])
    (simp add: start_element_def demo_job_def two_steps_def AddTransitionRule_def demo_state_def NewJobExecution_def)

text \<open>Consecutive elements of a list follow each other in the flow.\<close>

definition flow_path :: "'w flow_job \<Rightarrow> string list \<Rightarrow> bool" where
  "flow_path fj xs \<longleftrightarrow> (\<forall>i. Suc i < length xs \<longrightarrow> succ_of fj (xs ! i) = Some (xs ! Suc i))"

lemma split_step_visited: "split_step fj st s = (e, s') \<Longrightarrow> fl_visited s' = fl_visited s"
  by (auto simp: split_step_def split_run_def save_step_def split: option.splits prod.splits if_splits)

lemma split_steps_visited: "split_steps fj sts s = (es, s') \<Longrightarrow> fl_visited s' = fl_visited s"
  by (induction fj sts s arbitrary: es s' rule: split_steps.induct)
    (auto split: prod.splits option.splits dest: split_step_visited)

lemma exec_element_visited:
  "exec_element fj cur params el s = (out, s') \<Longrightarrow> fl_visited s' = fl_visited s"
  by (auto simp: exec_element_def exec_step_def run_step_def save_step_def promote_step_def
      record_error_def exec_decision_def exec_split_def Let_def
      split: element.splits option.splits prod.splits if_splits dest: split_steps_visited)

lemma transition_visited: "transition fj eid status err s = (nx, s') \<Longrightarrow> fl_visited s' = fl_visited s"
  by (auto simp: transition_def split: option.splits if_splits)

lemma flow_path_append:
  "flow_path fj (xs @ [y]) \<longleftrightarrow> flow_path fj xs \<and> (xs \<noteq> [] \<longrightarrow> succ_of fj (last xs) = Some y)"
proof
  assume p: "flow_path fj (xs @ [y])"
  have "flow_path fj xs" unfolding flow_path_def
  proof (intro allI impI)
    fix i assume "Suc i < length xs"
    then show "succ_of fj (xs ! i) = Some (xs ! Suc i)"
      using p[unfolded flow_path_def, rule_format, of i] by (simp add: nth_append)
  qed
  moreover have "succ_of fj (last xs) = Some y" if "xs \<noteq> []"
    using p[unfolded flow_path_def, rule_format, of "length xs - 1"] that
    by (simp add: nth_append last_conv_nth)
  ultimately show "flow_path fj xs \<and> (xs \<noteq> [] \<longrightarrow> succ_of fj (last xs) = Some y)" by simp
next
  assume "flow_path fj xs \<and> (xs \<noteq> [] \<longrightarrow> succ_of fj (last xs) = Some y)"
  then show "flow_path fj (xs @ [y])"
    by (auto simp: flow_path_def nth_append last_conv_nth less_Suc_eq)
      (metis One_nat_def Suc_diff_1 diff_Suc_1 length_greater_0_conv less_Suc_eq list.size(3) not_less_eq)
qed

lemma flow_loop_path:
  "flow_loop n fj params cur s = Some (err, s') \<Longrightarrow> flow_path fj (fl_visited s) \<Longrightarrow>
   fl_visited s = [] \<or> succ_of fj (last (fl_visited s)) = Some cur \<Longrightarrow>
   flow_path fj (fl_visited s') \<and> (fl_visited s' = fl_visited s \<or> (\<exists>ys. fl_visited s' = fl_visited s @ cur # ys))"
proof (induction n arbitrary: cur s)
  case (Suc n)
  show ?case
  proof (cases "fj_ctxErr fj (fl_world s)")
    case (Some ce)
    then have "s' = stop_job fj (note_failure ce s)" using Suc.prems by simp
    then show ?thesis using Suc.prems by simp
  next
    case None
    show ?thesis
    proof (cases "gm_get (fd_Elements (fj_flow fj)) cur")
      case None
      then show ?thesis using Suc.prems \<open>fj_ctxErr fj (fl_world s) = None\<close> by (auto simp: Let_def)
    next
      case (Some el)
      obtain out s1 where ex: "exec_element fj cur params el (s\<lparr>fl_visited := fl_visited s @ [cur]\<rparr>) = (out, s1)"
        by fastforce
      have v1: "fl_visited s1 = fl_visited s @ [cur]" using exec_element_visited[OF ex] by simp
      have p1: "flow_path fj (fl_visited s1)" using Suc.prems(2,3) v1 by (auto simp: flow_path_append)
      show ?thesis
      proof (cases out)
        case (ReturnError e)
        then show ?thesis using Suc.prems None Some ex p1 v1 by auto
      next
        case (Outcome status oe)
        obtain nx s2 where tr: "transition fj (element_ID el) status oe s1 = (nx, s2)" by fastforce
        note v2 = transition_visited[OF tr]
        show ?thesis
        proof (cases nx)
          case LeaveLoop
          then show ?thesis using Suc.prems None Some ex Outcome tr v1 v2 p1 by auto
        next
          case (GoTo to)
          have "succ_of fj cur = Some to"
            using transition_goto[OF Some, of status oe s1] tr GoTo by (auto split: option.splits)
          moreover have "flow_loop n fj params to s2 = Some (err, s')"
            using Suc.prems None Some ex Outcome tr GoTo by auto
          ultimately show ?thesis using Suc.IH[of to s2] v1 v2 p1 by auto
        qed
      qed
    qed
  qed
qed simp

text \<open>
  A run visits a path of the flow that begins at the start element, or at the current step of
  a restarted execution: every element is followed by the target of its first transition rule.
\<close>

theorem flow_job_follows_path:
  assumes "FlowJob_Run fuel fj params s = Some (err, s')" "fl_visited s = []"
  shows "flow_path fj (fl_visited s')
    \<and> (fl_visited s' \<noteq> [] \<longrightarrow> hd (fl_visited s') = start_element fj (fl_je s))"
proof -
  obtain s1 where l: "flow_loop fuel fj params (start_element fj (fl_je s)) s = Some (err, s1)"
    "s' = close_job fj s1"
    using assms by (auto simp: FlowJob_Run_def)
  have "fl_visited s' = fl_visited s1" using l(2) by (auto simp: close_job_def split: prod.splits)
  moreover have "flow_path fj (fl_visited s1)
    \<and> (fl_visited s1 = [] \<or> (\<exists>ys. fl_visited s1 = start_element fj (fl_je s) # ys))"
    using flow_loop_path[OF l(1)] assms(2) by (simp add: flow_path_def)
  ultimately show ?thesis by auto
qed

lemma flow_job_follows_path_witness:
  "\<exists>err s'. FlowJob_Run 2 (demo_job two_steps) NewJobParameters demo_state = Some (err, s')
    \<and> flow_path (demo_job two_steps) (fl_visited s')"
proof -
  have "FlowJob_Run 2 (demo_job two_steps) NewJobParameters demo_state \<noteq> None" by code_simp
  then obtain err s' where "FlowJob_Run 2 (demo_job two_steps) NewJobParameters demo_state = Some (err, s')"
    by auto
  with flow_job_follows_path[OF this] show ?thesis by (auto simp: demo_state_def)
qed

text \<open>
  The exit status of a step does not choose the transition. In a flow that ends on
  \<open>COMPLETED\<close> and fails on \<open>FAILED\<close>, declared in this order, a step that fails takes the first
  rule: \<open>Run\<close> returns no error and the job is completed, with the step's error among its
  failures.
\<close>

theorem failed_step_completes_job:
  assumes "gm_get (fd_Elements (fj_flow fj)) (fs_ID st) = Some (StepElement st)"
    and "fj_flow fj = AddTransitionRule (fs_ID st) ''FAILED'' [] False True False
           (AddTransitionRule (fs_ID st) ''COMPLETED'' [] True False False fd0)"
    and "gm_get (fd_Transitions fd0) (fs_ID st) = None"
    and "start_element fj (fl_je s) = fs_ID st" "fj_ctxErr fj (fl_world s) = None"
    and "exec_step fj st (s\<lparr>fl_visited := fl_visited s @ [fs_ID st]\<rparr>) = (Outcome ExitFailed (Some e), s1)"
  shows "\<exists>s'. FlowJob_Run (Suc n) fj params s = Some (None, s')
    \<and> je_Status (fl_je s') = COMPLETED \<and> je_ExitStatus (fl_je s') = ExitCompleted
    \<and> je_Failures (fl_je s') = je_Failures (fl_je s1)"
proof -
  have r: "GetTransitionRule (fj_flow fj) (fs_ID st) ExitFailed True
      = Some \<lparr>tr_To = [], tr_End = True, tr_Fail = False, tr_Stop = False\<rparr>"
  proof -
    have "GetTransitionRule fd0 (fs_ID st) x b = None" for x b
      using assms(3) by (simp add: GetTransitionRule_def)
    then show ?thesis using assms(2) by (simp add: GetTransitionRule_AddTransitionRule)
  qed
  have "flow_loop (Suc n) fj params (fs_ID st) s = Some (None, complete_job fj s1)"
    using assms(1,5,6) r by (simp add: exec_element_def transition_def)
  then show ?thesis using assms(4) job_marks(3,6)[of fj s1]
    by (auto simp: FlowJob_Run_def close_job_closed job_closed_def)
qed

definition end_or_fail :: "nat element FlowDefinition" where
  "end_or_fail = AddTransitionRule ''a'' ''FAILED'' [] False True False
     (AddTransitionRule ''a'' ''COMPLETED'' [] True False False
        \<lparr>fd_StartElement = ''a'', fd_Elements = [(''a'', StepElement (bad_step ''a'' (plain_error ''boom'')))],
         fd_Transitions = []\<rparr>)"

lemma failed_step_completes_job_witness:
  "\<exists>s'. FlowJob_Run 1 (demo_job end_or_fail) NewJobParameters demo_state = Some (None, s')
    \<and> je_Status (fl_je s') = COMPLETED \<and> je_Failures (fl_je s') = [''boom'']"
proof -
  let ?st = "bad_step ''a'' (plain_error ''boom'')" and ?fj = "demo_job end_or_fail"
  let ?s = "demo_state\<lparr>fl_visited := fl_visited demo_state @ [fs_ID ?st]\<rparr>"
  let ?fd0 = "\<lparr>fd_StartElement = ''a'', fd_Elements = [(''a'', StepElement ?st)], fd_Transitions = []\<rparr>"
  obtain s1 where ex: "exec_step ?fj ?st ?s = (Outcome ExitFailed (Some (plain_error ''boom'')), s1)"
    "je_Failures (fl_je s1) = [''boom'']"
  proof -
    have "(case exec_step ?fj ?st ?s of (out, s1) \<Rightarrow> (out, je_Failures (fl_je s1)))
        = (Outcome ExitFailed (Some (plain_error ''boom'')), [''boom''])" by code_simp
    then show thesis using that by (cases "exec_step ?fj ?st ?s") auto
  qed
  have "gm_get (fd_Elements (fj_flow ?fj)) (fs_ID ?st) = Some (StepElement ?st)"
    by (simp add: demo_job_def end_or_fail_def AddTransitionRule_def bad_step_def)
  moreover have "fj_flow ?fj = AddTransitionRule (fs_ID ?st) ''FAILED'' [] False True False
           (AddTransitionRule (fs_ID ?st) ''COMPLETED'' [] True False False ?fd0)"
    by (simp add: demo_job_def end_or_fail_def bad_step_def)
  moreover have "start_element ?fj (fl_je demo_state) = fs_ID ?st" "fj_ctxErr ?fj (fl_world demo_state) = None"
    "gm_get (fd_Transitions ?fd0) (fs_ID ?st) = None"
    by (simp_all add: start_element_def demo_job_def end_or_fail_def AddTransitionRule_def demo_state_def
        NewJobExecution_def bad_step_def)
  ultimately show ?thesis
    using failed_step_completes_job[of ?fj ?st ?fd0 demo_state "plain_error ''boom''" s1 0] ex by auto
qed

section \<open>The runner\<close>

text \<open>The repository changes a job execution it updates in its version only.\<close>

definition job_repo_keeps :: "'w flow_job \<Rightarrow> bool" where
  "job_repo_keeps fj \<longleftrightarrow> (\<forall>je w e je' w'. fj_UpdateJobExecution fj je w = ((e, je'), w') \<longrightarrow>
     je' = je\<lparr>je_Version := je_Version je'\<rparr>)"

lemma update_job_keeps:
  assumes "job_repo_keeps fj"
  shows "job_closed (fl_je (update_job fj s)) = job_closed (fl_je s)"
    "je_Status (fl_je (update_job fj s)) = je_Status (fl_je s)"
proof -
  obtain e je w where u: "fj_UpdateJobExecution fj (fl_je s) (fl_world s) = ((e, je), w)"
    by (metis surj_pair)
  then obtain v where "je = (fl_je s)\<lparr>je_Version := v\<rparr>"
    using assms unfolding job_repo_keeps_def by blast
  moreover have "fl_je (update_job fj s) = je" using u by (simp add: update_job_def fcall_def)
  ultimately show "job_closed (fl_je (update_job fj s)) = job_closed (fl_je s)"
    and "je_Status (fl_je (update_job fj s)) = je_Status (fl_je s)"
    by (simp_all add: job_closed_def)
qed

text \<open>
  Whatever the job does, the runner leaves a finished execution: completed, failed or
  stopped, with an end time and the exit status of its status.
\<close>

theorem runner_finishes:
  assumes "SimpleJobRunner_Run fuel fj s = Some s'" "job_repo_keeps fj"
  shows "job_closed (fl_je s') \<and> je_Status (fl_je s') \<in> {COMPLETED, FAILED, STOPPED}"
proof -
  obtain s1 ps err s2 where r: "FlowJob_Run fuel fj ps s1 = Some (err, s2)"
    and s': "s' = close_job fj (update_job fj (if IsFinished (je_Status (fl_je s2)) then s2
               else (case err of Some e \<Rightarrow> fail_job fj e s2 | None \<Rightarrow> complete_job fj s2)))"
    using assms(1) by (auto simp: SimpleJobRunner_Run_def Let_def split: option.splits)
  note c = flow_job_closed[OF r]
  then have "IsFinished (je_Status (fl_je s2))" by (simp add: job_closed_def)
  then have "s' = update_job fj s2"
    using s' c update_job_keeps(1)[OF assms(2), of s2] close_job_closed by simp
  then show ?thesis using c update_job_keeps[OF assms(2), of s2] by simp
qed

lemma runner_finishes_witness:
  "\<exists>s'. SimpleJobRunner_Run 2 (demo_job two_steps) demo_state = Some s' \<and> job_closed (fl_je s')"
proof -
  have "SimpleJobRunner_Run 2 (demo_job two_steps) demo_state \<noteq> None" by code_simp
  then obtain s' where "SimpleJobRunner_Run 2 (demo_job two_steps) demo_state = Some s'" by auto
  moreover have "job_repo_keeps (demo_job two_steps)" by (simp add: job_repo_keeps_def demo_job_def)
  ultimately show ?thesis using runner_finishes by blast
qed

end
