(* ===== verification/Tasklet_Step.thy ===== *)
theory Tasklet_Step
  imports Chunk_Items
begin

text \<open>
  \<open>engine/step/tasklet/tasklet_step.go\<close>: the step around one tasklet. The tasklet and the
  repository are operations on a world \<open>'w\<close>; the tasklet is given the pointer to the step
  execution, so each of its calls returns the step execution as it leaves it. Listeners observe.
\<close>

section \<open>The step\<close>

record 'w tasklet_step =
  tk_id :: string
  tk_SetExecutionContext :: "ec \<Rightarrow> 'w \<Rightarrow> 'w"
  tk_GetExecutionContext :: "'w \<Rightarrow> ec \<times> 'w"
  tk_Open :: "StepExecution \<Rightarrow> 'w \<Rightarrow> (goerr option \<times> StepExecution) \<times> 'w"
  tk_Run :: "StepExecution \<Rightarrow> 'w \<Rightarrow> ((ExitStatus \<times> goerr option) \<times> StepExecution) \<times> 'w"
  tk_Close :: "StepExecution \<Rightarrow> 'w \<Rightarrow> (goerr option \<times> StepExecution) \<times> 'w"
  tk_UpdateStepExecution :: "StepExecution \<Rightarrow> 'w \<Rightarrow> (goerr option \<times> StepExecution) \<times> 'w"
  tk_SaveCheckpointData :: "CheckpointData \<Rightarrow> 'w \<Rightarrow> goerr option \<times> 'w"
  tk_Now :: "'w \<Rightarrow> time \<times> 'w"
  tk_promotion :: "ExecutionContextPromotion option"
  tk_isolationLevel :: isolation
  tk_propagation :: string

datatype tk_event =
    TkOpened | TkBeforeStep | TkExecuted ExitStatus "goerr option" | TkCheckpoint CheckpointData
  | TkAfterStep | TkClosed | TkPersisted StepExecution

record 'w tkstate =
  tks_world :: 'w
  tks_se :: StepExecution
  tks_log :: "tk_event list"

definition tcall :: "('w \<Rightarrow> 'r \<times> 'w) \<Rightarrow> 'w tkstate \<Rightarrow> 'r \<times> 'w tkstate" where
  "tcall f s = (case f (tks_world s) of (r, w) \<Rightarrow> (r, s\<lparr>tks_world := w\<rparr>))"

text \<open>A call that is given the step execution.\<close>

definition tcall_se ::
  "(StepExecution \<Rightarrow> 'w \<Rightarrow> ('r \<times> StepExecution) \<times> 'w) \<Rightarrow> 'w tkstate \<Rightarrow> 'r \<times> 'w tkstate" where
  "tcall_se f s = (case tcall (f (tks_se s)) s of ((r, se), s1) \<Rightarrow> (r, s1\<lparr>tks_se := se\<rparr>))"

definition tlog :: "tk_event \<Rightarrow> 'w tkstate \<Rightarrow> 'w tkstate" where
  "tlog e s = s\<lparr>tks_log := tks_log s @ [e]\<rparr>"

definition tset :: "(StepExecution \<Rightarrow> StepExecution) \<Rightarrow> 'w tkstate \<Rightarrow> 'w tkstate" where
  "tset f s = s\<lparr>tks_se := f (tks_se s)\<rparr>"

fun tasklet_parseIsolationLevel :: "string \<Rightarrow> isolation" where
  "tasklet_parseIsolationLevel level =
     (if level = ''READ_UNCOMMITTED'' then LevelReadUncommitted
      else if level = ''READ_COMMITTED'' then LevelReadCommitted
      else if level = ''WRITE_COMMITTED'' then LevelWriteCommitted
      else if level = ''REPEATABLE_READ'' then LevelRepeatableRead
      else if level = ''SERIALIZABLE'' then LevelSerializable
      else LevelDefault)"

text \<open>The options of the transaction the step executor begins: isolation level and read-only.\<close>

definition GetTransactionOptions :: "'w tasklet_step \<Rightarrow> isolation \<times> bool" where
  "GetTransactionOptions st = (tk_isolationLevel st, False)"

definition GetPropagation :: "'w tasklet_step \<Rightarrow> string" where
  "GetPropagation st = tk_propagation st"

section \<open>Execute\<close>

definition tk_persist :: "'w tasklet_step \<Rightarrow> 'w tkstate \<Rightarrow> goerr option \<times> 'w tkstate" where
  "tk_persist st s = (case tcall_se (tk_UpdateStepExecution st) s of
       (Some e, s1) \<Rightarrow> (Some e, s1)
     | (None, s1) \<Rightarrow> (None, tlog (TkPersisted (tks_se s1)) s1))"

definition tasklet_saveCheckpoint :: "'w tasklet_step \<Rightarrow> 'w tkstate \<Rightarrow> goerr option \<times> 'w tkstate" where
  "tasklet_saveCheckpoint st s = (case tcall (tk_GetExecutionContext st) s of
       (ec, s1) \<Rightarrow> (case tcall (tk_Now st) s1 of
         (now, s2) \<Rightarrow>
           (let cp = \<lparr>cd_StepExecutionID = se_ID (tks_se s2), cd_ExecutionContext = ec, cd_LastUpdated = now\<rparr>
            in case tcall (tk_SaveCheckpointData st cp) s2 of
                 (Some e, s3) \<Rightarrow> (Some e, s3)
               | (None, s3) \<Rightarrow> (None, tlog (TkCheckpoint cp) s3))))"

text \<open>The tasklet's context becomes that of the step execution.\<close>

definition take_context :: "'w tasklet_step \<Rightarrow> 'w tkstate \<Rightarrow> 'w tkstate" where
  "take_context st s = (case tcall (tk_GetExecutionContext st) s of
       (ec, s1) \<Rightarrow> tset (\<lambda>se. se\<lparr>se_ExecutionContext := ec\<rparr>) s1)"

text \<open>The outcome of the tasklet. The exit status of a success is the tasklet's, whatever it is.\<close>

definition tasklet_outcome ::
  "'w tasklet_step \<Rightarrow> ExitStatus \<Rightarrow> goerr option \<Rightarrow> 'w tkstate \<Rightarrow> 'w tkstate" where
  "tasklet_outcome st exitStatus err s = (case tcall (tk_Now st) s of
       (now, s1) \<Rightarrow> (case err of
           Some e \<Rightarrow> tset (StepExecution_MarkAsFailed now e) s1
         | None \<Rightarrow> snd (tasklet_saveCheckpoint st
               (tset (\<lambda>se. se\<lparr>se_Status := COMPLETED, se_ExitStatus := exitStatus,
                              se_EndTime := Some now, se_LastUpdated := now\<rparr>) s1))))"

text \<open>The first error is the one that is returned.\<close>

definition first_error :: "goerr option \<Rightarrow> goerr option \<Rightarrow> goerr option" where
  "first_error err e = (case err of None \<Rightarrow> e | Some x \<Rightarrow> Some x)"

definition tasklet_finish :: "'w tasklet_step \<Rightarrow> goerr option \<Rightarrow> 'w tkstate \<Rightarrow> goerr option \<times> 'w tkstate" where
  "tasklet_finish st err s = (case tcall_se (tk_Close st) (tlog TkAfterStep s) of
       (closeErr, s1) \<Rightarrow> (case tk_persist st (take_context st (tlog TkClosed s1)) of
         (updateErr, s2) \<Rightarrow> (first_error (first_error err closeErr) updateErr, s2)))"

definition tasklet_start :: "'w tasklet_step \<Rightarrow> 'w tkstate \<Rightarrow> goerr option \<times> 'w tkstate" where
  "tasklet_start st s = (case tcall (tk_Now st) s of
       (now, s1) \<Rightarrow> (case tk_persist st (tset (StepExecution_MarkAsStarted now) s1) of
         (Some e, s2) \<Rightarrow> (Some (NewBatchError (tk_id st) ''Failed to update StepExecution status to STARTED''
             (Some e) False False), s2)
       | (None, s2) \<Rightarrow>
           (case tcall_se (tk_Open st)
               (s2\<lparr>tks_world := tk_SetExecutionContext st (se_ExecutionContext (tks_se s2)) (tks_world s2)\<rparr>) of
             (Some e, s3) \<Rightarrow> (case tcall (tk_Now st) s3 of
               (now2, s4) \<Rightarrow> (Some (NewBatchError (tk_id st) ''Failed to open Tasklet'' (Some e) False False),
                  snd (tk_persist st (tset (StepExecution_MarkAsFailed now2 e) s4))))
           | (None, s3) \<Rightarrow> (None, tlog TkOpened s3))))"

definition TaskletStep_Execute :: "'w tasklet_step \<Rightarrow> 'w tkstate \<Rightarrow> goerr option \<times> 'w tkstate" where
  "TaskletStep_Execute st s = (case tasklet_start st s of
       (Some e, s1) \<Rightarrow> (Some e, s1)
     | (None, s1) \<Rightarrow> (case tcall_se (tk_Run st) (tlog TkBeforeStep s1) of
         ((exitStatus, err), s2) \<Rightarrow>
           tasklet_finish st err
             (tasklet_outcome st exitStatus err (take_context st (tlog (TkExecuted exitStatus err) s2)))))"

section \<open>What a run does\<close>

lemma tcall_fields [simp]:
  "tcall f s = (r, s') \<Longrightarrow> tks_se s' = tks_se s" "tcall f s = (r, s') \<Longrightarrow> tks_log s' = tks_log s"
  by (auto simp: tcall_def split: prod.splits)

lemma tcall_se_log [simp]: "tcall_se f s = (r, s') \<Longrightarrow> tks_log s' = tks_log s"
  by (auto simp: tcall_se_def split: prod.splits)

lemma tset_tlog [simp]:
  "tks_se (tset f s) = f (tks_se s)" "tks_log (tset f s) = tks_log s" "tks_world (tset f s) = tks_world s"
  "tks_se (tlog e s) = tks_se s" "tks_log (tlog e s) = tks_log s @ [e]" "tks_world (tlog e s) = tks_world s"
  by (simp_all add: tset_def tlog_def)

lemma take_context_fields [simp]:
  "tks_log (take_context st s) = tks_log s"
  "\<exists>ec. tks_se (take_context st s) = (tks_se s)\<lparr>se_ExecutionContext := ec\<rparr>"
  by (auto simp: take_context_def split: prod.splits)

text \<open>The tasklet and the repository leave the status of the step execution alone.\<close>

definition same_outcome :: "StepExecution \<Rightarrow> StepExecution \<Rightarrow> bool" where
  "same_outcome se se' \<longleftrightarrow> se_Status se' = se_Status se \<and> se_ExitStatus se' = se_ExitStatus se
     \<and> se_EndTime se' = se_EndTime se \<and> se_LastUpdated se' = se_LastUpdated se
     \<and> se_Failures se' = se_Failures se \<and> se_ID se' = se_ID se"

definition keeps_outcome :: "'w tasklet_step \<Rightarrow> bool" where
  "keeps_outcome st \<longleftrightarrow>
     (\<forall>se w r se' w'. tk_Close st se w = ((r, se'), w') \<longrightarrow> same_outcome se se')
     \<and> (\<forall>se w r se' w'. tk_UpdateStepExecution st se w = ((r, se'), w') \<longrightarrow> same_outcome se se')"

lemma same_outcome_trans: "same_outcome a b \<Longrightarrow> same_outcome b c \<Longrightarrow> same_outcome a c"
  by (simp add: same_outcome_def)

lemma persist_outcome:
  assumes "keeps_outcome st" "tk_persist st s = (r, s')"
  shows "same_outcome (tks_se s) (tks_se s')"
    and "tks_log s' = tks_log s @ (case r of None \<Rightarrow> [TkPersisted (tks_se s')] | Some e \<Rightarrow> [])"
proof -
  obtain q se w where u: "tk_UpdateStepExecution st (tks_se s) (tks_world s) = ((q, se), w)"
    by (metis surj_pair)
  then have "same_outcome (tks_se s) se" using assms(1) unfolding keeps_outcome_def by blast
  with u show "same_outcome (tks_se s) (tks_se s')"
    "tks_log s' = tks_log s @ (case r of None \<Rightarrow> [TkPersisted (tks_se s')] | Some e \<Rightarrow> [])"
    using assms(2) by (auto simp: tk_persist_def tcall_se_def tcall_def split: option.splits)
qed

lemma finish_outcome:
  assumes "keeps_outcome st" "tasklet_finish st err s = (r, s')"
  shows "same_outcome (tks_se s) (tks_se s')"
    and "\<exists>ce ue. r = first_error (first_error err ce) ue
           \<and> tks_log s' = tks_log s @ [TkAfterStep, TkClosed]
                @ (case ue of None \<Rightarrow> [TkPersisted (tks_se s')] | Some e \<Rightarrow> [])"
proof -
  obtain ce se w where c: "tk_Close st (tks_se s) (tks_world s) = ((ce, se), w)"
    by (metis surj_pair)
  let ?s1 = "s\<lparr>tks_log := tks_log s @ [TkAfterStep], tks_world := w, tks_se := se\<rparr>"
  have cl: "tcall_se (tk_Close st) (tlog TkAfterStep s) = (ce, ?s1)"
    using c by (simp add: tcall_se_def tcall_def tlog_def)
  have so: "same_outcome (tks_se s) se"
    using c assms(1) unfolding keeps_outcome_def by blast
  let ?s2 = "take_context st (tlog TkClosed ?s1)"
  obtain ue where p: "tk_persist st ?s2 = (ue, s')" and r: "r = first_error (first_error err ce) ue"
    using assms(2) cl by (auto simp: tasklet_finish_def split: prod.splits)
  obtain ec where "tks_se ?s2 = se\<lparr>se_ExecutionContext := ec\<rparr>"
    using take_context_fields(2)[of st "tlog TkClosed ?s1"] by auto
  then have "same_outcome se (tks_se ?s2)" by (simp add: same_outcome_def)
  then show "same_outcome (tks_se s) (tks_se s')"
    using so persist_outcome(1)[OF assms(1) p] same_outcome_trans by blast
  show "\<exists>ce ue. r = first_error (first_error err ce) ue
           \<and> tks_log s' = tks_log s @ [TkAfterStep, TkClosed]
                @ (case ue of None \<Rightarrow> [TkPersisted (tks_se s')] | Some e \<Rightarrow> [])"
    using r persist_outcome(2)[OF assms(1) p] by auto
qed

lemma start_outcome:
  assumes "keeps_outcome st" "tasklet_start st s = (r, s')"
  shows "(case r of
            None \<Rightarrow> (\<exists>se. tks_log s' = tks_log s @ [TkPersisted se, TkOpened] \<and> se_Status se = STARTED)
          | Some e \<Rightarrow> (\<exists>ps. tks_log s' = tks_log s @ map TkPersisted ps))"
proof -
  obtain now s1 where n: "tcall (tk_Now st) s = (now, s1)" by fastforce
  obtain q s2 where p: "tk_persist st (tset (StepExecution_MarkAsStarted now) s1) = (q, s2)" by fastforce
  note po = persist_outcome[OF assms(1) p]
  have st: "se_Status (tks_se s2) = STARTED"
    using po(1) by (simp add: same_outcome_def)
  show ?thesis
  proof (cases q)
    case (Some e)
    then have "tks_log s' = tks_log s @ map TkPersisted []" "r \<noteq> None"
      using assms(2) n p po(2) by (auto simp: tasklet_start_def)
    then show ?thesis by (auto split: option.splits) 
  next
    case None
    let ?s2 = "s2\<lparr>tks_world := tk_SetExecutionContext st (se_ExecutionContext (tks_se s2)) (tks_world s2)\<rparr>"
    obtain oe s3 where o: "tcall_se (tk_Open st) ?s2 = (oe, s3)" by fastforce
    have l3: "tks_log s3 = tks_log s @ [TkPersisted (tks_se s2)]"
      using tcall_se_log[OF o] po(2) n None by simp
    show ?thesis
    proof (cases oe)
      case N: None
      then show ?thesis using assms(2) n p None o l3 st by (auto simp: tasklet_start_def)
    next
      case (Some e)
      obtain now2 s4 where n2: "tcall (tk_Now st) s3 = (now2, s4)" by fastforce
      obtain q2 s5 where p2: "tk_persist st (tset (StepExecution_MarkAsFailed now2 e) s4) = (q2, s5)" by fastforce
      have "s' = s5" "r \<noteq> None" using assms(2) n p None o Some n2 p2 by (auto simp: tasklet_start_def)
      moreover have "tks_log s5 = tks_log s @ map TkPersisted
          ([tks_se s2] @ (case q2 of None \<Rightarrow> [tks_se s5] | Some e \<Rightarrow> []))"
        using persist_outcome(2)[OF assms(1) p2] n2 l3 by (auto split: option.splits)
      ultimately have "\<exists>ps. tks_log s' = tks_log s @ map TkPersisted ps" "r \<noteq> None" by blast+
      then show ?thesis by (cases r) simp_all
    qed
  qed
qed

lemma checkpoint_outcome:
  "tks_se (snd (tasklet_saveCheckpoint st s)) = tks_se s
   \<and> (\<exists>cps. tks_log (snd (tasklet_saveCheckpoint st s)) = tks_log s @ map TkCheckpoint cps
          \<and> length cps \<le> 1 \<and> (\<forall>cp \<in> set cps. cd_StepExecutionID cp = se_ID (tks_se s)))"
proof -
  obtain ec s1 where e: "tcall (tk_GetExecutionContext st) s = (ec, s1)" by fastforce
  obtain now s2 where n: "tcall (tk_Now st) s1 = (now, s2)" by fastforce
  let ?cp = "\<lparr>cd_StepExecutionID = se_ID (tks_se s2), cd_ExecutionContext = ec, cd_LastUpdated = now\<rparr>"
  obtain q s3 where c: "tcall (tk_SaveCheckpointData st ?cp) s2 = (q, s3)" by fastforce
  have "tks_log (snd (tasklet_saveCheckpoint st s)) =
      tks_log s @ map TkCheckpoint (case q of None \<Rightarrow> [?cp] | Some e \<Rightarrow> [])"
    using e n c by (auto simp: tasklet_saveCheckpoint_def Let_def split: option.splits)
  moreover have "tks_se (snd (tasklet_saveCheckpoint st s)) = tks_se s"
    using e n c by (auto simp: tasklet_saveCheckpoint_def Let_def split: option.splits)
  moreover have "se_ID (tks_se s2) = se_ID (tks_se s)" using e n by simp
  ultimately show ?thesis
    by (auto intro!: exI[of _ "case q of None \<Rightarrow> [?cp] | Some e \<Rightarrow> []"] split: option.splits)
qed

lemma outcome_outcome:
  assumes "s' = tasklet_outcome st x err s"
  shows "\<exists>cps. tks_log s' = tks_log s @ map TkCheckpoint cps \<and> length cps \<le> 1
     \<and> (\<forall>cp \<in> set cps. cd_StepExecutionID cp = se_ID (tks_se s))
     \<and> (case err of
          Some e \<Rightarrow> cps = [] \<and> step_closed (tks_se s') \<and> se_Status (tks_se s') = FAILED
            \<and> Error_text e \<in> set (se_Failures (tks_se s'))
        | None \<Rightarrow> se_Status (tks_se s') = COMPLETED \<and> se_ExitStatus (tks_se s') = x
            \<and> se_EndTime (tks_se s') = Some (se_LastUpdated (tks_se s'))) \<and> se_ID (tks_se s') = se_ID (tks_se s)"
proof -
  obtain now s1 where n: "tcall (tk_Now st) s = (now, s1)" by fastforce
  show ?thesis
  proof (cases err)
    case (Some e)
    then show ?thesis using assms n
      by (auto simp: tasklet_outcome_def StepExecution_MarkAsFailed_def StepExecution_AddFailureException_def)
        (simp add: step_closed_def)
  next
    case None
    then show ?thesis using assms n
        checkpoint_outcome[of st "tset (\<lambda>se. se\<lparr>se_Status := COMPLETED, se_ExitStatus := x,
                              se_EndTime := Some now, se_LastUpdated := now\<rparr>) s1"]
      by (auto simp: tasklet_outcome_def)
  qed
qed

lemma tasklet_run:
  assumes "keeps_outcome st" "TaskletStep_Execute st s = (r, s')" "tks_log s = []"
  shows "(r \<noteq> None \<and> (\<exists>ps. tks_log s' = map TkPersisted ps))
    \<or> (\<exists>se x err cps ps. tks_log s' = [TkPersisted se, TkOpened, TkBeforeStep, TkExecuted x err]
            @ map TkCheckpoint cps @ [TkAfterStep, TkClosed] @ map TkPersisted ps
        \<and> se_Status se = STARTED \<and> length cps \<le> 1
        \<and> (\<forall>cp \<in> set cps. cd_StepExecutionID cp = se_ID (tks_se s'))
        \<and> (r = None \<longrightarrow> ps = [tks_se s'])
        \<and> (case err of
             Some e \<Rightarrow> r = Some e \<and> cps = [] \<and> step_closed (tks_se s') \<and> se_Status (tks_se s') = FAILED
               \<and> Error_text e \<in> set (se_Failures (tks_se s'))
           | None \<Rightarrow> se_Status (tks_se s') = COMPLETED \<and> se_ExitStatus (tks_se s') = x
               \<and> se_EndTime (tks_se s') = Some (se_LastUpdated (tks_se s'))))"
proof -
  obtain q s1 where q: "tasklet_start st s = (q, s1)" by fastforce
  note st = start_outcome[OF assms(1) q]
  show ?thesis
  proof (cases q)
    case (Some e)
    then show ?thesis using assms(2,3) q st by (auto simp: TaskletStep_Execute_def)
  next
    case None
    obtain se where l1: "tks_log s1 = [TkPersisted se, TkOpened]" and se: "se_Status se = STARTED"
      using st None assms(3) by auto
    obtain x err s2 where run: "tcall_se (tk_Run st) (tlog TkBeforeStep s1) = ((x, err), s2)"
      by (metis surj_pair)
    define s3 where "s3 = take_context st (tlog (TkExecuted x err) s2)"
    have l3: "tks_log s3 = [TkPersisted se, TkOpened, TkBeforeStep, TkExecuted x err]"
      using tcall_se_log[OF run] l1 by (simp add: s3_def)
    define s4 where "s4 = tasklet_outcome st x err s3"
    obtain cps where c: "tks_log s4 = tks_log s3 @ map TkCheckpoint cps" "length cps \<le> 1"
      "\<forall>cp \<in> set cps. cd_StepExecutionID cp = se_ID (tks_se s3)" "se_ID (tks_se s4) = se_ID (tks_se s3)"
      "case err of
          Some e \<Rightarrow> cps = [] \<and> step_closed (tks_se s4) \<and> se_Status (tks_se s4) = FAILED
            \<and> Error_text e \<in> set (se_Failures (tks_se s4))
        | None \<Rightarrow> se_Status (tks_se s4) = COMPLETED \<and> se_ExitStatus (tks_se s4) = x
            \<and> se_EndTime (tks_se s4) = Some (se_LastUpdated (tks_se s4))"
      using outcome_outcome[OF s4_def] by blast
    have f: "tasklet_finish st err s4 = (r, s')"
      using assms(2) q None run by (simp add: TaskletStep_Execute_def s4_def s3_def)
    note so = finish_outcome(1)[OF assms(1) f]
    obtain ce ue where r: "r = first_error (first_error err ce) ue"
      and l: "tks_log s' = tks_log s4 @ [TkAfterStep, TkClosed]
                @ (case ue of None \<Rightarrow> [TkPersisted (tks_se s')] | Some e \<Rightarrow> [])"
      using finish_outcome(2)[OF assms(1) f] by blast
    have lg: "tks_log s' = [TkPersisted se, TkOpened, TkBeforeStep, TkExecuted x err]
            @ map TkCheckpoint cps @ [TkAfterStep, TkClosed]
            @ map TkPersisted (case ue of None \<Rightarrow> [tks_se s'] | Some e \<Rightarrow> [])"
      using l l3 c(1) by (auto split: option.splits)
    have rn: "r = None \<longrightarrow> (case ue of None \<Rightarrow> [tks_se s'] | Some e \<Rightarrow> []) = [tks_se s']"
      using r by (auto simp: first_error_def split: option.splits)
    have re: "err = Some e \<Longrightarrow> r = Some e" for e using r by (simp add: first_error_def)
    have "case err of
             Some e \<Rightarrow> r = Some e \<and> cps = [] \<and> step_closed (tks_se s') \<and> se_Status (tks_se s') = FAILED
               \<and> Error_text e \<in> set (se_Failures (tks_se s'))
           | None \<Rightarrow> se_Status (tks_se s') = COMPLETED \<and> se_ExitStatus (tks_se s') = x
               \<and> se_EndTime (tks_se s') = Some (se_LastUpdated (tks_se s'))"
      using c(5) so re by (auto simp: same_outcome_def step_closed_def split: option.splits)
    moreover have "\<forall>cp \<in> set cps. cd_StepExecutionID cp = se_ID (tks_se s')"
      using c(3,4) so by (simp add: same_outcome_def)
    ultimately show ?thesis using lg se c(2) rn by blast
  qed
qed

text \<open>
  A run of a tasklet step either returns an error before any listener is notified, or it
  notifies \<open>BeforeStep\<close>, runs the tasklet once, saves at most one checkpoint, its own, and only
  after a success, notifies \<open>AfterStep\<close> and closes the tasklet, in this order. A tasklet that
  fails leaves a closed, failed execution with the error recorded and returned; one that succeeds
  leaves a completed execution with the tasklet's exit status. A run without error has stored the
  execution it leaves.
\<close>

theorem tasklet_step_outcome:
  assumes "keeps_outcome st" "TaskletStep_Execute st s = (r, s')" "tks_log s = []"
  shows "(r \<noteq> None \<and> (\<exists>ps. tks_log s' = map TkPersisted ps))
    \<or> (\<exists>se x err cps ps. tks_log s' = [TkPersisted se, TkOpened, TkBeforeStep, TkExecuted x err]
            @ map TkCheckpoint cps @ [TkAfterStep, TkClosed] @ map TkPersisted ps
        \<and> se_Status se = STARTED \<and> length cps \<le> 1
        \<and> (\<forall>cp \<in> set cps. cd_StepExecutionID cp = se_ID (tks_se s'))
        \<and> (r = None \<longrightarrow> ps = [tks_se s'])
        \<and> (case err of
             Some e \<Rightarrow> r = Some e \<and> cps = [] \<and> step_closed (tks_se s') \<and> se_Status (tks_se s') = FAILED
               \<and> Error_text e \<in> set (se_Failures (tks_se s'))
           | None \<Rightarrow> se_Status (tks_se s') = COMPLETED \<and> se_ExitStatus (tks_se s') = x
               \<and> se_EndTime (tks_se s') = Some (se_LastUpdated (tks_se s'))))"
  by (rule tasklet_run[OF assms])

definition demo_tasklet :: "goerr option \<Rightarrow> goerr option \<Rightarrow> nat tasklet_step" where
  "demo_tasklet runErr closeErr =
     \<lparr>tk_id = ''t'', tk_SetExecutionContext = \<lambda>ec w. w, tk_GetExecutionContext = \<lambda>w. ([(''n'', VInt (int w))], w),
      tk_Open = \<lambda>se w. ((None, se), w), tk_Run = \<lambda>se w. (((ExitNoOp, runErr), se), w + 1),
      tk_Close = \<lambda>se w. ((closeErr, se), w), tk_UpdateStepExecution = \<lambda>se w. ((None, se), w),
      tk_SaveCheckpointData = \<lambda>cp w. (None, w), tk_Now = \<lambda>w. (7, w), tk_promotion = None,
      tk_isolationLevel = LevelDefault, tk_propagation = ''REQUIRED''\<rparr>"

definition demo_tkstate :: "nat tkstate" where
  "demo_tkstate = \<lparr>tks_world = 0, tks_se = zero_StepExecution\<lparr>se_ID := ''s''\<rparr>, tks_log = []\<rparr>"

text \<open>How the tasklet ended, read from the log.\<close>

fun ran :: "tk_event list \<Rightarrow> (ExitStatus \<times> goerr option) option" where
  "ran [] = None"
| "ran (TkExecuted x e # es) = Some (x, e)"
| "ran (_ # es) = ran es"

lemma ran_in: "ran es = Some (x, e) \<Longrightarrow> TkExecuted x e \<in> set es"
  by (induction es rule: ran.induct) auto

lemmas tasklet_eval = TaskletStep_Execute_def tasklet_start_def tasklet_finish_def tasklet_outcome_def
  tasklet_saveCheckpoint_def take_context_def tk_persist_def tcall_se_def tcall_def tset_def tlog_def
  first_error_def demo_tasklet_def demo_tkstate_def

lemma demo_tasklet_keeps: "keeps_outcome (demo_tasklet a b)"
  by (simp add: keeps_outcome_def demo_tasklet_def same_outcome_def)

lemma tasklet_step_outcome_witness:
  "\<exists>s'. TaskletStep_Execute (demo_tasklet None None) demo_tkstate = (None, s')
     \<and> TkAfterStep \<in> set (tks_log s') \<and> se_Status (tks_se s') = COMPLETED \<and> se_ExitStatus (tks_se s') = ExitNoOp"
proof -
  have "(case TaskletStep_Execute (demo_tasklet None None) demo_tkstate of (r, s') \<Rightarrow>
      (r, ran (tks_log s'))) = (None, Some (ExitNoOp, None))"
    by (simp add: tasklet_eval)
  then obtain s' where e: "TaskletStep_Execute (demo_tasklet None None) demo_tkstate = (None, s')"
    and x: "TkExecuted ExitNoOp None \<in> set (tks_log s')"
    by (cases "TaskletStep_Execute (demo_tasklet None None) demo_tkstate") (auto intro: ran_in)
  have l: "tks_log demo_tkstate = []" by (simp add: demo_tkstate_def)
  have "TkAfterStep \<in> set (tks_log s') \<and> se_Status (tks_se s') = COMPLETED \<and> se_ExitStatus (tks_se s') = ExitNoOp"
    using tasklet_step_outcome[OF demo_tasklet_keeps e l] x by (auto split: option.splits)
  then show ?thesis using e by blast
qed

text \<open>
  When the tasklet succeeds and an error comes back all the same, of closing it or of storing
  the execution, the step execution stays completed with the tasklet's exit status.
\<close>

theorem tasklet_error_after_success:
  assumes "keeps_outcome st" "TaskletStep_Execute st s = (Some e, s')" "tks_log s = []"
    and "TkExecuted x None \<in> set (tks_log s')"
  shows "se_Status (tks_se s') = COMPLETED \<and> se_ExitStatus (tks_se s') = x"
proof -
  have "\<not> (\<exists>ps. tks_log s' = map TkPersisted ps)" using assms(4) by auto
  then obtain se y err cps ps where l: "tks_log s' = [TkPersisted se, TkOpened, TkBeforeStep, TkExecuted y err]
            @ map TkCheckpoint cps @ [TkAfterStep, TkClosed] @ map TkPersisted ps"
    and c: "case err of None \<Rightarrow> se_Status (tks_se s') = COMPLETED \<and> se_ExitStatus (tks_se s') = y
              | Some e \<Rightarrow> True"
    using tasklet_run[OF assms(1-3)] by (metis (no_types, lifting) option.case_eq_if)
  have "TkExecuted x None = TkExecuted y err" using assms(4) unfolding l by auto
  then show ?thesis using c by simp
qed

lemma tasklet_error_after_success_witness:
  "\<exists>s'. TaskletStep_Execute (demo_tasklet None (Some (plain_error ''boom''))) demo_tkstate
       = (Some (plain_error ''boom''), s')
     \<and> se_Status (tks_se s') = COMPLETED"
proof -
  let ?r = "TaskletStep_Execute (demo_tasklet None (Some (plain_error ''boom''))) demo_tkstate"
  have "(case ?r of (r, s') \<Rightarrow> (r, ran (tks_log s'))) = (Some (plain_error ''boom''), Some (ExitNoOp, None))"
    by (simp add: tasklet_eval)
  then obtain s' where e: "?r = (Some (plain_error ''boom''), s')"
    and x: "TkExecuted ExitNoOp None \<in> set (tks_log s')" by (cases ?r) (auto intro: ran_in)
  have l: "tks_log demo_tkstate = []" by (simp add: demo_tkstate_def)
  show ?thesis using tasklet_error_after_success[OF demo_tasklet_keeps e l x] e by blast
qed

end
