(* ===== verification/Step_Executor.thy ===== *)
theory Step_Executor
  imports Tasklet_Step
begin

text \<open>
  \<open>engine/step/partition/simple_executor.go\<close> and \<open>remote_executor.go\<close>: the executors that run a
  worker step of a partition. The simple one puts the step into a transaction as its propagation
  attribute says. A transaction is a number; the context carries at most one. What the executor
  calls is an entry of the log.
\<close>

section \<open>The worker step\<close>

text \<open>
  What a type assertion finds on the step: both methods, only the options, or none. The options
  are a pointer, which may be nil.
\<close>

datatype step_options =
    OptionsAndPropagation "(isolation \<times> bool) option" string
  | OptionsOnly "(isolation \<times> bool) option"
  | NoOptions

record 'w worker_step =
  wk_isChunkStep :: bool
  wk_options :: step_options
  wk_Execute :: "nat option \<Rightarrow> StepExecution \<Rightarrow> 'w \<Rightarrow> (goerr option \<times> StepExecution) \<times> 'w"

record 'w tx_ops =
  tx_Begin :: "(isolation \<times> bool) option \<Rightarrow> 'w \<Rightarrow> (goerr + nat) \<times> 'w"
  tx_Commit :: "nat \<Rightarrow> 'w \<Rightarrow> goerr option \<times> 'w"
  tx_Rollback :: "nat \<Rightarrow> 'w \<Rightarrow> goerr option \<times> 'w"
  tx_Savepoint :: "nat \<Rightarrow> string \<Rightarrow> 'w \<Rightarrow> goerr option \<times> 'w"
  tx_RollbackToSavepoint :: "nat \<Rightarrow> string \<Rightarrow> 'w \<Rightarrow> goerr option \<times> 'w"

datatype ex_event =
    ExBegin nat | ExCommit nat | ExRollback nat | ExSavepoint nat string
  | ExRollbackTo nat string | ExRan "nat option" "goerr option"

record 'w exstate =
  xs_world :: 'w
  xs_se :: StepExecution
  xs_log :: "ex_event list"

definition xcall :: "('w \<Rightarrow> 'r \<times> 'w) \<Rightarrow> 'w exstate \<Rightarrow> 'r \<times> 'w exstate" where
  "xcall f s = (case f (xs_world s) of (r, w) \<Rightarrow> (r, s\<lparr>xs_world := w\<rparr>))"

definition xlog :: "ex_event \<Rightarrow> 'w exstate \<Rightarrow> 'w exstate" where
  "xlog e s = s\<lparr>xs_log := xs_log s @ [e]\<rparr>"

text \<open>
  The options and the propagation. \<open>None\<close>: the code reads the isolation level of the options
  for a log line, and panics when they are nil.
\<close>

fun step_tx_options :: "step_options \<Rightarrow> ((isolation \<times> bool) option \<times> string) option" where
  "step_tx_options (OptionsAndPropagation None p) = None"
| "step_tx_options (OptionsAndPropagation (Some opts) p) = Some (Some opts, p)"
| "step_tx_options (OptionsOnly None) = None"
| "step_tx_options (OptionsOnly (Some opts)) = Some (Some opts, ''REQUIRED'')"
| "step_tx_options NoOptions = Some (None, ''REQUIRED'')"

section \<open>Before the step\<close>

text \<open>The transaction the step runs in, whether the executor began it, the savepoint, the context's transaction.\<close>

record tx_plan =
  pl_tx :: "nat option"
  pl_started :: bool
  pl_savepoint :: "string option"
  pl_ctx :: "nat option"

definition begin_new :: "'w tx_ops \<Rightarrow> (isolation \<times> bool) option \<Rightarrow> string \<Rightarrow> 'w exstate \<Rightarrow>
    (goerr + tx_plan) \<times> 'w exstate" where
  "begin_new ops opts msg s = (case xcall (tx_Begin ops opts) s of
       (Inl e, s1) \<Rightarrow> (Inl (NewBatchError ''simple_executor'' (msg @ quoted (se_StepName (xs_se s))) (Some e) False False), s1)
     | (Inr t, s1) \<Rightarrow> (Inr \<lparr>pl_tx = Some t, pl_started = True, pl_savepoint = None, pl_ctx = Some t\<rparr>, xlog (ExBegin t) s1))"

definition joined :: "nat option \<Rightarrow> tx_plan" where
  "joined existing = \<lparr>pl_tx = existing, pl_started = False, pl_savepoint = None, pl_ctx = existing\<rparr>"

definition no_tx :: tx_plan where
  "no_tx = \<lparr>pl_tx = None, pl_started = False, pl_savepoint = None, pl_ctx = None\<rparr>"

definition plan_tx :: "'w tx_ops \<Rightarrow> (isolation \<times> bool) option \<Rightarrow> string \<Rightarrow> nat option \<Rightarrow> 'w exstate \<Rightarrow>
    (goerr + tx_plan) \<times> 'w exstate" where
  "plan_tx ops opts propagation existing s =
     (let name = se_StepName (xs_se s) in
      if propagation = ''REQUIRED'' \<or> propagation = [] then
        (if existing \<noteq> None then (Inr (joined existing), s)
         else begin_new ops opts ''Failed to begin transaction for Worker Step '' s)
      else if propagation = ''REQUIRES_NEW'' then
        begin_new ops opts ''Failed to begin new transaction for Worker Step '' s
      else if propagation = ''NOT_SUPPORTED'' then (Inr no_tx, s)
      else if propagation = ''SUPPORTS'' then (Inr (joined existing), s)
      else if propagation = ''NEVER'' then
        (if existing \<noteq> None
         then (Inl (NewBatchErrorf ''simple_executor'' (''Propagation NEVER: Existing transaction found for Worker Step ''
                 @ quoted ''%s'' @ ''. Execution aborted.'') [ArgStr name]), s)
         else (Inr no_tx, s))
      else if propagation = ''MANDATORY'' then
        (if existing = None
         then (Inl (NewBatchErrorf ''simple_executor'' (''Propagation MANDATORY: No existing transaction found for Worker Step ''
                 @ quoted ''%s'' @ ''. Execution aborted.'') [ArgStr name]), s)
         else (Inr (joined existing), s))
      else if propagation = ''NESTED'' then
        (case existing of
           Some t \<Rightarrow>
             (let sp = ''SP_'' @ se_ID (xs_se s)
              in case xcall (tx_Savepoint ops t sp) s of
                   (Some e, s1) \<Rightarrow> (Inl (NewBatchError ''simple_executor''
                       (''Propagation NESTED: Failed to create savepoint '' @ quoted sp @ '' for Worker Step '' @ quoted name)
                       (Some e) False False), s1)
                 | (None, s1) \<Rightarrow> (Inr ((joined existing)\<lparr>pl_savepoint := Some sp\<rparr>), xlog (ExSavepoint t sp) s1))
         | None \<Rightarrow> begin_new ops opts ''Failed to begin new transaction for Worker Step '' s)
      else (Inl (NewBatchErrorf ''simple_executor'' ''Unsupported transaction propagation attribute: %s''
              [ArgStr propagation]), s))"

section \<open>After the step\<close>

definition finish_tx :: "'w tx_ops \<Rightarrow> tx_plan \<Rightarrow> string \<Rightarrow> goerr option \<Rightarrow> 'w exstate \<Rightarrow>
    goerr option \<times> 'w exstate" where
  "finish_tx ops pl propagation err s =
     (let name = se_StepName (xs_se s) in
      case (pl_started pl, pl_tx pl) of
        (True, Some t) \<Rightarrow> (case err of
            Some e \<Rightarrow> (Some (NewBatchError ''partition_worker'' (''Worker Step '' @ quoted name @ '' execution failed'')
                (Some e) False False), snd (xcall (tx_Rollback ops t) (xlog (ExRollback t) s)))
          | None \<Rightarrow> (case xcall (tx_Commit ops t) (xlog (ExCommit t) s) of
                (Some ce, s1) \<Rightarrow> (Some (NewBatchError ''simple_executor''
                    (''Failed to commit transaction for Worker Step '' @ quoted name) (Some ce) False False), s1)
              | (None, s1) \<Rightarrow> (None, s1)))
      | (False, Some t) \<Rightarrow> (case (if propagation = ''NESTED'' then err else None, pl_savepoint pl) of
            (Some e, Some sp) \<Rightarrow> (case xcall (tx_RollbackToSavepoint ops t sp) (xlog (ExRollbackTo t sp) s) of
                (Some re, s1) \<Rightarrow> (Some (JoinError [e, re]), s1)
              | (None, s1) \<Rightarrow> (Some e, s1))
          | _ \<Rightarrow> (None, s))
      | _ \<Rightarrow> (None, s))"

text \<open>\<open>None\<close>: a panic. A chunk step begins its own transactions.\<close>

definition ExecuteStep :: "'w tx_ops \<Rightarrow> 'w worker_step \<Rightarrow> nat option \<Rightarrow> 'w exstate \<Rightarrow>
    (goerr option \<times> 'w exstate) option" where
  "ExecuteStep ops wk existing s = (case step_tx_options (wk_options wk) of
       None \<Rightarrow> None
     | Some (opts, propagation) \<Rightarrow>
         (case (if wk_isChunkStep wk then (Inr (no_tx\<lparr>pl_ctx := existing\<rparr>), s)
                else plan_tx ops opts propagation existing s) of
            (Inl e, s1) \<Rightarrow> Some (Some e, s1)
          | (Inr pl, s1) \<Rightarrow> (case xcall (wk_Execute wk (pl_ctx pl) (xs_se s1)) s1 of
              ((err, se), s2) \<Rightarrow>
                Some (finish_tx ops pl propagation err (xlog (ExRan (pl_ctx pl) err) (s2\<lparr>xs_se := se\<rparr>))))))"

section \<open>The remote executor\<close>

definition remote_ExecuteStep ::
  "(StepExecution \<Rightarrow> 'w \<Rightarrow> (goerr + string) \<times> 'w) \<Rightarrow>
   (string \<Rightarrow> StepExecution \<Rightarrow> 'w \<Rightarrow> (goerr option \<times> StepExecution) \<times> 'w) \<Rightarrow>
   StepExecution \<Rightarrow> 'w \<Rightarrow> (goerr option \<times> StepExecution) \<times> 'w" where
  "remote_ExecuteStep submit await se w = (case submit se w of
       (Inl e, w1) \<Rightarrow> ((Some (WrapError (''failed to submit remote worker: '' @ Error_text e) e), se), w1)
     | (Inr remoteJobID, w1) \<Rightarrow> (case await remoteJobID se w1 of
         ((Some e, se1), w2) \<Rightarrow> ((Some (WrapError
             (''an error occurred while waiting for remote worker completion: '' @ Error_text e) e), se1), w2)
       | ((None, se1), w2) \<Rightarrow> ((None, se1), w2)))"

section \<open>The transactions of a run\<close>

lemma xcall_log [simp]: "xcall f s = (r, s') \<Longrightarrow> xs_log s' = xs_log s" "xcall f s = (r, s') \<Longrightarrow> xs_se s' = xs_se s"
  by (auto simp: xcall_def split: prod.splits)

lemma xlog_fields [simp]: "xs_log (xlog e s) = xs_log s @ [e]" "xs_se (xlog e s) = xs_se s" "xs_world (xlog e s) = xs_world s"
  by (simp_all add: xlog_def)

lemma snd_xcall_log [simp]: "xs_log (snd (xcall f s)) = xs_log s"
  by (simp add: xcall_def split: prod.splits)

text \<open>What the plan of a propagation is: the log it writes before the step.\<close>

lemma plan_tx_spec:
  assumes "plan_tx ops opts propagation existing s = (r, s')"
  shows "case r of Inl e \<Rightarrow> xs_log s' = xs_log s
    | Inr pl \<Rightarrow>
        (pl_started pl \<and> (\<exists>t. pl_tx pl = Some t \<and> pl_ctx pl = Some t \<and> xs_log s' = xs_log s @ [ExBegin t])
           \<and> (propagation = ''REQUIRES_NEW'' \<or> existing = None \<and> propagation \<in> {''REQUIRED'', [], ''NESTED''}))
      \<or> (\<not> pl_started pl \<and> pl_tx pl = pl_ctx pl \<and> pl_ctx pl \<in> {existing, None}
           \<and> (case pl_savepoint pl of
                None \<Rightarrow> xs_log s' = xs_log s \<and> (pl_tx pl \<noteq> None \<longrightarrow> propagation \<noteq> ''NESTED'')
              | Some sp \<Rightarrow> propagation = ''NESTED'' \<and> (\<exists>t. existing = Some t \<and> pl_tx pl = Some t
                  \<and> xs_log s' = xs_log s @ [ExSavepoint t sp])))"
  using assms
  by (auto simp: plan_tx_def begin_new_def joined_def no_tx_def Let_def
      split: if_splits option.splits prod.splits sum.splits)

text \<open>What the end of the three plans does.\<close>

lemma finish_started:
  assumes "finish_tx ops pl p err s = (r, s')" "pl_started pl" "pl_tx pl = Some t"
  shows "(err \<noteq> None \<longrightarrow> r \<noteq> None) \<and> xs_log s' = xs_log s @ [if err = None then ExCommit t else ExRollback t]"
proof (cases err)
  case None
  obtain q s1 where c: "xcall (tx_Commit ops t) (xlog (ExCommit t) s) = (q, s1)" by fastforce
  have "xs_log s1 = xs_log s @ [ExCommit t]" using xcall_log(1)[OF c] by simp
  moreover have "s' = s1" using assms c None by (cases q) (simp_all add: finish_tx_def Let_def)
  ultimately show ?thesis using None by simp
next
  case (Some e)
  have "s' = snd (xcall (tx_Rollback ops t) (xlog (ExRollback t) s)) \<and> r \<noteq> None"
    using assms Some by (auto simp: finish_tx_def Let_def)
  then show ?thesis using Some by simp
qed

lemma finish_joined:
  "finish_tx ops pl p err s = (r, s') \<Longrightarrow> \<not> pl_started pl \<Longrightarrow> pl_savepoint pl = None \<Longrightarrow> r = None \<and> s' = s"
  by (cases "pl_tx pl") (simp_all add: finish_tx_def Let_def split: option.splits)

lemma finish_nested:
  assumes "finish_tx ops pl ''NESTED'' err s = (r, s')" "\<not> pl_started pl" "pl_tx pl = Some t" "pl_savepoint pl = Some sp"
  shows "(r = None \<longleftrightarrow> err = None) \<and> xs_log s' = xs_log s @ (if err = None then [] else [ExRollbackTo t sp])"
proof (cases err)
  case None
  then show ?thesis using assms by (simp add: finish_tx_def Let_def)
next
  case (Some e)
  obtain q s1 where c: "xcall (tx_RollbackToSavepoint ops t sp) (xlog (ExRollbackTo t sp) s) = (q, s1)" by fastforce
  have "xs_log s1 = xs_log s @ [ExRollbackTo t sp]" using xcall_log(1)[OF c] by simp
  moreover have "s' = s1 \<and> r \<noteq> None" using assms c Some by (cases q) (auto simp add: finish_tx_def Let_def)
  ultimately show ?thesis using Some by simp
qed

text \<open>A step whose options are nil, as those of a partition step are, cannot be a worker.\<close>

lemma nil_options_panic:
  "ExecuteStep ops wk existing s = None \<longleftrightarrow>
     wk_options wk = OptionsOnly None \<or> (\<exists>p. wk_options wk = OptionsAndPropagation None p)"
proof -
  have "step_tx_options (wk_options wk) = None \<longleftrightarrow>
     wk_options wk = OptionsOnly None \<or> (\<exists>p. wk_options wk = OptionsAndPropagation None p)"
    by (cases "wk_options wk" rule: step_tx_options.cases) auto
  then show ?thesis by (auto simp: ExecuteStep_def split: option.splits prod.splits sum.splits)
qed

text \<open>
  C13: the executor begins at most one transaction, runs the step at most once, and ends what it
  began: it commits after a success and rolls back after a failure, inside the transaction that
  the step ran in. A step that joins the caller's transaction, or runs without one, is neither
  committed nor rolled back, and its error is not returned; only under \<open>NESTED\<close> a failure rolls
  back to the savepoint and is returned. A step that is not run is an error.
\<close>

theorem executor_transactions:
  assumes "ExecuteStep ops wk existing s = Some (r, s')" "xs_log s = []"
  shows "(xs_log s' = [] \<and> r \<noteq> None)
    \<or> (\<exists>t err. \<not> wk_isChunkStep wk \<and> (err \<noteq> None \<longrightarrow> r \<noteq> None)
         \<and> xs_log s' = [ExBegin t, ExRan (Some t) err, if err = None then ExCommit t else ExRollback t])
    \<or> (\<exists>c err. c \<in> {existing, None} \<and> xs_log s' = [ExRan c err] \<and> r = None)
    \<or> (\<exists>t sp err. existing = Some t \<and> (r = None \<longleftrightarrow> err = None)
         \<and> xs_log s' = [ExSavepoint t sp, ExRan (Some t) err] @ (if err = None then [] else [ExRollbackTo t sp]))"
proof -
  obtain opts propagation where o: "step_tx_options (wk_options wk) = Some (opts, propagation)"
    using assms(1) by (auto simp: ExecuteStep_def split: option.splits)
  obtain q s1 where q: "(if wk_isChunkStep wk then (Inr (no_tx\<lparr>pl_ctx := existing\<rparr>), s)
                else plan_tx ops opts propagation existing s) = (q, s1)" by fastforce
  show ?thesis
  proof (cases q)
    case (Inl e)
    then have "plan_tx ops opts propagation existing s = (Inl e, s1)" using q by (auto split: if_splits)
    then show ?thesis using assms o q Inl plan_tx_spec[of ops opts propagation existing s "Inl e" s1]
      by (auto simp: ExecuteStep_def)
  next
    case (Inr pl)
    obtain err se s2 where x: "xcall (wk_Execute wk (pl_ctx pl) (xs_se s1)) s1 = ((err, se), s2)"
      by (metis surj_pair)
    let ?s3 = "xlog (ExRan (pl_ctx pl) err) (s2\<lparr>xs_se := se\<rparr>)"
    have f: "finish_tx ops pl propagation err ?s3 = (r, s')"
      using assms(1) o q Inr x by (auto simp: ExecuteStep_def split: prod.splits)
    have l3: "xs_log ?s3 = xs_log s1 @ [ExRan (pl_ctx pl) err]" using xcall_log(1)[OF x] by simp
    show ?thesis
    proof (cases "wk_isChunkStep wk")
      case True
      then have "pl = no_tx\<lparr>pl_ctx := existing\<rparr>" "s1 = s" using q Inr by auto
      then have "r = None" "xs_log s' = [ExRan existing err]"
        using f l3 assms(2) by (auto simp: finish_tx_def no_tx_def Let_def)
      then show ?thesis by blast
    next
      case False
      then have "plan_tx ops opts propagation existing s = (Inr pl, s1)" using q Inr by simp
      from plan_tx_spec[OF this] consider
        (new) t where "pl_started pl" "pl_tx pl = Some t" "pl_ctx pl = Some t" "xs_log s1 = [ExBegin t]"
        | (none) "\<not> pl_started pl" "pl_ctx pl \<in> {existing, None}" "xs_log s1 = []"
            "pl_savepoint pl = None"
        | (nested) t sp where "\<not> pl_started pl" "pl_savepoint pl = Some sp" "propagation = ''NESTED''"
            "existing = Some t" "pl_tx pl = Some t" "pl_ctx pl = Some t" "xs_log s1 = [ExSavepoint t sp]"
        using assms(2) by (cases "pl_savepoint pl") auto
      then show ?thesis
      proof cases
        case new
        have "xs_log ?s3 = [ExBegin t, ExRan (Some t) err]" using l3 new(3,4) by simp
        then show ?thesis using finish_started[OF f new(1,2)] False by auto
      next
        case none
        have "r = None" "xs_log s' = [ExRan (pl_ctx pl) err]"
          using finish_joined[OF f none(1,4)] l3 none(3) by simp_all
        then show ?thesis using none(2) by blast
      next
        case nested
        have "xs_log ?s3 = [ExSavepoint t sp, ExRan (Some t) err]" using l3 nested(6,7) by simp
        then show ?thesis using finish_nested[OF f[unfolded nested(3)] nested(1,5,2)] nested(4) by auto
      qed
    qed
  qed
qed

definition demo_tx :: "nat tx_ops" where
  "demo_tx = \<lparr>tx_Begin = \<lambda>opts w. (Inr w, w + 1), tx_Commit = \<lambda>t w. (None, w), tx_Rollback = \<lambda>t w. (None, w),
     tx_Savepoint = \<lambda>t sp w. (None, w), tx_RollbackToSavepoint = \<lambda>t sp w. (None, w)\<rparr>"

definition demo_worker :: "string \<Rightarrow> goerr option \<Rightarrow> nat worker_step" where
  "demo_worker propagation err = \<lparr>wk_isChunkStep = False,
     wk_options = OptionsAndPropagation (Some (LevelDefault, False)) propagation,
     wk_Execute = \<lambda>tx se w. ((err, se), w)\<rparr>"

lemma executor_transactions_witness:
  "\<exists>r s'. ExecuteStep demo_tx (demo_worker ''NESTED'' (Some (plain_error ''boom''))) (Some 4)
       \<lparr>xs_world = 9, xs_se = zero_StepExecution\<lparr>se_ID := ''w''\<rparr>, xs_log = []\<rparr> = Some (r, s')
     \<and> r \<noteq> None \<and> ExRollbackTo 4 ''SP_w'' \<in> set (xs_log s')"
proof -
  let ?s = "\<lparr>xs_world = 9, xs_se = zero_StepExecution\<lparr>se_ID := ''w''\<rparr>, xs_log = []\<rparr> :: nat exstate"
  have "map_option (\<lambda>(r, s'). xs_log s')
      (ExecuteStep demo_tx (demo_worker ''NESTED'' (Some (plain_error ''boom''))) (Some 4) ?s)
    = Some [ExSavepoint 4 ''SP_w'', ExRan (Some 4) (Some (plain_error ''boom'')), ExRollbackTo 4 ''SP_w'']"
    by (simp add: ExecuteStep_def demo_tx_def demo_worker_def plan_tx_def joined_def xcall_def xlog_def
        finish_tx_def Let_def)
  then obtain r s' where e: "ExecuteStep demo_tx (demo_worker ''NESTED'' (Some (plain_error ''boom''))) (Some 4) ?s = Some (r, s')"
    and l: "xs_log s' = [ExSavepoint 4 ''SP_w'', ExRan (Some 4) (Some (plain_error ''boom'')), ExRollbackTo 4 ''SP_w'']"
    by auto
  have "xs_log ?s = []" by simp
  from executor_transactions[OF e this] have "r \<noteq> None" using l by (auto split: if_splits)
  then show ?thesis using e l by auto
qed

end
