(* ===== verification/Partition_Step.thy ===== *)
theory Partition_Step
  imports Flow_Job Step_Executor "HOL-Library.Multiset"
begin

text \<open>
  \<open>engine/step/partition/partition_step.go\<close>: the controller that runs a worker step once per
  partition. The main goroutine creates and saves the workers one after the other; each worker
  is a goroutine that takes a slot of the semaphore, runs and reports. \<open>part_step\<close> is the
  interleaving of them all: a worker's run is one step, which starts when its slot is taken and
  ends when it reports. The run of one worker is \<open>ExecuteStep\<close> of a step executor.
\<close>

section \<open>The aggregated status\<close>

text \<open>The loops over the worker executions: the flags, and whether every status is a terminal one.\<close>

definition has_failed :: "StepExecution list \<Rightarrow> bool" where
  "has_failed ses \<longleftrightarrow> list_ex (\<lambda>se. se_Status se = FAILED \<or> se_Status se = ABANDONED) ses"

definition has_stopped :: "StepExecution list \<Rightarrow> bool" where
  "has_stopped ses \<longleftrightarrow> list_ex (\<lambda>se. se_Status se = STOPPED) ses"

definition has_cancelled :: "StepExecution list \<Rightarrow> bool" where
  "has_cancelled ses \<longleftrightarrow> list_ex (\<lambda>se. se_Status se = CANCELLED) ses"

definition determineAggregatedStatus :: "StepExecution list \<Rightarrow> JobStatus \<times> ExitStatus" where
  "determineAggregatedStatus ses =
     (if list_ex (\<lambda>se. se_Status se \<noteq> COMPLETED \<and> se_Status se \<noteq> FAILED \<and> se_Status se \<noteq> STOPPED
                     \<and> se_Status se \<noteq> CANCELLED \<and> se_Status se \<noteq> ABANDONED) ses
      then (FAILED, ExitFailed)
      else if has_failed ses then (FAILED, ExitFailed)
      else if has_stopped ses \<or> has_cancelled ses then (STOPPED, ExitStopped)
      else (COMPLETED, ExitCompleted))"

section \<open>Aggregation\<close>

text \<open>The entries of one worker's context, in the order its map is visited; a key that is taken.\<close>

fun merge_worker :: "ec \<Rightarrow> ec \<Rightarrow> string + ec" where
  "merge_worker [] acc = Inr acc"
| "merge_worker ((k, v) # kvs) acc =
     (if k = ''partition.name'' then merge_worker kvs acc
      else if gm_get acc k \<noteq> None then Inl k
      else merge_worker kvs (gm_put k v acc))"

record aggregate =
  ag_read :: int
  ag_write :: int
  ag_failures :: "string list"
  ag_ec :: ec

text \<open>The loop over the sorted workers: the key of an early return, with the failures so far.\<close>

fun aggregate_loop :: "StepExecution list \<Rightarrow> aggregate \<Rightarrow> (string \<times> aggregate) + aggregate" where
  "aggregate_loop [] ag = Inr ag"
| "aggregate_loop (se # ses) ag =
     (let ag1 = ag\<lparr>ag_read := ag_read ag + se_ReadCount se, ag_write := ag_write ag + se_WriteCount se,
                   ag_failures := (if se_Status se = FAILED then ag_failures ag @ se_Failures se else ag_failures ag)\<rparr>
      in case merge_worker (se_ExecutionContext se) (ag_ec ag1) of
           Inl k \<Rightarrow> Inl (k, ag1)
         | Inr ec \<Rightarrow> aggregate_loop ses (ag1\<lparr>ag_ec := ec\<rparr>))"

section \<open>The controller\<close>

record 'w partition_step =
  pt_id :: string
  pt_worker_name :: string
  pt_gridSize :: int
  pt_concurrency :: int
  pt_promotion :: "ExecutionContextPromotion option"
  pt_Partition :: "int \<Rightarrow> 'w \<Rightarrow> (goerr + (string, ec) gomap) \<times> 'w"
  pt_ExecuteStep :: "StepExecution \<Rightarrow> 'w \<Rightarrow> (goerr option \<times> StepExecution) \<times> 'w"
  pt_SaveStepExecution :: "StepExecution \<Rightarrow> 'w \<Rightarrow> goerr option \<times> 'w"
  pt_UpdateStepExecution :: "StepExecution \<Rightarrow> 'w \<Rightarrow> (goerr option \<times> StepExecution) \<times> 'w"
  pt_ctxErr :: "'w \<Rightarrow> goerr option"
  pt_Now :: "'w \<Rightarrow> time \<times> 'w"
  pt_NewID :: "'w \<Rightarrow> string \<times> 'w"

datatype pt_event = PtBeforeStep | PtAfterStep | PtPersisted StepExecution

record 'w pstate =
  ps_world :: 'w
  ps_je :: JobExecution
  ps_controller :: StepExecution
  ps_pending :: "(string, ec) gomap"
  ps_waiting :: "StepExecution list"
  ps_running :: "StepExecution list"
  ps_errs :: "goerr list"
  ps_done :: "StepExecution list"
  ps_log :: "pt_event list"

definition pcall :: "('w \<Rightarrow> 'r \<times> 'w) \<Rightarrow> 'w pstate \<Rightarrow> 'r \<times> 'w pstate" where
  "pcall f s = (case f (ps_world s) of (r, w) \<Rightarrow> (r, s\<lparr>ps_world := w\<rparr>))"

definition plog :: "pt_event \<Rightarrow> 'w pstate \<Rightarrow> 'w pstate" where
  "plog e s = s\<lparr>ps_log := ps_log s @ [e]\<rparr>"

definition pt_persist :: "'w partition_step \<Rightarrow> 'w pstate \<Rightarrow> goerr option \<times> 'w pstate" where
  "pt_persist st s = (case pcall (pt_UpdateStepExecution st (ps_controller s)) s of
       ((Some e, se), s1) \<Rightarrow> (Some e, s1\<lparr>ps_controller := se\<rparr>)
     | ((None, se), s1) \<Rightarrow> (None, plog (PtPersisted se) (s1\<lparr>ps_controller := se\<rparr>)))"

text \<open>Up to the loop over the partitions; \<open>Some e\<close> is an early return.\<close>

definition partition_start :: "'w partition_step \<Rightarrow> 'w pstate \<Rightarrow> goerr option \<times> 'w pstate" where
  "partition_start st s = (case pcall (pt_Now st) s of (now, s0) \<Rightarrow>
     (case pt_persist st (s0\<lparr>ps_controller := StepExecution_MarkAsStarted now (ps_controller s0)\<rparr>) of
        (Some e, s1) \<Rightarrow> (Some (NewBatchError (pt_id st) ''Failed to update Controller StepExecution status to STARTED''
            (Some e) False False), s1)
      | (None, s1) \<Rightarrow> (case pcall (pt_Partition st (pt_gridSize st)) (plog PtBeforeStep s1) of
          (Inl e, s2) \<Rightarrow> (case pcall (pt_Now st) s2 of (now2, s3) \<Rightarrow>
             (Some (NewBatchError (pt_id st) ''Failed to execute Partitioner'' (Some e) False False),
              plog PtAfterStep (snd (pt_persist st
                (s3\<lparr>ps_controller := StepExecution_MarkAsFailed now2 e (ps_controller s3)\<rparr>)))))
        | (Inr parts, s2) \<Rightarrow> (None, s2\<lparr>ps_pending := parts, ps_waiting := [], ps_running := [], ps_errs := [], ps_done := []\<rparr>))))"

section \<open>The goroutines\<close>

text \<open>The main goroutine makes the next worker: saved and started, or an error and no worker.\<close>

definition spawn_worker :: "'w partition_step \<Rightarrow> 'w pstate \<Rightarrow> 'w pstate" where
  "spawn_worker st s = (case ps_pending s of
       [] \<Rightarrow> s
     | (name, ec) # rest \<Rightarrow>
         (case pcall (pt_NewID st) (s\<lparr>ps_pending := rest\<rparr>) of (newID, s1) \<Rightarrow>
         (case pcall (pt_Now st) s1 of (now, s2) \<Rightarrow>
           (let se = (NewStepExecution now newID (ps_je s2) (pt_worker_name st))\<lparr>se_ExecutionContext := ec\<rparr>
            in case pcall (pt_SaveStepExecution st se) (s2\<lparr>ps_je := AddStepExecution se (ps_je s2)\<rparr>) of
                 (Some e, s3) \<Rightarrow> s3\<lparr>ps_errs := ps_errs s3 @ [NewBatchError (pt_id st)
                     (''Failed to save Worker StepExecution '' @ newID) (Some e) False False]\<rparr>
               | (None, s3) \<Rightarrow> s3\<lparr>ps_waiting := ps_waiting s3 @ [se]\<rparr>))))"

text \<open>The semaphore exists when the concurrency is positive.\<close>

definition slot_free :: "'w partition_step \<Rightarrow> 'w pstate \<Rightarrow> bool" where
  "slot_free st s \<longleftrightarrow> pt_concurrency st \<le> 0 \<or> int (length (ps_running s)) < pt_concurrency st"

text \<open>The worker is a pointer: what becomes of it is seen in the job execution.\<close>

definition report :: "StepExecution \<Rightarrow> 'w pstate \<Rightarrow> 'w pstate" where
  "report se s = s\<lparr>ps_done := ps_done s @ [se],
     ps_je := (ps_je s)\<lparr>je_StepExecutions :=
       map (\<lambda>x. if se_ID x = se_ID se then se else x) (je_StepExecutions (ps_je s))\<rparr>\<rparr>"

text \<open>\<open>Acquire\<close> fails with the error of the context.\<close>

definition acquire_failed :: "'w partition_step \<Rightarrow> goerr \<Rightarrow> StepExecution \<Rightarrow> 'w pstate \<Rightarrow> 'w pstate" where
  "acquire_failed st e se s =
     (if errors_Is e context_Canceled
      then report (se\<lparr>se_Status := CANCELLED, se_ExitStatus := ExitStopped\<rparr>) (s\<lparr>ps_errs := ps_errs s @ [e]\<rparr>)
      else (case pcall (pt_Now st) s of (now, s1) \<Rightarrow>
              report (StepExecution_MarkAsFailed now e se) (s1\<lparr>ps_errs := ps_errs s1 @ [e]\<rparr>)))"

definition run_worker :: "'w partition_step \<Rightarrow> StepExecution \<Rightarrow> 'w pstate \<Rightarrow> 'w pstate" where
  "run_worker st se s = (case pcall (pt_ExecuteStep st se) s of
       ((None, se1), s1) \<Rightarrow> report se1 s1
     | ((Some e, se1), s1) \<Rightarrow>
         if errors_Is e context_Canceled
         then report (se1\<lparr>se_Status := CANCELLED, se_ExitStatus := ExitStopped\<rparr>) s1
         else (case pcall (pt_Now st) s1 of (now, s2) \<Rightarrow>
                 report (StepExecution_MarkAsFailed now e se1) (s2\<lparr>ps_errs := ps_errs s2 @ [e]\<rparr>)))"

inductive part_step :: "'w partition_step \<Rightarrow> 'w pstate \<Rightarrow> 'w pstate \<Rightarrow> bool" for st where
  Spawn: "ps_pending s \<noteq> [] \<Longrightarrow> part_step st s (spawn_worker st s)"
| Acquire: "ps_waiting s = xs @ se # ys \<Longrightarrow> slot_free st s \<Longrightarrow>
    part_step st s (s\<lparr>ps_waiting := xs @ ys, ps_running := ps_running s @ [se]\<rparr>)"
| AcquireFailed: "ps_waiting s = xs @ se # ys \<Longrightarrow> 0 < pt_concurrency st \<Longrightarrow> pt_ctxErr st (ps_world s) = Some e \<Longrightarrow>
    part_step st s (acquire_failed st e se (s\<lparr>ps_waiting := xs @ ys\<rparr>))"
| Finish: "ps_running s = xs @ se # ys \<Longrightarrow>
    part_step st s (run_worker st se (s\<lparr>ps_running := xs @ ys\<rparr>))"

text \<open>\<open>wg.Wait\<close> returns.\<close>

definition all_finished :: "'w pstate \<Rightarrow> bool" where
  "all_finished s \<longleftrightarrow> ps_pending s = [] \<and> ps_waiting s = [] \<and> ps_running s = []"

section \<open>The end\<close>

definition promoteExecutionContext :: "'w partition_step \<Rightarrow> 'w pstate \<Rightarrow> 'w pstate" where
  "promoteExecutionContext st s = (case pt_promotion st of
       None \<Rightarrow> s
     | Some p \<Rightarrow> s\<lparr>ps_je := (ps_je s)\<lparr>je_ExecutionContext :=
           promote p (se_ExecutionContext (ps_controller s)) (je_ExecutionContext (ps_je s))\<rparr>\<rparr>)"

definition set_final :: "'w partition_step \<Rightarrow> JobStatus \<Rightarrow> goerr option \<Rightarrow> 'w pstate \<Rightarrow>
    goerr option \<times> 'w pstate" where
  "set_final st status err s = (case pcall (pt_Now st) s of (now, s1) \<Rightarrow>
     (if status = FAILED
      then (let wrapped = NewBatchError (pt_id st) ''one or more partitions failed''
                  (Some (case err of None \<Rightarrow> plain_error ''one or more partitions failed'' | Some e \<Rightarrow> e)) False False
            in (Some wrapped, s1\<lparr>ps_controller := StepExecution_MarkAsFailed now wrapped (ps_controller s1)\<rparr>))
      else if status = STOPPED
      then (None, s1\<lparr>ps_controller := StepExecution_MarkAsStopped now (ps_controller s1)\<rparr>)
      else (err, s1\<lparr>ps_controller := StepExecution_MarkAsCompleted now (ps_controller s1)\<rparr>)))"

definition partition_finish :: "'w partition_step \<Rightarrow> 'w pstate \<Rightarrow> goerr option \<times> 'w pstate" where
  "partition_finish st s =
     (let workers = sort_key se_ID (ps_done s);
          combinedError = join_errors None (ps_errs s);
          final = determineAggregatedStatus workers
      in case aggregate_loop workers \<lparr>ag_read = 0, ag_write = 0, ag_failures = [], ag_ec = NewExecutionContext\<rparr> of
           Inl (k, ag) \<Rightarrow> (Some (NewBatchError (pt_id st) (''duplicate ExecutionContext key found: '' @ k) None False False),
               s\<lparr>ps_controller := (ps_controller s)\<lparr>se_Failures := se_Failures (ps_controller s) @ ag_failures ag\<rparr>\<rparr>)
         | Inr ag \<Rightarrow>
             (let ce = (ps_controller s)\<lparr>se_Failures := se_Failures (ps_controller s) @ ag_failures ag,
                         se_ReadCount := ag_read ag, se_WriteCount := ag_write ag, se_ExecutionContext := ag_ec ag,
                         se_Status := fst final, se_ExitStatus := snd final\<rparr>
              in case set_final st (fst final) combinedError (s\<lparr>ps_controller := ce\<rparr>) of
                   (err, s1) \<Rightarrow> (case pt_persist st (plog PtAfterStep (promoteExecutionContext st s1)) of
                     (updateErr, s2) \<Rightarrow> ((case err of None \<Rightarrow> updateErr | Some e \<Rightarrow> Some e), s2))))"

inductive PartitionStep_Execute ::
  "'w partition_step \<Rightarrow> 'w pstate \<Rightarrow> goerr option \<Rightarrow> 'w pstate \<Rightarrow> bool" for st where
  EarlyReturn: "partition_start st s = (Some e, s') \<Longrightarrow> PartitionStep_Execute st s (Some e) s'"
| Partitioned: "partition_start st s = (None, s1) \<Longrightarrow> (part_step st)\<^sup>*\<^sup>* s1 s2 \<Longrightarrow> all_finished s2 \<Longrightarrow>
    partition_finish st s2 = (r, s') \<Longrightarrow> PartitionStep_Execute st s r s'"

inductive_cases part_step_elims: "part_step st s s'"
inductive_cases execute_elims: "PartitionStep_Execute st s r s'"

section \<open>The failure matrix\<close>

text \<open>The order of the outcomes of a worker, and the outcome a status counts as.\<close>

datatype severity = SevCompleted | SevStopped | SevFailed

instantiation severity :: linorder
begin

fun sev_rank :: "severity \<Rightarrow> nat" where
  "sev_rank SevCompleted = 0"
| "sev_rank SevStopped = 1"
| "sev_rank SevFailed = 2"

definition less_eq_severity :: "severity \<Rightarrow> severity \<Rightarrow> bool" where
  "less_eq_severity a b \<longleftrightarrow> sev_rank a \<le> sev_rank b"

definition less_severity :: "severity \<Rightarrow> severity \<Rightarrow> bool" where
  "less_severity a b \<longleftrightarrow> sev_rank a < sev_rank b"

instance
proof
  fix x y z :: severity
  show "x < y \<longleftrightarrow> x \<le> y \<and> \<not> y \<le> x" by (auto simp: less_eq_severity_def less_severity_def)
  show "x \<le> x" by (simp add: less_eq_severity_def)
  show "x \<le> y \<Longrightarrow> y \<le> z \<Longrightarrow> x \<le> z" by (simp add: less_eq_severity_def)
  show "x \<le> y \<Longrightarrow> y \<le> x \<Longrightarrow> x = y" by (cases x; cases y) (auto simp: less_eq_severity_def)
  show "x \<le> y \<or> y \<le> x" by (auto simp: less_eq_severity_def)
qed

end

fun severity_of :: "JobStatus \<Rightarrow> severity" where
  "severity_of COMPLETED = SevCompleted"
| "severity_of STOPPED = SevStopped"
| "severity_of CANCELLED = SevStopped"
| "severity_of _ = SevFailed"

fun severity_status :: "severity \<Rightarrow> JobStatus \<times> ExitStatus" where
  "severity_status SevCompleted = (COMPLETED, ExitCompleted)"
| "severity_status SevStopped = (STOPPED, ExitStopped)"
| "severity_status SevFailed = (FAILED, ExitFailed)"

definition worst :: "StepExecution list \<Rightarrow> severity" where
  "worst ses = fold (\<lambda>se. max (severity_of (se_Status se))) ses SevCompleted"

lemma fold_max_ge: "(a :: severity) \<le> fold (\<lambda>x. max (f x)) xs b \<longleftrightarrow> a \<le> b \<or> (\<exists>x\<in>set xs. a \<le> f x)"
  by (induction xs arbitrary: b) (auto simp: le_max_iff_disj)

lemma severity_cases:
  "s = SevFailed \<longleftrightarrow> SevFailed \<le> s" "s = SevCompleted \<longleftrightarrow> \<not> SevStopped \<le> s"
  by (cases s; simp add: less_eq_severity_def)+

lemma severity_of_ge:
  "SevFailed \<le> severity_of st \<longleftrightarrow> st \<notin> {COMPLETED, STOPPED, CANCELLED}"
  "SevStopped \<le> severity_of st \<longleftrightarrow> st \<noteq> COMPLETED"
  by (cases st; simp add: less_eq_severity_def)+

lemma aggregated_is_worst: "determineAggregatedStatus ses = severity_status (worst ses)"
proof -
  have f: "worst ses = SevFailed \<longleftrightarrow> (\<exists>se\<in>set ses. se_Status se \<notin> {COMPLETED, STOPPED, CANCELLED})"
    unfolding severity_cases(1) worst_def fold_max_ge severity_of_ge by (simp add: less_eq_severity_def)
  have c: "worst ses = SevCompleted \<longleftrightarrow> (\<forall>se\<in>set ses. se_Status se = COMPLETED)"
    unfolding severity_cases(2) worst_def fold_max_ge severity_of_ge by (simp add: less_eq_severity_def)
  show ?thesis
  proof (cases "worst ses")
    case SevCompleted
    then show ?thesis using c
      by (auto simp: determineAggregatedStatus_def has_failed_def has_stopped_def has_cancelled_def list_ex_iff)
  next
    case SevStopped
    then have "\<forall>se\<in>set ses. se_Status se \<in> {COMPLETED, STOPPED, CANCELLED}"
      "\<exists>se\<in>set ses. se_Status se \<noteq> COMPLETED" using f c by auto
    then show ?thesis using SevStopped
      by (auto simp: determineAggregatedStatus_def has_failed_def has_stopped_def has_cancelled_def list_ex_iff)
  next
    case SevFailed
    then have "\<exists>se\<in>set ses. se_Status se \<notin> {COMPLETED, STOPPED, CANCELLED}" using f by blast
    then show ?thesis using SevFailed
      by (auto simp: determineAggregatedStatus_def has_failed_def list_ex_iff)
  qed
qed

lemma worst_mset: "mset ses' = mset ses \<Longrightarrow> worst ses' = worst ses"
proof -
  assume "mset ses' = mset ses"
  then have "set ses' = set ses" by (metis set_mset_mset)
  then have "a \<le> worst ses' \<longleftrightarrow> a \<le> worst ses" for a
    by (simp add: worst_def fold_max_ge)
  from this[of "worst ses'"] this[of "worst ses"] show ?thesis by simp
qed

lemma aggregated_mset: "mset ses' = mset ses \<Longrightarrow> determineAggregatedStatus ses' = determineAggregatedStatus ses"
  unfolding aggregated_is_worst by (drule worst_mset) (rule arg_cong)

text \<open>
  C14: the status of the controller is that of its worst worker, in the order completed, stopped,
  failed: a cancelled worker counts as stopped, an abandoned one and one whose status is not final
  as failed. Without workers it is completed.
\<close>

theorem aggregated_status_is_worst:
  "determineAggregatedStatus ses = severity_status (fold (\<lambda>se. max (severity_of (se_Status se))) ses SevCompleted)
   \<and> (\<forall>ses'. mset ses' = mset ses \<longrightarrow> determineAggregatedStatus ses' = determineAggregatedStatus ses)"
proof -
  have "determineAggregatedStatus ses' = determineAggregatedStatus ses" if "mset ses' = mset ses" for ses'
    by (rule aggregated_mset[OF that])
  then show ?thesis unfolding aggregated_is_worst[of ses] worst_def by blast
qed

lemma aggregated_status_is_worst_witness:
  "determineAggregatedStatus [zero_StepExecution\<lparr>se_Status := CANCELLED\<rparr>, zero_StepExecution\<lparr>se_Status := COMPLETED\<rparr>]
     = (STOPPED, ExitStopped)"
proof -
  let ?a = "zero_StepExecution\<lparr>se_Status := CANCELLED\<rparr>" and ?b = "zero_StepExecution\<lparr>se_Status := COMPLETED\<rparr>"
  have "determineAggregatedStatus [?a, ?b] = determineAggregatedStatus [?b, ?a]"
    using aggregated_status_is_worst[of "[?b, ?a]"] by (simp add: add_mset_commute)
  also have "\<dots> = (STOPPED, ExitStopped)" by code_simp
  finally show ?thesis .
qed

section \<open>The workers\<close>

lemma pcall_lists [simp]:
  "pcall f s = (r, s') \<Longrightarrow> ps_pending s' = ps_pending s" "pcall f s = (r, s') \<Longrightarrow> ps_waiting s' = ps_waiting s"
  "pcall f s = (r, s') \<Longrightarrow> ps_running s' = ps_running s" "pcall f s = (r, s') \<Longrightarrow> ps_done s' = ps_done s"
  "pcall f s = (r, s') \<Longrightarrow> ps_errs s' = ps_errs s" "pcall f s = (r, s') \<Longrightarrow> ps_log s' = ps_log s"
  "pcall f s = (r, s') \<Longrightarrow> ps_controller s' = ps_controller s" "pcall f s = (r, s') \<Longrightarrow> ps_je s' = ps_je s"
  by (auto simp: pcall_def split: prod.splits)

lemma report_lists [simp]:
  "ps_pending (report se s) = ps_pending s" "ps_waiting (report se s) = ps_waiting s"
  "ps_running (report se s) = ps_running s" "ps_done (report se s) = ps_done s @ [se]"
  "ps_errs (report se s) = ps_errs s" "ps_log (report se s) = ps_log s" "ps_controller (report se s) = ps_controller s"
  by (simp_all add: report_def)

lemma spawn_lists:
  "ps_pending s \<noteq> [] \<Longrightarrow> ps_pending (spawn_worker st s) = tl (ps_pending s)
     \<and> ps_running (spawn_worker st s) = ps_running s \<and> ps_done (spawn_worker st s) = ps_done s
     \<and> ((\<exists>se. ps_waiting (spawn_worker st s) = ps_waiting s @ [se] \<and> ps_errs (spawn_worker st s) = ps_errs s)
        \<or> (\<exists>e. ps_waiting (spawn_worker st s) = ps_waiting s \<and> ps_errs (spawn_worker st s) = ps_errs s @ [e]))"
  by (cases "ps_pending s") (auto simp: spawn_worker_def Let_def split: prod.splits option.splits)

lemma run_worker_lists:
  "ps_pending (run_worker st se s) = ps_pending s \<and> ps_waiting (run_worker st se s) = ps_waiting s
   \<and> ps_running (run_worker st se s) = ps_running s \<and> (\<exists>se'. ps_done (run_worker st se s) = ps_done s @ [se'])"
  by (auto simp: run_worker_def split: prod.splits option.splits)

lemma acquire_failed_lists:
  "ps_pending (acquire_failed st e se s) = ps_pending s \<and> ps_waiting (acquire_failed st e se s) = ps_waiting s
   \<and> ps_running (acquire_failed st e se s) = ps_running s \<and> (\<exists>se'. ps_done (acquire_failed st e se s) = ps_done s @ [se'])"
  by (auto simp: acquire_failed_def split: prod.splits)

definition work_left :: "'w pstate \<Rightarrow> nat" where
  "work_left s = 3 * length (ps_pending s) + 2 * length (ps_waiting s) + length (ps_running s)"

definition slots_ok :: "'w partition_step \<Rightarrow> 'w pstate \<Rightarrow> bool" where
  "slots_ok st s \<longleftrightarrow> 0 < pt_concurrency st \<longrightarrow> int (length (ps_running s)) \<le> pt_concurrency st"

definition worker_count :: "'w pstate \<Rightarrow> nat" where
  "worker_count s = length (ps_pending s) + length (ps_waiting s) + length (ps_running s) + length (ps_done s)"

text \<open>What one step does: less work is left, no slot too many is taken, and a worker is lost only with an error.\<close>

definition part_effect :: "'w partition_step \<Rightarrow> 'w pstate \<Rightarrow> 'w pstate \<Rightarrow> bool" where
  "part_effect st s s' \<longleftrightarrow> work_left s' < work_left s \<and> (slots_ok st s \<longrightarrow> slots_ok st s')
     \<and> worker_count s' \<le> worker_count s
     \<and> worker_count s + length (ps_errs s) \<le> worker_count s' + length (ps_errs s')"

lemma part_step_effect: "part_step st s s' \<Longrightarrow> part_effect st s s'"
proof (erule part_step_elims)
  assume "s' = spawn_worker st s" and p: "ps_pending s \<noteq> []"
  then have l: "ps_pending s' = tl (ps_pending s)" "ps_running s' = ps_running s" "ps_done s' = ps_done s"
    "length (ps_waiting s') = length (ps_waiting s) + 1 \<and> length (ps_errs s') = length (ps_errs s)
     \<or> length (ps_waiting s') = length (ps_waiting s) \<and> length (ps_errs s') = length (ps_errs s) + 1"
    using spawn_lists[OF p, of st] by fastforce+
  have "length (ps_pending s') + 1 = length (ps_pending s)" using l(1) p by simp
  then show ?thesis unfolding part_effect_def work_left_def slots_ok_def worker_count_def
    using l(2-4) by auto
next
  fix xs se ys assume s': "s' = s\<lparr>ps_waiting := xs @ ys, ps_running := ps_running s @ [se]\<rparr>"
    and w: "ps_waiting s = xs @ se # ys" and free: "slot_free st s"
  have l: "length (ps_waiting s) = length (ps_waiting s') + 1" "length (ps_running s') = length (ps_running s) + 1"
    "ps_pending s' = ps_pending s" "ps_done s' = ps_done s" "ps_errs s' = ps_errs s"
    unfolding s' w by simp_all
  have "slots_ok st s'" using free l(2) unfolding slots_ok_def slot_free_def by linarith
  then show ?thesis unfolding part_effect_def work_left_def worker_count_def l by simp
next
  fix xs se ys e
  let ?t = "s\<lparr>ps_waiting := xs @ ys\<rparr>"
  assume s': "s' = acquire_failed st e se ?t" and w: "ps_waiting s = xs @ se # ys"
  have "length (ps_errs s) \<le> length (ps_errs s')"
    unfolding s' by (auto simp: acquire_failed_def split: prod.splits)
  moreover have "ps_pending s' = ps_pending s" "length (ps_waiting s) = length (ps_waiting s') + 1"
    "ps_running s' = ps_running s" "length (ps_done s') = length (ps_done s) + 1"
    unfolding s' w using acquire_failed_lists[of st e se ?t] by auto
  ultimately show ?thesis unfolding part_effect_def work_left_def slots_ok_def worker_count_def by auto
next
  fix xs se ys
  let ?t = "s\<lparr>ps_running := xs @ ys\<rparr>"
  assume s': "s' = run_worker st se ?t" and w: "ps_running s = xs @ se # ys"
  have "length (ps_errs s) \<le> length (ps_errs s')"
    unfolding s' by (auto simp: run_worker_def split: prod.splits option.splits)
  moreover have "ps_pending s' = ps_pending s" "ps_waiting s' = ps_waiting s"
    "length (ps_running s) = length (ps_running s') + 1" "length (ps_done s') = length (ps_done s) + 1"
    unfolding s' w using run_worker_lists[of st se ?t] by auto
  ultimately show ?thesis unfolding part_effect_def work_left_def slots_ok_def worker_count_def by auto
qed

lemma part_step_progress: "\<not> all_finished s \<Longrightarrow> slots_ok st s \<Longrightarrow> \<exists>s'. part_step st s s'"
proof -
  assume n: "\<not> all_finished s" and k: "slots_ok st s"
  consider (pend) "ps_pending s \<noteq> []" | (run) se ys where "ps_running s = se # ys"
    | (wait) se ys where "ps_running s = []" "ps_waiting s = se # ys"
    using n by (cases "ps_running s"; cases "ps_waiting s") (auto simp: all_finished_def)
  then show ?thesis
  proof cases
    case pend
    then show ?thesis using part_step.Spawn by blast
  next
    case run
    then show ?thesis using part_step.Finish[of s "[]" se ys st] by auto
  next
    case wait
    then have "slot_free st s" by (auto simp add: slot_free_def)
    then show ?thesis using part_step.Acquire[of s "[]" se ys st] wait by auto
  qed
qed

lemma part_steps_effect:
  assumes "(part_step st ^^ n) s s'" "slots_ok st s"
  shows "n + work_left s' \<le> work_left s \<and> slots_ok st s' \<and> worker_count s' \<le> worker_count s
    \<and> worker_count s + length (ps_errs s) \<le> worker_count s' + length (ps_errs s')"
  using assms
proof (induction n arbitrary: s')
  case (Suc n)
  then obtain t where t: "(part_step st ^^ n) s t" "part_step st t s'" by auto
  from Suc.IH[OF t(1) Suc.prems(2)] part_step_effect[OF t(2)] show ?case
    by (auto simp: part_effect_def)
qed simp

text \<open>
  C10: however the goroutines interleave, never more workers run at once than the concurrency
  allows, a run of the partitions has at most three steps for each of them, and it never gets
  stuck before every worker has reported. A worker that has not reported at the end is one whose
  step execution could not be saved; there is an error for it.
\<close>

theorem partition_workers_bounded:
  assumes "(part_step st ^^ n) s s'" "ps_waiting s = []" "ps_running s = []" "ps_done s = []" "ps_errs s = []"
  shows "(0 < pt_concurrency st \<longrightarrow> int (length (ps_running s')) \<le> pt_concurrency st)
    \<and> n \<le> 3 * length (ps_pending s)
    \<and> (all_finished s' \<or> (\<exists>t. part_step st s' t))
    \<and> (all_finished s' \<longrightarrow> length (ps_done s') \<le> length (ps_pending s)
         \<and> length (ps_pending s) \<le> length (ps_done s') + length (ps_errs s'))"
proof -
  have "slots_ok st s" using assms(3) by (simp add: slots_ok_def)
  from part_steps_effect[OF assms(1) this] show ?thesis
    using part_step_progress[of s' st] assms(2-5)
    by (auto simp: slots_ok_def work_left_def worker_count_def all_finished_def)
qed

definition demo_partition :: "int \<Rightarrow> nat partition_step" where
  "demo_partition conc =
     \<lparr>pt_id = ''p'', pt_worker_name = ''w'', pt_gridSize = 2, pt_concurrency = conc, pt_promotion = None,
      pt_Partition = \<lambda>n w. (Inr [(''a'', []), (''b'', [])], w),
      pt_ExecuteStep = \<lambda>se w. ((None, StepExecution_MarkAsCompleted 9 se\<lparr>se_ReadCount := 5\<rparr>), w),
      pt_SaveStepExecution = \<lambda>se w. (None, w), pt_UpdateStepExecution = \<lambda>se w. ((None, se), w),
      pt_ctxErr = \<lambda>w. None, pt_Now = \<lambda>w. (9, w), pt_NewID = \<lambda>w. (nat_str w, w + 1)\<rparr>"

definition demo_pstate :: "nat pstate" where
  "demo_pstate = \<lparr>ps_world = 0, ps_je = NewJobExecution ''e'' 0 0 ''i'' ''j'' NewJobParameters,
     ps_controller = zero_StepExecution\<lparr>se_ID := ''c'', se_Status := STARTED\<rparr>,
     ps_pending = [(''a'', []), (''b'', [])], ps_waiting = [], ps_running = [], ps_errs = [], ps_done = [], ps_log = []\<rparr>"

lemma partition_workers_bounded_witness:
  "\<exists>s'. part_step (demo_partition 1) demo_pstate s' \<and> (\<exists>t. part_step (demo_partition 1) s' t)"
proof -
  let ?s' = "spawn_worker (demo_partition 1) demo_pstate"
  have p: "part_step (demo_partition 1) demo_pstate ?s'"
    by (rule part_step.Spawn) (simp add: demo_pstate_def)
  have "(part_step (demo_partition 1) ^^ 1) demo_pstate ?s'" unfolding relpowp_1 by (rule p)
  then have "all_finished ?s' \<or> (\<exists>t. part_step (demo_partition 1) ?s' t)"
    using partition_workers_bounded[of 1 "demo_partition 1" demo_pstate ?s'] by (simp add: demo_pstate_def)
  moreover have "\<not> all_finished ?s'"
    using spawn_lists[of demo_pstate "demo_partition 1"] by (simp add: all_finished_def demo_pstate_def)
  ultimately show ?thesis using p by blast
qed

section \<open>What the controller becomes\<close>

text \<open>The keys of a context that count in the merge.\<close>

definition merge_keys :: "ec \<Rightarrow> string set" where
  "merge_keys ec = fst ` set ec - {''partition.name''}"

lemma merge_worker_spec:
  "gm_wf kvs \<Longrightarrow> (case merge_worker kvs acc of
      Inl k \<Rightarrow> k \<in> merge_keys kvs \<and> gm_get acc k \<noteq> None
    | Inr acc' \<Rightarrow> (\<forall>k \<in> merge_keys kvs. gm_get acc k = None)
        \<and> (\<forall>k. gm_get acc' k \<noteq> None \<longleftrightarrow> gm_get acc k \<noteq> None \<or> k \<in> merge_keys kvs))"
proof (induction kvs acc rule: merge_worker.induct)
  case (2 k v kvs acc)
  have wf: "gm_wf kvs" "k \<notin> fst ` set kvs" using "2.prems" by (auto simp: gm_wf_def)
  consider (skip) "k = ''partition.name''" | (dup) "k \<noteq> ''partition.name''" "gm_get acc k \<noteq> None"
    | (put) "k \<noteq> ''partition.name''" "gm_get acc k = None" by blast
  then show ?case
  proof cases
    case skip
    have "merge_keys ((k, v) # kvs) = merge_keys kvs" using skip by (auto simp: merge_keys_def)
    moreover have "merge_worker ((k, v) # kvs) acc = merge_worker kvs acc" using skip by simp
    ultimately show ?thesis using "2.IH"(1)[OF skip wf(1)] by (simp only:)
  next
    case dup
    then show ?thesis by (auto simp: merge_keys_def)
  next
    case put
    have mk: "merge_keys ((k, v) # kvs) = insert k (merge_keys kvs)" "k \<notin> merge_keys kvs"
      using put wf(2) by (auto simp: merge_keys_def)
    have nd: "\<not> gm_get acc k \<noteq> None" using put(2) by simp
    have ih: "case merge_worker kvs (gm_put k v acc) of
      Inl k' \<Rightarrow> k' \<in> merge_keys kvs \<and> gm_get (gm_put k v acc) k' \<noteq> None
    | Inr acc' \<Rightarrow> (\<forall>k' \<in> merge_keys kvs. gm_get (gm_put k v acc) k' = None)
        \<and> (\<forall>k'. gm_get acc' k' \<noteq> None \<longleftrightarrow> gm_get (gm_put k v acc) k' \<noteq> None \<or> k' \<in> merge_keys kvs)"
      using "2.IH"(2)[OF put(1) nd wf(1)] .
    have e: "merge_worker ((k, v) # kvs) acc = merge_worker kvs (gm_put k v acc)" using put by simp
    show ?thesis
    proof (cases "merge_worker kvs (gm_put k v acc)")
      case (Inl x)
      then show ?thesis using ih e mk by (auto split: if_splits)
    next
      case (Inr x)
      have a: "\<forall>k' \<in> merge_keys kvs. gm_get (gm_put k v acc) k' = None"
        "\<forall>k'. gm_get x k' \<noteq> None \<longleftrightarrow> gm_get (gm_put k v acc) k' \<noteq> None \<or> k' \<in> merge_keys kvs"
        using ih unfolding Inr by simp_all
      have "gm_get acc k' = None" if "k' \<in> insert k (merge_keys kvs)" for k'
        using that a(1) put(2) mk(2) by (cases "k' = k") auto
      moreover have "gm_get x k' \<noteq> None \<longleftrightarrow> gm_get acc k' \<noteq> None \<or> k' \<in> insert k (merge_keys kvs)" for k'
        using a(2)[rule_format, of k'] by auto
      ultimately show ?thesis unfolding e Inr mk(1) by simp
    qed
  qed
qed (simp add: merge_keys_def)

text \<open>The merge of all the workers meets a key twice.\<close>

fun keys_clash :: "string set \<Rightarrow> StepExecution list \<Rightarrow> bool" where
  "keys_clash taken [] = False"
| "keys_clash taken (se # ses) \<longleftrightarrow> merge_keys (se_ExecutionContext se) \<inter> taken \<noteq> {}
     \<or> keys_clash (taken \<union> merge_keys (se_ExecutionContext se)) ses"

definition ec_keys :: "ec \<Rightarrow> string set" where
  "ec_keys ec = {k. gm_get ec k \<noteq> None}"

lemma aggregate_loop_spec:
  "\<forall>se\<in>set ses. gm_wf (se_ExecutionContext se) \<Longrightarrow>
     (case aggregate_loop ses ag of
        Inl (k, ag') \<Rightarrow> keys_clash (ec_keys (ag_ec ag)) ses
      | Inr ag' \<Rightarrow> \<not> keys_clash (ec_keys (ag_ec ag)) ses
          \<and> ag_read ag' = ag_read ag + sum_list (map se_ReadCount ses)
          \<and> ag_write ag' = ag_write ag + sum_list (map se_WriteCount ses)
          \<and> ag_failures ag' = ag_failures ag @ concat (map se_Failures (filter (\<lambda>se. se_Status se = FAILED) ses)))"
proof (induction ses arbitrary: ag)
  case (Cons se ses)
  let ?ag = "ag\<lparr>ag_read := ag_read ag + se_ReadCount se, ag_write := ag_write ag + se_WriteCount se,
                   ag_failures := (if se_Status se = FAILED then ag_failures ag @ se_Failures se else ag_failures ag)\<rparr>"
  have wf: "gm_wf (se_ExecutionContext se)" using Cons.prems by simp
  note m = merge_worker_spec[OF wf, of "ag_ec ag"]
  show ?case
  proof (cases "merge_worker (se_ExecutionContext se) (ag_ec ag)")
    case (Inl k)
    have "merge_keys (se_ExecutionContext se) \<inter> ec_keys (ag_ec ag) \<noteq> {}"
      using m unfolding Inl by (auto simp: ec_keys_def)
    moreover have "aggregate_loop (se # ses) ag = Inl (k, ?ag)" using Inl by (simp add: Let_def)
    ultimately show ?thesis by simp
  next
    case (Inr acc)
    have d: "merge_keys (se_ExecutionContext se) \<inter> ec_keys (ag_ec ag) = {}"
      "ec_keys acc = ec_keys (ag_ec ag) \<union> merge_keys (se_ExecutionContext se)"
      using m unfolding Inr by (auto simp: ec_keys_def)
    have e: "aggregate_loop (se # ses) ag = aggregate_loop ses (?ag\<lparr>ag_ec := acc\<rparr>)" using Inr by (simp add: Let_def)
    have "\<forall>se\<in>set ses. gm_wf (se_ExecutionContext se)" using Cons.prems by simp
    from Cons.IH[OF this, of "?ag\<lparr>ag_ec := acc\<rparr>"] show ?thesis unfolding e
      by (cases "aggregate_loop ses (?ag\<lparr>ag_ec := acc\<rparr>)") (auto simp: d)
  qed
qed simp

lemma keys_clash_count:
  "\<not> keys_clash taken ses \<Longrightarrow>
     length (filter (\<lambda>se. k \<in> merge_keys (se_ExecutionContext se)) ses) \<le> (if k \<in> taken then 0 else 1)"
proof (induction ses arbitrary: taken)
  case (Cons se ses)
  then have n: "merge_keys (se_ExecutionContext se) \<inter> taken = {}"
    "\<not> keys_clash (taken \<union> merge_keys (se_ExecutionContext se)) ses" by simp_all
  from Cons.IH[OF n(2)] n(1) show ?case by (auto split: if_splits)
qed simp

lemma filter_length_mset: "mset xs = mset ys \<Longrightarrow> length (filter P xs) = length (filter P ys)"
  by (metis mset_filter size_mset)

lemma sum_list_sort_key: "sum_list (map f (sort_key g xs)) = sum_list (map f xs)"
  for f :: "'a \<Rightarrow> int"
  by (metis mset_map mset_sort sum_mset_sum_list)

lemma join_errors_Some: "join_errors (Some e) es \<noteq> None"
  by (induction "Some e" es arbitrary: e rule: join_errors.induct) auto

lemma set_final_controller:
  assumes "set_final st status err s = (r, s')" "status \<in> {COMPLETED, STOPPED, FAILED}"
  shows "se_Status (ps_controller s') = status \<and> step_closed (ps_controller s')
    \<and> se_ReadCount (ps_controller s') = se_ReadCount (ps_controller s)
    \<and> se_WriteCount (ps_controller s') = se_WriteCount (ps_controller s)
    \<and> ps_log s' = ps_log s \<and> (status = FAILED \<longrightarrow> r \<noteq> None)"
  using assms
  by (auto simp: set_final_def Let_def StepExecution_MarkAsFailed_def StepExecution_AddFailureException_def
      StepExecution_MarkAsStopped_def StepExecution_MarkAsCompleted_def step_closed_def split: prod.splits)

text \<open>The repository changes a step execution it updates in its version only.\<close>

definition controller_repo_keeps :: "'w partition_step \<Rightarrow> bool" where
  "controller_repo_keeps st \<longleftrightarrow> (\<forall>se w e se' w'. pt_UpdateStepExecution st se w = ((e, se'), w') \<longrightarrow>
     (\<exists>v. se' = se\<lparr>se_Version := v\<rparr>))"

lemma persist_controller:
  assumes "pt_persist st (plog PtAfterStep (promoteExecutionContext st s)) = (r, s')"
    and "controller_repo_keeps st"
  shows "(\<exists>v. ps_controller s' = (ps_controller s)\<lparr>se_Version := v\<rparr>) \<and> PtAfterStep \<in> set (ps_log s')"
proof -
  let ?t = "plog PtAfterStep (promoteExecutionContext st s)"
  have t: "ps_controller ?t = ps_controller s" "PtAfterStep \<in> set (ps_log ?t)"
    by (auto simp: plog_def promoteExecutionContext_def split: option.splits)
  obtain e se w where u: "pt_UpdateStepExecution st (ps_controller ?t) (ps_world ?t) = ((e, se), w)"
    by (metis surj_pair)
  obtain v where "se = (ps_controller ?t)\<lparr>se_Version := v\<rparr>" using assms(2) u unfolding controller_repo_keeps_def by blast
  moreover have "ps_controller s' = se" "set (ps_log ?t) \<subseteq> set (ps_log s')"
    using assms(1) u by (auto simp: pt_persist_def pcall_def plog_def split: option.splits)
  ultimately show ?thesis using t by auto
qed

lemma finish_outcome_all:
  assumes "partition_finish st s = (r, s')" "\<forall>se\<in>set (ps_done s). gm_wf (se_ExecutionContext se)"
    and "controller_repo_keeps st"
  shows "(k \<noteq> ''partition.name'' \<longrightarrow> 2 \<le> length (filter (\<lambda>se. k \<in> fst ` set (se_ExecutionContext se)) (ps_done s)) \<longrightarrow>
            r \<noteq> None \<and> ps_log s' = ps_log s \<and> se_Status (ps_controller s') = se_Status (ps_controller s))
    \<and> (\<not> keys_clash {} (sort_key se_ID (ps_done s)) \<longrightarrow>
            se_Status (ps_controller s') = fst (determineAggregatedStatus (ps_done s))
          \<and> step_closed (ps_controller s')
          \<and> se_ReadCount (ps_controller s') = sum_list (map se_ReadCount (ps_done s))
          \<and> se_WriteCount (ps_controller s') = sum_list (map se_WriteCount (ps_done s))
          \<and> PtAfterStep \<in> set (ps_log s')
          \<and> (fst (determineAggregatedStatus (ps_done s)) = FAILED \<longrightarrow> r \<noteq> None))"
proof -
  let ?ws = "sort_key se_ID (ps_done s)"
  let ?ag0 = "\<lparr>ag_read = 0, ag_write = 0, ag_failures = [], ag_ec = NewExecutionContext\<rparr>"
  have ms: "mset ?ws = mset (ps_done s)" by simp
  have wf: "\<forall>se\<in>set ?ws. gm_wf (se_ExecutionContext se)" using assms(2) by simp
  have "ec_keys (ag_ec ?ag0) = {}" by (simp add: ec_keys_def NewExecutionContext_def)
  note spec = aggregate_loop_spec[OF wf, of ?ag0, unfolded this]
  have agg: "determineAggregatedStatus ?ws = determineAggregatedStatus (ps_done s)"
    by (rule aggregated_mset[OF ms])
  show ?thesis
  proof (cases "aggregate_loop ?ws ?ag0")
    case (Inl x)
    obtain key ag where x: "x = (key, ag)" by fastforce
    have "keys_clash {} ?ws" using spec unfolding Inl x by simp
    moreover have "r \<noteq> None \<and> ps_log s' = ps_log s \<and> se_Status (ps_controller s') = se_Status (ps_controller s)"
      using assms(1) Inl x by (auto simp: partition_finish_def Let_def)
    ultimately show ?thesis by blast
  next
    case (Inr ag)
    have nc: "\<not> keys_clash {} ?ws" and counts: "ag_read ag = sum_list (map se_ReadCount (ps_done s))"
      "ag_write ag = sum_list (map se_WriteCount (ps_done s))"
      using spec unfolding Inr by (simp_all add: sum_list_sort_key)
    have few: "\<not> 2 \<le> length (filter (\<lambda>se. k \<in> fst ` set (se_ExecutionContext se)) (ps_done s))"
      if "k \<noteq> ''partition.name''"
    proof -
      have "length (filter (\<lambda>se. k \<in> merge_keys (se_ExecutionContext se)) ?ws) \<le> 1"
        using keys_clash_count[OF nc, of k] by simp
      then show ?thesis using that by (simp add: merge_keys_def filter_length_mset[OF ms])
    qed
    define final where "final = determineAggregatedStatus (ps_done s)"
    let ?ce = "(ps_controller s)\<lparr>se_Failures := se_Failures (ps_controller s) @ ag_failures ag,
                         se_ReadCount := ag_read ag, se_WriteCount := ag_write ag, se_ExecutionContext := ag_ec ag,
                         se_Status := fst final, se_ExitStatus := snd final\<rparr>"
    obtain err s1 where sf: "set_final st (fst final) (join_errors None (ps_errs s)) (s\<lparr>ps_controller := ?ce\<rparr>) = (err, s1)"
      by fastforce
    obtain ue where p: "pt_persist st (plog PtAfterStep (promoteExecutionContext st s1)) = (ue, s')"
      and r: "r = (case err of None \<Rightarrow> ue | Some e \<Rightarrow> Some e)"
      using assms(1) Inr sf agg by (auto simp: partition_finish_def Let_def final_def split: prod.splits)
    have st: "fst final \<in> {COMPLETED, STOPPED, FAILED}"
      unfolding final_def aggregated_is_worst by (cases "worst (ps_done s)") auto
    note c1 = set_final_controller[OF sf st]
    have c2: "(\<exists>v. ps_controller s' = (ps_controller s1)\<lparr>se_Version := v\<rparr>) \<and> PtAfterStep \<in> set (ps_log s')"
      by (rule persist_controller[OF p assms(3)])
    then obtain v where v: "ps_controller s' = (ps_controller s1)\<lparr>se_Version := v\<rparr>" by blast
    have "step_closed (ps_controller s') = step_closed (ps_controller s1)" unfolding v by (simp add: step_closed_def)
    moreover have "fst final = FAILED \<longrightarrow> r \<noteq> None" using c1 r by (auto split: option.splits)
    ultimately show ?thesis using few c1 c2 counts v unfolding final_def[symmetric] by simp
  qed
qed


definition two_chunk_workers :: "nat pstate" where
  "two_chunk_workers = demo_pstate\<lparr>ps_pending := [], ps_done :=
     [zero_StepExecution\<lparr>se_ID := ''1'', se_Status := COMPLETED, se_ExecutionContext := [(''readCount'', VInt 3)]\<rparr>,
      zero_StepExecution\<lparr>se_ID := ''2'', se_Status := COMPLETED, se_ExecutionContext := [(''readCount'', VInt 4)]\<rparr>]\<rparr>"


text \<open>
  The error and the status of the controller can disagree. A worker that could not be saved
  takes no part in the aggregation: when the others completed, the controller is completed and an
  error is returned all the same. When the outcome is stopped, the errors of the workers are
  dropped, whatever they were.
\<close>

theorem partition_error_and_status:
  assumes "partition_finish st s = (r, s')" "\<forall>se\<in>set (ps_done s). gm_wf (se_ExecutionContext se)"
    and "\<not> keys_clash {} (sort_key se_ID (ps_done s))" "ps_errs s \<noteq> []"
    and "\<forall>se w. \<exists>v w'. pt_UpdateStepExecution st se w = ((None, se\<lparr>se_Version := v\<rparr>), w')"
  shows "(fst (determineAggregatedStatus (ps_done s)) = COMPLETED \<longrightarrow>
            r \<noteq> None \<and> se_Status (ps_controller s') = COMPLETED)
    \<and> (fst (determineAggregatedStatus (ps_done s)) = STOPPED \<longrightarrow>
            r = None \<and> se_Status (ps_controller s') = STOPPED)"
proof -
  have upd: "\<exists>v. se' = se\<lparr>se_Version := v\<rparr>" "e = None"
    if u: "pt_UpdateStepExecution st se w = ((e, se'), w')" for se w e se' w'
    using u assms(5)[rule_format, of se w] by auto
  then have keeps: "controller_repo_keeps st" unfolding controller_repo_keeps_def by blast
  have st: "se_Status (ps_controller s') = fst (determineAggregatedStatus (ps_done s))"
    using finish_outcome_all[OF assms(1,2) keeps] assms(3) by blast
  let ?ws = "sort_key se_ID (ps_done s)"
  let ?ag0 = "\<lparr>ag_read = 0, ag_write = 0, ag_failures = [], ag_ec = NewExecutionContext\<rparr>"
  have wf: "\<forall>se\<in>set ?ws. gm_wf (se_ExecutionContext se)" using assms(2) by simp
  have "ec_keys (ag_ec ?ag0) = {}" by (simp add: ec_keys_def NewExecutionContext_def)
  note spec = aggregate_loop_spec[OF wf, of ?ag0, unfolded this]
  obtain ag where ag: "aggregate_loop ?ws ?ag0 = Inr ag"
    using spec assms(3) by (cases "aggregate_loop ?ws ?ag0") auto
  define final where "final = determineAggregatedStatus (ps_done s)"
  have agg: "determineAggregatedStatus ?ws = final"
    unfolding final_def by (rule aggregated_mset) simp
  let ?ce = "(ps_controller s)\<lparr>se_Failures := se_Failures (ps_controller s) @ ag_failures ag,
                         se_ReadCount := ag_read ag, se_WriteCount := ag_write ag, se_ExecutionContext := ag_ec ag,
                         se_Status := fst final, se_ExitStatus := snd final\<rparr>"
  obtain err s1 where sf: "set_final st (fst final) (join_errors None (ps_errs s)) (s\<lparr>ps_controller := ?ce\<rparr>) = (err, s1)"
    by fastforce
  obtain ue where p: "pt_persist st (plog PtAfterStep (promoteExecutionContext st s1)) = (ue, s')"
    and r: "r = (case err of None \<Rightarrow> ue | Some e \<Rightarrow> Some e)"
    using assms(1) ag sf agg by (auto simp: partition_finish_def Let_def split: prod.splits)
  have "ue = None"
    using p upd(2) by (auto simp: pt_persist_def pcall_def split: prod.splits option.splits)
  moreover have "err = (if fst final = FAILED then err else if fst final = STOPPED then None
      else join_errors None (ps_errs s))"
    using sf by (auto simp: set_final_def Let_def split: prod.splits if_splits)
  moreover have "join_errors None (ps_errs s) \<noteq> None"
    using assms(4) by (cases "ps_errs s") (simp_all add: join_errors_Some)
  ultimately show ?thesis using r st unfolding final_def[symmetric] by (auto split: option.splits if_splits)
qed

lemma partition_error_and_status_witness:
  "\<exists>r s'. partition_finish (demo_partition 1) (two_chunk_workers\<lparr>ps_done := [], ps_errs := [plain_error ''save'']\<rparr>) = (r, s')
     \<and> r \<noteq> None \<and> se_Status (ps_controller s') = COMPLETED"
proof -
  let ?s = "two_chunk_workers\<lparr>ps_done := [], ps_errs := [plain_error ''save'']\<rparr>"
  obtain r s' where f: "partition_finish (demo_partition 1) ?s = (r, s')" by fastforce
  have "\<exists>v w'. pt_UpdateStepExecution (demo_partition 1) se w = ((None, se\<lparr>se_Version := v\<rparr>), w')" for se w
    by (rule exI[of _ "se_Version se"]) (simp add: demo_partition_def)
  then have "fst (determineAggregatedStatus (ps_done ?s)) = COMPLETED \<longrightarrow>
      r \<noteq> None \<and> se_Status (ps_controller s') = COMPLETED"
    using partition_error_and_status[OF f] by simp
  then show ?thesis using f by (auto simp: aggregated_is_worst worst_def)
qed

end
