(* ===== verification/Mem_Repository.thy ===== *)
theory Mem_Repository
  imports Batch_Model
begin

text \<open>
  \<open>infrastructure/repository/inmemory\<close>: the job repository in memory, four maps. A stored object
  is the value the caller passed at the call; the pointer the caller may still hold is not
  followed. The mutex makes every operation one step.

  The contract \<open>keyed_store\<close> is what the engine relies on when it saves and updates executions;
  it is proved here for the three stores of the in-memory repository.
\<close>

section \<open>The repository\<close>

record InMemoryJobRepository =
  jobInstances :: "(string, JobInstance) gomap"
  jobExecutions :: "(string, JobExecution) gomap"
  stepExecutions :: "(string, StepExecution) gomap"
  checkpointData :: "(string, CheckpointData) gomap"

definition NewInMemoryJobRepository :: InMemoryJobRepository where
  "NewInMemoryJobRepository =
     \<lparr>jobInstances = [], jobExecutions = [], stepExecutions = [], checkpointData = []\<rparr>"

definition ErrJobInstanceNotFound :: goerr where
  "ErrJobInstanceNotFound = plain_error ''job instance not found''"

definition ErrJobExecutionNotFound :: goerr where
  "ErrJobExecutionNotFound = plain_error ''job execution not found''"

definition ErrStepExecutionNotFound :: goerr where
  "ErrStepExecutionNotFound = plain_error ''step execution not found''"

definition ErrCheckpointDataNotFound :: goerr where
  "ErrCheckpointDataNotFound = plain_error ''checkpoint data not found''"

section \<open>Checkpoints\<close>

definition mem_SaveCheckpointData ::
  "CheckpointData \<Rightarrow> InMemoryJobRepository \<Rightarrow> InMemoryJobRepository" where
  "mem_SaveCheckpointData data r =
     r\<lparr>checkpointData := gm_put (cd_StepExecutionID data) data (checkpointData r)\<rparr>"

definition mem_FindCheckpointData ::
  "InMemoryJobRepository \<Rightarrow> string \<Rightarrow> goerr + CheckpointData" where
  "mem_FindCheckpointData r stepExecutionID =
     (case gm_get (checkpointData r) stepExecutionID of
        None \<Rightarrow> Inl ErrCheckpointDataNotFound
      | Some data \<Rightarrow> Inr data)"

section \<open>Job executions\<close>

definition mem_SaveJobExecution ::
  "JobExecution \<Rightarrow> InMemoryJobRepository \<Rightarrow> goerr + InMemoryJobRepository" where
  "mem_SaveJobExecution je r =
     (if gm_get (jobExecutions r) (je_ID je) \<noteq> None
      then Inl (plain_error (''JobExecution with ID '' @ je_ID je @ '' already exists''))
      else Inr (r\<lparr>jobExecutions := gm_put (je_ID je) je (jobExecutions r)\<rparr>))"

definition mem_UpdateJobExecution ::
  "JobExecution \<Rightarrow> InMemoryJobRepository \<Rightarrow> goerr + InMemoryJobRepository" where
  "mem_UpdateJobExecution je r =
     (if gm_get (jobExecutions r) (je_ID je) = None
      then Inl (plain_error (''JobExecution with ID '' @ je_ID je @ '' not found for update''))
      else Inr (r\<lparr>jobExecutions := gm_put (je_ID je) je (jobExecutions r)\<rparr>))"

text \<open>
  The copy of an execution with the step executions that name it, by start time. Steps that
  start together come in the order in which the map is visited.
\<close>

definition with_steps :: "InMemoryJobRepository \<Rightarrow> JobExecution \<Rightarrow> JobExecution" where
  "with_steps r je = je\<lparr>je_StepExecutions :=
     sort_key se_StartTime
       (filter (\<lambda>se. se_JobExecutionID se = je_ID je) (map snd (stepExecutions r)))\<rparr>"

definition mem_FindJobExecutionByID ::
  "InMemoryJobRepository \<Rightarrow> string \<Rightarrow> goerr + JobExecution" where
  "mem_FindJobExecutionByID r eid = (case gm_get (jobExecutions r) eid of
       None \<Rightarrow> Inl ErrJobExecutionNotFound
     | Some je \<Rightarrow> Inr (with_steps r je))"

definition restartable :: "string \<Rightarrow> JobExecution \<Rightarrow> bool" where
  "restartable jobInstanceID je \<longleftrightarrow>
     je_JobInstanceID je = jobInstanceID \<and> (je_Status je = FAILED \<or> je_Status je = STOPPED)"

fun latest_restartable :: "string \<Rightarrow> JobExecution option \<Rightarrow> JobExecution list \<Rightarrow> JobExecution option" where
  "latest_restartable jobInstanceID latest [] = latest"
| "latest_restartable jobInstanceID latest (je # jes) =
     latest_restartable jobInstanceID
       (if restartable jobInstanceID je
           \<and> (case latest of None \<Rightarrow> True | Some l \<Rightarrow> je_CreateTime l < je_CreateTime je)
        then Some je else latest) jes"

definition mem_FindLatestRestartableJobExecution ::
  "InMemoryJobRepository \<Rightarrow> string \<Rightarrow> goerr + JobExecution" where
  "mem_FindLatestRestartableJobExecution r jobInstanceID =
     (case latest_restartable jobInstanceID None (map snd (jobExecutions r)) of
        None \<Rightarrow> Inl ErrJobExecutionNotFound
      | Some je \<Rightarrow> Inr (with_steps r je))"

definition mem_FindJobExecutionsByJobInstance ::
  "InMemoryJobRepository \<Rightarrow> JobInstance \<Rightarrow> JobExecution list" where
  "mem_FindJobExecutionsByJobInstance r ji =
     sort_key (\<lambda>je. - je_CreateTime je)
       (map (\<lambda>je. je\<lparr>je_StepExecutions := []\<rparr>)
          (filter (\<lambda>je. je_JobInstanceID je = ji_ID ji) (map snd (jobExecutions r))))"

section \<open>Job instances\<close>

definition mem_SaveJobInstance ::
  "JobInstance \<Rightarrow> InMemoryJobRepository \<Rightarrow> goerr + InMemoryJobRepository" where
  "mem_SaveJobInstance ji r =
     (if gm_get (jobInstances r) (ji_ID ji) \<noteq> None
      then Inl (plain_error (''JobInstance with ID '' @ ji_ID ji @ '' already exists''))
      else Inr (r\<lparr>jobInstances := gm_put (ji_ID ji) ji (jobInstances r)\<rparr>))"

definition mem_UpdateJobInstance ::
  "JobInstance \<Rightarrow> InMemoryJobRepository \<Rightarrow> goerr + InMemoryJobRepository" where
  "mem_UpdateJobInstance ji r =
     (if gm_get (jobInstances r) (ji_ID ji) = None
      then Inl (plain_error (''JobInstance with ID '' @ ji_ID ji @ '' not found for update''))
      else Inr (r\<lparr>jobInstances := gm_put (ji_ID ji) ji (jobInstances r)\<rparr>))"

definition mem_FindJobInstanceByID ::
  "InMemoryJobRepository \<Rightarrow> string \<Rightarrow> goerr + JobInstance" where
  "mem_FindJobInstanceByID r iid = (case gm_get (jobInstances r) iid of
       None \<Rightarrow> Inl ErrJobInstanceNotFound | Some ji \<Rightarrow> Inr ji)"

text \<open>\<open>eq\<close> is \<open>JobParameters.Equal\<close> with its printers.\<close>

definition mem_FindJobInstanceByJobNameAndParameters ::
  "(JobParameters \<Rightarrow> JobParameters \<Rightarrow> bool) \<Rightarrow> InMemoryJobRepository \<Rightarrow> string \<Rightarrow> JobParameters \<Rightarrow>
     goerr + JobInstance" where
  "mem_FindJobInstanceByJobNameAndParameters eq r jobName params =
     (case find (\<lambda>ji. ji_JobName ji = jobName \<and> eq (ji_Parameters ji) params)
         (map snd (jobInstances r)) of
        Some ji \<Rightarrow> Inr ji | None \<Rightarrow> Inl ErrJobInstanceNotFound)"

text \<open>\<open>None\<close>: a comparison of parameters panicked.\<close>

fun partial_matches :: "string \<Rightarrow> JobParameters \<Rightarrow> JobInstance list \<Rightarrow> JobInstance list option" where
  "partial_matches jobName params [] = Some []"
| "partial_matches jobName params (ji # jis) =
     (if ji_JobName ji = jobName
      then (case JobParameters_Contains (ji_Parameters ji) params of
              None \<Rightarrow> None
            | Some b \<Rightarrow> map_option (\<lambda>rest. if b then ji # rest else rest)
                (partial_matches jobName params jis))
      else partial_matches jobName params jis)"

definition mem_FindJobInstancesByJobNameAndPartialParameters ::
  "InMemoryJobRepository \<Rightarrow> string \<Rightarrow> JobParameters \<Rightarrow> JobInstance list option" where
  "mem_FindJobInstancesByJobNameAndPartialParameters r jobName partialParams =
     partial_matches jobName partialParams (map snd (jobInstances r))"

definition mem_GetJobInstanceCount :: "InMemoryJobRepository \<Rightarrow> string \<Rightarrow> nat" where
  "mem_GetJobInstanceCount r jobName =
     length (filter (\<lambda>ji. ji_JobName ji = jobName) (map snd (jobInstances r)))"

definition mem_GetJobNames :: "InMemoryJobRepository \<Rightarrow> string list" where
  "mem_GetJobNames r = remdups (map ji_JobName (map snd (jobInstances r)))"

section \<open>Step executions\<close>

definition mem_SaveStepExecution ::
  "StepExecution \<Rightarrow> InMemoryJobRepository \<Rightarrow> goerr + InMemoryJobRepository" where
  "mem_SaveStepExecution se r =
     (if gm_get (stepExecutions r) (se_ID se) \<noteq> None
      then Inl (plain_error (''StepExecution with ID '' @ se_ID se @ '' already exists''))
      else Inr (r\<lparr>stepExecutions := gm_put (se_ID se) se (stepExecutions r)\<rparr>))"

definition mem_UpdateStepExecution ::
  "StepExecution \<Rightarrow> InMemoryJobRepository \<Rightarrow> goerr + InMemoryJobRepository" where
  "mem_UpdateStepExecution se r =
     (if gm_get (stepExecutions r) (se_ID se) = None
      then Inl (plain_error (''StepExecution with ID '' @ se_ID se @ '' not found for update''))
      else Inr (r\<lparr>stepExecutions := gm_put (se_ID se) se (stepExecutions r)\<rparr>))"

definition mem_FindStepExecutionByID ::
  "InMemoryJobRepository \<Rightarrow> string \<Rightarrow> goerr + StepExecution" where
  "mem_FindStepExecutionByID r sid = (case gm_get (stepExecutions r) sid of
       None \<Rightarrow> Inl ErrStepExecutionNotFound | Some se \<Rightarrow> Inr se)"

section \<open>The contract of a store\<close>

text \<open>
  \<open>save\<close> stores a new object and refuses a key that is taken, \<open>update\<close> replaces an object and
  refuses a key that is not there; neither touches another key.
\<close>

locale keyed_store =
  fixes key :: "'v \<Rightarrow> 'k"
    and save :: "'v \<Rightarrow> 's \<Rightarrow> goerr + 's"
    and update :: "'v \<Rightarrow> 's \<Rightarrow> goerr + 's"
    and look :: "'s \<Rightarrow> 'k \<Rightarrow> 'v option"
  assumes save_new: "look s (key v) = None \<Longrightarrow>
      \<exists>s'. save v s = Inr s' \<and> look s' = (look s)(key v \<mapsto> v)"
    and save_taken: "look s (key v) \<noteq> None \<Longrightarrow> \<exists>e. save v s = Inl e"
    and update_there: "look s (key v) \<noteq> None \<Longrightarrow>
      \<exists>s'. update v s = Inr s' \<and> look s' = (look s)(key v \<mapsto> v)"
    and update_missing: "look s (key v) = None \<Longrightarrow> \<exists>e. update v s = Inl e"
begin

text \<open>A client that saves (\<open>True\<close>) and updates (\<open>False\<close>); a refused call changes nothing.\<close>

fun run :: "(bool \<times> 'v) list \<Rightarrow> 's \<Rightarrow> 's" where
  "run [] s = s"
| "run ((new, v) # ops) s =
     (case (if new then save v s else update v s) of Inl e \<Rightarrow> run ops s | Inr s' \<Rightarrow> run ops s')"

text \<open>The abstract map of the same calls.\<close>

fun arun :: "(bool \<times> 'v) list \<Rightarrow> ('k \<rightharpoonup> 'v) \<Rightarrow> ('k \<rightharpoonup> 'v)" where
  "arun [] m = m"
| "arun ((new, v) # ops) m = arun ops (if new = (m (key v) = None) then m(key v \<mapsto> v) else m)"

lemma run_refines: "look (run ops s) = arun ops (look s)"
proof (induction ops arbitrary: s)
  case (Cons op ops)
  obtain new v where op: "op = (new, v)" by (cases op)
  show ?case
  proof (cases "new = (look s (key v) = None)")
    case True
    then obtain s' where "(if new then save v s else update v s) = Inr s'" "look s' = (look s)(key v \<mapsto> v)"
      using save_new[of s v] update_there[of s v] by (cases new) auto
    then show ?thesis using Cons.IH[of s'] op True by (simp del: fun_upd_apply)
  next
    case False
    then obtain e where "(if new then save v s else update v s) = Inl e"
      using save_taken[of s v] update_missing[of s v] by (cases new) auto
    then show ?thesis using Cons.IH[of s] op False by (auto simp del: fun_upd_apply)
  qed
qed simp

lemma keeps_keys: "look s k \<noteq> None \<Longrightarrow> look (run ops s) k \<noteq> None"
proof -
  have "m k \<noteq> None \<Longrightarrow> arun ops m k \<noteq> None" for m :: "'k \<rightharpoonup> 'v"
    by (induction ops m rule: arun.induct) auto
  then show "look s k \<noteq> None \<Longrightarrow> look (run ops s) k \<noteq> None" by (simp add: run_refines)
qed

end

lemma gm_put_map: "gm_get (gm_put k v m) = (gm_get m)(k \<mapsto> v)"
  by (rule ext) simp

interpretation mem_executions: keyed_store je_ID mem_SaveJobExecution mem_UpdateJobExecution
  "\<lambda>r. gm_get (jobExecutions r)"
  by unfold_locales (auto simp: mem_SaveJobExecution_def mem_UpdateJobExecution_def gm_put_map)

interpretation mem_steps: keyed_store se_ID mem_SaveStepExecution mem_UpdateStepExecution
  "\<lambda>r. gm_get (stepExecutions r)"
  by unfold_locales (auto simp: mem_SaveStepExecution_def mem_UpdateStepExecution_def gm_put_map)

interpretation mem_instances: keyed_store ji_ID mem_SaveJobInstance mem_UpdateJobInstance
  "\<lambda>r. gm_get (jobInstances r)"
  by unfold_locales (auto simp: mem_SaveJobInstance_def mem_UpdateJobInstance_def gm_put_map)

lemmas mem_defs = mem_FindJobExecutionByID_def mem_FindStepExecutionByID_def
  mem_FindJobInstanceByID_def mem_FindCheckpointData_def mem_SaveCheckpointData_def

text \<open>
  C19: the three stores of the in-memory repository behave like maps from identifiers to
  objects under every sequence of saves and updates: a save takes effect exactly when the
  identifier is new, an update exactly when it is known, and the searches by identifier return
  what the map holds, the last object stored, or the error that it is not found.
\<close>

theorem mem_repository_refines_maps:
  "gm_get (jobExecutions (mem_executions.run eops r)) = mem_executions.arun eops (gm_get (jobExecutions r))
   \<and> gm_get (stepExecutions (mem_steps.run sops r)) = mem_steps.arun sops (gm_get (stepExecutions r))
   \<and> gm_get (jobInstances (mem_instances.run iops r)) = mem_instances.arun iops (gm_get (jobInstances r))
   \<and> mem_FindStepExecutionByID (mem_steps.run sops r) k =
       (case mem_steps.arun sops (gm_get (stepExecutions r)) k of
          None \<Rightarrow> Inl ErrStepExecutionNotFound | Some se \<Rightarrow> Inr se)
   \<and> mem_FindJobInstanceByID (mem_instances.run iops r) k =
       (case mem_instances.arun iops (gm_get (jobInstances r)) k of
          None \<Rightarrow> Inl ErrJobInstanceNotFound | Some ji \<Rightarrow> Inr ji)"
  by (simp add: mem_executions.run_refines mem_steps.run_refines mem_instances.run_refines
      mem_FindStepExecutionByID_def mem_FindJobInstanceByID_def)

text \<open>
  The checkpoint found for a step execution is the last one saved for it, whatever was saved
  for others, and without one the search returns the error \<open>ErrCheckpointDataNotFound\<close>.
\<close>

theorem mem_checkpoint_last_saved:
  "mem_FindCheckpointData (fold mem_SaveCheckpointData cps r) k =
     (case find (\<lambda>cp. cd_StepExecutionID cp = k) (rev cps) of
        Some cp \<Rightarrow> Inr cp | None \<Rightarrow> mem_FindCheckpointData r k)
   \<and> mem_FindCheckpointData NewInMemoryJobRepository k = Inl ErrCheckpointDataNotFound"
proof -
  have "mem_FindCheckpointData (fold mem_SaveCheckpointData cps r) k =
     (case find (\<lambda>cp. cd_StepExecutionID cp = k) (rev cps) of
        Some cp \<Rightarrow> Inr cp | None \<Rightarrow> mem_FindCheckpointData r k)"
    by (induction cps rule: rev_induct) (auto simp: mem_defs split: option.splits)
  then show ?thesis by (simp add: mem_defs NewInMemoryJobRepository_def)
qed

section \<open>The latest restartable execution\<close>

lemma latest_restartable_spec:
  "latest_restartable i l jes = Some je \<Longrightarrow>
     (case l of None \<Rightarrow> True | Some x \<Rightarrow> restartable i x) \<Longrightarrow>
     restartable i je \<and> (je \<in> set jes \<or> l = Some je)
     \<and> (\<forall>x\<in>set jes. restartable i x \<longrightarrow> je_CreateTime x \<le> je_CreateTime je)
     \<and> (\<forall>x. l = Some x \<longrightarrow> je_CreateTime x \<le> je_CreateTime je)"
proof (induction i l jes rule: latest_restartable.induct)
  case (2 i l j jes)
  let ?c = "restartable i j \<and> (case l of None \<Rightarrow> True | Some l \<Rightarrow> je_CreateTime l < je_CreateTime j)"
  show ?case
  proof (cases ?c)
    case True
    then have "latest_restartable i (Some j) jes = Some je" using "2.prems"(1) by simp
    from "2.IH"[unfolded if_P[OF True], OF this] show ?thesis using True
      by (auto split: option.splits)
  next
    case False
    then have "latest_restartable i l jes = Some je" using "2.prems"(1) by auto
    from "2.IH"[unfolded if_not_P[OF False], OF this "2.prems"(2)] show ?thesis using False
      by (auto split: option.splits)
  qed
qed auto

lemma latest_restartable_None:
  "latest_restartable i l jes = None \<longleftrightarrow> l = None \<and> (\<forall>x\<in>set jes. \<not> restartable i x)"
  by (induction i l jes rule: latest_restartable.induct) (auto split: option.splits)

text \<open>
  The execution a restart continues from is a failed or stopped execution of the instance
  that no other failed or stopped one was created after, with exactly the step executions that
  belong to it, by start time; when the instance has none, the search says not found.
\<close>

theorem mem_latest_restartable:
  assumes "gm_wf (jobExecutions r)"
  shows "case mem_FindLatestRestartableJobExecution r i of
      Inl e \<Rightarrow> e = ErrJobExecutionNotFound
        \<and> (\<forall>k je. gm_get (jobExecutions r) k = Some je \<longrightarrow> \<not> restartable i je)
    | Inr je \<Rightarrow> restartable i je
        \<and> (\<forall>k je'. gm_get (jobExecutions r) k = Some je' \<longrightarrow> restartable i je' \<longrightarrow>
             je_CreateTime je' \<le> je_CreateTime je)
        \<and> set (je_StepExecutions je) =
            {se \<in> set (map snd (stepExecutions r)). se_JobExecutionID se = je_ID je}
        \<and> sorted (map se_StartTime (je_StepExecutions je))
        \<and> (\<exists>k je0. gm_get (jobExecutions r) k = Some je0 \<and> je = with_steps r je0)"
proof -
  have ran: "je \<in> set (map snd (jobExecutions r)) \<longleftrightarrow> (\<exists>k. gm_get (jobExecutions r) k = Some je)" for je
    using assms by (force simp: gm_wf_def)
  show ?thesis
  proof (cases "latest_restartable i None (map snd (jobExecutions r))")
    case None
    then have "\<forall>x\<in>set (map snd (jobExecutions r)). \<not> restartable i x"
      by (simp add: latest_restartable_None)
    then have "\<forall>k je. gm_get (jobExecutions r) k = Some je \<longrightarrow> \<not> restartable i je"
      using ran by blast
    then show ?thesis using None by (simp add: mem_FindLatestRestartableJobExecution_def)
  next
    case (Some je)
    from latest_restartable_spec[OF this] have
      sp: "restartable i je" "je \<in> set (map snd (jobExecutions r))"
        "\<forall>x\<in>set (map snd (jobExecutions r)). restartable i x \<longrightarrow> je_CreateTime x \<le> je_CreateTime je"
      by auto
    have ws: "restartable i (with_steps r je) = restartable i je" "je_CreateTime (with_steps r je) = je_CreateTime je"
      "je_ID (with_steps r je) = je_ID je"
      by (simp_all add: with_steps_def restartable_def)
    have "\<exists>k je0. gm_get (jobExecutions r) k = Some je0 \<and> with_steps r je = with_steps r je0"
      using sp(2) ran by blast
    moreover have "set (je_StepExecutions (with_steps r je)) =
        {se \<in> set (map snd (stepExecutions r)). se_JobExecutionID se = je_ID (with_steps r je)}"
      by (simp add: with_steps_def)
    moreover have "sorted (map se_StartTime (je_StepExecutions (with_steps r je)))"
      by (simp add: with_steps_def)
    moreover have "\<forall>k je'. gm_get (jobExecutions r) k = Some je' \<longrightarrow> restartable i je' \<longrightarrow>
             je_CreateTime je' \<le> je_CreateTime (with_steps r je)"
      using sp(3) ran ws(2) by metis
    ultimately show ?thesis using Some sp(1) ws(1)
      unfolding mem_FindLatestRestartableJobExecution_def by simp
  qed
qed

lemma mem_latest_restartable_witness:
  "\<exists>je. mem_FindLatestRestartableJobExecution
     \<lparr>jobInstances = [],
      jobExecutions = [(''e1'', (NewJobExecution ''e1'' 1 1 ''i'' ''j'' NewJobParameters)\<lparr>je_Status := FAILED\<rparr>),
                       (''e2'', (NewJobExecution ''e2'' 2 2 ''i'' ''j'' NewJobParameters)\<lparr>je_Status := COMPLETED\<rparr>)],
      stepExecutions = [], checkpointData = []\<rparr> ''i'' = Inr je \<and> restartable ''i'' je"
proof -
  let ?r = "\<lparr>jobInstances = [],
      jobExecutions = [(''e1'', (NewJobExecution ''e1'' 1 1 ''i'' ''j'' NewJobParameters)\<lparr>je_Status := FAILED\<rparr>),
                       (''e2'', (NewJobExecution ''e2'' 2 2 ''i'' ''j'' NewJobParameters)\<lparr>je_Status := COMPLETED\<rparr>)],
      stepExecutions = [], checkpointData = []\<rparr>"
  have "gm_wf (jobExecutions ?r)" by (simp add: gm_wf_def)
  from mem_latest_restartable[OF this, of "''i''"] show ?thesis
    by (cases "mem_FindLatestRestartableJobExecution ?r ''i''")
      (auto simp: mem_FindLatestRestartableJobExecution_def restartable_def NewJobExecution_def)
qed

end
