(* ===== verification/Job_Launch.thy ===== *)
theory Job_Launch
  imports Mem_Repository
begin

text \<open>
  \<open>core/application/usecase\<close>: the launcher, the operator and the explorer. They work on a job
  repository, which is a record of operations on a world \<open>'w\<close>; a search returns an error, no
  object, or an object. A job definition is a value \<open>'j\<close> of the job factory. The launcher starts
  the runner in a goroutine of its own: the model notes the job and the execution it is started
  on, \<open>Flow_Job\<close> models what the runner does.
\<close>

section \<open>The launcher\<close>

record 'w job_repo =
  jr_SaveInstance :: "JobInstance \<Rightarrow> 'w \<Rightarrow> goerr option \<times> 'w"
  jr_FindInstance :: "string \<Rightarrow> JobParameters \<Rightarrow> 'w \<Rightarrow> (goerr + JobInstance option) \<times> 'w"
  jr_FindInstanceByID :: "string \<Rightarrow> 'w \<Rightarrow> (goerr + JobInstance option) \<times> 'w"
  jr_FindInstancesPartial :: "string \<Rightarrow> JobParameters \<Rightarrow> 'w \<Rightarrow> (goerr + JobInstance list) \<times> 'w"
  jr_JobNames :: "'w \<Rightarrow> (goerr + string list) \<times> 'w"
  jr_SaveExecution :: "JobExecution \<Rightarrow> 'w \<Rightarrow> goerr option \<times> 'w"
  jr_UpdateExecution :: "JobExecution \<Rightarrow> 'w \<Rightarrow> goerr option \<times> 'w"
  jr_FindExecution :: "string \<Rightarrow> 'w \<Rightarrow> (goerr + JobExecution option) \<times> 'w"
  jr_FindRestartable :: "string \<Rightarrow> 'w \<Rightarrow> (goerr + JobExecution option) \<times> 'w"
  jr_FindExecutions :: "JobInstance \<Rightarrow> 'w \<Rightarrow> (goerr + JobExecution list) \<times> 'w"

text \<open>The job factory, the clock, the identifiers and the hash of parameters.\<close>

record ('w, 'j) launch_env =
  le_repo :: "'w job_repo"
  le_CreateJob :: "string \<Rightarrow> 'w \<Rightarrow> (goerr + 'j) \<times> 'w"
  le_Validate :: "'j \<Rightarrow> JobParameters \<Rightarrow> goerr option"
  le_Incrementer :: "string \<Rightarrow> (JobParameters \<Rightarrow> 'w \<Rightarrow> JobParameters \<times> 'w) option"
  le_Now :: "'w \<Rightarrow> time \<times> 'w"
  le_NewID :: "'w \<Rightarrow> string \<times> 'w"
  le_hash :: "JobParameters \<Rightarrow> string"

text \<open>The cancel function of an execution is known by the execution's identifier.\<close>

record ('w, 'j) lstate =
  lc_world :: 'w
  activeJobCancellations :: "(string, string) gomap"
  lc_started :: "('j \<times> JobExecution) list"
  lc_cancelled :: "string list"

definition lcall :: "('w \<Rightarrow> 'r \<times> 'w) \<Rightarrow> ('w, 'j) lstate \<Rightarrow> 'r \<times> ('w, 'j) lstate" where
  "lcall f s = (case f (lc_world s) of (r, w) \<Rightarrow> (r, s\<lparr>lc_world := w\<rparr>))"

definition RegisterCancelFunc :: "string \<Rightarrow> string \<Rightarrow> ('w, 'j) lstate \<Rightarrow> ('w, 'j) lstate" where
  "RegisterCancelFunc executionID cancel s =
     s\<lparr>activeJobCancellations := gm_put executionID cancel (activeJobCancellations s)\<rparr>"

definition UnregisterCancelFunc :: "string \<Rightarrow> ('w, 'j) lstate \<Rightarrow> ('w, 'j) lstate" where
  "UnregisterCancelFunc executionID s =
     (if gm_get (activeJobCancellations s) executionID \<noteq> None
      then s\<lparr>activeJobCancellations := gm_del executionID (activeJobCancellations s)\<rparr> else s)"

definition GetCancelFunc :: "string \<Rightarrow> ('w, 'j) lstate \<Rightarrow> string option" where
  "GetCancelFunc executionID s = gm_get (activeJobCancellations s) executionID"

definition new_execution :: "('w, 'j) launch_env \<Rightarrow> string \<Rightarrow> string \<Rightarrow> JobParameters \<Rightarrow>
    ('w, 'j) lstate \<Rightarrow> JobExecution \<times> ('w, 'j) lstate" where
  "new_execution le instanceID jobName params s = (case lcall (le_NewID le) s of
       (newID, s1) \<Rightarrow> (case lcall (le_Now le) s1 of
         (now1, s2) \<Rightarrow> (case lcall (le_Now le) s2 of
           (now2, s3) \<Rightarrow> (NewJobExecution newID now1 now2 instanceID jobName params, s3))))"

text \<open>
  The execution that continues \<open>prev\<close>. \<open>CopyForRestart\<close> is called with the identifier of the new
  job execution, for every step.
\<close>

definition restart_execution :: "JobExecution \<Rightarrow> JobExecution \<Rightarrow> JobExecution" where
  "restart_execution prev new = fold AddStepExecution
     (map (CopyForRestart (je_ID new)) (je_StepExecutions prev))
     (new\<lparr>je_ExecutionContext := ExecutionContext_Copy (je_ExecutionContext prev),
          je_RestartCount := je_RestartCount prev + 1,
          je_CurrentStepName := je_CurrentStepName prev,
          je_Status := RESTARTING\<rparr>)"

definition not_allowed :: "JobExecution \<Rightarrow> JobInstance \<Rightarrow> goerr" where
  "not_allowed je ji = NewBatchErrorf ''job_launcher''
     ''A running JobExecution (ID: %s, Status: %s) already exists for JobInstance (ID: %s). Concurrent restart is not allowed.''
     [ArgStr (je_ID je), ArgStr (JobStatus_String (je_Status je)), ArgStr (ji_ID ji)]"

text \<open>An execution for an instance that exists.\<close>

definition launch_existing :: "('w, 'j) launch_env \<Rightarrow> string \<Rightarrow> JobInstance \<Rightarrow> ('w, 'j) lstate \<Rightarrow>
    (goerr + JobExecution) \<times> ('w, 'j) lstate" where
  "launch_existing le jobName ji s =
     (case lcall (jr_FindRestartable (le_repo le) (ji_ID ji)) s of
        (r, s1) \<Rightarrow>
          (if (case r of Inl e \<Rightarrow> \<not> errors_Is e ErrJobExecutionNotFound | Inr x \<Rightarrow> False)
           then (Inl (NewBatchError ''job_launcher''
                   ''Launch processing error: Failed to search for restartable JobExecution''
                   (case r of Inl e \<Rightarrow> Some e | Inr x \<Rightarrow> None) False False), s1)
           else (case r of
               Inr (Some prev) \<Rightarrow>
                 if IsFinished (je_Status prev)
                 then (case lcall (le_Now le) s1 of (now, s2) \<Rightarrow>
                      (case lcall (jr_UpdateExecution (le_repo le) (JobExecution_MarkAsAbandoned now prev)) s2 of
                        (e, s3) \<Rightarrow>
                      (case new_execution le (ji_ID ji) jobName (je_Parameters prev) s3 of
                        (new, s4) \<Rightarrow> (Inr (restart_execution prev new), s4))))
                 else (Inl (not_allowed prev ji), s1)
             | _ \<Rightarrow> (case new_execution le (ji_ID ji) jobName (ji_Parameters ji) s1 of
                   (new, s2) \<Rightarrow> (Inr new, s2)))))"

text \<open>A new instance, with the parameters the incrementer makes of those given.\<close>

definition launch_new :: "('w, 'j) launch_env \<Rightarrow> string \<Rightarrow> JobParameters \<Rightarrow> ('w, 'j) lstate \<Rightarrow>
    (goerr + JobExecution) \<times> ('w, 'j) lstate" where
  "launch_new le jobName params s =
     (case (case le_Incrementer le jobName of
              None \<Rightarrow> (params, s) | Some getNext \<Rightarrow> lcall (getNext params) s) of
        (params, s1) \<Rightarrow>
     (case lcall (le_NewID le) s1 of (newID, s2) \<Rightarrow>
     (case lcall (le_Now le) s2 of (now, s3) \<Rightarrow>
       (let ji = NewJobInstance newID now (le_hash le) jobName params
        in case lcall (jr_SaveInstance (le_repo le) ji) s3 of
             (Some e, s4) \<Rightarrow> (Inl (NewBatchError ''SimpleJobLauncher.Launch''
                 (''Failed to save new JobInstance for '' @ quoted jobName) (Some e) False False), s4)
           | (None, s4) \<Rightarrow> (case new_execution le (ji_ID ji) jobName (ji_Parameters ji) s4 of
                 (new, s5) \<Rightarrow> (Inr new, s5))))))"

text \<open>
  The execution is registered, saved, and given to the runner. An error comes with the execution
  when that was made already.
\<close>

definition launch_start :: "('w, 'j) launch_env \<Rightarrow> 'j \<Rightarrow> JobExecution \<Rightarrow> ('w, 'j) lstate \<Rightarrow>
    (goerr \<times> JobExecution option + JobExecution) \<times> ('w, 'j) lstate" where
  "launch_start le job je s =
     (case lcall (jr_SaveExecution (le_repo le) je) (RegisterCancelFunc (je_ID je) (je_ID je) s) of
        (Some e, s1) \<Rightarrow> (Inl (NewBatchError ''job_launcher''
            ''Launch processing error: Failed to save JobExecution initially'' (Some e) False False, Some je),
            UnregisterCancelFunc (je_ID je) s1)
      | (None, s1) \<Rightarrow> (Inr je, s1\<lparr>lc_started := lc_started s1 @ [(job, je)]\<rparr>))"

definition Launch :: "('w, 'j) launch_env \<Rightarrow> string \<Rightarrow> JobParameters \<Rightarrow> ('w, 'j) lstate \<Rightarrow>
    (goerr \<times> JobExecution option + JobExecution) \<times> ('w, 'j) lstate" where
  "Launch le jobName params s =
     (case lcall (le_CreateJob le jobName) s of
        (Inl e, s1) \<Rightarrow> (Inl (NewBatchError ''SimpleJobLauncher.Launch''
            (''Failed to create job definition for '' @ quoted jobName) (Some e) False False, None), s1)
      | (Inr job, s1) \<Rightarrow> (case le_Validate le job params of
          Some e \<Rightarrow> (Inl (NewBatchError ''job_launcher'' ''JobParameters validation error''
              (Some e) False False, None), s1)
        | None \<Rightarrow> (case lcall (jr_FindInstance (le_repo le) jobName params) s1 of
            (r, s2) \<Rightarrow>
              if (case r of Inl e \<Rightarrow> \<not> errors_Is e ErrJobInstanceNotFound | Inr x \<Rightarrow> False)
              then (Inl (NewBatchError ''SimpleJobLauncher.Launch''
                      ''Failed to search for existing JobInstance''
                      (case r of Inl e \<Rightarrow> Some e | Inr x \<Rightarrow> None) False False, None), s2)
              else (case (case r of Inr (Some ji) \<Rightarrow> launch_existing le jobName ji s2
                          | _ \<Rightarrow> launch_new le jobName params s2) of
                      (Inl e, s3) \<Rightarrow> (Inl (e, None), s3)
                    | (Inr je, s3) \<Rightarrow> launch_start le job je s3))))"

section \<open>The operator\<close>

definition op_error :: "string \<Rightarrow> goerr \<Rightarrow> goerr" where
  "op_error msg e = NewBatchError ''job_operator'' msg (Some e) False False"

definition op_errorf :: "string \<Rightarrow> string list \<Rightarrow> goerr" where
  "op_errorf format args = NewBatchErrorf ''job_operator'' format (map ArgStr args)"

text \<open>Loading the execution an operation is about; \<open>what\<close> is the operation's name in the messages.\<close>

definition op_load :: "('w, 'j) launch_env \<Rightarrow> string \<Rightarrow> string \<Rightarrow> ('w, 'j) lstate \<Rightarrow>
    (goerr + JobExecution) \<times> ('w, 'j) lstate" where
  "op_load le what executionID s = (case lcall (jr_FindExecution (le_repo le) executionID) s of
       (Inl e, s1) \<Rightarrow> (Inl (op_error (what @ '' processing error: Failed to load JobExecution (ID: ''
           @ executionID @ '')'') e), s1)
     | (Inr None, s1) \<Rightarrow> (Inl (op_errorf (what @ '' processing error: JobExecution (ID: %s) not found'')
           [executionID]), s1)
     | (Inr (Some je), s1) \<Rightarrow> (Inr je, s1))"

definition is_restartable :: "JobStatus \<Rightarrow> bool" where
  "is_restartable st \<longleftrightarrow> st = FAILED \<or> st = STOPPED \<or> st = ABANDONED \<or> st = CANCELLED"

text \<open>\<open>hasLauncher\<close>: the launcher is set after construction.\<close>

definition Restart :: "('w, 'j) launch_env \<Rightarrow> bool \<Rightarrow> string \<Rightarrow> ('w, 'j) lstate \<Rightarrow>
    (goerr + JobExecution) \<times> ('w, 'j) lstate" where
  "Restart le hasLauncher executionID s =
     (if \<not> hasLauncher
      then (Inl (op_errorf ''JobLauncher is not set. Cannot perform Restart operation.'' []), s)
      else (case op_load le ''Restart'' executionID s of
        (Inl e, s1) \<Rightarrow> (Inl e, s1)
      | (Inr prev, s1) \<Rightarrow>
          if \<not> is_restartable (je_Status prev)
          then (Inl (op_errorf ''Restart processing error: JobExecution (ID: %s) is not in a restartable state (current status: %s)''
                  [executionID, JobStatus_String (je_Status prev)]), s1)
          else (case Launch le (je_JobName prev) (je_Parameters prev) s1 of
              (Inl (e, je), s2) \<Rightarrow> (Inl (op_error (''Failed to restart job execution (ID: '' @ executionID @ '')'') e), s2)
            | (Inr je, s2) \<Rightarrow> (Inr je, s2))))"

definition Stop :: "('w, 'j) launch_env \<Rightarrow> bool \<Rightarrow> string \<Rightarrow> ('w, 'j) lstate \<Rightarrow>
    goerr option \<times> ('w, 'j) lstate" where
  "Stop le hasLauncher executionID s =
     (if \<not> hasLauncher
      then (Some (op_errorf ''JobLauncher is not set. Cannot perform Stop operation.'' []), s)
      else (case op_load le ''Stop'' executionID s of
        (Inl e, s1) \<Rightarrow> (Some e, s1)
      | (Inr je, s1) \<Rightarrow>
          if IsFinished (je_Status je)
          then (Some (op_errorf ''Stop processing error: JobExecution (ID: %s) is already in a finished state (%s)''
                  [executionID, JobStatus_String (je_Status je)]), s1)
          else (case lcall (le_Now le) s1 of (now, s2) \<Rightarrow>
            (let je' = (case JobExecution_TransitionTo now STOPPING je of
                          Inr x \<Rightarrow> x
                        | Inl e \<Rightarrow> je\<lparr>je_Status := STOPPING, je_LastUpdated := now\<rparr>)
             in case lcall (jr_UpdateExecution (le_repo le) je') s2 of
                  (Some e, s3) \<Rightarrow> (Some (op_error (''Stop processing error: Failed to update JobExecution (ID: ''
                      @ executionID @ '') status'') e), s3)
                | (None, s3) \<Rightarrow> (case GetCancelFunc executionID s3 of
                      None \<Rightarrow> (Some (op_errorf ''Stop processing error: CancelFunc for JobExecution (ID: %s) not found''
                          [executionID]), s3)
                    | Some c \<Rightarrow> (None, s3\<lparr>lc_cancelled := lc_cancelled s3 @ [c]\<rparr>))))))"

definition Abandon :: "('w, 'j) launch_env \<Rightarrow> bool \<Rightarrow> string \<Rightarrow> ('w, 'j) lstate \<Rightarrow>
    goerr option \<times> ('w, 'j) lstate" where
  "Abandon le hasLauncher executionID s = (case op_load le ''Abandon'' executionID s of
       (Inl e, s1) \<Rightarrow> (Some e, s1)
     | (Inr je, s1) \<Rightarrow>
         if je_Status je = STARTED \<or> je_Status je = STOPPING \<or> je_Status je = RESTARTING
         then (Some (op_errorf ''Abandon processing error: JobExecution (ID: %s) cannot be abandoned as it is running/stopping/restarting (%s)''
                 [executionID, JobStatus_String (je_Status je)]), s1)
         else if je_Status je = ABANDONED then (None, s1)
         else if IsFinished (je_Status je)
         then (Some (op_errorf ''Abandon processing error: JobExecution (ID: %s) is already in a finished state (%s)''
                 [executionID, JobStatus_String (je_Status je)]), s1)
         else (case lcall (le_Now le) s1 of (now, s2) \<Rightarrow>
           (case lcall (jr_UpdateExecution (le_repo le) (JobExecution_MarkAsAbandoned now je)) s2 of
              (Some e, s3) \<Rightarrow> (Some (op_error (''Abandon processing error: Failed to update JobExecution (ID: ''
                  @ executionID @ '') status'') e), s3)
            | (None, s3) \<Rightarrow> (None, if hasLauncher then UnregisterCancelFunc executionID s3 else s3))))"

section \<open>The explorer\<close>

definition ex_error :: "string \<Rightarrow> goerr \<Rightarrow> goerr" where
  "ex_error msg e = NewBatchError ''job_explorer'' msg (Some e) False False"

definition ex_id :: "string \<Rightarrow> string \<Rightarrow> string" where
  "ex_id what i = what @ '' (ID: '' @ i @ '')''"

definition ex_wrap :: "string \<Rightarrow> (goerr + 'r) \<times> ('w, 'j) lstate \<Rightarrow> (goerr + 'r) \<times> ('w, 'j) lstate" where
  "ex_wrap msg r = (case r of (Inl e, s) \<Rightarrow> (Inl (ex_error msg e), s) | (Inr x, s) \<Rightarrow> (Inr x, s))"

definition GetJobExecution where
  "GetJobExecution le executionID s =
     ex_wrap (ex_id ''Failed to retrieve JobExecution'' executionID)
       (lcall (jr_FindExecution (le_repo le) executionID) s)"

definition GetJobExecutions where
  "GetJobExecutions le instanceID s = (case lcall (jr_FindInstanceByID (le_repo le) instanceID) s of
       (Inl e, s1) \<Rightarrow> (Inl (ex_error (ex_id ''Failed to retrieve JobInstance'' instanceID) e), s1)
     | (Inr None, s1) \<Rightarrow> (Inr [], s1)
     | (Inr (Some ji), s1) \<Rightarrow>
         ex_wrap (ex_id ''Failed to retrieve JobExecutions associated with JobInstance'' instanceID)
           (lcall (jr_FindExecutions (le_repo le) ji) s1))"

definition GetLastJobExecution where
  "GetLastJobExecution le instanceID s =
     ex_wrap (ex_id ''Failed to retrieve the latest JobExecution for JobInstance'' instanceID)
       (lcall (jr_FindRestartable (le_repo le) instanceID) s)"

definition GetJobInstance where
  "GetJobInstance le instanceID s =
     ex_wrap (ex_id ''Failed to retrieve JobInstance'' instanceID)
       (lcall (jr_FindInstanceByID (le_repo le) instanceID) s)"

text \<open>\<open>txt\<close> prints the parameters with \<open>%+v\<close>.\<close>

definition GetJobInstances where
  "GetJobInstances le txt jobName params s =
     ex_wrap (''Failed to search for JobInstance (JobName: '' @ jobName @ '', Parameters: '' @ txt params @ '')'')
       (lcall (jr_FindInstancesPartial (le_repo le) jobName params) s)"

definition explorer_GetJobNames where
  "explorer_GetJobNames le s =
     ex_wrap ''Failed to retrieve registered job names'' (lcall (jr_JobNames (le_repo le)) s)"

text \<open>With an error, empty parameters are returned beside it.\<close>

definition GetParameters where
  "GetParameters le executionID s = (case lcall (jr_FindExecution (le_repo le) executionID) s of
       (Inl e, s1) \<Rightarrow> ((NewJobParameters, Some (ex_error (ex_id ''Failed to retrieve JobExecution'' executionID) e)), s1)
     | (Inr None, s1) \<Rightarrow> ((NewJobParameters, Some (NewBatchErrorf ''job_explorer''
           ''JobExecution (ID: %s) not found'' [ArgStr executionID])), s1)
     | (Inr (Some je), s1) \<Rightarrow> ((je_Parameters je, None), s1))"

section \<open>The in-memory repository as a job repository\<close>

definition as_world :: "(InMemoryJobRepository \<Rightarrow> goerr + InMemoryJobRepository) \<Rightarrow>
    InMemoryJobRepository \<times> nat \<Rightarrow> goerr option \<times> (InMemoryJobRepository \<times> nat)" where
  "as_world f w = (case f (fst w) of Inl e \<Rightarrow> (Some e, w) | Inr r \<Rightarrow> (None, (r, snd w)))"

definition as_search :: "(InMemoryJobRepository \<Rightarrow> goerr + 'a) \<Rightarrow> InMemoryJobRepository \<times> nat \<Rightarrow>
    (goerr + 'a option) \<times> (InMemoryJobRepository \<times> nat)" where
  "as_search f w = ((case f (fst w) of Inl e \<Rightarrow> Inl e | Inr x \<Rightarrow> Inr (Some x)), w)"

text \<open>
  The world is the repository and a counter, the source of times and identifiers. A comparison of
  parameters that panics is left out: the partial search returns an error then.
\<close>

definition mem_repo :: "(JobParameters \<Rightarrow> JobParameters \<Rightarrow> bool) \<Rightarrow> (InMemoryJobRepository \<times> nat) job_repo" where
  "mem_repo eq =
     \<lparr>jr_SaveInstance = \<lambda>ji. as_world (mem_SaveJobInstance ji),
      jr_FindInstance = \<lambda>n p. as_search (\<lambda>r. mem_FindJobInstanceByJobNameAndParameters eq r n p),
      jr_FindInstanceByID = \<lambda>i. as_search (\<lambda>r. mem_FindJobInstanceByID r i),
      jr_FindInstancesPartial = \<lambda>n p w. ((case mem_FindJobInstancesByJobNameAndPartialParameters (fst w) n p of
           Some jis \<Rightarrow> Inr jis | None \<Rightarrow> Inl (plain_error ''panic'')), w),
      jr_JobNames = \<lambda>w. (Inr (mem_GetJobNames (fst w)), w),
      jr_SaveExecution = \<lambda>je. as_world (mem_SaveJobExecution je),
      jr_UpdateExecution = \<lambda>je. as_world (mem_UpdateJobExecution je),
      jr_FindExecution = \<lambda>i. as_search (\<lambda>r. mem_FindJobExecutionByID r i),
      jr_FindRestartable = \<lambda>i. as_search (\<lambda>r. mem_FindLatestRestartableJobExecution r i),
      jr_FindExecutions = \<lambda>ji w. (Inr (mem_FindJobExecutionsByJobInstance (fst w) ji), w)\<rparr>"

section \<open>The contract of the repository\<close>

text \<open>
  What the launcher relies on: in a world that is \<open>ok\<close>, \<open>view\<close> is the map of stored executions;
  saving and updating store the execution they are given or fail without effect, an execution
  that is stored can be updated, a restartable execution is a stored one, and nothing else
  changes the map.
\<close>

locale execution_repository =
  fixes le :: "('w, 'j) launch_env" and view :: "'w \<Rightarrow> string \<Rightarrow> JobExecution option"
    and ok :: "'w \<Rightarrow> bool"
  assumes save_view: "ok w \<Longrightarrow> jr_SaveExecution (le_repo le) je w = (e, w') \<Longrightarrow>
      ok w' \<and> view w' = (if e = None then (view w)(je_ID je \<mapsto> je) else view w)"
    and update_view: "ok w \<Longrightarrow> jr_UpdateExecution (le_repo le) je w = (e, w') \<Longrightarrow>
      ok w' \<and> view w' = (if e = None then (view w)(je_ID je \<mapsto> je) else view w)"
    and update_known: "ok w \<Longrightarrow> view w (je_ID je) \<noteq> None \<Longrightarrow>
      fst (jr_UpdateExecution (le_repo le) je w) = None"
    and restartable_known: "ok w \<Longrightarrow> jr_FindRestartable (le_repo le) i w = (Inr (Some je), w') \<Longrightarrow>
      view w (je_ID je) \<noteq> None \<and> restartable i je"
    and other_calls: "ok w \<Longrightarrow> f \<in> {\<lambda>w. snd (jr_FindRestartable (le_repo le) i w),
        \<lambda>w. snd (jr_FindInstance (le_repo le) n p w), \<lambda>w. snd (jr_SaveInstance (le_repo le) ji w),
        \<lambda>w. snd (le_CreateJob le n w), \<lambda>w. snd (le_Now le w), \<lambda>w. snd (le_NewID le w)}
        \<or> (\<exists>g. le_Incrementer le n = Some g \<and> f = (\<lambda>w. snd (g p w))) \<Longrightarrow>
      ok (f w) \<and> view (f w) = view w"
begin

lemma lcall_view:
  assumes "lcall f s = (r, s')" "ok (lc_world s)" "\<And>w. ok w \<Longrightarrow> ok (snd (f w)) \<and> view (snd (f w)) = view w"
  shows "ok (lc_world s') \<and> view (lc_world s') = view (lc_world s)"
  using assms(1) assms(3)[OF assms(2)] by (auto simp: lcall_def split: prod.splits)

lemma calls:
  "ok w \<Longrightarrow> ok (snd (jr_FindRestartable (le_repo le) i w)) \<and> view (snd (jr_FindRestartable (le_repo le) i w)) = view w"
  "ok w \<Longrightarrow> ok (snd (jr_FindInstance (le_repo le) n p w)) \<and> view (snd (jr_FindInstance (le_repo le) n p w)) = view w"
  "ok w \<Longrightarrow> ok (snd (jr_SaveInstance (le_repo le) ji w)) \<and> view (snd (jr_SaveInstance (le_repo le) ji w)) = view w"
  "ok w \<Longrightarrow> ok (snd (le_CreateJob le n w)) \<and> view (snd (le_CreateJob le n w)) = view w"
  "ok w \<Longrightarrow> ok (snd (le_Now le w)) \<and> view (snd (le_Now le w)) = view w"
  "ok w \<Longrightarrow> ok (snd (le_NewID le w)) \<and> view (snd (le_NewID le w)) = view w"
  "le_Incrementer le n = Some g \<Longrightarrow> ok w \<Longrightarrow> ok (snd (g p w)) \<and> view (snd (g p w)) = view w"
  by (rule other_calls; blast)+

lemma new_execution_view:
  assumes "new_execution le i n p s = (je, s')" "ok (lc_world s)"
  shows "ok (lc_world s') \<and> view (lc_world s') = view (lc_world s) \<and> (\<exists>k t u. je = NewJobExecution k t u i n p)"
proof -
  obtain k s1 where a: "lcall (le_NewID le) s = (k, s1)" by fastforce
  obtain t s2 where b: "lcall (le_Now le) s1 = (t, s2)" by fastforce
  obtain u s3 where c: "lcall (le_Now le) s2 = (u, s3)" by fastforce
  have "s' = s3" "je = NewJobExecution k t u i n p" using assms(1) a b c by (auto simp: new_execution_def)
  then show ?thesis
    using lcall_view[OF a assms(2) calls(6)] lcall_view[OF b _ calls(5)] lcall_view[OF c _ calls(5)] by auto
qed

lemma launch_existing_view:
  assumes "launch_existing le n ji s = (Inr je, s')" "ok (lc_world s)"
  shows "ok (lc_world s') \<and> ((\<exists>prev now k t u. restartable (ji_ID ji) prev \<and> view (lc_world s) (je_ID prev) \<noteq> None
        \<and> je = restart_execution prev (NewJobExecution k t u (ji_ID ji) n (je_Parameters prev))
        \<and> view (lc_world s') = (view (lc_world s))(je_ID prev \<mapsto> JobExecution_MarkAsAbandoned now prev))
    \<or> ((\<exists>k t u. je = NewJobExecution k t u (ji_ID ji) n (ji_Parameters ji))
        \<and> view (lc_world s') = view (lc_world s)))"
proof -
  obtain r s1 where r: "lcall (jr_FindRestartable (le_repo le) (ji_ID ji)) s = (r, s1)" by fastforce
  note v1 = lcall_view[OF r assms(2) calls(1)]
  show ?thesis
  proof (cases "\<exists>prev. r = Inr (Some prev) \<and> IsFinished (je_Status prev)")
    case True
    then obtain prev where p: "r = Inr (Some prev)" "IsFinished (je_Status prev)" by blast
    have k: "view (lc_world s) (je_ID prev) \<noteq> None" "restartable (ji_ID ji) prev"
      using r p(1) restartable_known[OF assms(2)] by (auto simp: lcall_def split: prod.splits)
    obtain now s2 where n: "lcall (le_Now le) s1 = (now, s2)" by fastforce
    have v2: "ok (lc_world s2)" "view (lc_world s2) = view (lc_world s)"
      using lcall_view[OF n _ calls(5)] v1 by simp_all
    let ?ab = "JobExecution_MarkAsAbandoned now prev"
    obtain e s3 where u: "lcall (jr_UpdateExecution (le_repo le) ?ab) s2 = (e, s3)" by fastforce
    have "e = None"
      using u update_known[OF v2(1), of ?ab] k(1) v2(2) by (auto simp: lcall_def split: prod.splits)
    then have v3: "ok (lc_world s3)" "view (lc_world s3) = (view (lc_world s))(je_ID prev \<mapsto> ?ab)"
      using u update_view[OF v2(1), of ?ab] v2(2) by (auto simp: lcall_def split: prod.splits)
    obtain new s4 where x: "new_execution le (ji_ID ji) n (je_Parameters prev) s3 = (new, s4)" by fastforce
    have "je = restart_execution prev new" "s' = s4" using assms(1) r p n u x by (auto simp: launch_existing_def)
    then show ?thesis using new_execution_view[OF x v3(1)] v3(2) k by metis
  next
    case False
    then obtain new where "new_execution le (ji_ID ji) n (ji_Parameters ji) s1 = (new, s')" "je = new"
      using assms(1) r by (auto simp: launch_existing_def split: sum.splits option.splits if_splits prod.splits)
    then show ?thesis using new_execution_view v1 by metis
  qed
qed

lemma launch_new_view:
  assumes "launch_new le n p s = (Inr je, s')" "ok (lc_world s)"
  shows "ok (lc_world s') \<and> (\<exists>k t u i q. je = NewJobExecution k t u i n q) \<and> view (lc_world s') = view (lc_world s)"
proof -
  obtain q s1 where i: "(case le_Incrementer le n of None \<Rightarrow> (p, s) | Some g \<Rightarrow> lcall (g p) s) = (q, s1)"
    by fastforce
  have v1: "ok (lc_world s1) \<and> view (lc_world s1) = view (lc_world s)"
  proof (cases "le_Incrementer le n")
    case None
    then show ?thesis using i assms(2) by simp
  next
    case (Some g)
    then show ?thesis using i lcall_view[OF _ assms(2) calls(7)[OF Some]] by simp
  qed
  obtain d s2 where d: "lcall (le_NewID le) s1 = (d, s2)" by fastforce
  obtain t s3 where t: "lcall (le_Now le) s2 = (t, s3)" by fastforce
  let ?ji = "NewJobInstance d t (le_hash le) n q"
  obtain e s4 where sv: "lcall (jr_SaveInstance (le_repo le) ?ji) s3 = (e, s4)" by fastforce
  have v4: "ok (lc_world s4) \<and> view (lc_world s4) = view (lc_world s)"
    using lcall_view[OF d _ calls(6)] lcall_view[OF t _ calls(5)] lcall_view[OF sv _ calls(3)] v1 by simp
  have "e = None" using assms(1) i d t sv by (cases e) (auto simp: launch_new_def Let_def)
  then have "new_execution le (ji_ID ?ji) n (ji_Parameters ?ji) s4 = (je, s')"
    using assms(1) i d t sv by (auto simp: launch_new_def Let_def split: prod.splits)
  then show ?thesis using new_execution_view v4 by metis
qed

text \<open>What a successful launch does to the stored executions.\<close>

lemma launch_view:
  assumes "Launch le n p s = (Inr je, s')" "ok (lc_world s)"
  shows "ok (lc_world s') \<and> ((\<exists>prev now k t u i. restartable i prev \<and> view (lc_world s) (je_ID prev) \<noteq> None
        \<and> je = restart_execution prev (NewJobExecution k t u i n (je_Parameters prev))
        \<and> view (lc_world s') = (view (lc_world s))(je_ID prev \<mapsto> JobExecution_MarkAsAbandoned now prev, je_ID je \<mapsto> je))
    \<or> ((\<exists>k t u i q. je = NewJobExecution k t u i n q)
        \<and> view (lc_world s') = (view (lc_world s))(je_ID je \<mapsto> je)))"
proof -
  obtain c s1 where c: "lcall (le_CreateJob le n) s = (c, s1)" by fastforce
  then obtain job where job: "c = Inr job" using assms(1) by (cases c) (auto simp: Launch_def)
  have val: "le_Validate le job p = None" using assms(1) c job by (auto simp: Launch_def split: option.splits)
  obtain r s2 where r: "lcall (jr_FindInstance (le_repo le) n p) s1 = (r, s2)" by fastforce
  have v2: "ok (lc_world s2)" "view (lc_world s2) = view (lc_world s)"
    using lcall_view[OF c assms(2) calls(4)] lcall_view[OF r _ calls(2)] by simp_all
  obtain je0 s3 where l: "(case r of Inr (Some ji) \<Rightarrow> launch_existing le n ji s2 | _ \<Rightarrow> launch_new le n p s2) = (Inr je0, s3)"
    "launch_start le job je0 s3 = (Inr je, s')"
    using assms(1) c job val r by (auto simp: Launch_def split: if_splits sum.splits prod.splits)
  have st: "je0 = je" "ok (lc_world s3) \<Longrightarrow> ok (lc_world s') \<and> view (lc_world s') = (view (lc_world s3))(je_ID je \<mapsto> je)"
    using l(2) save_view[of "lc_world s3" je0]
    by (auto simp: launch_start_def lcall_def RegisterCancelFunc_def split: prod.splits option.splits)
  show ?thesis
  proof (cases "\<exists>ji. r = Inr (Some ji)")
    case True
    then obtain ji where "r = Inr (Some ji)" by blast
    then have "launch_existing le n ji s2 = (Inr je, s3)" using l(1) st(1) by simp
    from launch_existing_view[OF this v2(1)] show ?thesis using st(2) v2(2) by metis
  next
    case False
    then have "launch_new le n p s2 = (Inr je, s3)" using l(1) st(1) by (auto split: sum.splits option.splits)
    from launch_new_view[OF this v2(1)] show ?thesis using st(2) v2(2) by metis
  qed
qed

end

text \<open>
  The in-memory repository with a job factory, a clock and a source of identifiers that are read
  one after the other.
\<close>

definition mem_env :: "(JobParameters \<Rightarrow> JobParameters \<Rightarrow> bool) \<Rightarrow> (string \<Rightarrow> goerr + 'j) \<Rightarrow>
    ('j \<Rightarrow> JobParameters \<Rightarrow> goerr option) \<Rightarrow> (string \<Rightarrow> (JobParameters \<Rightarrow> JobParameters) option) \<Rightarrow>
    (nat \<Rightarrow> time) \<Rightarrow> (nat \<Rightarrow> string) \<Rightarrow> (JobParameters \<Rightarrow> string) \<Rightarrow>
    (InMemoryJobRepository \<times> nat, 'j) launch_env" where
  "mem_env eq create validate inc clock ids hash =
     \<lparr>le_repo = mem_repo eq, le_CreateJob = \<lambda>n w. (create n, w), le_Validate = validate,
      le_Incrementer = \<lambda>n. map_option (\<lambda>g p w. (g p, w)) (inc n),
      le_Now = \<lambda>w. (clock (snd w), (fst w, Suc (snd w))),
      le_NewID = \<lambda>w. (ids (snd w), (fst w, Suc (snd w))), le_hash = hash\<rparr>"

text \<open>Every execution is stored under its own identifier.\<close>

definition executions_keyed :: "InMemoryJobRepository \<Rightarrow> bool" where
  "executions_keyed r \<longleftrightarrow> gm_wf (jobExecutions r)
     \<and> (\<forall>k je. gm_get (jobExecutions r) k = Some je \<longrightarrow> je_ID je = k)"

lemma restartable_stored:
  assumes "executions_keyed r" "mem_FindLatestRestartableJobExecution r i = Inr je"
  shows "gm_get (jobExecutions r) (je_ID je) \<noteq> None \<and> restartable i je"
proof -
  obtain je0 where l: "latest_restartable i None (map snd (jobExecutions r)) = Some je0" "je = with_steps r je0"
    using assms(2) by (auto simp: mem_FindLatestRestartableJobExecution_def split: option.splits)
  then obtain k where "gm_get (jobExecutions r) k = Some je0" "restartable i je0"
    using latest_restartable_spec[OF l(1)] assms(1) by (force simp: executions_keyed_def gm_wf_def)
  then show ?thesis using l(2) assms(1) by (auto simp: executions_keyed_def with_steps_def restartable_def)
qed

lemma executions_keyed_put:
  "executions_keyed r \<Longrightarrow> executions_keyed (r\<lparr>jobExecutions := gm_put (je_ID je) je (jobExecutions r)\<rparr>)"
  by (simp add: executions_keyed_def)

interpretation mem_launch: execution_repository "mem_env eq create validate inc clock ids hash"
  "\<lambda>w. gm_get (jobExecutions (fst w))" "\<lambda>w. executions_keyed (fst w)"
  for eq create validate inc clock ids hash
proof (unfold_locales, goal_cases)
  case (1 w je e w')
  then show ?case
    by (auto simp: mem_env_def mem_repo_def as_world_def mem_SaveJobExecution_def gm_put_map executions_keyed_put
        split: if_splits)
next
  case (2 w je e w')
  then show ?case
    by (auto simp: mem_env_def mem_repo_def as_world_def mem_UpdateJobExecution_def gm_put_map executions_keyed_put
        split: if_splits)
next
  case (3 w je)
  then show ?case by (auto simp: mem_env_def mem_repo_def as_world_def mem_UpdateJobExecution_def)
next
  case (4 w i je w')
  then show ?case using restartable_stored[of "fst w" i je]
    by (auto simp: mem_env_def mem_repo_def as_search_def split: sum.splits)
next
  case (5 w f i n p ji)
  have "executions_keyed (r\<lparr>jobInstances := x\<rparr>) = executions_keyed r" for r x
    by (simp add: executions_keyed_def)
  then show ?case using 5
    by (auto simp: mem_env_def mem_repo_def as_search_def as_world_def mem_SaveJobInstance_def)
qed

section \<open>Launching\<close>

lemma lcall_keeps [simp]:
  "lcall f s = (r, s') \<Longrightarrow> activeJobCancellations s' = activeJobCancellations s"
  "lcall f s = (r, s') \<Longrightarrow> lc_started s' = lc_started s"
  "lcall f s = (r, s') \<Longrightarrow> lc_cancelled s' = lc_cancelled s"
  by (auto simp: lcall_def split: prod.splits)

text \<open>The operations that leave the launcher's own state alone.\<close>

definition same_launcher :: "('w, 'j) lstate \<Rightarrow> ('w, 'j) lstate \<Rightarrow> bool" where
  "same_launcher s s' \<longleftrightarrow> activeJobCancellations s' = activeJobCancellations s
     \<and> lc_started s' = lc_started s \<and> lc_cancelled s' = lc_cancelled s"

lemma same_launcher_call: "lcall f s = (r, s') \<Longrightarrow> same_launcher s s'"
  by (simp add: same_launcher_def)

lemma new_execution_launcher:
  "new_execution le i n p s = (je, s') \<Longrightarrow> same_launcher s s' \<and> je_Status je = STARTING"
  by (auto simp: new_execution_def same_launcher_def NewJobExecution_def split: prod.splits)

lemma restart_execution_fields:
  "je_Status (restart_execution prev new) = RESTARTING"
  "je_ID (restart_execution prev new) = je_ID new"
  "je_RestartCount (restart_execution prev new) = je_RestartCount prev + 1"
  "je_CurrentStepName (restart_execution prev new) = je_CurrentStepName prev"
  "je_Parameters (restart_execution prev new) = je_Parameters new"
  "je_JobInstanceID (restart_execution prev new) = je_JobInstanceID new"
  "je_StepExecutions (restart_execution prev new) =
     je_StepExecutions new @ map (CopyForRestart (je_ID new)) (je_StepExecutions prev)"
proof -
  have f: "P (fold AddStepExecution xs je)" if "\<And>se je. P je \<Longrightarrow> P (AddStepExecution se je)" "P je" for P xs je
    using that by (induction xs arbitrary: je) auto
  show "je_Status (restart_execution prev new) = RESTARTING"
    "je_ID (restart_execution prev new) = je_ID new"
    "je_RestartCount (restart_execution prev new) = je_RestartCount prev + 1"
    "je_CurrentStepName (restart_execution prev new) = je_CurrentStepName prev"
    "je_Parameters (restart_execution prev new) = je_Parameters new"
    "je_JobInstanceID (restart_execution prev new) = je_JobInstanceID new"
    unfolding restart_execution_def by (rule f; simp add: AddStepExecution_def)+
  have "je_StepExecutions (fold AddStepExecution xs je) = je_StepExecutions je @ xs" for xs je
    by (induction xs arbitrary: je) (auto simp: AddStepExecution_def)
  then show "je_StepExecutions (restart_execution prev new) =
     je_StepExecutions new @ map (CopyForRestart (je_ID new)) (je_StepExecutions prev)"
    by (simp add: restart_execution_def)
qed

lemma launch_existing_launcher:
  "launch_existing le n ji s = (r, s') \<Longrightarrow> same_launcher s s'
     \<and> (case r of Inl e \<Rightarrow> True | Inr je \<Rightarrow> je_Status je \<in> {STARTING, RESTARTING})"
  by (auto simp: launch_existing_def same_launcher_def restart_execution_fields(1)
      split: prod.splits sum.splits option.splits if_splits dest!: new_execution_launcher)

lemma launch_new_launcher:
  assumes "launch_new le n p s = (r, s')"
  shows "same_launcher s s' \<and> (case r of Inl e \<Rightarrow> True | Inr je \<Rightarrow> je_Status je = STARTING)"
proof -
  obtain q s1 where i: "(case le_Incrementer le n of None \<Rightarrow> (p, s) | Some g \<Rightarrow> lcall (g p) s) = (q, s1)"
    by fastforce
  have "same_launcher s s1"
    using i by (cases "le_Incrementer le n") (auto simp: same_launcher_def)
  then show ?thesis using assms i
    by (auto simp: launch_new_def Let_def same_launcher_def split: prod.splits option.splits
        dest!: new_execution_launcher)
qed

lemma launch_launcher:
  assumes "Launch le n p s = (r, s')"
  shows "case r of
      Inr je \<Rightarrow> je_Status je \<in> {STARTING, RESTARTING} \<and> GetCancelFunc (je_ID je) s' = Some (je_ID je)
        \<and> (\<exists>job. lc_started s' = lc_started s @ [(job, je)] \<and> le_Validate le job p = None)
    | Inl (e, x) \<Rightarrow> lc_started s' = lc_started s
        \<and> (\<forall>k. (\<forall>je. x = Some je \<longrightarrow> k \<noteq> je_ID je) \<longrightarrow> GetCancelFunc k s' = GetCancelFunc k s)
        \<and> (\<forall>je. x = Some je \<longrightarrow> GetCancelFunc (je_ID je) s' = None)"
proof -
  obtain c s1 where c: "lcall (le_CreateJob le n) s = (c, s1)" by fastforce
  note k1 = same_launcher_call[OF c]
  show ?thesis
  proof (cases c)
    case (Inl e)
    then show ?thesis using assms c k1 by (auto simp: Launch_def GetCancelFunc_def same_launcher_def)
  next
    case (Inr job)
    show ?thesis
    proof (cases "le_Validate le job p")
      case (Some e)
      then show ?thesis using assms c Inr k1 by (auto simp: Launch_def GetCancelFunc_def same_launcher_def)
    next
      case None
      obtain q s2 where q: "lcall (jr_FindInstance (le_repo le) n p) s1 = (q, s2)" by fastforce
      note k2 = same_launcher_call[OF q]
      show ?thesis
      proof (cases "case q of Inl e \<Rightarrow> \<not> errors_Is e ErrJobInstanceNotFound | Inr x \<Rightarrow> False")
        case True
        then show ?thesis using assms c Inr None q k1 k2
          by (auto simp: Launch_def GetCancelFunc_def same_launcher_def)
      next
        case False
        obtain l s3 where l: "(case q of Inr (Some ji) \<Rightarrow> launch_existing le n ji s2 | _ \<Rightarrow> launch_new le n p s2) = (l, s3)"
          by fastforce
        have k3: "same_launcher s2 s3 \<and> (case l of Inl e \<Rightarrow> True | Inr je \<Rightarrow> je_Status je \<in> {STARTING, RESTARTING})"
          using l by (auto split: sum.splits option.splits dest: launch_existing_launcher launch_new_launcher)
        show ?thesis
        proof (cases l)
          case L: (Inl e)
          then show ?thesis using assms c Inr None q False l k1 k2 k3
            by (auto simp: Launch_def GetCancelFunc_def same_launcher_def)
        next
          case J: (Inr je)
          have "launch_start le job je s3 = (r, s')"
            using assms c Inr None q False l J by (auto simp: Launch_def split: if_splits)
          then show ?thesis using None k1 k2 k3 J
            by (auto simp: launch_start_def GetCancelFunc_def same_launcher_def RegisterCancelFunc_def
                UnregisterCancelFunc_def lcall_def split: prod.splits option.splits)
        qed
      qed
    qed
  qed
qed

text \<open>
  A launch that returns an execution has started the runner on it, once, on a job that
  accepts the parameters, and its cancel function is registered; its status is \<open>STARTING\<close> or
  \<open>RESTARTING\<close>. A launch that returns an error starts nothing and leaves no cancel function
  behind that was not there.
\<close>

theorem launch_starts_one_execution:
  assumes "Launch le n p s = (r, s')"
  shows "case r of
      Inr je \<Rightarrow> je_Status je \<in> {STARTING, RESTARTING} \<and> GetCancelFunc (je_ID je) s' = Some (je_ID je)
        \<and> (\<exists>job. lc_started s' = lc_started s @ [(job, je)] \<and> le_Validate le job p = None)
    | Inl (e, x) \<Rightarrow> lc_started s' = lc_started s
        \<and> (\<forall>k. (\<forall>je. x = Some je \<longrightarrow> k \<noteq> je_ID je) \<longrightarrow> GetCancelFunc k s' = GetCancelFunc k s)
        \<and> (\<forall>je. x = Some je \<longrightarrow> GetCancelFunc (je_ID je) s' = None)"
  by (rule launch_launcher[OF assms])

text \<open>A job \<open>()\<close> that accepts all parameters, times and identifiers from the counter.\<close>

abbreviation demo_env :: "(InMemoryJobRepository \<times> nat, unit) launch_env" where
  "demo_env \<equiv> mem_env (\<lambda>a b. jp_map a = jp_map b) (\<lambda>n. Inr ()) (\<lambda>j p. None) (\<lambda>n. None) int nat_str (\<lambda>p. [])"

definition demo_launcher :: "InMemoryJobRepository \<Rightarrow> nat \<Rightarrow> (InMemoryJobRepository \<times> nat, unit) lstate" where
  "demo_launcher r n = \<lparr>lc_world = (r, n), activeJobCancellations = [], lc_started = [], lc_cancelled = []\<rparr>"

definition demo_repo :: "JobStatus \<Rightarrow> InMemoryJobRepository" where
  "demo_repo st =
     \<lparr>jobInstances = [(''i'', \<lparr>ji_ID = ''i'', ji_JobName = ''j'', ji_Parameters = NewJobParameters,
        ji_ParametersHash = [], ji_Version = 0, ji_CreateTime = 0\<rparr>)],
      jobExecutions = [(''e'', (NewJobExecution ''e'' 0 0 ''i'' ''j'' NewJobParameters)
        \<lparr>je_Status := st, je_CurrentStepName := ''b'', je_RestartCount := 2\<rparr>)],
      stepExecutions = [(''s'', zero_StepExecution\<lparr>se_ID := ''s'', se_StepName := ''b'', se_JobExecutionID := ''e'',
        se_Status := FAILED\<rparr>)],
      checkpointData = []\<rparr>"

lemma demo_launch_runs:
  "(case Launch demo_env ''j'' NewJobParameters (demo_launcher (demo_repo FAILED) 3) of
      (Inl e, s') \<Rightarrow> None | (Inr je, s') \<Rightarrow> Some (je_Status je, je_RestartCount je, je_ID je)) = Some (RESTARTING, 3, ''4'')"
  "(case Launch demo_env ''j'' NewJobParameters (demo_launcher (demo_repo STARTED) 3) of
      (Inl e, s') \<Rightarrow> None | (Inr je, s') \<Rightarrow> Some (je_Status je, je_RestartCount je, je_ID je)) = Some (STARTING, 0, ''3'')"
  by code_simp+

lemma launch_starts_one_execution_witness:
  "\<exists>je s'. Launch demo_env ''j'' NewJobParameters (demo_launcher (demo_repo FAILED) 3) = (Inr je, s')
     \<and> je_Status je \<in> {STARTING, RESTARTING} \<and> length (lc_started s') = 1"
proof -
  let ?l = "Launch demo_env ''j'' NewJobParameters (demo_launcher (demo_repo FAILED) 3)"
  obtain r s' where l: "?l = (r, s')" by fastforce
  then obtain je where r: "r = Inr je" using demo_launch_runs(1) by (cases r) auto
  from launch_starts_one_execution[OF l] show ?thesis using l r by (auto simp: demo_launcher_def)
qed

text \<open>
  C9: a launch on the in-memory repository either restarts or starts. A restart marks one failed
  or stopped execution of the instance abandoned and stores a new one that continues it: one
  restart more, the same parameters, current step and context, and a copy of every step with its
  context; any other launch stores one new execution without steps. No other execution changes.
\<close>

theorem launch_on_memory:
  assumes "Launch (mem_env eq create validate inc clock ids hash) n p s = (Inr je, s')"
    and "executions_keyed (fst (lc_world s))"
  shows "let m = gm_get (jobExecutions (fst (lc_world s)));
             m' = gm_get (jobExecutions (fst (lc_world s'))) in
    (\<exists>prev now. restartable (je_JobInstanceID je) prev \<and> m (je_ID prev) \<noteq> None
        \<and> m' = m(je_ID prev \<mapsto> JobExecution_MarkAsAbandoned now prev, je_ID je \<mapsto> je)
        \<and> je_Status je = RESTARTING \<and> je_RestartCount je = je_RestartCount prev + 1
        \<and> je_Parameters je = je_Parameters prev \<and> je_CurrentStepName je = je_CurrentStepName prev
        \<and> map se_StepName (je_StepExecutions je) = map se_StepName (je_StepExecutions prev)
        \<and> (\<forall>se \<in> set (je_StepExecutions je). se_ID se = je_ID je \<and> se_Status se = OtherStatus []))
    \<or> (m' = m(je_ID je \<mapsto> je) \<and> je_Status je = STARTING \<and> je_RestartCount je = 0 \<and> je_StepExecutions je = [])"
proof -
  from mem_launch.launch_view[OF assms] consider
    (restart) prev now k t u i where "restartable i prev" "gm_get (jobExecutions (fst (lc_world s))) (je_ID prev) \<noteq> None"
      "je = restart_execution prev (NewJobExecution k t u i n (je_Parameters prev))"
      "gm_get (jobExecutions (fst (lc_world s'))) = (gm_get (jobExecutions (fst (lc_world s))))
          (je_ID prev \<mapsto> JobExecution_MarkAsAbandoned now prev, je_ID je \<mapsto> je)"
    | (start) k t u i q where "je = NewJobExecution k t u i n q"
      "gm_get (jobExecutions (fst (lc_world s'))) = (gm_get (jobExecutions (fst (lc_world s))))(je_ID je \<mapsto> je)"
    by blast
  then show ?thesis
  proof cases
    case restart
    have "je_JobInstanceID je = i" using restart(3) by (simp add: restart_execution_fields NewJobExecution_def)
    moreover have "je_StepExecutions je = map (CopyForRestart (je_ID je)) (je_StepExecutions prev)"
      using restart(3) by (simp add: restart_execution_fields NewJobExecution_def)
    moreover have "map se_StepName (je_StepExecutions je) = map se_StepName (je_StepExecutions prev)
        \<and> (\<forall>se \<in> set (je_StepExecutions je). se_ID se = je_ID je \<and> se_Status se = OtherStatus [])"
      if "je_StepExecutions je = map (CopyForRestart (je_ID je)) (je_StepExecutions prev)"
      using that by (auto simp: CopyForRestart_def zero_StepExecution_def)
    moreover have "je_Status je = RESTARTING" "je_RestartCount je = je_RestartCount prev + 1"
      "je_Parameters je = je_Parameters prev" "je_CurrentStepName je = je_CurrentStepName prev"
      using restart(3) by (simp_all add: restart_execution_fields NewJobExecution_def)
    ultimately show ?thesis using restart(1,2,4) unfolding Let_def by blast
  next
    case start
    have "je_Status je = STARTING" "je_RestartCount je = 0" "je_StepExecutions je = []"
      using start(1) by (simp_all add: NewJobExecution_def)
    then show ?thesis using start(2) unfolding Let_def by blast
  qed
qed

lemma demo_keyed: "executions_keyed (demo_repo st)"
  by (simp add: executions_keyed_def demo_repo_def gm_wf_def NewJobExecution_def)

lemma launch_on_memory_witness:
  "\<exists>je s' prev now. Launch demo_env ''j'' NewJobParameters (demo_launcher (demo_repo FAILED) 3) = (Inr je, s')
     \<and> gm_get (jobExecutions (fst (lc_world s'))) =
         (gm_get (jobExecutions (demo_repo FAILED)))(je_ID prev \<mapsto> JobExecution_MarkAsAbandoned now prev, je_ID je \<mapsto> je)
     \<and> je_RestartCount je = je_RestartCount prev + 1"
proof -
  let ?l = "Launch demo_env ''j'' NewJobParameters (demo_launcher (demo_repo FAILED) 3)"
  obtain r s' where l: "?l = (r, s')" by fastforce
  then obtain je where r: "r = Inr je" "je_Status je = RESTARTING" using demo_launch_runs(1) by (cases r) auto
  from launch_on_memory[OF l[unfolded r(1)]] show ?thesis using l r demo_keyed
    by (auto simp: demo_launcher_def Let_def)
qed

text \<open>
  An execution that is still running does not keep its instance from being launched again.
  The search for a restartable execution never returns a running one, so the launcher's refusal
  of a concurrent restart is not reached: the second launch returns an execution of the same
  instance and starts it, and the first one stays as it is.
\<close>

theorem running_instance_launched_again:
  assumes "create n = Inr job" "validate job p = None"
    and "mem_FindJobInstanceByJobNameAndParameters eq (fst (lc_world s)) n p = Inr ji"
    and "\<forall>je \<in> set (map snd (jobExecutions (fst (lc_world s)))). \<not> restartable (ji_ID ji) je"
    and "gm_get (jobExecutions (fst (lc_world s))) k = Some running" "je_JobInstanceID running = ji_ID ji"
    and "je_Status running = STARTED" "gm_get (jobExecutions (fst (lc_world s))) (ids (snd (lc_world s))) = None"
  shows "\<exists>je s'. Launch (mem_env eq create validate inc clock ids hash) n p s = (Inr je, s')
    \<and> je_JobInstanceID je = ji_ID ji \<and> lc_started s' = lc_started s @ [(job, je)]
    \<and> gm_get (jobExecutions (fst (lc_world s'))) k = Some running
    \<and> gm_get (jobExecutions (fst (lc_world s'))) (je_ID je) = Some je"
proof -
  obtain r c where w: "lc_world s = (r, c)" by fastforce
  have "latest_restartable (ji_ID ji) None (map snd (jobExecutions r)) = None"
    using assms(4) w by (simp add: latest_restartable_None)
  then have nr: "mem_FindLatestRestartableJobExecution r (ji_ID ji) = Inl ErrJobExecutionNotFound"
    by (simp add: mem_FindLatestRestartableJobExecution_def)
  have nf: "errors_Is ErrJobExecutionNotFound ErrJobExecutionNotFound" by (simp add: ErrJobExecutionNotFound_def plain_error_def)
  have "k \<noteq> ids c" using assms(5,8) w by auto
  then show ?thesis
    using assms(1-3,5,6,8) w nr nf
    by (simp add: Launch_def mem_env_def lcall_def mem_repo_def as_search_def launch_existing_def
        new_execution_def NewJobExecution_def launch_start_def as_world_def mem_SaveJobExecution_def
        RegisterCancelFunc_def)
qed

lemma running_instance_launched_again_witness:
  "\<exists>je s'. Launch demo_env ''j'' NewJobParameters (demo_launcher (demo_repo STARTED) 3) = (Inr je, s')
    \<and> je_JobInstanceID je = ''i'' \<and> gm_get (jobExecutions (fst (lc_world s'))) (je_ID je) = Some je"
proof -
  let ?s = "demo_launcher (demo_repo STARTED) 3"
  have "nat_str 3 \<noteq> ''e''" by code_simp
  then have "\<exists>je s'. Launch demo_env ''j'' NewJobParameters ?s = (Inr je, s')
    \<and> je_JobInstanceID je = ji_ID (snd (hd (jobInstances (demo_repo STARTED)))) \<and> lc_started s' = lc_started ?s @ [((), je)]
    \<and> gm_get (jobExecutions (fst (lc_world s'))) ''e'' = Some (snd (hd (jobExecutions (demo_repo STARTED))))
    \<and> gm_get (jobExecutions (fst (lc_world s'))) (je_ID je) = Some je"
    by (intro running_instance_launched_again)
      (auto simp: demo_launcher_def demo_repo_def mem_FindJobInstanceByJobNameAndParameters_def
        NewJobExecution_def restartable_def)
  then show ?thesis by (auto simp: demo_repo_def)
qed

section \<open>Operating\<close>

text \<open>
  Stopping and abandoning, on a repository that finds the execution and stores it. Stopping
  is refused for a finished execution; any other becomes \<open>STOPPING\<close>, also from a status that
  has no transition to it, and the call succeeds exactly when a cancel function is registered,
  which is then called. Abandoning is refused while the execution runs and after it has finished;
  \<open>STOPPING_FAILED\<close> does not count as finished.
\<close>

theorem operator_statuses:
  assumes "jr_FindExecution (le_repo le) k w = (Inr (Some je), w)"
    and "\<And>x. je_ID x = je_ID je \<Longrightarrow> fst (jr_UpdateExecution (le_repo le) x (snd (le_Now le w))) = None"
    and "lc_world s = w"
  shows "(case Stop le True k s of (r, s') \<Rightarrow>
      if IsFinished (je_Status je) then r \<noteq> None \<and> s' = s
      else \<exists>je' w1. je_Status je' = STOPPING \<and> je_ID je' = je_ID je
        \<and> lc_world s' = snd (jr_UpdateExecution (le_repo le) je' w1)
        \<and> (r = None \<longleftrightarrow> GetCancelFunc k s \<noteq> None)
        \<and> lc_cancelled s' = lc_cancelled s @ (case GetCancelFunc k s of None \<Rightarrow> [] | Some c \<Rightarrow> [c]))
    \<and> (case Abandon le True k s of (r, s') \<Rightarrow>
      (r = None \<longleftrightarrow> je_Status je \<notin> {STARTED, STOPPING, RESTARTING, COMPLETED, FAILED, STOPPED, CANCELLED})
      \<and> (r = None \<longrightarrow> je_Status je \<noteq> ABANDONED \<longrightarrow> GetCancelFunc k s' = None
           \<and> (\<exists>je' w1. je_Status je' = ABANDONED \<and> lc_world s' = snd (jr_UpdateExecution (le_repo le) je' w1)))
      \<and> (r \<noteq> None \<longrightarrow> s' = s))"
proof -
  have ld: "op_load le what k s = (Inr je, s)" for what
    using assms(1,3) by (simp add: op_load_def lcall_def)
  obtain now s1 where n: "lcall (le_Now le) s = (now, s1)" by fastforce
  have "lc_world s1 = snd (le_Now le w)" using n assms(3) by (auto simp: lcall_def split: prod.splits)
  then have up: "lcall (jr_UpdateExecution (le_repo le) x) s1
      = (None, s1\<lparr>lc_world := snd (jr_UpdateExecution (le_repo le) x (lc_world s1))\<rparr>)"
    if "je_ID x = je_ID je" for x
    using assms(2)[OF that] by (auto simp: lcall_def split: prod.splits)
  note k1 = same_launcher_call[OF n, unfolded same_launcher_def]
  define je' where "je' = (case JobExecution_TransitionTo now STOPPING je of
                          Inr x \<Rightarrow> x
                        | Inl e \<Rightarrow> je\<lparr>je_Status := STOPPING, je_LastUpdated := now\<rparr>)"
  have j: "je_Status je' = STOPPING" "je_ID je' = je_ID je"
    by (auto simp: je'_def JobExecution_TransitionTo_def)
  have "case Stop le True k s of (r, s') \<Rightarrow>
      if IsFinished (je_Status je) then r \<noteq> None \<and> s' = s
      else \<exists>je' w1. je_Status je' = STOPPING \<and> je_ID je' = je_ID je
        \<and> lc_world s' = snd (jr_UpdateExecution (le_repo le) je' w1)
        \<and> (r = None \<longleftrightarrow> GetCancelFunc k s \<noteq> None)
        \<and> lc_cancelled s' = lc_cancelled s @ (case GetCancelFunc k s of None \<Rightarrow> [] | Some c \<Rightarrow> [c])"
  proof (cases "IsFinished (je_Status je)")
    case False
    then show ?thesis using k1 j
      by (auto simp: Stop_def ld n up je'_def[symmetric] GetCancelFunc_def split: option.splits
          intro!: exI[of _ je'])
  qed (simp add: Stop_def ld)
  moreover have "case Abandon le True k s of (r, s') \<Rightarrow>
      (r = None \<longleftrightarrow> je_Status je \<notin> {STARTED, STOPPING, RESTARTING, COMPLETED, FAILED, STOPPED, CANCELLED})
      \<and> (r = None \<longrightarrow> je_Status je \<noteq> ABANDONED \<longrightarrow> GetCancelFunc k s' = None
           \<and> (\<exists>je' w1. je_Status je' = ABANDONED \<and> lc_world s' = snd (jr_UpdateExecution (le_repo le) je' w1)))
      \<and> (r \<noteq> None \<longrightarrow> s' = s)"
  proof -
    have "IsFinished (je_Status je) \<longleftrightarrow> je_Status je \<in> {ABANDONED, COMPLETED, FAILED, STOPPED, CANCELLED}"
      by (cases "je_Status je") auto
    then show ?thesis using k1
      by (auto simp: Abandon_def ld n up UnregisterCancelFunc_def GetCancelFunc_def delete_conv' JobExecution_MarkAsAbandoned_def
          intro!: exI[of _ "JobExecution_MarkAsAbandoned now je"])
  qed
  ultimately show ?thesis ..
qed

lemma demo_find: "jr_FindExecution (le_repo demo_env) ''e'' (demo_repo st, 3) =
    (Inr (Some (with_steps (demo_repo st) (snd (hd (jobExecutions (demo_repo st)))))), (demo_repo st, 3))"
  by (simp add: mem_env_def mem_repo_def as_search_def mem_FindJobExecutionByID_def demo_repo_def)

lemma operator_statuses_witness:
  "\<exists>s'. Abandon demo_env True ''e'' (demo_launcher (demo_repo STOPPING_FAILED) 3) = (None, s')
     \<and> GetCancelFunc ''e'' s' = None"
proof -
  let ?s = "demo_launcher (demo_repo STOPPING_FAILED) 3" and ?r = "demo_repo STOPPING_FAILED"
  let ?je = "with_steps ?r (snd (hd (jobExecutions ?r)))"
  have w: "lc_world ?s = (?r, 3)" by (simp add: demo_launcher_def)
  have st: "je_Status ?je = STOPPING_FAILED" "je_ID ?je = ''e''"
    by (simp_all add: with_steps_def demo_repo_def NewJobExecution_def)
  have "fst (jr_UpdateExecution (le_repo demo_env) x (snd (le_Now demo_env (?r, 3)))) = None"
    if "je_ID x = je_ID ?je" for x
    using that st(2) by (simp add: mem_env_def mem_repo_def as_world_def mem_UpdateJobExecution_def demo_repo_def)
  from operator_statuses[OF demo_find this w] show ?thesis
    by (cases "Abandon demo_env True ''e'' ?s") (auto simp: st(1))
qed

text \<open>
  C31: \<open>Restart\<close> accepts an abandoned or cancelled execution, but the launcher it delegates to
  continues only failed and stopped ones: when the instance has none of these, the job starts
  over, with no restart counted, no step and nothing of the old context. The execution it was
  asked to restart is not changed.
\<close>

theorem restart_of_abandoned_starts_over:
  assumes "create (je_JobName prev) = Inr job" "validate job (je_Parameters prev) = None"
    and "gm_get (jobExecutions (fst (lc_world s))) k = Some prev" "je_Status prev \<in> {ABANDONED, CANCELLED}"
    and "mem_FindJobInstanceByJobNameAndParameters eq (fst (lc_world s)) (je_JobName prev) (je_Parameters prev) = Inr ji"
    and "\<forall>je \<in> set (map snd (jobExecutions (fst (lc_world s)))). \<not> restartable (ji_ID ji) je"
    and "gm_get (jobExecutions (fst (lc_world s))) (ids (snd (lc_world s))) = None"
  shows "\<exists>je s'. Restart (mem_env eq create validate inc clock ids hash) True k s = (Inr je, s')
    \<and> je_Status je = STARTING \<and> je_RestartCount je = 0 \<and> je_StepExecutions je = []
    \<and> je_ExecutionContext je = NewExecutionContext
    \<and> gm_get (jobExecutions (fst (lc_world s'))) k = Some prev"
proof -
  obtain r c where w: "lc_world s = (r, c)" by fastforce
  let ?le = "mem_env eq create validate inc clock ids hash"
  have "latest_restartable (ji_ID ji) None (map snd (jobExecutions r)) = None"
    using assms(6) w by (simp add: latest_restartable_None)
  then have nr: "mem_FindLatestRestartableJobExecution r (ji_ID ji) = Inl ErrJobExecutionNotFound"
    by (simp add: mem_FindLatestRestartableJobExecution_def)
  have nf: "errors_Is ErrJobExecutionNotFound ErrJobExecutionNotFound" by (simp add: ErrJobExecutionNotFound_def plain_error_def)
  have kc: "k \<noteq> ids c" using assms(3,7) w by auto
  have ld: "op_load ?le what k s = (Inr (with_steps r prev), s)" for what
    using assms(3) w by (simp add: op_load_def lcall_def mem_env_def mem_repo_def as_search_def mem_FindJobExecutionByID_def)
  have f: "je_Status (with_steps r prev) = je_Status prev" "je_JobName (with_steps r prev) = je_JobName prev"
    "je_Parameters (with_steps r prev) = je_Parameters prev"
    by (simp_all add: with_steps_def)
  have "\<exists>je s'. Launch ?le (je_JobName prev) (je_Parameters prev) s = (Inr je, s')
    \<and> je_Status je = STARTING \<and> je_RestartCount je = 0 \<and> je_StepExecutions je = []
    \<and> je_ExecutionContext je = NewExecutionContext
    \<and> gm_get (jobExecutions (fst (lc_world s'))) k = Some prev"
    using assms(1-3,5,7) w nr nf kc
    by (simp add: Launch_def mem_env_def lcall_def mem_repo_def as_search_def launch_existing_def
        new_execution_def NewJobExecution_def launch_start_def as_world_def mem_SaveJobExecution_def
        RegisterCancelFunc_def)
  moreover have "is_restartable (je_Status (with_steps r prev))" using assms(4) f(1) by (auto simp: is_restartable_def)
  ultimately show ?thesis by (auto simp: Restart_def ld f)
qed

lemma restart_of_abandoned_starts_over_witness:
  "\<exists>je s'. Restart demo_env True ''e'' (demo_launcher (demo_repo ABANDONED) 3) = (Inr je, s')
    \<and> je_RestartCount je = 0"
proof -
  let ?s = "demo_launcher (demo_repo ABANDONED) 3"
  have "nat_str 3 \<noteq> ''e''" by code_simp
  then have "\<exists>je s'. Restart demo_env True ''e'' ?s = (Inr je, s')
    \<and> je_Status je = STARTING \<and> je_RestartCount je = 0 \<and> je_StepExecutions je = []
    \<and> je_ExecutionContext je = NewExecutionContext
    \<and> gm_get (jobExecutions (fst (lc_world s'))) ''e'' = Some (snd (hd (jobExecutions (demo_repo ABANDONED))))"
    by (intro restart_of_abandoned_starts_over)
      (auto simp: demo_launcher_def demo_repo_def mem_FindJobInstanceByJobNameAndParameters_def
        NewJobExecution_def restartable_def)
  then show ?thesis by blast
qed

end
