(* ===== verification/JSL_Conversion.thy ===== *)
theory JSL_Conversion
  imports Tasklet_Step Fault_Policies
begin

text \<open>
  \<open>core/config/jsl/model.go\<close> and \<open>step_adapter.go\<close>, with the factory \<open>engine/step/factory\<close> and
  the constructors of the steps: a job written in the job specification language is turned into the
  flow definition that the flow job walks.

  YAML is a third party's: an element of the flow is of the type \<open>'y\<close>, and \<open>yaml_Marshal\<close> and the
  three \<open>yaml_\<close> functions, one for each type \<open>yaml.Unmarshal\<close> is given, are parameters. The
  registered builders are maps to functions of the properties; what they build is of the type
  \<open>'c\<close>, and \<open>is_Reader\<close> and the others are the type assertions. A Go map is visited in any order:
  the conversion takes the orders of its two loops as arguments.
\<close>

section \<open>The specification language\<close>

text \<open>
  A value of YAML: a text, a map with string keys, a map with other keys, a sequence, or another
  scalar, of which only the text is kept.
\<close>

datatype ykey = KeyString string | KeyOther string string

datatype yval =
    YString string
  | YMap "(string \<times> yval) list"
  | YAnyMap "(ykey \<times> yval) list"
  | YSeq "yval list"
  | YOther string

type_synonym props = "(string, yval) gomap"

record ComponentRef =
  cr_Ref :: string
  cr_Properties :: props

record jsl_Chunk =
  ck_ItemCount :: int
  ck_CommitInterval :: int
  ck_IsolationLevel :: string

record jsl_Transition =
  jt_On :: string
  jt_To :: string
  jt_End :: bool
  jt_Fail :: bool
  jt_Stop :: bool

record jsl_Partition =
  jp_Partitioner :: ComponentRef
  jp_Step :: string
  jp_GridSize :: int
  jp_Concurrency :: "int option"

record jsl_Step =
  js_ID :: string
  js_Description :: string
  js_Reader :: ComponentRef
  js_Processor :: ComponentRef
  js_Writer :: ComponentRef
  js_Chunk :: "jsl_Chunk option"
  js_Tasklet :: ComponentRef
  js_Partition :: "jsl_Partition option"
  js_Propagation :: string
  js_IsolationLevel :: string
  js_Transitions :: "jsl_Transition list"
  js_Listeners :: "ComponentRef list"
  js_ItemReadListeners :: "ComponentRef list"
  js_ItemProcessListeners :: "ComponentRef list"
  js_ItemWriteListeners :: "ComponentRef list"
  js_SkipListeners :: "ComponentRef list"
  js_RetryItemListeners :: "ComponentRef list"
  js_ChunkListeners :: "ComponentRef list"
  js_Promotion :: "ExecutionContextPromotion option"
  js_TransactionAttribute :: string

record jsl_Decision =
  jd_ID :: string
  jd_Description :: string
  jd_Ref :: string
  jd_Properties :: props
  jd_Transitions :: "jsl_Transition list"

record jsl_Split =
  jsp_ID :: string
  jsp_Description :: string
  jsp_Steps :: "string list"
  jsp_Transitions :: "jsl_Transition list"

record 'y jsl_Flow =
  jf_StartElement :: string
  jf_Elements :: "(string, 'y) gomap"

section \<open>The steps that are built\<close>

record RetryConfig =
  rc_MaxAttempts :: int
  rc_InitialInterval :: int

record ItemRetryConfig =
  irc_MaxAttempts :: int
  irc_InitialInterval :: int
  irc_RetryableExceptions :: "string list"

record ItemSkipConfig =
  isc_SkipLimit :: int
  isc_SkippableExceptions :: "string list"

text \<open>The listeners of a chunk step besides its step listeners.\<close>

record 'c item_listeners =
  il_Read :: "'c list"
  il_Process :: "'c list"
  il_Write :: "'c list"
  il_Retry :: "'c list"
  il_Chunk :: "'c list"

definition no_listeners :: "'c item_listeners" where
  "no_listeners = \<lparr>il_Read = [], il_Process = [], il_Write = [], il_Retry = [], il_Chunk = []\<rparr>"

text \<open>The configurable fields of the three kinds of steps; the rest is injected by the factory.\<close>

record 'c chunk_fields =
  cf_id :: string
  cf_reader :: 'c
  cf_processor :: 'c
  cf_writer :: 'c
  cf_chunkSize :: int
  cf_commitInterval :: int
  cf_stepListeners :: "'c list"
  cf_itemListeners :: "'c item_listeners"
  cf_skipListeners :: "'c list"
  cf_promotion :: "ExecutionContextPromotion option"
  cf_retryPolicy :: RetryPolicy
  cf_itemRetryPolicy :: RetryPolicy
  cf_skipPolicy :: SkipPolicy
  cf_isolationLevel :: isolation
  cf_propagation :: string

record 'c tasklet_fields =
  tf_id :: string
  tf_tasklet :: 'c
  tf_stepListeners :: "'c list"
  tf_promotion :: "ExecutionContextPromotion option"
  tf_isolationLevel :: isolation
  tf_propagation :: string

datatype 'c core_step =
    ChunkStep "'c chunk_fields"
  | TaskletStep "'c tasklet_fields"
  | PartitionStep (part_id: string) (part_partitioner: 'c) (part_worker: "'c core_step")
      (part_gridSize: int) (part_concurrency: int) (part_listeners: "'c list")
      (part_promotion: "ExecutionContextPromotion option")

fun core_step_ID :: "'c core_step \<Rightarrow> string" where
  "core_step_ID (ChunkStep c) = cf_id c"
| "core_step_ID (TaskletStep t) = tf_id t"
| "core_step_ID (PartitionStep i p w g n ls pr) = i"

datatype 'c core_element = CoreStep "'c core_step" | CoreDecision 'c | CoreSplit 'c

section \<open>What the conversion is given\<close>

record ('y, 'c) jsl_env =
  yaml_Marshal :: "'y \<Rightarrow> goerr + string"
  yaml_Step :: "string \<Rightarrow> goerr + jsl_Step"
  yaml_Decision :: "string \<Rightarrow> goerr + jsl_Decision"
  yaml_Split :: "string \<Rightarrow> goerr + jsl_Split"
  env_Resolve :: "string \<Rightarrow> goerr + string"
  env_Retry :: RetryConfig
  env_ItemRetry :: ItemRetryConfig
  env_ItemSkip :: ItemSkipConfig
  is_Reader :: "'c \<Rightarrow> bool"
  is_Processor :: "'c \<Rightarrow> bool"
  is_Writer :: "'c \<Rightarrow> bool"
  is_Tasklet :: "'c \<Rightarrow> bool"
  is_Partitioner :: "'c \<Rightarrow> bool"
  go_type :: "'c \<Rightarrow> string"
  componentBuilders :: "(string, props \<Rightarrow> goerr + 'c) gomap"
  decisionBuilders :: "(string, string \<Rightarrow> props \<Rightarrow> goerr + 'c) gomap"
  splitBuilders :: "(string, string \<Rightarrow> 'c core_step list \<Rightarrow> goerr + 'c) gomap"
  partitionerBuilders :: "(string, props \<Rightarrow> goerr + 'c) gomap"
  stepListenerBuilders :: "(string, props \<Rightarrow> goerr + 'c) gomap"
  itemReadListenerBuilders :: "(string, props \<Rightarrow> goerr + 'c) gomap"
  itemProcessListenerBuilders :: "(string, props \<Rightarrow> goerr + 'c) gomap"
  itemWriteListenerBuilders :: "(string, props \<Rightarrow> goerr + 'c) gomap"
  skipListenerBuilders :: "(string, props \<Rightarrow> goerr + 'c) gomap"
  retryItemListenerBuilders :: "(string, props \<Rightarrow> goerr + 'c) gomap"
  chunkListenerBuilders :: "(string, props \<Rightarrow> goerr + 'c) gomap"

section \<open>The step factory\<close>

definition CreateChunkStep :: "('y, 'c) jsl_env \<Rightarrow> string \<Rightarrow> 'c \<Rightarrow> 'c \<Rightarrow> 'c \<Rightarrow> int \<Rightarrow> int \<Rightarrow> 'c list \<Rightarrow>
    'c item_listeners \<Rightarrow> 'c list \<Rightarrow> ExecutionContextPromotion option \<Rightarrow> string \<Rightarrow> string \<Rightarrow> 'c core_step" where
  "CreateChunkStep env name r p w chunkSize commitInterval sls ils skls promotion isolationLevel propagation =
     ChunkStep
      \<lparr>cf_id = name, cf_reader = r, cf_processor = p, cf_writer = w, cf_chunkSize = chunkSize,
       cf_commitInterval = commitInterval, cf_stepListeners = sls, cf_itemListeners = ils,
       cf_skipListeners = skls, cf_promotion = promotion,
       cf_retryPolicy = RetryPolicy_Create (rc_MaxAttempts (env_Retry env)) (rc_InitialInterval (env_Retry env)) [],
       cf_itemRetryPolicy = RetryPolicy_Create (irc_MaxAttempts (env_ItemRetry env))
         (irc_InitialInterval (env_ItemRetry env)) (irc_RetryableExceptions (env_ItemRetry env)),
       cf_skipPolicy = SkipPolicy_Create (isc_SkipLimit (env_ItemSkip env)) (isc_SkippableExceptions (env_ItemSkip env)),
       cf_isolationLevel = parseIsolationLevel isolationLevel, cf_propagation = propagation\<rparr>"

definition CreateTaskletStep :: "string \<Rightarrow> 'c \<Rightarrow> 'c list \<Rightarrow> ExecutionContextPromotion option \<Rightarrow> string \<Rightarrow>
    string \<Rightarrow> 'c core_step" where
  "CreateTaskletStep name t sls promotion isolationLevel propagation = TaskletStep
     \<lparr>tf_id = name, tf_tasklet = t, tf_stepListeners = sls, tf_promotion = promotion,
      tf_isolationLevel = tasklet_parseIsolationLevel isolationLevel, tf_propagation = propagation\<rparr>"

definition CreatePartitionStep :: "string \<Rightarrow> 'c \<Rightarrow> 'c core_step \<Rightarrow> int \<Rightarrow> int \<Rightarrow> 'c list \<Rightarrow>
    ExecutionContextPromotion option \<Rightarrow> 'c core_step" where
  "CreatePartitionStep name partitioner workerStep gridSize concurrency sls promotion =
     PartitionStep name partitioner workerStep gridSize concurrency sls promotion"

section \<open>Properties\<close>

definition jsl_module :: string where
  "jsl_module = ''jsl_converter''"

definition jsl_fail :: "string \<Rightarrow> goerr option \<Rightarrow> goerr" where
  "jsl_fail msg err = NewBatchError jsl_module msg err False False"

definition jsl_failf :: "string \<Rightarrow> string list \<Rightarrow> goerr" where
  "jsl_failf format args = NewBatchErrorf jsl_module format (map ArgStr args)"

text \<open>Maps with string keys are not descended into.\<close>

fun convertMapKeysToString :: "yval \<Rightarrow> goerr + yval"
  and convert_entries :: "(ykey \<times> yval) list \<Rightarrow> (string \<times> yval) list \<Rightarrow> goerr + (string \<times> yval) list"
  and convert_items :: "yval list \<Rightarrow> goerr + yval list" where
  "convertMapKeysToString (YAnyMap kvs) = bind_res (convert_entries kvs []) (\<lambda>m. Inr (YMap m))"
| "convertMapKeysToString (YSeq vs) = bind_res (convert_items vs) (\<lambda>ws. Inr (YSeq ws))"
| "convertMapKeysToString (YString s) = Inr (YString s)"
| "convertMapKeysToString (YMap kvs) = Inr (YMap kvs)"
| "convertMapKeysToString (YOther t) = Inr (YOther t)"
| "convert_entries [] m = Inr m"
| "convert_entries ((k, v) # kvs) m = (case k of
       KeyOther t ty \<Rightarrow> Inl (plain_error (''map key is not a string: '' @ t @ '' (type '' @ ty @ '')''))
     | KeyString s \<Rightarrow> bind_res (convertMapKeysToString v) (\<lambda>w. convert_entries kvs (gm_put s w m)))"
| "convert_items [] = Inr []"
| "convert_items (v # vs) =
     bind_res (convertMapKeysToString v) (\<lambda>w. bind_res (convert_items vs) (\<lambda>ws. Inr (w # ws)))"

fun resolve_props :: "(string \<Rightarrow> goerr + string) \<Rightarrow> string \<Rightarrow> (string \<times> yval) list \<Rightarrow> props \<Rightarrow> goerr + props" where
  "resolve_props resolve ref [] acc = Inr acc"
| "resolve_props resolve ref ((key, v) # kvs) acc =
     (case convertMapKeysToString v of
        Inl e \<Rightarrow> Inl (jsl_fail (''Failed to convert map keys to string for property '' @ quoted key) (Some e))
      | Inr (YString s) \<Rightarrow> (case resolve s of
            Inr t \<Rightarrow> resolve_props resolve ref kvs (gm_put key (YString t) acc)
          | Inl e \<Rightarrow> Inl (jsl_fail (''Failed to resolve property '' @ quoted key @ '' for ComponentRef '' @ quoted ref) (Some e)))
      | Inr w \<Rightarrow> resolve_props resolve ref kvs (gm_put key w acc))"

definition resolveComponentRefProperties :: "(string \<Rightarrow> goerr + string) \<Rightarrow> ComponentRef \<Rightarrow> goerr + props" where
  "resolveComponentRefProperties resolve ref =
     (if cr_Properties ref = [] then Inr (cr_Properties ref)
      else resolve_props resolve (cr_Ref ref) (cr_Properties ref) [])"

section \<open>Components\<close>

text \<open>A component that must be registered, must be built, and must be of the type expected.\<close>

definition build_component :: "('y, 'c) jsl_env \<Rightarrow> string \<Rightarrow> ('c \<Rightarrow> bool) \<Rightarrow> string \<Rightarrow> string \<Rightarrow> props \<Rightarrow> goerr + 'c" where
  "build_component env what ok expected ref ps = (case gm_get (componentBuilders env) ref of
       None \<Rightarrow> Inl (jsl_failf (what @ '' builder '' @ quoted ''%s'' @ '' not found'') [ref])
     | Some builder \<Rightarrow> (case builder ps of
           Inl e \<Rightarrow> Inl (jsl_fail (''Failed to build '' @ what @ '' '' @ quoted ref) (Some e))
         | Inr c \<Rightarrow> (if ok c then Inr c
             else Inl (jsl_failf (what @ '' '' @ quoted ''%s'' @ '' is of incorrect type (Expected: '' @ expected
                    @ '', Actual: %s)'') [ref, go_type env c]))))"

definition buildReaderWriterProcessor :: "('y, 'c) jsl_env \<Rightarrow> string \<times> props \<Rightarrow> string \<times> props \<Rightarrow> string \<times> props \<Rightarrow>
    goerr + 'c \<times> 'c \<times> 'c" where
  "buildReaderWriterProcessor env rd pr wr =
     bind_res (build_component env ''Reader'' (is_Reader env) ''core.ItemReader[any]'' (fst rd) (snd rd)) (\<lambda>r.
     bind_res (build_component env ''Processor'' (is_Processor env) ''core.ItemProcessor[any, any]'' (fst pr) (snd pr)) (\<lambda>p.
     bind_res (build_component env ''Writer'' (is_Writer env) ''core.ItemWriter[any]'' (fst wr) (snd wr)) (\<lambda>w.
     Inr (r, p, w))))"

text \<open>The properties of the three components are resolved before any of them is built.\<close>

definition build_chunk_parts :: "('y, 'c) jsl_env \<Rightarrow> jsl_Step \<Rightarrow> goerr + 'c \<times> 'c \<times> 'c" where
  "build_chunk_parts env st =
     bind_res (resolveComponentRefProperties (env_Resolve env) (js_Reader st)) (\<lambda>rp.
     bind_res (resolveComponentRefProperties (env_Resolve env) (js_Processor st)) (\<lambda>pp.
     bind_res (resolveComponentRefProperties (env_Resolve env) (js_Writer st)) (\<lambda>wp.
     buildReaderWriterProcessor env (cr_Ref (js_Reader st), rp) (cr_Ref (js_Processor st), pp)
       (cr_Ref (js_Writer st), wp))))"

text \<open>A tasklet of a step, or with \<open>Worker \<close> in the messages one of a worker step.\<close>

definition build_tasklet :: "('y, 'c) jsl_env \<Rightarrow> bool \<Rightarrow> jsl_Step \<Rightarrow> goerr + 'c" where
  "build_tasklet env worker st =
     (let ref = cr_Ref (js_Tasklet st); what = (if worker then ''Worker Tasklet'' else ''Tasklet'') in
      case gm_get (componentBuilders env) ref of
        None \<Rightarrow> Inl (jsl_failf ((if worker then ''Worker Tasklet builder '' else ''Tasklet component builder '')
                  @ quoted ''%s'' @ '' not found'') [ref])
      | Some builder \<Rightarrow>
          bind_res (resolveComponentRefProperties (env_Resolve env) (js_Tasklet st)) (\<lambda>ps.
          case builder ps of
            Inl e \<Rightarrow> Inl (jsl_fail (''Failed to build '' @ what @ '' '' @ quoted ref) (Some e))
          | Inr c \<Rightarrow> if is_Tasklet env c then Inr c
              else if worker then Inl (jsl_failf (''Worker Tasklet '' @ quoted ''%s'' @ '' is of incorrect type'') [ref])
              else Inl (jsl_failf (''Tasklet '' @ quoted ''%s''
                     @ '' not found or is of incorrect type (Expected: core.Tasklet, Actual: %s)'') [ref, go_type env c])))"

definition build_partitioner :: "('y, 'c) jsl_env \<Rightarrow> jsl_Partition \<Rightarrow> goerr + 'c" where
  "build_partitioner env pa =
     (let ref = cr_Ref (jp_Partitioner pa) in
      bind_res (resolveComponentRefProperties (env_Resolve env) (jp_Partitioner pa)) (\<lambda>ps.
      case gm_get (partitionerBuilders env) ref of
        None \<Rightarrow> Inl (jsl_failf (''Partitioner component builder '' @ quoted ''%s'' @ '' not found'') [ref])
      | Some builder \<Rightarrow> (case builder ps of
            Inl e \<Rightarrow> Inl (jsl_fail (''Failed to build Partitioner '' @ quoted ref) (Some e))
          | Inr c \<Rightarrow> (if is_Partitioner env c then Inr c
              else Inl (jsl_failf (''Partitioner '' @ quoted ''%s''
                     @ '' not found or is of incorrect type (Expected: core.Partitioner, Actual: %s)'')
                     [ref, go_type env c])))))"

text \<open>The loops over the listeners of a step; they get their properties unresolved.\<close>

fun build_listeners :: "string \<Rightarrow> (string, props \<Rightarrow> goerr + 'c) gomap \<Rightarrow> ComponentRef list \<Rightarrow> goerr + 'c list" where
  "build_listeners what builders [] = Inr []"
| "build_listeners what builders (ref # refs) =
     (case gm_get builders (cr_Ref ref) of
        None \<Rightarrow> Inl (jsl_failf (what @ '' builder '' @ quoted ''%s'' @ '' is not registered'') [cr_Ref ref])
      | Some builder \<Rightarrow> (case builder (cr_Properties ref) of
            Inl e \<Rightarrow> Inl (jsl_fail (''Failed to build '' @ what @ '' '' @ quoted (cr_Ref ref)) (Some e))
          | Inr l \<Rightarrow> bind_res (build_listeners what builders refs) (\<lambda>ls. Inr (l # ls))))"

definition build_item_listeners :: "('y, 'c) jsl_env \<Rightarrow> jsl_Step \<Rightarrow> goerr + 'c item_listeners" where
  "build_item_listeners env st = (if js_Chunk st = None then Inr no_listeners else
     bind_res (build_listeners ''ItemReadListener'' (itemReadListenerBuilders env) (js_ItemReadListeners st)) (\<lambda>rl.
     bind_res (build_listeners ''ItemProcessListener'' (itemProcessListenerBuilders env) (js_ItemProcessListeners st)) (\<lambda>pl.
     bind_res (build_listeners ''ItemWriteListener'' (itemWriteListenerBuilders env) (js_ItemWriteListeners st)) (\<lambda>wl.
     bind_res (build_listeners ''RetryItemListener'' (retryItemListenerBuilders env) (js_RetryItemListeners st)) (\<lambda>tl.
     bind_res (build_listeners ''ChunkListener'' (chunkListenerBuilders env) (js_ChunkListeners st)) (\<lambda>cl.
     Inr \<lparr>il_Read = rl, il_Process = pl, il_Write = wl, il_Retry = tl, il_Chunk = cl\<rparr>))))))"

section \<open>The first pass\<close>

text \<open>
  What the first pass leaves for an element: the element, or for a partition step what its
  construction in the second pass needs.
\<close>

datatype 'c built =
    Built "'c core_element"
  | BuiltPartition jsl_Step 'c "'c list" "ExecutionContextPromotion option"

text \<open>Which of the three types an element is read as.\<close>

datatype jsl_element = ElemStep jsl_Step | ElemDecision jsl_Decision | ElemSplit jsl_Split | ElemUnknown

definition classify_rest :: "('y, 'c) jsl_env \<Rightarrow> string \<Rightarrow> jsl_element" where
  "classify_rest env bytes = (case yaml_Decision env bytes of
       Inr d \<Rightarrow> if jd_ID d \<noteq> [] \<and> jd_Ref d \<noteq> [] then ElemDecision d
         else (case yaml_Split env bytes of
             Inr sp \<Rightarrow> if jsp_ID sp \<noteq> [] \<and> jsp_Steps sp \<noteq> [] then ElemSplit sp else ElemUnknown
           | Inl e \<Rightarrow> ElemUnknown)
     | Inl e \<Rightarrow> (case yaml_Split env bytes of
             Inr sp \<Rightarrow> if jsp_ID sp \<noteq> [] \<and> jsp_Steps sp \<noteq> [] then ElemSplit sp else ElemUnknown
           | Inl e \<Rightarrow> ElemUnknown))"

definition classify :: "('y, 'c) jsl_env \<Rightarrow> string \<Rightarrow> jsl_element" where
  "classify env bytes = (case yaml_Step env bytes of
       Inr st \<Rightarrow> if cr_Ref (js_Reader st) \<noteq> [] \<or> cr_Ref (js_Tasklet st) \<noteq> [] \<or> js_Partition st \<noteq> None
                 then ElemStep st else classify_rest env bytes
     | Inl e \<Rightarrow> classify_rest env bytes)"

definition unknown_element :: "string \<Rightarrow> string \<Rightarrow> goerr" where
  "unknown_element key bytes =
     jsl_failf (''Unknown flow element type or missing required fields: ID '' @ quoted ''%s'' @ '', Data: %s'') [key, bytes]"

text \<open>
  A step: its identifier, its listeners, and the first of chunk, tasklet and partition that it
  defines. A chunk or tasklet step that defines a partition as well is built and thrown away.
\<close>

definition first_step :: "('y, 'c) jsl_env \<Rightarrow> string \<Rightarrow> jsl_Step \<Rightarrow> (string, 'c built) gomap \<Rightarrow>
    goerr + (string, 'c built) gomap" where
  "first_step env key st built =
     (if js_ID st = [] then Inl (jsl_fail (''Step element '' @ quoted key @ '' requires an ID'') None)
      else if js_ID st \<noteq> key
      then Inl (jsl_fail (''Step ID '' @ quoted (js_ID st) @ '' does not match map key '' @ quoted key) None)
      else
        bind_res (build_listeners ''StepExecutionListener'' (stepListenerBuilders env) (js_Listeners st)) (\<lambda>sls.
        bind_res (build_item_listeners env st) (\<lambda>ils.
        bind_res (build_listeners ''SkipListener'' (skipListenerBuilders env) (js_SkipListeners st)) (\<lambda>skls.
        let keep = (\<lambda>b. Inr (if js_Partition st = None then gm_put key (Built (CoreStep b)) built else built)) in
        case js_Chunk st of
          Some ck \<Rightarrow>
            (if cr_Ref (js_Reader st) = [] \<or> cr_Ref (js_Processor st) = [] \<or> cr_Ref (js_Writer st) = []
             then Inl (jsl_failf (''Chunk Step '' @ quoted ''%s'' @ '' requires reader, processor, and writer components'') [key])
             else bind_res (build_chunk_parts env st) (\<lambda>(r, p, w).
                keep (CreateChunkStep env (js_ID st) r p w (ck_ItemCount ck) (ck_CommitInterval ck) sls ils skls
                  (js_Promotion st) (ck_IsolationLevel ck) (js_Propagation st))))
        | None \<Rightarrow>
            if cr_Ref (js_Tasklet st) \<noteq> []
            then bind_res (build_tasklet env False st) (\<lambda>t.
                keep (CreateTaskletStep (js_ID st) t sls (js_Promotion st) (js_IsolationLevel st) (js_Propagation st)))
            else (case js_Partition st of
                Some pa \<Rightarrow> bind_res (build_partitioner env pa) (\<lambda>c.
                    Inr (gm_put key (BuiltPartition st c sls (js_Promotion st)) built))
              | None \<Rightarrow> Inl (jsl_failf (''Step '' @ quoted ''%s'' @ '' must define either chunk, tasklet, or partition'') [key]))))))"

definition first_decision :: "('y, 'c) jsl_env \<Rightarrow> string \<Rightarrow> jsl_Decision \<Rightarrow> (string, 'c built) gomap \<Rightarrow>
    goerr + (string, 'c built) gomap" where
  "first_decision env key d built =
     (if jd_ID d \<noteq> key
      then Inl (jsl_fail (''Decision ID '' @ quoted (jd_ID d) @ '' does not match map key '' @ quoted key) None)
      else if jd_Transitions d = []
      then Inl (jsl_fail (''Decision '' @ quoted key @ '' has no transition rules defined'') None)
      else (case gm_get (decisionBuilders env) (jd_Ref d) of
          None \<Rightarrow> Inl (jsl_failf (''Decision Builder '' @ quoted ''%s'' @ '' (Referenced by: %s) is not registered'')
                    [jd_Ref d, jd_ID d])
        | Some builder \<Rightarrow>
            bind_res (resolveComponentRefProperties (env_Resolve env)
                \<lparr>cr_Ref = jd_Ref d, cr_Properties = jd_Properties d\<rparr>) (\<lambda>ps.
            case builder (jd_ID d) ps of
              Inl e \<Rightarrow> Inl (jsl_fail (''Failed to build Decision '' @ quoted (jd_ID d)) (Some e))
            | Inr c \<Rightarrow> Inr (gm_put key (Built (CoreDecision c)) built))))"

text \<open>
  The steps of a split are looked up in what was built so far: a step that the loop has not come
  to yet is not found.
\<close>

fun split_members :: "'y jsl_Flow \<Rightarrow> string \<Rightarrow> string list \<Rightarrow> (string, 'c built) gomap \<Rightarrow>
    goerr + 'c core_step list" where
  "split_members flow sid [] built = Inr []"
| "split_members flow sid (stepID # ids) built =
     (case gm_get built stepID of
        Some (Built (CoreStep s)) \<Rightarrow> bind_res (split_members flow sid ids built) (\<lambda>ss. Inr (s # ss))
      | b \<Rightarrow>
          if gm_get (jf_Elements flow) stepID = None
          then Inl (jsl_failf (''Element '' @ quoted ''%s'' @ '' referenced by Split '' @ quoted ''%s''
                 @ '' not found in flow definition'') [stepID, sid])
          else (case b of
              Some (BuiltPartition st c ls pr) \<Rightarrow>
                Inl (jsl_failf (''Element '' @ quoted ''%s'' @ '' referenced by Split '' @ quoted ''%s''
                 @ '' is a Partition Step, which is not allowed inside a Split.'') [stepID, sid])
            | _ \<Rightarrow> Inl (jsl_failf (''Element '' @ quoted ''%s'' @ '' referenced by Split '' @ quoted ''%s''
                 @ '' is not of type Step'') [stepID, sid])))"

definition first_split :: "('y, 'c) jsl_env \<Rightarrow> 'y jsl_Flow \<Rightarrow> string \<Rightarrow> jsl_Split \<Rightarrow> (string, 'c built) gomap \<Rightarrow>
    goerr + (string, 'c built) gomap" where
  "first_split env flow key sp built =
     (if jsp_ID sp \<noteq> key
      then Inl (jsl_fail (''Split ID '' @ quoted (jsp_ID sp) @ '' does not match map key '' @ quoted key) None)
      else bind_res (split_members flow (jsp_ID sp) (jsp_Steps sp) built) (\<lambda>ss.
        case gm_get (splitBuilders env) ''concreteSplit'' of
          None \<Rightarrow> Inl (jsl_failf (''Split builder '' @ quoted ''concreteSplit'' @ '' is not registered'') [])
        | Some builder \<Rightarrow> (case builder (jsp_ID sp) ss of
              Inl e \<Rightarrow> Inl (jsl_fail (''Failed to build Split '' @ quoted (jsp_ID sp)) (Some e))
            | Inr c \<Rightarrow> Inr (gm_put key (Built (CoreSplit c)) built))))"

definition first_element :: "('y, 'c) jsl_env \<Rightarrow> 'y jsl_Flow \<Rightarrow> string \<Rightarrow> 'y \<Rightarrow> (string, 'c built) gomap \<Rightarrow>
    goerr + (string, 'c built) gomap" where
  "first_element env flow key y built = (case yaml_Marshal env y of
       Inl e \<Rightarrow> Inl (jsl_fail (''Failed to marshal flow element '' @ quoted key) (Some e))
     | Inr bytes \<Rightarrow> (case classify env bytes of
           ElemStep st \<Rightarrow> first_step env key st built
         | ElemDecision d \<Rightarrow> first_decision env key d built
         | ElemSplit sp \<Rightarrow> first_split env flow key sp built
         | ElemUnknown \<Rightarrow> Inl (unknown_element key bytes)))"

fun first_pass :: "('y, 'c) jsl_env \<Rightarrow> 'y jsl_Flow \<Rightarrow> (string \<times> 'y) list \<Rightarrow> (string, 'c built) gomap \<Rightarrow>
    goerr + (string, 'c built) gomap" where
  "first_pass env flow [] built = Inr built"
| "first_pass env flow ((key, y) # ys) built =
     bind_res (first_element env flow key y built) (first_pass env flow ys)"

section \<open>The second pass\<close>

definition validateTransition :: "string \<Rightarrow> jsl_Transition \<Rightarrow> (string, 'y) gomap \<Rightarrow> goerr option" where
  "validateTransition from t allElements =
     (if jt_On t = []
      then Some (jsl_fail (''Transition rule for flow element '' @ quoted from @ '' is missing '' @ quoted ''on'') None)
      else let exclusiveCount = (if jt_End t then 1 else 0) + (if jt_Fail t then 1 else 0)
             + (if jt_Stop t then 1 else 0) + (if jt_To t \<noteq> [] then 1 else (0 :: nat));
           rule = ''Transition rule for flow element '' @ quoted from @ '' (on: '' @ quoted (jt_On t) @ '')''
      in if exclusiveCount = 0
         then Some (jsl_fail (rule @ '' must define one of '' @ quoted ''to'' @ '', '' @ quoted ''end'' @ '', ''
                @ quoted ''fail'' @ '', or '' @ quoted ''stop'') None)
         else if exclusiveCount > 1
         then Some (jsl_fail (rule @ '' defines multiple exclusive attributes ('' @ quoted ''to'' @ '', ''
                @ quoted ''end'' @ '', '' @ quoted ''fail'' @ '', '' @ quoted ''stop'' @ '')'') None)
         else if jt_To t \<noteq> [] \<and> gm_get allElements (jt_To t) = None
         then Some (jsl_fail (''Target element '' @ quoted (jt_To t) @ '' specified by '' @ quoted ''to''
                @ '' in transition rule (on: '' @ quoted (jt_On t) @ '') for flow element '' @ quoted from
                @ '' not found'') None)
         else None)"

fun add_transitions :: "string \<Rightarrow> jsl_Transition list \<Rightarrow> (string, 'y) gomap \<Rightarrow> 'el FlowDefinition \<Rightarrow>
    goerr + 'el FlowDefinition" where
  "add_transitions key [] allElements fd = Inr fd"
| "add_transitions key (t # ts) allElements fd =
     (case validateTransition key t allElements of
        Some e \<Rightarrow> Inl e
      | None \<Rightarrow> add_transitions key ts allElements
          (AddTransitionRule key (jt_On t) (jt_To t) (jt_End t) (jt_Fail t) (jt_Stop t) fd))"

text \<open>The worker of a partition step: no listener and no promotion of its own.\<close>

definition worker_step :: "('y, 'c) jsl_env \<Rightarrow> 'y jsl_Flow \<Rightarrow> string \<Rightarrow> jsl_Partition \<Rightarrow> goerr + 'c core_step" where
  "worker_step env flow key pa = (case gm_get (jf_Elements flow) (jp_Step pa) of
       None \<Rightarrow> Inl (jsl_failf (''Worker Step '' @ quoted ''%s'' @ '' referenced by Partition Step '' @ quoted ''%s''
                 @ '' not found in flow definition'') [jp_Step pa, key])
     | Some y \<Rightarrow> (case yaml_Marshal env y of
           Inl e \<Rightarrow> Inl (jsl_fail (''Failed to marshal Worker Step '' @ quoted (jp_Step pa)) (Some e))
         | Inr bytes \<Rightarrow> (case yaml_Step env bytes of
               Inl e \<Rightarrow> Inl (jsl_fail (''Failed to parse Worker Step '' @ quoted (jp_Step pa)) (Some e))
             | Inr st \<Rightarrow>
                 if js_Chunk st = None \<and> cr_Ref (js_Tasklet st) = []
                 then Inl (jsl_failf (''Worker Step '' @ quoted ''%s'' @ '' must define either Chunk or Tasklet'') [jp_Step pa])
                 else (case js_Chunk st of
                     Some ck \<Rightarrow> bind_res (build_chunk_parts env st) (\<lambda>(r, p, w).
                         Inr (CreateChunkStep env (js_ID st) r p w (ck_ItemCount ck) (ck_CommitInterval ck)
                           [] no_listeners [] None (ck_IsolationLevel ck) (js_Propagation st)))
                   | None \<Rightarrow> bind_res (build_tasklet env True st) (\<lambda>t.
                         Inr (CreateTaskletStep (js_ID st) t [] None (js_IsolationLevel st) (js_Propagation st)))))))"

definition partition_element :: "('y, 'c) jsl_env \<Rightarrow> 'y jsl_Flow \<Rightarrow> string \<Rightarrow> jsl_Step \<Rightarrow> jsl_Partition \<Rightarrow>
    (string, 'c built) gomap \<Rightarrow> goerr + 'c core_element" where
  "partition_element env flow key st pa built = (case gm_get built key of
       Some (BuiltPartition st0 c ls pr) \<Rightarrow>
         bind_res (worker_step env flow key pa) (\<lambda>worker.
         Inr (CoreStep (CreatePartitionStep (js_ID st) c worker (jp_GridSize pa)
           (case jp_Concurrency pa of None \<Rightarrow> 1 | Some n \<Rightarrow> n) ls pr)))
     | _ \<Rightarrow> Inl (jsl_failf (''Temporary construction information for Partition Step '' @ quoted ''%s'' @ '' not found'') [key]))"

definition add_element :: "string \<Rightarrow> string \<Rightarrow> 'c core_element \<Rightarrow> jsl_Transition list \<Rightarrow> (string, 'y) gomap \<Rightarrow>
    'c core_element FlowDefinition \<Rightarrow> goerr + 'c core_element FlowDefinition" where
  "add_element kind key el ts allElements fd = (case AddElement key el fd of
       Inl e \<Rightarrow> Inl (jsl_fail (''Failed to add '' @ kind @ '' '' @ quoted key @ '' to flow'') (Some e))
     | Inr fd1 \<Rightarrow> add_transitions key ts allElements fd1)"

text \<open>\<open>None\<close>: the type assertion on an element that was not built panics.\<close>

definition built_element :: "string \<Rightarrow> (string, 'c built) gomap \<Rightarrow> 'c core_element option" where
  "built_element key built = (case gm_get built key of Some (Built el) \<Rightarrow> Some el | _ \<Rightarrow> None)"

definition second_element :: "('y, 'c) jsl_env \<Rightarrow> 'y jsl_Flow \<Rightarrow> (string, 'c built) gomap \<Rightarrow> string \<Rightarrow> 'y \<Rightarrow>
    'c core_element FlowDefinition \<Rightarrow> (goerr + 'c core_element FlowDefinition) option" where
  "second_element env flow built key y fd = (case yaml_Marshal env y of
       Inl e \<Rightarrow> Some (Inl (jsl_fail (''Failed to re-marshal flow element '' @ quoted key) (Some e)))
     | Inr bytes \<Rightarrow> (case classify env bytes of
           ElemStep st \<Rightarrow> (case js_Partition st of
               Some pa \<Rightarrow> Some (bind_res (partition_element env flow key st pa built)
                  (\<lambda>el. add_element ''step'' key el (js_Transitions st) (jf_Elements flow) fd))
             | None \<Rightarrow> map_option (\<lambda>el. add_element ''step'' key el (js_Transitions st) (jf_Elements flow) fd)
                  (built_element key built))
         | ElemDecision d \<Rightarrow> map_option (\<lambda>el. add_element ''Decision'' key el (jd_Transitions d) (jf_Elements flow) fd)
             (built_element key built)
         | ElemSplit sp \<Rightarrow> map_option (\<lambda>el. add_element ''Split'' key el (jsp_Transitions sp) (jf_Elements flow) fd)
             (built_element key built)
         | ElemUnknown \<Rightarrow> Some (Inl (unknown_element key bytes))))"

fun second_pass :: "('y, 'c) jsl_env \<Rightarrow> 'y jsl_Flow \<Rightarrow> (string, 'c built) gomap \<Rightarrow> (string \<times> 'y) list \<Rightarrow>
    'c core_element FlowDefinition \<Rightarrow> (goerr + 'c core_element FlowDefinition) option" where
  "second_pass env flow built [] fd = Some (Inr fd)"
| "second_pass env flow built ((key, y) # ys) fd =
     (case second_element env flow built key y fd of
        None \<Rightarrow> None
      | Some (Inl e) \<Rightarrow> Some (Inl e)
      | Some (Inr fd1) \<Rightarrow> second_pass env flow built ys fd1)"

text \<open>\<open>order1\<close> and \<open>order2\<close> are the orders in which the two loops visit the elements.\<close>

definition ConvertJSLToCoreFlow :: "('y, 'c) jsl_env \<Rightarrow> 'y jsl_Flow \<Rightarrow> (string \<times> 'y) list \<Rightarrow> (string \<times> 'y) list \<Rightarrow>
    (goerr + 'c core_element FlowDefinition) option" where
  "ConvertJSLToCoreFlow env flow order1 order2 =
     (if gm_get (jf_Elements flow) (jf_StartElement flow) = None
      then Some (Inl (jsl_failf (''Flow '' @ quoted ''start-element'' @ '' '' @ quoted ''%s'' @ '' not found in ''
             @ quoted ''elements'') [jf_StartElement flow]))
      else (case first_pass env flow order1 [] of
          Inl e \<Rightarrow> Some (Inl e)
        | Inr built \<Rightarrow> second_pass env flow built order2 (NewFlowDefinition (jf_StartElement flow))))"

end
