(* ===== verification/Job_Expressions.thy ===== *)
theory Job_Expressions
  imports Batch_Model
begin

text \<open>
  What is computed from parameters and contexts: the expressions \<open>#{...}\<close> of
  \<open>core/support/expression\<close>, the decision of \<open>component/flow/conditional_decision.go\<close> and the
  parameter incrementers of \<open>core/support/incrementer\<close>.

  The regular expressions of the source are written out. \<open>strings.TrimSpace\<close> is modelled on
  ASCII white space; \<open>ff\<close> and \<open>fo\<close> print the values \<open>%v\<close> leaves open, as in \<open>Batch_Values\<close>.
  A decision and the resolution of a connection name rely on their resolver only through the
  contract \<open>expression_resolver\<close>, which the default resolver meets.
\<close>

section \<open>Expressions\<close>

text \<open>\<open>(.+?)\}\<close> after \<open>#{\<close>: one character, then as few as possible up to a brace, no newline.\<close>

fun scan_close :: "string \<Rightarrow> (string \<times> string) option" where
  "scan_close [] = None"
| "scan_close (c # cs) =
     (if c = CHR ''}'' then Some ([], cs)
      else if c = CHR 0x0A then None
      else map_option (\<lambda>(inner, rest). (c # inner, rest)) (scan_close cs))"

fun scan_inner :: "string \<Rightarrow> (string \<times> string) option" where
  "scan_inner [] = None"
| "scan_inner (c # cs) =
     (if c = CHR 0x0A then None
      else map_option (\<lambda>(inner, rest). (c # inner, rest)) (scan_close cs))"

lemma scan_close_length: "scan_close s = Some (inner, rest) \<Longrightarrow> length rest < length s"
  by (induction s arbitrary: inner) (fastforce split: if_splits)+

lemma scan_inner_length: "scan_inner s = Some (inner, rest) \<Longrightarrow> length rest < length s"
  by (cases s) (auto split: if_splits dest: scan_close_length)

text \<open>\<open>FindStringSubmatch\<close> of \<open>^name\['(.+?)'\]$\<close>: the text between the two quotes.\<close>

definition bracket_key :: "string \<Rightarrow> string \<Rightarrow> string option" where
  "bracket_key name expr =
     (let p = name @ ''['' @ [CHR 0x27]; q = [CHR 0x27] @ '']''
      in if prefix p expr \<and> suffix q expr \<and> length p + length q < length expr
            \<and> CHR 0x0A \<notin> set expr
         then Some (take (length expr - length p - length q) (drop (length p) expr))
         else None)"

definition resolveJobParameters ::
  "(f64 \<Rightarrow> string) \<Rightarrow> (string \<Rightarrow> nat \<Rightarrow> string) \<Rightarrow> string \<Rightarrow> JobExecution \<Rightarrow> goerr + string" where
  "resolveJobParameters ff fo expr je = (case bracket_key ''jobParameters'' expr of
       None \<Rightarrow> Inl (plain_error ''pattern mismatch'')
     | Some key \<Rightarrow> (case gm_get (jp_map (je_Parameters je)) key of
           Some v \<Rightarrow> Inr (fmt_v ff fo v)
         | None \<Rightarrow> Inl (plain_error (''key '' @ quoted key @ '' not found in JobParameters''))))"

definition resolveJobExecutionContext ::
  "(f64 \<Rightarrow> string) \<Rightarrow> (string \<Rightarrow> nat \<Rightarrow> string) \<Rightarrow> string \<Rightarrow> JobExecution \<Rightarrow> goerr + string" where
  "resolveJobExecutionContext ff fo expr je = (case bracket_key ''jobExecutionContext'' expr of
       None \<Rightarrow> Inl (plain_error ''pattern mismatch'')
     | Some key \<Rightarrow> (case gm_get (je_ExecutionContext je) key of
           Some v \<Rightarrow> Inr (fmt_v ff fo v)
         | None \<Rightarrow> Inl (plain_error (''key '' @ quoted key @ '' not found in JobExecutionContext''))))"

definition resolveStepExecution :: "string \<Rightarrow> StepExecution \<Rightarrow> goerr + string" where
  "resolveStepExecution expr se = Inl (plain_error
     (''StepExecution property resolution is currently not supported: '' @ expr))"

text \<open>The replacement of one match; what cannot be resolved stays as it is.\<close>

definition resolve_match ::
  "(f64 \<Rightarrow> string) \<Rightarrow> (string \<Rightarrow> nat \<Rightarrow> string) \<Rightarrow> JobExecution option \<Rightarrow> StepExecution option \<Rightarrow>
     string \<Rightarrow> string" where
  "resolve_match ff fo jobExecution stepExecution inner =
     (let match = ''#{'' @ inner @ ''}''; expr = trim_space inner
      in case jobExecution of
           None \<Rightarrow> match
         | Some je \<Rightarrow> (case resolveJobParameters ff fo expr je of
             Inr v \<Rightarrow> v
           | Inl e1 \<Rightarrow> (case resolveJobExecutionContext ff fo expr je of
               Inr v \<Rightarrow> v
             | Inl e2 \<Rightarrow> (case stepExecution of
                 None \<Rightarrow> match
               | Some se \<Rightarrow> (case resolveStepExecution expr se of Inr v \<Rightarrow> v | Inl e3 \<Rightarrow> match)))))"

text \<open>\<open>ReplaceAllStringFunc\<close>: from left to right, without looking at the replacements again.\<close>

function resolve_text :: "(string \<Rightarrow> string) \<Rightarrow> string \<Rightarrow> string" where
  "resolve_text f [] = []"
| "resolve_text f (c # cs) =
     (if c = CHR ''#'' \<and> cs \<noteq> [] \<and> hd cs = CHR ''{''
      then (case scan_inner (tl cs) of
              None \<Rightarrow> c # resolve_text f cs
            | Some (inner, rest) \<Rightarrow> f inner @ resolve_text f rest)
      else c # resolve_text f cs)"
  by pat_completeness auto

termination
  by (relation "measure (\<lambda>(f, s). length s)") (fastforce dest: scan_inner_length)+

fun has_expression :: "string \<Rightarrow> bool" where
  "has_expression [] = False"
| "has_expression (c # cs) =
     ((c = CHR ''#'' \<and> cs \<noteq> [] \<and> hd cs = CHR ''{'' \<and> scan_inner (tl cs) \<noteq> None) \<or> has_expression cs)"

definition Resolve ::
  "(f64 \<Rightarrow> string) \<Rightarrow> (string \<Rightarrow> nat \<Rightarrow> string) \<Rightarrow> string \<Rightarrow> JobExecution option \<Rightarrow>
     StepExecution option \<Rightarrow> goerr + string" where
  "Resolve ff fo expression je se =
     (if \<not> has_expression expression then Inr expression
      else Inr (resolve_text (resolve_match ff fo je se) expression))"

section \<open>Connection names\<close>

text \<open>\<open>resolver\<close> is the expression resolver at the executions the caller passed.\<close>

definition ResolveConnectionName :: "(string \<Rightarrow> goerr + string) \<Rightarrow> string \<Rightarrow> string" where
  "ResolveConnectionName resolver defaultName =
     (let name = (if str_contains defaultName ''#{''
                  then (case resolver defaultName of Inr r \<Rightarrow> r | Inl e \<Rightarrow> defaultName)
                  else defaultName)
      in if name = [] then ''workload'' else name)"

section \<open>Decisions\<close>

record ConditionalDecision =
  dc_id :: string
  dc_properties :: ec
  dc_conditionKey :: string
  dc_expectedValue :: string
  dc_defaultStatus :: ExitStatus

definition NewConditionalDecision :: "string \<Rightarrow> ConditionalDecision" where
  "NewConditionalDecision did = \<lparr>dc_id = did, dc_properties = [], dc_conditionKey = [],
     dc_expectedValue = [], dc_defaultStatus = ExitFailed\<rparr>"

definition string_property :: "ec \<Rightarrow> string \<Rightarrow> string \<Rightarrow> string" where
  "string_property properties key old =
     (case gm_get properties key of Some (VStr s) \<Rightarrow> s | _ \<Rightarrow> old)"

definition SetProperties :: "ec \<Rightarrow> ConditionalDecision \<Rightarrow> ConditionalDecision" where
  "SetProperties properties d = d
     \<lparr>dc_properties := properties,
      dc_conditionKey := string_property properties ''conditionKey'' (dc_conditionKey d),
      dc_expectedValue := string_property properties ''expectedValue'' (dc_expectedValue d),
      dc_defaultStatus := (case gm_get properties ''defaultStatus'' of
           Some (VStr s) \<Rightarrow> ExitStatus_of s | _ \<Rightarrow> dc_defaultStatus d)\<rparr>"

text \<open>A resolver may be missing; it is given the job execution and no step execution.\<close>

definition Decide ::
  "(f64 \<Rightarrow> string) \<Rightarrow> (string \<Rightarrow> nat \<Rightarrow> string) \<Rightarrow> (string \<Rightarrow> JobExecution option \<Rightarrow> goerr + string) option \<Rightarrow>
     ConditionalDecision \<Rightarrow> JobExecution \<Rightarrow> ExitStatus \<times> goerr option" where
  "Decide ff fo resolver d je = (case resolver of
       None \<Rightarrow> (ExitFailed, Some (plain_error
           (''ExpressionResolver is not set for ConditionalDecision '' @ quoted (dc_id d))))
     | Some res \<Rightarrow>
         if dc_conditionKey d = []
         then (case gm_get (dc_properties d) ''exit.status'' of
                 Some (VStr s) \<Rightarrow> (ExitStatus_of s, None)
               | _ \<Rightarrow> (dc_defaultStatus d, None))
         else (case res (dc_conditionKey d) (Some je) of
             Inl e \<Rightarrow> (ExitFailed, Some e)
           | Inr key \<Rightarrow> (case ExecutionContext_GetNested (je_ExecutionContext je) key of
               None \<Rightarrow> (dc_defaultStatus d, None)
             | Some actual \<Rightarrow> (case res (dc_expectedValue d) (Some je) of
                 Inl e \<Rightarrow> (ExitFailed, Some e)
               | Inr expected \<Rightarrow>
                   if fmt_v ff fo actual = expected then (ExitCompleted, None)
                   else (dc_defaultStatus d, None)))))"

section \<open>Incrementers\<close>

text \<open>The sum of two \<open>int\<close> values wraps around at 64 bits.\<close>

definition int_wrap :: "int \<Rightarrow> int" where
  "int_wrap i = (i + 2 ^ 63) mod 2 ^ 64 - 2 ^ 63"

definition copy_params :: "JobParameters \<Rightarrow> JobParameters" where
  "copy_params params = fold (\<lambda>(k, v) p. JobParameters_Put k v p) (jp_map params) NewJobParameters"

definition RunID_GetNext :: "(f64 \<Rightarrow> int) \<Rightarrow> string \<Rightarrow> JobParameters \<Rightarrow> JobParameters" where
  "RunID_GetNext oor name params = (case JobParameters_GetInt oor params name of
       None \<Rightarrow> JobParameters_Put name (VInt 1) (copy_params params)
     | Some currentRunID \<Rightarrow> JobParameters_Put name (VInt (int_wrap (currentRunID + 1))) (copy_params params))"

text \<open>\<open>now\<close> is the clock in Unix milliseconds.\<close>

definition Timestamp_GetNext :: "int \<Rightarrow> string \<Rightarrow> JobParameters \<Rightarrow> JobParameters" where
  "Timestamp_GetNext now name params = JobParameters_Put name (VStr (int_str now)) (copy_params params)"

section \<open>The contract of a resolver\<close>

locale expression_resolver =
  fixes resolve :: "string \<Rightarrow> JobExecution option \<Rightarrow> goerr + string"
  assumes plain: "\<not> str_contains s ''#{'' \<Longrightarrow> resolve s je = Inr s"
    and total: "\<exists>r. resolve s je = Inr r"
begin

lemma plain_connection: "\<not> str_contains n ''#{'' \<Longrightarrow> n \<noteq> [] \<Longrightarrow>
    ResolveConnectionName (\<lambda>s. resolve s je) n = n"
  by (simp add: ResolveConnectionName_def)

lemma connection_not_empty: "ResolveConnectionName (\<lambda>s. resolve s je) n \<noteq> []"
  by (simp add: ResolveConnectionName_def Let_def)

lemma decide_no_error: "snd (Decide ff fo (Some resolve) d je) = None"
  using total[of "dc_conditionKey d" "Some je"] total[of "dc_expectedValue d" "Some je"]
  by (auto simp: Decide_def split: option.splits gval.splits)

lemma decide_completed:
  assumes "dc_conditionKey d \<noteq> []" "dc_defaultStatus d \<noteq> ExitCompleted"
  shows "fst (Decide ff fo (Some resolve) d je) = ExitCompleted \<longleftrightarrow>
    (\<exists>key v expected. resolve (dc_conditionKey d) (Some je) = Inr key
       \<and> ExecutionContext_GetNested (je_ExecutionContext je) key = Some v
       \<and> resolve (dc_expectedValue d) (Some je) = Inr expected \<and> fmt_v ff fo v = expected)"
  using total[of "dc_conditionKey d" "Some je"] total[of "dc_expectedValue d" "Some je"] assms
  by (auto simp: Decide_def split: option.splits if_splits)

lemma decide_plain:
  assumes "dc_conditionKey d \<noteq> []" "\<not> str_contains (dc_conditionKey d) ''#{''"
    "\<not> str_contains (dc_expectedValue d) ''#{''"
  shows "Decide ff fo (Some resolve) d je =
    (case ExecutionContext_GetNested (je_ExecutionContext je) (dc_conditionKey d) of
       None \<Rightarrow> (dc_defaultStatus d, None)
     | Some v \<Rightarrow> if fmt_v ff fo v = dc_expectedValue d then (ExitCompleted, None)
                 else (dc_defaultStatus d, None))"
  using assms by (auto simp: Decide_def plain split: option.splits)

end

lemma str_contains_hash:
  "str_contains (c # cs) ''#{'' \<longleftrightarrow> (c = CHR ''#'' \<and> cs \<noteq> [] \<and> hd cs = CHR ''{'') \<or> str_contains cs ''#{''"
  by (cases cs) auto

lemma has_expression_contains: "has_expression s \<Longrightarrow> str_contains s ''#{''"
  by (induction s) (auto simp only: str_contains_hash has_expression.simps)

interpretation default_resolver: expression_resolver "\<lambda>s je. Resolve ff fo s je se" for ff fo se
  by unfold_locales (auto simp: Resolve_def dest: has_expression_contains)


section \<open>One expression in a text\<close>

lemma resolve_text_plain: "CHR ''#'' \<notin> set p \<Longrightarrow> resolve_text f (p @ s) = p @ resolve_text f s"
  by (induction p) auto

lemma scan_close_append:
  "CHR ''}'' \<notin> set a \<Longrightarrow> CHR 0x0A \<notin> set a \<Longrightarrow> scan_close (a @ CHR ''}'' # rest) = Some (a, rest)"
  by (induction a) auto

lemma scan_inner_append:
  "a \<noteq> [] \<Longrightarrow> CHR ''}'' \<notin> set a \<Longrightarrow> CHR 0x0A \<notin> set a \<Longrightarrow>
     scan_inner (a @ CHR ''}'' # rest) = Some (a, rest)"
  by (cases a) (auto simp: scan_close_append)

lemma resolve_text_match:
  assumes "a \<noteq> []" "CHR ''}'' \<notin> set a" "CHR 0x0A \<notin> set a"
  shows "resolve_text f (''#{'' @ a @ ''}'' @ rest) = f a @ resolve_text f rest"
  using scan_inner_append[OF assms, of rest] by simp

lemma has_expression_append: "has_expression s \<Longrightarrow> has_expression (p @ s)"
  by (induction p) auto

lemma no_expression_text: "\<not> has_expression s \<Longrightarrow> resolve_text f s = s"
  by (induction f s rule: resolve_text.induct) (auto split: option.splits)

lemma Resolve_text: "Resolve ff fo s je se = Inr (resolve_text (resolve_match ff fo je se) s)"
  by (simp add: Resolve_def no_expression_text)

lemma bracket_key_same:
  assumes "k \<noteq> []" "CHR 0x0A \<notin> set k" "CHR 0x0A \<notin> set name"
  shows "bracket_key name (name @ ''['' @ quoted k @ '']'') = Some k"
proof -
  have "length k > 0" using assms(1) by simp
  then show ?thesis using assms(2,3)
    by (simp add: bracket_key_def quoted_def suffix_def Let_def)
qed

lemma bracket_key_other:
  "\<not> prefix (name @ ''['') s \<Longrightarrow> bracket_key name s = None"
proof -
  assume a: "\<not> prefix (name @ ''['') s"
  have "\<not> prefix (name @ ''['' @ [CHR 0x27]) s"
  proof
    assume "prefix (name @ ''['' @ [CHR 0x27]) s"
    moreover have "prefix (name @ ''['') (name @ ''['' @ [CHR 0x27])" by simp
    ultimately show False using a prefix_order.order_trans by blast
  qed
  then show ?thesis by (simp add: bracket_key_def Let_def)
qed

lemma trim_space_none:
  assumes "s \<noteq> []" "\<not> is_space (hd s)" "\<not> is_space (last s)"
  shows "trim_space s = s"
proof -
  have "dropWhile is_space s = s" using assms(1,2) by (cases s) auto
  moreover have "dropWhile is_space (rev s) = rev s" using assms(1,3)
    by (cases s rule: rev_cases) auto
  ultimately show ?thesis by (simp add: trim_space_def)
qed

lemma trim_bracket:
  assumes "hd name = CHR ''j''" "name \<noteq> []"
  shows "trim_space (name @ ''['' @ quoted k @ '']'') = name @ ''['' @ quoted k @ '']''"
  using assms by (intro trim_space_none) (auto simp: is_space_def)

lemma match_params:
  assumes "k \<noteq> []" "CHR 0x0A \<notin> set k"
  shows "resolve_match ff fo (Some je) se (''jobParameters['' @ quoted k @ '']'') =
    (case gm_get (jp_map (je_Parameters je)) k of
       Some v \<Rightarrow> fmt_v ff fo v
     | None \<Rightarrow> ''#{jobParameters['' @ quoted k @ '']}'')"
proof -
  let ?e = "''jobParameters['' @ quoted k @ '']''"
  have t: "trim_space ?e = ?e" using trim_bracket[of "''jobParameters''" k] by simp
  have b: "bracket_key ''jobParameters'' ?e = Some k"
    using bracket_key_same[OF assms, of "''jobParameters''"] by simp
  have n: "bracket_key ''jobExecutionContext'' ?e = None"
    by (rule bracket_key_other) simp
  show ?thesis
    unfolding resolve_match_def Let_def t resolveJobParameters_def resolveJobExecutionContext_def b n
      resolveStepExecution_def
    by (simp split: option.splits)
qed

lemma match_context:
  assumes "k \<noteq> []" "CHR 0x0A \<notin> set k"
  shows "resolve_match ff fo (Some je) se (''jobExecutionContext['' @ quoted k @ '']'') =
    (case gm_get (je_ExecutionContext je) k of
       Some v \<Rightarrow> fmt_v ff fo v
     | None \<Rightarrow> ''#{jobExecutionContext['' @ quoted k @ '']}'')"
proof -
  let ?e = "''jobExecutionContext['' @ quoted k @ '']''"
  have t: "trim_space ?e = ?e" using trim_bracket[of "''jobExecutionContext''" k] by simp
  have b: "bracket_key ''jobExecutionContext'' ?e = Some k"
    using bracket_key_same[OF assms, of "''jobExecutionContext''"] by simp
  have n: "bracket_key ''jobParameters'' ?e = None"
    by (rule bracket_key_other) simp
  show ?thesis
    unfolding resolve_match_def Let_def t resolveJobParameters_def resolveJobExecutionContext_def b n
      resolveStepExecution_def
    by (simp split: option.splits)
qed

text \<open>
  An expression that names a job parameter or an entry of the job's context is replaced by
  the value's text, one that names neither stays as written, and the text around it is kept. The
  replacement is not resolved again, and an expression of the context looks up its key as a
  whole: it does not follow dots.
\<close>

theorem expression_resolution:
  assumes "CHR ''#'' \<notin> set p" "k \<noteq> []" "CHR 0x0A \<notin> set k" "CHR ''}'' \<notin> set k"
    and "Resolve ff fo rest (Some je) se = Inr tail"
  shows "Resolve ff fo (p @ ''#{jobParameters['' @ quoted k @ '']}'' @ rest) (Some je) se
      = Inr (p @ (case gm_get (jp_map (je_Parameters je)) k of
                    Some v \<Rightarrow> fmt_v ff fo v | None \<Rightarrow> ''#{jobParameters['' @ quoted k @ '']}'') @ tail)
    \<and> Resolve ff fo (p @ ''#{jobExecutionContext['' @ quoted k @ '']}'' @ rest) (Some je) se
      = Inr (p @ (case gm_get (je_ExecutionContext je) k of
                    Some v \<Rightarrow> fmt_v ff fo v | None \<Rightarrow> ''#{jobExecutionContext['' @ quoted k @ '']}'') @ tail)"
proof -
  let ?f = "resolve_match ff fo (Some je) se"
  have t: "resolve_text ?f rest = tail" using assms(5) by (simp add: Resolve_text)
  have r: "resolve_text ?f (p @ ''#{'' @ (name @ ''['' @ quoted k @ '']'') @ ''}'' @ rest)
      = p @ ?f (name @ ''['' @ quoted k @ '']'') @ tail"
    if "CHR ''}'' \<notin> set name" "CHR 0x0A \<notin> set name" for name
    using that assms(1,3,4) t
    by (subst resolve_text_plain, simp, subst resolve_text_match) (auto simp: quoted_def)
  show ?thesis
    using r[of "''jobParameters''"] r[of "''jobExecutionContext''"]
      match_params[OF assms(2,3), of ff fo je se] match_context[OF assms(2,3), of ff fo je se]
    by (simp add: Resolve_text)
qed

lemma expression_resolution_witness:
  "Resolve (\<lambda>f. []) (\<lambda>t n. []) (''db_'' @ ''#{jobParameters['' @ quoted ''env'' @ '']}'' @ ''_1'')
     (Some ((NewJobExecution ''e'' 0 0 ''i'' ''j'' \<lparr>Params = Some [(''env'', VStr ''#{x}'')]\<rparr>))) None
   = Inr ''db_#{x}_1''"
proof -
  have "Resolve (\<lambda>f. []) (\<lambda>t n. []) ''_1'' (Some x) None = Inr ''_1''" for x
    by (simp add: Resolve_def)
  from expression_resolution[OF _ _ _ _ this, of "''db_''" "''env''"] show ?thesis
    by (simp add: NewJobExecution_def jp_map_def)
qed

section \<open>Decisions after storage\<close>

lemma nat_str_hash: "CHR ''#'' \<notin> set (nat_str n)"
proof (induction n rule: nat_str.induct)
  case (1 n)
  have d: "CHR ''#'' \<noteq> char_of (48 + d)" if "d < 10" for d :: nat
  proof
    assume "CHR ''#'' = char_of (48 + d)"
    then have "of_char (char_of (48 + d) :: char) = (of_char CHR ''#'' :: nat)" by simp
    then show False using that by simp
  qed
  show ?case
    using 1 d[of n] d[of "n mod 10"] by (subst nat_str.simps) auto
qed

text \<open>
  A decision on a key without expressions completes exactly when the value found under the
  key prints as the expected text. For an integer of a million or more that outcome does not
  survive the storage of the job execution: the stored context returns it as a \<open>float64\<close>, which
  prints in exponent form, so a restarted job takes the default status instead.
\<close>

theorem decision_after_storage:
  assumes "dc_conditionKey d \<noteq> []" "\<not> str_contains (dc_conditionKey d) ''#{''"
    and "dc_expectedValue d = int_str i" "dc_defaultStatus d \<noteq> ExitCompleted" "\<bar>i\<bar> < 2 ^ 53"
    and "je_ExecutionContext je = [(dc_conditionKey d, VInt i)]"
  shows "\<exists>t ec. ExecutionContext_Value mo (je_ExecutionContext je) = Inr t
    \<and> ExecutionContext_Scan t [] = Inr ec
    \<and> Decide ff fo (Some (\<lambda>s je. Resolve ff fo s je None)) d je = (ExitCompleted, None)
    \<and> (fst (Decide ff fo (Some (\<lambda>s je. Resolve ff fo s je None)) d (je\<lparr>je_ExecutionContext := ec\<rparr>))
         = ExitCompleted \<longleftrightarrow> \<bar>i\<bar> < 10 ^ 6)"
proof -
  let ?k = "dc_conditionKey d"
  have "CHR ''#'' \<notin> set (int_str i)"
  proof
    assume "CHR ''#'' \<in> set (int_str i)"
    then have "\<exists>n. CHR ''#'' \<in> set (nat_str n)" by (auto simp: int_str_def split: if_splits)
    then show False using nat_str_hash by blast
  qed
  then have "\<not> str_contains (dc_expectedValue d) ''#{''"
    using assms(3) unfolding str_contains_sublist
    by (metis in_set_conv_decomp list.set_intros(1) set_mono_sublist subsetD)
  note dp = default_resolver.decide_plain[OF assms(1,2) this, of ff fo ff fo None]
  have g: "gm_get [(?k, v)] ?k = Some v" for v :: gval by simp
  have "ExecutionContext_GetNested [(?k, v)] ?k = Some v" for v
    by (simp add: ExecutionContext_GetNested_def)
  then show ?thesis
    using dp assms(3-6) int_g_eq[of i]
    by (simp add: ExecutionContext_Value_def ExecutionContext_Scan_def scan_text_def float_v_of_int)
qed

lemma decision_after_storage_witness:
  "\<exists>t ec. ExecutionContext_Value (\<lambda>t n. Inl json_unsupported) [(''rows'', VInt 2000000)] = Inr t
    \<and> ExecutionContext_Scan t [] = Inr ec
    \<and> fst (Decide (\<lambda>f. []) (\<lambda>t n. []) (Some (\<lambda>s je. Resolve (\<lambda>f. []) (\<lambda>t n. []) s je None))
         \<lparr>dc_id = ''d'', dc_properties = [], dc_conditionKey = ''rows'',
          dc_expectedValue = int_str 2000000, dc_defaultStatus = ExitFailed\<rparr>
         ((NewJobExecution ''e'' 0 0 ''i'' ''j'' NewJobParameters)\<lparr>je_ExecutionContext := ec\<rparr>)) \<noteq> ExitCompleted"
  using decision_after_storage[of "\<lparr>dc_id = ''d'', dc_properties = [], dc_conditionKey = ''rows'',
          dc_expectedValue = int_str 2000000, dc_defaultStatus = ExitFailed\<rparr>" 2000000
      "(NewJobExecution ''e'' 0 0 ''i'' ''j'' NewJobParameters)\<lparr>je_ExecutionContext := [(''rows'', VInt 2000000)]\<rparr>"
      "\<lambda>t n. Inl json_unsupported" "\<lambda>f. []" "\<lambda>t n. []"]
  by (auto simp: NewJobExecution_def)

section \<open>Run identifiers and connection names\<close>

lemma fold_put:
  "fold (\<lambda>(k, v) p. JobParameters_Put k v p) m \<lparr>Params = Some m'\<rparr> = \<lparr>Params = Some (gm_merge m m')\<rparr>"
  by (induction m arbitrary: m') (auto simp: JobParameters_Put_def)

lemma copy_params_map: "copy_params params = \<lparr>Params = Some (gm_merge (jp_map params) [])\<rparr>"
  by (simp add: copy_params_def NewJobParameters_def fold_put)

lemma run_id_params:
  "RunID_GetNext oor name params = \<lparr>Params = Some (gm_put name
     (VInt (case JobParameters_GetInt oor params name of None \<Rightarrow> 1 | Some i \<Rightarrow> int_wrap (i + 1)))
     (gm_merge (jp_map params) []))\<rparr>"
  by (simp add: RunID_GetNext_def copy_params_map JobParameters_Put_def split: option.splits)

lemma run_id_step:
  assumes "gm_wf (jp_map params)"
  shows "gm_wf (jp_map (RunID_GetNext oor name params))"
    and "gm_get (jp_map (RunID_GetNext oor name params)) k =
      (if k = name then Some (VInt (case JobParameters_GetInt oor params name of
           None \<Rightarrow> 1 | Some i \<Rightarrow> int_wrap (i + 1)))
       else gm_get (jp_map params) k)"
  using assms by (simp_all add: run_id_params jp_map_def gm_get_merge split: option.splits)

lemma run_id_get:
  "gm_wf (jp_map params) \<Longrightarrow> JobParameters_GetInt oor (RunID_GetNext oor name params) name =
     Some (case JobParameters_GetInt oor params name of None \<Rightarrow> 1 | Some i \<Rightarrow> int_wrap (i + 1))"
  using run_id_step(2)[of params oor name name] by (simp add: JobParameters_GetInt_def)

lemma int_wrap_small [simp]: "- (2 ^ 63) \<le> i \<Longrightarrow> i < 2 ^ 63 \<Longrightarrow> int_wrap i = i"
  by (simp add: int_wrap_def)

text \<open>
  Parameters without an integer run identifier get 1, 2, 3 and so on, one more at each call as
  long as an \<open>int\<close> can hold it, and every other parameter is kept; the identifier after the
  largest \<open>int\<close> is the smallest one.
\<close>

theorem run_id_sequence:
  assumes "gm_wf (jp_map params)" "JobParameters_GetInt oor params name = None" "int n < 2 ^ 63 - 1"
  shows "JobParameters_GetInt oor ((RunID_GetNext oor name ^^ Suc n) params) name = Some (int n + 1)
    \<and> (\<forall>k. k \<noteq> name \<longrightarrow>
         gm_get (jp_map ((RunID_GetNext oor name ^^ Suc n) params)) k = gm_get (jp_map params) k)
    \<and> JobParameters_GetInt oor (RunID_GetNext oor name \<lparr>Params = Some [(name, VInt (2 ^ 63 - 1))]\<rparr>) name
        = Some (- (2 ^ 63))"
proof -
  have "gm_wf (jp_map ((RunID_GetNext oor name ^^ Suc n) params))
    \<and> JobParameters_GetInt oor ((RunID_GetNext oor name ^^ Suc n) params) name = Some (int n + 1)
    \<and> (\<forall>k. k \<noteq> name \<longrightarrow>
         gm_get (jp_map ((RunID_GetNext oor name ^^ Suc n) params)) k = gm_get (jp_map params) k)"
    using assms(3)
  proof (induction n)
    case 0
    then show ?case using run_id_step[OF assms(1)] run_id_get[OF assms(1)] assms(2) by simp
  next
    case (Suc n)
    let ?p = "(RunID_GetNext oor name ^^ Suc n) params"
    have ih: "gm_wf (jp_map ?p)" "JobParameters_GetInt oor ?p name = Some (int n + 1)"
      "\<forall>k. k \<noteq> name \<longrightarrow> gm_get (jp_map ?p) k = gm_get (jp_map params) k"
      using Suc by simp_all
    have s: "(RunID_GetNext oor name ^^ Suc (Suc n)) params = RunID_GetNext oor name ?p" by simp
    show ?case unfolding s
      using run_id_step[OF ih(1), of oor name] run_id_get[OF ih(1), of oor name] ih(2,3) Suc.prems by simp
  qed
  moreover have "JobParameters_GetInt oor (RunID_GetNext oor name \<lparr>Params = Some [(name, VInt (2 ^ 63 - 1))]\<rparr>) name
      = Some (- (2 ^ 63))"
    by (subst run_id_get) (simp_all add: jp_map_def gm_wf_def JobParameters_GetInt_def int_wrap_def)
  ultimately show ?thesis by blast
qed

lemma run_id_sequence_witness:
  "JobParameters_GetInt (\<lambda>f. 0) ((RunID_GetNext (\<lambda>f. 0) ''run.id'' ^^ 3)
      \<lparr>Params = Some [(''date'', VStr ''d'')]\<rparr>) ''run.id'' = Some 3"
  using run_id_sequence[of "\<lparr>Params = Some [(''date'', VStr ''d'')]\<rparr>" "\<lambda>f. 0" "''run.id''" 2]
  by (simp add: jp_map_def gm_wf_def JobParameters_GetInt_def numeral_3_eq_3)

lemma scan_close_text: "scan_close s = Some (a, rest) \<Longrightarrow> s = a @ ''}'' @ rest"
  by (induction s arbitrary: a) (auto split: if_splits)

lemma scan_inner_text: "scan_inner s = Some (a, rest) \<Longrightarrow> s = a @ ''}'' @ rest"
  by (cases s) (auto split: if_splits dest: scan_close_text)

lemma resolve_text_same: "resolve_text (\<lambda>inner. ''#{'' @ inner @ ''}'') s = s"
proof (induction "\<lambda>inner. ''#{'' @ inner @ ''}''" s rule: resolve_text.induct)
  case (2 c cs)
  show ?case
  proof (cases "c = CHR ''#'' \<and> cs \<noteq> [] \<and> hd cs = CHR ''{''")
    case True
    show ?thesis
    proof (cases "scan_inner (tl cs)")
      case None
      then show ?thesis using 2(1)[OF True None] True by simp
    next
      case (Some x)
      obtain a rest where x: "x = (a, rest)" by (cases x)
      have "resolve_text (\<lambda>inner. ''#{'' @ inner @ ''}'') rest = rest"
        using 2(2)[OF True Some x[symmetric]] .
      moreover have "cs = CHR ''{'' # a @ ''}'' @ rest"
        using True scan_inner_text[of "tl cs" a rest] Some x by (cases cs) auto
      ultimately show ?thesis using True Some x by simp
    qed
  next
    case False
    then show ?thesis using 2(3)[OF False] by auto
  qed
qed simp

text \<open>
  With the default resolver the name of a connection is never empty, a name without
  expressions is taken as it is, and without a job execution every name is, its expressions
  included.
\<close>

theorem connection_name_resolution:
  "ResolveConnectionName (\<lambda>s. Resolve ff fo s je se) n \<noteq> []
   \<and> (n \<noteq> [] \<longrightarrow> \<not> str_contains n ''#{'' \<longrightarrow> ResolveConnectionName (\<lambda>s. Resolve ff fo s je se) n = n)
   \<and> ResolveConnectionName (\<lambda>s. Resolve ff fo s je se) [] = ''workload''
   \<and> (n \<noteq> [] \<longrightarrow> ResolveConnectionName (\<lambda>s. Resolve ff fo s None se) n = n)"
proof -
  have "resolve_match ff fo None se = (\<lambda>inner. ''#{'' @ inner @ ''}'')"
    by (rule ext) (simp add: resolve_match_def Let_def)
  then have "Resolve ff fo n None se = Inr n" using resolve_text_same[of n] by (simp add: Resolve_text)
  then show ?thesis
    using default_resolver.connection_not_empty[of ff fo je se n]
      default_resolver.plain_connection[of n ff fo je se]
    by (simp add: ResolveConnectionName_def)
qed

lemma connection_name_resolution_witness:
  "ResolveConnectionName (\<lambda>s. Resolve (\<lambda>f. []) (\<lambda>t n. []) s None None) ''metadata'' = ''metadata''"
  using connection_name_resolution[of "\<lambda>f. []" "\<lambda>t n. []" None None "''metadata''"] by simp

end
