(* ===== verification/JSL_Correct.thy ===== *)
theory JSL_Correct
  imports JSL_Conversion Job_Expressions "HOL-Library.Multiset"
begin

text \<open>
  What the conversion of a job specification guarantees: the shape of the flow that comes out, the
  steps that were built for it, and what depends on the order in which a Go map is visited.
\<close>

lemma bind_res_Inl_iff: "bind_res r f = Inl e \<longleftrightarrow> r = Inl e \<or> (\<exists>a. r = Inr a \<and> f a = Inl e)"
  by (cases r) auto

lemma case_res_Inr_iff:
  "(case r of Inl e \<Rightarrow> Inl (f e) | Inr a \<Rightarrow> g a) = Inr b \<longleftrightarrow> (\<exists>a. r = Inr a \<and> g a = Inr b)"
  by (cases r) auto

lemma case_opt_Inr_iff:
  "(case x of None \<Rightarrow> Inl e | Some a \<Rightarrow> g a) = Inr b \<longleftrightarrow> (\<exists>a. x = Some a \<and> g a = Inr b)"
  by (cases x) auto

lemma if_Inl_Inr_iff:
  "(if c then Inl e else r) = Inr b \<longleftrightarrow> \<not> c \<and> r = Inr b"
  "(if c then r else Inl e) = Inr b \<longleftrightarrow> c \<and> r = Inr b"
  by auto

lemmas ok_iffs = bind_res_Inr_iff case_res_Inr_iff case_opt_Inr_iff if_Inl_Inr_iff

section \<open>The first pass\<close>

text \<open>A step as it is built from its specification, when this is no partition step.\<close>

definition plain_step :: "('y, 'c) jsl_env \<Rightarrow> jsl_Step \<Rightarrow> 'c core_step \<Rightarrow> bool" where
  "plain_step env st s \<longleftrightarrow> (case s of
     ChunkStep c \<Rightarrow> \<exists>ck. js_Chunk st = Some ck \<and> cf_chunkSize c = ck_ItemCount ck
       \<and> cf_isolationLevel c = parseIsolationLevel (ck_IsolationLevel ck)
       \<and> cf_skipPolicy c = SkipPolicy_Create (isc_SkipLimit (env_ItemSkip env)) (isc_SkippableExceptions (env_ItemSkip env))
       \<and> is_Reader env (cf_reader c) \<and> is_Processor env (cf_processor c) \<and> is_Writer env (cf_writer c)
   | TaskletStep t \<Rightarrow> js_Chunk st = None \<and> cr_Ref (js_Tasklet st) \<noteq> [] \<and> is_Tasklet env (tf_tasklet t)
   | PartitionStep i p w g n ls pr \<Rightarrow> False)"

lemma first_step_spec:
  assumes "first_step env key st built = Inr built'"
  shows "js_ID st = key \<and>
    (if js_Partition st = None
     then \<exists>s. built' = gm_put key (Built (CoreStep s)) built \<and> core_step_ID s = key
        \<and> plain_step env st s
     else if js_Chunk st = None \<and> cr_Ref (js_Tasklet st) = []
     then \<exists>c ls. built' = gm_put key (BuiltPartition st c ls (js_Promotion st)) built \<and> is_Partitioner env c
     else built' = built)"
proof -
  have tk: "build_tasklet env False st = Inr t \<Longrightarrow> is_Tasklet env t" for t
    by (auto simp: build_tasklet_def Let_def ok_iffs split: if_splits)
  have pt: "build_partitioner env pa = Inr c \<Longrightarrow> is_Partitioner env c" for pa c
    by (auto simp: build_partitioner_def Let_def ok_iffs)
  have bc: "build_component env what ok ex ref ps = Inr c \<Longrightarrow> ok c" for what ok ex ref ps c
    by (auto simp: build_component_def ok_iffs)
  have ck: "build_chunk_parts env st = Inr (r, p, w) \<Longrightarrow> is_Reader env r \<and> is_Processor env p \<and> is_Writer env w" for r p w
    by (auto simp: build_chunk_parts_def buildReaderWriterProcessor_def bind_res_Inr_iff dest: bc)
  let ?keep = "\<lambda>b. Inr (if js_Partition st = None then gm_put key (Built (CoreStep b)) built else built)"
  obtain sls ils skls where i: "js_ID st = key"
    and c: "(case js_Chunk st of
          Some ck \<Rightarrow>
            (if cr_Ref (js_Reader st) = [] \<or> cr_Ref (js_Processor st) = [] \<or> cr_Ref (js_Writer st) = []
             then Inl (jsl_failf (''Chunk Step '' @ quoted ''%s'' @ '' requires reader, processor, and writer components'') [key])
             else bind_res (build_chunk_parts env st) (\<lambda>(r, p, w).
                ?keep (CreateChunkStep env (js_ID st) r p w (ck_ItemCount ck) (ck_CommitInterval ck) sls ils skls
                  (js_Promotion st) (ck_IsolationLevel ck) (js_Propagation st))))
        | None \<Rightarrow>
            if cr_Ref (js_Tasklet st) \<noteq> []
            then bind_res (build_tasklet env False st) (\<lambda>t.
                ?keep (CreateTaskletStep (js_ID st) t sls (js_Promotion st) (js_IsolationLevel st) (js_Propagation st)))
            else (case js_Partition st of
                Some pa \<Rightarrow> bind_res (build_partitioner env pa) (\<lambda>c.
                    Inr (gm_put key (BuiltPartition st c sls (js_Promotion st)) built))
              | None \<Rightarrow> Inl (jsl_failf (''Step '' @ quoted ''%s'' @ '' must define either chunk, tasklet, or partition'') [key])))
        = Inr built'"
    using assms unfolding first_step_def Let_def if_Inl_Inr_iff bind_res_Inr_iff by blast
  show ?thesis
  proof (cases "js_Chunk st")
    case (Some ck)
    then obtain r p w where b: "build_chunk_parts env st = Inr (r, p, w)" and
        k: "?keep (CreateChunkStep env (js_ID st) r p w (ck_ItemCount ck) (ck_CommitInterval ck) sls ils skls
                  (js_Promotion st) (ck_IsolationLevel ck) (js_Propagation st)) = Inr built'"
      using c by (auto simp: bind_res_Inr_iff split: if_split_asm)
    show ?thesis using k ck[OF b] i Some by (cases "js_Partition st") (auto simp: CreateChunkStep_def plain_step_def)
  next
    case None
    show ?thesis
    proof (cases "cr_Ref (js_Tasklet st) = []")
      case True
      then show ?thesis using c None i pt by (cases "js_Partition st") (auto simp: bind_res_Inr_iff)
    next
      case False
      then obtain t where b: "build_tasklet env False st = Inr t" and
          k: "?keep (CreateTaskletStep (js_ID st) t sls (js_Promotion st) (js_IsolationLevel st) (js_Propagation st)) = Inr built'"
        using c None by (auto simp: bind_res_Inr_iff)
      show ?thesis using k tk[OF b] i None False by (cases "js_Partition st") (auto simp: CreateTaskletStep_def plain_step_def)
    qed
  qed
qed

lemma first_decision_spec:
  assumes "first_decision env key d built = Inr built'"
  shows "jd_ID d = key \<and> jd_Transitions d \<noteq> [] \<and> (\<exists>c. built' = gm_put key (Built (CoreDecision c)) built)"
  using assms by (auto simp: first_decision_def ok_iffs)

lemma split_members_spec:
  "split_members flow sid ids built = Inr ss \<Longrightarrow>
     map (\<lambda>i. gm_get built i) ids = map (\<lambda>s. Some (Built (CoreStep s))) ss"
proof (induction ids arbitrary: ss)
  case (Cons i ids)
  then obtain s where s: "gm_get built i = Some (Built (CoreStep s))"
    by (auto split: option.split_asm built.split_asm core_element.split_asm if_split_asm)
  with Cons show ?case by (auto simp: bind_res_Inr_iff)
qed simp

lemma first_split_spec:
  assumes "first_split env flow key sp built = Inr built'"
  shows "jsp_ID sp = key
    \<and> (\<exists>ss c. map (\<lambda>i. gm_get built i) (jsp_Steps sp) = map (\<lambda>s. Some (Built (CoreStep s))) ss
         \<and> built' = gm_put key (Built (CoreSplit c)) built)"
  using assms
  by (auto simp: first_split_def ok_iffs dest!: split_members_spec)

text \<open>An element changes at most its own entry.\<close>

lemma first_element_frame:
  assumes "first_element env flow key y built = Inr built'"
  shows "built' = built \<or> (\<exists>b. built' = gm_put key b built)"
proof -
  obtain bytes where b: "yaml_Marshal env y = Inr bytes" using assms
    by (auto simp: first_element_def split: sum.split_asm)
  show ?thesis
  proof (cases "classify env bytes")
    case (ElemStep st)
    then have "first_step env key st built = Inr built'" using assms b by (simp add: first_element_def)
    then show ?thesis using first_step_spec by (metis (no_types))
  next
    case (ElemDecision d)
    then show ?thesis using assms b first_decision_spec by (fastforce simp: first_element_def)
  next
    case (ElemSplit sp)
    then show ?thesis using assms b first_split_spec by (fastforce simp: first_element_def)
  qed (use assms b in \<open>simp add: first_element_def\<close>)
qed

lemma first_pass_append:
  "first_pass env flow (xs @ ys) built = bind_res (first_pass env flow xs built) (first_pass env flow ys)"
proof (induction xs arbitrary: built)
  case (Cons x xs)
  then show ?case by (cases x; cases "first_element env flow (fst x) (snd x) built") auto
qed simp

lemma first_pass_frame:
  "first_pass env flow ys built = Inr built' \<Longrightarrow> k \<notin> fst ` set ys \<Longrightarrow> gm_get built' k = gm_get built k"
proof (induction ys arbitrary: built)
  case (Cons x ys)
  obtain key y where x: "x = (key, y)" by (cases x)
  then obtain b1 where b1: "first_element env flow key y built = Inr b1" "first_pass env flow ys b1 = Inr built'"
    using Cons.prems(1) by (auto simp: bind_res_Inr_iff)
  have "gm_get b1 k = gm_get built k" using first_element_frame[OF b1(1)] Cons.prems(2) x by auto
  then show ?case using Cons.IH[OF b1(2)] Cons.prems(2) by simp
qed simp

text \<open>The moment at which an element was built, and what is left of it at the end.\<close>

lemma first_pass_at:
  assumes "first_pass env flow (pre @ (key, y) # post) [] = Inr built"
    and "distinct (map fst (pre @ (key, y) # post))"
  obtains b0 b1 where "first_element env flow key y b0 = Inr b1" "gm_get built key = gm_get b1 key"
    "\<forall>k. gm_get b0 k \<noteq> None \<longrightarrow> k \<in> fst ` set pre"
    "\<forall>k \<in> fst ` set pre. gm_get built k = gm_get b0 k"
proof -
  obtain b0 b1 where b: "first_pass env flow pre [] = Inr b0" "first_element env flow key y b0 = Inr b1"
      "first_pass env flow post b1 = Inr built"
    using assms(1) by (auto simp: first_pass_append bind_res_Inr_iff)
  have k: "key \<notin> fst ` set post" "key \<notin> fst ` set pre" "fst ` set pre \<inter> fst ` set post = {}"
    using assms(2) by auto
  have "gm_get b0 k \<noteq> None \<longrightarrow> k \<in> fst ` set pre" for k
    using first_pass_frame[OF b(1), where k = k] by (cases "k \<in> fst ` set pre") auto
  moreover have "gm_get built k' = gm_get b0 k'" if "k' \<in> fst ` set pre" for k'
  proof -
    have "k' \<notin> fst ` set post" "k' \<noteq> key" using k that by auto
    then show ?thesis using first_pass_frame[OF b(3)] first_element_frame[OF b(2)] by auto
  qed
  ultimately show ?thesis using that[OF b(2)] first_pass_frame[OF b(3) k(1)] by blast
qed

section \<open>The second pass\<close>

definition rule_of :: "jsl_Transition \<Rightarrow> Transition" where
  "rule_of t = \<lparr>tr_To = jt_To t, tr_End = jt_End t, tr_Fail = jt_Fail t, tr_Stop = jt_Stop t\<rparr>"

text \<open>A rule does exactly one thing, and goes nowhere but to an element.\<close>

definition rule_ok :: "(string, 'el) gomap \<Rightarrow> Transition \<Rightarrow> bool" where
  "rule_ok els r \<longleftrightarrow>
     (length (filter id [tr_End r, tr_Fail r, tr_Stop r, tr_To r \<noteq> []]) = 1)
     \<and> (tr_To r \<noteq> [] \<longrightarrow> gm_get els (tr_To r) \<noteq> None)"

lemma validateTransition_ok:
  "validateTransition key t els = None \<Longrightarrow> jt_On t \<noteq> [] \<and> rule_ok els (rule_of t)"
  by (auto simp: validateTransition_def rule_ok_def rule_of_def Let_def split: if_split_asm)

lemma add_transitions_spec:
  "add_transitions key ts els fd = Inr fd' \<Longrightarrow>
     (\<forall>t\<in>set ts. rule_ok els (rule_of t)) \<and> fd_Elements fd' = fd_Elements fd
     \<and> fd_StartElement fd' = fd_StartElement fd
     \<and> (\<forall>k. k \<noteq> key \<longrightarrow> gm_get (fd_Transitions fd') k = gm_get (fd_Transitions fd) k)
     \<and> gm_get (fd_Transitions fd') key = (if ts = [] then gm_get (fd_Transitions fd) key
          else Some ((case gm_get (fd_Transitions fd) key of Some rs \<Rightarrow> rs | None \<Rightarrow> []) @ map rule_of ts))"
proof (induction ts arbitrary: fd)
  case (Cons t ts)
  then have v: "validateTransition key t els = None"
    and r: "add_transitions key ts els (AddTransitionRule key (jt_On t) (jt_To t) (jt_End t) (jt_Fail t) (jt_Stop t) fd) = Inr fd'"
    by (auto split: option.split_asm)
  have tr: "gm_get (fd_Transitions (AddTransitionRule key (jt_On t) (jt_To t) (jt_End t) (jt_Fail t) (jt_Stop t) fd)) k
      = (if k = key then Some ((case gm_get (fd_Transitions fd) key of Some rs \<Rightarrow> rs | None \<Rightarrow> []) @ [rule_of t])
         else gm_get (fd_Transitions fd) k)" for k
    by (simp add: AddTransitionRule_def Let_def rule_of_def)
  have fr: "fd_Elements (AddTransitionRule key (jt_On t) (jt_To t) (jt_End t) (jt_Fail t) (jt_Stop t) fd) = fd_Elements fd"
    "fd_StartElement (AddTransitionRule key (jt_On t) (jt_To t) (jt_End t) (jt_Fail t) (jt_Stop t) fd) = fd_StartElement fd"
    by (simp_all add: AddTransitionRule_def Let_def)
  from Cons.IH[OF r] show ?case using validateTransition_ok[OF v] by (simp add: tr fr)
qed simp

text \<open>The transitions an element declares.\<close>

fun elem_transitions :: "jsl_element \<Rightarrow> jsl_Transition list" where
  "elem_transitions (ElemStep st) = js_Transitions st"
| "elem_transitions (ElemDecision d) = jd_Transitions d"
| "elem_transitions (ElemSplit sp) = jsp_Transitions sp"
| "elem_transitions ElemUnknown = []"

lemma add_element_spec:
  assumes "add_element kind key el ts els fd = Inr fd'"
  shows "(\<forall>t\<in>set ts. rule_ok els (rule_of t)) \<and> fd_Elements fd' = gm_put key el (fd_Elements fd)
     \<and> fd_StartElement fd' = fd_StartElement fd
     \<and> (\<forall>k. k \<noteq> key \<longrightarrow> gm_get (fd_Transitions fd') k = gm_get (fd_Transitions fd) k)
     \<and> gm_get (fd_Transitions fd') key = (if ts = [] then gm_get (fd_Transitions fd) key
          else Some ((case gm_get (fd_Transitions fd) key of Some rs \<Rightarrow> rs | None \<Rightarrow> []) @ map rule_of ts))"
proof -
  have "AddElement key el fd = Inr (fd\<lparr>fd_Elements := gm_put key el (fd_Elements fd)\<rparr>)"
    using assms by (auto simp: add_element_def AddElement_def split: if_split_asm)
  then have "add_transitions key ts els (fd\<lparr>fd_Elements := gm_put key el (fd_Elements fd)\<rparr>) = Inr fd'"
    using assms by (simp add: add_element_def)
  from add_transitions_spec[OF this] show ?thesis by simp
qed

text \<open>The element that the second pass adds for one of the specification.\<close>

definition final_element :: "('y, 'c) jsl_env \<Rightarrow> 'y jsl_Flow \<Rightarrow> (string, 'c built) gomap \<Rightarrow> string \<Rightarrow>
    jsl_element \<Rightarrow> 'c core_element \<Rightarrow> bool" where
  "final_element env flow built key je el \<longleftrightarrow>
     (case je of
        ElemStep st \<Rightarrow> (case js_Partition st of
            Some pa \<Rightarrow> partition_element env flow key st pa built = Inr el
          | None \<Rightarrow> gm_get built key = Some (Built el))
      | ElemUnknown \<Rightarrow> False
      | _ \<Rightarrow> gm_get built key = Some (Built el))"

lemma second_element_spec:
  assumes "second_element env flow built key y fd = Some (Inr fd')"
  shows "\<exists>bytes el kind. yaml_Marshal env y = Inr bytes
     \<and> final_element env flow built key (classify env bytes) el
     \<and> add_element kind key el (elem_transitions (classify env bytes)) (jf_Elements flow) fd = Inr fd'"
proof -
  obtain bytes where b: "yaml_Marshal env y = Inr bytes"
    using assms by (auto simp: second_element_def split: sum.split_asm)
  have be: "built_element key built = Some el \<Longrightarrow> gm_get built key = Some (Built el)" for el
    by (auto simp: built_element_def split: option.split_asm built.split_asm)
  show ?thesis
  proof (cases "classify env bytes")
    case (ElemStep st)
    show ?thesis
    proof (cases "js_Partition st")
      case None
      then show ?thesis using assms b ElemStep
        by (auto simp: second_element_def final_element_def dest: be)
    next
      case (Some pa)
      then obtain el where "partition_element env flow key st pa built = Inr el"
          "add_element ''step'' key el (js_Transitions st) (jf_Elements flow) fd = Inr fd'"
        using assms b ElemStep by (auto simp: second_element_def bind_res_Inr_iff)
      then show ?thesis using b ElemStep Some
        by (intro exI[of _ bytes] exI[of _ el] exI[of _ "''step''"]) (simp add: final_element_def)
    qed
  qed (use assms b in \<open>auto simp: second_element_def final_element_def dest: be\<close>)
qed

lemma second_pass_spec:
  "second_pass env flow built ys fd = Some (Inr fd') \<Longrightarrow> distinct (map fst ys) \<Longrightarrow>
   (\<forall>k\<in>fst ` set ys. gm_get (fd_Transitions fd) k = None) \<Longrightarrow>
   fd_StartElement fd' = fd_StartElement fd
   \<and> (\<forall>k. k \<notin> fst ` set ys \<longrightarrow> gm_get (fd_Elements fd') k = gm_get (fd_Elements fd) k
        \<and> gm_get (fd_Transitions fd') k = gm_get (fd_Transitions fd) k)
   \<and> (\<forall>(key, y)\<in>set ys. \<exists>bytes el. yaml_Marshal env y = Inr bytes
        \<and> final_element env flow built key (classify env bytes) el
        \<and> gm_get (fd_Elements fd') key = Some el
        \<and> (\<forall>t\<in>set (elem_transitions (classify env bytes)). rule_ok (jf_Elements flow) (rule_of t))
        \<and> gm_get (fd_Transitions fd') key = (case elem_transitions (classify env bytes) of
             [] \<Rightarrow> None | ts \<Rightarrow> Some (map rule_of ts)))"
proof (induction ys arbitrary: fd)
  case (Cons x ys)
  obtain key y where x: "x = (key, y)" by (cases x)
  obtain fd1 where s: "second_element env flow built key y fd = Some (Inr fd1)"
      "second_pass env flow built ys fd1 = Some (Inr fd')"
    using Cons.prems(1) x by (auto split: option.split_asm sum.split_asm)
  obtain bytes el kind where e: "yaml_Marshal env y = Inr bytes"
      "final_element env flow built key (classify env bytes) el"
      "add_element kind key el (elem_transitions (classify env bytes)) (jf_Elements flow) fd = Inr fd1"
    using second_element_spec[OF s(1)] by blast
  note a = add_element_spec[OF e(3)]
  have k: "key \<notin> fst ` set ys" "distinct (map fst ys)" using Cons.prems(2) x by auto
  have "\<forall>k\<in>fst ` set ys. gm_get (fd_Transitions fd1) k = None"
  proof
    fix k assume "k \<in> fst ` set ys"
    then have "k \<noteq> key" "gm_get (fd_Transitions fd) k = None" using k(1) Cons.prems(3) by auto
    then show "gm_get (fd_Transitions fd1) k = None" using a by simp
  qed
  note IH = Cons.IH[OF s(2) k(2) this]
  have f: "gm_get (fd_Elements fd') key = Some el" "gm_get (fd_Transitions fd') key = gm_get (fd_Transitions fd1) key"
    using IH k(1) a by auto
  have t0: "gm_get (fd_Transitions fd) key = None" using Cons.prems(3) x by simp
  have t: "gm_get (fd_Transitions fd1) key = (case elem_transitions (classify env bytes) of
             [] \<Rightarrow> None | ts \<Rightarrow> Some (map rule_of ts))"
    using a t0 by (cases "elem_transitions (classify env bytes)") auto
  have "\<exists>bytes el. yaml_Marshal env y = Inr bytes
        \<and> final_element env flow built key (classify env bytes) el
        \<and> gm_get (fd_Elements fd') key = Some el
        \<and> (\<forall>t\<in>set (elem_transitions (classify env bytes)). rule_ok (jf_Elements flow) (rule_of t))
        \<and> gm_get (fd_Transitions fd') key = (case elem_transitions (classify env bytes) of
             [] \<Rightarrow> None | ts \<Rightarrow> Some (map rule_of ts))"
    using e(1,2) f t a by (intro exI[of _ bytes] exI[of _ el]) simp
  moreover have "fd_StartElement fd' = fd_StartElement fd" using IH a by simp
  moreover have "gm_get (fd_Elements fd') k = gm_get (fd_Elements fd) k
        \<and> gm_get (fd_Transitions fd') k = gm_get (fd_Transitions fd) k" if "k \<notin> fst ` set (x # ys)" for k
    using IH a that x by simp
  ultimately show ?case using IH x by auto
qed simp

section \<open>What comes out\<close>

text \<open>An order in which a loop may visit the elements of a flow.\<close>

definition visits :: "'y jsl_Flow \<Rightarrow> (string \<times> 'y) list \<Rightarrow> bool" where
  "visits flow order \<longleftrightarrow> gm_wf (jf_Elements flow) \<and> mset order = mset (jf_Elements flow)"

lemma visits_facts:
  assumes "visits flow order"
  shows "distinct (map fst order)" "set order = set (jf_Elements flow)"
    "(key, y) \<in> set order \<longleftrightarrow> gm_get (jf_Elements flow) key = Some y"
    "key \<in> fst ` set order \<longleftrightarrow> gm_get (jf_Elements flow) key \<noteq> None"
proof -
  have m: "mset order = mset (jf_Elements flow)" "distinct (map fst (jf_Elements flow))"
    using assms by (simp_all add: visits_def gm_wf_def)
  show s: "set order = set (jf_Elements flow)" using m(1) by (rule mset_eq_setD)
  have "mset (map fst order) = mset (map fst (jf_Elements flow))" using m(1) by simp
  then show "distinct (map fst order)" using m(2) by (metis mset_eq_imp_distinct_iff)
  show "(key, y) \<in> set order \<longleftrightarrow> gm_get (jf_Elements flow) key = Some y" using s m(2) by simp
  show "key \<in> fst ` set order \<longleftrightarrow> gm_get (jf_Elements flow) key \<noteq> None"
    unfolding s by (simp add: map_of_eq_None_iff)
qed

text \<open>What the first pass has left for an element at its end.\<close>

definition left_by_first :: "('y, 'c) jsl_env \<Rightarrow> string \<Rightarrow> jsl_element \<Rightarrow> 'c built option \<Rightarrow> bool" where
  "left_by_first env key je b \<longleftrightarrow> (case je of
       ElemStep st \<Rightarrow> js_ID st = key \<and>
         (if js_Partition st = None
          then \<exists>s. b = Some (Built (CoreStep s)) \<and> core_step_ID s = key \<and> plain_step env st s
          else js_Chunk st = None \<and> cr_Ref (js_Tasklet st) = [] \<and>
            (\<exists>c ls. b = Some (BuiltPartition st c ls (js_Promotion st)) \<and> is_Partitioner env c)
          \<or> \<not> (js_Chunk st = None \<and> cr_Ref (js_Tasklet st) = []) \<and> b = None)
     | ElemDecision d \<Rightarrow> jd_ID d = key \<and> jd_Transitions d \<noteq> [] \<and> (\<exists>c. b = Some (Built (CoreDecision c)))
     | ElemSplit sp \<Rightarrow> jsp_ID sp = key \<and> (\<exists>c. b = Some (Built (CoreSplit c)))
     | ElemUnknown \<Rightarrow> False)"

lemma first_pass_left:
  assumes "first_pass env flow order [] = Inr built" "distinct (map fst order)" "(key, y) \<in> set order"
  shows "\<exists>bytes. yaml_Marshal env y = Inr bytes \<and> left_by_first env key (classify env bytes) (gm_get built key)"
proof -
  obtain pre post where o: "order = pre @ (key, y) # post" using assms(3) by (meson split_list)
  from first_pass_at[OF assms(1,2)[unfolded o]] obtain b0 b1 where
      b: "first_element env flow key y b0 = Inr b1" "gm_get built key = gm_get b1 key"
      "\<forall>k. gm_get b0 k \<noteq> None \<longrightarrow> k \<in> fst ` set pre"
      "\<forall>k \<in> fst ` set pre. gm_get built k = gm_get b0 k" .
  have n: "gm_get b0 key = None" proof (rule ccontr)
    assume "gm_get b0 key \<noteq> None"
    then have "key \<in> fst ` set pre" using b(3) by blast
    then show False using assms(2) unfolding o by auto
  qed
  obtain bytes where y: "yaml_Marshal env y = Inr bytes"
    using b(1) by (auto simp: first_element_def split: sum.split_asm)
  have "left_by_first env key (classify env bytes) (gm_get b1 key)"
  proof (cases "classify env bytes")
    case (ElemStep st)
    then have "first_step env key st b0 = Inr b1" using b(1) y by (simp add: first_element_def)
    from first_step_spec[OF this] show ?thesis using n ElemStep
      by (auto simp: left_by_first_def split: if_split_asm)
  next
    case (ElemDecision d)
    then have "first_decision env key d b0 = Inr b1" using b(1) y by (simp add: first_element_def)
    from first_decision_spec[OF this] show ?thesis using ElemDecision by (auto simp: left_by_first_def)
  next
    case (ElemSplit sp)
    then have "first_split env flow key sp b0 = Inr b1" using b(1) y by (simp add: first_element_def)
    from first_split_spec[OF this] show ?thesis using ElemSplit by (auto simp: left_by_first_def)
  qed (use b(1) y in \<open>simp add: first_element_def\<close>)
  then show ?thesis using y b(2) by metis
qed

lemma second_element_defined:
  assumes "yaml_Marshal env y = Inr bytes" "left_by_first env key (classify env bytes) (gm_get built key)"
  shows "second_element env flow built key y fd \<noteq> None"
  using assms
  by (cases "classify env bytes")
    (auto simp: second_element_def left_by_first_def built_element_def split: option.splits if_split_asm)

lemma second_pass_defined:
  "(\<forall>(key, y)\<in>set ys. \<exists>bytes. yaml_Marshal env y = Inr bytes
      \<and> left_by_first env key (classify env bytes) (gm_get built key)) \<Longrightarrow>
   second_pass env flow built ys fd \<noteq> None"
proof (induction ys arbitrary: fd)
  case (Cons x ys)
  obtain key y where x: "x = (key, y)" by (cases x)
  then have "second_element env flow built key y fd \<noteq> None"
    using Cons.prems second_element_defined by fastforce
  then show ?case using Cons x by (auto split: sum.splits option.splits)
qed simp

lemma convert_parts:
  assumes "ConvertJSLToCoreFlow env flow o1 o2 = Some (Inr fd)"
  obtains built where "first_pass env flow o1 [] = Inr built"
    "second_pass env flow built o2 (NewFlowDefinition (jf_StartElement flow)) = Some (Inr fd)"
    "gm_get (jf_Elements flow) (jf_StartElement flow) \<noteq> None"
  using assms by (auto simp: ConvertJSLToCoreFlow_def split: if_split_asm sum.split_asm)

text \<open>A flow in which every rule is well formed and nothing leads to an element that is not there.\<close>

definition valid_flow :: "'el FlowDefinition \<Rightarrow> bool" where
  "valid_flow fd \<longleftrightarrow> gm_get (fd_Elements fd) (fd_StartElement fd) \<noteq> None
     \<and> (\<forall>k rs. gm_get (fd_Transitions fd) k = Some rs \<longrightarrow> gm_get (fd_Elements fd) k \<noteq> None
          \<and> (\<forall>r\<in>set rs. rule_ok (fd_Elements fd) r))"

lemma rule_ok_dom: "(\<forall>k. gm_get a k = None \<longleftrightarrow> gm_get b k = None) \<Longrightarrow> rule_ok a r \<Longrightarrow> rule_ok b r"
  by (simp add: rule_ok_def)

lemma convert_valid:
  assumes "visits flow o1" "visits flow o2" "ConvertJSLToCoreFlow env flow o1 o2 = Some (Inr fd)"
  shows "valid_flow fd \<and> fd_StartElement fd = jf_StartElement flow
    \<and> (\<forall>k. gm_get (fd_Elements fd) k = None \<longleftrightarrow> gm_get (jf_Elements flow) k = None)"
proof -
  from convert_parts[OF assms(3)] obtain built where f: "first_pass env flow o1 [] = Inr built"
    and s: "second_pass env flow built o2 (NewFlowDefinition (jf_StartElement flow)) = Some (Inr fd)"
    and st: "gm_get (jf_Elements flow) (jf_StartElement flow) \<noteq> None" .
  note sp = second_pass_spec[OF s visits_facts(1)[OF assms(2)], unfolded NewFlowDefinition_def, simplified]
  have dom: "gm_get (fd_Elements fd) k = None \<longleftrightarrow> gm_get (jf_Elements flow) k = None" for k
  proof (cases "gm_get (jf_Elements flow) k")
    case None
    then have "k \<notin> fst ` set o2" using visits_facts(4)[OF assms(2)] by blast
    then show ?thesis using sp None by simp
  next
    case (Some y)
    then have "(k, y) \<in> set o2" using visits_facts(3)[OF assms(2)] by blast
    then show ?thesis using sp Some by fastforce
  qed
  have tr: "gm_get (fd_Elements fd) k \<noteq> None \<and> (\<forall>r\<in>set rs. rule_ok (fd_Elements fd) r)"
    if k: "gm_get (fd_Transitions fd) k = Some rs" for k rs
  proof (cases "gm_get (jf_Elements flow) k")
    case None
    then have "k \<notin> fst ` set o2" using visits_facts(4)[OF assms(2)] by blast
    then show ?thesis using sp k by simp
  next
    case (Some y)
    then have "(k, y) \<in> set o2" using visits_facts(3)[OF assms(2)] by blast
    then obtain bytes where "\<forall>t\<in>set (elem_transitions (classify env bytes)). rule_ok (jf_Elements flow) (rule_of t)"
        "gm_get (fd_Transitions fd) k = (case elem_transitions (classify env bytes) of
             [] \<Rightarrow> None | ts \<Rightarrow> Some (map rule_of ts))"
      using sp by fastforce
    then have "\<forall>r\<in>set rs. rule_ok (jf_Elements flow) r" using k by (auto split: list.split_asm)
    moreover have "gm_get (fd_Elements fd) k \<noteq> None" using dom Some by simp
    ultimately show ?thesis using rule_ok_dom dom by blast
  qed
  have "fd_StartElement fd = jf_StartElement flow" using sp by simp
  then show ?thesis using tr dom st unfolding valid_flow_def by simp
qed

lemma convert_returns:
  assumes "visits flow o1" and "visits flow o2"
  shows "ConvertJSLToCoreFlow env flow o1 o2 \<noteq> None"
proof (cases "first_pass env flow o1 []")
  case (Inr built)
  have "\<forall>(key, y)\<in>set o2. \<exists>bytes. yaml_Marshal env y = Inr bytes
    \<and> left_by_first env key (classify env bytes) (gm_get built key)"
    using first_pass_left[OF Inr visits_facts(1)[OF assms(1)]] visits_facts(2)[OF assms(1)]
      visits_facts(2)[OF assms(2)] by blast
  from second_pass_defined[OF this] show ?thesis using Inr by (simp add: ConvertJSLToCoreFlow_def)
qed (simp add: ConvertJSLToCoreFlow_def)

text \<open>
  C22: whatever the orders in which its loops visit the map of elements, the conversion of a job
  specification returns, without a panic, and a flow that it returns is well formed: it has exactly
  the elements of the specification, the start element among them, every transition rule belongs to
  an element and does exactly one of going on, ending, failing and stopping, and a rule that goes on
  leads to an element of the flow, so the walk never looks for one that is not there.
\<close>

theorem jsl_flow_well_formed:
  assumes "visits flow o1" and "visits flow o2"
  shows "\<exists>res. ConvertJSLToCoreFlow env flow o1 o2 = Some res
    \<and> (\<forall>fd. res = Inr fd \<longrightarrow> valid_flow fd \<and> fd_StartElement fd = jf_StartElement flow
        \<and> (\<forall>k. gm_get (fd_Elements fd) k = None \<longleftrightarrow> gm_get (jf_Elements flow) k = None)
        \<and> (\<forall>k status isErr r. GetTransitionRule fd k status isErr = Some r
             \<and> \<not> tr_End r \<and> \<not> tr_Fail r \<and> \<not> tr_Stop r \<longrightarrow> gm_get (fd_Elements fd) (tr_To r) \<noteq> None))"
proof -
  obtain res where res: "ConvertJSLToCoreFlow env flow o1 o2 = Some res"
    using convert_returns[OF assms] by blast
  have "gm_get (fd_Elements fd) (tr_To r) \<noteq> None"
    if v: "valid_flow fd" and g: "GetTransitionRule fd k status isErr = Some r"
      and n: "\<not> tr_End r" "\<not> tr_Fail r" "\<not> tr_Stop r"
    for fd :: "'b core_element FlowDefinition" and k status isErr r
  proof -
    obtain rs where "gm_get (fd_Transitions fd) k = Some (r # rs)"
      using g by (auto simp: GetTransitionRule_def split: option.split_asm list.split_asm)
    then have "rule_ok (fd_Elements fd) r" using v unfolding valid_flow_def by fastforce
    then show ?thesis using n by (auto simp: rule_ok_def)
  qed
  then show ?thesis using res convert_valid[OF assms] by (intro exI[of _ res]) blast
qed

section \<open>Splits and the order of a map\<close>

lemma convert_split_order:
  assumes "visits flow o1" "ConvertJSLToCoreFlow env flow o1 o2 = Some (Inr fd)"
    and o: "o1 = pre @ (sid, y) # post" and y: "yaml_Marshal env y = Inr bytes" "classify env bytes = ElemSplit sp"
  shows "set (jsp_Steps sp) \<subseteq> fst ` set pre"
proof
  fix i assume i: "i \<in> set (jsp_Steps sp)"
  from convert_parts[OF assms(2)] obtain built where f: "first_pass env flow o1 [] = Inr built" by blast
  from first_pass_at[OF f[unfolded o] visits_facts(1)[OF assms(1), unfolded o]] obtain b0 b1 where
      b: "first_element env flow sid y b0 = Inr b1" "gm_get built sid = gm_get b1 sid"
      "\<forall>k. gm_get b0 k \<noteq> None \<longrightarrow> k \<in> fst ` set pre"
      "\<forall>k \<in> fst ` set pre. gm_get built k = gm_get b0 k" .
  have "first_split env flow sid sp b0 = Inr b1" using b(1) y by (simp add: first_element_def)
  from first_split_spec[OF this] obtain ss where
    "map (\<lambda>i. gm_get b0 i) (jsp_Steps sp) = map (\<lambda>s. Some (Built (CoreStep s))) ss" by blast
  then have "gm_get b0 i \<in> (\<lambda>s. Some (Built (CoreStep s))) ` set ss" using i by (metis image_eqI image_set)
  then show "i \<in> fst ` set pre" using b(3) by auto
qed

text \<open>
  The first loop resolves no forward reference of a split, although it is there for that. It
  looks the steps of a split up among the elements it has come to: when the order in which Go visits
  the map puts a split before one of its steps, the conversion fails, whatever the specification.
\<close>

theorem jsl_split_needs_order:
  assumes "visits flow o1" and "o1 = pre @ (sid, y) # post"
    and "yaml_Marshal env y = Inr bytes" and "classify env bytes = ElemSplit sp"
    and "i \<in> set (jsp_Steps sp)" and "i \<notin> fst ` set pre"
  shows "\<not> (\<exists>fd. ConvertJSLToCoreFlow env flow o1 o2 = Some (Inr fd))"
  using convert_split_order[OF assms(1) _ assms(2-4)] assms(5,6) by blast

section \<open>The steps of the flow\<close>

text \<open>The worker of a partition step keeps nothing of the listeners and the promotion it is written with.\<close>

definition bare_worker :: "'c core_step \<Rightarrow> bool" where
  "bare_worker s \<longleftrightarrow> (case s of
     ChunkStep c \<Rightarrow> cf_stepListeners c = [] \<and> cf_itemListeners c = no_listeners \<and> cf_skipListeners c = []
       \<and> cf_promotion c = None
   | TaskletStep t \<Rightarrow> tf_stepListeners t = [] \<and> tf_promotion t = None
   | PartitionStep i p w g n ls pr \<Rightarrow> False)"

lemma worker_step_bare: "worker_step env flow key pa = Inr s \<Longrightarrow> bare_worker s"
  by (auto simp: worker_step_def ok_iffs bare_worker_def CreateChunkStep_def CreateTaskletStep_def
      split: option.split_asm)

text \<open>
  Every step of an accepted specification is in the flow under its identifier, built as the first
  of chunk, tasklet and partition that it defines: a chunk step with its item count, a skip policy from
  the configuration and components of the right kinds; a partition step with its grid size, a
  concurrency of 1 unless it says otherwise, and a worker without any listener or promotion, whatever
  the worker's own specification lists. A step that defines a partition beside a chunk or a tasklet is
  never accepted.
\<close>

theorem jsl_steps_built:
  assumes "visits flow o1" and "visits flow o2" and "ConvertJSLToCoreFlow env flow o1 o2 = Some (Inr fd)"
    and "gm_get (jf_Elements flow) key = Some y" and "yaml_Marshal env y = Inr bytes"
    and "classify env bytes = ElemStep st"
  shows "\<exists>s. gm_get (fd_Elements fd) key = Some (CoreStep s) \<and> core_step_ID s = key
    \<and> (case js_Partition st of
         None \<Rightarrow> plain_step env st s
       | Some pa \<Rightarrow> js_Chunk st = None \<and> cr_Ref (js_Tasklet st) = [] \<and>
           (\<exists>c w ls. s = PartitionStep key c w (jp_GridSize pa)
               (case jp_Concurrency pa of None \<Rightarrow> 1 | Some n \<Rightarrow> n) ls (js_Promotion st)
             \<and> is_Partitioner env c \<and> worker_step env flow key pa = Inr w \<and> bare_worker w))"
proof -
  from convert_parts[OF assms(3)] obtain built where f: "first_pass env flow o1 [] = Inr built"
    and s: "second_pass env flow built o2 (NewFlowDefinition (jf_StartElement flow)) = Some (Inr fd)" .
  have k: "(key, y) \<in> set o1" "(key, y) \<in> set o2"
    using visits_facts(3)[OF assms(1)] visits_facts(3)[OF assms(2)] assms(4) by blast+
  have l: "left_by_first env key (ElemStep st) (gm_get built key)"
    using first_pass_left[OF f visits_facts(1)[OF assms(1)] k(1)] assms(5,6) by auto
  note sp = second_pass_spec[OF s visits_facts(1)[OF assms(2)], unfolded NewFlowDefinition_def, simplified]
  obtain el where e: "final_element env flow built key (ElemStep st) el" "gm_get (fd_Elements fd) key = Some el"
    using sp k(2) assms(5,6) by fastforce
  show ?thesis
  proof (cases "js_Partition st")
    case None
    then show ?thesis using l e by (auto simp: left_by_first_def final_element_def)
  next
    case (Some pa)
    then have "partition_element env flow key st pa built = Inr el" using e(1) by (simp add: final_element_def)
    then obtain st0 c ls pr w where p: "gm_get built key = Some (BuiltPartition st0 c ls pr)"
        "worker_step env flow key pa = Inr w"
        "el = CoreStep (CreatePartitionStep (js_ID st) c w (jp_GridSize pa)
           (case jp_Concurrency pa of None \<Rightarrow> 1 | Some n \<Rightarrow> n) ls pr)"
      by (auto simp: partition_element_def bind_res_Inr_iff split: option.split_asm built.split_asm)
    then show ?thesis using l e(2) Some worker_step_bare[OF p(2)]
      by (auto simp: left_by_first_def CreatePartitionStep_def split: if_split_asm)
  qed
qed

section \<open>Expressions in properties\<close>

lemma resolve_without_job: "Resolve ff fo s None se = Inr s"
proof -
  have "resolve_match ff fo None se = (\<lambda>inner. ''#{'' @ inner @ ''}'')"
    by (rule ext) (simp add: resolve_match_def)
  then show ?thesis using resolve_text_same[of s] by (simp add: Resolve_def)
qed

text \<open>Values that hold no map with keys other than strings outside a map with string keys.\<close>

fun plain_yval :: "yval \<Rightarrow> bool" where
  "plain_yval (YString s) = True"
| "plain_yval (YMap kvs) = True"
| "plain_yval (YAnyMap kvs) = False"
| "plain_yval (YSeq vs) = list_all plain_yval vs"
| "plain_yval (YOther t) = True"

lemma convert_plain: "plain_yval v \<Longrightarrow> convertMapKeysToString v = Inr v"
proof (induction v)
  case (YSeq vs)
  then have "convert_items vs = Inr vs" by (induction vs) auto
  then show ?case by simp
qed auto

lemma resolve_props_same:
  "list_all (\<lambda>(k, v). plain_yval v) kvs \<Longrightarrow> distinct (map fst acc @ map fst kvs) \<Longrightarrow>
    resolve_props Inr ref kvs acc = Inr (acc @ kvs)"
proof (induction kvs arbitrary: acc)
  case (Cons kv kvs)
  obtain k v where kv: "kv = (k, v)" by (cases kv)
  have "k \<notin> fst ` set acc" using Cons.prems(2) kv by auto
  then have u: "gm_put k v acc = acc @ [(k, v)]" by (induction acc) auto
  have "distinct (map fst (acc @ [(k, v)]) @ map fst kvs)" using Cons.prems(2) kv by simp
  then have "resolve_props Inr ref kvs (gm_put k v acc) = Inr ((acc @ [(k, v)]) @ kvs)"
    unfolding u using Cons.IH Cons.prems(1) by simp
  moreover have "convertMapKeysToString v = Inr v" using Cons.prems(1) kv convert_plain by simp
  ultimately show ?case using kv by (cases v) auto
qed simp

text \<open>
  The conversion resolves the properties of a component without a job execution, and without one
  the default resolver leaves every expression as it is written: properties come out unchanged, those
  with expressions on job parameters included.
\<close>

theorem jsl_properties_stay_unresolved:
  assumes "gm_wf (cr_Properties ref)" and "list_all (\<lambda>(k, v). plain_yval v) (cr_Properties ref)"
  shows "resolveComponentRefProperties (\<lambda>s. Resolve ff fo s None None) ref = Inr (cr_Properties ref)"
  using resolve_props_same[of "cr_Properties ref" "[]" "cr_Ref ref"] assms
  by (simp add: resolveComponentRefProperties_def resolve_without_job gm_wf_def)

lemma jsl_properties_stay_unresolved_witness:
  "resolveComponentRefProperties (\<lambda>s. Resolve (\<lambda>x. []) (\<lambda>s n. []) s None None)
     \<lparr>cr_Ref = ''r'', cr_Properties = [(''file'', YString (''#{jobParameters['' @ quoted ''f'' @ '']}''))]\<rparr>
   = Inr [(''file'', YString (''#{jobParameters['' @ quoted ''f'' @ '']}''))]"
  by (subst jsl_properties_stay_unresolved) (simp_all add: gm_wf_def)

section \<open>A specification\<close>

definition zero_ref :: ComponentRef where
  "zero_ref = \<lparr>cr_Ref = [], cr_Properties = []\<rparr>"

definition zero_step :: jsl_Step where
  "zero_step = \<lparr>js_ID = [], js_Description = [], js_Reader = zero_ref, js_Processor = zero_ref,
     js_Writer = zero_ref, js_Chunk = None, js_Tasklet = zero_ref, js_Partition = None,
     js_Propagation = [], js_IsolationLevel = [], js_Transitions = [], js_Listeners = [],
     js_ItemReadListeners = [], js_ItemProcessListeners = [], js_ItemWriteListeners = [],
     js_SkipListeners = [], js_RetryItemListeners = [], js_ChunkListeners = [],
     js_Promotion = None, js_TransactionAttribute = []\<rparr>"

text \<open>A tasklet step \<open>a\<close>, a split \<open>s\<close> of it, and a partition step \<open>p\<close> whose worker is \<open>a\<close>.\<close>

definition demo_elements :: "(string, string) gomap" where
  "demo_elements = [(''a'', ''a''), (''s'', ''s''), (''p'', ''p'')]"

definition demo_flow :: "string jsl_Flow" where
  "demo_flow = \<lparr>jf_StartElement = ''a'', jf_Elements = demo_elements\<rparr>"

definition demo_step :: "string \<Rightarrow> goerr + jsl_Step" where
  "demo_step b =
     (if b = ''a'' then Inr (zero_step\<lparr>js_ID := ''a'', js_Tasklet := \<lparr>cr_Ref = ''t'', cr_Properties = []\<rparr>,
         js_Transitions := [\<lparr>jt_On = ''*'', jt_To = ''s'', jt_End = False, jt_Fail = False, jt_Stop = False\<rparr>],
         js_Listeners := [\<lparr>cr_Ref = ''l'', cr_Properties = []\<rparr>]\<rparr>)
      else if b = ''p'' then Inr (zero_step\<lparr>js_ID := ''p'', js_Partition := Some \<lparr>jp_Partitioner =
         \<lparr>cr_Ref = ''q'', cr_Properties = []\<rparr>, jp_Step = ''a'', jp_GridSize = 4, jp_Concurrency = None\<rparr>\<rparr>)
      else Inl (plain_error ''yaml''))"

definition demo_env :: "(string, string) jsl_env" where
  "demo_env =
     \<lparr>yaml_Marshal = Inr, yaml_Step = demo_step, yaml_Decision = (\<lambda>b. Inl (plain_error ''yaml'')),
      yaml_Split = (\<lambda>b. Inr \<lparr>jsp_ID = ''s'', jsp_Description = [], jsp_Steps = [''a''],
        jsp_Transitions = [\<lparr>jt_On = ''*'', jt_To = [], jt_End = True, jt_Fail = False, jt_Stop = False\<rparr>]\<rparr>),
      env_Resolve = Inr, env_Retry = \<lparr>rc_MaxAttempts = 3, rc_InitialInterval = 1\<rparr>,
      env_ItemRetry = \<lparr>irc_MaxAttempts = 3, irc_InitialInterval = 1, irc_RetryableExceptions = []\<rparr>,
      env_ItemSkip = \<lparr>isc_SkipLimit = 0, isc_SkippableExceptions = []\<rparr>,
      is_Reader = (\<lambda>c. c = ''r''), is_Processor = (\<lambda>c. c = ''r''), is_Writer = (\<lambda>c. c = ''r''),
      is_Tasklet = (\<lambda>c. c = ''t''), is_Partitioner = (\<lambda>c. c = ''q''), go_type = (\<lambda>c. c),
      componentBuilders = [(''t'', \<lambda>ps. Inr ''t'')], decisionBuilders = [],
      splitBuilders = [(''concreteSplit'', \<lambda>i ss. Inr ''split'')],
      partitionerBuilders = [(''q'', \<lambda>ps. Inr ''q'')], stepListenerBuilders = [(''l'', \<lambda>ps. Inr ''l'')],
      itemReadListenerBuilders = [], itemProcessListenerBuilders = [], itemWriteListenerBuilders = [],
      skipListenerBuilders = [], retryItemListenerBuilders = [], chunkListenerBuilders = []\<rparr>"

lemmas demo_defs = demo_env_def demo_step_def demo_flow_def demo_elements_def zero_step_def zero_ref_def

lemma demo_visits:
  "visits demo_flow [(''a'', ''a''), (''s'', ''s''), (''p'', ''p'')]"
  "visits demo_flow [(''s'', ''s''), (''a'', ''a''), (''p'', ''p'')]"
  by (simp_all add: visits_def demo_flow_def demo_elements_def gm_wf_def)

lemmas convert_defs = ConvertJSLToCoreFlow_def first_element_def classify_def classify_rest_def
  first_step_def first_split_def build_item_listeners_def build_tasklet_def build_partitioner_def
  resolveComponentRefProperties_def second_element_def built_element_def add_element_def AddElement_def
  validateTransition_def AddTransitionRule_def partition_element_def worker_step_def
  CreateTaskletStep_def CreatePartitionStep_def NewFlowDefinition_def Let_def

lemma demo_converts:
  "\<exists>fd. ConvertJSLToCoreFlow demo_env demo_flow [(''a'', ''a''), (''s'', ''s''), (''p'', ''p'')]
     [(''s'', ''s''), (''a'', ''a''), (''p'', ''p'')] = Some (Inr fd)
   \<and> GetTransitionRule fd ''a'' ExitFailed True = Some \<lparr>tr_To = ''s'', tr_End = False, tr_Fail = False, tr_Stop = False\<rparr>"
  by (simp add: convert_defs demo_defs GetTransitionRule_def)

lemma jsl_flow_well_formed_witness:
  "\<exists>fd. ConvertJSLToCoreFlow demo_env demo_flow [(''a'', ''a''), (''s'', ''s''), (''p'', ''p'')]
     [(''s'', ''s''), (''a'', ''a''), (''p'', ''p'')] = Some (Inr fd)
     \<and> valid_flow fd \<and> gm_get (fd_Elements fd) ''s'' \<noteq> None"
proof -
  obtain fd where c: "ConvertJSLToCoreFlow demo_env demo_flow [(''a'', ''a''), (''s'', ''s''), (''p'', ''p'')]
     [(''s'', ''s''), (''a'', ''a''), (''p'', ''p'')] = Some (Inr fd)"
    and g: "GetTransitionRule fd ''a'' ExitFailed True = Some \<lparr>tr_To = ''s'', tr_End = False, tr_Fail = False, tr_Stop = False\<rparr>"
    using demo_converts by blast
  obtain res where r: "ConvertJSLToCoreFlow demo_env demo_flow [(''a'', ''a''), (''s'', ''s''), (''p'', ''p'')]
     [(''s'', ''s''), (''a'', ''a''), (''p'', ''p'')] = Some res"
    and v: "\<forall>fd. res = Inr fd \<longrightarrow> valid_flow fd \<and> fd_StartElement fd = jf_StartElement demo_flow
        \<and> (\<forall>k. gm_get (fd_Elements fd) k = None \<longleftrightarrow> gm_get (jf_Elements demo_flow) k = None)
        \<and> (\<forall>k status isErr r. GetTransitionRule fd k status isErr = Some r
             \<and> \<not> tr_End r \<and> \<not> tr_Fail r \<and> \<not> tr_Stop r \<longrightarrow> gm_get (fd_Elements fd) (tr_To r) \<noteq> None)"
    using jsl_flow_well_formed[OF demo_visits(1) demo_visits(2), of demo_env] by blast
  have "res = Inr fd" using r c by simp
  with v have "valid_flow fd" "gm_get (fd_Elements fd) (tr_To \<lparr>tr_To = ''s'', tr_End = False, tr_Fail = False, tr_Stop = False\<rparr>) \<noteq> None"
    using g by (blast, metis Transition.select_convs(2,3,4))
  then show ?thesis using c by simp
qed

text \<open>The split before its step fails, the step before the split does not.\<close>

lemma jsl_split_needs_order_witness:
  "(\<nexists>fd. ConvertJSLToCoreFlow demo_env demo_flow [(''s'', ''s''), (''a'', ''a''), (''p'', ''p'')]
     [(''s'', ''s''), (''a'', ''a''), (''p'', ''p'')] = Some (Inr fd))
   \<and> (\<exists>fd. ConvertJSLToCoreFlow demo_env demo_flow [(''a'', ''a''), (''s'', ''s''), (''p'', ''p'')]
     [(''s'', ''s''), (''a'', ''a''), (''p'', ''p'')] = Some (Inr fd))"
proof
  have "classify demo_env ''s'' = ElemSplit \<lparr>jsp_ID = ''s'', jsp_Description = [], jsp_Steps = [''a''],
        jsp_Transitions = [\<lparr>jt_On = ''*'', jt_To = [], jt_End = True, jt_Fail = False, jt_Stop = False\<rparr>]\<rparr>"
    by (simp add: classify_def classify_rest_def demo_defs)
  then show "\<nexists>fd. ConvertJSLToCoreFlow demo_env demo_flow [(''s'', ''s''), (''a'', ''a''), (''p'', ''p'')]
     [(''s'', ''s''), (''a'', ''a''), (''p'', ''p'')] = Some (Inr fd)"
    using jsl_split_needs_order[OF demo_visits(2), where pre = "[]" and sid = "''s''" and y = "''s''"
        and post = "[(''a'', ''a''), (''p'', ''p'')]" and bytes = "''s''" and env = demo_env and i = "''a''"]
    by (simp add: demo_env_def)
qed (use demo_converts in blast)

lemma jsl_steps_built_witness:
  "\<exists>fd c w ls. ConvertJSLToCoreFlow demo_env demo_flow [(''a'', ''a''), (''s'', ''s''), (''p'', ''p'')]
     [(''s'', ''s''), (''a'', ''a''), (''p'', ''p'')] = Some (Inr fd)
   \<and> gm_get (fd_Elements fd) ''p'' = Some (CoreStep (PartitionStep ''p'' c w 4 1 ls None)) \<and> bare_worker w"
proof -
  obtain fd where c: "ConvertJSLToCoreFlow demo_env demo_flow [(''a'', ''a''), (''s'', ''s''), (''p'', ''p'')]
     [(''s'', ''s''), (''a'', ''a''), (''p'', ''p'')] = Some (Inr fd)" using demo_converts by blast
  let ?pa = "\<lparr>jp_Partitioner = \<lparr>cr_Ref = ''q'', cr_Properties = []\<rparr>, jp_Step = ''a'', jp_GridSize = 4, jp_Concurrency = None\<rparr>"
  have y: "gm_get (jf_Elements demo_flow) ''p'' = Some ''p''" "yaml_Marshal demo_env ''p'' = Inr ''p''"
    "classify demo_env ''p'' = ElemStep (zero_step\<lparr>js_ID := ''p'', js_Partition := Some ?pa\<rparr>)"
    by (simp_all add: demo_defs classify_def)
  from jsl_steps_built[OF demo_visits(1) demo_visits(2) c y] c show ?thesis
    by (auto simp: zero_step_def)
qed

end
