(* ===== verification/Item_Components.thy ===== *)
theory Item_Components
  imports Chunk_Flow JSL_Conversion
begin

text \<open>
  The readers and writers the framework comes with: \<open>component/step/reader\<close> (\<open>SqlCursorReader\<close>,
  \<open>CsvCursorReader\<close>), \<open>component/step/writer/sql_bulk_writer.go\<close>, \<open>component/item\<close> (the writer into
  an execution context, the components that do nothing, and their builders) and
  \<open>component/partitioner\<close>.

  A Go map is shared by all who hold it: a component holds the address of its execution context,
  and the contexts themselves are a heap. The database, the CSV parser and the mappers are
  parameters. Counters are unbounded.
\<close>

type_synonym heap = "nat \<Rightarrow> ec"

section \<open>The SQL cursor reader\<close>

text \<open>A result set: the rows that are left, the error its iteration ends with, and that of closing it.\<close>

record 'r cursor =
  cu_rows :: "'r list"
  cu_Err :: "goerr option"
  cu_closeErr :: "goerr option"

record ('r, 'i) SqlCursorReader =
  sr_name :: string
  sr_baseQuery :: string
  sr_baseArgs :: "gval list"
  sr_mapper :: "'r \<Rightarrow> goerr + 'i"
  sr_rows :: "'r cursor option"
  sr_readCount :: int
  sr_ec :: "nat option"

definition NewSqlCursorReader :: "string \<Rightarrow> string \<Rightarrow> gval list \<Rightarrow> ('r \<Rightarrow> goerr + 'i) \<Rightarrow> ('r, 'i) SqlCursorReader" where
  "NewSqlCursorReader name query args mapper =
     \<lparr>sr_name = name, sr_baseQuery = query, sr_baseArgs = args, sr_mapper = mapper, sr_rows = None,
      sr_readCount = 0, sr_ec = None\<rparr>"

definition sql_key :: "('r, 'i) SqlCursorReader \<Rightarrow> string" where
  "sql_key r = sr_name r @ ''.readCount''"

definition reader_error :: "string \<Rightarrow> goerr \<Rightarrow> goerr" where
  "reader_error msg e = NewBatchError ''reader'' msg (Some e) False False"

text \<open>\<open>query\<close> is \<open>db.QueryContext\<close>; the context is the map at address \<open>a\<close>.\<close>

definition Sql_Open :: "(f64 \<Rightarrow> int) \<Rightarrow> (string \<Rightarrow> gval list \<Rightarrow> goerr + 'r cursor) \<Rightarrow> nat \<Rightarrow> heap \<Rightarrow>
    ('r, 'i) SqlCursorReader \<Rightarrow> goerr option \<times> ('r, 'i) SqlCursorReader" where
  "Sql_Open oor query a h r =
     (let n = (case ExecutionContext_GetInt oor (h a) (sql_key r) of Some n \<Rightarrow> n | None \<Rightarrow> 0);
          r1 = r\<lparr>sr_ec := Some a, sr_readCount := n\<rparr>
      in case (if n > 0 then query (sr_baseQuery r @ '' OFFSET ?'') (sr_baseArgs r @ [VInt n])
               else query (sr_baseQuery r) (sr_baseArgs r)) of
           Inl e \<Rightarrow> (Some (reader_error (''Failed to execute query for SqlCursorReader '' @ quoted (sr_name r)) e), r1)
         | Inr c \<Rightarrow> (None, r1\<lparr>sr_rows := Some c\<rparr>))"

definition Sql_Update :: "nat \<Rightarrow> heap \<Rightarrow> ('r, 'i) SqlCursorReader \<Rightarrow> heap" where
  "Sql_Update a h r = h(a := ExecutionContext_Put (sql_key r) (VInt (sr_readCount r)) (h a))"

text \<open>
  A row that the mapper refuses is passed over without being counted. The reader has a context
  whenever it has rows: \<open>Open\<close> sets both.
\<close>

definition Sql_Read :: "heap \<Rightarrow> ('r, 'i) SqlCursorReader \<Rightarrow> (goerr + 'i) \<times> heap \<times> ('r, 'i) SqlCursorReader" where
  "Sql_Read h r = (case sr_rows r of
       None \<Rightarrow> (Inl (reader_error (''SqlCursorReader '' @ quoted (sr_name r) @ '': Reader not opened or already closed.'')
                    (plain_error ''reader not initialized'')), h, r)
     | Some c \<Rightarrow> (case cu_rows c of
           [] \<Rightarrow> (Inl (case cu_Err c of
                     Some e \<Rightarrow> reader_error (''Error during row iteration for SqlCursorReader '' @ quoted (sr_name r)) e
                   | None \<Rightarrow> io_EOF), h, r)
         | row # rest \<Rightarrow>
             (let r1 = r\<lparr>sr_rows := Some (c\<lparr>cu_rows := rest\<rparr>)\<rparr>
              in case sr_mapper r row of
                   Inl e \<Rightarrow> (Inl (reader_error (''Failed to map row for SqlCursorReader '' @ quoted (sr_name r)) e), h, r1)
                 | Inr item \<Rightarrow>
                     (let r2 = r1\<lparr>sr_readCount := sr_readCount r + 1\<rparr>
                      in (Inr item,
                          (case sr_ec r of
                             None \<Rightarrow> h
                           | Some a \<Rightarrow> h(a := ExecutionContext_Put (sql_key r) (VInt (sr_readCount r + 1)) (h a))),
                          r2)))))"

definition Sql_Close :: "('r, 'i) SqlCursorReader \<Rightarrow> goerr option \<times> ('r, 'i) SqlCursorReader" where
  "Sql_Close r = (case sr_rows r of
       None \<Rightarrow> (None, r)
     | Some c \<Rightarrow> (case cu_closeErr c of
           Some e \<Rightarrow> (Some (reader_error (''Failed to close rows for SqlCursorReader '' @ quoted (sr_name r)) e), r)
         | None \<Rightarrow> (None, r\<lparr>sr_rows := None\<rparr>)))"

definition Sql_GetExecutionContext :: "heap \<Rightarrow> ('r, 'i) SqlCursorReader \<Rightarrow> ec" where
  "Sql_GetExecutionContext h r = (case sr_ec r of None \<Rightarrow> NewExecutionContext | Some a \<Rightarrow> h a)"

definition Sql_SetExecutionContext :: "(f64 \<Rightarrow> int) \<Rightarrow> nat \<Rightarrow> heap \<Rightarrow> ('r, 'i) SqlCursorReader \<Rightarrow>
    ('r, 'i) SqlCursorReader" where
  "Sql_SetExecutionContext oor a h r = r\<lparr>sr_ec := Some a,
     sr_readCount := (case ExecutionContext_GetInt oor (h a) (sql_key r) of Some n \<Rightarrow> n | None \<Rightarrow> 0)\<rparr>"

section \<open>The CSV reader\<close>

definition readCountKey :: string where
  "readCountKey = ''csv.reader.readCount''"

text \<open>\<open>strconv.Atoi\<close>.\<close>

definition is_digit :: "char \<Rightarrow> bool" where
  "is_digit c \<longleftrightarrow> 48 \<le> (of_char c :: nat) \<and> (of_char c :: nat) \<le> 57"

definition num_error :: "string \<Rightarrow> string \<Rightarrow> goerr" where
  "num_error s why = (let t = ''strconv.Atoi: parsing '' @ [CHR 0x22] @ s @ [CHR 0x22] @ '': '' @ why
     in LeafError t ''*strconv.NumError'' t)"

definition strconv_Atoi :: "string \<Rightarrow> goerr + int" where
  "strconv_Atoi s =
     (let neg = (s \<noteq> [] \<and> hd s = CHR ''-'');
          ds = (if s \<noteq> [] \<and> (hd s = CHR ''-'' \<or> hd s = CHR ''+'') then tl s else s)
      in if ds = [] \<or> \<not> list_all is_digit ds then Inl (num_error s ''invalid syntax'')
         else let i = (if neg then - int (str_nat ds) else int (str_nat ds))
           in if - (2 ^ 63) \<le> i \<and> i < 2 ^ 63 then Inr i else Inl (num_error s ''value out of range''))"

text \<open>
  The parser that a new \<open>csv.Reader\<close> on the source is, as what its \<open>Read\<close> returns one after the
  other (then \<open>io.EOF\<close> for ever), and what is left of the source when it has been called \<open>n\<close> times:
  it reads ahead.
\<close>

record 's csv_lib =
  csv_records :: "char \<Rightarrow> bool \<Rightarrow> 's \<Rightarrow> (goerr + string list) list"
  csv_left :: "char \<Rightarrow> bool \<Rightarrow> nat \<Rightarrow> 's \<Rightarrow> 's"
  src_Close :: "('s \<Rightarrow> goerr option) option"

record ('s, 'i) CsvCursorReader =
  cv_source :: 's
  cv_taken :: nat
  cv_pending :: "(goerr + string list) list option"
  cv_name :: string
  cv_readCount :: int
  cv_mapper :: "string list \<Rightarrow> goerr + 'i"
  cv_ec :: "nat option"
  cv_comma :: char
  cv_lazyQuotes :: bool

definition NewCsvCursorReader :: "'s \<Rightarrow> string \<Rightarrow> (string list \<Rightarrow> goerr + 'i) \<Rightarrow>
    (('s, 'i) CsvCursorReader \<Rightarrow> ('s, 'i) CsvCursorReader) list \<Rightarrow> ('s, 'i) CsvCursorReader" where
  "NewCsvCursorReader src name mapper opts = fold (\<lambda>opt r. opt r) opts
     \<lparr>cv_source = src, cv_taken = 0, cv_pending = None, cv_name = name, cv_readCount = 0, cv_mapper = mapper,
      cv_ec = None, cv_comma = CHR '','', cv_lazyQuotes = False\<rparr>"

definition WithComma :: "char \<Rightarrow> ('s, 'i) CsvCursorReader \<Rightarrow> ('s, 'i) CsvCursorReader" where
  "WithComma c r = r\<lparr>cv_comma := c\<rparr>"

definition WithLazyQuotes :: "bool \<Rightarrow> ('s, 'i) CsvCursorReader \<Rightarrow> ('s, 'i) CsvCursorReader" where
  "WithLazyQuotes b r = r\<lparr>cv_lazyQuotes := b\<rparr>"

text \<open>\<open>csvReader.Read\<close> on the records that are left.\<close>

definition csv_next :: "(goerr + string list) list \<Rightarrow> ('s, 'i) CsvCursorReader \<Rightarrow>
    (goerr + string list) \<times> ('s, 'i) CsvCursorReader" where
  "csv_next rs r = (case rs of
       [] \<Rightarrow> (Inl io_EOF, r)
     | x # xs \<Rightarrow> (x, r\<lparr>cv_pending := Some xs, cv_taken := cv_taken r + 1\<rparr>))"

fun csv_skip :: "nat \<Rightarrow> (goerr + string list) list \<Rightarrow> ('s, 'i) CsvCursorReader \<Rightarrow>
    goerr option \<times> ('s, 'i) CsvCursorReader" where
  "csv_skip 0 rs r = (None, r)"
| "csv_skip (Suc n) rs r = (case csv_next rs r of
       (Inl e, r1) \<Rightarrow>
         if e = io_EOF then (None, r1)
         else (Some (WrapError (''failed to skip records during Open: '' @ Error_text e) e), r1)
     | (Inr rec, r1) \<Rightarrow> csv_skip n (tl rs) r1)"

definition csv_new :: "'s csv_lib \<Rightarrow> ('s, 'i) CsvCursorReader \<Rightarrow>
    (goerr + string list) list \<times> ('s, 'i) CsvCursorReader" where
  "csv_new lib r = (let src = csv_left lib (cv_comma r) (cv_lazyQuotes r) (cv_taken r) (cv_source r);
       rs = csv_records lib (cv_comma r) (cv_lazyQuotes r) src
     in (rs, r\<lparr>cv_source := src, cv_taken := 0, cv_pending := Some rs\<rparr>))"

text \<open>A count that is neither a text nor an \<open>int\<close>, or is missing, leaves the count as it was.\<close>

definition Csv_Open :: "'s csv_lib \<Rightarrow> nat \<Rightarrow> heap \<Rightarrow> ('s, 'i) CsvCursorReader \<Rightarrow>
    goerr option \<times> ('s, 'i) CsvCursorReader" where
  "Csv_Open lib a h r =
     (case csv_new lib (r\<lparr>cv_ec := Some a\<rparr>) of (rs, r1) \<Rightarrow>
      let skip = (\<lambda>r2. csv_skip (nat (cv_readCount r2)) rs r2)
      in case ExecutionContext_Get (h a) readCountKey of
           Some (VStr s) \<Rightarrow> (case strconv_Atoi s of
               Inl e \<Rightarrow> (Some (WrapError (''invalid readCount format in ExecutionContext: '' @ Error_text e) e), r1)
             | Inr n \<Rightarrow> skip (r1\<lparr>cv_readCount := n\<rparr>))
         | Some (VInt n) \<Rightarrow> skip (r1\<lparr>cv_readCount := n\<rparr>)
         | _ \<Rightarrow> skip r1)"

definition Csv_Update :: "nat \<Rightarrow> heap \<Rightarrow> ('s, 'i) CsvCursorReader \<Rightarrow> heap" where
  "Csv_Update a h r = h(a := ExecutionContext_Put readCountKey (VStr (int_str (cv_readCount r))) (h a))"

text \<open>\<open>None\<close>: reading a reader that was never opened panics.\<close>

definition Csv_Read :: "heap \<Rightarrow> ('s, 'i) CsvCursorReader \<Rightarrow>
    ((goerr + 'i) \<times> heap \<times> ('s, 'i) CsvCursorReader) option" where
  "Csv_Read h r = (case cv_pending r of
       None \<Rightarrow> None
     | Some rs \<Rightarrow> Some (case csv_next rs r of
           (Inl e, r1) \<Rightarrow> (Inl e, h, r1)
         | (Inr rec, r1) \<Rightarrow> (case cv_mapper r1 rec of
               Inl e \<Rightarrow> (Inl (WrapError (''failed to map csv record: '' @ Error_text e) e), h, r1)
             | Inr item \<Rightarrow>
                 (let r2 = r1\<lparr>cv_readCount := cv_readCount r1 + 1\<rparr>
                  in (Inr item,
                      (case cv_ec r2 of
                         None \<Rightarrow> h
                       | Some a \<Rightarrow> h(a := ExecutionContext_Put readCountKey (VStr (int_str (cv_readCount r2))) (h a))),
                      r2)))))"

definition Csv_Close :: "'s csv_lib \<Rightarrow> ('s, 'i) CsvCursorReader \<Rightarrow> goerr option" where
  "Csv_Close lib r = (case src_Close lib of None \<Rightarrow> None | Some cl \<Rightarrow> cl (cv_source r))"

definition Csv_SetExecutionContext :: "nat \<Rightarrow> ('s, 'i) CsvCursorReader \<Rightarrow> ('s, 'i) CsvCursorReader" where
  "Csv_SetExecutionContext a r = r\<lparr>cv_ec := Some a\<rparr>"

text \<open>A nil context is an empty one to who reads it.\<close>

definition Csv_GetExecutionContext :: "heap \<Rightarrow> ('s, 'i) CsvCursorReader \<Rightarrow> ec" where
  "Csv_GetExecutionContext h r = (case cv_ec r of None \<Rightarrow> NewExecutionContext | Some a \<Rightarrow> h a)"

section \<open>The bulk writer\<close>

record SqlBulkWriter =
  bw_name :: string
  bw_bulkSize :: int
  bw_tableName :: string
  bw_conflictColumns :: "string list"
  bw_updateColumns :: "string list"
  bw_stepExecutionContext :: "nat option"

definition NewSqlBulkWriter :: "string \<Rightarrow> int \<Rightarrow> string \<Rightarrow> string list \<Rightarrow> string list \<Rightarrow> SqlBulkWriter" where
  "NewSqlBulkWriter name bulkSize tableName conflictColumns updateColumns =
     \<lparr>bw_name = name, bw_bulkSize = bulkSize, bw_tableName = tableName,
      bw_conflictColumns = conflictColumns, bw_updateColumns = updateColumns, bw_stepExecutionContext = None\<rparr>"

text \<open>\<open>BulkPanic\<close>: a slice that ends before it starts panics.\<close>

datatype bulk_result = BulkDone "goerr option" | BulkPanic

definition bulk_error :: "SqlBulkWriter \<Rightarrow> int \<Rightarrow> goerr \<Rightarrow> goerr" where
  "bulk_error w i e = NewBatchError ''writer'' (''Failed to bulk upsert data for SqlBulkWriter '' @ quoted (bw_name w)
     @ '' (chunk start index '' @ int_str i @ '')'') (Some e) False False"

text \<open>
  The loop over the chunks of the items; \<open>upsert\<close> is \<open>Tx.ExecuteUpsert\<close> on the table and the columns
  of the writer. \<open>None\<close>: the fuel ran out.
\<close>

fun bulk_loop :: "nat \<Rightarrow> SqlBulkWriter \<Rightarrow> ('o list \<Rightarrow> string \<Rightarrow> string list \<Rightarrow> string list \<Rightarrow> 'w \<Rightarrow> goerr option \<times> 'w) \<Rightarrow>
    'o list \<Rightarrow> int \<Rightarrow> 'w \<Rightarrow> (bulk_result \<times> 'w) option" where
  "bulk_loop 0 w upsert items i s = None"
| "bulk_loop (Suc fuel) w upsert items i s =
     (if \<not> i < int (length items) then Some (BulkDone None, s)
      else let e = i + bw_bulkSize w; e1 = (if e > int (length items) then int (length items) else e)
        in if e1 < i then Some (BulkPanic, s)
           else (case upsert (take (nat e1 - nat i) (drop (nat i) items)) (bw_tableName w)
                     (bw_conflictColumns w) (bw_updateColumns w) s of
               (Some err, s1) \<Rightarrow> Some (BulkDone (Some (bulk_error w i err)), s1)
             | (None, s1) \<Rightarrow> bulk_loop fuel w upsert items (i + bw_bulkSize w) s1))"

text \<open>\<open>inTx\<close>: the Go context holds a transaction.\<close>

definition Bulk_Write :: "nat \<Rightarrow> SqlBulkWriter \<Rightarrow> ('o list \<Rightarrow> string \<Rightarrow> string list \<Rightarrow> string list \<Rightarrow> 'w \<Rightarrow> goerr option \<times> 'w) \<Rightarrow>
    bool \<Rightarrow> 'o list \<Rightarrow> 'w \<Rightarrow> (bulk_result \<times> 'w) option" where
  "Bulk_Write fuel w upsert inTx items s =
     (if items = [] then Some (BulkDone None, s)
      else if \<not> inTx then Some (BulkDone (Some (NewBatchError ''writer''
             ''transaction not found in context for SqlBulkWriter'' None False False)), s)
      else bulk_loop fuel w upsert items 0 s)"

definition Bulk_Open :: "nat \<Rightarrow> SqlBulkWriter \<Rightarrow> SqlBulkWriter" where
  "Bulk_Open a w = w\<lparr>bw_stepExecutionContext := Some a\<rparr>"

text \<open>\<open>cancelled\<close>: the error of a Go context that is done.\<close>

definition Bulk_SetExecutionContext :: "goerr option \<Rightarrow> nat \<Rightarrow> SqlBulkWriter \<Rightarrow> goerr option \<times> SqlBulkWriter" where
  "Bulk_SetExecutionContext cancelled a w = (case cancelled of
       Some e \<Rightarrow> (Some e, w) | None \<Rightarrow> (None, w\<lparr>bw_stepExecutionContext := Some a\<rparr>))"

definition Bulk_GetExecutionContext :: "heap \<Rightarrow> SqlBulkWriter \<Rightarrow> ec" where
  "Bulk_GetExecutionContext h w = (case bw_stepExecutionContext w of None \<Rightarrow> NewExecutionContext | Some a \<Rightarrow> h a)"

definition Bulk_GetTargetResourceName :: "SqlBulkWriter \<Rightarrow> string" where
  "Bulk_GetTargetResourceName w = bw_name w"

definition Bulk_GetResourcePath :: "SqlBulkWriter \<Rightarrow> string" where
  "Bulk_GetResourcePath w = bw_tableName w"

section \<open>The writer into an execution context\<close>

record ExecutionContextItemWriter =
  ew_ec :: nat
  ew_key :: string

text \<open>\<open>a\<close> is the address of the new context.\<close>

definition NewExecutionContextItemWriter :: "nat \<Rightarrow> string \<Rightarrow> ExecutionContextItemWriter" where
  "NewExecutionContextItemWriter a key =
     \<lparr>ew_ec = a, ew_key = (if key = [] then ''writer.write_count'' else key)\<rparr>"

definition Ec_Open :: "nat \<Rightarrow> ExecutionContextItemWriter \<Rightarrow> ExecutionContextItemWriter" where
  "Ec_Open a w = w\<lparr>ew_ec := a\<rparr>"

definition Ec_Write :: "(f64 \<Rightarrow> int) \<Rightarrow> 'o list \<Rightarrow> ExecutionContextItemWriter \<Rightarrow> heap \<Rightarrow> heap" where
  "Ec_Write oor items w h =
     (let currentCount = (case ExecutionContext_GetInt oor (h (ew_ec w)) (ew_key w) of Some n \<Rightarrow> n | None \<Rightarrow> 0)
      in h(ew_ec w := ExecutionContext_Put (ew_key w) (VInt (currentCount + int (length items))) (h (ew_ec w))))"

definition Ec_SetExecutionContext :: "nat \<Rightarrow> ExecutionContextItemWriter \<Rightarrow> ExecutionContextItemWriter" where
  "Ec_SetExecutionContext a w = w\<lparr>ew_ec := a\<rparr>"

definition Ec_GetExecutionContext :: "heap \<Rightarrow> ExecutionContextItemWriter \<Rightarrow> ec" where
  "Ec_GetExecutionContext h w = h (ew_ec w)"

definition Ec_GetTargetResourceName :: "ExecutionContextItemWriter \<Rightarrow> string" where
  "Ec_GetTargetResourceName w = []"

definition Ec_GetResourcePath :: "ExecutionContextItemWriter \<Rightarrow> string" where
  "Ec_GetResourcePath w = []"

section \<open>Components that do nothing\<close>

text \<open>All of their state is the address of the context they were given.\<close>

record NoOp =
  no_ec :: nat

definition NoOp_Open :: "nat \<Rightarrow> NoOp \<Rightarrow> NoOp" where
  "NoOp_Open a c = c\<lparr>no_ec := a\<rparr>"

definition NoOp_Read :: "NoOp \<Rightarrow> goerr + 'i" where
  "NoOp_Read r = Inl io_EOF"

definition NoOp_SetExecutionContext :: "nat \<Rightarrow> NoOp \<Rightarrow> NoOp" where
  "NoOp_SetExecutionContext a c = c\<lparr>no_ec := a\<rparr>"

definition NoOp_GetExecutionContext :: "heap \<Rightarrow> NoOp \<Rightarrow> ec" where
  "NoOp_GetExecutionContext h c = h (no_ec c)"

definition NoOp_Write :: "'o list \<Rightarrow> NoOp \<Rightarrow> goerr option" where
  "NoOp_Write items w = None"

definition NoOp_GetTargetResourceName :: "NoOp \<Rightarrow> string" where
  "NoOp_GetTargetResourceName w = []"

definition NoOp_GetResourcePath :: "NoOp \<Rightarrow> string" where
  "NoOp_GetResourcePath w = []"

definition PassThrough_Process :: "'i \<Rightarrow> goerr + 'i" where
  "PassThrough_Process item = Inr item"

definition PartitionName :: "int \<Rightarrow> string" where
  "PartitionName i = ''partition-'' @ int_str i"

definition NoOp_Partition :: "int \<Rightarrow> (string, ec) gomap" where
  "NoOp_Partition gridSize =
     fold (\<lambda>i m. gm_put (PartitionName (int i)) NewExecutionContext m) [0..<nat gridSize] []"

section \<open>Builders\<close>

text \<open>What the builders of this package make; \<open>a\<close> is the address of the new context.\<close>

datatype item_component =
    ItemNoOpReader NoOp | ItemPassThrough NoOp | ItemNoOpWriter NoOp
  | ItemEcWriter ExecutionContextItemWriter

definition NoOpItemReaderBuilder :: "nat \<Rightarrow> props \<Rightarrow> goerr + item_component" where
  "NoOpItemReaderBuilder a properties = Inr (ItemNoOpReader \<lparr>no_ec = a\<rparr>)"

definition PassThroughItemProcessorBuilder :: "nat \<Rightarrow> props \<Rightarrow> goerr + item_component" where
  "PassThroughItemProcessorBuilder a properties = Inr (ItemPassThrough \<lparr>no_ec = a\<rparr>)"

definition NoOpItemWriterBuilder :: "nat \<Rightarrow> props \<Rightarrow> goerr + item_component" where
  "NoOpItemWriterBuilder a properties = Inr (ItemNoOpWriter \<lparr>no_ec = a\<rparr>)"

definition key_property :: "string \<Rightarrow> props \<Rightarrow> string" where
  "key_property dflt properties = (case gm_get properties ''key'' of Some (YString s) \<Rightarrow> s | _ \<Rightarrow> dflt)"

text \<open>The builder of \<open>module.go\<close>, which is registered, and that of the writer's own file.\<close>

definition EcItemWriterComponentBuilder :: "nat \<Rightarrow> props \<Rightarrow> goerr + item_component" where
  "EcItemWriterComponentBuilder a properties =
     Inr (ItemEcWriter (NewExecutionContextItemWriter a (key_property ''writer_context'' properties)))"

definition EcItemWriterBuilder :: "nat \<Rightarrow> props \<Rightarrow> goerr + item_component" where
  "EcItemWriterBuilder a properties =
     Inr (ItemEcWriter (NewExecutionContextItemWriter a (key_property ''writer.write_count'' properties)))"

definition RegisterGenericItemBuilders ::
    "(props \<Rightarrow> goerr + 'c) \<Rightarrow> (props \<Rightarrow> goerr + 'c) \<Rightarrow> (props \<Rightarrow> goerr + 'c) \<Rightarrow> (props \<Rightarrow> goerr + 'c) \<Rightarrow>
     (string, props \<Rightarrow> goerr + 'c) gomap \<Rightarrow> (string, props \<Rightarrow> goerr + 'c) gomap" where
  "RegisterGenericItemBuilders reader processor writer ecWriter builders =
     gm_put ''executionContextItemWriter'' ecWriter (gm_put ''noOpItemWriter'' writer
       (gm_put ''passThroughItemProcessor'' processor (gm_put ''noOpItemReader'' reader builders)))"

end
