(* ===== verification/Item_Correct.thy ===== *)
theory Item_Correct
  imports Item_Components
begin

text \<open>
  What the readers and writers of the framework do over a whole run: where a reader that is opened
  again continues, and what the bulk writer hands to the database.
\<close>

section \<open>Reading with a SQL cursor\<close>

text \<open>What reading one row returns.\<close>

definition row_result :: "('r, 'i) SqlCursorReader \<Rightarrow> 'r \<Rightarrow> goerr + 'i" where
  "row_result r row = (case sr_mapper r row of
       Inl e \<Rightarrow> Inl (reader_error (''Failed to map row for SqlCursorReader '' @ quoted (sr_name r)) e)
     | Inr i \<Rightarrow> Inr i)"

definition mapped :: "('r, 'i) SqlCursorReader \<Rightarrow> 'r list \<Rightarrow> nat" where
  "mapped r rows = length (filter (\<lambda>row. \<exists>i. sr_mapper r row = Inr i) rows)"

fun sql_reads :: "nat \<Rightarrow> heap \<Rightarrow> ('r, 'i) SqlCursorReader \<Rightarrow>
    (goerr + 'i) list \<times> heap \<times> ('r, 'i) SqlCursorReader" where
  "sql_reads 0 h r = ([], h, r)"
| "sql_reads (Suc n) h r = (case Sql_Read h r of (x, h1, r1) \<Rightarrow>
     (case sql_reads n h1 r1 of (xs, h2, r2) \<Rightarrow> (x # xs, h2, r2)))"

text \<open>The fields that a reader keeps for its life.\<close>

definition same_reader :: "('r, 'i) SqlCursorReader \<Rightarrow> ('r, 'i) SqlCursorReader \<Rightarrow> bool" where
  "same_reader r r' \<longleftrightarrow> sr_name r' = sr_name r \<and> sr_baseQuery r' = sr_baseQuery r
     \<and> sr_baseArgs r' = sr_baseArgs r \<and> sr_mapper r' = sr_mapper r"

lemma same_reader_facts:
  "same_reader r r' \<Longrightarrow> sql_key r' = sql_key r" "same_reader r r' \<Longrightarrow> row_result r' = row_result r"
  "same_reader r r' \<Longrightarrow> mapped r' = mapped r"
  unfolding same_reader_def sql_key_def row_result_def[abs_def] mapped_def[abs_def]
  by (simp_all cong del: sum.case_cong_weak)

text \<open>The count in a context at an address.\<close>

definition count_at :: "(f64 \<Rightarrow> int) \<Rightarrow> ('r, 'i) SqlCursorReader \<Rightarrow> ec \<Rightarrow> int" where
  "count_at oor r ec = (case ExecutionContext_GetInt oor ec (sql_key r) of Some n \<Rightarrow> n | None \<Rightarrow> 0)"

lemma sql_reads_spec:
  assumes "sr_rows r = Some c" "sr_ec r = Some a" "n \<le> length (cu_rows c)"
    "sr_readCount r = count_at oor r (h a)"
  shows "\<exists>h' r'. sql_reads n h r = (map (row_result r) (take n (cu_rows c)), h', r')
    \<and> same_reader r r' \<and> sr_rows r' = Some (c\<lparr>cu_rows := drop n (cu_rows c)\<rparr>) \<and> sr_ec r' = Some a
    \<and> sr_readCount r' = sr_readCount r + int (mapped r (take n (cu_rows c)))
    \<and> sr_readCount r' = count_at oor r (h' a) \<and> (\<forall>b. b \<noteq> a \<longrightarrow> h' b = h b)
    \<and> (\<forall>k. k \<noteq> sql_key r \<longrightarrow> gm_get (h' a) k = gm_get (h a) k)
    \<and> gm_get (h' a) (sql_key r) = (if mapped r (take n (cu_rows c)) = 0 then gm_get (h a) (sql_key r)
         else Some (VInt (sr_readCount r')))"
  using assms
proof (induction n arbitrary: h r c)
  case 0
  then show ?case by (simp add: same_reader_def mapped_def)
next
  case (Suc n)
  obtain row rest where c: "cu_rows c = row # rest" using Suc.prems(3) by (cases "cu_rows c") auto
  obtain x h1 r1 where rd: "Sql_Read h r = (x, h1, r1)" by (metis prod_cases3)
  have r1: "x = row_result r row" "same_reader r r1" "sr_rows r1 = Some (c\<lparr>cu_rows := rest\<rparr>)" "sr_ec r1 = Some a"
    "sr_readCount r1 = sr_readCount r + int (mapped r [row])" "\<forall>b. b \<noteq> a \<longrightarrow> h1 b = h b"
    "\<forall>k. k \<noteq> sql_key r \<longrightarrow> gm_get (h1 a) k = gm_get (h a) k"
    "gm_get (h1 a) (sql_key r) = (if mapped r [row] = 0 then gm_get (h a) (sql_key r) else Some (VInt (sr_readCount r1)))"
    using rd c Suc.prems(1,2)
    by (cases "sr_mapper r row"; auto simp: Sql_Read_def row_result_def mapped_def same_reader_def sql_key_def
        ExecutionContext_Put_def Let_def)+
  have cnt: "sr_readCount r1 = count_at oor r1 (h1 a)"
    using r1(5,8) Suc.prems(4) same_reader_facts(1)[OF r1(2)]
    by (auto simp: count_at_def ExecutionContext_GetInt_def mapped_def split: if_split_asm)
  have "n \<le> length (cu_rows (c\<lparr>cu_rows := rest\<rparr>))" using Suc.prems(3) c by simp
  from Suc.IH[where h = h1, OF r1(3,4) this cnt] obtain h2 r2 where
    ih: "sql_reads n h1 r1 = (map (row_result r1) (take n rest), h2, r2)" "same_reader r1 r2"
      "sr_rows r2 = Some (c\<lparr>cu_rows := drop n rest\<rparr>)" "sr_ec r2 = Some a"
      "sr_readCount r2 = sr_readCount r1 + int (mapped r1 (take n rest))" "sr_readCount r2 = count_at oor r1 (h2 a)"
      "\<forall>b. b \<noteq> a \<longrightarrow> h2 b = h1 b" "\<forall>k. k \<noteq> sql_key r1 \<longrightarrow> gm_get (h2 a) k = gm_get (h1 a) k"
      "gm_get (h2 a) (sql_key r1) = (if mapped r1 (take n rest) = 0 then gm_get (h1 a) (sql_key r1)
         else Some (VInt (sr_readCount r2)))" by auto
  note same = same_reader_facts[OF r1(2)]
  have "sql_reads (Suc n) h r = (map (row_result r) (take (Suc n) (cu_rows c)), h2, r2)"
    using rd ih(1) r1(1) c same(2) by simp
  moreover have "same_reader r r2" using r1(2) ih(2) by (simp add: same_reader_def)
  moreover have "sr_readCount r2 = sr_readCount r + int (mapped r (take (Suc n) (cu_rows c)))"
    using ih(5) r1(5) c same(3) by (simp add: mapped_def)
  moreover have "sr_readCount r2 = count_at oor r (h2 a)" using ih(6) same(1) by (simp add: count_at_def)
  moreover have "gm_get (h2 a) (sql_key r) = (if mapped r (take (Suc n) (cu_rows c)) = 0 then gm_get (h a) (sql_key r)
         else Some (VInt (sr_readCount r2)))"
    using ih(5,9) r1(8) c same by (auto simp: mapped_def)
  moreover have "\<forall>b. b \<noteq> a \<longrightarrow> h2 b = h b" using ih(7) r1(6) by simp
  moreover have "\<forall>k. k \<noteq> sql_key r \<longrightarrow> gm_get (h2 a) k = gm_get (h a) k" using ih(8) r1(7) same(1) by simp
  ultimately show ?case using ih(3,4) c by simp
qed

text \<open>
  A database on which the query of the reader delivers \<open>rows\<close>, in the same order every time, and
  \<open>OFFSET\<close> leaves out as many of them as it says.
\<close>

definition delivers :: "(string \<Rightarrow> gval list \<Rightarrow> goerr + 'r cursor) \<Rightarrow> ('r, 'i) SqlCursorReader \<Rightarrow> 'r list \<Rightarrow> bool" where
  "delivers query r rows \<longleftrightarrow>
     query (sr_baseQuery r) (sr_baseArgs r) = Inr \<lparr>cu_rows = rows, cu_Err = None, cu_closeErr = None\<rparr>
     \<and> (\<forall>n > 0. query (sr_baseQuery r @ '' OFFSET ?'') (sr_baseArgs r @ [VInt n])
          = Inr \<lparr>cu_rows = drop (nat n) rows, cu_Err = None, cu_closeErr = None\<rparr>)"

lemma Sql_Open_delivers:
  assumes "delivers query r rows" "0 \<le> count_at oor r (h a)"
  shows "Sql_Open oor query a h r = (None, r\<lparr>sr_ec := Some a, sr_readCount := count_at oor r (h a),
    sr_rows := Some \<lparr>cu_rows = drop (nat (count_at oor r (h a))) rows, cu_Err = None, cu_closeErr = None\<rparr>\<rparr>)"
  using assms unfolding Sql_Open_def count_at_def[symmetric] Let_def delivers_def
  by (cases "count_at oor r (h a) = 0") auto

text \<open>A reader on a context whose count is in range delivers the rows from there on, and keeps the count.\<close>

lemma sql_run:
  assumes "delivers query r rows" "count_at oor r (h a) = int k" "k + n \<le> length rows"
    and "Sql_Open oor query a h r = (e, r1)" "sql_reads n h r1 = (xs, h2, r2)"
  shows "e = None \<and> xs = map (row_result r) (take n (drop k rows)) \<and> same_reader r r2 \<and> sr_ec r2 = Some a
    \<and> count_at oor r (h2 a) = int (k + mapped r (take n (drop k rows)))
    \<and> sr_rows r2 = Some \<lparr>cu_rows = drop (k + n) rows, cu_Err = None, cu_closeErr = None\<rparr>
    \<and> gm_get (h2 a) (sql_key r) = (if mapped r (take n (drop k rows)) = 0 then gm_get (h a) (sql_key r)
         else Some (VInt (int (k + mapped r (take n (drop k rows))))))
    \<and> (\<forall>b. b \<noteq> a \<longrightarrow> h2 b = h b)"
proof -
  let ?c = "\<lparr>cu_rows = drop k rows, cu_Err = None, cu_closeErr = None\<rparr>"
  have o: "e = None" "r1 = r\<lparr>sr_ec := Some a, sr_readCount := int k, sr_rows := Some ?c\<rparr>"
    using Sql_Open_delivers[OF assms(1), of oor h a] assms(2,4) by simp_all
  then have s: "same_reader r r1" by (simp add: same_reader_def)
  note same = same_reader_facts[OF s]
  have "sr_rows r1 = Some ?c" "sr_ec r1 = Some a" "n \<le> length (cu_rows ?c)" "sr_readCount r1 = count_at oor r1 (h a)"
    using o(2) assms(2,3) same(1) by (simp_all add: count_at_def)
  from sql_reads_spec[where oor = oor and h = h, OF this] obtain h' r' where
    "sql_reads n h r1 = (map (row_result r1) (take n (drop k rows)), h', r')" "same_reader r1 r'"
    "sr_rows r' = Some (?c\<lparr>cu_rows := drop n (drop k rows)\<rparr>)" "sr_ec r' = Some a"
    "sr_readCount r' = sr_readCount r1 + int (mapped r1 (take n (drop k rows)))"
    "sr_readCount r' = count_at oor r1 (h' a)" "\<forall>b. b \<noteq> a \<longrightarrow> h' b = h b"
    "gm_get (h' a) (sql_key r1) = (if mapped r1 (take n (drop k rows)) = 0 then gm_get (h a) (sql_key r1)
         else Some (VInt (sr_readCount r')))" by auto
  then show ?thesis using assms(5) o s same
    by (auto simp: same_reader_def count_at_def ac_simps)
qed

text \<open>A count as it was put into a context, or as it comes back from its storage as JSON.\<close>

definition kept :: "string \<Rightarrow> ec \<Rightarrow> ec \<Rightarrow> bool" where
  "kept key ec ec' \<longleftrightarrow> gm_get ec' key = gm_get ec key \<or> gm_get ec' key = map_option json_image (gm_get ec key)"

lemma image_count:
  assumes "count_at oor r ec = int k" "k < 2 ^ 53" "kept (sql_key r) ec ec'"
  shows "count_at oor r ec' = int k"
proof -
  have kept: "gm_get ec' (sql_key r) = gm_get ec (sql_key r) \<or>
      gm_get ec' (sql_key r) = map_option json_image (gm_get ec (sql_key r))"
    using assms(3) by (simp add: kept_def)
  show ?thesis
  proof (cases "gm_get ec (sql_key r)")
    case None
    then show ?thesis using kept assms(1) by (auto simp: count_at_def ExecutionContext_GetInt_def)
  next
    case (Some v)
    show ?thesis
    proof (cases v)
      case (VInt i)
      then have "i = int k" using Some assms(1) by (simp add: count_at_def ExecutionContext_GetInt_def)
      then show ?thesis using kept Some VInt assms(2) int_of_f64_of_int[of i oor]
        by (auto simp: count_at_def ExecutionContext_GetInt_def)
    qed (use kept Some assms(1) in \<open>auto simp: count_at_def ExecutionContext_GetInt_def\<close>)
  qed
qed

text \<open>
  C24: a SQL cursor reader that starts on a context without a count and reads \<open>n\<close> rows delivers the
  first \<open>n\<close> of the query in order. One that is opened later on a context in which its count was kept,
  as it was or as JSON, goes on at the row whose number is the count of the rows that were mapped:
  exactly where the first one stopped when every row was mapped, and that many rows earlier when
  some were not, which are then delivered a second time.
\<close>

theorem sql_reader_resumes:
  assumes "delivers query r rows" "ExecutionContext_GetInt oor (h a) (sql_key r) = None" "n \<le> length rows"
    and "Sql_Open oor query a h r = (e, r1)" "sql_reads n h r1 = (xs, h2, r2)"
    and "same_reader r r'" "kept (sql_key r) (h2 a) (h' b)" "length rows < 2 ^ 53" "k = mapped r (take n rows)"
    and "Sql_Open oor query b h' r' = (e', r3)" "k + m \<le> length rows"
  shows "e = None \<and> xs = map (row_result r) (take n rows) \<and> e' = None
    \<and> fst (sql_reads m h' r3) = map (row_result r) (take m (drop k rows))
    \<and> (k = n \<longrightarrow> xs @ fst (sql_reads m h' r3) = map (row_result r) (take (n + m) rows))"
proof -
  have c0: "count_at oor r (h a) = int 0" using assms(2) by (simp add: count_at_def)
  note run = sql_run[OF assms(1) c0 _ assms(4,5)]
  have first: "e = None" "xs = map (row_result r) (take n rows)" "count_at oor r (h2 a) = int k"
    using run assms(3,9) by simp_all
  have "k \<le> n" using assms(9) length_filter_le[of _ "take n rows"] by (auto simp: mapped_def intro: order_trans)
  then have "k < 2 ^ 53" using assms(3,8) by simp
  from image_count[OF first(3) this assms(7)] have "count_at oor r' (h' b) = int k"
    using same_reader_facts(1)[OF assms(6)] by (simp add: count_at_def)
  moreover have "delivers query r' rows" using assms(1,6) by (simp add: delivers_def same_reader_def)
  moreover obtain ys h3 r4 where "sql_reads m h' r3 = (ys, h3, r4)" by (metis prod_cases3)
  ultimately have "e' = None" "fst (sql_reads m h' r3) = map (row_result r') (take m (drop k rows))"
    using sql_run[where query = query and r = r' and rows = rows and oor = oor and h = h' and a = b and k = k
        and n = m and e = e' and ?r1.0 = r3 and xs = ys and ?h2.0 = h3 and ?r2.0 = r4] assms(10,11) by simp_all
  then show ?thesis using first same_reader_facts(2)[OF assms(6)] by (auto simp: take_add)
qed

text \<open>
  Opened again on the very context it writes its count into, a reader does not read the same
  rows again but goes on after them. The chunk step reopens the reader on the step execution's
  context before it retries a write: from the second retry on this is the context the reader holds,
  and the rows of the chunk that was rolled back are not delivered again.
\<close>

theorem sql_second_retry_skips_rows:
  assumes "delivers query r rows" "\<forall>row \<in> set rows. \<exists>i. sr_mapper r row = Inr i"
    and "count_at oor r (h a) = int k" "k + n + m \<le> length rows"
    and "Sql_Open oor query a h r = (e1, r1)" "sql_reads n h r1 = (xs, h2, r2)"
    and "Sql_Close r2 = (e2, r3)" "Sql_Open oor query a h2 r3 = (e4, r4)"
  shows "xs = map (row_result r) (take n (drop k rows)) \<and> e1 = None \<and> e2 = None \<and> e4 = None
    \<and> fst (sql_reads m h2 r4) = map (row_result r) (take m (drop (k + n) rows))"
proof -
  have all: "mapped r (take n (drop k rows)) = n"
  proof -
    have "set (take n (drop k rows)) \<subseteq> set rows" by (meson set_drop_subset set_take_subset subset_trans)
    then have "filter (\<lambda>row. \<exists>i. sr_mapper r row = Inr i) (take n (drop k rows)) = take n (drop k rows)"
      using assms(2) by (intro filter_True) auto
    then show ?thesis using assms(4) by (simp add: mapped_def)
  qed
  note run = sql_run[OF assms(1,3) _ assms(5,6)]
  have first: "e1 = None" "xs = map (row_result r) (take n (drop k rows))" "same_reader r r2"
    "count_at oor r (h2 a) = int (k + n)"
    "sr_rows r2 = Some \<lparr>cu_rows = drop (k + n) rows, cu_Err = None, cu_closeErr = None\<rparr>"
    using run assms(4) all by simp_all
  have r3: "e2 = None" "same_reader r r3" using assms(7) first(3,5) by (auto simp: Sql_Close_def same_reader_def)
  have "delivers query r3 rows" using assms(1) r3(2) by (simp add: delivers_def same_reader_def)
  moreover have "count_at oor r3 (h2 a) = int (k + n)"
    using first(4) same_reader_facts(1)[OF r3(2)] by (simp add: count_at_def)
  moreover obtain ys h3 r5 where "sql_reads m h2 r4 = (ys, h3, r5)" by (metis prod_cases3)
  ultimately have "e4 = None" "fst (sql_reads m h2 r4) = map (row_result r3) (take m (drop (k + n) rows))"
    using sql_run[where query = query and r = r3 and rows = rows and oor = oor and h = h2 and a = a and k = "k + n"
        and n = m and e = e4 and ?r1.0 = r4 and xs = ys and ?h2.0 = h3 and ?r2.0 = r5] assms(4,8) by simp_all
  then show ?thesis using first r3 same_reader_facts(2)[OF r3(2)] by simp
qed

text \<open>A table of six numbers of which the mapper refuses 13.\<close>

definition demo_query :: "string \<Rightarrow> gval list \<Rightarrow> goerr + nat cursor" where
  "demo_query q args = Inr \<lparr>cu_rows = (case args of [VInt n] \<Rightarrow> drop (nat n) [4, 13, 6, 7, 8, 9] | _ \<Rightarrow> [4, 13, 6, 7, 8, 9]),
     cu_Err = None, cu_closeErr = None\<rparr>"

definition demo_reader :: "(nat, nat) SqlCursorReader" where
  "demo_reader = NewSqlCursorReader ''r'' ''SELECT n FROM t'' []
     (\<lambda>n. if n = 13 then Inl (plain_error ''13'') else Inr n)"

lemma demo_delivers: "delivers demo_query demo_reader [4, 13, 6, 7, 8, 9]"
  by (simp add: delivers_def demo_query_def demo_reader_def NewSqlCursorReader_def)

text \<open>Three rows are read, two of them mapped: the next reader delivers 6 again.\<close>

lemma sql_reader_resumes_witness:
  "\<exists>r1 xs h2 r2 r3. Sql_Open (\<lambda>f. 0) demo_query 0 (\<lambda>a. []) demo_reader = (None, r1)
     \<and> sql_reads 3 (\<lambda>a. []) r1 = (xs, h2, r2)
     \<and> Sql_Open (\<lambda>f. 0) demo_query 1 (h2(1 := map (\<lambda>(k, v). (k, json_image v)) (h2 0))) demo_reader = (None, r3)
     \<and> fst (sql_reads 2 (h2(1 := map (\<lambda>(k, v). (k, json_image v)) (h2 0))) r3) = [Inr 6, Inr 7]"
proof -
  obtain e r1 where o: "Sql_Open (\<lambda>f. 0) demo_query 0 (\<lambda>a. []) demo_reader = (e, r1)" by fastforce
  obtain xs h2 r2 where r: "sql_reads 3 (\<lambda>a. []) r1 = (xs, h2, r2)" by (metis prod_cases3)
  let ?h' = "(h2(1 := map (\<lambda>(k, v). (k, json_image v)) (h2 0)))"
  obtain e' r3 where o2: "Sql_Open (\<lambda>f. 0) demo_query 1 ?h' demo_reader = (e', r3)" by fastforce
  have k: "2 = mapped demo_reader (take 3 [4, 13, 6, 7, 8, 9])"
    by (simp add: mapped_def demo_reader_def NewSqlCursorReader_def numeral_3_eq_3)
  have kept: "kept (sql_key demo_reader) (h2 0) (?h' 1)"
    by (simp add: kept_def gm_get_map_values)
  have facts: "ExecutionContext_GetInt (\<lambda>f. 0) [] (sql_key demo_reader) = None" "same_reader demo_reader demo_reader"
    "3 \<le> length [4, 13, 6, 7, 8, 9 :: nat]" "2 + 2 \<le> length [4, 13, 6, 7, 8, 9 :: nat]"
    "length [4, 13, 6, 7, 8, 9 :: nat] < 2 ^ 53"
    by (simp_all add: ExecutionContext_GetInt_def same_reader_def)
  have "row_result demo_reader 6 = Inr 6" "row_result demo_reader 7 = Inr 7"
    by (simp_all add: row_result_def demo_reader_def NewSqlCursorReader_def)
  moreover have "take 2 (drop 2 [4, 13, 6, 7, 8, 9 :: nat]) = [6, 7]" by (simp add: numeral_2_eq_2)
  moreover note sql_reader_resumes[where h = "\<lambda>a. []", OF demo_delivers facts(1,3) o r facts(2) kept facts(5) k o2 facts(4)]
  ultimately show ?thesis using o r o2 by simp
qed

lemma sql_second_retry_skips_rows_witness:
  "\<exists>e1 r1 xs h2 r2 e2 r3 e4 r4. Sql_Open (\<lambda>f. 0) demo_query 0 (\<lambda>a. []) (demo_reader\<lparr>sr_mapper := Inr\<rparr>) = (e1, r1)
     \<and> sql_reads 2 (\<lambda>a. []) r1 = (xs, h2, r2) \<and> Sql_Close r2 = (e2, r3)
     \<and> Sql_Open (\<lambda>f. 0) demo_query 0 h2 r3 = (e4, r4) \<and> xs = [Inr 4, Inr 13]
     \<and> fst (sql_reads 2 h2 r4) = [Inr 6, Inr 7]"
proof -
  let ?r = "demo_reader\<lparr>sr_mapper := Inr\<rparr>"
  obtain e1 r1 where o: "Sql_Open (\<lambda>f. 0) demo_query 0 (\<lambda>a. []) ?r = (e1, r1)" by fastforce
  obtain xs h2 r2 where r: "sql_reads 2 (\<lambda>a. []) r1 = (xs, h2, r2)" by (metis prod_cases3)
  obtain e2 r3 where c: "Sql_Close r2 = (e2, r3)" by fastforce
  obtain e4 r4 where o2: "Sql_Open (\<lambda>f. 0) demo_query 0 h2 r3 = (e4, r4)" by fastforce
  have facts: "delivers demo_query ?r [4, 13, 6, 7, 8, 9]" "\<forall>row \<in> set [4, 13, 6, 7, 8, 9]. \<exists>i. sr_mapper ?r row = Inr i"
    "count_at (\<lambda>f. 0) ?r [] = int 0" "0 + 2 + 2 \<le> length [4, 13, 6, 7, 8, 9 :: nat]"
    using demo_delivers by (simp_all add: delivers_def count_at_def ExecutionContext_GetInt_def)
  have "row_result ?r n = Inr n" for n by (simp add: row_result_def)
  moreover have "take 2 (drop 0 [4, 13, 6, 7, 8, 9 :: nat]) = [4, 13]" "take 2 (drop (0 + 2) [4, 13, 6, 7, 8, 9 :: nat]) = [6, 7]"
    by (simp_all add: numeral_2_eq_2)
  moreover note sql_second_retry_skips_rows[where h = "\<lambda>a. []", OF facts o r c o2]
  ultimately show ?thesis using o r c o2 by simp
qed

section \<open>Bulk writes\<close>

text \<open>The items in chunks of \<open>b\<close>, and the upserts of a list of chunks up to the first that fails.\<close>

function chunks_of :: "nat \<Rightarrow> 'a list \<Rightarrow> 'a list list" where
  "chunks_of b xs = (if b = 0 \<or> xs = [] then [] else take b xs # chunks_of b (drop b xs))"
  by pat_completeness auto

termination by (relation "measure (\<lambda>(b, xs). length xs)") auto

declare chunks_of.simps [simp del]

fun upsert_all :: "SqlBulkWriter \<Rightarrow> ('o list \<Rightarrow> string \<Rightarrow> string list \<Rightarrow> string list \<Rightarrow> 'w \<Rightarrow> goerr option \<times> 'w) \<Rightarrow>
    int \<Rightarrow> 'o list list \<Rightarrow> 'w \<Rightarrow> goerr option \<times> 'w" where
  "upsert_all w upsert i [] s = (None, s)"
| "upsert_all w upsert i (c # cs) s =
     (case upsert c (bw_tableName w) (bw_conflictColumns w) (bw_updateColumns w) s of
        (Some e, s1) \<Rightarrow> (Some (bulk_error w i e), s1)
      | (None, s1) \<Rightarrow> upsert_all w upsert (i + bw_bulkSize w) cs s1)"

lemma chunks_of_parts:
  "0 < b \<Longrightarrow> concat (chunks_of b xs) = xs \<and> (\<forall>c \<in> set (chunks_of b xs). c \<noteq> [] \<and> length c \<le> b)
     \<and> length (chunks_of b xs) = (length xs + b - 1) div b"
proof (induction b xs rule: chunks_of.induct)
  case (1 b xs)
  show ?case
  proof (cases "xs = []")
    case True
    then show ?thesis using 1 by (subst (1 2 3) chunks_of.simps) simp
  next
    case False
    then have c: "chunks_of b xs = take b xs # chunks_of b (drop b xs)" using 1(2) by (subst chunks_of.simps) simp
    have ih: "concat (chunks_of b (drop b xs)) = drop b xs"
      "\<forall>c \<in> set (chunks_of b (drop b xs)). c \<noteq> [] \<and> length c \<le> b"
      "length (chunks_of b (drop b xs)) = (length xs - b + b - 1) div b"
      using 1 False by simp_all
    have "(length xs + b - 1) div b = Suc ((length xs - b + b - 1) div b)"
    proof (cases "length xs \<le> b")
      case True
      moreover have "0 < length xs" using False by simp
      ultimately have "b \<le> length xs + b - 1" "length xs + b - 1 < 2 * b" "(b - 1) div b = 0" using 1(2) by (linarith, linarith, simp)
      then show ?thesis using True by (auto intro!: div_nat_eqI)
    next
      case False
      then have "length xs + b - 1 = (length xs - b + b - 1) + b" by simp
      then show ?thesis using 1(2) by (metis Suc_eq_plus1 div_add_self2 less_numeral_extra(3))
    qed
    then show ?thesis using c ih 1(2) False by auto
  qed
qed

lemma bulk_loop_all:
  assumes "0 < bw_bulkSize w" "b = nat (bw_bulkSize w)"
  shows "length (chunks_of b (drop k items)) < fuel \<Longrightarrow>
    bulk_loop fuel w upsert items (int k) s =
      (case upsert_all w upsert (int k) (chunks_of b (drop k items)) s of (e, s1) \<Rightarrow> Some (BulkDone e, s1))"
proof (induction fuel arbitrary: k s)
  case (Suc fuel)
  have b: "0 < b" "bw_bulkSize w = int b" using assms by simp_all
  show ?case
  proof (cases "k < length items")
    case False
    then show ?thesis by (subst chunks_of.simps) simp
  next
    case True
    then have c: "chunks_of b (drop k items) = take b (drop k items) # chunks_of b (drop (k + b) items)"
      using b(1) by (subst chunks_of.simps) (simp add: add.commute)
    have e: "take (nat (if int k + int b > int (length items) then int (length items) else int k + int b) - nat (int k))
        (drop (nat (int k)) items) = take b (drop k items)"
      using True by (simp add: nat_diff_distrib' nat_add_distrib)
    have "length (chunks_of b (drop (k + b) items)) < fuel" using Suc.prems c by simp
    note ih = Suc.IH[OF this]
    show ?thesis
      using True c e ih b(2) by (auto simp: Let_def split: prod.splits option.splits)
  qed
qed simp



section \<open>Reading CSV\<close>

lemma nat_str_all_digits: "list_all is_digit (nat_str n)"
proof (induction n rule: nat_str.induct)
  case (1 n)
  have "d < 10 \<Longrightarrow> is_digit (char_of (48 + d))" for d :: nat by (simp add: is_digit_def)
  then show ?case using 1 by (subst nat_str.simps) auto
qed

text \<open>\<open>strconv.Atoi\<close> reads what \<open>strconv.Itoa\<close> wrote.\<close>

lemma Atoi_Itoa:
  assumes "- (2 ^ 63) \<le> i" "i < 2 ^ 63"
  shows "strconv_Atoi (int_str i) = Inr i"
proof -
  have h: "is_digit (hd (nat_str n))" for n
    using nat_str_all_digits[of n] by (cases "nat_str n") (auto simp del: nat_str.simps dest: arg_cong[of _ _ length])
  have "\<not> is_digit CHR ''-''" "\<not> is_digit CHR ''+''" by (simp_all add: is_digit_def)
  then have "hd (nat_str n) \<noteq> CHR ''-''" "hd (nat_str n) \<noteq> CHR ''+''" for n using h by metis+
  then show ?thesis using assms nat_str_all_digits
    by (cases "i < 0") (simp_all add: strconv_Atoi_def int_str_def str_nat_nat_str Let_def del: str_nat.simps)
qed

fun csv_reads :: "nat \<Rightarrow> heap \<Rightarrow> ('s, 'i) CsvCursorReader \<Rightarrow>
    ((goerr + 'i) list \<times> heap \<times> ('s, 'i) CsvCursorReader) option" where
  "csv_reads 0 h r = Some ([], h, r)"
| "csv_reads (Suc n) h r = (case Csv_Read h r of
       None \<Rightarrow> None
     | Some (x, h1, r1) \<Rightarrow> map_option (\<lambda>(xs, h2, r2). (x # xs, h2, r2)) (csv_reads n h1 r1))"

lemma csv_reads_spec:
  assumes "cv_pending r = Some (map Inr rs)" "cv_ec r = Some a" "n \<le> length rs" "cv_mapper r = (\<lambda>rec. Inr (f rec))"
  shows "\<exists>h' r'. csv_reads n h r = Some (map (\<lambda>rec. Inr (f rec)) (take n rs), h', r')
    \<and> cv_readCount r' = cv_readCount r + int n
    \<and> gm_get (h' a) readCountKey = (if n = 0 then gm_get (h a) readCountKey
         else Some (VStr (int_str (cv_readCount r + int n))))"
  using assms
proof (induction n arbitrary: h r rs)
  case (Suc n)
  obtain x xs where rs: "rs = x # xs" using Suc.prems(3) by (cases rs) auto
  let ?r1 = "r\<lparr>cv_pending := Some (map Inr xs), cv_taken := cv_taken r + 1, cv_readCount := cv_readCount r + 1\<rparr>"
  let ?h1 = "h(a := gm_put readCountKey (VStr (int_str (cv_readCount r + 1))) (h a))"
  have rd: "Csv_Read h r = Some (Inr (f x), ?h1, ?r1)"
    using Suc.prems rs by (simp add: Csv_Read_def csv_next_def Let_def ExecutionContext_Put_def)
  have "cv_pending ?r1 = Some (map Inr xs)" "cv_ec ?r1 = Some a" "n \<le> length xs" "cv_mapper ?r1 = (\<lambda>rec. Inr (f rec))"
    using Suc.prems rs by simp_all
  from Suc.IH[where h = ?h1, OF this] obtain h2 r2 where
    "csv_reads n ?h1 ?r1 = Some (map (\<lambda>rec. Inr (f rec)) (take n xs), h2, r2)"
    "cv_readCount r2 = cv_readCount ?r1 + int n"
    "gm_get (h2 a) readCountKey = (if n = 0 then gm_get (?h1 a) readCountKey
         else Some (VStr (int_str (cv_readCount ?r1 + int n))))" by blast
  then show ?case using rd rs by (auto simp: algebra_simps)
qed simp

lemma csv_skip_spec:
  "cv_pending r = Some (map Inr rs) \<Longrightarrow> n \<le> length rs \<Longrightarrow>
    csv_skip n (map Inr rs) r = (None, r\<lparr>cv_pending := Some (map Inr (drop n rs)), cv_taken := cv_taken r + n\<rparr>)"
proof (induction n arbitrary: rs r)
  case (Suc n)
  then obtain x xs where rs: "rs = x # xs" by (cases rs) auto
  then show ?case using Suc by (simp add: csv_next_def)
qed simp

lemma Csv_Open_spec:
  assumes "csv_records lib (cv_comma r) (cv_lazyQuotes r)
      (csv_left lib (cv_comma r) (cv_lazyQuotes r) (cv_taken r) (cv_source r)) = map Inr rs"
    and "gm_get (h a) readCountKey = Some (VStr (int_str (int k))) \<or>
         gm_get (h a) readCountKey = None \<and> cv_readCount r = int k"
    and "k \<le> length rs" "length rs < 2 ^ 63"
  shows "\<exists>r1. Csv_Open lib a h r = (None, r1) \<and> cv_pending r1 = Some (map Inr (drop k rs))
    \<and> cv_readCount r1 = int k \<and> cv_ec r1 = Some a \<and> cv_mapper r1 = cv_mapper r"
proof -
  have "strconv_Atoi (int_str (int k)) = Inr (int k)" using assms(3,4) by (intro Atoi_Itoa) auto
  then show ?thesis using assms(1,2,3)
    by (auto simp: Csv_Open_def csv_new_def Let_def ExecutionContext_Get_def csv_skip_spec)
qed

text \<open>
  A CSV reader opened on a context without a count delivers the records from the first on. A
  reader opened on a context with that count skips as many records of \<open>what its source still
  delivers\<close>: on a source read from its beginning it goes on exactly where the first one stopped, but
  opened again on the source it was reading, as for the retry of a write, it skips the unread
  records for a second time and they are lost, with those its parser had read ahead.
\<close>

theorem csv_reader_positions:
  assumes "csv_records lib (cv_comma r) (cv_lazyQuotes r)
      (csv_left lib (cv_comma r) (cv_lazyQuotes r) (cv_taken r) (cv_source r)) = map Inr recs"
    and "cv_readCount r = 0" "gm_get (h a) readCountKey = None" "cv_mapper r = (\<lambda>rec. Inr (f rec))"
    and "0 < n" "length recs < 2 ^ 63" "n \<le> length recs"
    and "Csv_Open lib a h r = (e, r1)" "csv_reads n h r1 = Some (xs, h2, r2)"
    and "gm_get (h' b) readCountKey = gm_get (h2 a) readCountKey" "cv_mapper r' = (\<lambda>rec. Inr (f rec))"
    and "csv_records lib (cv_comma r') (cv_lazyQuotes r')
      (csv_left lib (cv_comma r') (cv_lazyQuotes r') (cv_taken r') (cv_source r')) = map Inr (drop j recs)"
    and "Csv_Open lib b h' r' = (e', r3)" "j + n + m \<le> length recs"
  shows "e = None \<and> xs = map (\<lambda>rec. Inr (f rec)) (take n recs) \<and> e' = None
    \<and> map_option fst (csv_reads m h' r3) = Some (map (\<lambda>rec. Inr (f rec)) (take m (drop (j + n) recs)))"
proof -
  have k0: "gm_get (h a) readCountKey = Some (VStr (int_str (int 0))) \<or>
      gm_get (h a) readCountKey = None \<and> cv_readCount r = int 0" using assms(2,3) by simp
  from Csv_Open_spec[where h = h, OF assms(1) k0 _ assms(6)] assms(8) have o:
    "e = None" "cv_pending r1 = Some (map Inr recs)" "cv_readCount r1 = 0" "cv_ec r1 = Some a"
    "cv_mapper r1 = (\<lambda>rec. Inr (f rec))" using assms(4) by auto
  from csv_reads_spec[where h = h, OF o(2,4) assms(7) o(5)] have rd: "xs = map (\<lambda>rec. Inr (f rec)) (take n recs)"
    "gm_get (h2 a) readCountKey = Some (VStr (int_str (int n)))"
    using assms(5,9) o(3) by auto
  have k: "gm_get (h' b) readCountKey = Some (VStr (int_str (int n))) \<or>
      gm_get (h' b) readCountKey = None \<and> cv_readCount r' = int n" using assms(10) rd(2) by simp
  have l: "n \<le> length (drop j recs)" "length (drop j recs) < 2 ^ 63" using assms(6,14) by auto
  from Csv_Open_spec[where h = h', OF assms(12) k l] assms(13) have o2: "e' = None"
    "cv_pending r3 = Some (map Inr (drop n (drop j recs)))" "cv_ec r3 = Some b" "cv_mapper r3 = (\<lambda>rec. Inr (f rec))"
    using assms(11) by auto
  have "m \<le> length (drop n (drop j recs))" using assms(14) by simp
  from csv_reads_spec[where h = h', OF o2(2,3) this o2(4)] show ?thesis
    using o(1) rd(1) o2(1) by (auto simp: add.commute)
qed

text \<open>A parser whose source is its records, and which reads the whole source ahead.\<close>

definition list_csv :: "string list list csv_lib" where
  "list_csv = \<lparr>csv_records = (\<lambda>c l s. map Inr s), csv_left = (\<lambda>c l n s. if n = 0 then s else []), src_Close = None\<rparr>"

definition demo_csv :: "(string list list, string list) CsvCursorReader" where
  "demo_csv = NewCsvCursorReader [[''a''], [''b''], [''c'']] ''csv'' Inr [WithComma CHR '';'']"

lemma csv_reader_positions_witness:
  "\<exists>e r1 xs h2 r2 e' r3. Csv_Open list_csv 0 (\<lambda>a. []) demo_csv = (e, r1)
     \<and> csv_reads 1 (\<lambda>a. []) r1 = Some (xs, h2, r2) \<and> Csv_Open list_csv 1 (h2(1 := h2 0)) demo_csv = (e', r3)
     \<and> xs = [Inr [''a'']] \<and> map_option fst (csv_reads 2 (h2(1 := h2 0)) r3) = Some [Inr [''b''], Inr [''c'']]"
proof -
  let ?recs = "[[''a''], [''b''], [''c'']]"
  have src: "csv_records list_csv (cv_comma demo_csv) (cv_lazyQuotes demo_csv)
      (csv_left list_csv (cv_comma demo_csv) (cv_lazyQuotes demo_csv) (cv_taken demo_csv) (cv_source demo_csv))
      = map Inr ?recs"
    and init: "cv_readCount demo_csv = 0" "cv_mapper demo_csv = (\<lambda>rec. Inr ((\<lambda>x. x) rec))"
    by (simp_all add: list_csv_def demo_csv_def NewCsvCursorReader_def WithComma_def)
  obtain e r1 where o: "Csv_Open list_csv 0 (\<lambda>a. []) demo_csv = (e, r1)" by fastforce
  have "csv_reads 1 (\<lambda>a. []) r1 \<noteq> None"
    using o by (auto simp: Csv_Open_def csv_new_def list_csv_def demo_csv_def NewCsvCursorReader_def WithComma_def
        ExecutionContext_Get_def Csv_Read_def csv_next_def Let_def)
  then obtain xs h2 r2 where r: "csv_reads 1 (\<lambda>a. []) r1 = Some (xs, h2, r2)" by (metis not_Some_eq prod_cases3)
  obtain e' r3 where o2: "Csv_Open list_csv 1 (h2(1 := h2 0)) demo_csv = (e', r3)" by fastforce
  have src0: "csv_records list_csv (cv_comma demo_csv) (cv_lazyQuotes demo_csv)
      (csv_left list_csv (cv_comma demo_csv) (cv_lazyQuotes demo_csv) (cv_taken demo_csv) (cv_source demo_csv))
      = map Inr (drop 0 ?recs)" using src by simp
  have "e = None \<and> xs = map (\<lambda>rec. Inr rec) (take 1 ?recs) \<and> e' = None
    \<and> map_option fst (csv_reads 2 (h2(1 := h2 0)) r3) = Some (map (\<lambda>rec. Inr rec) (take 2 (drop (0 + 1) ?recs)))"
    by (rule csv_reader_positions[OF src init(1) _ init(2) _ _ _ o r _ init(2) src0 o2]) simp_all
  then show ?thesis using o r o2 by (simp add: numeral_2_eq_2)
qed

section \<open>Writers without a target\<close>

text \<open>The writer into an execution context counts every item.\<close>

lemma ec_writer_counts:
  assumes "ExecutionContext_GetInt oor (h (ew_ec w)) (ew_key w) = Some n"
  shows "ExecutionContext_GetInt oor (fold (\<lambda>items. Ec_Write oor items w) iss h (ew_ec w)) (ew_key w)
    = Some (n + int (length (concat iss)))"
  using assms
proof (induction iss arbitrary: h n)
  case (Cons items iss)
  have "ExecutionContext_GetInt oor (Ec_Write oor items w h (ew_ec w)) (ew_key w) = Some (n + int (length items))"
    using Cons.prems by (simp add: Ec_Write_def ExecutionContext_GetInt_def ExecutionContext_Put_def Let_def)
  from Cons.IH[where h = "Ec_Write oor items w h", OF this] show ?case by (simp add: add.assoc)
qed simp

fun closing_event :: "('i, 'o) ev \<Rightarrow> bool" where
  "closing_event AfterStep = True"
| "closing_event (Persisted se) = True"
| "closing_event _ = False"

lemma collect_state_log: "collect_state get acc s = (ec, s') \<Longrightarrow> cs_log s' = cs_log s"
  by (auto simp: collect_state_def split: prod.split_asm sum.split_asm)

lemma finish_failed:
  assumes "finish_step st (Some e) s = (err, s')" "repo_keeps st"
  shows "err \<noteq> None \<and> se_Status (cs_se s') = FAILED \<and> step_closed (cs_se s')
    \<and> (\<exists>es. cs_log s' = cs_log s @ es \<and> list_all closing_event es)"
proof -
  let ?s1 = "on_se (\<lambda>se. se\<lparr>se_ReadCount := cs_readCount s, se_WriteCount := cs_writeCount s,
                              se_CommitCount := cs_commitCount s\<rparr>) s"
  obtain ce s2 where c: "close_components st (Some e) ?s1 = (ce, s2)" by fastforce
  obtain ec s3 where f: "final_context st s2 = (ec, s3)" by fastforce
  let ?s4 = "mark_finished st ce (on_se (\<lambda>se. se\<lparr>se_ExecutionContext :=
                           put_counts (cs_readCount s) (cs_writeCount s) ec\<rparr>) s3)"
  obtain p s5 where p: "persist_se st ?s4 = (p, s5)" by fastforce
  have ce: "ce \<noteq> None" "cs_log s2 = cs_log s" using c
    by (auto simp: close_components_def join_error_def split: prod.split_asm option.split_asm)
  have l2: "cs_log s3 = cs_log s2" using f
    by (auto simp: final_context_def split: prod.split_asm option.split_asm dest!: collect_state_log)
  have l3: "cs_log ?s4 = cs_log s3" by (auto simp: mark_finished_def split: prod.split)
  have l4: "\<exists>es. cs_log s5 = cs_log ?s4 @ es \<and> list_all closing_event es" using p
    by (auto simp: persist_se_def split: prod.split_asm option.split_asm)
  have s': "s' = s5" "err \<noteq> None"
    using assms(1) c f p ce(1) by (auto simp: finish_step_def Let_def split: option.split_asm)
  note v = version_update_fields[OF persist_keeps[OF p assms(2)]]
  have "se_Status (cs_se s5) = FAILED" "step_closed (cs_se s5)"
    unfolding v(1) v(3) mark_finished_spec(2) using ce(1) mark_finished_spec(1) by auto
  then show ?thesis using s' ce(2) l2 l3 l4 by simp
qed

text \<open>
  The two writers that are registered for job specifications, the one into an execution context
  and the one that does nothing, name no target resource, and a chunk step refuses such a writer:
  a step with one of them fails before it reads an item or begins a transaction.
\<close>

theorem untargeted_writer_refused:
  assumes "st_writer st = Some wr" "repo_keeps st" "start_step st s = (None, s1)"
    and "wr_GetTargetResourceName wr \<in> {Ec_GetTargetResourceName ew, NoOp_GetTargetResourceName nw}"
  shows "\<exists>err s' es. Execute (Suc n) st s = Some (Some err, s') \<and> se_Status (cs_se s') = FAILED
    \<and> step_closed (cs_se s') \<and> cs_log s' = cs_log s1 @ es \<and> list_all closing_event es"
proof -
  have "target_name st = []" using assms(1,4)
    by (auto simp: target_name_def Ec_GetTargetResourceName_def NoOp_GetTargetResourceName_def)
  then obtain e where b: "begin_chunk st s1 = (Inl e, s1)" using assms(1) by (simp add: begin_chunk_def)
  then have l: "chunk_loop (Suc n) st s1 = Some (Some e, s1)" by (simp add: chunk_round_def)
  obtain fe s3 where f: "finish_step st (Some e) s1 = (fe, s3)" by fastforce
  note fin = finish_failed[OF f assms(2)]
  from fin obtain err where x: "Execute (Suc n) st s = Some (Some err, emit [AfterStep] s3)"
    using assms(3) l f by (auto simp: Execute_def simp del: chunk_loop.simps)
  show ?thesis using x fin by auto
qed

text \<open>A scripted step whose writer only counts.\<close>

lemma untargeted_writer_refused_witness:
  "\<exists>(st :: (script, nat, nat) chunk_step) s err s'. st_writer st = Some (script_writer\<lparr>wr_GetTargetResourceName := Ec_GetTargetResourceName
       (NewExecutionContextItemWriter 0 [])\<rparr>)
     \<and> Execute 1 st s = Some (Some err, s') \<and> se_Status (cs_se s') = FAILED"
proof -
  let ?wr = "script_writer\<lparr>wr_GetTargetResourceName := Ec_GetTargetResourceName (NewExecutionContextItemWriter 0 [])\<rparr>"
  let ?st = "(scripted 2 (RetryPolicy_Create 1 0 []))\<lparr>st_writer := Some ?wr\<rparr>"
  let ?s = "script_state [Inr 4] [] (SkipPolicy_Create 0 [])"
  have "fst (start_step ?st ?s) = None" by code_simp
  then obtain s1 where s1: "start_step ?st ?s = (None, s1)" by (metis prod.collapse)
  have "st_writer ?st = Some ?wr" "repo_keeps ?st"
    "wr_GetTargetResourceName ?wr \<in> {Ec_GetTargetResourceName (NewExecutionContextItemWriter 0 []),
       NoOp_GetTargetResourceName \<lparr>no_ec = 0\<rparr>}"
    by (simp_all add: repo_keeps_def scripted_def)
  note st = this
  obtain err s' where e: "Execute (Suc 0) ?st ?s = Some (Some err, s')" "se_Status (cs_se s') = FAILED"
    using untargeted_writer_refused[OF st(1,2) s1 st(3), of 0] by (elim exE conjE)
  show ?thesis unfolding One_nat_def by (intro exI conjI) (rule st(1), rule e(1), rule e(2))
qed

end
