(* ===== verification/Checkpoint_Resume.thy ===== *)
theory Checkpoint_Resume
  imports Item_Correct
begin

text \<open>
  The chunk step, the SQL cursor reader and the checkpoints together: what a run that was cut off
  after any number of chunks has committed, and what a run that starts from its last checkpoint
  adds to that.
\<close>

section \<open>A step that reads from a SQL cursor\<close>

text \<open>The reader \<open>cfg\<close> while it is open on a result set, with its rows and its count.\<close>

definition live :: "('r, 'i) SqlCursorReader \<Rightarrow> 'r list \<times> int \<Rightarrow> ('r, 'i) SqlCursorReader" where
  "live cfg v = cfg\<lparr>sr_rows := Some \<lparr>cu_rows = fst v, cu_Err = None, cu_closeErr = None\<rparr>,
     sr_readCount := snd v, sr_ec := Some 0\<rparr>"

definition rows_and_count :: "('r, 'i) SqlCursorReader \<Rightarrow> 'r list \<times> int" where
  "rows_and_count r = ((case sr_rows r of Some c \<Rightarrow> cu_rows c | None \<Rightarrow> []), sr_readCount r)"

text \<open>
  The reader of the step is \<open>cfg\<close>, with the state \<open>v w\<close> in the world \<open>w\<close>: \<open>Read\<close> is the reader's,
  and the context it gives to a checkpoint holds its count, which the writer's context does not
  overwrite with another one.
\<close>

definition reads_sql :: "('w, 'i, 'o) chunk_step \<Rightarrow> ('r, 'i) SqlCursorReader \<Rightarrow> ('w \<Rightarrow> 'r list \<times> int) \<Rightarrow> bool" where
  "reads_sql st cfg v \<longleftrightarrow> (\<forall>w h. \<exists>w'. rd_Read st w = (fst (Sql_Read h (live cfg (v w))), w')
     \<and> v w' = rows_and_count (snd (snd (Sql_Read h (live cfg (v w))))))"

definition is_count :: "int \<Rightarrow> gval option \<Rightarrow> bool" where
  "is_count c g \<longleftrightarrow> g = Some (VInt c) \<or> g = Some (VFloat (f64_of_int c))"

definition gives_count :: "('w, 'i, 'o) chunk_step \<Rightarrow> ('w, 'o) writer_ops \<Rightarrow> ('r, 'i) SqlCursorReader \<Rightarrow>
    ('w \<Rightarrow> 'r list \<times> int) \<Rightarrow> bool" where
  "gives_count st wr cfg v \<longleftrightarrow>
     (\<forall>w. 0 < snd (v w) \<longrightarrow> (\<exists>ec. fst (rd_GetExecutionContext st w) = Inr ec \<and> gm_wf ec
        \<and> is_count (snd (v w)) (gm_get ec (sql_key cfg))))
     \<and> (\<forall>w. \<exists>ec. fst (wr_GetExecutionContext wr w) = Inr ec \<and> gm_wf ec
        \<and> (gm_get ec (sql_key cfg) = None \<or> is_count (snd (v w)) (gm_get ec (sql_key cfg))))"

text \<open>Reading one row.\<close>

definition next_row :: "'r list \<times> int \<Rightarrow> 'r list \<times> int" where
  "next_row v = (tl (fst v), snd v + 1)"

lemma next_row_funpow: "n \<le> length rows \<Longrightarrow> (next_row ^^ n) (rows, c) = (drop n rows, c + int n)"
proof (induction n arbitrary: rows c)
  case (Suc n)
  then obtain r rs where "rows = r # rs" by (cases rows) auto
  then show ?case using Suc by (simp add: funpow_Suc_right next_row_def del: funpow.simps(2))
qed simp

lemma sql_feeds:
  assumes "reads_sql st cfg v" "\<forall>row. sr_mapper cfg row = Inr (f row)"
    and "\<forall>i w. \<exists>w'. pr_Process st i w = (Inr (p i), w') \<and> v w' = v w"
  shows "feeds_by st v (\<lambda>x. map f (fst x)) next_row p"
proof -
  have eof: "end_of_input io_EOF" by (simp add: end_of_input_def io_EOF_def)
  have rd: "\<exists>w'. rd_Read st w = (fst (Sql_Read h (live cfg (v w))), w')
     \<and> v w' = rows_and_count (snd (snd (Sql_Read h (live cfg (v w)))))" for w h
    using assms(1) unfolding reads_sql_def by blast
  have nil: "\<exists>e w'. rd_Read st w = (Inl e, w') \<and> end_of_input e \<and> v w' = v w" if "map f (fst (v w)) = []" for w
    using rd[of w "\<lambda>a. []"] that eof
    by (auto simp: Sql_Read_def live_def rows_and_count_def prod_eq_iff)
  have cons: "\<exists>w'. rd_Read st w = (Inr x, w') \<and> v w' = next_row (v w) \<and> map f (fst (next_row (v w))) = xs"
    if "map f (fst (v w)) = x # xs" for w x xs
    using rd[of w "\<lambda>a. []"] that assms(2)
    by (auto simp: Sql_Read_def live_def rows_and_count_def next_row_def Let_def)
  show ?thesis unfolding feeds_by_def using nil cons assms(3) by blast
qed

lemma feeds_of_feeds_by:
  assumes "feeds_by st v it adv p"
  shows "feeds st (\<lambda>w. it (v w)) p"
proof -
  have nil: "\<exists>e w'. rd_Read st w = (Inl e, w') \<and> end_of_input e \<and> it (v w') = []" if "it (v w) = []" for w
    using assms that unfolding feeds_by_def by metis
  have cons: "\<exists>w'. rd_Read st w = (Inr x, w') \<and> it (v w') = xs" if more: "it (v w) = x # xs" for w x xs
  proof -
    obtain w' where "rd_Read st w = (Inr x, w')" "v w' = adv (v w)" "it (adv (v w)) = xs"
      using assms more unfolding feeds_by_def by blast
    then show ?thesis by auto
  qed
  have "\<exists>w'. pr_Process st i w = (Inr (p i), w') \<and> it (v w') = it (v w)" for i w
    using assms unfolding feeds_by_def by metis
  then show ?thesis unfolding feeds_def using nil cons by blast
qed

section \<open>What a checkpoint holds\<close>

lemma put_counts_get:
  "k \<noteq> ''readCount'' \<Longrightarrow> k \<noteq> ''writeCount'' \<Longrightarrow> gm_get (put_counts a b ec) k = gm_get ec k"
  by (simp add: put_counts_def)

lemma sql_key_not_count: "sql_key r \<noteq> ''readCount''" "sql_key r \<noteq> ''writeCount''"
proof -
  have "last (butlast (sql_key r)) = CHR ''n''" "sql_key r ! length (sr_name r) = CHR ''.''"
    "length (sr_name r) < length (sql_key r)" by (simp_all add: sql_key_def nth_append butlast_append)
  moreover have "CHR ''.'' \<notin> set ''readCount''" "CHR ''.'' \<notin> set ''writeCount''" by simp_all
  ultimately show "sql_key r \<noteq> ''readCount''" "sql_key r \<noteq> ''writeCount''" by (metis nth_mem)+
qed

text \<open>After a commit the last entry of the log is a checkpoint with the reader's count.\<close>

lemma save_holds_count:
  assumes "all_works st wr v" "gives_count st wr cfg v" "0 < snd (v (cs_world s))"
    and "saveCheckpoint st a b s = (r, s')"
  shows "\<exists>cp. last (cs_log s') = SavedCheckpoint cp \<and> cs_log s' \<noteq> []
    \<and> is_count (snd (v (cs_world s))) (gm_get (cd_ExecutionContext cp) (sql_key cfg))"
proof -
  have k: "keeps v (rd_GetExecutionContext st)" "st_writer st = Some wr"
    "\<And>cp. succeeds (jr_SaveCheckpointData st cp)"
    using assms(1) unfolding all_works_def by auto
  obtain r1 s1 where c1: "call (rd_GetExecutionContext st) s = (r1, s1)" by fastforce
  have v1: "v (cs_world s1) = v (cs_world s)" using call_keeps[OF c1 k(1)] .
  obtain rec where rec: "r1 = Inr rec" "gm_wf rec" "is_count (snd (v (cs_world s))) (gm_get rec (sql_key cfg))"
    using assms(2,3) c1 unfolding gives_count_def by (auto simp: call_def split: prod.split_asm)
  obtain r2 s2 where c2: "call (wr_GetExecutionContext wr) s1 = (r2, s2)" by fastforce
  obtain wec where wec: "r2 = Inr wec" "gm_wf wec"
      "gm_get wec (sql_key cfg) = None \<or> is_count (snd (v (cs_world s))) (gm_get wec (sql_key cfg))"
    using assms(2) c2 v1 unfolding gives_count_def by (auto simp: call_def split: prod.split_asm) (metis fst_conv)
  let ?ec = "gm_merge wec (gm_merge rec NewExecutionContext)"
  have g: "is_count (snd (v (cs_world s))) (gm_get ?ec (sql_key cfg))"
    using rec(2,3) wec(2,3) by (auto simp: gm_get_merge is_count_def)
  then have ne: "?ec \<noteq> []" by (auto simp: is_count_def)
  have cs: "component_state st s = (Inr ?ec, s2)"
    using c1 c2 rec(1) wec(1) k(2) by (simp add: component_state_def merge_state_def)
  let ?cp = "\<lparr>cd_StepExecutionID = se_ID (cs_se s2), cd_ExecutionContext = put_counts a b ?ec,
      cd_LastUpdated = zero_time\<rparr>"
  obtain r3 s3 where c3: "call (jr_SaveCheckpointData st ?cp) s2 = (r3, s3)" by fastforce
  have "s' = emit [SavedCheckpoint ?cp] s3"
    using assms(4) cs ne c3 call_succeeds[OF c3 k(3)] by (simp add: saveCheckpoint_def Let_def)
  moreover have "gm_get (put_counts a b ?ec) (sql_key cfg) = gm_get ?ec (sql_key cfg)"
    by (rule put_counts_get[OF sql_key_not_count])
  ultimately show ?thesis using g by simp
qed

lemma streams_keep:
  assumes "all_works st wr v"
  shows "v (cs_world (update_streams st s)) = v (cs_world s)"
proof -
  have w: "st_writer st = Some wr" "opt_keeps v (rd_Update st)" "opt_keeps v (pr_Update st)" "opt_keeps v (wr_Update wr)"
    using assms unfolding all_works_def by auto
  have "obs v (update_streams st s) = obs v s" using w by (simp add: update_streams_def obs_stream)
  then show ?thesis by (simp add: obs_def)
qed

lemma commit_holds_count:
  assumes "all_works st wr v" "gives_count st wr cfg v" "0 < snd (v (cs_world s))"
    and "commit_chunk st t isEOF s = (res, s')"
  shows "\<exists>cp. last (cs_log s') = SavedCheckpoint cp
    \<and> is_count (snd (v (cs_world s))) (gm_get (cd_ExecutionContext cp) (sql_key cfg))"
proof -
  have w: "st_writer st = Some wr" "\<And>n. keeps v (db_Resolve st n)" "keeps v (tm_Commit st t)" "succeeds (tm_Commit st t)"
    using assms(1) unfolding all_works_def tx_works_def by auto
  have v0: "v (cs_world (verify_target st s)) = v (cs_world s)"
    by (simp add: verify_target_def w(1) call_keeps[OF prod.collapse[symmetric] w(2)])
  obtain r1 s1 where c1: "call (tm_Commit st t) (verify_target st s) = (r1, s1)" by fastforce
  have r1: "r1 = None" "v (cs_world s1) = v (cs_world s)"
    using call_succeeds[OF c1 w(4)] call_keeps[OF c1 w(3)] v0 by auto
  let ?s2 = "(emit [TxCommit t] s1)\<lparr>cs_commitCount := cs_commitCount (emit [TxCommit t] s1) + 1\<rparr>"
  let ?s3 = "emit [AfterChunk] (update_streams st ?s2)"
  have v3: "v (cs_world ?s3) = v (cs_world s)" using streams_keep[OF assms(1), of ?s2] r1(2) by simp
  obtain r4 s4 where sv: "saveCheckpoint st (cs_readCount ?s3) (cs_writeCount ?s3) ?s3 = (r4, s4)" by fastforce
  have "s' = s4" using assms(4) c1 r1(1) sv
    by (auto simp: commit_chunk_def commit_def Let_def split: option.split_asm)
  then show ?thesis using save_holds_count[OF assms(1,2) _ sv] assms(3) v3 by simp blast
qed

section \<open>Rounds\<close>

lemma write_phase_works:
  assumes "all_works st wr v" "write_phase st t items s = (r, s')"
  shows "r = WriteDone"
proof -
  have "st_writer st = Some wr" "succeeds (wr_Write wr t items)"
    using assms(1) unfolding all_works_def by auto
  then show ?thesis using assms(2) call_succeeds[of "wr_Write wr t items"]
    by (auto simp: write_phase_def write_chunk_def Let_def split: if_split_asm prod.split_asm option.split_asm)
qed

lemma round_sql:
  assumes "feeds_by st v (\<lambda>x. map f (fst x)) next_row p" "all_works st wr v" "gives_count st wr cfg v"
    and "0 < st_chunkSize st" "n = nat (st_chunkSize st)" "v (cs_world s) = (rows, c)" "0 \<le> c"
    and "fst (out_of s) = []" "chunk_round st s = (NextChunk, s')"
  shows "n \<le> length rows \<and> v (cs_world s') = (drop n rows, c + int n)
    \<and> out_of s' = ([], snd (out_of s) @ List.map_filter p (map f (take n rows)))
    \<and> (\<exists>cp. last (cs_log s') = SavedCheckpoint cp
         \<and> is_count (c + int n) (gm_get (cd_ExecutionContext cp) (sql_key cfg)))"
proof -
  have "map f (fst (v (cs_world s))) = map f rows" using assms(6) by simp
  from round_by[OF assms(1,2,4,5) this assms(8)] obtain s1 where
    r: "chunk_round st s = (if length rows < n then EndChunks None else NextChunk, s1)"
    and o: "obs v s1 = ((next_row ^^ min n (length rows)) (rows, c),
        cs_readCount s + int (min n (length rows)),
        cs_writeCount s + int (length (List.map_filter p (take n (map f rows)))),
        cs_commitCount s + (if map f rows = [] then 0 else 1),
        [], snd (out_of s) @ List.map_filter p (take n (map f rows)))" using assms(6) by auto
  have n: "n \<le> length rows" and s1: "s1 = s'" using r assms(9) by (auto split: if_split_asm)
  have v': "v (cs_world s') = (drop n rows, c + int n)"
    using o s1 n next_row_funpow[OF n] by (simp add: obs_def min_def)
  obtain t sa where b: "begin_chunk st s = (Inr t, sa)"
    using assms(9) by (auto simp: chunk_round_def split: prod.split_asm sum.split_asm)
  obtain lr sb where l: "read_loop st 0 [] sa = (lr, sb)" by fastforce
  obtain cnt items isEOF where le: "lr = LoopEnd cnt items isEOF" "\<not> (cnt = 0 \<and> items = [])"
    using assms(9) b l by (cases lr) (auto simp: chunk_round_def split: if_split_asm)
  obtain wr' sc where ph: "write_phase st t items sb = (wr', sc)" by fastforce
  have cm: "commit_chunk st t isEOF sc = (NextChunk, s')"
    using assms(9) b l le ph write_phase_works[OF assms(2) ph] by (auto simp: chunk_round_def)
  have "v (cs_world sc) = v (cs_world s')" using commit_works[OF assms(2), of t isEOF sc] cm by auto
  then have vc: "snd (v (cs_world sc)) = c + int n" using v' by simp
  then have "0 < snd (v (cs_world sc))" using assms(4,5,7) by simp
  from commit_holds_count[OF assms(2,3) this cm] show ?thesis
    using n v' o s1 vc by (simp add: obs_def take_map prod_eq_iff)
qed

lemma rounds_sql:
  assumes "feeds_by st v (\<lambda>x. map f (fst x)) next_row p" "all_works st wr v" "gives_count st wr cfg v"
    and "0 < st_chunkSize st" "n = nat (st_chunkSize st)"
  shows "run_rounds k st s = Some s' \<Longrightarrow> v (cs_world s) = (rows, c) \<Longrightarrow> 0 \<le> c \<Longrightarrow> fst (out_of s) = [] \<Longrightarrow>
    k * n \<le> length rows \<and> v (cs_world s') = (drop (k * n) rows, c + int (k * n))
    \<and> out_of s' = ([], snd (out_of s) @ List.map_filter p (map f (take (k * n) rows)))
    \<and> (0 < k \<longrightarrow> (\<exists>cp. last (cs_log s') = SavedCheckpoint cp
         \<and> is_count (c + int (k * n)) (gm_get (cd_ExecutionContext cp) (sql_key cfg))))"
proof (induction k arbitrary: s rows c)
  case 0
  then show ?case by (cases "out_of s") (simp add: map_filter_simps)
next
  case (Suc k)
  then obtain s1 where r: "chunk_round st s = (NextChunk, s1)" "run_rounds k st s1 = Some s'"
    by (auto split: prod.split_asm chunk_result.split_asm)
  note one = round_sql[OF assms(1-5) Suc.prems(2-4) r(1)]
  have "0 \<le> c + int n" "fst (out_of s1) = []" using one Suc.prems(3) by auto
  note rest = Suc.IH[OF r(2) _ this, of "drop n rows"]
  have len: "n \<le> length rows" "k * n \<le> length rows - n" "v (cs_world s1) = (drop n rows, c + int n)"
    using one rest by auto
  have tk: "take (Suc k * n) rows = take n rows @ take (k * n) (drop n rows)" by (simp add: take_add)
  have cp: "\<exists>cp. last (cs_log s') = SavedCheckpoint cp
      \<and> is_count (c + int (Suc k * n)) (gm_get (cd_ExecutionContext cp) (sql_key cfg))"
  proof (cases "k = 0")
    case True
    then have "s' = s1" using r(2) by simp
    then show ?thesis using one True by simp
  next
    case False
    then show ?thesis using rest len(3) by (simp add: algebra_simps)
  qed
  show ?case using one rest len cp tk by (simp add: map_filter_append algebra_simps)
qed


text \<open>A step over the table of numbers, whose world is the state of its reader.\<close>

definition demo_cfg :: "(nat, nat) SqlCursorReader" where
  "demo_cfg = demo_reader\<lparr>sr_mapper := Inr\<rparr>"

definition sql_writer :: "(nat list \<times> int, nat) writer_ops" where
  "sql_writer = \<lparr>wr_Open = \<lambda>ec w. (None, w), wr_Write = \<lambda>t items w. (None, w), wr_Close = \<lambda>w. (None, w),
     wr_GetExecutionContext = \<lambda>w. (Inr [], w), wr_GetTargetResourceName = ''db'', wr_GetResourcePath = ''t'',
     wr_Update = None\<rparr>"

definition sql_step :: "(nat list \<times> int, nat, nat) chunk_step" where
  "sql_step = \<lparr>st_id = ''step'', st_chunkSize = 2, st_itemRetryPolicy = RetryPolicy_Create 3 0 [],
     st_registry = init_registry, rd_Open = \<lambda>ec w. (None, w),
     rd_Read = \<lambda>w. case Sql_Read (\<lambda>a. []) (live demo_cfg w) of (x, h, r) \<Rightarrow> (x, rows_and_count r),
     rd_Close = \<lambda>w. (None, w),
     rd_GetExecutionContext = \<lambda>w. (Inr [(sql_key demo_cfg, VInt (snd w))], w), rd_Update = None,
     pr_Process = \<lambda>i w. (Inr (if i = 13 then None else Some i), w), pr_Update = None, st_writer = Some sql_writer,
     db_Resolve = \<lambda>n w. (Inr True, w), tm_Begin = \<lambda>w. (Inr 0, w),
     tm_Commit = \<lambda>t w. (None, w), tm_Rollback = \<lambda>t w. w, bw_Wait = \<lambda>d w. (None, w),
     jr_UpdateStepExecution = \<lambda>se w. ((None, se), w), jr_FindCheckpointData = \<lambda>i w. (Inr None, w),
     jr_SaveCheckpointData = \<lambda>cp w. (None, w), cv_OutOfRange = \<lambda>f. 0, time_Now = \<lambda>w. (1, w)\<rparr>"

definition sql_state :: "nat list \<Rightarrow> int \<Rightarrow> (nat list \<times> int, nat, nat) cstate" where
  "sql_state rows c = \<lparr>cs_world = (rows, c), cs_se = zero_StepExecution, cs_skip = SkipPolicy_Create 0 [],
     cs_readCount = 0, cs_writeCount = 0, cs_commitCount = 0, cs_log = []\<rparr>"

lemma sql_step_reads: "reads_sql sql_step demo_cfg (\<lambda>w. w)"
proof -
  have "fst (Sql_Read h (live demo_cfg w)) = fst (Sql_Read h' (live demo_cfg w))
      \<and> snd (snd (Sql_Read h (live demo_cfg w))) = snd (snd (Sql_Read h' (live demo_cfg w)))" for h h' w
    by (auto simp: Sql_Read_def live_def demo_cfg_def Let_def split: list.split)
  note same = this
  show ?thesis unfolding reads_sql_def
  proof (intro allI)
    fix w and h :: heap
    obtain x h' r where r: "Sql_Read (\<lambda>a. []) (live demo_cfg w) = (x, h', r)" by (metis prod_cases3)
    show "\<exists>w'. rd_Read sql_step w = (fst (Sql_Read h (live demo_cfg w)), w')
       \<and> w' = rows_and_count (snd (snd (Sql_Read h (live demo_cfg w))))"
      using r same[of h w "\<lambda>a. []"] by (simp add: sql_step_def)
  qed
qed

lemma sql_step_works: "all_works sql_step sql_writer (\<lambda>w. w)" "gives_count sql_step sql_writer demo_cfg (\<lambda>w. w)"
  by (simp_all add: all_works_def tx_works_def sql_step_def sql_writer_def keeps_def succeeds_def opt_keeps_def
      gives_count_def is_count_def gm_wf_def)


end
