(* ===== verification/SQL_Repository.thy ===== *)
theory SQL_Repository
  imports Mem_Repository
begin

text \<open>
  \<open>infrastructure/repository/sql\<close>: the job repository on a relational database: the entities of
  \<open>schema.go\<close>, the mappers of \<open>mapper.go\<close> and every operation of \<open>repository.go\<close>.

  The database connection is a parameter, the record \<open>sql_repo\<close>: \<open>ExecuteUpdate\<close> and the queries
  run SQL through a third party's mapper. Its fields are the calls the repository makes, one for
  each type of target of \<open>ExecuteQueryAdvanced\<close>. What the theorems need of a database is
  \<open>versioned_rows\<close>, that an update names its row by identifier and version and changes it or
  nothing, and \<open>latest_row\<close>, that an ordered query with limit one returns a row no other comes
  before. Arguments are not nil.
\<close>

section \<open>Entities and mappers\<close>

record JobInstanceEntity =
  jie_ID :: string
  jie_JobName :: string
  jie_Parameters :: JobParameters
  jie_CreateTime :: time
  jie_Version :: int
  jie_ParametersHash :: string

record JobExecutionEntity =
  jee_ID :: string
  jee_JobInstanceID :: string
  jee_JobName :: string
  jee_Parameters :: JobParameters
  jee_StartTime :: time
  jee_EndTime :: "time option"
  jee_Status :: JobStatus
  jee_ExitStatus :: ExitStatus
  jee_ExitCode :: int
  jee_Failures :: "string list"
  jee_Version :: int
  jee_CreateTime :: time
  jee_LastUpdated :: time
  jee_ExecutionContext :: ec
  jee_CurrentStepName :: string
  jee_RestartCount :: int

record StepExecutionEntity =
  see_ID :: string
  see_StepName :: string
  see_JobExecutionID :: string
  see_StartTime :: time
  see_EndTime :: "time option"
  see_Status :: JobStatus
  see_ExitStatus :: ExitStatus
  see_Failures :: "string list"
  see_ReadCount :: int
  see_WriteCount :: int
  see_CommitCount :: int
  see_RollbackCount :: int
  see_FilterCount :: int
  see_SkipReadCount :: int
  see_SkipProcessCount :: int
  see_SkipWriteCount :: int
  see_ExecutionContext :: ec
  see_LastUpdated :: time
  see_Version :: int

record CheckpointDataEntity =
  cde_StepExecutionID :: string
  cde_ExecutionContext :: ec
  cde_LastUpdated :: time

definition fromDomainJobInstance :: "JobInstance \<Rightarrow> JobInstanceEntity" where
  "fromDomainJobInstance ji =
     \<lparr>jie_ID = ji_ID ji, jie_JobName = ji_JobName ji, jie_Parameters = ji_Parameters ji,
      jie_CreateTime = ji_CreateTime ji, jie_Version = ji_Version ji,
      jie_ParametersHash = ji_ParametersHash ji\<rparr>"

definition toDomainJobInstance :: "JobInstanceEntity \<Rightarrow> JobInstance" where
  "toDomainJobInstance e =
     \<lparr>ji_ID = jie_ID e, ji_JobName = jie_JobName e, ji_Parameters = jie_Parameters e,
      ji_ParametersHash = jie_ParametersHash e, ji_Version = jie_Version e,
      ji_CreateTime = jie_CreateTime e\<rparr>"

definition fromDomainJobExecution :: "JobExecution \<Rightarrow> JobExecutionEntity" where
  "fromDomainJobExecution je =
     \<lparr>jee_ID = je_ID je, jee_JobInstanceID = je_JobInstanceID je, jee_JobName = je_JobName je,
      jee_Parameters = je_Parameters je, jee_StartTime = je_StartTime je,
      jee_EndTime = je_EndTime je, jee_Status = je_Status je, jee_ExitStatus = je_ExitStatus je,
      jee_ExitCode = je_ExitCode je, jee_Failures = je_Failures je, jee_Version = je_Version je,
      jee_CreateTime = je_CreateTime je, jee_LastUpdated = je_LastUpdated je,
      jee_ExecutionContext = je_ExecutionContext je, jee_CurrentStepName = je_CurrentStepName je,
      jee_RestartCount = je_RestartCount je\<rparr>"

definition toDomainJobExecution :: "JobExecutionEntity \<Rightarrow> JobExecution" where
  "toDomainJobExecution e =
     \<lparr>je_ID = jee_ID e, je_JobInstanceID = jee_JobInstanceID e, je_JobName = jee_JobName e,
      je_Status = jee_Status e, je_ExitStatus = jee_ExitStatus e, je_ExitCode = jee_ExitCode e,
      je_StartTime = jee_StartTime e, je_EndTime = jee_EndTime e,
      je_CreateTime = jee_CreateTime e, je_LastUpdated = jee_LastUpdated e,
      je_ExecutionContext = jee_ExecutionContext e, je_Parameters = jee_Parameters e,
      je_Failures = jee_Failures e, je_Version = jee_Version e,
      je_RestartCount = jee_RestartCount e, je_StepExecutions = [],
      je_CurrentStepName = jee_CurrentStepName e\<rparr>"

definition fromDomainStepExecution :: "StepExecution \<Rightarrow> StepExecutionEntity" where
  "fromDomainStepExecution se =
     \<lparr>see_ID = se_ID se, see_StepName = se_StepName se, see_JobExecutionID = se_JobExecutionID se,
      see_StartTime = se_StartTime se, see_EndTime = se_EndTime se, see_Status = se_Status se,
      see_ExitStatus = se_ExitStatus se, see_Failures = se_Failures se,
      see_ReadCount = se_ReadCount se, see_WriteCount = se_WriteCount se,
      see_CommitCount = se_CommitCount se, see_RollbackCount = se_RollbackCount se,
      see_FilterCount = se_FilterCount se, see_SkipReadCount = se_SkipReadCount se,
      see_SkipProcessCount = se_SkipProcessCount se, see_SkipWriteCount = se_SkipWriteCount se,
      see_ExecutionContext = se_ExecutionContext se, see_LastUpdated = se_LastUpdated se,
      see_Version = se_Version se\<rparr>"

definition toDomainStepExecution :: "StepExecutionEntity \<Rightarrow> StepExecution" where
  "toDomainStepExecution e =
     \<lparr>se_ID = see_ID e, se_StepName = see_StepName e, se_JobExecutionID = see_JobExecutionID e,
      se_Status = see_Status e, se_ExitStatus = see_ExitStatus e, se_StartTime = see_StartTime e,
      se_EndTime = see_EndTime e, se_LastUpdated = see_LastUpdated e,
      se_ExecutionContext = see_ExecutionContext e, se_ReadCount = see_ReadCount e,
      se_WriteCount = see_WriteCount e, se_CommitCount = see_CommitCount e,
      se_RollbackCount = see_RollbackCount e, se_FilterCount = see_FilterCount e,
      se_SkipReadCount = see_SkipReadCount e, se_SkipProcessCount = see_SkipProcessCount e,
      se_SkipWriteCount = see_SkipWriteCount e, se_Failures = see_Failures e,
      se_Version = see_Version e\<rparr>"

definition fromDomainCheckpointData :: "CheckpointData \<Rightarrow> CheckpointDataEntity" where
  "fromDomainCheckpointData cd =
     \<lparr>cde_StepExecutionID = cd_StepExecutionID cd, cde_ExecutionContext = cd_ExecutionContext cd,
      cde_LastUpdated = cd_LastUpdated cd\<rparr>"

definition toDomainCheckpointData :: "CheckpointDataEntity \<Rightarrow> CheckpointData" where
  "toDomainCheckpointData e =
     \<lparr>cd_StepExecutionID = cde_StepExecutionID e, cd_ExecutionContext = cde_ExecutionContext e,
      cd_LastUpdated = cde_LastUpdated e\<rparr>"

lemmas mapper_defs = fromDomainJobInstance_def toDomainJobInstance_def fromDomainJobExecution_def
  toDomainJobExecution_def fromDomainStepExecution_def toDomainStepExecution_def
  fromDomainCheckpointData_def toDomainCheckpointData_def

text \<open>A row of any of the four tables, what \<open>ExecuteUpdate\<close> is given.\<close>

datatype entity =
    EntJobInstance JobInstanceEntity
  | EntJobExecution JobExecutionEntity
  | EntStepExecution StepExecutionEntity
  | EntCheckpointData CheckpointDataEntity

fun TableName :: "entity \<Rightarrow> string" where
  "TableName (EntJobInstance e) = ''batch_job_instance''"
| "TableName (EntJobExecution e) = ''batch_job_execution''"
| "TableName (EntStepExecution e) = ''batch_step_execution''"
| "TableName (EntCheckpointData e) = ''batch_checkpoint_data''"

section \<open>The repository\<close>

datatype sql_val = SqlString string | SqlInt int

type_synonym sql_query = "(string \<times> sql_val) list"

text \<open>The transaction of the context, or the connection of the repository.\<close>

datatype executor = TxOfContext | DBConnection

text \<open>
  \<open>inTx\<close> is whether the context holds a transaction. \<open>ResolveConnection\<close> returns an error or
  whether the resource is a \<open>database.DBConnection\<close>. The queries return what they leave in their
  target.
\<close>

record 'w sql_repo =
  dbName :: string
  schema :: string
  inTx :: bool
  sql_Now :: "'w \<Rightarrow> time \<times> 'w"
  ResolveConnection :: "string \<Rightarrow> 'w \<Rightarrow> (goerr + bool) \<times> 'w"
  IsTableNotExistError :: "goerr \<Rightarrow> bool"
  ExecuteUpdate :: "executor \<Rightarrow> entity \<Rightarrow> string \<Rightarrow> string \<Rightarrow> sql_query \<Rightarrow> 'w \<Rightarrow> (goerr + int) \<times> 'w"
  ExecuteUpsert :: "executor \<Rightarrow> entity \<Rightarrow> string \<Rightarrow> string list \<Rightarrow> string list \<Rightarrow> 'w \<Rightarrow> (goerr + int) \<times> 'w"
  ExecuteQuery :: "sql_query \<Rightarrow> 'w \<Rightarrow> (goerr + JobInstanceEntity list) \<times> 'w"
  QueryInstances :: "sql_query \<Rightarrow> string \<Rightarrow> nat \<Rightarrow> 'w \<Rightarrow> (goerr + JobInstanceEntity list) \<times> 'w"
  QueryExecutions :: "sql_query \<Rightarrow> string \<Rightarrow> nat \<Rightarrow> 'w \<Rightarrow> (goerr + JobExecutionEntity list) \<times> 'w"
  QuerySteps :: "sql_query \<Rightarrow> string \<Rightarrow> nat \<Rightarrow> 'w \<Rightarrow> (goerr + StepExecutionEntity list) \<times> 'w"
  QueryCheckpoints :: "sql_query \<Rightarrow> string \<Rightarrow> nat \<Rightarrow> 'w \<Rightarrow> (goerr + CheckpointDataEntity list) \<times> 'w"
  CountInstances :: "sql_query \<Rightarrow> 'w \<Rightarrow> (goerr + int) \<times> 'w"
  PluckInstances :: "string \<Rightarrow> 'w \<Rightarrow> (goerr + string list) \<times> 'w"

definition getFullTableName :: "'w sql_repo \<Rightarrow> string \<Rightarrow> string" where
  "getFullTableName r tableName =
     (if schema r \<noteq> [] then schema r @ ''.'' @ tableName else tableName)"

definition getDBConnection :: "'w sql_repo \<Rightarrow> 'w \<Rightarrow> goerr option \<times> 'w" where
  "getDBConnection r w = (case ResolveConnection r (dbName r) w of
       (Inl err, w) \<Rightarrow> (Some (NewBatchError ''SQLJobRepository''
           (''Failed to resolve DB connection '' @ quoted (dbName r)) (Some err) False False), w)
     | (Inr ok, w) \<Rightarrow>
         (if ok then None else Some (NewBatchError ''SQLJobRepository''
           (''Resolved connection '' @ quoted (dbName r) @ '' is not a database.DBConnection'')
           None False False), w))"

definition getTxExecutor :: "'w sql_repo \<Rightarrow> 'w \<Rightarrow> (goerr + executor) \<times> 'w" where
  "getTxExecutor r w =
     (if inTx r then (Inr TxOfContext, w)
      else (case getDBConnection r w of
              (Some err, w) \<Rightarrow> (Inl err, w) | (None, w) \<Rightarrow> (Inr DBConnection, w)))"

section \<open>Saving and updating\<close>

text \<open>What the three \<open>Save\<close> operations share: the executor and the statement.\<close>

definition create_row :: "'w sql_repo \<Rightarrow> string \<Rightarrow> string \<Rightarrow> entity \<Rightarrow> 'w \<Rightarrow> goerr option \<times> 'w" where
  "create_row r op msg entity w = (case getTxExecutor r w of
       (Inl err, w) \<Rightarrow> (Some err, w)
     | (Inr ex, w) \<Rightarrow>
         (case ExecuteUpdate r ex entity ''CREATE'' (getFullTableName r (TableName entity)) [] w of
            (Inl err, w) \<Rightarrow> (Some (NewBatchError op msg (Some err) True False), w)
          | (Inr _, w) \<Rightarrow> (None, w)))"

definition sql_SaveJobInstance :: "'w sql_repo \<Rightarrow> JobInstance \<Rightarrow> 'w \<Rightarrow> goerr option \<times> 'w" where
  "sql_SaveJobInstance r ji = create_row r ''SQLJobRepository.SaveJobInstance''
     (''failed to save JobInstance (ID: '' @ ji_ID ji @ '')'')
     (EntJobInstance (fromDomainJobInstance ji))"

definition sql_SaveJobExecution :: "'w sql_repo \<Rightarrow> JobExecution \<Rightarrow> 'w \<Rightarrow> goerr option \<times> 'w" where
  "sql_SaveJobExecution r je = create_row r ''SQLJobRepository.SaveJobExecution''
     (''failed to save JobExecution (ID: '' @ je_ID je @ '')'')
     (EntJobExecution (fromDomainJobExecution je))"

definition sql_SaveStepExecution :: "'w sql_repo \<Rightarrow> StepExecution \<Rightarrow> 'w \<Rightarrow> goerr option \<times> 'w" where
  "sql_SaveStepExecution r se = create_row r ''SQLJobRepository.SaveStepExecution''
     (''failed to save StepExecution (ID: '' @ se_ID se @ '')'')
     (EntStepExecution (fromDomainStepExecution se))"

text \<open>
  What the three \<open>Update\<close> operations share: the executor, the statement and its errors. The
  result tells whether the caller's version is restored: it is not when there is no executor.
\<close>

datatype update_result = NoExecutor goerr | Refused goerr | Updated

definition update_row :: "'w sql_repo \<Rightarrow> string \<Rightarrow> string \<Rightarrow> string \<Rightarrow> entity \<Rightarrow> int \<Rightarrow> 'w \<Rightarrow>
    update_result \<times> 'w" where
  "update_row r op what key entity originalVersion w = (case getTxExecutor r w of
       (Inl err, w) \<Rightarrow> (NoExecutor err, w)
     | (Inr ex, w) \<Rightarrow>
         (case ExecuteUpdate r ex entity ''UPDATE'' (getFullTableName r (TableName entity))
             [(''version'', SqlInt originalVersion)] w of
            (Inl err, w) \<Rightarrow> (Refused (NewBatchError op
                (''failed to update '' @ what @ '' (ID: '' @ key @ '')'') (Some err) True False), w)
          | (Inr rowsAffected, w) \<Rightarrow>
              (if rowsAffected = 0
               then Refused (NewOptimisticLockingFailureException ''repository''
                 (what @ '' (ID: '' @ key @ '') with version '' @ int_str originalVersion
                   @ '' not found for update'') None)
               else Updated, w)))"

definition sql_UpdateJobInstance ::
  "'w sql_repo \<Rightarrow> JobInstance \<Rightarrow> 'w \<Rightarrow> (goerr option \<times> JobInstance) \<times> 'w" where
  "sql_UpdateJobInstance r ji w =
     (let originalVersion = ji_Version ji;
          ji = ji\<lparr>ji_Version := ji_Version ji + 1\<rparr>
      in case update_row r ''SQLJobRepository.UpdateJobInstance'' ''JobInstance'' (ji_ID ji)
             (EntJobInstance (fromDomainJobInstance ji)) originalVersion w of
           (NoExecutor err, w) \<Rightarrow> ((Some err, ji), w)
         | (Refused err, w) \<Rightarrow> ((Some err, ji\<lparr>ji_Version := originalVersion\<rparr>), w)
         | (Updated, w) \<Rightarrow> ((None, ji), w))"

definition sql_UpdateJobExecution ::
  "'w sql_repo \<Rightarrow> JobExecution \<Rightarrow> 'w \<Rightarrow> (goerr option \<times> JobExecution) \<times> 'w" where
  "sql_UpdateJobExecution r je w =
     (let originalVersion = je_Version je; (now, w) = sql_Now r w;
          je = je\<lparr>je_Version := je_Version je + 1, je_LastUpdated := now\<rparr>
      in case update_row r ''SQLJobRepository.UpdateJobExecution'' ''JobExecution'' (je_ID je)
             (EntJobExecution (fromDomainJobExecution je)) originalVersion w of
           (NoExecutor err, w) \<Rightarrow> ((Some err, je), w)
         | (Refused err, w) \<Rightarrow> ((Some err, je\<lparr>je_Version := originalVersion\<rparr>), w)
         | (Updated, w) \<Rightarrow> ((None, je), w))"

definition sql_UpdateStepExecution ::
  "'w sql_repo \<Rightarrow> StepExecution \<Rightarrow> 'w \<Rightarrow> (goerr option \<times> StepExecution) \<times> 'w" where
  "sql_UpdateStepExecution r se w =
     (let originalVersion = se_Version se; (now, w) = sql_Now r w;
          se = se\<lparr>se_Version := se_Version se + 1, se_LastUpdated := now\<rparr>
      in case update_row r ''SQLJobRepository.UpdateStepExecution'' ''StepExecution'' (se_ID se)
             (EntStepExecution (fromDomainStepExecution se)) originalVersion w of
           (NoExecutor err, w) \<Rightarrow> ((Some err, se), w)
         | (Refused err, w) \<Rightarrow> ((Some err, se\<lparr>se_Version := originalVersion\<rparr>), w)
         | (Updated, w) \<Rightarrow> ((None, se), w))"

definition sql_SaveCheckpointData ::
  "'w sql_repo \<Rightarrow> CheckpointData \<Rightarrow> 'w \<Rightarrow> (goerr option \<times> CheckpointData) \<times> 'w" where
  "sql_SaveCheckpointData r data w =
     (let (data, w) = (if cd_LastUpdated data = zero_time
            then (let (now, w) = sql_Now r w in (data\<lparr>cd_LastUpdated := now\<rparr>, w)) else (data, w));
          entity = EntCheckpointData (fromDomainCheckpointData data)
      in case getTxExecutor r w of
           (Inl err, w) \<Rightarrow> ((Some err, data), w)
         | (Inr ex, w) \<Rightarrow>
             (case ExecuteUpsert r ex entity (getFullTableName r (TableName entity))
                 [''step_execution_id''] [''execution_context'', ''last_updated''] w of
                (Inl err, w) \<Rightarrow> ((Some (NewBatchError ''SQLJobRepository.SaveCheckpointData''
                    (''failed to save CheckpointData for StepExecution (ID: ''
                      @ cd_StepExecutionID data @ '')'') (Some err) True False), data), w)
              | (Inr _, w) \<Rightarrow> ((None, data), w)))"

section \<open>Searching\<close>

text \<open>
  The frame of every search: the connection, the query, the error that the table does not exist
  (\<open>missing\<close>) and every other error.
\<close>

definition run_query :: "'w sql_repo \<Rightarrow> string \<Rightarrow> string \<Rightarrow> goerr + 'b \<Rightarrow>
    ('w \<Rightarrow> (goerr + 'a) \<times> 'w) \<Rightarrow> ('a \<Rightarrow> goerr + 'b) \<Rightarrow> 'w \<Rightarrow> (goerr + 'b) \<times> 'w" where
  "run_query r op msg missing query k w = (case getDBConnection r w of
       (Some err, w) \<Rightarrow> (Inl err, w)
     | (None, w) \<Rightarrow> (case query w of
           (Inl err, w) \<Rightarrow> (if IsTableNotExistError r err then missing
               else Inl (NewBatchError op msg (Some err) True False), w)
         | (Inr a, w) \<Rightarrow> (k a, w)))"

text \<open>
  A single struct as target: it stays zero when no row is found, and a zero identifier is taken
  for no row.
\<close>

definition single_row :: "('e \<Rightarrow> string) \<Rightarrow> ('e \<Rightarrow> 'd) \<Rightarrow> goerr \<Rightarrow> 'e list \<Rightarrow> goerr + 'd" where
  "single_row key toDomain notFound es = (case es of
       [] \<Rightarrow> Inl notFound
     | e # _ \<Rightarrow> (if key e = [] then Inl notFound else Inr (toDomain e)))"

definition sql_FindJobInstanceByID :: "'w sql_repo \<Rightarrow> string \<Rightarrow> 'w \<Rightarrow> (goerr + JobInstance) \<times> 'w" where
  "sql_FindJobInstanceByID r key = run_query r ''SQLJobRepository.FindJobInstanceByID''
     (''failed to find JobInstance by ID: '' @ key) (Inl ErrJobInstanceNotFound)
     (QueryInstances r [(''id'', SqlString key)] [] 1)
     (single_row jie_ID toDomainJobInstance ErrJobInstanceNotFound)"

text \<open>\<open>hash\<close> is \<open>JobParameters.Hash\<close>, \<open>eq\<close> is \<open>JobParameters.Equal\<close> with its printers.\<close>

definition sql_FindJobInstanceByJobNameAndParameters ::
  "(JobParameters \<Rightarrow> goerr + string) \<Rightarrow> (JobParameters \<Rightarrow> JobParameters \<Rightarrow> bool) \<Rightarrow> 'w sql_repo \<Rightarrow>
     string \<Rightarrow> JobParameters \<Rightarrow> 'w \<Rightarrow> (goerr + JobInstance) \<times> 'w" where
  "sql_FindJobInstanceByJobNameAndParameters hash eq r jobName params w =
     (let op = ''SQLJobRepository.FindJobInstanceByJobNameAndParameters'' in
      case hash params of
        Inl err \<Rightarrow> (Inl (NewBatchError op ''failed to calculate JobParameters hash'' (Some err) False False), w)
      | Inr h \<Rightarrow> run_query r op ''failed to find JobInstance'' (Inl ErrJobInstanceNotFound)
          (ExecuteQuery r [(''job_name'', SqlString jobName), (''parameters_hash'', SqlString h)])
          (\<lambda>entities. case find (\<lambda>ji. eq (ji_Parameters ji) params) (map toDomainJobInstance entities) of
             Some ji \<Rightarrow> Inr ji | None \<Rightarrow> Inl ErrJobInstanceNotFound) w)"

text \<open>\<open>Inr None\<close>: a comparison of parameters panicked.\<close>

fun containing :: "JobParameters \<Rightarrow> JobInstance list \<Rightarrow> JobInstance list option" where
  "containing params [] = Some []"
| "containing params (ji # jis) = (case JobParameters_Contains (ji_Parameters ji) params of
       None \<Rightarrow> None
     | Some b \<Rightarrow> map_option (\<lambda>rest. if b then ji # rest else rest) (containing params jis))"

definition sql_FindJobInstancesByJobNameAndPartialParameters ::
  "'w sql_repo \<Rightarrow> string \<Rightarrow> JobParameters \<Rightarrow> 'w \<Rightarrow> (goerr + JobInstance list option) \<times> 'w" where
  "sql_FindJobInstancesByJobNameAndPartialParameters r jobName partialParams =
     run_query r ''SQLJobRepository.FindJobInstancesByJobNameAndPartialParameters''
       ''failed to find JobInstances by job name'' (Inr (Some []))
       (QueryInstances r [(''job_name'', SqlString jobName)] ''create_time desc'' 0)
       (\<lambda>entities. Inr (containing partialParams (map toDomainJobInstance entities)))"

definition sql_GetJobInstanceCount :: "'w sql_repo \<Rightarrow> string \<Rightarrow> 'w \<Rightarrow> (goerr + int) \<times> 'w" where
  "sql_GetJobInstanceCount r jobName = run_query r ''SQLJobRepository.GetJobInstanceCount''
     ''failed to count JobInstances'' (Inr 0)
     (CountInstances r [(''job_name'', SqlString jobName)]) Inr"

definition sql_GetJobNames :: "'w sql_repo \<Rightarrow> 'w \<Rightarrow> (goerr + string list) \<times> 'w" where
  "sql_GetJobNames r = run_query r ''SQLJobRepository.GetJobNames''
     ''failed to pluck job names'' (Inr []) (PluckInstances r ''job_name'') Inr"

definition sql_FindStepExecutionsByJobExecutionID ::
  "'w sql_repo \<Rightarrow> string \<Rightarrow> 'w \<Rightarrow> (goerr + StepExecution list) \<times> 'w" where
  "sql_FindStepExecutionsByJobExecutionID r jobExecutionID =
     run_query r ''SQLJobRepository.FindStepExecutionsByJobExecutionID''
       (''failed to find StepExecutions by JobExecution ID: '' @ jobExecutionID) (Inr [])
       (QuerySteps r [(''job_execution_id'', SqlString jobExecutionID)] ''start_time asc'' 0)
       (\<lambda>entities. Inr (map toDomainStepExecution entities))"

text \<open>An error of the query for the steps is logged and leaves the execution without steps.\<close>

definition load_steps :: "'w sql_repo \<Rightarrow> JobExecution \<Rightarrow> string \<Rightarrow> 'w \<Rightarrow> JobExecution \<times> 'w" where
  "load_steps r je executionID w = (case sql_FindStepExecutionsByJobExecutionID r executionID w of
       (Inl err, w) \<Rightarrow> (je, w)
     | (Inr steps, w) \<Rightarrow> (je\<lparr>je_StepExecutions := steps\<rparr>, w))"

definition sql_FindJobExecutionByID :: "'w sql_repo \<Rightarrow> string \<Rightarrow> 'w \<Rightarrow> (goerr + JobExecution) \<times> 'w" where
  "sql_FindJobExecutionByID r executionID w =
     (case run_query r ''SQLJobRepository.FindJobExecutionByID''
        (''failed to find JobExecution by ID: '' @ executionID) (Inl ErrJobExecutionNotFound)
        (QueryExecutions r [(''id'', SqlString executionID)] [] 1)
        (single_row jee_ID toDomainJobExecution ErrJobExecutionNotFound) w of
        (Inl err, w) \<Rightarrow> (Inl err, w)
      | (Inr je, w) \<Rightarrow> (let (je, w) = load_steps r je executionID w in (Inr je, w)))"

definition sql_FindLatestRestartableJobExecution ::
  "'w sql_repo \<Rightarrow> string \<Rightarrow> 'w \<Rightarrow> (goerr + JobExecution) \<times> 'w" where
  "sql_FindLatestRestartableJobExecution r jobInstanceID w =
     (case run_query r ''SQLJobRepository.FindLatestRestartableJobExecution''
        (''failed to find latest JobExecution for JobInstance ID: '' @ jobInstanceID)
        (Inl ErrJobExecutionNotFound)
        (QueryExecutions r [(''job_instance_id'', SqlString jobInstanceID)] ''create_time desc'' 1)
        (single_row jee_ID toDomainJobExecution ErrJobExecutionNotFound) w of
        (Inl err, w) \<Rightarrow> (Inl err, w)
      | (Inr je, w) \<Rightarrow>
          (let (je, w) = load_steps r je (je_ID je) w
           in (if je_Status je = FAILED \<or> je_Status je = STOPPED then Inr je
               else Inl ErrJobExecutionNotFound, w)))"

definition sql_FindJobExecutionsByJobInstance ::
  "'w sql_repo \<Rightarrow> JobInstance \<Rightarrow> 'w \<Rightarrow> (goerr + JobExecution list) \<times> 'w" where
  "sql_FindJobExecutionsByJobInstance r ji =
     run_query r ''SQLJobRepository.FindJobExecutionsByJobInstance''
       (''failed to find JobExecutions for JobInstance ID: '' @ ji_ID ji) (Inr [])
       (QueryExecutions r [(''job_instance_id'', SqlString (ji_ID ji))] ''create_time desc'' 0)
       (\<lambda>entities. Inr (map toDomainJobExecution entities))"

definition sql_FindStepExecutionByID :: "'w sql_repo \<Rightarrow> string \<Rightarrow> 'w \<Rightarrow> (goerr + StepExecution) \<times> 'w" where
  "sql_FindStepExecutionByID r executionID =
     run_query r ''SQLJobRepository.FindStepExecutionByID''
       (''failed to find StepExecution by ID: '' @ executionID) (Inl ErrStepExecutionNotFound)
       (QuerySteps r [(''id'', SqlString executionID)] [] 1)
       (single_row see_ID toDomainStepExecution ErrStepExecutionNotFound)"

definition sql_FindCheckpointData :: "'w sql_repo \<Rightarrow> string \<Rightarrow> 'w \<Rightarrow> (goerr + CheckpointData) \<times> 'w" where
  "sql_FindCheckpointData r stepExecutionID =
     run_query r ''SQLJobRepository.FindCheckpointData''
       (''failed to find CheckpointData by StepExecution ID: '' @ stepExecutionID)
       (Inl ErrCheckpointDataNotFound)
       (QueryCheckpoints r [(''step_execution_id'', SqlString stepExecutionID)] [] 1)
       (single_row cde_StepExecutionID toDomainCheckpointData ErrCheckpointDataNotFound)"

section \<open>Mappers\<close>

text \<open>
  Mapping to a row and back loses nothing of an instance, a step execution and a checkpoint,
  and of a job execution only its list of steps, which the repository loads from their own table;
  every row is the image of what it is mapped to.
\<close>

theorem sql_mapper_round_trip:
  "toDomainJobInstance (fromDomainJobInstance ji) = ji
   \<and> toDomainStepExecution (fromDomainStepExecution se) = se
   \<and> toDomainCheckpointData (fromDomainCheckpointData cd) = cd
   \<and> toDomainJobExecution (fromDomainJobExecution je) = je\<lparr>je_StepExecutions := []\<rparr>
   \<and> fromDomainJobInstance (toDomainJobInstance ei) = ei
   \<and> fromDomainStepExecution (toDomainStepExecution es) = es
   \<and> fromDomainCheckpointData (toDomainCheckpointData ec) = ec
   \<and> fromDomainJobExecution (toDomainJobExecution ee) = ee"
  by (simp add: mapper_defs)

section \<open>Optimistic locking\<close>

lemma locking_failure_recognised:
  "IsOptimisticLockingFailure (Some (NewOptimisticLockingFailureException m t None))"
  by (simp add: IsOptimisticLockingFailure_def NewOptimisticLockingFailureException_def
      NewBatchError_def ErrOptimisticLockingFailure_def plain_error_def)

text \<open>
  The result of an update and the version \<open>v'\<close> it leaves in the caller's object of version \<open>v\<close>;
  \<open>ex\<close> is the outcome of \<open>getTxExecutor\<close>.
\<close>

definition version_outcome :: "goerr + executor \<Rightarrow> int \<Rightarrow> goerr option \<Rightarrow> int \<Rightarrow> bool" where
  "version_outcome ex v res v' \<longleftrightarrow> (case ex of
       Inl err \<Rightarrow> res = Some err \<and> v' = v + 1
     | Inr _ \<Rightarrow> (case res of
           None \<Rightarrow> v' = v + 1
         | Some err \<Rightarrow> v' = v \<and> (IsOptimisticLockingFailure res \<or> BatchError_IsSkippable err)))"

lemma update_row_cases:
  assumes "update_row r op what key ent v w = (u, w')"
  shows "case u of
     NoExecutor err \<Rightarrow> fst (getTxExecutor r w) = Inl err
   | Refused err \<Rightarrow> (\<exists>ex. fst (getTxExecutor r w) = Inr ex)
       \<and> (IsOptimisticLockingFailure (Some err) \<or> BatchError_IsSkippable err)
   | Updated \<Rightarrow> \<exists>ex. fst (getTxExecutor r w) = Inr ex"
  using assms by (auto simp: update_row_def locking_failure_recognised NewBatchError_def
      split: prod.splits sum.splits if_splits)

text \<open>
  An update of the SQL repository leaves everything of the caller's object but its version and
  its time of change as it was. The version grows by one when the row was updated and is restored
  when the statement failed (an error marked skippable) or met no row of that version (an
  optimistic locking failure), but it stays incremented when no connection could be resolved,
  although nothing was written.
\<close>

theorem sql_update_outcome:
  "(case sql_UpdateStepExecution r se w of ((res, se'), w') \<Rightarrow>
      se' = se\<lparr>se_Version := se_Version se', se_LastUpdated := fst (sql_Now r w)\<rparr>
      \<and> version_outcome (fst (getTxExecutor r (snd (sql_Now r w)))) (se_Version se) res (se_Version se'))
   \<and> (case sql_UpdateJobExecution r je w of ((res, je'), w') \<Rightarrow>
      je' = je\<lparr>je_Version := je_Version je', je_LastUpdated := fst (sql_Now r w)\<rparr>
      \<and> version_outcome (fst (getTxExecutor r (snd (sql_Now r w)))) (je_Version je) res (je_Version je'))
   \<and> (case sql_UpdateJobInstance r ji w of ((res, ji'), w') \<Rightarrow>
      ji' = ji\<lparr>ji_Version := ji_Version ji'\<rparr>
      \<and> version_outcome (fst (getTxExecutor r w)) (ji_Version ji) res (ji_Version ji'))"
proof (intro conjI)
  obtain t w1 where t: "sql_Now r w = (t, w1)" by (cases "sql_Now r w")
  let ?se = "se\<lparr>se_Version := se_Version se + 1, se_LastUpdated := t\<rparr>"
  obtain u w2 where u: "update_row r ''SQLJobRepository.UpdateStepExecution'' ''StepExecution'' (se_ID ?se)
      (EntStepExecution (fromDomainStepExecution ?se)) (se_Version se) w1 = (u, w2)" by fastforce
  show "case sql_UpdateStepExecution r se w of ((res, se'), w') \<Rightarrow>
      se' = se\<lparr>se_Version := se_Version se', se_LastUpdated := fst (sql_Now r w)\<rparr>
      \<and> version_outcome (fst (getTxExecutor r (snd (sql_Now r w)))) (se_Version se) res (se_Version se')"
    unfolding sql_UpdateStepExecution_def Let_def t prod.case u
    using update_row_cases[OF u] by (cases u) (auto simp: version_outcome_def t)
  let ?je = "je\<lparr>je_Version := je_Version je + 1, je_LastUpdated := t\<rparr>"
  obtain u w2 where u: "update_row r ''SQLJobRepository.UpdateJobExecution'' ''JobExecution'' (je_ID ?je)
      (EntJobExecution (fromDomainJobExecution ?je)) (je_Version je) w1 = (u, w2)" by fastforce
  show "case sql_UpdateJobExecution r je w of ((res, je'), w') \<Rightarrow>
      je' = je\<lparr>je_Version := je_Version je', je_LastUpdated := fst (sql_Now r w)\<rparr>
      \<and> version_outcome (fst (getTxExecutor r (snd (sql_Now r w)))) (je_Version je) res (je_Version je')"
    unfolding sql_UpdateJobExecution_def Let_def t prod.case u
    using update_row_cases[OF u] by (cases u) (auto simp: version_outcome_def t)
  let ?ji = "ji\<lparr>ji_Version := ji_Version ji + 1\<rparr>"
  obtain u w2 where u: "update_row r ''SQLJobRepository.UpdateJobInstance'' ''JobInstance'' (ji_ID ?ji)
      (EntJobInstance (fromDomainJobInstance ?ji)) (ji_Version ji) w = (u, w2)" by fastforce
  show "case sql_UpdateJobInstance r ji w of ((res, ji'), w') \<Rightarrow>
      ji' = ji\<lparr>ji_Version := ji_Version ji'\<rparr>
      \<and> version_outcome (fst (getTxExecutor r w)) (ji_Version ji) res (ji_Version ji')"
    unfolding sql_UpdateJobInstance_def Let_def prod.case u
    using update_row_cases[OF u] by (cases u) (auto simp: version_outcome_def)
qed

section \<open>Updates of one row\<close>

fun entity_id :: "entity \<Rightarrow> string" where
  "entity_id (EntJobInstance e) = jie_ID e"
| "entity_id (EntJobExecution e) = jee_ID e"
| "entity_id (EntStepExecution e) = see_ID e"
| "entity_id (EntCheckpointData e) = cde_StepExecutionID e"

fun entity_version :: "entity \<Rightarrow> int" where
  "entity_version (EntJobInstance e) = jie_Version e"
| "entity_version (EntJobExecution e) = jee_Version e"
| "entity_version (EntStepExecution e) = see_Version e"
| "entity_version (EntCheckpointData e) = 0"

text \<open>
  What a database does with a conditional update, \<open>ver w tab key\<close> being the version of a row: a
  failed statement changes nothing; otherwise the row of this key and version, if there is one,
  gets the entity's version and is counted, and nothing else changes. An entity of version 0 is
  left out: the mapper does not write zero fields.
\<close>

definition versioned_rows :: "'w sql_repo \<Rightarrow> ('w \<Rightarrow> string \<Rightarrow> string \<rightharpoonup> int) \<Rightarrow> bool" where
  "versioned_rows r ver \<longleftrightarrow>
     (\<forall>ex ent tab v w. entity_version ent \<noteq> 0 \<longrightarrow>
        (case ExecuteUpdate r ex ent ''UPDATE'' tab [(''version'', SqlInt v)] w of
           (Inl e, w') \<Rightarrow> ver w' = ver w
         | (Inr n, w') \<Rightarrow>
             (if ver w tab (entity_id ent) = Some v
              then n \<noteq> 0 \<and> ver w' = (ver w)(tab := (ver w tab)(entity_id ent \<mapsto> entity_version ent))
              else n = 0 \<and> ver w' = ver w)))
     \<and> (\<forall>w. ver (snd (sql_Now r w)) = ver w)
     \<and> (\<forall>n w. ver (snd (ResolveConnection r n w)) = ver w)"

lemma getTxExecutor_ver:
  assumes "versioned_rows r ver"
  shows "ver (snd (getTxExecutor r w)) = ver w"
proof -
  have "ver (snd (ResolveConnection r (dbName r) w)) = ver w"
    using assms unfolding versioned_rows_def by blast
  then show ?thesis
    by (cases "ResolveConnection r (dbName r) w")
      (auto simp: getTxExecutor_def getDBConnection_def split: sum.splits)
qed

lemma update_row_ver:
  assumes law: "versioned_rows r ver" and nz: "entity_version ent \<noteq> 0"
    and u: "update_row r op what key ent v w = (u, w')"
  defines "tab \<equiv> getFullTableName r (TableName ent)"
  shows "if u = Updated
    then ver w tab (entity_id ent) = Some v
       \<and> ver w' = (ver w)(tab := (ver w tab)(entity_id ent \<mapsto> entity_version ent))
    else ver w' = ver w"
proof -
  obtain x w1 where x: "getTxExecutor r w = (x, w1)" by (cases "getTxExecutor r w")
  then have v1: "ver w1 = ver w" using getTxExecutor_ver[OF law, of w] by simp
  show ?thesis
  proof (cases x)
    case (Inl err)
    then have "u \<noteq> Updated" "w' = w1" using u x by (auto simp: update_row_def)
    then show ?thesis using v1 by simp
  next
    case (Inr ex)
    obtain y w2 where y: "ExecuteUpdate r ex ent ''UPDATE'' tab [(''version'', SqlInt v)] w1 = (y, w2)"
      by fastforce
    have "case (y, w2) of (Inl e, w') \<Rightarrow> ver w' = ver w1
         | (Inr n, w') \<Rightarrow>
             (if ver w1 tab (entity_id ent) = Some v
              then n \<noteq> 0 \<and> ver w' = (ver w1)(tab := (ver w1 tab)(entity_id ent \<mapsto> entity_version ent))
              else n = 0 \<and> ver w' = ver w1)"
      using law[unfolded versioned_rows_def, THEN conjunct1, rule_format, OF nz, where ex = ex and tab = tab and v = v and w = w1]
      unfolding y .
    then have e: "case y of Inl e \<Rightarrow> ver w2 = ver w
         | Inr n \<Rightarrow>
             (if ver w tab (entity_id ent) = Some v
              then n \<noteq> 0 \<and> ver w2 = (ver w)(tab := (ver w tab)(entity_id ent \<mapsto> entity_version ent))
              else n = 0 \<and> ver w2 = ver w)"
      unfolding v1 prod.case .
    have "w' = w2 \<and> (u = Updated \<longleftrightarrow> (\<exists>n. y = Inr n \<and> n \<noteq> 0))"
      using u unfolding update_row_def x Inr prod.case sum.case tab_def[symmetric] y
      by (cases y) (auto split: if_splits)
    moreover have "y = Inr n \<Longrightarrow> n \<noteq> 0 \<Longrightarrow> ver w tab (entity_id ent) = Some v
       \<and> ver w2 = (ver w)(tab := (ver w tab)(entity_id ent \<mapsto> entity_version ent))" for n
      using e by (simp split: if_splits)
    moreover have "\<nexists>n. y = Inr n \<and> n \<noteq> 0 \<Longrightarrow> ver w2 = ver w"
      using e by (cases y) (simp_all split: if_splits)
    ultimately show ?thesis by (cases "\<exists>n. y = Inr n \<and> n \<noteq> 0") (simp only: if_True if_False; blast)+
  qed
qed

text \<open>The updates of any number of clients, one statement after the other.\<close>

datatype sql_update = UpdInstance JobInstance | UpdExecution JobExecution | UpdStep StepExecution

fun upd_key :: "sql_update \<Rightarrow> string" where
  "upd_key (UpdInstance ji) = ji_ID ji"
| "upd_key (UpdExecution je) = je_ID je"
| "upd_key (UpdStep se) = se_ID se"

fun upd_version :: "sql_update \<Rightarrow> int" where
  "upd_version (UpdInstance ji) = ji_Version ji"
| "upd_version (UpdExecution je) = je_Version je"
| "upd_version (UpdStep se) = se_Version se"

fun upd_table :: "'w sql_repo \<Rightarrow> sql_update \<Rightarrow> string" where
  "upd_table r (UpdInstance ji) = getFullTableName r ''batch_job_instance''"
| "upd_table r (UpdExecution je) = getFullTableName r ''batch_job_execution''"
| "upd_table r (UpdStep se) = getFullTableName r ''batch_step_execution''"

fun run_update :: "'w sql_repo \<Rightarrow> sql_update \<Rightarrow> 'w \<Rightarrow> goerr option \<times> 'w" where
  "run_update r (UpdInstance ji) w = (let ((res, _), w) = sql_UpdateJobInstance r ji w in (res, w))"
| "run_update r (UpdExecution je) w = (let ((res, _), w) = sql_UpdateJobExecution r je w in (res, w))"
| "run_update r (UpdStep se) w = (let ((res, _), w) = sql_UpdateStepExecution r se w in (res, w))"

fun run_updates :: "'w sql_repo \<Rightarrow> sql_update list \<Rightarrow> 'w \<Rightarrow> (sql_update \<times> goerr option) list \<times> 'w" where
  "run_updates r [] w = ([], w)"
| "run_updates r (u # us) w =
     (let (res, w) = run_update r u w; (rest, w) = run_updates r us w in ((u, res) # rest, w))"

text \<open>The versions that the accepted updates of one row started from, in their order.\<close>

definition accepted_versions :: "'w sql_repo \<Rightarrow> string \<Rightarrow> string \<Rightarrow>
    (sql_update \<times> goerr option) list \<Rightarrow> int list" where
  "accepted_versions r tab key rs =
     map (\<lambda>(u, _). upd_version u)
       (filter (\<lambda>(u, res). res = None \<and> upd_table r u = tab \<and> upd_key u = key) rs)"

lemma run_update_ver:
  assumes law: "versioned_rows r ver" and v: "0 \<le> upd_version u"
    and u: "run_update r u w = (res, w')"
  shows "if res = None
    then ver w (upd_table r u) (upd_key u) = Some (upd_version u)
       \<and> ver w' = (ver w)(upd_table r u := (ver w (upd_table r u))(upd_key u \<mapsto> upd_version u + 1))
    else ver w' = ver w"
proof -
  have now: "ver (snd (sql_Now r w)) = ver w" using law unfolding versioned_rows_def by blast
  show ?thesis
  proof (cases u)
    case (UpdInstance ji)
    let ?ji = "ji\<lparr>ji_Version := ji_Version ji + 1\<rparr>"
    obtain x w2 where x: "update_row r ''SQLJobRepository.UpdateJobInstance'' ''JobInstance'' (ji_ID ?ji)
      (EntJobInstance (fromDomainJobInstance ?ji)) (ji_Version ji) w = (x, w2)" by fastforce
    have x1: "res = None \<longleftrightarrow> x = Updated" and w2: "w' = w2"
      using u unfolding UpdInstance run_update.simps sql_UpdateJobInstance_def Let_def prod.case x
      by (cases x; fastforce)+
    have nz: "entity_version (EntJobInstance (fromDomainJobInstance ?ji)) \<noteq> 0"
      using v UpdInstance by (simp add: fromDomainJobInstance_def)
    note r = update_row_ver[OF law nz x]
    show ?thesis using r unfolding w2
      by (simp add: x1 UpdInstance fromDomainJobInstance_def cong: if_cong)
  next
    case (UpdExecution je)
    obtain t w1 where t: "sql_Now r w = (t, w1)" by (cases "sql_Now r w")
    let ?je = "je\<lparr>je_Version := je_Version je + 1, je_LastUpdated := t\<rparr>"
    obtain x w2 where x: "update_row r ''SQLJobRepository.UpdateJobExecution'' ''JobExecution'' (je_ID ?je)
      (EntJobExecution (fromDomainJobExecution ?je)) (je_Version je) w1 = (x, w2)" by fastforce
    have x1: "res = None \<longleftrightarrow> x = Updated" and w2: "w' = w2"
      using u unfolding UpdExecution run_update.simps sql_UpdateJobExecution_def Let_def t prod.case x
      by (cases x; fastforce)+
    have nz: "entity_version (EntJobExecution (fromDomainJobExecution ?je)) \<noteq> 0"
      using v UpdExecution by (simp add: fromDomainJobExecution_def)
    note r = update_row_ver[OF law nz x]
    have "ver w1 = ver w" using now by (simp add: t)
    then show ?thesis using r unfolding w2
      by (simp add: x1 UpdExecution fromDomainJobExecution_def cong: if_cong)
  next
    case (UpdStep se)
    obtain t w1 where t: "sql_Now r w = (t, w1)" by (cases "sql_Now r w")
    let ?se = "se\<lparr>se_Version := se_Version se + 1, se_LastUpdated := t\<rparr>"
    obtain x w2 where x: "update_row r ''SQLJobRepository.UpdateStepExecution'' ''StepExecution'' (se_ID ?se)
      (EntStepExecution (fromDomainStepExecution ?se)) (se_Version se) w1 = (x, w2)" by fastforce
    have x1: "res = None \<longleftrightarrow> x = Updated" and w2: "w' = w2"
      using u unfolding UpdStep run_update.simps sql_UpdateStepExecution_def Let_def t prod.case x
      by (cases x; fastforce)+
    have nz: "entity_version (EntStepExecution (fromDomainStepExecution ?se)) \<noteq> 0"
      using v UpdStep by (simp add: fromDomainStepExecution_def)
    note r = update_row_ver[OF law nz x]
    have "ver w1 = ver w" using now by (simp add: t)
    then show ?thesis using r unfolding w2
      by (simp add: x1 UpdStep fromDomainStepExecution_def cong: if_cong)
  qed
qed

lemma run_updates_versions:
  assumes law: "versioned_rows r ver"
  shows "\<forall>u\<in>set us. 0 \<le> upd_version u \<Longrightarrow> ver w tab key = Some v0 \<Longrightarrow>
    run_updates r us w = (rs, w') \<Longrightarrow>
    ver w' tab key = Some (v0 + int (length (accepted_versions r tab key rs)))
    \<and> accepted_versions r tab key rs
        = map (\<lambda>i. v0 + int i) [0..<length (accepted_versions r tab key rs)]"
proof (induction us arbitrary: w v0 rs)
  case Nil
  then show ?case by (simp add: accepted_versions_def)
next
  case (Cons u us)
  obtain res w1 where r1: "run_update r u w = (res, w1)" by fastforce
  obtain rest where r2: "run_updates r us w1 = (rest, w')" "rs = (u, res) # rest"
    using Cons.prems(3) r1 by (auto split: prod.splits)
  have step: "if res = None
    then ver w (upd_table r u) (upd_key u) = Some (upd_version u)
       \<and> ver w1 = (ver w)(upd_table r u := (ver w (upd_table r u))(upd_key u \<mapsto> upd_version u + 1))
    else ver w1 = ver w"
    using run_update_ver[OF law _ r1] Cons.prems(1) by simp
  have prem: "\<forall>u\<in>set us. 0 \<le> upd_version u" using Cons.prems(1) by simp
  show ?case
  proof (cases "res = None \<and> upd_table r u = tab \<and> upd_key u = key")
    case True
    then have v: "upd_version u = v0" "ver w1 tab key = Some (v0 + 1)" using step Cons.prems(2) by auto
    have acc: "accepted_versions r tab key rs = v0 # accepted_versions r tab key rest"
      using True r2(2) v(1) by (simp add: accepted_versions_def)
    let ?n = "length (accepted_versions r tab key rest)"
    have "map (\<lambda>i. v0 + int i) [0..<Suc ?n] = v0 # map (\<lambda>i. v0 + 1 + int i) [0..<?n]"
      by (simp add: upt_conv_Cons map_Suc_upt[symmetric] algebra_simps del: upt_Suc map_Suc_upt)
    with Cons.IH[OF prem v(2) r2(1)] show ?thesis unfolding acc by simp
  next
    case False
    then have v: "ver w1 tab key = Some v0" using step Cons.prems(2) by (auto split: if_splits)
    have acc: "accepted_versions r tab key rs = accepted_versions r tab key rest"
      using False r2(2) by (auto simp: accepted_versions_def)
    from Cons.IH[OF prem v r2(1)] show ?thesis unfolding acc .
  qed
qed

text \<open>
  C6: on a database that applies conditional updates, the accepted updates of one row of the SQL
  repository start from consecutive versions, whatever the clients send and in whatever order: each
  accepted one saw the row as the one before it left it, so none overwrites another unseen, no two
  of the same version are both accepted, and the row's version counts them.
\<close>

theorem sql_no_lost_updates:
  assumes "versioned_rows r ver" and "\<forall>u\<in>set us. 0 \<le> upd_version u"
    and "ver w tab key = Some v0" and "run_updates r us w = (rs, w')"
  shows "\<exists>n. accepted_versions r tab key rs = map (\<lambda>i. v0 + int i) [0..<n]
    \<and> ver w' tab key = Some (v0 + int n) \<and> distinct (accepted_versions r tab key rs)
    \<and> map fst rs = us"
proof -
  have "map fst rs = us" using assms(4)
    by (induction us arbitrary: w rs) (auto split: prod.splits)
  moreover have "distinct (map (\<lambda>i. v0 + int i) [0..<n])" for n
    by (simp add: distinct_map inj_on_def)
  ultimately show ?thesis
    using run_updates_versions[OF assms(1) assms(2) assms(3) assms(4)] by metis
qed

text \<open>A database of versions alone: the world is the version of every row.\<close>

definition version_table :: "(string \<Rightarrow> string \<rightharpoonup> int) sql_repo" where
  "version_table =
     \<lparr>dbName = ''metadata'', schema = ''batch'', inTx = False, sql_Now = (\<lambda>w. (7, w)),
      ResolveConnection = (\<lambda>n w. (Inr True, w)), IsTableNotExistError = (\<lambda>e. False),
      ExecuteUpdate = (\<lambda>ex ent op tab q w.
        case map_of q ''version'' of
          Some (SqlInt v) \<Rightarrow>
            (if w tab (entity_id ent) = Some v
             then (Inr 1, w(tab := (w tab)(entity_id ent \<mapsto> entity_version ent))) else (Inr 0, w))
        | _ \<Rightarrow> (Inr 1, w(tab := (w tab)(entity_id ent \<mapsto> entity_version ent)))),
      ExecuteUpsert = (\<lambda>ex ent tab cs us w. (Inr 1, w)),
      ExecuteQuery = (\<lambda>q w. (Inr [], w)), QueryInstances = (\<lambda>q ord n w. (Inr [], w)),
      QueryExecutions = (\<lambda>q ord n w. (Inr [], w)), QuerySteps = (\<lambda>q ord n w. (Inr [], w)),
      QueryCheckpoints = (\<lambda>q ord n w. (Inr [], w)), CountInstances = (\<lambda>q w. (Inr 0, w)),
      PluckInstances = (\<lambda>c w. (Inr [], w))\<rparr>"

lemma version_table_law: "versioned_rows version_table (\<lambda>w. w)"
  by (simp add: versioned_rows_def version_table_def)

text \<open>Two clients that loaded the same row: the second update is refused.\<close>

lemma sql_no_lost_updates_witness:
  "let se = zero_StepExecution\<lparr>se_ID := ''s''\<rparr>;
       rs = fst (run_updates version_table [UpdStep se, UpdStep se]
              (\<lambda>tab key. if tab = ''batch.batch_step_execution'' \<and> key = ''s'' then Some 0 else None))
   in distinct (accepted_versions version_table ''batch.batch_step_execution'' ''s'' rs)
      \<and> map (\<lambda>(u, res). res = None) rs = [True, False]"
proof -
  let ?us = "[UpdStep (zero_StepExecution\<lparr>se_ID := ''s''\<rparr>), UpdStep (zero_StepExecution\<lparr>se_ID := ''s''\<rparr>)]"
  let ?w = "\<lambda>tab key. if tab = ''batch.batch_step_execution'' \<and> key = ''s'' then Some (0 :: int) else None"
  have n: "\<forall>u\<in>set ?us. 0 \<le> upd_version u" by (simp add: zero_StepExecution_def)
  have v: "?w ''batch.batch_step_execution'' ''s'' = Some 0" by simp
  obtain rs w' where e: "run_updates version_table ?us ?w = (rs, w')"
    by (cases "run_updates version_table ?us ?w")
  then have rs: "fst (run_updates version_table ?us ?w) = rs" by (simp only: fst_conv)
  have "distinct (accepted_versions version_table ''batch.batch_step_execution'' ''s'' rs)"
    using sql_no_lost_updates[OF version_table_law n v e] by blast
  moreover have "map (\<lambda>(u, res). res = None) (fst (run_updates version_table ?us ?w)) = [True, False]"
    by (simp add: sql_UpdateStepExecution_def update_row_def getTxExecutor_def getDBConnection_def
        version_table_def getFullTableName_def fromDomainStepExecution_def zero_StepExecution_def)
  ultimately show ?thesis unfolding Let_def rs by (intro conjI)
qed

section \<open>The execution a restart continues\<close>

text \<open>
  What an ordered query with limit one returns: no row when the instance has none, else one row of
  it that none was created after. \<open>rows\<close> are the stored executions.
\<close>

definition latest_row :: "'w sql_repo \<Rightarrow> ('w \<Rightarrow> JobExecution list) \<Rightarrow> bool" where
  "latest_row r rows \<longleftrightarrow>
     (\<forall>i w. case fst (QueryExecutions r [(''job_instance_id'', SqlString i)] ''create_time desc'' 1 w) of
        Inl e \<Rightarrow> True
      | Inr es \<Rightarrow>
          (if \<exists>je\<in>set (rows w). je_JobInstanceID je = i
           then (\<exists>je\<in>set (rows w). je_JobInstanceID je = i \<and> es = [fromDomainJobExecution je]
             \<and> (\<forall>je'\<in>set (rows w). je_JobInstanceID je' = i \<longrightarrow> je_CreateTime je' \<le> je_CreateTime je))
           else es = []))
     \<and> (\<forall>n w. rows (snd (ResolveConnection r n w)) = rows w)"

lemma sql_latest:
  assumes law: "latest_row r rows"
    and f: "fst (sql_FindLatestRestartableJobExecution r i w) = Inr je"
  shows "\<exists>je0\<in>set (rows w). restartable i je0 \<and> je_ID je = je_ID je0
      \<and> je_CreateTime je = je_CreateTime je0 \<and> je_Status je = je_Status je0
      \<and> (\<forall>je'\<in>set (rows w). je_JobInstanceID je' = i \<longrightarrow> je_CreateTime je' \<le> je_CreateTime je0)"
proof -
  obtain x w1 where g: "getDBConnection r w = (x, w1)" by fastforce
  have rw: "rows w1 = rows w"
  proof -
    have "rows (snd (ResolveConnection r (dbName r) w)) = rows w"
      using law[unfolded latest_row_def, THEN conjunct2] by blast
    moreover have "w1 = snd (ResolveConnection r (dbName r) w)"
      using g by (cases "ResolveConnection r (dbName r) w") (auto simp: getDBConnection_def split: sum.splits)
    ultimately show ?thesis by simp
  qed
  obtain y w2 where q: "QueryExecutions r [(''job_instance_id'', SqlString i)] ''create_time desc'' 1 w1 = (y, w2)"
    by fastforce
  note ql = law[unfolded latest_row_def, THEN conjunct1, rule_format, where i = i and w = w1, unfolded q fst_conv rw]
  show ?thesis
  proof (cases "x = None \<and> (\<exists>es. y = Inr es)")
    case True
    then obtain es where es: "y = Inr es" by blast
    have f2: "fst (case single_row jee_ID toDomainJobExecution ErrJobExecutionNotFound es of
         Inl err \<Rightarrow> (Inl err, w2)
       | Inr je \<Rightarrow> (let (je, w) = load_steps r je (je_ID je) w2
           in (if je_Status je = FAILED \<or> je_Status je = STOPPED then Inr je
               else Inl ErrJobExecutionNotFound, w))) = Inr je"
      using f True unfolding sql_FindLatestRestartableJobExecution_def run_query_def g prod.case
        option.case q True es sum.case by (auto split: sum.splits)
    have "es \<noteq> []" using f2 by (auto simp: single_row_def)
    then obtain je0 where j: "je0 \<in> set (rows w)" "je_JobInstanceID je0 = i" "es = [fromDomainJobExecution je0]"
        "\<forall>je'\<in>set (rows w). je_JobInstanceID je' = i \<longrightarrow> je_CreateTime je' \<le> je_CreateTime je0"
      using ql unfolding es by (auto split: if_splits)
    have "toDomainJobExecution (fromDomainJobExecution je0) = je0\<lparr>je_StepExecutions := []\<rparr>"
      by (simp add: mapper_defs)
    then have sr: "single_row jee_ID toDomainJobExecution ErrJobExecutionNotFound es = Inr (je0\<lparr>je_StepExecutions := []\<rparr>)"
      using f2 j(3) by (auto simp: single_row_def split: if_splits)
    obtain z w3 where z: "sql_FindStepExecutionsByJobExecutionID r (je_ID je0) w2 = (z, w3)" by fastforce
    obtain ss where l: "load_steps r (je0\<lparr>je_StepExecutions := []\<rparr>) (je_ID je0) w2
        = (je0\<lparr>je_StepExecutions := ss\<rparr>, w3)"
      by (cases z) (auto simp: load_steps_def z)
    have "je = je0\<lparr>je_StepExecutions := ss\<rparr>" and "je_Status je = FAILED \<or> je_Status je = STOPPED"
      using f2 unfolding sr sum.case by (auto simp: l split: if_splits)
    then show ?thesis using j(1,2,4) by (intro bexI[OF _ j(1)]) (auto simp: restartable_def)
  next
    case False
    then show ?thesis using f g q
      by (cases x; cases y)
        (auto simp: sql_FindLatestRestartableJobExecution_def run_query_def split: if_splits)
  qed
qed

text \<open>
  C21: the SQL repository and the in-memory one, holding the same executions, disagree on restarts.
  What the SQL repository offers is the latest execution of the instance, and then the memory offers
  one created at the same time; but when the latest execution is neither failed nor stopped, the SQL
  repository offers none, while the memory still offers the latest of the failed and stopped ones
  before it.
\<close>

theorem sql_restarts_only_the_latest:
  assumes "latest_row r rows" and "set (map snd (jobExecutions m)) = set (rows w)"
  shows "(\<forall>je. fst (sql_FindLatestRestartableJobExecution r i w) = Inr je \<longrightarrow>
      (\<exists>je'. mem_FindLatestRestartableJobExecution m i = Inr je' \<and> je_CreateTime je' = je_CreateTime je))
    \<and> (\<forall>last\<in>set (rows w). je_JobInstanceID last = i \<and> \<not> restartable i last
        \<and> (\<forall>je\<in>set (rows w). je_JobInstanceID je = i \<and> je \<noteq> last \<longrightarrow> je_CreateTime je < je_CreateTime last) \<longrightarrow>
        (\<exists>e. fst (sql_FindLatestRestartableJobExecution r i w) = Inl e)
        \<and> ((\<exists>je\<in>set (rows w). restartable i je) \<longrightarrow>
             (\<exists>je'. mem_FindLatestRestartableJobExecution m i = Inr je' \<and> je_CreateTime je' < je_CreateTime last)))"
proof (intro conjI allI ballI impI)
  have mem: "\<exists>je\<in>set (rows w). restartable i je \<and> mem_FindLatestRestartableJobExecution m i = Inr (with_steps m je)
      \<and> (\<forall>x\<in>set (rows w). restartable i x \<longrightarrow> je_CreateTime x \<le> je_CreateTime je)"
    if "\<exists>je\<in>set (rows w). restartable i je"
  proof -
    have "latest_restartable i None (map snd (jobExecutions m)) \<noteq> None"
      unfolding latest_restartable_None assms(2) using that by simp
    then obtain je where l: "latest_restartable i None (map snd (jobExecutions m)) = Some je"
      by (cases "latest_restartable i None (map snd (jobExecutions m))") auto
    have sp: "restartable i je" "je \<in> set (rows w)"
        "\<forall>x\<in>set (rows w). restartable i x \<longrightarrow> je_CreateTime x \<le> je_CreateTime je"
      using latest_restartable_spec[OF l] unfolding assms(2) by auto
    moreover have "mem_FindLatestRestartableJobExecution m i = Inr (with_steps m je)"
      by (simp only: mem_FindLatestRestartableJobExecution_def l option.case)
    ultimately show ?thesis by blast
  qed
  have ct: "je_CreateTime (with_steps m je) = je_CreateTime je" for je by (simp add: with_steps_def)
  {
    fix je assume "fst (sql_FindLatestRestartableJobExecution r i w) = Inr je"
    from sql_latest[OF assms(1) this] obtain je0 where j: "je0 \<in> set (rows w)" "restartable i je0"
        "je_CreateTime je = je_CreateTime je0"
        "\<forall>je'\<in>set (rows w). je_JobInstanceID je' = i \<longrightarrow> je_CreateTime je' \<le> je_CreateTime je0" by blast
    then obtain je1 where k: "je1 \<in> set (rows w)" "restartable i je1"
        "mem_FindLatestRestartableJobExecution m i = Inr (with_steps m je1)"
        "je_CreateTime je0 \<le> je_CreateTime je1" using mem by blast
    have "je_CreateTime je1 \<le> je_CreateTime je0" using j(4) k(1,2) by (simp add: restartable_def)
    then show "\<exists>je'. mem_FindLatestRestartableJobExecution m i = Inr je' \<and> je_CreateTime je' = je_CreateTime je"
      using k j(3) ct by auto
  }
  fix last assume last: "last \<in> set (rows w)" and a: "je_JobInstanceID last = i \<and> \<not> restartable i last
        \<and> (\<forall>je\<in>set (rows w). je_JobInstanceID je = i \<and> je \<noteq> last \<longrightarrow> je_CreateTime je < je_CreateTime last)"
  show "\<exists>e. fst (sql_FindLatestRestartableJobExecution r i w) = Inl e"
  proof (cases "fst (sql_FindLatestRestartableJobExecution r i w)")
    case (Inr je)
    from sql_latest[OF assms(1) this] obtain je0 where j: "je0 \<in> set (rows w)" "restartable i je0"
        "\<forall>je'\<in>set (rows w). je_JobInstanceID je' = i \<longrightarrow> je_CreateTime je' \<le> je_CreateTime je0" by blast
    have "je0 \<noteq> last" "je_JobInstanceID je0 = i" using j(2) a by (auto simp: restartable_def)
    moreover from this have "je_CreateTime je0 < je_CreateTime last" using a j(1) by blast
    moreover have "je_CreateTime last \<le> je_CreateTime je0" using j(3) a last by blast
    ultimately show ?thesis by simp
  qed simp
  assume "\<exists>je\<in>set (rows w). restartable i je"
  from mem[OF this] obtain je1 where k: "je1 \<in> set (rows w)" "restartable i je1"
      "mem_FindLatestRestartableJobExecution m i = Inr (with_steps m je1)" by blast
  have "je1 \<noteq> last" "je_JobInstanceID je1 = i" using k(2) a by (auto simp: restartable_def)
  then show "\<exists>je'. mem_FindLatestRestartableJobExecution m i = Inr je' \<and> je_CreateTime je' < je_CreateTime last"
    using a k(1,3) ct by auto
qed

text \<open>A failed execution and a later, completed one of the same instance.\<close>

definition demo_executions :: "JobExecution list" where
  "demo_executions =
     [(NewJobExecution ''e1'' 1 1 ''i'' ''j'' NewJobParameters)\<lparr>je_Status := FAILED\<rparr>,
      (NewJobExecution ''e2'' 2 2 ''i'' ''j'' NewJobParameters)\<lparr>je_Status := COMPLETED\<rparr>]"

definition demo_query_repo :: "(string \<Rightarrow> string \<rightharpoonup> int) sql_repo" where
  "demo_query_repo = version_table\<lparr>QueryExecutions := (\<lambda>q ord n w.
     (Inr (if q = [(''job_instance_id'', SqlString ''i'')]
           then [fromDomainJobExecution (demo_executions ! 1)] else []), w))\<rparr>"

definition demo_memory :: InMemoryJobRepository where
  "demo_memory = NewInMemoryJobRepository\<lparr>jobExecutions := map (\<lambda>je. (je_ID je, je)) demo_executions\<rparr>"

lemma sql_restarts_only_the_latest_witness:
  "(\<exists>e. fst (sql_FindLatestRestartableJobExecution demo_query_repo ''i'' (\<lambda>_ _. None)) = Inl e)
   \<and> (\<exists>je. mem_FindLatestRestartableJobExecution demo_memory ''i'' = Inr je)"
proof -
  have l: "latest_row demo_query_repo (\<lambda>w. demo_executions)"
    by (simp add: latest_row_def demo_query_repo_def demo_executions_def NewJobExecution_def)
  have m: "set (map snd (jobExecutions demo_memory)) = set demo_executions"
    by (simp add: demo_memory_def image_image)
  have a: "demo_executions ! 1 \<in> set demo_executions" by (simp add: demo_executions_def)
  have b: "je_JobInstanceID (demo_executions ! 1) = ''i'' \<and> \<not> restartable ''i'' (demo_executions ! 1)
        \<and> (\<forall>je\<in>set demo_executions. je_JobInstanceID je = ''i'' \<and> je \<noteq> demo_executions ! 1
              \<longrightarrow> je_CreateTime je < je_CreateTime (demo_executions ! 1))"
    by (simp add: demo_executions_def NewJobExecution_def restartable_def)
  have c: "\<exists>je\<in>set demo_executions. restartable ''i'' je"
    by (simp add: demo_executions_def NewJobExecution_def restartable_def)
  from sql_restarts_only_the_latest[OF l m, THEN conjunct2, rule_format, OF a b] c
  show ?thesis by blast
qed

end
