(* ===== verification/Restart_Flow.thy ===== *)
theory Restart_Flow
  imports Checkpoint_Resume Job_Launch Flow_Job Tasklet_Step SQL_Repository
begin

text \<open>
  The launcher, the flow job, the steps and the repositories together: what becomes of the steps of
  a job that is launched again after a failure.
\<close>

section \<open>A repository of step executions\<close>

text \<open>
  What a step relies on when it announces its start: the update of a step execution that is not
  stored is refused with an error.
\<close>

locale step_store =
  fixes update :: "StepExecution \<Rightarrow> 'w \<Rightarrow> (goerr option \<times> StepExecution) \<times> 'w"
    and stored :: "'w \<Rightarrow> string \<Rightarrow> bool"
  assumes unstored_refused: "\<not> stored w (se_ID se) \<Longrightarrow> se_Version se = 0 \<Longrightarrow> update se w = ((e, se'), w') \<Longrightarrow>
      e \<noteq> None"
begin

lemma chunk_step_refused:
  fixes st :: "('w, 'i, 'o) chunk_step"
  assumes "jr_UpdateStepExecution st = update" "\<And>w. stored (snd (time_Now st w)) = stored w"
    and "\<not> stored (cs_world s) (se_ID (cs_se s))" "se_Version (cs_se s) = 0" "cs_log s = []"
  shows "\<exists>err s'. Execute fuel st s = Some (Some err, s')
    \<and> cs_log s' = [BeforeStep, AfterStep]"
proof -
  let ?s0 = "mark_started st (emit [BeforeStep] s)"
  have s0: "\<not> stored (cs_world ?s0) (se_ID (cs_se ?s0))" "se_Version (cs_se ?s0) = 0" "cs_log ?s0 = [BeforeStep]"
    using assms(2)[of "cs_world s"] assms(3-5)
    by (auto simp: mark_started_def call_def on_se_def emit_def mark_defs split: prod.split)
  obtain e se w where u: "update (cs_se ?s0) (cs_world ?s0) = ((e, se), w)" by (metis prod.collapse)
  obtain err where err: "e = Some err"
    using unstored_refused[OF s0(1,2) u] by blast
  have "persist_se st ?s0 = (Some err, ?s0\<lparr>cs_world := w, cs_se := se\<rparr>)"
    using u err assms(1) by (simp add: persist_se_def call_def)
  then show ?thesis using s0(3)
    by (simp add: Execute_def start_step_def NewBatchError_def emit_def)
qed

lemma tasklet_step_refused:
  fixes st :: "'w tasklet_step"
  assumes "tk_UpdateStepExecution st = update" "\<And>w. stored (snd (tk_Now st w)) = stored w"
    and "\<not> stored (tks_world s) (se_ID (tks_se s))" "se_Version (tks_se s) = 0"
  shows "\<exists>err s'. TaskletStep_Execute st s = (Some err, s')
    \<and> tks_log s' = tks_log s"
proof -
  obtain now s1 where n: "tcall (tk_Now st) s = (now, s1)" by fastforce
  let ?s0 = "tset (StepExecution_MarkAsStarted now) s1"
  have s0: "\<not> stored (tks_world ?s0) (se_ID (tks_se ?s0))" "se_Version (tks_se ?s0) = 0" "tks_log ?s0 = tks_log s"
    using assms(2)[of "tks_world s"] assms(3,4) n
    by (auto simp: tcall_def tset_def mark_defs split: prod.split_asm)
  obtain e se w where u: "update (tks_se ?s0) (tks_world ?s0) = ((e, se), w)" by (metis prod.collapse)
  obtain err where err: "e = Some err"
    using unstored_refused[OF s0(1,2) u] by blast
  have "tk_persist st ?s0 = (Some err, ?s0\<lparr>tks_world := w, tks_se := se\<rparr>)"
    using u err assms(1) by (simp add: tk_persist_def tcall_se_def tcall_def)
  then show ?thesis using s0(3) n
    by (simp add: TaskletStep_Execute_def tasklet_start_def NewBatchError_def)
qed

end

text \<open>The in-memory repository, beside whatever else is in the world.\<close>

definition mem_update_step :: "StepExecution \<Rightarrow> InMemoryJobRepository \<times> 'x \<Rightarrow>
    (goerr option \<times> StepExecution) \<times> (InMemoryJobRepository \<times> 'x)" where
  "mem_update_step se w = (case mem_UpdateStepExecution se (fst w) of
       Inl e \<Rightarrow> ((Some e, se), w) | Inr r \<Rightarrow> ((None, se), (r, snd w)))"

definition mem_stored :: "InMemoryJobRepository \<times> 'x \<Rightarrow> string \<Rightarrow> bool" where
  "mem_stored w k \<longleftrightarrow> gm_get (stepExecutions (fst w)) k \<noteq> None"

interpretation mem_step_store: step_store mem_update_step mem_stored
  by unfold_locales (auto simp: mem_update_step_def mem_stored_def mem_UpdateStepExecution_def)

text \<open>The SQL repository on a database with conditional updates.\<close>

lemma sql_step_store:
  assumes "versioned_rows r ver"
  shows "step_store (sql_UpdateStepExecution r)
    (\<lambda>w k. ver w (getFullTableName r ''batch_step_execution'') k \<noteq> None)"
proof
  fix w se e se' w'
  let ?tab = "getFullTableName r ''batch_step_execution''"
  assume no: "\<not> ver w ?tab (se_ID se) \<noteq> None" "se_Version se = 0"
    and u: "sql_UpdateStepExecution r se w = ((e, se'), w')"
  obtain t w1 where t: "sql_Now r w = (t, w1)" by (cases "sql_Now r w")
  let ?se = "se\<lparr>se_Version := se_Version se + 1, se_LastUpdated := t\<rparr>"
  let ?ent = "EntStepExecution (fromDomainStepExecution ?se)"
  obtain x w2 where x: "update_row r ''SQLJobRepository.UpdateStepExecution'' ''StepExecution'' (se_ID ?se)
      ?ent (se_Version se) w1 = (x, w2)" by fastforce
  have ent: "entity_version ?ent \<noteq> 0" "entity_id ?ent = se_ID se" "TableName ?ent = ''batch_step_execution''"
    using no(2) by (simp_all add: fromDomainStepExecution_def)
  have "ver w1 = ver w" using assms t unfolding versioned_rows_def by (metis snd_conv)
  then have "x \<noteq> Updated" using update_row_ver[OF assms ent(1) x] no(1) ent(2,3) by (auto split: if_split_asm)
  then show "e \<noteq> None" using u unfolding sql_UpdateStepExecution_def Let_def t prod.case x
    by (cases x) auto
qed

section \<open>A restarted job\<close>

text \<open>The state in which a step begins, and a flow step that runs a chunk step.\<close>

definition chunk_init :: "'w \<Rightarrow> StepExecution \<Rightarrow> SkipPolicy \<Rightarrow> ('w, 'i, 'o) cstate" where
  "chunk_init w se pol = \<lparr>cs_world = w, cs_se = se, cs_skip = pol, cs_readCount = 0, cs_writeCount = 0,
     cs_commitCount = 0, cs_log = []\<rparr>"

definition tasklet_init :: "'w \<Rightarrow> StepExecution \<Rightarrow> 'w tkstate" where
  "tasklet_init w se = \<lparr>tks_world = w, tks_se = se, tks_log = []\<rparr>"

definition runs_as :: "'w flow_step \<Rightarrow> ('w, 'i, 'o) chunk_step \<Rightarrow> SkipPolicy \<Rightarrow> bool" where
  "runs_as fs st pol \<longleftrightarrow> (\<forall>fuel je se w e s. Execute fuel st (chunk_init w se pol) = Some (e, s) \<longrightarrow>
     fs_Execute fs je se w = ((e, je, cs_se s), cs_world s))"

lemma find_reusable_spec:
  "find_reusable name ses = Some i \<Longrightarrow> i < length ses \<and> se_StepName (ses ! i) = name"
  by (induction ses arbitrary: i) (auto split: if_split_asm)

lemma find_reusable_exists:
  "se \<in> set ses \<Longrightarrow> se_Status se \<noteq> COMPLETED \<Longrightarrow> \<exists>i. find_reusable (se_StepName se) ses = Some i"
  by (induction ses) auto

lemma promote_status: "je_Status (fl_je (record_error fj (Some e) s)) \<in> {FAILED, STOPPED}"
  by (simp add: record_error_def Let_def)

lemma restarted_steps:
  assumes "se \<in> set (je_StepExecutions (restart_execution prev (NewJobExecution k t u i n q)))"
  shows "se_ID se = k \<and> se_Status se = OtherStatus [] \<and> se_Version se = 0"
  using assms by (auto simp: restart_execution_fields NewJobExecution_def CopyForRestart_def zero_StepExecution_def)


text \<open>The same on the SQL repository, for the steps that a restart copies.\<close>

theorem restart_runs_no_step_sql:
  assumes "versioned_rows r ver" "je_StepExecutions new = []"
    and "se \<in> set (je_StepExecutions (restart_execution prev new))"
    and "ver w (getFullTableName r ''batch_step_execution'') (je_ID new) = None"
    and "jr_UpdateStepExecution st = sql_UpdateStepExecution r" "\<And>w. ver (snd (time_Now st w)) = ver w"
  shows "\<exists>err s1. Execute fuel st (chunk_init w se pol) = Some (Some err, s1) \<and> cs_log s1 = [BeforeStep, AfterStep]"
proof -
  have se: "se_ID se = je_ID new" "se_Version se = 0"
    using assms(2,3) by (auto simp: restart_execution_fields CopyForRestart_def zero_StepExecution_def)
  show ?thesis
    by (rule step_store.chunk_step_refused[OF sql_step_store[OF assms(1)] assms(5)])
      (use assms(4,6) se in \<open>simp_all add: chunk_init_def\<close>)
qed

text \<open>A chunk step (with a writer that has no target), a tasklet step and a flow step on that repository.\<close>

definition mem_chunk :: "(InMemoryJobRepository \<times> nat, nat, nat) chunk_step" where
  "mem_chunk = \<lparr>st_id = ''b'', st_chunkSize = 2, st_itemRetryPolicy = RetryPolicy_Create 3 0 [],
     st_registry = init_registry, rd_Open = \<lambda>ec w. (None, w), rd_Read = \<lambda>w. (Inl io_EOF, w), rd_Close = \<lambda>w. (None, w),
     rd_GetExecutionContext = \<lambda>w. (Inr [], w), rd_Update = None,
     pr_Process = \<lambda>i w. (Inr (Some i), w), pr_Update = None,
     st_writer = Some \<lparr>wr_Open = \<lambda>ec w. (None, w), wr_Write = \<lambda>t items w. (None, w), wr_Close = \<lambda>w. (None, w),
       wr_GetExecutionContext = \<lambda>w. (Inr [], w), wr_GetTargetResourceName = [], wr_GetResourcePath = [], wr_Update = None\<rparr>,
     db_Resolve = \<lambda>n w. (Inr True, w), tm_Begin = \<lambda>w. (Inr 0, w),
     tm_Commit = \<lambda>t w. (None, w), tm_Rollback = \<lambda>t w. w, bw_Wait = \<lambda>d w. (None, w),
     jr_UpdateStepExecution = mem_update_step,
     jr_FindCheckpointData = \<lambda>i w. (case mem_FindCheckpointData (fst w) i of Inl e \<Rightarrow> Inl e | Inr c \<Rightarrow> Inr (Some c), w),
     jr_SaveCheckpointData = \<lambda>cp w. (None, (mem_SaveCheckpointData cp (fst w), snd w)),
     cv_OutOfRange = \<lambda>f. 0, time_Now = \<lambda>w. (1, w)\<rparr>"

definition mem_tasklet :: "(InMemoryJobRepository \<times> nat) tasklet_step" where
  "mem_tasklet = \<lparr>tk_id = ''b'', tk_SetExecutionContext = \<lambda>ec w. w, tk_GetExecutionContext = \<lambda>w. ([], w),
     tk_Open = \<lambda>se w. ((None, se), w), tk_Run = \<lambda>se w. (((ExitCompleted, None), se), w),
     tk_Close = \<lambda>se w. ((None, se), w), tk_UpdateStepExecution = mem_update_step,
     tk_SaveCheckpointData = \<lambda>cp w. (None, w), tk_Now = \<lambda>w. (1, w), tk_promotion = None,
     tk_isolationLevel = LevelDefault, tk_propagation = []\<rparr>"

definition mem_flow_step :: "(InMemoryJobRepository \<times> nat) flow_step" where
  "mem_flow_step = \<lparr>fs_ID = ''b'', fs_StepName = ''b'',
     fs_Execute = \<lambda>je se w. (case Execute 1 mem_chunk (chunk_init w se (SkipPolicy_Create 0 [])) of
         Some (e, s) \<Rightarrow> ((e, je, cs_se s), cs_world s) | None \<Rightarrow> ((None, je, se), w)),
     fs_Promotion = None\<rparr>"

definition mem_flow :: "(InMemoryJobRepository \<times> nat) flow_job" where
  "mem_flow = \<lparr>fj_name = ''j'', fj_flow = NewFlowDefinition ''b'', fj_ctxErr = \<lambda>w. None, fj_Now = \<lambda>w. (1, w),
     fj_NewID = \<lambda>w. (''x'', w), fj_Order = \<lambda>w sts. sts, fj_SaveStepExecution = \<lambda>se w. ((None, se), w),
     fj_UpdateJobExecution = \<lambda>je w. ((None, je), w)\<rparr>"

lemma mem_flow_step_runs: "runs_as mem_flow_step mem_chunk (SkipPolicy_Create 0 [])"
proof -
  have loop: "\<exists>e. chunk_loop (Suc n) mem_chunk s = Some (Some e, s)" for n s
    by (simp add: mem_chunk_def chunk_round_def begin_chunk_def target_name_def)
  have "chunk_loop n mem_chunk s = Some r \<Longrightarrow> chunk_loop 1 mem_chunk s = Some r" for n s r
    using chunk_loop_mono[of 1 mem_chunk s _ n] loop[of 0 s] by (cases n) auto
  then have "Execute n mem_chunk s = Some r \<Longrightarrow> Execute 1 mem_chunk s = Some r" for n s r
    by (auto simp: Execute_def simp del: chunk_loop.simps split: prod.split_asm option.split_asm)
  then show ?thesis by (fastforce simp: runs_as_def mem_flow_step_def)
qed


end
