(* ===== verification/File_Paths.thy ===== *)
theory File_Paths
  imports Batch_Errors
begin

text \<open>
  The functions of Go's \<open>path/filepath\<close> that the local storage adapter calls, for Unix: \<open>Clean\<close>,
  \<open>Join\<close>, \<open>Abs\<close>, \<open>Dir\<close> and \<open>Rel\<close>. They are lexical: no file is looked at. A path is taken apart
  into its components, the parts between the separators that are neither empty nor \<open>.\<close>, and the
  lemmas say what each function does to them.
\<close>

abbreviation sep :: char where
  "sep \<equiv> CHR ''/''"

definition dot_dot :: string where
  "dot_dot = ''..''"

definition filepath_IsAbs :: "string \<Rightarrow> bool" where
  "filepath_IsAbs p = prefix [sep] p"

definition is_name :: "string \<Rightarrow> bool" where
  "is_name c \<longleftrightarrow> c \<noteq> [] \<and> c \<noteq> ''.''"

definition components :: "string \<Rightarrow> string list" where
  "components p = filter is_name (str_split sep p)"

text \<open>
  What \<open>Clean\<close> does with a \<open>..\<close>: it takes back the component before it, is dropped at the root,
  and kept at the front of a relative path. \<open>acc\<close> holds the components so far, the last one first.
\<close>

fun clean_parts :: "bool \<Rightarrow> string list \<Rightarrow> string list \<Rightarrow> string list" where
  "clean_parts root acc [] = rev acc"
| "clean_parts root acc (p # ps) =
     (if p \<noteq> dot_dot then clean_parts root (p # acc) ps
      else (case acc of
          [] \<Rightarrow> clean_parts root (if root then [] else [dot_dot]) ps
        | a # as \<Rightarrow> if a = dot_dot then clean_parts root (dot_dot # acc) ps else clean_parts root as ps))"

definition path_string :: "bool \<Rightarrow> string list \<Rightarrow> string" where
  "path_string root ps =
     (if root then sep # str_join [sep] ps else if ps = [] then ''.'' else str_join [sep] ps)"

definition cleaned :: "string \<Rightarrow> string list" where
  "cleaned p = clean_parts (filepath_IsAbs p) [] (components p)"

definition filepath_Clean :: "string \<Rightarrow> string" where
  "filepath_Clean p = path_string (filepath_IsAbs p) (cleaned p)"

text \<open>Empty elements at the front are left out, and elements that are all empty give the empty path.\<close>

definition filepath_Join :: "string list \<Rightarrow> string" where
  "filepath_Join elems = (case dropWhile (\<lambda>e. e = []) elems of
       [] \<Rightarrow> [] | es \<Rightarrow> filepath_Clean (str_join [sep] es))"

text \<open>\<open>wd\<close> is what \<open>os.Getwd\<close> returns.\<close>

definition filepath_Abs :: "goerr + string \<Rightarrow> string \<Rightarrow> goerr + string" where
  "filepath_Abs wd p =
     (if filepath_IsAbs p then Inr (filepath_Clean p) else bind_res wd (\<lambda>d. Inr (filepath_Join [d, p])))"

text \<open>Everything up to the last separator, cleaned.\<close>

definition filepath_Dir :: "string \<Rightarrow> string" where
  "filepath_Dir p = filepath_Clean (rev (dropWhile (\<lambda>c. c \<noteq> sep) (rev p)))"

fun strip_common :: "string list \<Rightarrow> string list \<Rightarrow> string list \<times> string list" where
  "strip_common (b # bs) (t # ts) = (if b = t then strip_common bs ts else (b # bs, t # ts))"
| "strip_common bs ts = (bs, ts)"

definition filepath_Rel :: "string \<Rightarrow> string \<Rightarrow> goerr + string" where
  "filepath_Rel base targ =
     (let err = Inl (plain_error (''Rel: can'' @ [CHR 0x27] @ ''t make '' @ targ @ '' relative to '' @ base)) in
      if filepath_IsAbs base \<noteq> filepath_IsAbs targ then err
      else (case strip_common (cleaned base) (cleaned targ) of
          ([], []) \<Rightarrow> Inr ''.''
        | (bs, ts) \<Rightarrow> if bs \<noteq> [] \<and> hd bs = dot_dot then err
            else Inr (str_join [sep] (replicate (length bs) dot_dot @ ts))))"

section \<open>Components\<close>

lemma dot_dot_name [simp]: "is_name dot_dot" "sep \<notin> set dot_dot"
  by (simp_all add: is_name_def dot_dot_def)

text \<open>Names that can stand between two separators.\<close>

definition plain_names :: "string list \<Rightarrow> bool" where
  "plain_names ps \<longleftrightarrow> (\<forall>p\<in>set ps. is_name p \<and> sep \<notin> set p)"

lemma plain_names_simps [simp]:
  "plain_names []" "plain_names (p # ps) \<longleftrightarrow> (is_name p \<and> sep \<notin> set p) \<and> plain_names ps"
  "plain_names (ps @ qs) \<longleftrightarrow> plain_names ps \<and> plain_names qs" "plain_names (rev ps) = plain_names ps"
  by (auto simp: plain_names_def)

lemma components_plain [simp]: "plain_names (components p)"
  by (auto simp: components_def plain_names_def dest: str_split_parts)

lemma str_split_append_sep: "str_split c (a @ c # b) = str_split c a @ str_split c b"
proof (induction a)
  case (Cons x xs)
  then show ?case by (cases "str_split c xs") auto
qed simp

lemma components_sep [simp]: "components (a @ sep # b) = components a @ components b"
  by (simp add: components_def str_split_append_sep)

lemma components_Nil [simp]: "components [] = []" "components (sep # b) = components b"
  by (simp_all add: components_def is_name_def)

lemma components_dot: "components ''.'' = []"
  by (simp add: components_def is_name_def)

lemma components_name: "is_name p \<Longrightarrow> sep \<notin> set p \<Longrightarrow> components p = [p]"
  by (simp add: components_def str_split_no_sep)

lemma components_join [simp]: "components (str_join [sep] ps) = concat (map components ps)"
  by (induction "[sep]" ps rule: str_join.induct) auto

lemma concat_components: "plain_names ps \<Longrightarrow> concat (map components ps) = ps"
  by (induction ps) (auto simp: components_name)

lemma components_path_string: "plain_names ps \<Longrightarrow> components (path_string root ps) = ps"
  by (auto simp: path_string_def concat_components components_dot)

lemma clean_parts_plain: "plain_names acc \<Longrightarrow> plain_names ps \<Longrightarrow> plain_names (clean_parts root acc ps)"
  by (induction root acc ps rule: clean_parts.induct) (auto split: list.splits)

lemma cleaned_plain [simp]: "plain_names (cleaned p)"
  by (simp add: cleaned_def clean_parts_plain)

lemma join_plain_head:
  "plain_names ps \<Longrightarrow> ps \<noteq> [] \<Longrightarrow> \<exists>c s. str_join [sep] ps = c # s \<and> c \<noteq> sep"
proof (cases ps)
  case (Cons p qs)
  assume "plain_names ps"
  then obtain c s where p: "p = c # s" "c \<noteq> sep" using Cons by (cases p) (auto simp: is_name_def)
  then show ?thesis using Cons by (cases qs) auto
qed simp

lemma path_string_abs: "plain_names ps \<Longrightarrow> filepath_IsAbs (path_string root ps) = root"
  using join_plain_head[of ps] by (auto simp: path_string_def filepath_IsAbs_def)

text \<open>A cleaned path stays as it is: \<open>..\<close> only at its front, and none at the root.\<close>

definition settled :: "bool \<Rightarrow> string list \<Rightarrow> bool" where
  "settled root ps \<longleftrightarrow> (\<exists>n qs. ps = replicate n dot_dot @ qs \<and> dot_dot \<notin> set qs \<and> (root \<longrightarrow> n = 0))"

lemma settled_root [simp]: "settled True ps \<longleftrightarrow> dot_dot \<notin> set ps"
  by (auto simp: settled_def)

lemma settled_snoc: "settled root ps \<Longrightarrow> p \<noteq> dot_dot \<Longrightarrow> settled root (ps @ [p])"
  unfolding settled_def by (metis append.assoc in_set_conv_decomp_first rotate1.simps(2) set_ConsD set_rotate1)

lemma settled_butlast: "settled root (ps @ [p]) \<Longrightarrow> settled root ps"
proof -
  assume "settled root (ps @ [p])"
  then obtain n qs where q: "ps @ [p] = replicate n dot_dot @ qs" "dot_dot \<notin> set qs" "root \<longrightarrow> n = 0"
    unfolding settled_def by blast
  show "settled root ps"
  proof (cases qs rule: rev_cases)
    case Nil
    then have "ps @ [p] = replicate n dot_dot" using q by simp
    then have "n = Suc (length ps)" "ps = take (length ps) (replicate n dot_dot)"
      by (metis length_append_singleton length_replicate, metis append_eq_conv_conj)
    then have "ps = replicate (length ps) dot_dot @ []" by (metis append_Nil2 lessI min.absorb3 take_replicate min.commute)
    then show ?thesis using q(3) \<open>n = Suc (length ps)\<close> unfolding settled_def by (metis empty_iff empty_set nat.distinct(1))
  next
    case (snoc rs r)
    then show ?thesis using q unfolding settled_def by auto
  qed
qed

lemma settled_dots: "settled False ps \<Longrightarrow> ps = [] \<or> last ps = dot_dot \<Longrightarrow> settled False (ps @ [dot_dot])"
proof -
  assume s: "settled False ps" "ps = [] \<or> last ps = dot_dot"
  then obtain n qs where q: "ps = replicate n dot_dot @ qs" "dot_dot \<notin> set qs" unfolding settled_def by blast
  then have "qs = []" using s(2) by (metis append_is_Nil_conv last_append last_in_set)
  then have "ps @ [dot_dot] = replicate (Suc n) dot_dot @ []" using q by (simp add: replicate_append_same)
  then show ?thesis unfolding settled_def by (intro exI[of _ "Suc n"] exI[of _ "[]"]) simp
qed

lemma clean_parts_settled: "settled root (rev acc) \<Longrightarrow> settled root (clean_parts root acc ps)"
proof (induction root acc ps rule: clean_parts.induct)
  case (2 root acc p ps)
  show ?case
  proof (cases "p = dot_dot")
    case False
    then show ?thesis using 2 settled_snoc by simp
  next
    case True
    show ?thesis
    proof (cases acc)
      case Nil
      have "settled root (rev (if root then [] else [dot_dot]))"
        using settled_dots[of "[]"] by (auto simp: settled_def)
      then show ?thesis using 2 True Nil by simp
    next
      case (Cons a as)
      then show ?thesis using 2 True settled_butlast[of root "rev as" a] settled_dots[of "rev acc"]
        by (cases root) auto
    qed
  qed
qed simp

lemma cleaned_settled: "settled (filepath_IsAbs p) (cleaned p)"
  by (simp add: cleaned_def clean_parts_settled settled_def[of _ "[]"])

lemma clean_parts_names: "dot_dot \<notin> set ps \<Longrightarrow> clean_parts root acc ps = rev acc @ ps"
  by (induction ps arbitrary: acc) auto

lemma clean_parts_append: "clean_parts root acc (ps @ qs) = clean_parts root (rev (clean_parts root acc ps)) qs"
  by (induction root acc ps rule: clean_parts.induct) (auto split: list.splits)

lemma clean_parts_dots: "clean_parts False (replicate k dot_dot) (replicate n dot_dot @ ps)
    = clean_parts False (replicate (n + k) dot_dot) ps"
proof (induction n arbitrary: k)
  case (Suc n)
  have "clean_parts False (replicate k dot_dot) (dot_dot # replicate n dot_dot @ ps)
      = clean_parts False (replicate (Suc k) dot_dot) (replicate n dot_dot @ ps)"
    by (cases k) auto
  then show ?case using Suc[of "Suc k"] by simp
qed simp

lemma clean_parts_same: "settled root ps \<Longrightarrow> clean_parts root [] ps = ps"
proof -
  assume "settled root ps"
  then obtain n qs where q: "ps = replicate n dot_dot @ qs" "dot_dot \<notin> set qs" "root \<longrightarrow> n = 0"
    unfolding settled_def by blast
  then show ?thesis using clean_parts_dots[of 0 n qs] by (cases root) (simp_all add: clean_parts_names)
qed

lemma clean_parts_twice: "clean_parts root [] (clean_parts root [] ps @ qs) = clean_parts root [] (ps @ qs)"
  by (subst (1 2) clean_parts_append)
    (simp add: clean_parts_same[OF clean_parts_settled[of root "[]"]] settled_def)

text \<open>Cleaning a relative path first makes no difference.\<close>

lemma clean_parts_relative: "clean_parts True A (clean_parts False acc ps) = clean_parts True A (rev acc @ ps)"
proof (induction "False" acc ps rule: clean_parts.induct)
  case (2 acc p ps)
  have pop: "clean_parts True A (xs @ a # dot_dot # ps) = clean_parts True A (xs @ ps)" if "a \<noteq> dot_dot" for xs a
    using that by (subst (1 2) clean_parts_append) simp
  show ?case using 2 pop by (auto split: list.splits)
qed simp

lemma clean_parts_inner: "clean_parts True A (ps @ clean_parts False [] qs) = clean_parts True A (ps @ qs)"
  by (subst (1 2) clean_parts_append) (simp add: clean_parts_relative)

section \<open>The functions on components\<close>

lemma cleaned_path_string: "plain_names ps \<Longrightarrow> settled root ps \<Longrightarrow> cleaned (path_string root ps) = ps"
  by (simp add: cleaned_def path_string_abs components_path_string clean_parts_same)

lemma Clean_facts:
  "filepath_IsAbs (filepath_Clean p) = filepath_IsAbs p" "cleaned (filepath_Clean p) = cleaned p"
  "filepath_Clean (filepath_Clean p) = filepath_Clean p"
proof -
  show a: "filepath_IsAbs (filepath_Clean p) = filepath_IsAbs p"
    by (simp add: filepath_Clean_def path_string_abs)
  show c: "cleaned (filepath_Clean p) = cleaned p"
    by (simp add: filepath_Clean_def cleaned_path_string cleaned_settled)
  show "filepath_Clean (filepath_Clean p) = filepath_Clean p"
    using a c by (subst (1 3) filepath_Clean_def) simp
qed

lemma path_string_not_Nil [simp]: "path_string root ps \<noteq> [] \<longleftrightarrow> root \<or> ps = [] \<or> str_join [sep] ps \<noteq> []"
  by (simp add: path_string_def)

lemma Clean_not_Nil [simp]: "filepath_Clean p \<noteq> []"
  using join_plain_head[of "cleaned p"] by (auto simp: filepath_Clean_def)

lemma join_abs: "d \<noteq> [] \<Longrightarrow> filepath_IsAbs (str_join [sep] (d # es)) = filepath_IsAbs d"
  by (cases es; cases d) (auto simp: filepath_IsAbs_def)

lemma Join_facts:
  assumes "d \<noteq> []"
  shows "filepath_IsAbs (filepath_Join (d # es)) = filepath_IsAbs d"
    "cleaned (filepath_Join (d # es)) = clean_parts (filepath_IsAbs d) [] (components d @ concat (map components es))"
    "filepath_Clean (filepath_Join (d # es)) = filepath_Join (d # es)" "filepath_Join (d # es) \<noteq> []"
  using assms join_abs[OF assms]
  by (simp_all add: filepath_Join_def Clean_facts cleaned_def[of "str_join _ _"] del: str_join.simps)

text \<open>The components of an absolute path.\<close>

definition abs_parts :: "string \<Rightarrow> string \<Rightarrow> string list" where
  "abs_parts wd p = clean_parts True [] ((if filepath_IsAbs p then [] else components wd) @ components p)"

lemma abs_parts_facts [simp]: "plain_names (abs_parts wd p)" "dot_dot \<notin> set (abs_parts wd p)"
proof -
  show "plain_names (abs_parts wd p)" by (simp add: abs_parts_def clean_parts_plain)
  have "settled True (abs_parts wd p)" unfolding abs_parts_def by (rule clean_parts_settled) simp
  then show "dot_dot \<notin> set (abs_parts wd p)" by simp
qed

lemma Abs_parts:
  assumes "filepath_IsAbs wd"
  shows "filepath_Abs (Inr wd) p = Inr (path_string True (abs_parts wd p))"
proof (cases "filepath_IsAbs p")
  case True
  then show ?thesis by (simp add: filepath_Abs_def abs_parts_def filepath_Clean_def cleaned_def)
next
  case False
  have w: "wd \<noteq> []" using assms by (auto simp: filepath_IsAbs_def)
  have "filepath_Join [wd, p] = path_string True (cleaned (filepath_Join [wd, p]))"
    using Join_facts(1,3)[OF w, of "[p]"] assms by (metis filepath_Clean_def)
  then show ?thesis using False Join_facts(2)[OF w, of "[p]"] assms by (simp add: filepath_Abs_def abs_parts_def)
qed

lemma abs_parts_Join:
  assumes "d \<noteq> []"
  shows "abs_parts wd (filepath_Join (d # es)) = clean_parts True [] (abs_parts wd d @ concat (map components es))"
proof -
  have j: "components (filepath_Join (d # es)) = cleaned (filepath_Join (d # es))"
    using Join_facts(3)[OF assms] components_path_string[of "cleaned (filepath_Join (d # es))"]
    by (metis cleaned_plain filepath_Clean_def)
  show ?thesis
  proof (cases "filepath_IsAbs d")
    case True
    then show ?thesis
      using clean_parts_twice[of True "components d @ concat (map components es)" "[]"]
        clean_parts_twice[of True "components d" "concat (map components es)"] j
      by (simp add: abs_parts_def Join_facts[OF assms])
  next
    case False
    show ?thesis
      using clean_parts_twice[of True "components wd @ components d" "concat (map components es)"] j False
        clean_parts_inner[of "[]" "components wd"]
      by (simp add: abs_parts_def Join_facts[OF assms])
  qed
qed

lemma path_string_inj:
  "plain_names ps \<Longrightarrow> plain_names qs \<Longrightarrow> path_string True ps = path_string True qs \<longleftrightarrow> ps = qs"
  by (metis components_path_string)

lemma str_join_append: "ps \<noteq> [] \<Longrightarrow> qs \<noteq> [] \<Longrightarrow> str_join [sep] (ps @ qs) = str_join [sep] ps @ sep # str_join [sep] qs"
  by (induction "[sep]" ps rule: str_join.induct) (auto simp: neq_Nil_conv)

text \<open>
  When the text of an absolute path begins with the text of another one: when it has its components,
  but for the last of them, of which the text only begins the component in its place.
\<close>

lemma prefix_path_string:
  assumes "plain_names bs" "plain_names fs"
  shows "prefix (path_string True bs) (path_string True fs) \<longleftrightarrow>
    bs = [] \<or> (\<exists>x rest. fs = butlast bs @ (last bs @ x) # rest)"
proof (cases "bs = []")
  case True
  then show ?thesis by (simp add: path_string_def)
next
  case False
  define cs b where "cs = butlast bs" and "b = last bs"
  have bs: "bs = cs @ [b]" using False by (simp add: cs_def b_def)
  have "prefix (str_join [sep] (cs @ [b])) (str_join [sep] fs) \<longleftrightarrow> (\<exists>x rest. fs = cs @ (b @ x) # rest)"
    using assms unfolding bs
  proof (induction cs arbitrary: fs)
    case Nil
    show ?case
    proof (cases fs)
      case Nil
      then show ?thesis using \<open>plain_names ([] @ [b])\<close> by (simp add: is_name_def)
    next
      case (Cons f fs')
      have "prefix b (str_join [sep] fs) \<longleftrightarrow> prefix b f"
      proof
        assume p: "prefix b (str_join [sep] fs)"
        show "prefix b f"
        proof (cases fs')
          case Nil
          then show ?thesis using p Cons by simp
        next
          case (Cons g gs)
          then have "prefix b (f @ sep # str_join [sep] fs')" using p \<open>fs = f # fs'\<close> by simp
          then show ?thesis using Nil.prems(1) by (auto simp: prefix_append prefix_Cons)
        qed
      qed (cases fs'; use Cons in simp)
      then show ?thesis using Cons by (auto simp: prefix_def)
    qed
  next
    case (Cons c cs)
    show ?case
    proof (cases fs)
      case Nil
      then show ?thesis by (cases cs) (use Cons.prems in \<open>auto simp: is_name_def\<close>)
    next
      case fs: (Cons f fs')
      have j: "str_join [sep] ((c # cs) @ [b]) = c @ sep # str_join [sep] (cs @ [b])" by (cases cs) auto
      have cf: "sep \<notin> set c" "sep \<notin> set f" using Cons.prems fs by auto
      show ?thesis
      proof (cases fs')
        case Nil
        have "\<not> prefix (c @ sep # str_join [sep] (cs @ [b])) f" using cf(2) by (auto simp: prefix_def)
        then show ?thesis using fs Nil j by simp
      next
        case (Cons g gs)
        have "prefix (c @ sep # str_join [sep] (cs @ [b])) (f @ sep # str_join [sep] fs')
          \<longleftrightarrow> c = f \<and> prefix (str_join [sep] (cs @ [b])) (str_join [sep] fs')"
          using cf by (auto simp: prefix_def append_eq_append_conv2 Cons_eq_append_conv append_eq_Cons_conv)
        then show ?thesis using Cons.IH[of fs'] Cons.prems fs Cons j by auto
      qed
    qed
  qed
  then show ?thesis using False by (simp add: path_string_def bs)
qed

end
