(* ===== verification/Local_Storage.thy ===== *)
theory Local_Storage
  imports File_Paths "HOL-Library.List_Lexorder" "HOL-Library.Char_ord"
begin

text \<open>
  \<open>adapter/storage/local/adapter.go\<close>: the storage adapter that keeps objects as files below a base
  directory, and the check of \<open>resolvePath\<close> that a path does not leave it.

  The functions of \<open>os\<close> work on a \<open>disk\<close>: the files and directories by the components of their
  absolute path, the working directory, and the failures of the calls to come, one for each call
  and none when the list is used up. There are no symbolic links and no permissions; a failure of
  either kind is one of the list. Log lines are left out.
\<close>

section \<open>The operating system\<close>

datatype node = Dir | File string

type_synonym files = "(string list, node) gomap"

record disk =
  dk_files :: files
  dk_wd :: string
  dk_wdErr :: "goerr option"
  dk_faults :: "goerr option list"

definition os_Getwd :: "disk \<Rightarrow> goerr + string" where
  "os_Getwd s = (case dk_wdErr s of Some e \<Rightarrow> Inl e | None \<Rightarrow> Inr (dk_wd s))"

definition next_fault :: "disk \<Rightarrow> goerr option \<times> disk" where
  "next_fault s = (case dk_faults s of [] \<Rightarrow> (None, s) | f # fs \<Rightarrow> (f, s\<lparr>dk_faults := fs\<rparr>))"

definition path_error :: "string \<Rightarrow> string \<Rightarrow> string \<Rightarrow> string \<Rightarrow> goerr" where
  "path_error op p errno t = LeafError errno ''*fs.PathError'' (op @ '' '' @ p @ '': '' @ t)"

definition os_IsNotExist :: "goerr \<Rightarrow> bool" where
  "os_IsNotExist e = (case e of LeafError i n t \<Rightarrow> i = ''ENOENT'' | _ \<Rightarrow> False)"

text \<open>The file at a path: every component before the last one must be a directory.\<close>

fun look :: "string \<Rightarrow> string \<Rightarrow> files \<Rightarrow> string list \<Rightarrow> string list \<Rightarrow> goerr + node" where
  "look op p fs pre [] = (case gm_get fs pre of
       None \<Rightarrow> Inl (path_error op p ''ENOENT'' ''no such file or directory'') | Some n \<Rightarrow> Inr n)"
| "look op p fs pre (c # cs) = (case gm_get fs pre of
       None \<Rightarrow> Inl (path_error op p ''ENOENT'' ''no such file or directory'')
     | Some (File t) \<Rightarrow> Inl (path_error op p ''ENOTDIR'' ''not a directory'')
     | Some Dir \<Rightarrow> look op p fs (pre @ [c]) cs)"

definition key :: "disk \<Rightarrow> string \<Rightarrow> string list" where
  "key s p = abs_parts (dk_wd s) p"

definition os_Stat :: "string \<Rightarrow> disk \<Rightarrow> (goerr + node) \<times> disk" where
  "os_Stat p s = (case next_fault s of
       (Some e, s1) \<Rightarrow> (Inl e, s1) | (None, s1) \<Rightarrow> (look ''stat'' p (dk_files s1) [] (key s1 p), s1))"

definition mkdir_one :: "string \<Rightarrow> string list \<Rightarrow> files \<Rightarrow> goerr option \<times> files" where
  "mkdir_one p k fs = (case gm_get fs k of
       Some (File t) \<Rightarrow> (Some (path_error ''mkdir'' p ''ENOTDIR'' ''not a directory''), fs)
     | Some Dir \<Rightarrow> (None, fs)
     | None \<Rightarrow> (None, gm_put k Dir fs))"

fun mkdirs :: "string \<Rightarrow> string list \<Rightarrow> string list \<Rightarrow> files \<Rightarrow> goerr option \<times> files" where
  "mkdirs p pre [] fs = mkdir_one p pre fs"
| "mkdirs p pre (c # cs) fs = (case mkdir_one p pre fs of
       (Some e, fs1) \<Rightarrow> (Some e, fs1) | (None, fs1) \<Rightarrow> mkdirs p (pre @ [c]) cs fs1)"

definition os_MkdirAll :: "string \<Rightarrow> disk \<Rightarrow> goerr option \<times> disk" where
  "os_MkdirAll p s = (case next_fault s of
       (Some e, s1) \<Rightarrow> (Some e, s1)
     | (None, s1) \<Rightarrow> (case mkdirs p [] (key s1 p) (dk_files s1) of (err, fs) \<Rightarrow> (err, s1\<lparr>dk_files := fs\<rparr>)))"

text \<open>\<open>os.Create\<close> empties the file or makes an empty one in a directory that is there.\<close>

definition os_Create :: "string \<Rightarrow> disk \<Rightarrow> goerr option \<times> disk" where
  "os_Create p s = (case next_fault s of
       (Some e, s1) \<Rightarrow> (Some e, s1)
     | (None, s1) \<Rightarrow>
         (let k = key s1 p; isdir = Some (path_error ''open'' p ''EISDIR'' ''is a directory'') in
          if k = [] then (isdir, s1)
          else (case look ''open'' p (dk_files s1) [] (butlast k) of
              Inl e \<Rightarrow> (Some e, s1)
            | Inr (File t) \<Rightarrow> (Some (path_error ''open'' p ''ENOTDIR'' ''not a directory''), s1)
            | Inr Dir \<Rightarrow> if gm_get (dk_files s1) k = Some Dir then (isdir, s1)
                else (None, s1\<lparr>dk_files := gm_put k (File []) (dk_files s1)\<rparr>))))"

text \<open>
  \<open>io.Copy\<close> to the file that was created, from a reader that yields some bytes and then ends or
  fails; a failure to write leaves the file empty.
\<close>

definition io_Copy :: "string \<Rightarrow> string \<times> goerr option \<Rightarrow> disk \<Rightarrow> goerr option \<times> disk" where
  "io_Copy p data s = (case next_fault s of
       (Some e, s1) \<Rightarrow> (Some e, s1)
     | (None, s1) \<Rightarrow> (snd data, s1\<lparr>dk_files := gm_put (key s1 p) (File (fst data)) (dk_files s1)\<rparr>))"

definition os_Open :: "string \<Rightarrow> disk \<Rightarrow> (goerr + node) \<times> disk" where
  "os_Open p s = (case next_fault s of
       (Some e, s1) \<Rightarrow> (Inl e, s1) | (None, s1) \<Rightarrow> (look ''open'' p (dk_files s1) [] (key s1 p), s1))"

text \<open>\<open>os.Remove\<close>: a file, or a directory with nothing in it.\<close>

definition os_Remove :: "string \<Rightarrow> disk \<Rightarrow> goerr option \<times> disk" where
  "os_Remove p s = (case next_fault s of
       (Some e, s1) \<Rightarrow> (Some e, s1)
     | (None, s1) \<Rightarrow>
         (let k = key s1 p in
          case look ''remove'' p (dk_files s1) [] k of
            Inl e \<Rightarrow> (Some e, s1)
          | Inr (File t) \<Rightarrow> (None, s1\<lparr>dk_files := gm_del k (dk_files s1)\<rparr>)
          | Inr Dir \<Rightarrow>
              if k = [] \<or> list_ex (\<lambda>q. strict_prefix k q) (map fst (dk_files s1))
              then (Some (path_error ''remove'' p ''ENOTEMPTY'' ''directory not empty''), s1)
              else (None, s1\<lparr>dk_files := gm_del k (dk_files s1)\<rparr>)))"

section \<open>The adapter\<close>

record StorageConfig =
  sc_Type :: string
  sc_BucketName :: string
  sc_CredentialsFile :: string
  sc_BaseDir :: string

record localAdapter =
  la_cfg :: StorageConfig
  la_name :: string

definition NewLocalAdapter :: "StorageConfig \<Rightarrow> string \<Rightarrow> disk \<Rightarrow> (goerr + localAdapter) \<times> disk" where
  "NewLocalAdapter cfg name s =
     (let pre = ''local storage adapter '' @ quoted name @ '': ''; base = sc_BaseDir cfg;
          made = Inr \<lparr>la_cfg = cfg, la_name = name\<rparr> in
      if base = [] then (Inl (plain_error (pre @ ''BaseDir must be specified in configuration'')), s)
      else (case os_Stat base s of
          (Inl e, s1) \<Rightarrow>
            if os_IsNotExist e
            then (case os_MkdirAll base s1 of
                (Some e1, s2) \<Rightarrow> (Inl (WrapError (pre @ ''failed to create BaseDir '' @ quoted base @ '': ''
                    @ Error_text e1) e1), s2)
              | (None, s2) \<Rightarrow> (made, s2))
            else (Inl (WrapError (pre @ ''failed to stat BaseDir '' @ quoted base @ '': '' @ Error_text e) e), s1)
        | (Inr Dir, s1) \<Rightarrow> (made, s1)
        | (Inr (File t), s1) \<Rightarrow> (Inl (plain_error (pre @ ''BaseDir '' @ quoted base @ '' is not a directory'')), s1)))"

definition local_Close :: "localAdapter \<Rightarrow> goerr option" where
  "local_Close a = None"

definition local_Type :: "localAdapter \<Rightarrow> string" where
  "local_Type a = ''local''"

definition full_path :: "localAdapter \<Rightarrow> string \<Rightarrow> string \<Rightarrow> string" where
  "full_path a bucket objectName =
     (let b = (if bucket = [] then sc_BucketName (la_cfg a) else bucket) in
      if b = [] then filepath_Join [sc_BaseDir (la_cfg a), objectName]
      else filepath_Join [sc_BaseDir (la_cfg a), b, objectName])"

definition resolvePath :: "localAdapter \<Rightarrow> goerr + string \<Rightarrow> string \<Rightarrow> string \<Rightarrow> goerr + string" where
  "resolvePath a wd bucket objectName =
     (let base = sc_BaseDir (la_cfg a); full = full_path a bucket objectName in
      if base = [] then Inl (plain_error (''BaseDir is not configured for local adapter '' @ quoted (la_name a)))
      else (case filepath_Abs wd base of
          Inl e \<Rightarrow> Inl (WrapError (''failed to get absolute path for BaseDir '' @ quoted base @ '': '' @ Error_text e) e)
        | Inr absBase \<Rightarrow> (case filepath_Abs wd full of
              Inl e \<Rightarrow> Inl (WrapError (''failed to get absolute path for '' @ quoted full @ '': '' @ Error_text e) e)
            | Inr absFull \<Rightarrow>
                if prefix absBase absFull then Inr full
                else Inl (plain_error (''resolved path '' @ quoted full @ '' is outside of BaseDir '' @ quoted base)))))"

definition Upload :: "localAdapter \<Rightarrow> string \<Rightarrow> string \<Rightarrow> string \<times> goerr option \<Rightarrow> disk \<Rightarrow> goerr option \<times> disk" where
  "Upload a bucket objectName data s =
     (case resolvePath a (os_Getwd s) bucket objectName of
        Inl e \<Rightarrow> (Some (WrapError (''failed to resolve path for upload: '' @ Error_text e) e), s)
      | Inr p \<Rightarrow>
          (let dir = filepath_Dir p in
           case os_MkdirAll dir s of
             (Some e, s1) \<Rightarrow> (Some (WrapError (''failed to create directory '' @ quoted dir @ '': '' @ Error_text e) e), s1)
           | (None, s1) \<Rightarrow> (case os_Create p s1 of
                 (Some e, s2) \<Rightarrow> (Some (WrapError (''failed to create file '' @ quoted p @ '': '' @ Error_text e) e), s2)
               | (None, s2) \<Rightarrow> (case io_Copy p data s2 of
                     (Some e, s3) \<Rightarrow> (Some (WrapError (''failed to write data to file '' @ quoted p @ '': '' @ Error_text e) e), s3)
                   | (None, s3) \<Rightarrow> (None, s3)))))"

definition Download :: "localAdapter \<Rightarrow> string \<Rightarrow> string \<Rightarrow> disk \<Rightarrow> (goerr + node) \<times> disk" where
  "Download a bucket objectName s =
     (case resolvePath a (os_Getwd s) bucket objectName of
        Inl e \<Rightarrow> (Inl (WrapError (''failed to resolve path for download: '' @ Error_text e) e), s)
      | Inr p \<Rightarrow> (case os_Open p s of
            (Inl e, s1) \<Rightarrow> (Inl (WrapError (''failed to open file '' @ quoted p @ '': '' @ Error_text e) e), s1)
          | (Inr n, s1) \<Rightarrow> (Inr n, s1)))"

definition DeleteObject :: "localAdapter \<Rightarrow> string \<Rightarrow> string \<Rightarrow> disk \<Rightarrow> goerr option \<times> disk" where
  "DeleteObject a bucket objectName s =
     (case resolvePath a (os_Getwd s) bucket objectName of
        Inl e \<Rightarrow> (Some (WrapError (''failed to resolve path for delete: '' @ Error_text e) e), s)
      | Inr p \<Rightarrow> (case os_Remove p s of
            (Some e, s1) \<Rightarrow> (if os_IsNotExist e then None
               else Some (WrapError (''failed to delete file '' @ quoted p @ '': '' @ Error_text e) e), s1)
          | (None, s1) \<Rightarrow> (None, s1)))"

definition Exists :: "localAdapter \<Rightarrow> string \<Rightarrow> string \<Rightarrow> disk \<Rightarrow> (goerr + bool) \<times> disk" where
  "Exists a bucket objectName s =
     (case resolvePath a (os_Getwd s) bucket objectName of
        Inl e \<Rightarrow> (Inl (WrapError (''failed to resolve path for exists check: '' @ Error_text e) e), s)
      | Inr p \<Rightarrow> (case os_Stat p s of
            (Inr n, s1) \<Rightarrow> (Inr True, s1)
          | (Inl e, s1) \<Rightarrow> (if os_IsNotExist e then Inr False
               else Inl (WrapError (''failed to check existence of file '' @ quoted p @ '': '' @ Error_text e) e), s1)))"

section \<open>Listing\<close>

text \<open>
  \<open>filepath.WalkDir\<close> visits the root and everything below it, a directory before what it holds and
  the names of a directory in their order. The path it hands on is the root with the names joined
  to it. Reading a directory may fail, which the callback returns. A callback that returns
  \<open>fs.SkipDir\<close> or \<open>fs.SkipAll\<close> is not modelled.
\<close>

definition below :: "string list \<Rightarrow> files \<Rightarrow> string list list" where
  "below k fs = sort (filter (prefix k) (remdups (map fst fs)))"

definition walk_path :: "string \<Rightarrow> string list \<Rightarrow> string" where
  "walk_path root names = foldl (\<lambda>p n. filepath_Join [p, n]) root names"

definition slashes :: "string \<Rightarrow> string" where
  "slashes s = map (\<lambda>c. if c = CHR 0x5C then sep else c) s"

definition visit_file :: "string \<Rightarrow> string \<Rightarrow> (string \<Rightarrow> 'a \<Rightarrow> goerr option \<times> 'a) \<Rightarrow> string \<Rightarrow> 'a \<Rightarrow> goerr option \<times> 'a" where
  "visit_file basePath pfx fn p acc =
     (if \<not> prefix pfx p then (None, acc)
      else (case filepath_Rel basePath p of
          Inl e \<Rightarrow> (Some (WrapError (''failed to get relative path for '' @ quoted p @ '' from '' @ quoted basePath
              @ '': '' @ Error_text e) e), acc)
        | Inr name \<Rightarrow> fn (slashes name) acc))"

fun walk :: "string \<Rightarrow> string list \<Rightarrow> string \<Rightarrow> (string \<Rightarrow> 'a \<Rightarrow> goerr option \<times> 'a) \<Rightarrow> string list list \<Rightarrow>
    disk \<Rightarrow> 'a \<Rightarrow> goerr option \<times> disk \<times> 'a" where
  "walk basePath k pfx fn [] s acc = (None, s, acc)"
| "walk basePath k pfx fn (q # qs) s acc =
     (case gm_get (dk_files s) q of
        Some (File t) \<Rightarrow> (case visit_file basePath pfx fn (walk_path basePath (drop (length k) q)) acc of
            (Some e, acc1) \<Rightarrow> (Some e, s, acc1) | (None, acc1) \<Rightarrow> walk basePath k pfx fn qs s acc1)
      | _ \<Rightarrow> (case next_fault s of
            (Some e, s1) \<Rightarrow> (Some e, s1, acc) | (None, s1) \<Rightarrow> walk basePath k pfx fn qs s1 acc))"

definition list_prefix :: "string \<Rightarrow> string \<Rightarrow> string" where
  "list_prefix basePath pfx =
     (if pfx \<noteq> [] \<and> \<not> prefix [sep] pfx then filepath_Join [basePath, pfx]
      else if pfx = [] then basePath else pfx)"

definition ListObjects :: "localAdapter \<Rightarrow> string \<Rightarrow> string \<Rightarrow> (string \<Rightarrow> 'a \<Rightarrow> goerr option \<times> 'a) \<Rightarrow> disk \<Rightarrow> 'a \<Rightarrow>
    goerr option \<times> disk \<times> 'a" where
  "ListObjects a bucket pfx0 fn s acc =
     (case resolvePath a (os_Getwd s) bucket [] of
        Inl e \<Rightarrow> (Some (WrapError (''failed to resolve base path for listing: '' @ Error_text e) e), s, acc)
      | Inr basePath \<Rightarrow>
          (let pfx = list_prefix basePath pfx0;
               failed = (\<lambda>e. Some (WrapError (''failed to list objects in '' @ quoted basePath @ '' with prefix ''
                  @ quoted pfx @ '': '' @ Error_text e) e)) in
           case os_Stat basePath s of
             (Inl e, s1) \<Rightarrow> (failed e, s1, acc)
           | (Inr n, s1) \<Rightarrow>
               (case walk basePath (key s1 basePath) pfx fn (below (key s1 basePath) (dk_files s1)) s1 acc of
                  (Some e, s2, acc1) \<Rightarrow> (failed e, s2, acc1) | (None, s2, acc1) \<Rightarrow> (None, s2, acc1))))"

end
