(* ===== verification/Storage_Correct.thy ===== *)
theory Storage_Correct
  imports Local_Storage
begin

text \<open>
  What the local storage adapter guarantees: which paths the check of \<open>resolvePath\<close> lets through,
  that objects with plain names stay below the base directory, that what was uploaded can be
  downloaded, found and deleted, and what a listing yields.
\<close>

section \<open>Trees of files\<close>

text \<open>The root is a directory, and so is what holds a file or a directory.\<close>

definition tree :: "files \<Rightarrow> bool" where
  "tree fs \<longleftrightarrow> gm_get fs [] = Some Dir
     \<and> (\<forall>k n. gm_get fs k = Some n \<longrightarrow> plain_names k \<and> dot_dot \<notin> set k
          \<and> (k \<noteq> [] \<longrightarrow> gm_get fs (butlast k) = Some Dir))"

lemma look_iff: "look op p fs pre cs = Inr n \<longleftrightarrow>
    (\<forall>m<length cs. gm_get fs (pre @ take m cs) = Some Dir) \<and> gm_get fs (pre @ cs) = Some n"
proof (induction cs arbitrary: pre)
  case (Cons c cs)
  have "(\<forall>m<length (c # cs). gm_get fs (pre @ take m (c # cs)) = Some Dir) \<longleftrightarrow>
      gm_get fs pre = Some Dir \<and> (\<forall>m<length cs. gm_get fs ((pre @ [c]) @ take m cs) = Some Dir)"
    by (simp add: All_less_Suc2)
  then show ?case using Cons[of "pre @ [c]"] by (auto split: option.splits node.splits)
qed (auto split: option.splits)

lemma tree_prefix:
  assumes "tree fs" "gm_get fs k = Some n" "m < length k"
  shows "gm_get fs (take m k) = Some Dir"
  using assms(2,3)
proof (induction k arbitrary: n rule: rev_induct)
  case (snoc c k)
  have "gm_get fs k = Some Dir" using assms(1) snoc.prems unfolding tree_def by force
  then show ?case using snoc.IH[of Dir] snoc.prems by (cases "m < length k") auto
qed simp

lemma tree_names: "tree fs \<Longrightarrow> gm_get fs k = Some n \<Longrightarrow> plain_names k \<and> dot_dot \<notin> set k"
  by (simp add: tree_def)

lemma look_tree: "tree fs \<Longrightarrow> look op p fs [] k = Inr n \<longleftrightarrow> gm_get fs k = Some n"
  using tree_prefix by (auto simp: look_iff)

lemma tree_put:
  assumes "tree fs" "plain_names k" "dot_dot \<notin> set k" "k \<noteq> []" "gm_get fs (butlast k) = Some Dir"
    "\<not> (gm_get fs k = Some Dir \<and> n \<noteq> Dir)"
  shows "tree (gm_put k n fs)"
proof -
  have "gm_get (gm_put k n fs) (butlast q) = Some Dir" if "gm_get fs q = Some m" "q \<noteq> []" for q m
    using assms(1,6) that unfolding tree_def by (cases "butlast q = k") auto
  moreover have "gm_get (gm_put k n fs) (butlast k) = Some Dir"
    using assms(4,5) by (metis gm_get_put length_butlast diff_less length_greater_0_conv less_irrefl zero_less_one)
  ultimately show ?thesis using assms unfolding tree_def by auto
qed

lemma mkdir_one_spec:
  assumes "mkdir_one p k fs = (err, fs1)"
  shows "\<And>q. gm_get fs1 q \<noteq> gm_get fs q \<Longrightarrow> q = k \<and> gm_get fs k = None"
    "err = None \<Longrightarrow> gm_get fs1 k = Some Dir"
    "tree fs \<Longrightarrow> plain_names k \<Longrightarrow> dot_dot \<notin> set k \<Longrightarrow> k = [] \<or> gm_get fs (butlast k) = Some Dir \<Longrightarrow> tree fs1"
  using assms tree_put[of fs k Dir] by (auto simp: mkdir_one_def tree_def split: option.splits node.splits if_splits)

lemma mkdirs_spec:
  assumes "mkdirs p pre cs fs = (err, fs1)"
  shows "\<And>q. gm_get fs1 q \<noteq> gm_get fs q \<Longrightarrow> prefix q (pre @ cs) \<and> gm_get fs q = None"
    and "tree fs \<Longrightarrow> plain_names (pre @ cs) \<Longrightarrow> dot_dot \<notin> set (pre @ cs) \<Longrightarrow>
      pre = [] \<or> gm_get fs (butlast pre) = Some Dir \<Longrightarrow> tree fs1"
  using assms
proof (induction p pre cs fs rule: mkdirs.induct)
  case (1 p pre fs)
  { case 1 then show ?case using mkdir_one_spec(1)[of p pre fs err fs1 q] by auto
  next
    case 2 then show ?case using mkdir_one_spec(3)[of p pre fs err fs1] by auto
  }
next
  case (2 p pre c cs fs)
  obtain e1 fs2 where m: "mkdir_one p pre fs = (e1, fs2)" by (cases "mkdir_one p pre fs")
  note IH = "2.IH"[OF m[symmetric]]
  { case 1
    show ?case
    proof (cases e1)
      case None
      then have r: "mkdirs p (pre @ [c]) cs fs2 = (err, fs1)" using 1 m by simp
      show ?thesis
      proof (cases "gm_get fs1 q = gm_get fs2 q")
        case True
        then show ?thesis using mkdir_one_spec(1)[OF m, of q] 1 by auto
      next
        case False
        then have "prefix q (pre @ c # cs)" "gm_get fs2 q = None" using IH(1)[OF None _ r, of q] by auto
        then show ?thesis using mkdir_one_spec(1)[OF m, of q] mkdir_one_spec(2)[OF m None]
          by (metis option.distinct(1))
      qed
    qed (use 1 m mkdir_one_spec(1)[OF m, of q] in auto)
  next
    case 2
    have t: "tree fs2" using mkdir_one_spec(3)[OF m] 2 by auto
    show ?case
    proof (cases e1)
      case None
      then have r: "mkdirs p (pre @ [c]) cs fs2 = (err, fs1)" using 2 m by simp
      show ?thesis using IH(2)[OF None t _ _ _ r] 2 mkdir_one_spec(2)[OF m None] by auto
    qed (use 2 m t in auto)
  }
qed

lemma look_missing:
  "(\<forall>m<length cs. gm_get fs (pre @ take m cs) = Some Dir) \<Longrightarrow> gm_get fs (pre @ cs) = None \<Longrightarrow>
    look op p fs pre cs = Inl (path_error op p ''ENOENT'' ''no such file or directory'')"
proof (induction cs arbitrary: pre)
  case (Cons c cs)
  have "gm_get fs pre = Some Dir" "\<forall>m<length cs. gm_get fs ((pre @ [c]) @ take m cs) = Some Dir"
    using Cons.prems(1) by (simp_all add: All_less_Suc2)
  then show ?case using Cons.IH[of "pre @ [c]"] Cons.prems(2) by simp
qed simp

lemma next_fault_fields [simp]:
  assumes "next_fault s = (f, s1)"
  shows "dk_files s1 = dk_files s" "dk_wd s1 = dk_wd s" "dk_wdErr s1 = dk_wdErr s"
  using assms by (auto simp: next_fault_def split: list.splits)

lemma no_fault: "dk_faults s = [] \<Longrightarrow> next_fault s = (None, s)"
  by (simp add: next_fault_def)

lemma os_keeps:
  "os_Stat p s = (r, s1) \<Longrightarrow> dk_files s1 = dk_files s \<and> dk_wd s1 = dk_wd s \<and> dk_wdErr s1 = dk_wdErr s"
  "os_Open p s = (r, s1) \<Longrightarrow> dk_files s1 = dk_files s \<and> dk_wd s1 = dk_wd s \<and> dk_wdErr s1 = dk_wdErr s"
  "os_MkdirAll p s = (err, s1) \<Longrightarrow> dk_wd s1 = dk_wd s \<and> dk_wdErr s1 = dk_wdErr s"
  "os_Create p s = (err, s1) \<Longrightarrow> dk_wd s1 = dk_wd s \<and> dk_wdErr s1 = dk_wdErr s"
  "io_Copy p data s = (err, s1) \<Longrightarrow> dk_wd s1 = dk_wd s \<and> dk_wdErr s1 = dk_wdErr s"
  "os_Remove p s = (err, s1) \<Longrightarrow> dk_wd s1 = dk_wd s \<and> dk_wdErr s1 = dk_wdErr s"
  by (auto simp: os_Stat_def os_Open_def os_MkdirAll_def os_Create_def io_Copy_def os_Remove_def Let_def
      split: prod.splits option.splits if_splits sum.splits node.splits)

lemma key_facts [simp]: "plain_names (key s p)" "dot_dot \<notin> set (key s p)"
  by (simp_all add: key_def)

lemma MkdirAll_spec:
  assumes "os_MkdirAll p s = (err, s1)"
  shows "gm_get (dk_files s1) q \<noteq> gm_get (dk_files s) q \<Longrightarrow> prefix q (key s p) \<and> gm_get (dk_files s) q = None"
    "tree (dk_files s) \<Longrightarrow> tree (dk_files s1)"
proof -
  obtain f s0 where f: "next_fault s = (f, s0)" by (cases "next_fault s")
  obtain err' fs where m: "mkdirs p [] (key s0 p) (dk_files s0) = (err', fs)" by (cases "mkdirs p [] (key s0 p) (dk_files s0)")
  have k: "key s0 p = key s p" using f by (simp add: key_def)
  have c: "dk_files s1 = (if f = None then fs else dk_files s)"
    using assms f m by (auto simp: os_MkdirAll_def split: option.splits)
  show "gm_get (dk_files s1) q \<noteq> gm_get (dk_files s) q \<Longrightarrow> prefix q (key s p) \<and> gm_get (dk_files s) q = None"
    using mkdirs_spec(1)[OF m, of q] c f k by (auto split: if_splits)
  show "tree (dk_files s) \<Longrightarrow> tree (dk_files s1)"
    using mkdirs_spec(2)[OF m] c f by (auto split: if_splits)
qed

lemma Create_spec:
  assumes "os_Create p s = (err, s1)"
  shows "gm_get (dk_files s1) q \<noteq> gm_get (dk_files s) q \<Longrightarrow> q = key s p"
    "tree (dk_files s) \<Longrightarrow> tree (dk_files s1)"
    "tree (dk_files s) \<Longrightarrow> err = None \<Longrightarrow> key s p \<noteq> [] \<and> gm_get (dk_files s1) (key s p) = Some (File [])
      \<and> gm_get (dk_files s1) (butlast (key s p)) = Some Dir"
proof -
  obtain f s0 where f: "next_fault s = (f, s0)" by (cases "next_fault s")
  have k: "key s0 p = key s p" using f by (simp add: key_def)
  consider "dk_files s1 = dk_files s" "err \<noteq> None"
    | "err = None" "key s p \<noteq> []" "dk_files s1 = gm_put (key s p) (File []) (dk_files s)"
      "look ''open'' p (dk_files s) [] (butlast (key s p)) = Inr Dir" "gm_get (dk_files s) (key s p) \<noteq> Some Dir"
    using assms f k by (auto simp: os_Create_def Let_def split: option.splits if_splits sum.splits node.splits)
  note c = this
  have b: "butlast (key s p) \<noteq> key s p" if "key s p \<noteq> []"
    using that by (metis length_butlast diff_less length_greater_0_conv less_irrefl zero_less_one)
  show "gm_get (dk_files s1) q \<noteq> gm_get (dk_files s) q \<Longrightarrow> q = key s p"
    by (rule c) (auto split: if_splits)
  show "tree (dk_files s) \<Longrightarrow> tree (dk_files s1)"
    by (rule c) (use look_tree tree_put in auto)
  show "tree (dk_files s) \<Longrightarrow> err = None \<Longrightarrow> key s p \<noteq> [] \<and> gm_get (dk_files s1) (key s p) = Some (File [])
      \<and> gm_get (dk_files s1) (butlast (key s p)) = Some Dir"
    by (rule c) (use look_tree b in auto)
qed

lemma Copy_spec:
  assumes "io_Copy p data s = (err, s1)" "tree (dk_files s)" "gm_get (dk_files s) (key s p) = Some (File t)"
  shows "gm_get (dk_files s1) q \<noteq> gm_get (dk_files s) q \<Longrightarrow> q = key s p"
    "tree (dk_files s1)" "err = None \<Longrightarrow> gm_get (dk_files s1) (key s p) = Some (File (fst data)) \<and> snd data = None"
proof -
  obtain f s0 where f: "next_fault s = (f, s0)" by (cases "next_fault s")
  have k: "key s0 p = key s p" using f by (simp add: key_def)
  have ne: "key s p \<noteq> []" using assms(2,3) by (auto simp: tree_def)
  have b: "gm_get (dk_files s) (butlast (key s p)) = Some Dir" using assms(2,3) ne unfolding tree_def by blast
  consider "dk_files s1 = dk_files s" "err \<noteq> None"
    | "err = snd data" "dk_files s1 = gm_put (key s p) (File (fst data)) (dk_files s)"
    using assms(1) f k by (auto simp: io_Copy_def split: option.splits)
  note c = this
  show "gm_get (dk_files s1) q \<noteq> gm_get (dk_files s) q \<Longrightarrow> q = key s p"
    by (rule c) (auto split: if_splits)
  show "tree (dk_files s1)"
    by (rule c) (use assms ne b tree_put in auto)
  show "err = None \<Longrightarrow> gm_get (dk_files s1) (key s p) = Some (File (fst data)) \<and> snd data = None"
    by (rule c) auto
qed

lemma Remove_spec:
  assumes "os_Remove p s = (err, s1)"
  shows "gm_get (dk_files s1) q \<noteq> gm_get (dk_files s) q \<Longrightarrow> q = key s p"
    "tree (dk_files s) \<Longrightarrow> tree (dk_files s1)"
proof -
  obtain f s0 where f: "next_fault s = (f, s0)" by (cases "next_fault s")
  have k: "key s0 p = key s p" using f by (simp add: key_def)
  consider "dk_files s1 = dk_files s"
    | n where "dk_files s1 = gm_del (key s p) (dk_files s)" "look ''remove'' p (dk_files s) [] (key s p) = Inr n"
      "n = Dir \<Longrightarrow> key s p \<noteq> [] \<and> \<not> list_ex (\<lambda>q. strict_prefix (key s p) q) (map fst (dk_files s))"
    using assms f k by (auto simp: os_Remove_def Let_def split: option.splits if_splits sum.splits node.splits)
  note c = this
  show "gm_get (dk_files s1) q \<noteq> gm_get (dk_files s) q \<Longrightarrow> q = key s p"
    by (rule c) (auto split: if_splits)
  show "tree (dk_files s1)" if t: "tree (dk_files s)"
  proof (rule c)
    fix n assume d: "dk_files s1 = gm_del (key s p) (dk_files s)"
      and l: "look ''remove'' p (dk_files s) [] (key s p) = Inr n"
      and n: "n = Dir \<Longrightarrow> key s p \<noteq> [] \<and> \<not> list_ex (\<lambda>q. strict_prefix (key s p) q) (map fst (dk_files s))"
    have g: "gm_get (dk_files s) (key s p) = Some n" using l look_tree[OF t] by blast
    have ne: "key s p \<noteq> []" using n g t by (cases n) (auto simp: tree_def)
    have "butlast q \<noteq> key s p" if q: "gm_get (dk_files s) q = Some m" "q \<noteq> []" for q m
    proof
      assume b: "butlast q = key s p"
      then have "gm_get (dk_files s) (key s p) = Some Dir" using t q unfolding tree_def by metis
      then have "n = Dir" using g by simp
      moreover have "strict_prefix (key s p) q" using b q(2) by (metis append_butlast_last_id strict_prefixI' list.distinct(1) append_self_conv prefixI prefix_order.less_le)
      moreover have "q \<in> set (map fst (dk_files s))" using q(1) by (force dest: map_of_SomeD)
      ultimately show False using n by (auto simp: list_ex_iff)
    qed
    then show ?thesis using t d ne unfolding tree_def by auto
  qed (use t in simp)
qed

section \<open>The check of the path\<close>

text \<open>
  What the check lets through: the base directory itself, everything below it, and everything in
  or below a directory beside it whose name begins with the name of the base directory.
\<close>

definition beneath :: "string list \<Rightarrow> string list \<Rightarrow> bool" where
  "beneath bs fs \<longleftrightarrow> bs = [] \<or> (\<exists>x rest. fs = butlast bs @ (last bs @ x) # rest)"

lemma beneath_prefix [intro]: "prefix bs fs \<Longrightarrow> beneath bs fs"
  by (cases bs rule: rev_cases) (auto simp: beneath_def prefix_def intro: exI[of _ "[]"])

definition bucket_of :: "localAdapter \<Rightarrow> string \<Rightarrow> string" where
  "bucket_of a bucket = (if bucket = [] then sc_BucketName (la_cfg a) else bucket)"

definition named :: "localAdapter \<Rightarrow> string \<Rightarrow> string \<Rightarrow> string list" where
  "named a bucket objectName = components (bucket_of a bucket) @ components objectName"

lemma full_path_facts:
  assumes "sc_BaseDir (la_cfg a) \<noteq> []"
  shows "abs_parts wd (full_path a b ob) = clean_parts True [] (abs_parts wd (sc_BaseDir (la_cfg a)) @ named a b ob)"
    "filepath_Clean (full_path a b ob) = full_path a b ob"
    "cleaned (full_path a b ob) = clean_parts (filepath_IsAbs (sc_BaseDir (la_cfg a))) []
       (components (sc_BaseDir (la_cfg a)) @ named a b ob)"
    "filepath_IsAbs (full_path a b ob) = filepath_IsAbs (sc_BaseDir (la_cfg a))"
  using assms by (simp_all add: full_path_def named_def bucket_of_def Let_def abs_parts_Join Join_facts)

lemma resolve_iff:
  assumes "filepath_IsAbs wd" "sc_BaseDir (la_cfg a) \<noteq> []"
  shows "resolvePath a (Inr wd) b ob = Inr p \<longleftrightarrow> p = full_path a b ob
    \<and> beneath (abs_parts wd (sc_BaseDir (la_cfg a))) (abs_parts wd p)"
  using prefix_path_string[OF abs_parts_facts(1) abs_parts_facts(1), of wd "sc_BaseDir (la_cfg a)" wd "full_path a b ob"] assms(2)
  by (auto simp: resolvePath_def Let_def Abs_parts[OF assms(1)] beneath_def)

lemma named_parts:
  "sc_BaseDir (la_cfg a) \<noteq> [] \<Longrightarrow> dot_dot \<notin> set (named a b ob) \<Longrightarrow>
    abs_parts wd (full_path a b ob) = abs_parts wd (sc_BaseDir (la_cfg a)) @ named a b ob"
  using full_path_facts(1)[of a wd b ob] by (simp add: clean_parts_names)

text \<open>
  The check of \<open>resolvePath\<close>, for every base directory, bucket and object name, \<open>..\<close> and
  relative paths included: a path is accepted exactly when, component by component, it has the
  components of the base directory, where the last of them need only begin the component in its
  place. Names without \<open>..\<close> are never refused and stay below the base directory; but the
  comparison of texts also accepts a path in a sibling of the base directory.
\<close>

theorem resolve_accepts:
  assumes "filepath_IsAbs wd" "sc_BaseDir (la_cfg a) \<noteq> []"
  shows "((\<exists>p. resolvePath a (Inr wd) b ob = Inr p) \<longleftrightarrow>
      abs_parts wd (sc_BaseDir (la_cfg a)) = []
      \<or> (\<exists>x rest. abs_parts wd (full_path a b ob) = butlast (abs_parts wd (sc_BaseDir (la_cfg a)))
           @ (last (abs_parts wd (sc_BaseDir (la_cfg a))) @ x) # rest))
    \<and> (dot_dot \<notin> set (named a b ob) \<longrightarrow> (\<exists>p. resolvePath a (Inr wd) b ob = Inr p
      \<and> abs_parts wd p = abs_parts wd (sc_BaseDir (la_cfg a)) @ named a b ob))"
proof (intro conjI impI)
  show "(\<exists>p. resolvePath a (Inr wd) b ob = Inr p) \<longleftrightarrow>
      abs_parts wd (sc_BaseDir (la_cfg a)) = []
      \<or> (\<exists>x rest. abs_parts wd (full_path a b ob) = butlast (abs_parts wd (sc_BaseDir (la_cfg a)))
           @ (last (abs_parts wd (sc_BaseDir (la_cfg a))) @ x) # rest)"
    using resolve_iff[OF assms] by (auto simp: beneath_def)
  assume "dot_dot \<notin> set (named a b ob)"
  then show "\<exists>p. resolvePath a (Inr wd) b ob = Inr p
      \<and> abs_parts wd p = abs_parts wd (sc_BaseDir (la_cfg a)) @ named a b ob"
    using resolve_iff[OF assms] named_parts[OF assms(2)] by auto
qed

section \<open>Objects stay below the base directory\<close>

lemma Dir_of_snoc:
  assumes "plain_names (qs @ [c])" "settled root (qs @ [c])"
  shows "filepath_Dir (path_string root (qs @ [c])) = path_string root qs"
proof -
  have c: "sep \<notin> set c" "c \<noteq> []" using assms(1) by (auto simp: is_name_def)
  have cut: "rev (dropWhile (\<lambda>x. x \<noteq> sep) (rev (u @ sep # c))) = u @ [sep]" for u
    using c(1) by (simp add: dropWhile_append)
  have q: "cleaned (path_string root qs) = qs"
    using cleaned_path_string[of qs root] assms settled_butlast[of root qs c] by simp
  have clean: "filepath_Clean t = path_string root qs" if "filepath_IsAbs t = root" "components t = qs" for t
    using that q path_string_abs[of qs root] components_path_string[of qs root] assms(1)
    by (simp add: filepath_Clean_def cleaned_def)
  show ?thesis
  proof (cases "qs = []")
    case True
    show ?thesis
    proof (cases root)
      case True
      then show ?thesis using clean[of "[sep]"] cut[of "[]"] \<open>qs = []\<close>
        by (simp add: filepath_Dir_def path_string_def filepath_IsAbs_def)
    next
      case False
      have d: "dropWhile (\<lambda>x. x \<noteq> sep) (rev c) = []" using c(1) by (simp add: dropWhile_eq_Nil_conv) metis
      show ?thesis using clean[of "[]"] \<open>qs = []\<close> False
        by (simp add: filepath_Dir_def path_string_def filepath_IsAbs_def d)
    qed
  next
    case False
    have j: "str_join [sep] (qs @ [c]) = str_join [sep] qs @ sep # c" using str_join_append[of qs "[c]"] False by simp
    obtain d t where h: "str_join [sep] qs = d # t" "d \<noteq> sep" using join_plain_head[of qs] assms(1) False by auto
    have "components (str_join [sep] qs) = qs" using assms(1) by (simp add: concat_components)
    then show ?thesis
      using clean[of "(if root then [sep] else []) @ str_join [sep] qs @ [sep]"] h j False
        cut[of "str_join [sep] qs"] cut[of "sep # str_join [sep] qs"] components_sep[of "d # t" "[]"]
      by (cases root) (auto simp: filepath_Dir_def path_string_def filepath_IsAbs_def)
  qed
qed

lemma key_Dir:
  assumes "filepath_Clean p = p" "cleaned p = qs @ [c]" "c \<noteq> dot_dot"
  shows "key s p = key s (filepath_Dir p) @ [c]"
proof -
  define root where "root = filepath_IsAbs p"
  have p: "p = path_string root (qs @ [c])" using assms(1)[unfolded filepath_Clean_def] assms(2) by (simp add: root_def)
  have pl: "plain_names (qs @ [c])" "settled root (qs @ [c])"
    using cleaned_plain[of p] cleaned_settled[of p] assms(2) by (simp_all add: root_def)
  have d: "filepath_Dir p = path_string root qs" using Dir_of_snoc[OF pl] p by simp
  have "components p = qs @ [c]" "components (filepath_Dir p) = qs" "filepath_IsAbs (filepath_Dir p) = root"
    using pl d p components_path_string[of _ root] path_string_abs[of qs root] by simp_all
  then show ?thesis using assms(3)
    by (simp add: key_def abs_parts_def root_def clean_parts_append[of True "[]" _ "[c]"] flip: append_assoc)
qed

lemma Upload_parts:
  assumes "Upload a b ob data s = (err, s1)" "tree (dk_files s)"
  shows "tree (dk_files s1) \<and> dk_wd s1 = dk_wd s \<and> dk_wdErr s1 = dk_wdErr s"
    "gm_get (dk_files s1) q \<noteq> gm_get (dk_files s) q \<Longrightarrow> \<exists>p. resolvePath a (os_Getwd s) b ob = Inr p
      \<and> (q = key s p \<or> prefix q (key s (filepath_Dir p)) \<and> gm_get (dk_files s) q = None)"
    "err = None \<Longrightarrow> \<exists>p. resolvePath a (os_Getwd s) b ob = Inr p \<and> key s p \<noteq> []
      \<and> gm_get (dk_files s1) (key s p) = Some (File (fst data)) \<and> snd data = None"
proof -
  consider (refused) "s1 = s" "err \<noteq> None"
    | (dirs) p where "resolvePath a (os_Getwd s) b ob = Inr p" "os_MkdirAll (filepath_Dir p) s = (Some (the (fst (os_MkdirAll (filepath_Dir p) s))), s1)" "err \<noteq> None"
    | (create) p s2 e where "resolvePath a (os_Getwd s) b ob = Inr p" "os_MkdirAll (filepath_Dir p) s = (None, s2)"
      "os_Create p s2 = (Some e, s1)" "err \<noteq> None"
    | (copy) p s2 s3 e where "resolvePath a (os_Getwd s) b ob = Inr p" "os_MkdirAll (filepath_Dir p) s = (None, s2)"
      "os_Create p s2 = (None, s3)" "io_Copy p data s3 = (e, s1)" "err = None \<longleftrightarrow> e = None"
    using assms(1) by (fastforce simp: Upload_def Let_def split: sum.splits prod.splits option.splits)
  note c = this
  have all: "(tree (dk_files s1) \<and> dk_wd s1 = dk_wd s \<and> dk_wdErr s1 = dk_wdErr s)
    \<and> (\<forall>q. gm_get (dk_files s1) q \<noteq> gm_get (dk_files s) q \<longrightarrow> (\<exists>p. resolvePath a (os_Getwd s) b ob = Inr p
      \<and> (q = key s p \<or> prefix q (key s (filepath_Dir p)) \<and> gm_get (dk_files s) q = None)))
    \<and> (err = None \<longrightarrow> (\<exists>p. resolvePath a (os_Getwd s) b ob = Inr p \<and> key s p \<noteq> []
      \<and> gm_get (dk_files s1) (key s p) = Some (File (fst data)) \<and> snd data = None))"
  proof (cases rule: c)
    case refused
    then show ?thesis using assms(2) by auto
  next
    case (dirs p)
    then show ?thesis using MkdirAll_spec[OF dirs(2)] os_keeps(3)[OF dirs(2)] assms(2) by blast
  next
    case (create p s2 e)
    have k: "key s2 p = key s p" using os_keeps(3)[OF create(2)] by (simp add: key_def)
    show ?thesis using create MkdirAll_spec[OF create(2)] os_keeps(3)[OF create(2)] assms(2)
        Create_spec(1,2)[OF create(3)] os_keeps(4)[OF create(3)] unfolding k by metis
  next
    case (copy p s2 s3 e)
    have k: "key s2 p = key s p" "key s3 p = key s p" using os_keeps(3)[OF copy(2)] os_keeps(4)[OF copy(3)]
      by (simp_all add: key_def)
    have t2: "tree (dk_files s2)" using MkdirAll_spec(2)[OF copy(2) assms(2)] .
    note cr = Create_spec(1)[OF copy(3)] Create_spec(2)[OF copy(3) t2] Create_spec(3)[OF copy(3) t2 refl]
    note co = Copy_spec[OF copy(4) cr(2)]
    have "gm_get (dk_files s3) (key s3 p) = Some (File [])" using cr(3) k by simp
    note co = co[OF this]
    have "\<exists>p. resolvePath a (os_Getwd s) b ob = Inr p
      \<and> (q = key s p \<or> prefix q (key s (filepath_Dir p)) \<and> gm_get (dk_files s) q = None)"
      if "gm_get (dk_files s1) q \<noteq> gm_get (dk_files s) q" for q
      using that co(1)[of q] cr(1)[of q] MkdirAll_spec(1)[OF copy(2), of q] k copy(1) by metis
    then show ?thesis
      using co(2,3) cr(3) k copy(1,5) os_keeps(3)[OF copy(2)] os_keeps(4)[OF copy(3)] os_keeps(5)[OF copy(4)] by auto
  qed
  then show "tree (dk_files s1) \<and> dk_wd s1 = dk_wd s \<and> dk_wdErr s1 = dk_wdErr s"
    and "gm_get (dk_files s1) q \<noteq> gm_get (dk_files s) q \<Longrightarrow> \<exists>p. resolvePath a (os_Getwd s) b ob = Inr p
      \<and> (q = key s p \<or> prefix q (key s (filepath_Dir p)) \<and> gm_get (dk_files s) q = None)"
    and "err = None \<Longrightarrow> \<exists>p. resolvePath a (os_Getwd s) b ob = Inr p \<and> key s p \<noteq> []
      \<and> gm_get (dk_files s1) (key s p) = Some (File (fst data)) \<and> snd data = None"
    by blast+
qed

lemma Delete_parts:
  assumes "DeleteObject a b ob s = (err, s1)"
  shows "tree (dk_files s) \<Longrightarrow> tree (dk_files s1)"
    "gm_get (dk_files s1) q \<noteq> gm_get (dk_files s) q \<Longrightarrow> \<exists>p. resolvePath a (os_Getwd s) b ob = Inr p \<and> q = key s p"
proof -
  consider "s1 = s" | p e where "resolvePath a (os_Getwd s) b ob = Inr p" "os_Remove p s = (e, s1)"
    using assms by (auto simp: DeleteObject_def split: sum.splits prod.splits option.splits)
  note c = this
  show "tree (dk_files s) \<Longrightarrow> tree (dk_files s1)" by (rule c) (use Remove_spec in auto)
  show "gm_get (dk_files s1) q \<noteq> gm_get (dk_files s) q \<Longrightarrow> \<exists>p. resolvePath a (os_Getwd s) b ob = Inr p \<and> q = key s p"
    by (rule c) (use Remove_spec(1) in auto)
qed


lemma resolve_full: "resolvePath a wd b ob = Inr p \<Longrightarrow> p = full_path a b ob"
  by (auto simp: resolvePath_def Let_def split: if_splits sum.splits)

text \<open>
  An upload that returns without an error has stored the object: a download yields the bytes of
  the reader, which had been read to its end, the object exists, and after a deletion, which
  succeeds and removes nothing else, it does not exist any more.
\<close>

theorem upload_round_trip:
  assumes "Upload a b ob (bytes, rerr) s = (None, s1)" "tree (dk_files s)" "dk_faults s1 = []"
  shows "rerr = None \<and> Download a b ob s1 = (Inr (File bytes), s1) \<and> Exists a b ob s1 = (Inr True, s1)
    \<and> (\<exists>s2. DeleteObject a b ob s1 = (None, s2) \<and> Exists a b ob s2 = (Inr False, s2)
        \<and> (\<forall>q. gm_get (dk_files s2) q = (if q = key s (full_path a b ob) then None else gm_get (dk_files s1) q)))"
proof -
  note u = Upload_parts[OF assms(1,2)]
  from u(3) obtain p where p: "resolvePath a (os_Getwd s) b ob = Inr p" "key s p \<noteq> []"
    "gm_get (dk_files s1) (key s p) = Some (File bytes)" "rerr = None" by auto
  define s2 where "s2 = s1\<lparr>dk_files := gm_del (key s p) (dk_files s1)\<rparr>"
  have k: "key s1 q = key s q" "key s2 q = key s q" for q using u(1) by (simp_all add: key_def s2_def)
  have w: "os_Getwd s1 = os_Getwd s" "os_Getwd s2 = os_Getwd s" using u(1) by (auto simp: os_Getwd_def s2_def split: option.splits)
  have t: "tree (dk_files s1)" using u(1) by blast
  have l: "look op p' (dk_files s1) [] (key s p) = Inr (File bytes)" for op p' using p(3) look_tree[OF t] by blast
  have dirs: "gm_get (dk_files s2) (take m (key s p)) = Some Dir" if m: "m < length (key s p)" for m
  proof -
    have "length (take m (key s p)) \<noteq> length (key s p)" using m by simp
    then have "take m (key s p) \<noteq> key s p" by metis
    then show ?thesis using tree_prefix[OF t p(3) m] by (simp add: s2_def)
  qed
  have gone: "look op p' (dk_files s2) [] (key s p) = Inl (path_error op p' ''ENOENT'' ''no such file or directory'')" for op p'
    using look_missing[of "key s p" "dk_files s2" "[]"] dirs by (simp add: s2_def)
  have f: "next_fault s1 = (None, s1)" "next_fault s2 = (None, s2)" using assms(3) by (simp_all add: no_fault s2_def)
  have "DeleteObject a b ob s1 = (None, s2)" by (simp add: DeleteObject_def os_Remove_def w p(1) f k l s2_def Let_def)
  moreover have "Exists a b ob s2 = (Inr False, s2)"
    by (simp add: Exists_def os_Stat_def w p(1) f k gone path_error_def os_IsNotExist_def)
  moreover have "gm_get (dk_files s2) q = (if q = key s (full_path a b ob) then None else gm_get (dk_files s1) q)" for q
    using resolve_full[OF p(1)] by (simp add: s2_def)
  ultimately show ?thesis
    by (auto simp: Download_def Exists_def os_Open_def os_Stat_def w p(1,4) f k l)
qed

section \<open>Listing\<close>

definition collect_name :: "string \<Rightarrow> string list \<Rightarrow> goerr option \<times> string list" where
  "collect_name name names = (None, names @ [name])"

text \<open>The names of the files below a directory, as lists of components, in the order of the walk.\<close>

definition is_file :: "files \<Rightarrow> string list \<Rightarrow> bool" where
  "is_file fs q = (case gm_get fs q of Some (File t) \<Rightarrow> True | _ \<Rightarrow> False)"

lemma is_file_iff: "is_file fs q \<longleftrightarrow> (\<exists>t. gm_get fs q = Some (File t))"
  by (auto simp: is_file_def split: option.splits node.splits)

definition files_below :: "string list \<Rightarrow> files \<Rightarrow> string list list" where
  "files_below k fs = map (drop (length k)) (filter (is_file fs) (below k fs))"

definition object_name :: "string list \<Rightarrow> string" where
  "object_name names = slashes (str_join [sep] names)"

lemma set_files_below: "names \<in> set (files_below k fs) \<longleftrightarrow> (\<exists>t. gm_get fs (k @ names) = Some (File t))"
proof
  assume "names \<in> set (files_below k fs)"
  then obtain q t where "prefix k q" "gm_get fs q = Some (File t)" "names = drop (length k) q"
    by (auto simp: files_below_def below_def is_file_iff)
  then show "\<exists>t. gm_get fs (k @ names) = Some (File t)" by (auto simp: prefix_def)
next
  assume "\<exists>t. gm_get fs (k @ names) = Some (File t)"
  then obtain t where t: "gm_get fs (k @ names) = Some (File t)" by blast
  then have "k @ names \<in> fst ` set fs" by (force dest: map_of_SomeD)
  then show "names \<in> set (files_below k fs)"
    unfolding files_below_def set_map
    by (intro image_eqI[of _ _ "k @ names"]) (use t in \<open>simp_all add: below_def is_file_iff\<close>)
qed

lemma path_string_Join:
  assumes "plain_names bs" "dot_dot \<notin> set bs" "dot_dot \<notin> set (components t)"
  shows "filepath_Join [path_string True bs, t] = path_string True (bs @ components t)"
proof -
  have ne: "path_string True bs \<noteq> []" by (simp add: path_string_def)
  have a: "filepath_IsAbs (path_string True bs)" using path_string_abs[OF assms(1)] by simp
  have "cleaned (filepath_Join [path_string True bs, t]) = bs @ components t"
    using Join_facts(2)[OF ne, of "[t]"] a assms
    by (simp add: components_path_string clean_parts_append clean_parts_names)
  then show ?thesis using Join_facts(1,3)[OF ne, of "[t]"] a by (metis filepath_Clean_def)
qed

lemma walk_path_string:
  assumes "plain_names (bs @ names)" "dot_dot \<notin> set (bs @ names)"
  shows "walk_path (path_string True bs) names = path_string True (bs @ names)"
  using assms
proof (induction names rule: rev_induct)
  case (snoc n names)
  then have "components n = [n]" by (simp add: components_name)
  then show ?case using snoc path_string_Join[of "bs @ names" n] by (simp add: walk_path_def)
qed (simp add: walk_path_def)

lemma strip_common_same: "strip_common bs (bs @ ts) = ([], ts)"
  by (induction bs) (auto intro: strip_common.simps)

lemma Rel_below:
  assumes "plain_names (bs @ names)" "dot_dot \<notin> set (bs @ names)" "names \<noteq> []"
  shows "filepath_Rel (path_string True bs) (path_string True (bs @ names)) = Inr (str_join [sep] names)"
  using assms cleaned_path_string[of _ True]
  by (cases names) (simp_all add: filepath_Rel_def Let_def path_string_abs strip_common_same)

lemma walk_collects:
  assumes "tree (dk_files s)" "dk_faults s = []" "plain_names bs" "dot_dot \<notin> set bs"
    and "gm_get (dk_files s) bs = Some Dir" "set qs \<subseteq> {q. prefix bs q \<and> gm_get (dk_files s) q \<noteq> None}"
  shows "walk (path_string True bs) bs pfx collect_name qs s acc = (None, s, acc @ map object_name
    (filter (\<lambda>names. prefix pfx (path_string True (bs @ names)))
      (map (drop (length bs)) (filter (is_file (dk_files s)) qs))))"
  using assms(6)
proof (induction qs arbitrary: acc)
  case (Cons q qs)
  obtain names n where q: "q = bs @ names" "gm_get (dk_files s) q = Some n" using Cons.prems by (auto simp: prefix_def)
  have "set qs \<subseteq> {q. prefix bs q \<and> gm_get (dk_files s) q \<noteq> None}" using Cons.prems by auto
  note IH = Cons.IH[OF this]
  show ?case
  proof (cases n)
    case Dir
    then have "\<not> is_file (dk_files s) q" using q(2) by (simp add: is_file_def)
    then show ?thesis by (simp add: q(2) Dir no_fault[OF assms(2)] IH)
  next
    case (File t)
    have i: "is_file (dk_files s) q" using q(2) File by (simp add: is_file_def)
    have pl: "plain_names (bs @ names)" "dot_dot \<notin> set (bs @ names)" using tree_names[OF assms(1) q(2)] q(1) by simp_all
    have ne: "names \<noteq> []" using q assms(5) File by auto
    have fn: "collect_name (slashes (str_join [sep] names)) acc = (None, acc @ [object_name names])"
      by (simp add: collect_name_def object_name_def)
    show ?thesis
    proof (cases "prefix pfx (path_string True (bs @ names))")
      case True
      then show ?thesis using i q(2)
        by (simp add: IH q(1) File walk_path_string[OF pl] Rel_below[OF pl ne] visit_file_def fn)
    next
      case False
      then show ?thesis using i q(2) by (simp add: IH q(1) File walk_path_string[OF pl] visit_file_def)
    qed
  qed
qed simp

text \<open>
  Without failures a listing under an absolute base directory hands over the files below the
  bucket, each once, in the order of the walk, by their names relative to the bucket, where a
  backslash becomes a slash. The prefix is compared after it was cleaned: an object is selected
  when its components begin with those of the prefix, of which the last need only begin the
  component in its place; a slash at the end of the prefix makes no difference.
\<close>

theorem listing_selects:
  assumes "filepath_IsAbs (sc_BaseDir (la_cfg a))" "tree (dk_files s)" "dk_faults s = []"
    and "resolvePath a (os_Getwd s) b [] = Inr base" "gm_get (dk_files s) (key s base) = Some Dir"
    and "\<not> prefix [sep] pfx" "dot_dot \<notin> set (components pfx)"
  shows "\<exists>objs. ListObjects a b pfx collect_name s [] = (None, s, map object_name objs)
    \<and> (\<exists>sel. objs = filter sel (files_below (key s base) (dk_files s)))
    \<and> (\<forall>names. names \<in> set objs \<longleftrightarrow> (\<exists>t. gm_get (dk_files s) (key s base @ names) = Some (File t))
         \<and> (components pfx = [] \<or>
            (\<exists>x rest. names = butlast (components pfx) @ (last (components pfx) @ x) # rest)))"
proof -
  let ?k = "key s base" and ?ps = "components pfx"
  let ?sel = "\<lambda>names. prefix (path_string True (?k @ ?ps)) (path_string True (?k @ names))"
  have ne: "sc_BaseDir (la_cfg a) \<noteq> []" using assms(1) by (auto simp: filepath_IsAbs_def)
  have base: "base = full_path a b []" using resolve_full[OF assms(4)] .
  have ab: "filepath_IsAbs base" "filepath_Clean base = base" using full_path_facts(2,4)[OF ne] assms(1) base by simp_all
  have bk: "base = path_string True ?k"
    using ab components_path_string[of "cleaned base"] by (simp add: key_def abs_parts_def filepath_Clean_def cleaned_def)
  have lp: "list_prefix base pfx = path_string True (?k @ ?ps)"
    using assms(6,7) bk path_string_Join[of ?k pfx] by (auto simp: list_prefix_def)
  have w: "walk base ?k (path_string True (?k @ ?ps)) collect_name (below ?k (dk_files s)) s []
    = (None, s, [] @ map object_name (filter ?sel (files_below ?k (dk_files s))))"
    unfolding files_below_def
    by (subst bk, rule walk_collects[OF assms(2,3) _ _ assms(5)])
      (auto simp: below_def dest: weak_map_of_SomeI)
  have l: "ListObjects a b pfx collect_name s [] = (None, s, map object_name (filter ?sel (files_below ?k (dk_files s))))"
    using w assms(3,4,5) by (simp add: ListObjects_def Let_def os_Stat_def no_fault look_tree[OF assms(2), THEN iffD2, OF assms(5)] lp)
  have sel: "?sel names \<longleftrightarrow> ?ps = [] \<or> (\<exists>x rest. names = butlast ?ps @ (last ?ps @ x) # rest)"
    if t: "gm_get (dk_files s) (?k @ names) = Some n" for names n
  proof -
    have pl: "plain_names (?k @ names)" using tree_names[OF assms(2) t] by simp
    show ?thesis
    proof (cases "?ps = []")
      case True
      then show ?thesis using prefix_path_string[OF _ pl, of ?k] beneath_prefix[of ?k "?k @ names"]
        by (auto simp: beneath_def)
    next
      case False
      then show ?thesis using prefix_path_string[OF _ pl, of "?k @ ?ps"] by (auto simp: butlast_append)
    qed
  qed
  show ?thesis using l sel set_files_below[of _ ?k "dk_files s"]
    by (intro exI[of _ "filter ?sel (files_below ?k (dk_files s))"]) auto
qed

section \<open>The theorems on a concrete disk\<close>

definition demo_local :: localAdapter where
  "demo_local = \<lparr>la_cfg = \<lparr>sc_Type = ''local'', sc_BucketName = [], sc_CredentialsFile = [], sc_BaseDir = ''/d''\<rparr>,
     la_name = ''l''\<rparr>"

definition demo_files :: files where
  "demo_files = [([], Dir), ([''d''], Dir), ([''d'', ''a''], Dir), ([''d'', ''a'', ''x''], File ''1''),
     ([''d'', ''ab''], Dir), ([''d'', ''ab'', ''y''], File ''2''), ([''d'', ''z''], File ''3'')]"

definition demo_disk :: disk where
  "demo_disk = \<lparr>dk_files = demo_files, dk_wd = ''/'', dk_wdErr = None, dk_faults = []\<rparr>"

lemmas path_defs = filepath_IsAbs_def components_def is_name_def dot_dot_def abs_parts_def filepath_Join_def
  filepath_Clean_def cleaned_def path_string_def filepath_Dir_def filepath_Abs_def full_path_def

lemmas disk_defs = demo_local_def demo_disk_def demo_files_def key_def named_def bucket_of_def os_Getwd_def

lemma demo_tree: "tree (dk_files demo_disk)"
  unfolding tree_def
proof (intro conjI allI impI)
  fix k n assume "gm_get (dk_files demo_disk) k = Some n"
  then have "(k, n) \<in> set demo_files" by (simp add: demo_disk_def map_of_SomeD)
  then show "plain_names k" "dot_dot \<notin> set k" "k \<noteq> [] \<Longrightarrow> gm_get (dk_files demo_disk) (butlast k) = Some Dir"
    by (auto simp: disk_defs is_name_def dot_dot_def)
qed (simp add: disk_defs)

lemma demo_key: "key demo_disk ''/d'' = [''d'']"
  by (simp add: disk_defs path_defs)

text \<open>An object beside the base directory \<open>/d\<close> is accepted, one in another directory is not.\<close>

lemma resolve_accepts_witness:
  "(\<exists>p. resolvePath demo_local (Inr ''/'') [] ''../d2/x'' = Inr p)
   \<and> \<not> prefix [''d''] (abs_parts ''/'' (full_path demo_local [] ''../d2/x''))
   \<and> (\<nexists>p. resolvePath demo_local (Inr ''/'') [] ''../e/x'' = Inr p)"
proof -
  have e: "abs_parts ''/'' (sc_BaseDir (la_cfg demo_local)) = [''d'']"
    "abs_parts ''/'' (full_path demo_local [] ''../d2/x'') = [''d2'', ''x'']"
    "abs_parts ''/'' (full_path demo_local [] ''../e/x'') = [''e'', ''x'']"
    by (simp_all add: disk_defs path_defs)
  have h: "filepath_IsAbs ''/''" "sc_BaseDir (la_cfg demo_local) \<noteq> []" by (simp_all add: filepath_IsAbs_def demo_local_def)
  show ?thesis using resolve_accepts[OF h, of "[]" "''../d2/x''"] resolve_accepts[OF h, of "[]" "''../e/x''"]
    by (simp add: e)
qed


lemma upload_round_trip_witness:
  "\<exists>s1. Upload demo_local ''b'' ''c/x'' (''hi'', None) demo_disk = (None, s1)
     \<and> Download demo_local ''b'' ''c/x'' s1 = (Inr (File ''hi''), s1)"
proof -
  obtain s1 where u: "Upload demo_local ''b'' ''c/x'' (''hi'', None) demo_disk = (None, s1)" "dk_faults s1 = []"
    by (simp add: Upload_def resolvePath_def os_MkdirAll_def os_Create_def io_Copy_def next_fault_def
        mkdir_one_def disk_defs path_defs)
  show ?thesis using upload_round_trip[OF u(1) demo_tree u(2)] u(1) by blast
qed

text \<open>The prefix \<open>a/\<close> selects the objects below \<open>ab\<close> as well.\<close>

lemma listing_selects_witness:
  "\<exists>objs. ListObjects demo_local [] ''a/'' collect_name demo_disk [] = (None, demo_disk, map object_name objs)
     \<and> [''ab'', ''y''] \<in> set objs \<and> [''z''] \<notin> set objs"
proof -
  have h: "filepath_IsAbs (sc_BaseDir (la_cfg demo_local))" "dk_faults demo_disk = []" "key demo_disk ''/d'' = [''d'']"
    "gm_get (dk_files demo_disk) (key demo_disk ''/d'') = Some Dir" "\<not> prefix [sep] ''a/''"
    "components ''a/'' = [''a'']"
    "dot_dot \<notin> set (components ''a/'')" "resolvePath demo_local (os_Getwd demo_disk) [] [] = Inr ''/d''"
    by (simp_all add: disk_defs path_defs resolvePath_def)
  from listing_selects[OF h(1) demo_tree h(2) h(8) h(4,5,7)] obtain objs where
    o: "ListObjects demo_local [] ''a/'' collect_name demo_disk [] = (None, demo_disk, map object_name objs)"
    "\<forall>names. names \<in> set objs \<longleftrightarrow> (\<exists>t. gm_get (dk_files demo_disk) (key demo_disk ''/d'' @ names) = Some (File t))
         \<and> (components ''a/'' = [] \<or> (\<exists>x rest. names = butlast (components ''a/'') @ (last (components ''a/'') @ x) # rest))"
    by blast
  have "[''ab'', ''y''] \<in> set objs" "[''z''] \<notin> set objs"
    unfolding o(2)[rule_format] h(3,6) by (simp_all add: disk_defs)
  then show ?thesis using o(1) by blast
qed

end
