(* ===== verification/Connection_Pool.thy ===== *)
theory Connection_Pool
  imports Batch_Errors
begin

text \<open>
  What the providers of connections share: a map from names to connections under a \<open>sync.RWMutex\<close>,
  and the \<open>GetConnection\<close> that the local, the GCS and the GORM provider each write out, which looks
  a name up under the read lock and, when it is not there, again under the write lock before it
  creates the connection. The contract of a pool is a locale; the goroutines that call
  \<open>GetConnection\<close> at the same time are a step relation.
\<close>

section \<open>The mutex\<close>

record ('h, 'w) pool =
  pl_conns :: "(string, 'h) gomap"
  pl_readers :: nat
  pl_writer :: bool
  pl_world :: 'w

text \<open>A \<open>sync.RWMutex\<close> is not reentrant. \<open>None\<close>: the call blocks.\<close>

definition RLock :: "('h, 'w) pool \<Rightarrow> ('h, 'w) pool option" where
  "RLock s = (if pl_writer s then None else Some (s\<lparr>pl_readers := pl_readers s + 1\<rparr>))"

definition RUnlock :: "('h, 'w) pool \<Rightarrow> ('h, 'w) pool" where
  "RUnlock s = s\<lparr>pl_readers := pl_readers s - 1\<rparr>"

definition Lock :: "('h, 'w) pool \<Rightarrow> ('h, 'w) pool option" where
  "Lock s = (if pl_writer s \<or> pl_readers s \<noteq> 0 then None else Some (s\<lparr>pl_writer := True\<rparr>))"

definition Unlock :: "('h, 'w) pool \<Rightarrow> ('h, 'w) pool" where
  "Unlock s = s\<lparr>pl_writer := False\<rparr>"

definition unlocked :: "('h, 'w) pool \<Rightarrow> bool" where
  "unlocked s \<longleftrightarrow> \<not> pl_writer s \<and> pl_readers s = 0"

definition pool_put :: "string \<Rightarrow> 'h \<Rightarrow> ('h, 'w) pool \<Rightarrow> ('h, 'w) pool" where
  "pool_put n h s = s\<lparr>pl_conns := gm_put n h (pl_conns s)\<rparr>"

definition new_pool :: "'w \<Rightarrow> ('h, 'w) pool" where
  "new_pool w = \<lparr>pl_conns = [], pl_readers = 0, pl_writer = False, pl_world = w\<rparr>"

section \<open>The double-checked lookup\<close>

type_synonym ('h, 'w) opener = "string \<Rightarrow> 'w \<Rightarrow> (goerr + 'h) \<times> 'w"

text \<open>What runs under the write lock when the name is not found: the connection is made and stored.\<close>

definition create_and_store :: "('h, 'w) opener \<Rightarrow> string \<Rightarrow> ('h, 'w) pool \<Rightarrow> (goerr + 'h) \<times> ('h, 'w) pool" where
  "create_and_store create n s = (case create n (pl_world s) of
       (Inl e, w) \<Rightarrow> (Inl e, s\<lparr>pl_world := w\<rparr>)
     | (Inr h, w) \<Rightarrow> (Inr h, pool_put n h (s\<lparr>pl_world := w\<rparr>)))"

definition get_connection :: "('h, 'w) opener \<Rightarrow> string \<Rightarrow> ('h, 'w) pool \<Rightarrow> ((goerr + 'h) \<times> ('h, 'w) pool) option" where
  "get_connection create n s = (case RLock s of
       None \<Rightarrow> None
     | Some s1 \<Rightarrow> (case gm_get (pl_conns s1) n of
           Some h \<Rightarrow> Some (Inr h, RUnlock s1)
         | None \<Rightarrow> (case Lock (RUnlock s1) of
               None \<Rightarrow> None
             | Some s2 \<Rightarrow> (case gm_get (pl_conns s2) n of
                   Some h \<Rightarrow> Some (Inr h, Unlock s2)
                 | None \<Rightarrow> (case create_and_store create n s2 of (r, s3) \<Rightarrow> Some (r, Unlock s3))))))"

lemmas mutex_defs = RLock_def RUnlock_def Lock_def Unlock_def unlocked_def pool_put_def

lemma get_connection_alone:
  assumes "unlocked s"
  shows "get_connection create n s = (case gm_get (pl_conns s) n of
      Some h \<Rightarrow> Some (Inr h, s)
    | None \<Rightarrow> (case create n (pl_world s) of
          (Inl e, w) \<Rightarrow> Some (Inl e, s\<lparr>pl_world := w\<rparr>)
        | (Inr h, w) \<Rightarrow> Some (Inr h, pool_put n h (s\<lparr>pl_world := w\<rparr>))))"
proof -
  have "s\<lparr>pl_readers := 0\<rparr> = s" "s\<lparr>pl_writer := False\<rparr> = s" using assms by (simp_all add: unlocked_def)
  then show ?thesis using assms
    by (cases s) (auto simp: get_connection_def create_and_store_def mutex_defs split: option.splits prod.splits sum.splits)
qed

section \<open>The contract of a pool\<close>

text \<open>
  A connection that is there is returned as it is; one that is made is kept; no name loses its
  connection; and a call on a pool that nobody has locked returns and leaves it unlocked.
\<close>

locale connection_pool =
  fixes get :: "string \<Rightarrow> 's \<Rightarrow> ((goerr + 'h) \<times> 's) option"
    and conns :: "'s \<Rightarrow> (string, 'h) gomap"
    and ready :: "'s \<Rightarrow> bool"
  assumes get_cached: "ready s \<Longrightarrow> gm_get (conns s) n = Some h \<Longrightarrow> get n s = Some (Inr h, s)"
    and get_stores: "ready s \<Longrightarrow> get n s = Some (Inr h, s') \<Longrightarrow> gm_get (conns s') n = Some h"
    and get_keeps: "ready s \<Longrightarrow> get n s = Some (r, s') \<Longrightarrow> gm_get (conns s) m = Some h \<Longrightarrow> gm_get (conns s') m = Some h"
    and get_returns: "ready s \<Longrightarrow> \<exists>r s'. get n s = Some (r, s') \<and> ready s'"
begin

fun gets :: "string list \<Rightarrow> 's \<Rightarrow> ((goerr + 'h) list \<times> 's) option" where
  "gets [] s = Some ([], s)"
| "gets (n # ns) s = (case get n s of
       None \<Rightarrow> None
     | Some (r, s1) \<Rightarrow> (case gets ns s1 of None \<Rightarrow> None | Some (rs, s2) \<Rightarrow> Some (r # rs, s2)))"

lemma get_ready: "ready s \<Longrightarrow> get n s = Some (r, s') \<Longrightarrow> ready s'"
  using get_returns[of s n] by auto

lemma gets_return: "ready s \<Longrightarrow> \<exists>rs s'. gets ns s = Some (rs, s') \<and> ready s' \<and> length rs = length ns"
proof (induction ns arbitrary: s)
  case (Cons n ns)
  obtain r s1 where g: "get n s = Some (r, s1)" "ready s1" using get_returns[OF Cons.prems] by blast
  then show ?case using Cons.IH[OF g(2)] by fastforce
qed simp

lemma gets_keep:
  "ready s \<Longrightarrow> gets ns s = Some (rs, s') \<Longrightarrow> gm_get (conns s) m = Some h \<Longrightarrow> gm_get (conns s') m = Some h"
proof (induction ns arbitrary: s rs)
  case (Cons n ns)
  then obtain r s1 rs1 where g: "get n s = Some (r, s1)" "gets ns s1 = Some (rs1, s')"
    by (auto split: option.splits prod.splits)
  show ?case using Cons.IH[OF get_ready[OF Cons.prems(1) g(1)] g(2) get_keeps[OF Cons.prems(1) g(1) Cons.prems(3)]] .
qed simp

text \<open>In any sequence of calls every success for a name returns one and the same connection.\<close>

lemma gets_agree:
  "ready s \<Longrightarrow> gets ns s = Some (rs, s') \<Longrightarrow> i < length ns \<Longrightarrow> rs ! i = Inr h \<Longrightarrow> gm_get (conns s') (ns ! i) = Some h"
proof (induction ns arbitrary: s rs i)
  case (Cons n ns)
  then obtain r s1 rs1 where g: "get n s = Some (r, s1)" "gets ns s1 = Some (rs1, s')" "rs = r # rs1"
    by (auto split: option.splits prod.splits)
  have r1: "ready s1" using get_ready[OF Cons.prems(1) g(1)] .
  show ?case
  proof (cases i)
    case 0
    then show ?thesis using gets_keep[OF r1 g(2) get_stores[OF Cons.prems(1)]] g Cons.prems by simp
  next
    case (Suc j)
    then show ?thesis using Cons.IH[OF r1 g(2)] Cons.prems g by simp
  qed
qed simp

end

text \<open>The double-checked lookup of the providers meets it, whatever is created.\<close>

interpretation dcl: connection_pool "get_connection create" pl_conns unlocked for create
proof unfold_locales
  fix s :: "('b, 'a) pool" and n h r s' m
  assume u: "unlocked s"
  show "gm_get (pl_conns s) n = Some h \<Longrightarrow> get_connection create n s = Some (Inr h, s)"
    using u by (simp add: get_connection_alone)
  show "get_connection create n s = Some (Inr h, s') \<Longrightarrow> gm_get (pl_conns s') n = Some h"
    using u by (auto simp: get_connection_alone pool_put_def split: option.splits prod.splits sum.splits)
  show "get_connection create n s = Some (r, s') \<Longrightarrow> gm_get (pl_conns s) m = Some h \<Longrightarrow> gm_get (pl_conns s') m = Some h"
    using u by (auto simp: get_connection_alone pool_put_def split: option.splits prod.splits sum.splits)
  show "\<exists>r s'. get_connection create n s = Some (r, s') \<and> unlocked s'"
    using u by (auto simp: get_connection_alone pool_put_def unlocked_def split: option.splits prod.splits sum.splits)
qed

section \<open>Many goroutines\<close>

text \<open>Where a goroutine stands in a call of \<open>GetConnection\<close> for a name.\<close>

datatype 'h getter =
    Calling string
  | Reading string
  | Missed string
  | Locked string
  | Creating string
  | Returned string "goerr + 'h"

text \<open>
  One step of the goroutine at position \<open>i\<close>. A lock is taken when it is free; between two steps
  of one goroutine any others may take theirs.
\<close>

inductive get_step :: "('h, 'w) opener \<Rightarrow> 'h getter list \<times> ('h, 'w) pool \<Rightarrow> 'h getter list \<times> ('h, 'w) pool \<Rightarrow> bool"
  for create where
  read_lock: "i < length gs \<Longrightarrow> gs ! i = Calling n \<Longrightarrow> RLock s = Some s1 \<Longrightarrow>
    get_step create (gs, s) (gs[i := Reading n], s1)"
| read_hit: "i < length gs \<Longrightarrow> gs ! i = Reading n \<Longrightarrow> gm_get (pl_conns s) n = Some h \<Longrightarrow>
    get_step create (gs, s) (gs[i := Returned n (Inr h)], RUnlock s)"
| read_miss: "i < length gs \<Longrightarrow> gs ! i = Reading n \<Longrightarrow> gm_get (pl_conns s) n = None \<Longrightarrow>
    get_step create (gs, s) (gs[i := Missed n], RUnlock s)"
| write_lock: "i < length gs \<Longrightarrow> gs ! i = Missed n \<Longrightarrow> Lock s = Some s1 \<Longrightarrow>
    get_step create (gs, s) (gs[i := Locked n], s1)"
| check_hit: "i < length gs \<Longrightarrow> gs ! i = Locked n \<Longrightarrow> gm_get (pl_conns s) n = Some h \<Longrightarrow>
    get_step create (gs, s) (gs[i := Returned n (Inr h)], Unlock s)"
| check_miss: "i < length gs \<Longrightarrow> gs ! i = Locked n \<Longrightarrow> gm_get (pl_conns s) n = None \<Longrightarrow>
    get_step create (gs, s) (gs[i := Creating n], s)"
| create: "i < length gs \<Longrightarrow> gs ! i = Creating n \<Longrightarrow> create_and_store create n s = (r, s1) \<Longrightarrow>
    get_step create (gs, s) (gs[i := Returned n r], Unlock s1)"

definition holds_read :: "'h getter \<Rightarrow> bool" where
  "holds_read g = (case g of Reading n \<Rightarrow> True | _ \<Rightarrow> False)"

definition holds_write :: "'h getter \<Rightarrow> bool" where
  "holds_write g = (case g of Locked n \<Rightarrow> True | Creating n \<Rightarrow> True | _ \<Rightarrow> False)"

definition finished :: "'h getter \<Rightarrow> bool" where
  "finished g = (case g of Returned n r \<Rightarrow> True | _ \<Rightarrow> False)"

text \<open>
  The invariant: the mutex counts who holds it, the write lock excludes the read lock and itself,
  a name whose connection is being made has none, and what was returned is what is stored.
\<close>

definition getters_inv :: "'h getter list \<times> ('h, 'w) pool \<Rightarrow> bool" where
  "getters_inv c \<longleftrightarrow> (case c of (gs, s) \<Rightarrow>
     pl_readers s = length (filter holds_read gs)
     \<and> length (filter holds_write gs) = (if pl_writer s then 1 else 0)
     \<and> (pl_writer s \<longrightarrow> pl_readers s = 0)
     \<and> (\<forall>n. Creating n \<in> set gs \<longrightarrow> gm_get (pl_conns s) n = None)
     \<and> (\<forall>n h. Returned n (Inr h) \<in> set gs \<longrightarrow> gm_get (pl_conns s) n = Some h))"

lemma length_filter_update:
  "i < length gs \<Longrightarrow> length (filter P (gs[i := g])) + (if P (gs ! i) then 1 else 0)
     = length (filter P gs) + (if P g then 1 else 0)"
proof (induction gs arbitrary: i)
  case (Cons x gs)
  then show ?case using Cons.IH[of "i - 1"] by (cases i) auto
qed simp

lemma update_counts:
  assumes "i < length gs" "P (gs ! i) = P g"
  shows "length (filter P (gs[i := g])) = length (filter P gs)"
  using length_filter_update[OF assms(1), of P g] assms(2) by (simp split: if_splits)

lemma two_holders:
  assumes "i < length gs" "P (gs ! i)" "\<not> P g" "x \<in> set (gs[i := g])" "P x"
  shows "length (filter P gs) \<ge> 2"
proof -
  have "filter P (gs[i := g]) \<noteq> []" using assms(4,5) by (auto simp: filter_empty_conv)
  then have "length (filter P (gs[i := g])) \<ge> 1" by (cases "filter P (gs[i := g])") auto
  then show ?thesis using length_filter_update[OF assms(1), of P g] assms(2,3) by simp
qed

lemmas holds_defs = holds_read_def holds_write_def

text \<open>A goroutine that has the lock for itself moves on.\<close>

lemma in_update: "x \<in> set (gs[i := g]) \<Longrightarrow> x = g \<or> x \<in> set gs"
  using set_update_subset_insert[of gs i g] by blast

lemma getters_inv_step: "get_step create c c' \<Longrightarrow> getters_inv c \<Longrightarrow> getters_inv c'"
proof (induction rule: get_step.induct)
  case (read_lock i gs n s s1)
  then show ?case
    using length_filter_update[OF read_lock(1), of holds_read "Reading n"] update_counts[OF read_lock(1), of holds_write "Reading n"]
    by (auto simp: getters_inv_def RLock_def holds_defs split: if_splits dest!: in_update)
next
  case (read_hit i gs n s h)
  then show ?case
    using length_filter_update[OF read_hit(1), of holds_read "Returned n (Inr h)"]
      update_counts[OF read_hit(1), of holds_write "Returned n (Inr h)"]
    by (auto simp: getters_inv_def RUnlock_def holds_defs split: if_splits dest!: in_update)
next
  case (read_miss i gs n s)
  then show ?case
    using length_filter_update[OF read_miss(1), of holds_read "Missed n"] update_counts[OF read_miss(1), of holds_write "Missed n"]
    by (auto simp: getters_inv_def RUnlock_def holds_defs split: if_splits dest!: in_update)
next
  case (write_lock i gs n s s1)
  then show ?case
    using length_filter_update[OF write_lock(1), of holds_write "Locked n"] update_counts[OF write_lock(1), of holds_read "Locked n"]
    by (auto simp: getters_inv_def Lock_def holds_defs split: if_splits dest!: in_update)
next
  case (check_hit i gs n s h)
  then show ?case
    using length_filter_update[OF check_hit(1), of holds_write "Returned n (Inr h)"]
      update_counts[OF check_hit(1), of holds_read "Returned n (Inr h)"]
    by (auto simp: getters_inv_def Unlock_def holds_defs split: if_splits dest!: in_update)
next
  case (check_miss i gs n s)
  then show ?case
    using update_counts[OF check_miss(1), of holds_write "Creating n"] update_counts[OF check_miss(1), of holds_read "Creating n"]
    by (auto simp: getters_inv_def holds_defs split: if_splits dest!: in_update)
next
  case (create i gs n s r s1)
  have w: "length (filter holds_write gs) = 1" "pl_writer s" "gm_get (pl_conns s) n = None"
  proof -
    have "Creating n \<in> set gs" using create(1,2) by (metis nth_mem)
    then have "Creating n \<in> set (filter holds_write gs)" by (simp add: holds_write_def)
    then have "filter holds_write gs \<noteq> []" by (metis empty_iff list.set(1))
    then show "length (filter holds_write gs) = 1" "pl_writer s" "gm_get (pl_conns s) n = None"
      using create(4) \<open>Creating n \<in> set gs\<close> by (auto simp: getters_inv_def split: if_splits)
  qed
  have no: "Creating m \<notin> set (gs[i := Returned n r])" for m
  proof
    assume "Creating m \<in> set (gs[i := Returned n r])"
    then have "length (filter holds_write gs) \<ge> 2"
      using two_holders[OF create(1), of holds_write "Returned n r" "Creating m"] create(2) by (simp add: holds_write_def)
    then show False using w(1) by simp
  qed
  have c: "pl_readers s1 = pl_readers s"
    "gm_get (pl_conns s1) m = (if m = n \<and> (\<exists>h. r = Inr h) then Some (projr r) else gm_get (pl_conns s) m)" for m
    using create(3) by (auto simp: create_and_store_def pool_put_def split: prod.splits sum.splits)
  show ?case
    using length_filter_update[OF create(1), of holds_write "Returned n r"] update_counts[OF create(1), of holds_read "Returned n r"]
      create(2,4) no w c
    by (auto simp: getters_inv_def Unlock_def holds_defs split: if_splits dest!: in_update)
qed

text \<open>All goroutines about to call, on a pool that nobody has locked.\<close>

definition getters_start :: "string list \<Rightarrow> ('h, 'w) pool \<Rightarrow> 'h getter list \<times> ('h, 'w) pool" where
  "getters_start ns s = (map Calling ns, s)"

lemma getters_inv_start: "unlocked s \<Longrightarrow> getters_inv (getters_start ns s)"
  by (auto simp: getters_inv_def getters_start_def unlocked_def holds_defs filter_empty_conv)

lemma getters_inv_reachable:
  assumes "(get_step create)\<^sup>*\<^sup>* c c'" "getters_inv c"
  shows "getters_inv c'"
  using assms by (induction rule: rtranclp_induct) (auto dest: getters_inv_step)

lemma getter_moves:
  assumes "getters_inv (gs, s)" "g \<in> set gs" "\<not> finished g"
  shows "\<exists>c'. get_step create (gs, s) c'"
proof -
  have go: "\<exists>c'. get_step create (gs, s) c'" if "x \<in> set gs" "holds_read x \<or> holds_write x" for x
  proof -
    from that(1)[unfolded in_set_conv_nth] obtain i where i: "i < length gs" "gs ! i = x" by blast
    show ?thesis
    proof (cases x)
      case (Reading n)
      then show ?thesis using get_step.read_hit[OF i(1), of n s] get_step.read_miss[OF i(1), of n s] i(2)
        by (cases "gm_get (pl_conns s) n") auto
    next
      case (Locked n)
      then show ?thesis using get_step.check_hit[OF i(1), of n s] get_step.check_miss[OF i(1), of n s] i(2)
        by (cases "gm_get (pl_conns s) n") auto
    next
      case (Creating n)
      then show ?thesis using get_step.create[OF i(1), of n create s] i(2)
        by (cases "create_and_store create n s") auto
    qed (use that(2) in \<open>simp_all add: holds_defs\<close>)
  qed
  show ?thesis
  proof (cases "\<exists>x\<in>set gs. holds_read x \<or> holds_write x")
    case True
    then show ?thesis using go by blast
  next
    case False
    then have "filter holds_read gs = []" "filter holds_write gs = []" by (auto simp: filter_empty_conv)
    then have free: "pl_readers s = 0" "\<not> pl_writer s" using assms(1) by (auto simp: getters_inv_def split: if_splits)
    from assms(2)[unfolded in_set_conv_nth] obtain i where i: "i < length gs" "gs ! i = g" by blast
    have l: "RLock s = Some (s\<lparr>pl_readers := pl_readers s + 1\<rparr>)" "Lock s = Some (s\<lparr>pl_writer := True\<rparr>)"
      using free by (simp_all add: RLock_def Lock_def)
    show ?thesis
    proof (cases g)
      case (Calling n)
      then show ?thesis using get_step.read_lock[OF i(1) _ l(1)] i(2) by blast
    next
      case (Missed n)
      then show ?thesis using get_step.write_lock[OF i(1) _ l(2)] i(2) by blast
    qed (use assms False in \<open>auto simp: holds_defs finished_def\<close>)
  qed
qed

text \<open>
  C27: however many goroutines ask a provider for connections at the same time, and however their
  steps are interleaved: two that get a connection for the same name get the same one, which is the
  one the provider keeps; no two of them are inside the write lock; and while one of them has not
  returned some goroutine can move.
\<close>

theorem concurrent_gets_agree:
  assumes "unlocked s" "(get_step create)\<^sup>*\<^sup>* (getters_start ns s) (gs, s')"
  shows "(\<forall>n h. Returned n (Inr h) \<in> set gs \<longrightarrow> gm_get (pl_conns s') n = Some h)
    \<and> (\<forall>n h1 h2. Returned n (Inr h1) \<in> set gs \<and> Returned n (Inr h2) \<in> set gs \<longrightarrow> h1 = h2)
    \<and> length (filter holds_write gs) \<le> 1
    \<and> ((\<exists>g\<in>set gs. \<not> finished g) \<longrightarrow> (\<exists>c. get_step create (gs, s') c))"
proof -
  have i: "getters_inv (gs, s')" using getters_inv_reachable[OF assms(2) getters_inv_start[OF assms(1)]] .
  then have r: "gm_get (pl_conns s') n = Some h" if "Returned n (Inr h) \<in> set gs" for n h
    using that by (simp add: getters_inv_def)
  have "h1 = h2" if "Returned n (Inr h1) \<in> set gs" "Returned n (Inr h2) \<in> set gs" for n h1 h2
    using r[OF that(1)] r[OF that(2)] by simp
  moreover have "length (filter holds_write gs) \<le> 1" using i by (simp add: getters_inv_def split: if_splits)
  ultimately show ?thesis using r getter_moves[OF i] by blast
qed

text \<open>Two goroutines that both miss the name under the read lock: the second one finds it under the write lock.\<close>

definition demo_open :: "(nat, nat) opener" where
  "demo_open n w = (Inr w, w + 1)"

lemma demo_race: "(get_step demo_open)\<^sup>*\<^sup>* (getters_start [''a'', ''a''] (new_pool 0))
    ([Returned ''a'' (Inr 0), Returned ''a'' (Inr 0)], \<lparr>pl_conns = [(''a'', 0)], pl_readers = 0, pl_writer = False, pl_world = 1\<rparr>)"
proof -
  let ?s = "\<lambda>m r w k. \<lparr>pl_conns = m, pl_readers = r, pl_writer = w, pl_world = k :: nat\<rparr>"
  let ?g = "get_step demo_open"
  have "?g ([Calling ''a'', Calling ''a''], ?s [] 0 False 0) ([Reading ''a'', Calling ''a''], ?s [] 1 False 0)"
    using get_step.read_lock[where create = demo_open, of 0 "[Calling ''a'', Calling ''a'']" "''a''" "?s [] 0 False 0"] by (simp add: RLock_def)
  moreover have "?g \<dots> ([Reading ''a'', Reading ''a''], ?s [] 2 False 0)"
    using get_step.read_lock[where create = demo_open, of 1 "[Reading ''a'', Calling ''a'']" "''a''" "?s [] 1 False 0"]
    by (simp add: RLock_def numeral_2_eq_2)
  moreover have "?g \<dots> ([Missed ''a'', Reading ''a''], ?s [] 1 False 0)"
    using get_step.read_miss[where create = demo_open, of 0 "[Reading ''a'', Reading ''a'']" "''a''" "?s [] 2 False 0"] by (simp add: RUnlock_def)
  moreover have "?g \<dots> ([Missed ''a'', Missed ''a''], ?s [] 0 False 0)"
    using get_step.read_miss[where create = demo_open, of 1 "[Missed ''a'', Reading ''a'']" "''a''" "?s [] 1 False 0"] by (simp add: RUnlock_def)
  moreover have "?g \<dots> ([Locked ''a'', Missed ''a''], ?s [] 0 True 0)"
    using get_step.write_lock[where create = demo_open, of 0 "[Missed ''a'', Missed ''a'']" "''a''" "?s [] 0 False 0"] by (simp add: Lock_def)
  moreover have "?g \<dots> ([Creating ''a'', Missed ''a''], ?s [] 0 True 0)"
    using get_step.check_miss[where create = demo_open, of 0 "[Locked ''a'', Missed ''a'']" "''a''" "?s [] 0 True 0"] by simp
  moreover have "?g \<dots> ([Returned ''a'' (Inr 0), Missed ''a''], ?s [(''a'', 0)] 0 False 1)"
    using get_step.create[where create = demo_open, of 0 "[Creating ''a'', Missed ''a'']" "''a''" "?s [] 0 True 0"]
    by (simp add: create_and_store_def demo_open_def pool_put_def Unlock_def)
  moreover have "?g \<dots> ([Returned ''a'' (Inr 0), Locked ''a''], ?s [(''a'', 0)] 0 True 1)"
    using get_step.write_lock[where create = demo_open, of 1 "[Returned ''a'' (Inr 0), Missed ''a'']" "''a''" "?s [(''a'', 0)] 0 False 1"] by (simp add: Lock_def)
  moreover have "?g \<dots> ([Returned ''a'' (Inr 0), Returned ''a'' (Inr 0)], ?s [(''a'', 0)] 0 False 1)"
    using get_step.check_hit[where create = demo_open, of 1 "[Returned ''a'' (Inr 0), Locked ''a'']" "''a''" "?s [(''a'', 0)] 0 True 1" 0]
    by (simp add: Unlock_def)
  ultimately show ?thesis unfolding getters_start_def new_pool_def list.map by (meson converse_rtranclp_into_rtranclp rtranclp.rtrancl_refl)
qed

lemma concurrent_gets_agree_witness:
  "gm_get (pl_conns \<lparr>pl_conns = [(''a'', 0 :: nat)], pl_readers = 0, pl_writer = False, pl_world = 1 :: nat\<rparr>) ''a'' = Some 0"
  using concurrent_gets_agree[OF _ demo_race] by (simp add: unlocked_def new_pool_def)

end
