(* ===== verification/Storage_Providers.thy ===== *)
theory Storage_Providers
  imports Connection_Pool Local_Storage
begin

text \<open>
  The providers and resolvers of \<open>adapter/storage/local/adapter.go\<close>, and \<open>adapter/storage/gcs\<close>:
  how a storage connection is found in the configuration, made, kept, closed and reopened.

  The configuration of the adapters is a map from a kind of adapter to a map of named entries, or
  to something else, which the type assertion refuses. \<open>mapstructure\<close> and the client of Google Cloud
  Storage are third parties': \<open>st_NewDecoder\<close>, \<open>st_Decode\<close> and the record of the client are
  parameters. The providers of a resolver are the \<open>GetConnection\<close> functions by their types.
\<close>

section \<open>The configuration\<close>

datatype 'y cfg_value = CfgMap "(string, 'y) gomap" | CfgOther

record ('y, 'g) adapter_cfg =
  ac_configs :: "(string, 'y cfg_value) gomap"
  st_NewDecoder :: "goerr option"
  st_Decode :: "'y \<Rightarrow> goerr + 'g"
  st_DecodeType :: "'y \<Rightarrow> goerr + string"

text \<open>\<open>m, ok := configs[kind].(map[string]interface{})\<close>\<close>

definition cfg_section :: "('y, 'g) adapter_cfg \<Rightarrow> string \<Rightarrow> (string, 'y) gomap option" where
  "cfg_section c kind = (case gm_get (ac_configs c) kind of Some (CfgMap m) \<Rightarrow> Some m | _ \<Rightarrow> None)"

definition wrapf :: "string \<Rightarrow> goerr \<Rightarrow> goerr" where
  "wrapf t e = WrapError (t @ Error_text e) e"

section \<open>Closing\<close>

text \<open>The loop over the connections, in the order of the map: the errors of those that fail.\<close>

fun close_each :: "('h \<Rightarrow> 'w \<Rightarrow> goerr option \<times> 'w) \<Rightarrow> (string \<Rightarrow> goerr \<Rightarrow> goerr) \<Rightarrow> (string \<times> 'h) list \<Rightarrow> 'w \<Rightarrow>
    goerr list \<times> 'w" where
  "close_each close failed [] w = ([], w)"
| "close_each close failed ((n, h) # cs) w = (case close h w of
       (err, w1) \<Rightarrow> (case close_each close failed cs w1 of
           (errs, w2) \<Rightarrow> ((case err of None \<Rightarrow> errs | Some e \<Rightarrow> failed n e # errs), w2)))"

text \<open>Both providers forget every connection, closed or not.\<close>

definition close_all :: "('h \<Rightarrow> 'w \<Rightarrow> goerr option \<times> 'w) \<Rightarrow> (string \<Rightarrow> goerr \<Rightarrow> goerr) \<Rightarrow> string \<Rightarrow> ('h, 'w) pool \<Rightarrow>
    (goerr option \<times> ('h, 'w) pool) option" where
  "close_all close failed what s = (case Lock s of
       None \<Rightarrow> None
     | Some s1 \<Rightarrow> (case close_each close failed (pl_conns s1) (pl_world s1) of
           (errs, w) \<Rightarrow> Some (
             (if errs = [] then None
              else Some (plain_error (what @ ''['' @ str_join '' '' (map Error_text errs) @ '']''))),
             Unlock (s1\<lparr>pl_conns := [], pl_world := w\<rparr>))))"

text \<open>
  The lock is still held when \<open>GetConnection\<close> asks for it, for the errors of \<open>Close\<close> are only
  logged.
\<close>

definition force_reconnect :: "('h \<Rightarrow> 'w \<Rightarrow> goerr option \<times> 'w) \<Rightarrow> ('h, 'w) opener \<Rightarrow> string \<Rightarrow> ('h, 'w) pool \<Rightarrow>
    ((goerr + 'h) \<times> ('h, 'w) pool) option" where
  "force_reconnect close create n s = (case Lock s of
       None \<Rightarrow> None
     | Some s1 \<Rightarrow>
         (let s2 = (case gm_get (pl_conns s1) n of
               None \<Rightarrow> s1
             | Some h \<Rightarrow> s1\<lparr>pl_conns := gm_del n (pl_conns s1), pl_world := snd (close h (pl_world s1))\<rparr>)
          in case get_connection create n s2 of None \<Rightarrow> None | Some (r, s3) \<Rightarrow> Some (r, Unlock s3)))"

section \<open>The local provider\<close>

type_synonym 'y storage_cfg = "('y, StorageConfig) adapter_cfg"

definition local_create :: "'y storage_cfg \<Rightarrow> (localAdapter, disk) opener" where
  "local_create c n s = (case cfg_section c ''storage'' of
       None \<Rightarrow> (Inl (plain_error (''invalid '' @ quoted ''storage'' @ '' configuration format: expected map[string]interface{}'')), s)
     | Some m \<Rightarrow> (case gm_get m n of
           None \<Rightarrow> (Inl (plain_error (''storage configuration for name '' @ quoted n @ '' not found'')), s)
         | Some y \<Rightarrow> (case st_NewDecoder c of
               Some e \<Rightarrow> (Inl (wrapf (''failed to create decoder for storage config '' @ quoted n @ '': '') e), s)
             | None \<Rightarrow> (case st_Decode c y of
                   Inl e \<Rightarrow> (Inl (wrapf (''failed to decode storage config for '' @ quoted n @ '': '') e), s)
                 | Inr cfg \<Rightarrow>
                     if sc_Type cfg \<noteq> ''local''
                     then (Inl (plain_error (''storage config type mismatch for '' @ quoted n @ '': expected ''
                            @ quoted ''local'' @ '', got '' @ quoted (sc_Type cfg))), s)
                     else (case NewLocalAdapter cfg n s of
                         (Inl e, s1) \<Rightarrow> (Inl (wrapf (''failed to create local adapter for '' @ quoted n @ '': '') e), s1)
                       | (Inr a, s1) \<Rightarrow> (Inr a, s1))))))"

definition Local_GetConnection :: "'y storage_cfg \<Rightarrow> string \<Rightarrow> (localAdapter, disk) pool \<Rightarrow>
    ((goerr + localAdapter) \<times> (localAdapter, disk) pool) option" where
  "Local_GetConnection c n s = get_connection (local_create c) n s"

definition Local_CloseAll :: "(localAdapter, disk) pool \<Rightarrow> (goerr option \<times> (localAdapter, disk) pool) option" where
  "Local_CloseAll s = close_all (\<lambda>a w. (local_Close a, w))
     (\<lambda>n e. wrapf (''failed to close local storage connection '' @ quoted n @ '': '') e)
     ''errors closing local storage connections: '' s"

definition Local_ForceReconnect :: "'y storage_cfg \<Rightarrow> string \<Rightarrow> (localAdapter, disk) pool \<Rightarrow>
    ((goerr + localAdapter) \<times> (localAdapter, disk) pool) option" where
  "Local_ForceReconnect c n s = force_reconnect (\<lambda>a w. (local_Close a, w)) (local_create c) n s"

section \<open>Google Cloud Storage\<close>

text \<open>
  The client: what it returns, and the world it leaves. \<open>gc_Copy\<close> is the writer with its content
  type and the copy to it; \<open>gc_Objects\<close> are the results of the iterator until it is done.
\<close>

record ('c, 'r, 'd, 'w) gcs_client =
  gc_NewClient :: "string option \<Rightarrow> 'w \<Rightarrow> (goerr + 'c) \<times> 'w"
  gc_Close :: "'c \<Rightarrow> 'w \<Rightarrow> goerr option \<times> 'w"
  gc_Copy :: "'c \<Rightarrow> string \<Rightarrow> string \<Rightarrow> string \<Rightarrow> 'd \<Rightarrow> 'w \<Rightarrow> goerr option \<times> 'w"
  gc_CloseWithError :: "'c \<Rightarrow> string \<Rightarrow> string \<Rightarrow> goerr \<Rightarrow> 'w \<Rightarrow> 'w"
  gc_CloseWriter :: "'c \<Rightarrow> string \<Rightarrow> string \<Rightarrow> 'w \<Rightarrow> goerr option \<times> 'w"
  gc_NewReader :: "'c \<Rightarrow> string \<Rightarrow> string \<Rightarrow> 'w \<Rightarrow> (goerr + 'r) \<times> 'w"
  gc_Objects :: "'c \<Rightarrow> string \<Rightarrow> string \<Rightarrow> 'w \<Rightarrow> (goerr + string) list"
  gc_Delete :: "'c \<Rightarrow> string \<Rightarrow> string \<Rightarrow> 'w \<Rightarrow> goerr option \<times> 'w"
  gc_Attrs :: "'c \<Rightarrow> string \<Rightarrow> string \<Rightarrow> 'w \<Rightarrow> goerr option \<times> 'w"
  gc_ErrObjectNotExist :: goerr

record 'c gcsAdapter =
  ga_client :: 'c
  ga_cfg :: StorageConfig
  ga_name :: string

definition NewGCSAdapter :: "('c, 'r, 'd, 'w) gcs_client \<Rightarrow> StorageConfig \<Rightarrow> string \<Rightarrow> 'w \<Rightarrow>
    (goerr + 'c gcsAdapter) \<times> 'w" where
  "NewGCSAdapter gc cfg name w =
     (case gc_NewClient gc (if sc_CredentialsFile cfg \<noteq> [] then Some (sc_CredentialsFile cfg) else None) w of
        (Inl e, w1) \<Rightarrow> (Inl (wrapf ''failed to create GCS client: '' e), w1)
      | (Inr c, w1) \<Rightarrow> (Inr \<lparr>ga_client = c, ga_cfg = cfg, ga_name = name\<rparr>, w1))"

definition gcs_Close :: "('c, 'r, 'd, 'w) gcs_client \<Rightarrow> 'c gcsAdapter \<Rightarrow> 'w \<Rightarrow> goerr option \<times> 'w" where
  "gcs_Close gc a w = gc_Close gc (ga_client a) w"

text \<open>The bucket of the call or the configured one; it is an error that there is none.\<close>

definition gcs_bucket :: "'c gcsAdapter \<Rightarrow> string \<Rightarrow> string" where
  "gcs_bucket a bucket = (if bucket = [] then sc_BucketName (ga_cfg a) else bucket)"

definition no_bucket :: "string \<Rightarrow> string \<Rightarrow> goerr" where
  "no_bucket what name =
     plain_error (''bucket name is not specified in config or arguments for '' @ what @ '' '' @ quoted name)"

definition gcs_Upload :: "('c, 'r, 'd, 'w) gcs_client \<Rightarrow> 'c gcsAdapter \<Rightarrow> string \<Rightarrow> string \<Rightarrow> 'd \<Rightarrow> string \<Rightarrow> 'w \<Rightarrow>
    goerr option \<times> 'w" where
  "gcs_Upload gc a bucket objectName data contentType w =
     (let b = gcs_bucket a bucket; c = ga_client a in
      if b = [] then (Some (no_bucket ''object'' objectName), w)
      else (case gc_Copy gc c b objectName contentType data w of
          (Some e, w1) \<Rightarrow> (Some (wrapf (''failed to upload object '' @ quoted objectName @ '' to bucket '' @ quoted b @ '': '') e),
             gc_CloseWithError gc c b objectName e w1)
        | (None, w1) \<Rightarrow> (case gc_CloseWriter gc c b objectName w1 of
              (Some e, w2) \<Rightarrow> (Some (wrapf (''failed to close writer for object '' @ quoted objectName @ '' in bucket ''
                 @ quoted b @ '': '') e), w2)
            | (None, w2) \<Rightarrow> (None, w2))))"

definition gcs_Download :: "('c, 'r, 'd, 'w) gcs_client \<Rightarrow> 'c gcsAdapter \<Rightarrow> string \<Rightarrow> string \<Rightarrow> 'w \<Rightarrow> (goerr + 'r) \<times> 'w" where
  "gcs_Download gc a bucket objectName w =
     (let b = gcs_bucket a bucket in
      if b = [] then (Inl (no_bucket ''object'' objectName), w)
      else (case gc_NewReader gc (ga_client a) b objectName w of
          (Inl e, w1) \<Rightarrow> (Inl (wrapf (''failed to download object '' @ quoted objectName @ '' from bucket '' @ quoted b @ '': '') e), w1)
        | (Inr r, w1) \<Rightarrow> (Inr r, w1)))"

fun gcs_list :: "string \<Rightarrow> string \<Rightarrow> (string \<Rightarrow> 'a \<Rightarrow> goerr option \<times> 'a) \<Rightarrow> (goerr + string) list \<Rightarrow> 'a \<Rightarrow> goerr option \<times> 'a" where
  "gcs_list b pfx fn [] acc = (None, acc)"
| "gcs_list b pfx fn (Inl e # rs) acc =
     (Some (wrapf (''failed to list objects in bucket '' @ quoted b @ '' with prefix '' @ quoted pfx @ '': '') e), acc)"
| "gcs_list b pfx fn (Inr name # rs) acc = (case fn name acc of
       (Some e, acc1) \<Rightarrow> (Some (wrapf (''callback function failed for object '' @ quoted name @ '': '') e), acc1)
     | (None, acc1) \<Rightarrow> gcs_list b pfx fn rs acc1)"

definition gcs_ListObjects :: "('c, 'r, 'd, 'w) gcs_client \<Rightarrow> 'c gcsAdapter \<Rightarrow> string \<Rightarrow> string \<Rightarrow>
    (string \<Rightarrow> 'a \<Rightarrow> goerr option \<times> 'a) \<Rightarrow> 'w \<Rightarrow> 'a \<Rightarrow> goerr option \<times> 'a" where
  "gcs_ListObjects gc a bucket pfx fn w acc =
     (let b = gcs_bucket a bucket in
      if b = [] then (Some (no_bucket ''prefix'' pfx), acc)
      else gcs_list b pfx fn (gc_Objects gc (ga_client a) b pfx w) acc)"

definition gcs_DeleteObject :: "('c, 'r, 'd, 'w) gcs_client \<Rightarrow> 'c gcsAdapter \<Rightarrow> string \<Rightarrow> string \<Rightarrow> 'w \<Rightarrow> goerr option \<times> 'w" where
  "gcs_DeleteObject gc a bucket objectName w =
     (let b = gcs_bucket a bucket in
      if b = [] then (Some (no_bucket ''object'' objectName), w)
      else (case gc_Delete gc (ga_client a) b objectName w of
          (Some e, w1) \<Rightarrow> (Some (wrapf (''failed to delete object '' @ quoted objectName @ '' from bucket '' @ quoted b @ '': '') e), w1)
        | (None, w1) \<Rightarrow> (None, w1)))"

definition gcs_Exists :: "('c, 'r, 'd, 'w) gcs_client \<Rightarrow> 'c gcsAdapter \<Rightarrow> string \<Rightarrow> string \<Rightarrow> 'w \<Rightarrow> (goerr + bool) \<times> 'w" where
  "gcs_Exists gc a bucket objectName w =
     (let b = gcs_bucket a bucket in
      if b = [] then (Inl (no_bucket ''object'' objectName), w)
      else (case gc_Attrs gc (ga_client a) b objectName w of
          (Some e, w1) \<Rightarrow>
            if e = gc_ErrObjectNotExist gc then (Inr False, w1)
            else (Inl (wrapf (''failed to check existence of object '' @ quoted objectName @ '' in bucket '' @ quoted b @ '': '') e), w1)
        | (None, w1) \<Rightarrow> (Inr True, w1)))"

definition gcs_create :: "('c, 'r, 'd, 'w) gcs_client \<Rightarrow> 'y storage_cfg \<Rightarrow> ('c gcsAdapter, 'w) opener" where
  "gcs_create gc c n w = (case gm_get (ac_configs c) ''storage'' of
       None \<Rightarrow> (Inl (plain_error (''no '' @ quoted ''storage'' @ '' adapter configuration found in Surfin.AdapterConfigs'')), w)
     | Some CfgOther \<Rightarrow> (Inl (plain_error (''invalid '' @ quoted ''storage'' @ '' configuration format: expected map[string]interface{}'')), w)
     | Some (CfgMap m) \<Rightarrow> (case gm_get m n of
           None \<Rightarrow> (Inl (plain_error (''storage configuration for name '' @ quoted n @ '' not found'')), w)
         | Some y \<Rightarrow> (case st_NewDecoder c of
               Some e \<Rightarrow> (Inl (wrapf ''failed to create decoder for storage config: '' e), w)
             | None \<Rightarrow> (case st_Decode c y of
                   Inl e \<Rightarrow> (Inl (wrapf (''failed to decode storage config for '' @ quoted n @ '': '') e), w)
                 | Inr cfg \<Rightarrow>
                     if sc_Type cfg \<noteq> ''gcs''
                     then (Inl (plain_error (''requested storage type '' @ quoted (sc_Type cfg)
                            @ '' does not match provider type '' @ quoted ''gcs'')), w)
                     else (case NewGCSAdapter gc cfg n w of
                         (Inl e, w1) \<Rightarrow> (Inl (wrapf (''failed to create GCS adapter for '' @ quoted n @ '': '') e), w1)
                       | (Inr a, w1) \<Rightarrow> (Inr a, w1))))))"

definition GCS_GetConnection :: "('c, 'r, 'd, 'w) gcs_client \<Rightarrow> 'y storage_cfg \<Rightarrow> string \<Rightarrow> ('c gcsAdapter, 'w) pool \<Rightarrow>
    ((goerr + 'c gcsAdapter) \<times> ('c gcsAdapter, 'w) pool) option" where
  "GCS_GetConnection gc c n s = get_connection (gcs_create gc c) n s"

definition GCS_CloseAll :: "('c, 'r, 'd, 'w) gcs_client \<Rightarrow> ('c gcsAdapter, 'w) pool \<Rightarrow>
    (goerr option \<times> ('c gcsAdapter, 'w) pool) option" where
  "GCS_CloseAll gc s = close_all (gcs_Close gc)
     (\<lambda>n e. wrapf (''failed to close GCS connection '' @ quoted n @ '': '') e)
     ''errors occurred while closing GCS connections: '' s"

definition GCS_ForceReconnect :: "('c, 'r, 'd, 'w) gcs_client \<Rightarrow> 'y storage_cfg \<Rightarrow> string \<Rightarrow> ('c gcsAdapter, 'w) pool \<Rightarrow>
    ((goerr + 'c gcsAdapter) \<times> ('c gcsAdapter, 'w) pool) option" where
  "GCS_ForceReconnect gc c n s = force_reconnect (gcs_Close gc) (gcs_create gc c) n s"

section \<open>The resolvers\<close>

type_synonym ('h, 'w) getter_fn = "string \<Rightarrow> 'w \<Rightarrow> ((goerr + 'h) \<times> 'w) option"

definition Local_ResolveStorageConnection :: "'y storage_cfg \<Rightarrow> (string, ('h, 'w) getter_fn) gomap \<Rightarrow> string \<Rightarrow> 'w \<Rightarrow>
    ((goerr + 'h) \<times> 'w) option" where
  "Local_ResolveStorageConnection c providers n w = (case cfg_section c ''storage'' of
       None \<Rightarrow> Some (Inl (plain_error (''invalid '' @ quoted ''storage'' @ '' configuration format: expected map[string]interface{}'')), w)
     | Some m \<Rightarrow> (case gm_get m n of
           None \<Rightarrow> Some (Inl (plain_error (''storage connection '' @ quoted n @ '' not found in configuration'')), w)
         | Some y \<Rightarrow> (case st_NewDecoder c of
               Some e \<Rightarrow> Some (Inl (wrapf ''failed to create decoder for storage type: '' e), w)
             | None \<Rightarrow> (case st_DecodeType c y of
                   Inl e \<Rightarrow> Some (Inl (wrapf (''failed to decode storage type for '' @ quoted n @ '': '') e), w)
                 | Inr ty \<Rightarrow> (case gm_get providers ty of
                       None \<Rightarrow> Some (Inl (plain_error (''no storage provider found for type '' @ quoted ty
                                @ '' (connection '' @ quoted n @ '')'')), w)
                     | Some get \<Rightarrow> (case get n w of
                           None \<Rightarrow> None
                         | Some (Inl e, w1) \<Rightarrow> Some (Inl (wrapf (''failed to get storage connection '' @ quoted n
                                @ '' from provider '' @ quoted ty @ '': '') e), w1)
                         | Some (Inr h, w1) \<Rightarrow> Some (Inr h, w1)))))))"

definition GCS_ResolveStorageConnection :: "'y storage_cfg \<Rightarrow> (string, ('h, 'w) getter_fn) gomap \<Rightarrow> string \<Rightarrow> 'w \<Rightarrow>
    ((goerr + 'h) \<times> 'w) option" where
  "GCS_ResolveStorageConnection c providers n w = (case gm_get (ac_configs c) ''storage'' of
       None \<Rightarrow> Some (Inl (plain_error (''no '' @ quoted ''storage'' @ '' adapter configuration found in Surfin.AdapterConfigs'')), w)
     | Some CfgOther \<Rightarrow> Some (Inl (plain_error (''invalid '' @ quoted ''storage'' @ '' configuration format: expected map[string]interface{}'')), w)
     | Some (CfgMap m) \<Rightarrow> (case gm_get m n of
           None \<Rightarrow> Some (Inl (plain_error (''storage configuration for name '' @ quoted n @ '' not found'')), w)
         | Some y \<Rightarrow> (case st_NewDecoder c of
               Some e \<Rightarrow> Some (Inl (wrapf ''failed to create decoder for storage type: '' e), w)
             | None \<Rightarrow> (case st_DecodeType c y of
                   Inl e \<Rightarrow> Some (Inl (wrapf (''failed to decode storage type for '' @ quoted n @ '': '') e), w)
                 | Inr ty \<Rightarrow> (case gm_get providers ty of
                       None \<Rightarrow> Some (Inl (plain_error (''no storage provider registered for type '' @ quoted ty)), w)
                     | Some get \<Rightarrow> get n w)))))"

text \<open>The name is the one that is asked for, whatever the executions are.\<close>

definition ResolveStorageConnectionName :: "'j option \<Rightarrow> 's option \<Rightarrow> string \<Rightarrow> goerr + string" where
  "ResolveStorageConnectionName jobExecution stepExecution defaultName = Inr defaultName"

end
