(* ===== verification/Gorm_Provider.thy ===== *)
theory Gorm_Provider
  imports Storage_Providers
begin

text \<open>
  \<open>core/secret\<close> and the database connections of \<open>adapter/database/gorm\<close>: the resolution of secrets,
  the registry of dialectors with the three dialects, \<open>provider.go\<close> and \<open>resolver.go\<close>.

  GORM, the drivers and \<open>mapstructure\<close> are third parties': opening a dialector, the \<open>sql.DB\<close> of a
  GORM handle, its pool settings, pinging and closing it are functions on a world. The files and the
  environment a secret is read from are functions. \<open>strings.TrimSpace\<close> takes away the spaces of
  ASCII only. Log lines are left out.
\<close>

section \<open>Secrets\<close>

datatype secret = SecretString string | SecretBytes string

text \<open>The interface \<open>SecretProvider\<close>.\<close>

record secret_provider =
  sec_Supports :: "string \<Rightarrow> bool"
  sec_Resolve :: "string \<Rightarrow> goerr + secret"

definition TrimPrefix :: "string \<Rightarrow> string \<Rightarrow> string" where
  "TrimPrefix s p = (if prefix p s then drop (length p) s else s)"

definition FileSecretProvider :: "(string \<Rightarrow> goerr + string) \<Rightarrow> secret_provider" where
  "FileSecretProvider readFile = \<lparr>sec_Supports = prefix ''file://'',
     sec_Resolve = (\<lambda>uri. case readFile (TrimPrefix uri ''file://'') of
        Inl e \<Rightarrow> Inl (wrapf ''failed to read secret file: '' e) | Inr data \<Rightarrow> Inr (SecretBytes data))\<rparr>"

definition EnvSecretProvider :: "(string \<Rightarrow> string) \<Rightarrow> secret_provider" where
  "EnvSecretProvider getenv = \<lparr>sec_Supports = prefix ''env://'',
     sec_Resolve = (\<lambda>uri. let k = TrimPrefix uri ''env://''; val = getenv k in
        if val = [] then Inl (plain_error (''environment variable not found: '' @ k)) else Inr (SecretString val))\<rparr>"

definition NewCompositeSecretResolver :: "(string \<Rightarrow> goerr + string) \<Rightarrow> (string \<Rightarrow> string) \<Rightarrow> secret_provider list \<Rightarrow>
    secret_provider list" where
  "NewCompositeSecretResolver readFile getenv providers =
     (if providers = [] then [FileSecretProvider readFile, EnvSecretProvider getenv] else providers)"

fun Composite_Resolve :: "secret_provider list \<Rightarrow> string \<Rightarrow> goerr + secret" where
  "Composite_Resolve [] uri = Inl (plain_error (''no provider found for uri: '' @ uri))"
| "Composite_Resolve (p # ps) uri = (if sec_Supports p uri then sec_Resolve p uri else Composite_Resolve ps uri)"

section \<open>Dialects\<close>

record PoolConfig =
  pc_MaxOpenConns :: int
  pc_MaxIdleConns :: int
  pc_ConnMaxLifetimeMinutes :: int

record DatabaseConfig =
  dc_Type :: string
  dc_Host :: string
  dc_Port :: int
  dc_Database :: string
  dc_User :: string
  dc_Password :: string
  dc_Schema :: string
  dc_Sslmode :: string
  dc_ProjectID :: string
  dc_DatasetID :: string
  dc_TableID :: string
  dc_Pool :: PoolConfig

definition Postgres_ConnectionString :: "DatabaseConfig \<Rightarrow> string" where
  "Postgres_ConnectionString c = ''host='' @ dc_Host c @ '' port='' @ int_str (dc_Port c) @ '' user='' @ dc_User c
     @ '' password='' @ dc_Password c @ '' dbname='' @ dc_Database c @ '' sslmode='' @ dc_Sslmode c"

definition MySQL_ConnectionString :: "DatabaseConfig \<Rightarrow> string" where
  "MySQL_ConnectionString c =
     (let authPart = (if dc_User c \<noteq> []
        then (if dc_Password c \<noteq> [] then dc_User c @ '':'' @ dc_Password c else dc_User c) @ ''@'' else [])
      in authPart @ ''tcp('' @ dc_Host c @ '':'' @ int_str (dc_Port c) @ '')/'' @ dc_Database c
         @ ''?charset=utf8mb4&parseTime=True&loc=Local'')"

definition SQLite_ConnectionString :: "DatabaseConfig \<Rightarrow> string" where
  "SQLite_ConnectionString c = dc_Database c"

text \<open>What the drivers make of a connection string.\<close>

datatype dialector = MySQL_Open string | Postgres_Open string | SQLite_Open string

type_synonym dialectors = "(string, DatabaseConfig \<Rightarrow> goerr + dialector) gomap"

definition RegisterDialector :: "string \<Rightarrow> (DatabaseConfig \<Rightarrow> goerr + dialector) \<Rightarrow> dialectors \<Rightarrow> dialectors" where
  "RegisterDialector dbType factory reg = gm_put dbType factory reg"

definition GetDialectorFactory :: "string \<Rightarrow> dialectors \<Rightarrow> goerr + (DatabaseConfig \<Rightarrow> goerr + dialector)" where
  "GetDialectorFactory dbType reg = (case gm_get reg dbType of
       None \<Rightarrow> Inl (plain_error (''no dialector registered for database type: '' @ dbType)) | Some f \<Rightarrow> Inr f)"

definition init_mysql :: "dialectors \<Rightarrow> dialectors" where
  "init_mysql = RegisterDialector ''mysql'' (\<lambda>c. Inr (MySQL_Open (MySQL_ConnectionString c)))"

definition init_postgres :: "dialectors \<Rightarrow> dialectors" where
  "init_postgres = RegisterDialector ''postgres'' (\<lambda>c. Inr (Postgres_Open (Postgres_ConnectionString c)))"

definition init_sqlite :: "dialectors \<Rightarrow> dialectors" where
  "init_sqlite = RegisterDialector ''sqlite'' (\<lambda>c.
     if dc_Database c = [] then Inl (plain_error ''SQLite database path cannot be empty'')
     else Inr (SQLite_Open (SQLite_ConnectionString c)))"

section \<open>The base provider\<close>

record ('d, 'q, 'w) gorm_lib =
  gorm_Open :: "dialector \<Rightarrow> 'w \<Rightarrow> (goerr + 'd) \<times> 'w"
  gorm_DB :: "'d \<Rightarrow> goerr + 'q"
  sql_SetPool :: "'q \<Rightarrow> int \<Rightarrow> int \<Rightarrow> int option \<Rightarrow> 'w \<Rightarrow> 'w"
  sql_Ping :: "'q \<Rightarrow> 'w \<Rightarrow> goerr option \<times> 'w"
  sql_Close :: "'q \<Rightarrow> 'w \<Rightarrow> goerr option \<times> 'w"

record ('d, 'q) GormDBAdapter =
  gd_db :: 'd
  gd_sqlDB :: "'q option"
  gd_cfg :: DatabaseConfig
  gd_dbType :: string
  gd_name :: string

text \<open>\<open>None\<close>: the constructor ends the program.\<close>

definition NewGormDBAdapter :: "('d, 'q, 'w) gorm_lib \<Rightarrow> 'd \<Rightarrow> DatabaseConfig \<Rightarrow> string \<Rightarrow> ('d, 'q) GormDBAdapter option" where
  "NewGormDBAdapter g db cfg name = (case gorm_DB g db of
       Inl e \<Rightarrow> None
     | Inr q \<Rightarrow> Some \<lparr>gd_db = db, gd_sqlDB = Some q, gd_cfg = cfg, gd_dbType = dc_Type cfg, gd_name = name\<rparr>)"

definition GormDB_Close :: "('d, 'q, 'w) gorm_lib \<Rightarrow> ('d, 'q) GormDBAdapter \<Rightarrow> 'w \<Rightarrow> goerr option \<times> 'w" where
  "GormDB_Close g a w = (case gd_sqlDB a of None \<Rightarrow> (None, w) | Some q \<Rightarrow> sql_Close g q w)"

definition GetSQLDB :: "('d, 'q) GormDBAdapter \<Rightarrow> goerr + 'q" where
  "GetSQLDB a = (case gd_sqlDB a of None \<Rightarrow> Inl (plain_error ''underlying sql.DB is nil'') | Some q \<Rightarrow> Inr q)"

definition RefreshConnection :: "('d, 'q, 'w) gorm_lib \<Rightarrow> ('d, 'q) GormDBAdapter \<Rightarrow> 'w \<Rightarrow> goerr option \<times> 'w" where
  "RefreshConnection g a w = (case gd_sqlDB a of
       None \<Rightarrow> (Some (plain_error ''database connection is not initialized''), w) | Some q \<Rightarrow> sql_Ping g q w)"

record 'y BaseProvider =
  bp_cfg :: "('y, DatabaseConfig) adapter_cfg"
  bp_resolve :: "string \<Rightarrow> goerr + secret"
  bp_dbType :: string
  bp_dialectors :: dialectors

definition connect :: "('d, 'q, 'w) gorm_lib \<Rightarrow> dialectors \<Rightarrow> DatabaseConfig \<Rightarrow> 'w \<Rightarrow> (goerr + 'd) \<times> 'w" where
  "connect g reg cfg w = (case GetDialectorFactory (dc_Type cfg) reg of
       Inl e \<Rightarrow> (Inl (wrapf (''failed to get dialector factory for '' @ dc_Type cfg @ '': '') e), w)
     | Inr factory \<Rightarrow> (case factory cfg of
           Inl e \<Rightarrow> (Inl (wrapf (''failed to create dialector for '' @ dc_Type cfg @ '': '') e), w)
         | Inr d \<Rightarrow> (case gorm_Open g d w of
               (Inl e, w1) \<Rightarrow> (Inl (wrapf ''failed to open GORM connection: '' e), w1)
             | (Inr db, w1) \<Rightarrow> (case gorm_DB g db of
                   Inl e \<Rightarrow> (Inl (wrapf ''failed to get underlying sql.DB: '' e), w1)
                 | Inr q \<Rightarrow> (Inr db, sql_SetPool g q (pc_MaxOpenConns (dc_Pool cfg)) (pc_MaxIdleConns (dc_Pool cfg))
                     (if pc_ConnMaxLifetimeMinutes (dc_Pool cfg) > 0
                      then Some (pc_ConnMaxLifetimeMinutes (dc_Pool cfg)) else None) w1)))))"

text \<open>The password, when it is the address of a secret.\<close>

definition resolve_password :: "'y BaseProvider \<Rightarrow> string \<Rightarrow> DatabaseConfig \<Rightarrow> goerr + DatabaseConfig" where
  "resolve_password p n cfg =
     (if prefix ''env://'' (dc_Password cfg) \<or> prefix ''file://'' (dc_Password cfg)
      then (case bp_resolve p (dc_Password cfg) of
          Inl e \<Rightarrow> Inl (wrapf (''failed to resolve password for '' @ quoted n @ '': '') e)
        | Inr (SecretString s) \<Rightarrow> Inr (cfg\<lparr>dc_Password := trim_space s\<rparr>)
        | Inr (SecretBytes s) \<Rightarrow> Inr (cfg\<lparr>dc_Password := trim_space s\<rparr>))
      else Inr cfg)"

text \<open>
  The opener of \<open>createAndStoreConnection\<close>; the end of the program in the constructor is not
  reached, for \<open>connect\<close> has asked for the same \<open>sql.DB\<close>.
\<close>

definition gorm_create :: "('d, 'q, 'w) gorm_lib \<Rightarrow> 'y BaseProvider \<Rightarrow> (('d, 'q) GormDBAdapter, 'w) opener" where
  "gorm_create g p n w = (case cfg_section (bp_cfg p) ''database'' of
       None \<Rightarrow> (Inl (plain_error (''invalid '' @ quoted ''database''
              @ '' adapter configuration format: expected map[string]interface{}'')), w)
     | Some m \<Rightarrow> (case gm_get m n of
           None \<Rightarrow> (Inl (plain_error (''database configuration '' @ quoted n @ '' not found under ''
              @ quoted ''adapter.database'' @ '' configs'')), w)
         | Some y \<Rightarrow> (case st_Decode (bp_cfg p) y of
               Inl e \<Rightarrow> (Inl (wrapf (''failed to decode database config for '' @ quoted n @ '': '') e), w)
             | Inr cfg0 \<Rightarrow> (case resolve_password p n cfg0 of
                   Inl e \<Rightarrow> (Inl e, w)
                 | Inr cfg \<Rightarrow>
                     if dc_Type cfg \<noteq> bp_dbType p \<and> \<not> (bp_dbType p = ''postgres'' \<and> dc_Type cfg = ''redshift'')
                     then (Inl (plain_error (''provider type mismatch: expected '' @ quoted (bp_dbType p) @ '', got ''
                        @ quoted (dc_Type cfg) @ '' for connection '' @ quoted n)), w)
                     else (case connect g (bp_dialectors p) cfg w of
                         (Inl e, w1) \<Rightarrow> (Inl e, w1)
                       | (Inr db, w1) \<Rightarrow> (case NewGormDBAdapter g db cfg n of
                             Some a \<Rightarrow> (Inr a, w1)
                           | None \<Rightarrow> (Inl (plain_error ''Failed to get underlying *sql.DB''), w1)))))))"

definition createAndStoreConnection :: "('d, 'q, 'w) gorm_lib \<Rightarrow> 'y BaseProvider \<Rightarrow> string \<Rightarrow>
    (('d, 'q) GormDBAdapter, 'w) pool \<Rightarrow> (goerr + ('d, 'q) GormDBAdapter) \<times> (('d, 'q) GormDBAdapter, 'w) pool" where
  "createAndStoreConnection g p n s = create_and_store (gorm_create g p) n s"

definition Gorm_GetConnection :: "('d, 'q, 'w) gorm_lib \<Rightarrow> 'y BaseProvider \<Rightarrow> string \<Rightarrow>
    (('d, 'q) GormDBAdapter, 'w) pool \<Rightarrow> ((goerr + ('d, 'q) GormDBAdapter) \<times> (('d, 'q) GormDBAdapter, 'w) pool) option" where
  "Gorm_GetConnection g p n s = get_connection (gorm_create g p) n s"

text \<open>An old connection is closed, and stays in the map when a new one cannot be made.\<close>

definition Gorm_ForceReconnect :: "('d, 'q, 'w) gorm_lib \<Rightarrow> 'y BaseProvider \<Rightarrow> string \<Rightarrow>
    (('d, 'q) GormDBAdapter, 'w) pool \<Rightarrow> ((goerr + ('d, 'q) GormDBAdapter) \<times> (('d, 'q) GormDBAdapter, 'w) pool) option" where
  "Gorm_ForceReconnect g p n s = (case Lock s of
       None \<Rightarrow> None
     | Some s1 \<Rightarrow>
         (let s2 = (case gm_get (pl_conns s1) n of
               None \<Rightarrow> s1 | Some h \<Rightarrow> s1\<lparr>pl_world := snd (GormDB_Close g h (pl_world s1))\<rparr>)
          in case createAndStoreConnection g p n s2 of (r, s3) \<Rightarrow> Some (r, Unlock s3)))"

text \<open>The error of the last connection of the map that could not be closed.\<close>

fun gorm_close_each :: "('d, 'q, 'w) gorm_lib \<Rightarrow> (string \<times> ('d, 'q) GormDBAdapter) list \<Rightarrow> goerr option \<Rightarrow> 'w \<Rightarrow>
    goerr option \<times> 'w" where
  "gorm_close_each g [] lastErr w = (lastErr, w)"
| "gorm_close_each g ((n, h) # cs) lastErr w = (case GormDB_Close g h w of
       (Some e, w1) \<Rightarrow> gorm_close_each g cs (Some e) w1 | (None, w1) \<Rightarrow> gorm_close_each g cs lastErr w1)"

definition Gorm_CloseAll :: "('d, 'q, 'w) gorm_lib \<Rightarrow> (('d, 'q) GormDBAdapter, 'w) pool \<Rightarrow>
    (goerr option \<times> (('d, 'q) GormDBAdapter, 'w) pool) option" where
  "Gorm_CloseAll g s = (case Lock s of
       None \<Rightarrow> None
     | Some s1 \<Rightarrow> (case gorm_close_each g (pl_conns s1) None (pl_world s1) of
           (err, w) \<Rightarrow> Some (err, Unlock (s1\<lparr>pl_conns := [], pl_world := w\<rparr>))))"

section \<open>The resolver of database connections\<close>

text \<open>The interface \<open>DBProvider\<close>, of the connections \<open>'h\<close> and the world of all providers.\<close>

record ('h, 'w) DBProvider =
  dp_GetConnection :: "('h, 'w) getter_fn"
  dp_ForceReconnect :: "('h, 'w) getter_fn"
  dp_Type :: string

definition NewGormDBConnectionResolver :: "('h, 'w) DBProvider list \<Rightarrow> (string, ('h, 'w) DBProvider) gomap" where
  "NewGormDBConnectionResolver ps = fold (\<lambda>p m. gm_put (dp_Type p) p m) ps []"

definition select_provider :: "(string, ('h, 'w) DBProvider) gomap \<Rightarrow> string \<Rightarrow> ('h, 'w) DBProvider option" where
  "select_provider providers ty = (case gm_get providers ty of
       Some p \<Rightarrow> Some p | None \<Rightarrow> if ty = ''redshift'' then gm_get providers ''postgres'' else None)"

definition resolver_name :: string where
  "resolver_name = ''DBConnectionResolver: ''"

definition ResolveDBConnection :: "('y, DatabaseConfig) adapter_cfg \<Rightarrow> ('h \<Rightarrow> goerr + 'q) \<Rightarrow>
    ('q \<Rightarrow> 'w \<Rightarrow> goerr option \<times> 'w) \<Rightarrow> (string, ('h, 'w) DBProvider) gomap \<Rightarrow> string \<Rightarrow> 'w \<Rightarrow> ((goerr + 'h) \<times> 'w) option" where
  "ResolveDBConnection c getSQLDB ping providers n w = (case cfg_section c ''database'' of
       None \<Rightarrow> Some (Inl (plain_error (resolver_name @ ''invalid '' @ quoted ''database''
              @ '' adapter configuration format: expected map[string]interface{}'')), w)
     | Some m \<Rightarrow> (case gm_get m n of
           None \<Rightarrow> Some (Inl (plain_error (resolver_name @ ''database configuration '' @ quoted n @ '' not found under ''
              @ quoted ''adapter.database'' @ '' configs'')), w)
         | Some y \<Rightarrow> (case st_Decode c y of
               Inl e \<Rightarrow> Some (Inl (wrapf (resolver_name @ ''failed to decode database config for '' @ quoted n @ '': '') e), w)
             | Inr cfg \<Rightarrow> (case select_provider providers (dc_Type cfg) of
                   None \<Rightarrow> Some (Inl (plain_error (resolver_name @ ''DBProvider for type '' @ quoted (dc_Type cfg)
                      @ '' not found for connection '' @ quoted n)), w)
                 | Some p \<Rightarrow> (case dp_GetConnection p n w of
                       None \<Rightarrow> None
                     | Some (Inl e, w1) \<Rightarrow>
                         Some (Inl (wrapf (resolver_name @ ''Failed to get connection '' @ quoted n @ '': '') e), w1)
                     | Some (Inr h, w1) \<Rightarrow> (case getSQLDB h of
                           Inl e \<Rightarrow> Some (Inr h, w1)
                         | Inr q \<Rightarrow> (case ping q w1 of
                               (None, w2) \<Rightarrow> Some (Inr h, w2)
                             | (Some e, w2) \<Rightarrow> (case dp_ForceReconnect p n w2 of
                                   None \<Rightarrow> None
                                 | Some (Inl e2, w3) \<Rightarrow> Some (Inl (wrapf (resolver_name @ ''Failed to reconnect connection ''
                                      @ quoted n @ '': '') e2), w3)
                                 | Some (Inr h2, w3) \<Rightarrow> Some (Inr h2, w3)))))))))"

definition ResolveDBConnectionName :: "'j option \<Rightarrow> 's option \<Rightarrow> string \<Rightarrow> goerr + string" where
  "ResolveDBConnectionName jobExecution stepExecution defaultName = Inr defaultName"

end
