(* ===== verification/Connections_Correct.thy ===== *)
theory Connections_Correct
  imports Gorm_Provider
begin

text \<open>
  What the providers and resolvers of connections guarantee: the providers meet the contract of a
  pool, reconnecting through the storage providers never returns while the one of GORM does, what
  a resolved database connection is, and that a Redshift connection cannot be made.
\<close>

section \<open>The providers as pools\<close>

interpretation local_pool: connection_pool "Local_GetConnection c" pl_conns unlocked for c
proof -
  have "Local_GetConnection c = get_connection (local_create c)" by (rule ext)+ (simp add: Local_GetConnection_def)
  then show "connection_pool (Local_GetConnection c) pl_conns unlocked" by (simp add: dcl.connection_pool_axioms)
qed

interpretation gcs_pool: connection_pool "GCS_GetConnection gc c" pl_conns unlocked for gc c
proof -
  have "GCS_GetConnection gc c = get_connection (gcs_create gc c)" by (rule ext)+ (simp add: GCS_GetConnection_def)
  then show "connection_pool (GCS_GetConnection gc c) pl_conns unlocked" by (simp add: dcl.connection_pool_axioms)
qed

interpretation gorm_pool: connection_pool "Gorm_GetConnection g p" pl_conns unlocked for g p
proof -
  have "Gorm_GetConnection g p = get_connection (gorm_create g p)" by (rule ext)+ (simp add: Gorm_GetConnection_def)
  then show "connection_pool (Gorm_GetConnection g p) pl_conns unlocked" by (simp add: dcl.connection_pool_axioms)
qed

section \<open>Reconnecting\<close>

text \<open>Asking for a connection while holding the write lock blocks.\<close>

lemma get_locked: "pl_writer s \<Longrightarrow> get_connection create n s = None"
  by (simp add: get_connection_def RLock_def)

lemma force_reconnect_blocks: "force_reconnect close create n s = None"
  by (auto simp: force_reconnect_def Lock_def Let_def get_locked split: option.splits)

lemma Gorm_ForceReconnect_returns:
  assumes "unlocked s"
  shows "\<exists>r s'. Gorm_ForceReconnect g p n s = Some (r, s') \<and> unlocked s'
    \<and> (case r of Inr h \<Rightarrow> gm_get (pl_conns s') n = Some h \<and> (\<exists>w w'. gorm_create g p n w = (Inr h, w'))
       | Inl e \<Rightarrow> pl_conns s' = pl_conns s)"
proof -
  have l: "Lock s = Some (s\<lparr>pl_writer := True\<rparr>)" using assms by (simp add: Lock_def unlocked_def)
  define w where "w = (case gm_get (pl_conns s) n of None \<Rightarrow> pl_world s | Some h \<Rightarrow> snd (GormDB_Close g h (pl_world s)))"
  have f: "Gorm_ForceReconnect g p n s = (case createAndStoreConnection g p n (s\<lparr>pl_writer := True, pl_world := w\<rparr>) of
      (r, s3) \<Rightarrow> Some (r, Unlock s3))"
    by (auto simp: Gorm_ForceReconnect_def l w_def Let_def split: option.splits)
  obtain r w' where c: "gorm_create g p n w = (r, w')" by (cases "gorm_create g p n w")
  show ?thesis
  proof (cases r)
    case (Inl e)
    then show ?thesis using assms c
      by (simp add: f createAndStoreConnection_def create_and_store_def Unlock_def unlocked_def)
  next
    case (Inr h)
    then show ?thesis using assms c
      by (auto simp: f createAndStoreConnection_def create_and_store_def Unlock_def unlocked_def pool_put_def)
  qed
qed

text \<open>
  C28: \<open>ForceReconnect\<close> of the two storage providers never returns, whatever the state, for it asks
  for the lock it holds; the one of the GORM provider always returns and releases the lock, and
  either it has stored the new connection, or it reports the error and leaves the map as it was, so
  that the connection it has closed is the one \<open>GetConnection\<close> goes on to return.
\<close>

theorem reconnect_blocks_or_returns:
  assumes "unlocked s"
  shows "Local_ForceReconnect c n ls = None \<and> GCS_ForceReconnect gc c n gs = None
    \<and> (\<exists>r s'. Gorm_ForceReconnect g p n s = Some (r, s') \<and> unlocked s'
        \<and> (\<forall>h. r = Inr h \<longrightarrow> gm_get (pl_conns s') n = Some h)
        \<and> (\<forall>e h. r = Inl e \<and> gm_get (pl_conns s) n = Some h \<longrightarrow> Gorm_GetConnection g p n s' = Some (Inr h, s')))"
proof -
  obtain r s' where r: "Gorm_ForceReconnect g p n s = Some (r, s')" "unlocked s'"
    "case r of Inr h \<Rightarrow> gm_get (pl_conns s') n = Some h \<and> (\<exists>w w'. gorm_create g p n w = (Inr h, w'))
       | Inl e \<Rightarrow> pl_conns s' = pl_conns s"
    using Gorm_ForceReconnect_returns[OF assms] by blast
  have "Gorm_GetConnection g p n s' = Some (Inr h, s')" if "r = Inl e" "gm_get (pl_conns s) n = Some h" for e h
    using gorm_pool.get_cached[OF r(2), of n h] r(3) that by simp
  then show ?thesis using r
    by (auto simp: Local_ForceReconnect_def GCS_ForceReconnect_def force_reconnect_blocks)
qed

section \<open>Resolved database connections\<close>

text \<open>The base provider as a \<open>DBProvider\<close>, and the ping of the resolver, on the state of its pool.\<close>

definition base_db_provider :: "('d, 'q, 'w) gorm_lib \<Rightarrow> 'y BaseProvider \<Rightarrow>
    (('d, 'q) GormDBAdapter, (('d, 'q) GormDBAdapter, 'w) pool) DBProvider" where
  "base_db_provider g p = \<lparr>dp_GetConnection = Gorm_GetConnection g p, dp_ForceReconnect = Gorm_ForceReconnect g p,
     dp_Type = bp_dbType p\<rparr>"

definition pool_ping :: "('d, 'q, 'w) gorm_lib \<Rightarrow> 'q \<Rightarrow> ('h, 'w) pool \<Rightarrow> goerr option \<times> ('h, 'w) pool" where
  "pool_ping g q s = (case sql_Ping g q (pl_world s) of (err, w) \<Rightarrow> (err, s\<lparr>pl_world := w\<rparr>))"

lemma pool_ping_fields:
  "pool_ping g q s = (err, s') \<Longrightarrow> unlocked s' = unlocked s \<and> pl_conns s' = pl_conns s"
  by (auto simp: pool_ping_def unlocked_def split: prod.splits)


section \<open>Redshift\<close>

text \<open>
  The dialectors that the packages register have none for Redshift, and without one the
  provider for PostgreSQL, which the resolver selects for Redshift, makes no connection that is
  configured as one: every attempt fails, and the pool stays as it was.
\<close>

theorem redshift_never_connects:
  assumes "unlocked s" "cfg_section (bp_cfg p) ''database'' = Some m" "gm_get m n = Some y"
    and "st_Decode (bp_cfg p) y = Inr cfg" "dc_Type cfg = ''redshift''"
    and "bp_dialectors p = init_mysql (init_postgres (init_sqlite []))" "gm_get (pl_conns s) n = None"
  shows "\<exists>e. Gorm_GetConnection g p n s = Some (Inl e, s)
    \<and> (\<exists>q. gm_get (bp_dialectors p) ''postgres'' = Some q)"
proof -
  have reg: "gm_get (bp_dialectors p) ''redshift'' = None"
    by (simp add: assms(6) init_mysql_def init_postgres_def init_sqlite_def RegisterDialector_def)
  have pw: "\<exists>e. resolve_password p n cfg = Inl e \<or> (\<exists>cfg'. resolve_password p n cfg = Inr cfg' \<and> dc_Type cfg' = ''redshift'')"
    using assms(5) by (auto simp: resolve_password_def split: sum.splits secret.splits)
  then have "\<exists>e. gorm_create g p n (pl_world s) = (Inl e, pl_world s)"
    using assms(2-4) by (auto simp: gorm_create_def connect_def GetDialectorFactory_def reg)
  moreover have "s\<lparr>pl_world := pl_world s\<rparr> = s" by simp
  ultimately have "\<exists>e. Gorm_GetConnection g p n s = Some (Inl e, s)"
    using assms(7) by (auto simp: Gorm_GetConnection_def get_connection_alone[OF assms(1)])
  then show ?thesis
    by (simp add: assms(6) init_mysql_def init_postgres_def init_sqlite_def RegisterDialector_def)
qed

section \<open>The theorems on a concrete provider\<close>

text \<open>A library whose first connection does not answer pings, and a provider for PostgreSQL.\<close>

definition demo_gorm :: "(nat, nat, nat) gorm_lib" where
  "demo_gorm = \<lparr>gorm_Open = (\<lambda>d w. (Inr w, w + 1)), gorm_DB = Inr, sql_SetPool = (\<lambda>q a b c w. w),
     sql_Ping = (\<lambda>q w. (if q = 0 then Some (plain_error ''bad connection'') else None, w)), sql_Close = (\<lambda>q w. (None, w))\<rparr>"

definition demo_db :: "string \<Rightarrow> DatabaseConfig" where
  "demo_db ty = \<lparr>dc_Type = ty, dc_Host = ''h'', dc_Port = 5432, dc_Database = ''d'', dc_User = ''u'', dc_Password = [],
     dc_Schema = [], dc_Sslmode = ''disable'', dc_ProjectID = [], dc_DatasetID = [], dc_TableID = [],
     dc_Pool = \<lparr>pc_MaxOpenConns = 1, pc_MaxIdleConns = 1, pc_ConnMaxLifetimeMinutes = 0\<rparr>\<rparr>"

definition demo_adapters :: "(string, DatabaseConfig) adapter_cfg" where
  "demo_adapters = \<lparr>ac_configs = [(''database'', CfgMap [(''p'', ''postgres''), (''r'', ''redshift'')])], st_NewDecoder = None,
     st_Decode = (\<lambda>y. Inr (demo_db y)), st_DecodeType = Inr\<rparr>"

definition demo_base :: "string BaseProvider" where
  "demo_base = \<lparr>bp_cfg = demo_adapters, bp_resolve = (\<lambda>u. Inl (plain_error u)), bp_dbType = ''postgres'',
     bp_dialectors = init_mysql (init_postgres (init_sqlite []))\<rparr>"

definition demo_conn :: "string \<Rightarrow> (nat, nat) GormDBAdapter" where
  "demo_conn n = \<lparr>gd_db = 0, gd_sqlDB = Some 0, gd_cfg = demo_db ''redshift'', gd_dbType = ''redshift'', gd_name = n\<rparr>"

definition demo_storage :: "string storage_cfg" where
  "demo_storage = \<lparr>ac_configs = [], st_NewDecoder = None, st_Decode = (\<lambda>y. Inl (plain_error y)), st_DecodeType = Inr\<rparr>"

lemmas demo_conn_defs = demo_gorm_def demo_db_def demo_adapters_def demo_base_def demo_conn_def

lemmas gorm_defs = Gorm_GetConnection_def gorm_create_def connect_def GetDialectorFactory_def NewGormDBAdapter_def
  resolve_password_def cfg_section_def init_mysql_def init_postgres_def init_sqlite_def RegisterDialector_def

text \<open>The closed connection is returned after the failed attempt.\<close>

lemma reconnect_blocks_or_returns_witness:
  "Local_ForceReconnect demo_storage ''a'' (new_pool \<lparr>dk_files = [], dk_wd = ''/'', dk_wdErr = None, dk_faults = []\<rparr>) = None
   \<and> (\<exists>e s'. Gorm_ForceReconnect demo_gorm demo_base ''r'' ((new_pool 1)\<lparr>pl_conns := [(''r'', demo_conn ''r'')]\<rparr>) = Some (Inl e, s')
        \<and> Gorm_GetConnection demo_gorm demo_base ''r'' s' = Some (Inr (demo_conn ''r''), s'))"
proof -
  let ?s = "(new_pool 1)\<lparr>pl_conns := [(''r'', demo_conn ''r'')]\<rparr> :: ((nat, nat) GormDBAdapter, nat) pool"
  have u: "unlocked ?s" by (simp add: unlocked_def new_pool_def)
  have f: "\<exists>e s'. Gorm_ForceReconnect demo_gorm demo_base ''r'' ?s = Some (Inl e, s')"
    by (simp add: Gorm_ForceReconnect_def Lock_def Let_def createAndStoreConnection_def create_and_store_def new_pool_def
        GormDB_Close_def gorm_defs demo_conn_defs)
  have g: "gm_get (pl_conns ?s) ''r'' = Some (demo_conn ''r'')" by simp
  note r = reconnect_blocks_or_returns[OF u, where g = demo_gorm and p = demo_base and n = "''r''"]
  show ?thesis
  proof
    show "\<exists>e s'. Gorm_ForceReconnect demo_gorm demo_base ''r'' ?s = Some (Inl e, s')
        \<and> Gorm_GetConnection demo_gorm demo_base ''r'' s' = Some (Inr (demo_conn ''r''), s')"
      using r[THEN conjunct2, THEN conjunct2] f g by fastforce
  qed (rule reconnect_blocks_or_returns[OF u, THEN conjunct1])
qed


lemma redshift_never_connects_witness:
  "\<exists>e. Gorm_GetConnection demo_gorm demo_base ''r'' (new_pool 0) = Some (Inl e, new_pool 0)"
proof -
  have h: "unlocked (new_pool 0 :: ((nat, nat) GormDBAdapter, nat) pool)"
    "cfg_section (bp_cfg demo_base) ''database'' = Some [(''p'', ''postgres''), (''r'', ''redshift'')]"
    "gm_get [(''p'', ''postgres''), (''r'', ''redshift'')] ''r'' = Some ''redshift''"
    "st_Decode (bp_cfg demo_base) ''redshift'' = Inr (demo_db ''redshift'')" "dc_Type (demo_db ''redshift'') = ''redshift''"
    "bp_dialectors demo_base = init_mysql (init_postgres (init_sqlite []))"
    "gm_get (pl_conns (new_pool 0 :: ((nat, nat) GormDBAdapter, nat) pool)) ''r'' = None"
    by (simp_all add: unlocked_def new_pool_def cfg_section_def demo_conn_defs)
  show ?thesis using redshift_never_connects[OF h, of demo_gorm] by blast
qed

end
