(* ===== verification/Gorm_Adapter.thy ===== *)
theory Gorm_Adapter
  imports Connections_Correct
begin

text \<open>
  \<open>adapter/database/gorm/adapter.go\<close> and \<open>transaction.go\<close>: how the operations of a connection and of
  a transaction become statements of GORM, the transaction manager, and the test for a missing
  table.

  A chain of GORM calls is a \<open>session\<close> that collects what the calls add and a \<open>finisher\<close> that runs
  it; \<open>gl_run\<close>, the parameter for GORM, returns the rows affected (for a count the number counted).
  What reflection finds out about an entity is in \<open>model_info\<close>. The loggers are left out.
\<close>

section \<open>Sessions\<close>

datatype 'v qval = QString string | QOther 'v

type_synonym 'v query = "(string, 'v qval) gomap option"

record onConflict =
  oc_Columns :: "string list"
  oc_DoUpdates :: "string list"
  oc_DoNothing :: bool

record ('m, 'v) session =
  gs_skipTx :: bool
  gs_table :: "string option"
  gs_model :: "'m option"
  gs_where :: "'v query list"
  gs_order :: "string option"
  gs_limit :: "int option"
  gs_distinct :: bool
  gs_conflict :: "onConflict option"

datatype 'm finisher =
    FCreate 'm | FUpdates 'm | FDelete 'm | FFind 'm | FRawScan string 'm | FCount | FPluck string 'm

definition new_session :: "('m, 'v) session" where
  "new_session = \<lparr>gs_skipTx = False, gs_table = None, gs_model = None, gs_where = [], gs_order = None,
     gs_limit = None, gs_distinct = False, gs_conflict = None\<rparr>"

definition s_Table :: "string \<Rightarrow> ('m, 'v) session \<Rightarrow> ('m, 'v) session" where
  "s_Table t s = s\<lparr>gs_table := Some t\<rparr>"

definition s_Model :: "'m \<Rightarrow> ('m, 'v) session \<Rightarrow> ('m, 'v) session" where
  "s_Model m s = s\<lparr>gs_model := Some m\<rparr>"

definition s_Where :: "'v query \<Rightarrow> ('m, 'v) session \<Rightarrow> ('m, 'v) session" where
  "s_Where q s = s\<lparr>gs_where := gs_where s @ [q]\<rparr>"

text \<open>What is known of the type of an entity: its table name, and that of the elements of a slice.\<close>

record model_info =
  mi_TableName :: "string option"
  mi_isSlice :: bool
  mi_elemTableName :: "string option"

record ('d, 'm, 'v, 'w) gorm_ops =
  gl_run :: "'d \<Rightarrow> ('m, 'v) session \<Rightarrow> 'm finisher \<Rightarrow> 'w \<Rightarrow> (goerr + int) \<times> 'w"
  gl_info :: "'m \<Rightarrow> model_info"
  gl_Begin :: "'d \<Rightarrow> int option \<Rightarrow> 'w \<Rightarrow> (goerr + 'd) \<times> 'w"
  gl_Commit :: "'d \<Rightarrow> 'w \<Rightarrow> goerr option \<times> 'w"
  gl_Rollback :: "'d \<Rightarrow> 'w \<Rightarrow> goerr option \<times> 'w"
  gl_SavePoint :: "'d \<Rightarrow> string \<Rightarrow> 'w \<Rightarrow> goerr option \<times> 'w"
  gl_RollbackTo :: "'d \<Rightarrow> string \<Rightarrow> 'w \<Rightarrow> goerr option \<times> 'w"

definition applyTableName :: "('d, 'm, 'v, 'w) gorm_ops \<Rightarrow> 'm \<Rightarrow> ('m, 'v) session \<Rightarrow> ('m, 'v) session" where
  "applyTableName g m s = (case mi_TableName (gl_info g m) of
       Some t \<Rightarrow> s_Table t s
     | None \<Rightarrow> (case (mi_isSlice (gl_info g m), mi_elemTableName (gl_info g m)) of
           (True, Some t) \<Rightarrow> s_Table t s | _ \<Rightarrow> s_Model m s))"

text \<open>\<open>return result.Error\<close>\<close>

definition only_error :: "(goerr + int) \<times> 'w \<Rightarrow> goerr option \<times> 'w" where
  "only_error r = (case r of (Inl e, w) \<Rightarrow> (Some e, w) | (Inr n, w) \<Rightarrow> (None, w))"

section \<open>A connection\<close>

definition GormDB_ExecuteQuery :: "('d, 'm, 'v, 'w) gorm_ops \<Rightarrow> 'd \<Rightarrow> 'm \<Rightarrow> 'v query \<Rightarrow> 'w \<Rightarrow> goerr option \<times> 'w" where
  "GormDB_ExecuteQuery g db target query w =
     (case Option.bind query (\<lambda>m. gm_get m ''query'') of
        Some (QString rawSQL) \<Rightarrow> only_error (gl_run g db new_session (FRawScan rawSQL target) w)
      | _ \<Rightarrow> only_error (gl_run g db (s_Where query (applyTableName g target new_session)) (FFind target) w))"

definition where_given :: "'v query \<Rightarrow> ('m, 'v) session \<Rightarrow> ('m, 'v) session" where
  "where_given query s = (if query = None then s else s_Where query s)"

definition GormDB_ExecuteQueryAdvanced :: "('d, 'm, 'v, 'w) gorm_ops \<Rightarrow> 'd \<Rightarrow> 'm \<Rightarrow> 'v query \<Rightarrow> string \<Rightarrow> int \<Rightarrow> 'w \<Rightarrow>
    goerr option \<times> 'w" where
  "GormDB_ExecuteQueryAdvanced g db target query orderBy limit w =
     (let s1 = where_given query (applyTableName g target new_session);
          s2 = (if orderBy \<noteq> [] then s1\<lparr>gs_order := Some orderBy\<rparr> else s1);
          s3 = (if limit > 0 then s2\<lparr>gs_limit := Some limit\<rparr> else s2)
      in only_error (gl_run g db s3 (FFind target) w))"

definition GormDB_Count :: "('d, 'm, 'v, 'w) gorm_ops \<Rightarrow> 'd \<Rightarrow> 'm \<Rightarrow> 'v query \<Rightarrow> 'w \<Rightarrow> (goerr + int) \<times> 'w" where
  "GormDB_Count g db model query w = gl_run g db (where_given query (applyTableName g model new_session)) FCount w"

definition GormDB_Pluck :: "('d, 'm, 'v, 'w) gorm_ops \<Rightarrow> 'd \<Rightarrow> 'm \<Rightarrow> string \<Rightarrow> 'm \<Rightarrow> 'v query \<Rightarrow> 'w \<Rightarrow>
    goerr option \<times> 'w" where
  "GormDB_Pluck g db model column target query w =
     only_error (gl_run g db ((where_given query (applyTableName g model new_session))\<lparr>gs_distinct := True\<rparr>)
       (FPluck column target) w)"

text \<open>Writes of a connection skip the transaction GORM puts around each write.\<close>

definition GormDB_ExecuteUpdate :: "('d, 'm, 'v, 'w) gorm_ops \<Rightarrow> 'd \<Rightarrow> 'm \<Rightarrow> string \<Rightarrow> string \<Rightarrow> 'v query \<Rightarrow> 'w \<Rightarrow>
    (goerr + int) \<times> 'w" where
  "GormDB_ExecuteUpdate g db model operation tableName query w =
     (let s1 = new_session\<lparr>gs_skipTx := True\<rparr>;
          s2 = (if tableName \<noteq> [] then s_Table tableName s1 else s1)
      in if operation = ''CREATE'' then gl_run g db s2 (FCreate model) w
         else if operation = ''UPDATE'' then gl_run g db (s_Where query (s_Model model s2)) (FUpdates model) w
         else if operation = ''DELETE'' then gl_run g db (where_given query s2) (FDelete model) w
         else (Inl (plain_error (''unsupported update operation: '' @ operation)), w))"

definition GormDB_ExecuteUpsert :: "('d, 'm, 'v, 'w) gorm_ops \<Rightarrow> 'd \<Rightarrow> 'm \<Rightarrow> string \<Rightarrow> string list \<Rightarrow> string list \<Rightarrow>
    'w \<Rightarrow> (goerr + int) \<times> 'w" where
  "GormDB_ExecuteUpsert g db model tableName conflictColumns updateColumns w =
     (let s1 = new_session\<lparr>gs_skipTx := True\<rparr>;
          s2 = (if tableName \<noteq> [] then s_Table tableName s1 else s1);
          oc = (if updateColumns \<noteq> []
             then \<lparr>oc_Columns = conflictColumns, oc_DoUpdates = updateColumns, oc_DoNothing = False\<rparr>
             else \<lparr>oc_Columns = conflictColumns, oc_DoUpdates = [], oc_DoNothing = True\<rparr>)
      in gl_run g db (s2\<lparr>gs_conflict := Some oc\<rparr>) (FCreate model) w)"

definition GormDB_IsTableNotExistError :: "string \<Rightarrow> goerr option \<Rightarrow> bool" where
  "GormDB_IsTableNotExistError dbType err = (case err of
       None \<Rightarrow> False
     | Some e \<Rightarrow> (let msg = Error_text e in
         if dbType = ''postgres'' \<or> dbType = ''redshift''
         then str_contains msg (''relation '' @ [CHR 0x22]) \<and> str_contains msg ([CHR 0x22] @ '' does not exist'')
         else if dbType = ''mysql''
         then str_contains msg ''Error 1146'' \<and> str_contains msg (''doesn'' @ [CHR 0x27] @ ''t exist'')
         else if dbType = ''sqlite'' then str_contains msg ''no such table:''
         else False))"

section \<open>A transaction\<close>

definition GormTx_ExecuteUpdate :: "('d, 'm, 'v, 'w) gorm_ops \<Rightarrow> 'd \<Rightarrow> 'm \<Rightarrow> string \<Rightarrow> string \<Rightarrow> 'v query \<Rightarrow> 'w \<Rightarrow>
    (goerr + int) \<times> 'w" where
  "GormTx_ExecuteUpdate g tx model operation tableName query w =
     (let s1 = (if tableName \<noteq> [] then s_Table tableName new_session else new_session)
      in if operation = ''CREATE'' then gl_run g tx s1 (FCreate model) w
         else if operation = ''UPDATE'' then gl_run g tx (s_Where query (s_Model model s1)) (FUpdates model) w
         else if operation = ''DELETE'' then gl_run g tx (where_given query s1) (FDelete model) w
         else (Inl (plain_error (''unsupported update operation: '' @ operation)), w))"

definition GormTx_ExecuteUpsert :: "('d, 'm, 'v, 'w) gorm_ops \<Rightarrow> 'd \<Rightarrow> 'm \<Rightarrow> string \<Rightarrow> string list \<Rightarrow> string list \<Rightarrow>
    'w \<Rightarrow> (goerr + int) \<times> 'w" where
  "GormTx_ExecuteUpsert g tx model tableName conflictColumns updateColumns w =
     (let s1 = (if tableName \<noteq> [] then s_Table tableName new_session else new_session);
          oc = (if updateColumns \<noteq> []
             then \<lparr>oc_Columns = conflictColumns, oc_DoUpdates = updateColumns, oc_DoNothing = False\<rparr>
             else \<lparr>oc_Columns = conflictColumns, oc_DoUpdates = [], oc_DoNothing = True\<rparr>)
      in gl_run g tx (s1\<lparr>gs_conflict := Some oc\<rparr>) (FCreate model) w)"

definition GormTx_Savepoint :: "('d, 'm, 'v, 'w) gorm_ops \<Rightarrow> 'd \<Rightarrow> string \<Rightarrow> 'w \<Rightarrow> goerr option \<times> 'w" where
  "GormTx_Savepoint g tx name w = gl_SavePoint g tx name w"

definition GormTx_RollbackToSavepoint :: "('d, 'm, 'v, 'w) gorm_ops \<Rightarrow> 'd \<Rightarrow> string \<Rightarrow> 'w \<Rightarrow> goerr option \<times> 'w" where
  "GormTx_RollbackToSavepoint g tx name w = gl_RollbackTo g tx name w"

text \<open>A transaction does not know its database, and tests for the messages of all of them.\<close>

definition GormTx_IsTableNotExistError :: "goerr option \<Rightarrow> bool" where
  "GormTx_IsTableNotExistError err = (case err of
       None \<Rightarrow> False
     | Some e \<Rightarrow> (let msg = Error_text e in
         (str_contains msg (''relation '' @ [CHR 0x22]) \<and> str_contains msg ([CHR 0x22] @ '' does not exist''))
         \<or> (str_contains msg ''Error 1146'' \<and> str_contains msg (''doesn'' @ [CHR 0x27] @ ''t exist''))
         \<or> str_contains msg ''no such table:''))"

section \<open>The transaction manager\<close>

text \<open>A connection or a transaction behind its interface: one of GORM, or another.\<close>

datatype ('g, 'o) behind = OfGorm 'g | OfOther 'o

definition Gorm_Begin :: "('d, 'm, 'v, 'w) gorm_ops \<Rightarrow> (string \<Rightarrow> 'w \<Rightarrow> (goerr + (('d, 'q) GormDBAdapter, 'o) behind) \<times> 'w) \<Rightarrow>
    string \<Rightarrow> int option list \<Rightarrow> 'w \<Rightarrow> (goerr + 'd) \<times> 'w" where
  "Gorm_Begin g resolve dbName opts w = (case resolve dbName w of
       (Inl e, w1) \<Rightarrow> (Inl (wrapf (''failed to resolve DB connection '' @ quoted dbName @ '' for transaction: '') e), w1)
     | (Inr (OfOther c), w1) \<Rightarrow>
         (Inl (plain_error ''internal error: DBConnection implementation is not *GormDBAdapter''), w1)
     | (Inr (OfGorm a), w1) \<Rightarrow>
         (case gl_Begin g (gd_db a) (case opts of [] \<Rightarrow> None | opt # _ \<Rightarrow> opt) w1 of
            (Inl e, w2) \<Rightarrow> (Inl (wrapf ''failed to begin transaction: '' e), w2)
          | (Inr tx, w2) \<Rightarrow> (Inr tx, w2)))"

definition Gorm_Commit :: "('d, 'm, 'v, 'w) gorm_ops \<Rightarrow> ('d, 'o) behind \<Rightarrow> 'w \<Rightarrow> goerr option \<times> 'w" where
  "Gorm_Commit g t w = (case t of
       OfGorm tx \<Rightarrow> gl_Commit g tx w
     | OfOther x \<Rightarrow> (Some (plain_error ''invalid transaction type: expected *GormTxAdapter''), w))"

definition Gorm_Rollback :: "('d, 'm, 'v, 'w) gorm_ops \<Rightarrow> ('d, 'o) behind \<Rightarrow> 'w \<Rightarrow> goerr option \<times> 'w" where
  "Gorm_Rollback g t w = (case t of
       OfGorm tx \<Rightarrow> gl_Rollback g tx w
     | OfOther x \<Rightarrow> (Some (plain_error ''invalid transaction type: expected *GormTxAdapter''), w))"

section \<open>Connections and transactions agree\<close>

lemma session_simps:
  "(s_Table t s)\<lparr>gs_skipTx := b\<rparr> = s_Table t (s\<lparr>gs_skipTx := b\<rparr>)"
  "(s_Model m s)\<lparr>gs_skipTx := b\<rparr> = s_Model m (s\<lparr>gs_skipTx := b\<rparr>)"
  "(s_Where q s)\<lparr>gs_skipTx := b\<rparr> = s_Where q (s\<lparr>gs_skipTx := b\<rparr>)"
  "(where_given q s)\<lparr>gs_skipTx := b\<rparr> = where_given q (s\<lparr>gs_skipTx := b\<rparr>)"
  by (simp_all add: s_Table_def s_Model_def s_Where_def where_given_def)

lemma conflict_skip: "(s\<lparr>gs_skipTx := True\<rparr>)\<lparr>gs_conflict := x\<rparr> = (s\<lparr>gs_conflict := x\<rparr>)\<lparr>gs_skipTx := True\<rparr>"
  by simp

text \<open>
  The writes of a transaction and the writes of a connection are the same statements: on a
  handle for which it makes no difference whether GORM would put a transaction of its own around a
  write, every update, insertion, deletion and upsert comes to the same result and the same state.
  And the transaction recognises a missing table exactly when a connection to one of the known
  databases does.
\<close>

theorem transaction_writes_agree:
  assumes "\<And>s f w b. gl_run g db (s\<lparr>gs_skipTx := b\<rparr>) f w = gl_run g db s f w"
  shows "GormTx_ExecuteUpdate g db m op t q w = GormDB_ExecuteUpdate g db m op t q w
    \<and> GormTx_ExecuteUpsert g db m t cols upd w = GormDB_ExecuteUpsert g db m t cols upd w
    \<and> (GormTx_IsTableNotExistError err \<longleftrightarrow>
        (\<exists>ty\<in>{''postgres'', ''redshift'', ''mysql'', ''sqlite''}. GormDB_IsTableNotExistError ty err))"
proof -
  have skip: "gl_run g db (s\<lparr>gs_skipTx := True\<rparr>) f w = gl_run g db s f w" for s f w using assms .
  note flip = session_simps[where b = True, symmetric]
  have "GormTx_ExecuteUpdate g db m op t q w = GormDB_ExecuteUpdate g db m op t q w"
    unfolding GormTx_ExecuteUpdate_def GormDB_ExecuteUpdate_def Let_def by (auto simp only: flip skip if_True if_False split: if_split)
  moreover have "GormTx_ExecuteUpsert g db m t cols upd w = GormDB_ExecuteUpsert g db m t cols upd w"
    unfolding GormTx_ExecuteUpsert_def GormDB_ExecuteUpsert_def Let_def
    by (auto simp only: flip conflict_skip skip if_True if_False split: if_split)
  moreover have "GormTx_IsTableNotExistError err \<longleftrightarrow>
        (\<exists>ty\<in>{''postgres'', ''redshift'', ''mysql'', ''sqlite''}. GormDB_IsTableNotExistError ty err)"
    by (simp add: GormTx_IsTableNotExistError_def GormDB_IsTableNotExistError_def Let_def split: option.split)
  ultimately show ?thesis by blast
qed

text \<open>A library that counts statements, and the number of conditions of each.\<close>

definition demo_ops :: "(nat, nat, nat, nat list) gorm_ops" where
  "demo_ops = \<lparr>gl_run = (\<lambda>d s f w. (Inr 1, w @ [length (gs_where s)])),
     gl_info = (\<lambda>m. \<lparr>mi_TableName = None, mi_isSlice = False, mi_elemTableName = None\<rparr>),
     gl_Begin = (\<lambda>d opt w. (Inr d, w)), gl_Commit = (\<lambda>d w. (None, w)), gl_Rollback = (\<lambda>d w. (None, w)),
     gl_SavePoint = (\<lambda>d n w. (None, w)), gl_RollbackTo = (\<lambda>d n w. (None, w))\<rparr>"

lemma transaction_writes_agree_witness:
  "GormTx_ExecuteUpdate demo_ops 0 7 ''UPDATE'' ''t'' (Some []) [] = (Inr 1, [1])"
proof -
  have "\<And>s f w b. gl_run demo_ops 0 (s\<lparr>gs_skipTx := b\<rparr>) f w = gl_run demo_ops 0 s f w" by (simp add: demo_ops_def)
  from transaction_writes_agree[OF this, of 7 "''UPDATE''" "''t''" "Some []" "[]"] show ?thesis
    by (simp add: GormDB_ExecuteUpdate_def demo_ops_def s_Table_def s_Model_def s_Where_def new_session_def)
qed

end
