(* ===== verification/Job_Factory.thy ===== *)
theory Job_Factory
  imports JSL_Correct Flow_Job
begin

text \<open>
  \<open>core/config/jsl/loader.go\<close> and \<open>core/config/support/jobfactory.go\<close>: job specifications are
  loaded into a map by their identifiers, and the factory makes a job from a loaded specification,
  the builders that were registered, and the conversion of its flow.

  The expansion of the environment and YAML are parameters of the loader. What a job builder makes
  is of the type \<open>'j\<close>; the repository, the configuration, the recorder and the tracer that it is
  given are those of the factory and are left out, as in the listener builders.
\<close>

section \<open>The loader\<close>

record 'y jsl_Job =
  jb_ID :: string
  jb_Name :: string
  jb_Description :: string
  jb_Flow :: "'y jsl_Flow"
  jb_Listeners :: "ComponentRef list"
  jb_Incrementer :: ComponentRef

type_synonym 'y loaded = "(string, 'y jsl_Job) gomap"

definition loader_fail :: "string \<Rightarrow> goerr option \<Rightarrow> goerr" where
  "loader_fail msg err = NewBatchError ''jsl_loader'' msg err False False"

definition LoadJSLDefinitionFromBytes :: "(string \<Rightarrow> goerr + string) \<Rightarrow> (string \<Rightarrow> goerr + 'y jsl_Job) \<Rightarrow> string \<Rightarrow>
    'y loaded \<Rightarrow> goerr option \<times> 'y loaded" where
  "LoadJSLDefinitionFromBytes expand unmarshal data defs = (case expand data of
       Inl e \<Rightarrow> (Some (loader_fail ''Failed to expand environment variables in JSL definition'' (Some e)), defs)
     | Inr bytes \<Rightarrow> (case unmarshal bytes of
           Inl e \<Rightarrow> (Some (loader_fail ''Failed to parse JSL file'' (Some e)), defs)
         | Inr jd \<Rightarrow>
             if jb_ID jd = [] then (Some (loader_fail (quoted ''id'' @ '' is not defined in JSL file'') None), defs)
             else if jb_Name jd = []
             then (Some (loader_fail (''JSL job '' @ quoted (jb_ID jd) @ '' does not have '' @ quoted ''name'' @ '' defined'') None), defs)
             else if jf_StartElement (jb_Flow jd) = []
             then (Some (loader_fail (''JSL job '' @ quoted (jb_ID jd) @ '' flow does not have ''
                    @ quoted ''start-element'' @ '' defined'') None), defs)
             else if jf_Elements (jb_Flow jd) = []
             then (Some (loader_fail (''JSL job '' @ quoted (jb_ID jd) @ '' flow does not have ''
                    @ quoted ''elements'' @ '' defined'') None), defs)
             else if gm_get defs (jb_ID jd) \<noteq> None
             then (Some (loader_fail (''JSL Job ID '' @ quoted (jb_ID jd) @ '' is duplicated'') None), defs)
             else (None, gm_put (jb_ID jd) jd defs)))"

definition GetJobDefinition :: "string \<Rightarrow> 'y loaded \<Rightarrow> 'y jsl_Job option" where
  "GetJobDefinition jobID defs = gm_get defs jobID"

definition GetLoadedJobCount :: "'y loaded \<Rightarrow> nat" where
  "GetLoadedJobCount defs = length defs"

section \<open>The factory\<close>

type_synonym 'c builder = "props \<Rightarrow> goerr + 'c"

text \<open>The builders the conversion is given are those of its environment.\<close>

record ('y, 'c, 'i, 'j) job_factory =
  jfa_env :: "('y, 'c) jsl_env"
  jobBuilders :: "(string, 'c list \<Rightarrow> 'c core_element FlowDefinition \<Rightarrow> goerr + 'j) gomap"
  jobListenerBuilders :: "(string, 'c builder) gomap"
  notificationListenerBuilders :: "(string, 'c builder) gomap"
  incrementerBuilders :: "(string, 'i builder) gomap"

definition RegisterComponentBuilder :: "string \<Rightarrow> 'c builder \<Rightarrow> ('y, 'c, 'i, 'j) job_factory \<Rightarrow> ('y, 'c, 'i, 'j) job_factory" where
  "RegisterComponentBuilder name b f =
     f\<lparr>jfa_env := (jfa_env f)\<lparr>componentBuilders := gm_put name b (componentBuilders (jfa_env f))\<rparr>\<rparr>"

definition RegisterJobBuilder :: "string \<Rightarrow> ('c list \<Rightarrow> 'c core_element FlowDefinition \<Rightarrow> goerr + 'j) \<Rightarrow>
    ('y, 'c, 'i, 'j) job_factory \<Rightarrow> ('y, 'c, 'i, 'j) job_factory" where
  "RegisterJobBuilder name b f = f\<lparr>jobBuilders := gm_put name b (jobBuilders f)\<rparr>"

definition RegisterJobListenerBuilder :: "string \<Rightarrow> 'c builder \<Rightarrow> ('y, 'c, 'i, 'j) job_factory \<Rightarrow> ('y, 'c, 'i, 'j) job_factory" where
  "RegisterJobListenerBuilder name b f = f\<lparr>jobListenerBuilders := gm_put name b (jobListenerBuilders f)\<rparr>"

definition RegisterNotificationListenerBuilder :: "string \<Rightarrow> 'c builder \<Rightarrow> ('y, 'c, 'i, 'j) job_factory \<Rightarrow>
    ('y, 'c, 'i, 'j) job_factory" where
  "RegisterNotificationListenerBuilder name b f =
     f\<lparr>notificationListenerBuilders := gm_put name b (notificationListenerBuilders f)\<rparr>"

definition RegisterStepExecutionListenerBuilder :: "string \<Rightarrow> 'c builder \<Rightarrow> ('y, 'c, 'i, 'j) job_factory \<Rightarrow>
    ('y, 'c, 'i, 'j) job_factory" where
  "RegisterStepExecutionListenerBuilder name b f =
     f\<lparr>jfa_env := (jfa_env f)\<lparr>stepListenerBuilders := gm_put name b (stepListenerBuilders (jfa_env f))\<rparr>\<rparr>"

definition RegisterItemReadListenerBuilder :: "string \<Rightarrow> 'c builder \<Rightarrow> ('y, 'c, 'i, 'j) job_factory \<Rightarrow>
    ('y, 'c, 'i, 'j) job_factory" where
  "RegisterItemReadListenerBuilder name b f =
     f\<lparr>jfa_env := (jfa_env f)\<lparr>itemReadListenerBuilders := gm_put name b (itemReadListenerBuilders (jfa_env f))\<rparr>\<rparr>"

definition RegisterItemProcessListenerBuilder :: "string \<Rightarrow> 'c builder \<Rightarrow> ('y, 'c, 'i, 'j) job_factory \<Rightarrow>
    ('y, 'c, 'i, 'j) job_factory" where
  "RegisterItemProcessListenerBuilder name b f =
     f\<lparr>jfa_env := (jfa_env f)\<lparr>itemProcessListenerBuilders := gm_put name b (itemProcessListenerBuilders (jfa_env f))\<rparr>\<rparr>"

definition RegisterItemWriteListenerBuilder :: "string \<Rightarrow> 'c builder \<Rightarrow> ('y, 'c, 'i, 'j) job_factory \<Rightarrow>
    ('y, 'c, 'i, 'j) job_factory" where
  "RegisterItemWriteListenerBuilder name b f =
     f\<lparr>jfa_env := (jfa_env f)\<lparr>itemWriteListenerBuilders := gm_put name b (itemWriteListenerBuilders (jfa_env f))\<rparr>\<rparr>"

definition RegisterSkipListenerBuilder :: "string \<Rightarrow> 'c builder \<Rightarrow> ('y, 'c, 'i, 'j) job_factory \<Rightarrow>
    ('y, 'c, 'i, 'j) job_factory" where
  "RegisterSkipListenerBuilder name b f =
     f\<lparr>jfa_env := (jfa_env f)\<lparr>skipListenerBuilders := gm_put name b (skipListenerBuilders (jfa_env f))\<rparr>\<rparr>"

definition RegisterRetryItemListenerBuilder :: "string \<Rightarrow> 'c builder \<Rightarrow> ('y, 'c, 'i, 'j) job_factory \<Rightarrow>
    ('y, 'c, 'i, 'j) job_factory" where
  "RegisterRetryItemListenerBuilder name b f =
     f\<lparr>jfa_env := (jfa_env f)\<lparr>retryItemListenerBuilders := gm_put name b (retryItemListenerBuilders (jfa_env f))\<rparr>\<rparr>"

definition RegisterChunkListenerBuilder :: "string \<Rightarrow> 'c builder \<Rightarrow> ('y, 'c, 'i, 'j) job_factory \<Rightarrow>
    ('y, 'c, 'i, 'j) job_factory" where
  "RegisterChunkListenerBuilder name b f =
     f\<lparr>jfa_env := (jfa_env f)\<lparr>chunkListenerBuilders := gm_put name b (chunkListenerBuilders (jfa_env f))\<rparr>\<rparr>"

definition RegisterDecisionBuilder :: "string \<Rightarrow> (string \<Rightarrow> 'c builder) \<Rightarrow> ('y, 'c, 'i, 'j) job_factory \<Rightarrow>
    ('y, 'c, 'i, 'j) job_factory" where
  "RegisterDecisionBuilder name b f =
     f\<lparr>jfa_env := (jfa_env f)\<lparr>decisionBuilders := gm_put name b (decisionBuilders (jfa_env f))\<rparr>\<rparr>"

definition RegisterSplitBuilder :: "string \<Rightarrow> (string \<Rightarrow> 'c core_step list \<Rightarrow> goerr + 'c) \<Rightarrow>
    ('y, 'c, 'i, 'j) job_factory \<Rightarrow> ('y, 'c, 'i, 'j) job_factory" where
  "RegisterSplitBuilder name b f =
     f\<lparr>jfa_env := (jfa_env f)\<lparr>splitBuilders := gm_put name b (splitBuilders (jfa_env f))\<rparr>\<rparr>"

definition RegisterPartitionerBuilder :: "string \<Rightarrow> 'c builder \<Rightarrow> ('y, 'c, 'i, 'j) job_factory \<Rightarrow>
    ('y, 'c, 'i, 'j) job_factory" where
  "RegisterPartitionerBuilder name b f =
     f\<lparr>jfa_env := (jfa_env f)\<lparr>partitionerBuilders := gm_put name b (partitionerBuilders (jfa_env f))\<rparr>\<rparr>"

definition RegisterJobParametersIncrementerBuilder :: "string \<Rightarrow> 'i builder \<Rightarrow> ('y, 'c, 'i, 'j) job_factory \<Rightarrow>
    ('y, 'c, 'i, 'j) job_factory" where
  "RegisterJobParametersIncrementerBuilder name b f =
     f\<lparr>incrementerBuilders := gm_put name b (incrementerBuilders f)\<rparr>"

text \<open>\<open>NewJobFactory\<close>: no builder is registered, whatever builders the environment it is given has.\<close>

definition NewJobFactory :: "('y, 'c) jsl_env \<Rightarrow> ('y, 'c, 'i, 'j) job_factory" where
  "NewJobFactory env = \<lparr>jfa_env = env\<lparr>componentBuilders := [], decisionBuilders := [], splitBuilders := [],
       partitionerBuilders := [], stepListenerBuilders := [], itemReadListenerBuilders := [],
       itemProcessListenerBuilders := [], itemWriteListenerBuilders := [], skipListenerBuilders := [],
       retryItemListenerBuilders := [], chunkListenerBuilders := []\<rparr>,
     jobBuilders = [], jobListenerBuilders = [], notificationListenerBuilders = [], incrementerBuilders = []\<rparr>"

section \<open>Making a job\<close>

definition factory_fail :: "string \<Rightarrow> goerr option \<Rightarrow> goerr" where
  "factory_fail msg err = NewBatchError ''job_factory'' msg err False False"

definition factory_failf :: "string \<Rightarrow> string list \<Rightarrow> goerr" where
  "factory_failf format args = NewBatchErrorf ''job_factory'' format (map ArgStr args)"

text \<open>The listener that is built, without being asked for, when its builder is registered.\<close>

definition default_listener :: "('y, 'c, 'i, 'j) job_factory \<Rightarrow> goerr + 'c list" where
  "default_listener f = (case gm_get (jobListenerBuilders f) ''loggingJobListener'' of
       None \<Rightarrow> Inr []
     | Some b \<Rightarrow> (case b [] of
           Inl e \<Rightarrow> Inl (factory_fail ''Failed to build default loggingJobListener'' (Some e)) | Inr l \<Rightarrow> Inr [l]))"

definition listener_builder :: "('y, 'c, 'i, 'j) job_factory \<Rightarrow> string \<Rightarrow> 'c builder option" where
  "listener_builder f ref = (case gm_get (jobListenerBuilders f) ref of
       Some b \<Rightarrow> Some b | None \<Rightarrow> gm_get (notificationListenerBuilders f) ref)"

fun job_listeners :: "('y, 'c, 'i, 'j) job_factory \<Rightarrow> ComponentRef list \<Rightarrow> 'c list \<Rightarrow> goerr + 'c list" where
  "job_listeners f [] acc = Inr acc"
| "job_listeners f (ref # refs) acc = (case listener_builder f (cr_Ref ref) of
       None \<Rightarrow> Inl (factory_failf (''JobExecutionListener builder '' @ quoted ''%s'' @ '' not registered'') [cr_Ref ref])
     | Some b \<Rightarrow> (case b (cr_Properties ref) of
           Inl e \<Rightarrow> Inl (factory_fail (''Failed to build JobExecutionListener '' @ quoted (cr_Ref ref)) (Some e))
         | Inr l \<Rightarrow> job_listeners f refs (acc @ [l])))"

text \<open>\<open>o1\<close> and \<open>o2\<close> are the orders of the loops of the conversion; \<open>None\<close>: the conversion panics.\<close>

definition CreateJob :: "('y, 'c, 'i, 'j) job_factory \<Rightarrow> 'y loaded \<Rightarrow> string \<Rightarrow> (string \<times> 'y) list \<Rightarrow> (string \<times> 'y) list \<Rightarrow>
    (goerr + 'j) option" where
  "CreateJob f defs jobName o1 o2 = (case GetJobDefinition jobName defs of
       None \<Rightarrow> Some (Inl (factory_failf (''JSL definition for Job '' @ quoted ''%s'' @ '' not found'') [jobName]))
     | Some jd \<Rightarrow> (case gm_get (jobBuilders f) jobName of
           None \<Rightarrow> Some (Inl (factory_failf (''Builder for Job '' @ quoted ''%s'' @ '' not registered'') [jobName]))
         | Some jobBuilder \<Rightarrow> (case ConvertJSLToCoreFlow (jfa_env f) (jb_Flow jd) o1 o2 of
               None \<Rightarrow> None
             | Some (Inl e) \<Rightarrow> Some (Inl (factory_fail (''Failed to convert JSL flow for job '' @ quoted jobName) (Some e)))
             | Some (Inr flow) \<Rightarrow> (case bind_res (default_listener f) (job_listeners f (jb_Listeners jd)) of
                   Inl e \<Rightarrow> Some (Inl e)
                 | Inr ls \<Rightarrow> (case jobBuilder ls flow of
                       Inl e \<Rightarrow> Some (Inl (factory_fail (''Failed to instantiate job '' @ quoted jobName) (Some e)))
                     | Inr j \<Rightarrow> Some (Inr j))))))"

definition GetJobParametersIncrementer :: "('y, 'c, 'i, 'j) job_factory \<Rightarrow> 'y loaded \<Rightarrow> string \<Rightarrow> 'i option" where
  "GetJobParametersIncrementer f defs jobName = (case GetJobDefinition jobName defs of
       None \<Rightarrow> None
     | Some jd \<Rightarrow>
         if cr_Ref (jb_Incrementer jd) = [] then None
         else (case gm_get (incrementerBuilders f) (cr_Ref (jb_Incrementer jd)) of
             None \<Rightarrow> None
           | Some b \<Rightarrow> (case b (cr_Properties (jb_Incrementer jd)) of Inl e \<Rightarrow> None | Inr i \<Rightarrow> Some i)))"

section \<open>What is loaded\<close>

text \<open>A specification the loader keeps, and the loading of several files.\<close>

definition loadable :: "'y jsl_Job \<Rightarrow> bool" where
  "loadable jd \<longleftrightarrow> jb_ID jd \<noteq> [] \<and> jb_Name jd \<noteq> [] \<and> jf_StartElement (jb_Flow jd) \<noteq> [] \<and> jf_Elements (jb_Flow jd) \<noteq> []"

fun load_all :: "(string \<Rightarrow> goerr + string) \<Rightarrow> (string \<Rightarrow> goerr + 'y jsl_Job) \<Rightarrow> string list \<Rightarrow> 'y loaded \<Rightarrow>
    goerr option list \<times> 'y loaded" where
  "load_all expand unmarshal [] defs = ([], defs)"
| "load_all expand unmarshal (d # ds) defs = (case LoadJSLDefinitionFromBytes expand unmarshal d defs of
       (err, defs1) \<Rightarrow> (case load_all expand unmarshal ds defs1 of (errs, defs2) \<Rightarrow> (err # errs, defs2)))"

lemma load_one:
  assumes "LoadJSLDefinitionFromBytes expand unmarshal d defs = (err, defs1)"
  shows "(err \<noteq> None \<and> defs1 = defs) \<or>
    (\<exists>jd bytes. err = None \<and> expand d = Inr bytes \<and> unmarshal bytes = Inr jd \<and> loadable jd
       \<and> gm_get defs (jb_ID jd) = None \<and> defs1 = gm_put (jb_ID jd) jd defs)"
  using assms by (auto simp: LoadJSLDefinitionFromBytes_def loadable_def split: sum.splits if_splits)

definition loaded_ok :: "'y loaded \<Rightarrow> bool" where
  "loaded_ok defs \<longleftrightarrow> gm_wf defs \<and> (\<forall>k jd. gm_get defs k = Some jd \<longrightarrow> jb_ID jd = k \<and> loadable jd)"

lemma length_put_new: "gm_get m k = None \<Longrightarrow> length (gm_put k v m) = Suc (length m)"
  by (induction m) (auto split: if_splits)

lemma loads_spec:
  assumes "load_all expand unmarshal ds defs = (errs, defs1)" "loaded_ok defs"
  shows "loaded_ok defs1 \<and> (\<forall>k jd. gm_get defs k = Some jd \<longrightarrow> gm_get defs1 k = Some jd)
    \<and> length defs1 = length defs + length (filter (\<lambda>e. e = None) errs) \<and> length errs = length ds
    \<and> (\<forall>i<length ds. errs ! i = None \<longrightarrow> (\<exists>bytes jd. expand (ds ! i) = Inr bytes \<and> unmarshal bytes = Inr jd
         \<and> gm_get defs1 (jb_ID jd) = Some jd))"
  using assms
proof (induction ds arbitrary: defs errs)
  case (Cons d ds)
  obtain err defs0 where l: "LoadJSLDefinitionFromBytes expand unmarshal d defs = (err, defs0)"
    by (cases "LoadJSLDefinitionFromBytes expand unmarshal d defs")
  obtain errs1 where r: "load_all expand unmarshal ds defs0 = (errs1, defs1)" "errs = err # errs1"
    using Cons.prems(1) l by (auto split: prod.splits)
  have ok: "loaded_ok defs0" "\<And>k jd. gm_get defs k = Some jd \<Longrightarrow> gm_get defs0 k = Some jd"
    "length defs0 = length defs + (if err = None then 1 else 0)"
    "err = None \<Longrightarrow> \<exists>bytes jd. expand d = Inr bytes \<and> unmarshal bytes = Inr jd \<and> gm_get defs0 (jb_ID jd) = Some jd"
    using load_one[OF l] Cons.prems(2) by (auto simp: loaded_ok_def length_put_new split: if_splits)
  note IH = Cons.IH[OF r(1) ok(1)]
  have "\<exists>bytes jd. expand ((d # ds) ! i) = Inr bytes \<and> unmarshal bytes = Inr jd \<and> gm_get defs1 (jb_ID jd) = Some jd"
    if i: "i < length (d # ds)" "errs ! i = None" for i
  proof (cases i)
    case 0
    then show ?thesis using ok(4) i(2) r(2) IH by fastforce
  next
    case (Suc j)
    then show ?thesis using IH i r(2) by simp
  qed
  then show ?case using IH ok r(2) by auto
qed simp

text \<open>
  However many specifications are loaded, in whatever order and whatever they hold: each loaded
  one is stored under its own identifier, which is not empty, and has a name, a start element and
  elements; a specification that was accepted is never replaced by a later one; and their number is
  the number of the loads that succeeded.
\<close>

theorem loaded_definitions_ok:
  assumes "load_all expand unmarshal ds [] = (errs, defs)"
  shows "(\<forall>k jd. GetJobDefinition k defs = Some jd \<longrightarrow> jb_ID jd = k \<and> loadable jd)
    \<and> GetLoadedJobCount defs = length (filter (\<lambda>e. e = None) errs)
    \<and> (\<forall>i<length ds. errs ! i = None \<longrightarrow> (\<exists>bytes jd. expand (ds ! i) = Inr bytes \<and> unmarshal bytes = Inr jd
         \<and> GetJobDefinition (jb_ID jd) defs = Some jd))"
  using loads_spec[OF assms] by (simp add: loaded_ok_def GetJobDefinition_def GetLoadedJobCount_def)

section \<open>What is made\<close>

lemma job_listeners_spec:
  "job_listeners f refs acc = Inr ls \<Longrightarrow> \<exists>bs. ls = acc @ bs
     \<and> list_all2 (\<lambda>ref l. \<exists>b. listener_builder f (cr_Ref ref) = Some b \<and> b (cr_Properties ref) = Inr l) refs bs"
proof (induction refs arbitrary: acc)
  case (Cons ref refs)
  then obtain b l where b: "listener_builder f (cr_Ref ref) = Some b" "b (cr_Properties ref) = Inr l"
    "job_listeners f refs (acc @ [l]) = Inr ls" by (auto split: option.splits sum.splits)
  from Cons.IH[OF b(3)] obtain bs where "ls = acc @ [l] @ bs"
    "list_all2 (\<lambda>ref l. \<exists>b. listener_builder f (cr_Ref ref) = Some b \<and> b (cr_Properties ref) = Inr l) refs bs" by auto
  then show ?case using b by (intro exI[of _ "l # bs"]) simp
qed simp


section \<open>The theorems on a concrete factory\<close>

definition demo_spec_job :: "string jsl_Job" where
  "demo_spec_job = \<lparr>jb_ID = ''j'', jb_Name = ''n'', jb_Description = [], jb_Flow = demo_flow,
     jb_Listeners = [\<lparr>cr_Ref = ''loggingJobListener'', cr_Properties = []\<rparr>], jb_Incrementer = zero_ref\<rparr>"

definition demo_unmarshal :: "string \<Rightarrow> goerr + string jsl_Job" where
  "demo_unmarshal bytes = (if bytes = ''j'' then Inr demo_spec_job
     else if bytes = ''k'' then Inr (demo_spec_job\<lparr>jb_Name := ''other''\<rparr>) else Inl (plain_error ''yaml''))"

text \<open>The second file has the identifier of the first, and is refused.\<close>

lemma loaded_definitions_ok_witness:
  "\<exists>errs defs. load_all Inr demo_unmarshal [''j'', ''k'', ''x''] [] = (errs, defs)
     \<and> GetJobDefinition ''j'' defs = Some demo_spec_job \<and> GetLoadedJobCount defs = length (filter (\<lambda>e. e = None) errs)"
proof -
  obtain errs defs where l: "load_all Inr demo_unmarshal [''j'', ''k'', ''x''] [] = (errs, defs)"
    by (cases "load_all Inr demo_unmarshal [''j'', ''k'', ''x''] []")
  then have "errs ! 0 = None"
    by (auto simp: LoadJSLDefinitionFromBytes_def demo_unmarshal_def demo_spec_job_def demo_flow_def demo_elements_def split: prod.splits)
  then show ?thesis using loaded_definitions_ok[OF l] l
    by (fastforce simp: demo_unmarshal_def demo_spec_job_def)
qed

definition demo_factory :: "(string, string, string, string list \<times> nat) job_factory" where
  "demo_factory = \<lparr>jfa_env = demo_env, jobBuilders = [(''j'', \<lambda>ls flow. Inr (ls, length (fd_Elements flow)))],
     jobListenerBuilders = [(''loggingJobListener'', \<lambda>ps. Inr ''log'')], notificationListenerBuilders = [],
     incrementerBuilders = []\<rparr>"


end
