(* ===== verification/Async_Recorder.thy ===== *)
theory Async_Recorder
  imports Batch_Values "HOL-Library.Word"
begin

text \<open>
  The asynchronous recorder of metrics (\<open>listener/metrics/async_recorder.go\<close>): callers put events
  into a bounded channel, which drops what does not fit, and add to counters under a mutex, which
  the end of a step turns into events; one worker goroutine hands the events to the synchronous
  recorder, and after the stop signal what the channel still holds. Callers and the worker are a
  labelled step relation; the synchronous recorder is the list of the calls it gets.
\<close>

section \<open>Events\<close>

text \<open>
  An event points to an execution, which is named here by its \<open>ID\<close>; the attributes are
  OpenTelemetry's, of any type \<open>'a\<close>.
\<close>

type_synonym exec_ref = string

record 'a MetricEvent =
  ev_Type :: string
  ev_JobExecution :: "exec_ref option"
  ev_StepExecution :: "exec_ref option"
  ev_Count :: "64 word"
  ev_Err :: "goerr option"
  ev_Duration :: f64
  ev_Attrs :: "'a list"
  ev_Name :: string

definition zero_event :: "string \<Rightarrow> 'a MetricEvent" where
  "zero_event ty = \<lparr>ev_Type = ty, ev_JobExecution = None, ev_StepExecution = None, ev_Count = 0,
     ev_Err = None, ev_Duration = Fin 0, ev_Attrs = [], ev_Name = []\<rparr>"

datatype 'a sync_call =
    SyncJobStart "exec_ref option"
  | SyncJobEnd "exec_ref option"
  | SyncStepStart "exec_ref option"
  | SyncStepEnd "exec_ref option"
  | SyncItemRead "exec_ref option" "64 word"
  | SyncItemProcess "exec_ref option" "64 word"
  | SyncItemWrite "exec_ref option" "64 word"
  | SyncItemSkip "exec_ref option" "goerr option"
  | SyncItemRetry "exec_ref option" "goerr option"
  | SyncChunkCommit "exec_ref option" "64 word"
  | SyncDuration string f64 "'a list"
  | SyncExecutionError "goerr option"

text \<open>The call of the synchronous recorder an event makes; none for an unknown type.\<close>

definition processEvent :: "'a MetricEvent \<Rightarrow> 'a sync_call list" where
  "processEvent e =
    (if ev_Type e = ''job_start'' then [SyncJobStart (ev_JobExecution e)]
     else if ev_Type e = ''job_end'' then [SyncJobEnd (ev_JobExecution e)]
     else if ev_Type e = ''step_start'' then [SyncStepStart (ev_StepExecution e)]
     else if ev_Type e = ''step_end'' then [SyncStepEnd (ev_StepExecution e)]
     else if ev_Type e = ''item_read'' then [SyncItemRead (ev_StepExecution e) (ev_Count e)]
     else if ev_Type e = ''item_process'' then [SyncItemProcess (ev_StepExecution e) (ev_Count e)]
     else if ev_Type e = ''item_write'' then [SyncItemWrite (ev_StepExecution e) (ev_Count e)]
     else if ev_Type e = ''item_skip'' then [SyncItemSkip (ev_StepExecution e) (ev_Err e)]
     else if ev_Type e = ''item_retry'' then [SyncItemRetry (ev_StepExecution e) (ev_Err e)]
     else if ev_Type e = ''chunk_commit'' then [SyncChunkCommit (ev_StepExecution e) (ev_Count e)]
     else if ev_Type e = ''record_duration'' then [SyncDuration (ev_Name e) (ev_Duration e) (ev_Attrs e)]
     else if ev_Type e = ''execution_error'' then [SyncExecutionError (ev_Err e)]
     else [])"

text \<open>What \<open>sendEvent\<close> reports of an event that does not fit.\<close>

definition queue_full_error :: "'a MetricEvent \<Rightarrow> string \<Rightarrow> goerr" where
  "queue_full_error e ident = LeafError ''metric_queue_full'' ''*errors.errorString''
     (''metric_queue_full: type='' @ ev_Type e @ '', id='' @ ident)"

section \<open>The recorder\<close>

text \<open>
  Where the worker stands: in the \<open>select\<close>, with an event in its hands, draining with a number of
  events still to take, or returned.
\<close>

datatype 'a worker_state =
    Selecting
  | Handling "'a MetricEvent"
  | Draining nat
  | DrainHandling "'a MetricEvent" nat
  | WorkerDone

record 'a AsyncMetricRecorder =
  eventQueue :: "'a MetricEvent list"
  queueSize :: nat
  stopCh :: bool
  wg :: "'a worker_state"
  recorderMu :: bool
  counters :: "(string, 64 word) gomap"
  syncRecorder :: "'a sync_call list"

definition NewAsyncMetricRecorder :: "int \<Rightarrow> 'a AsyncMetricRecorder" where
  "NewAsyncMetricRecorder bufferSize =
    (let n = (if bufferSize \<le> 0 then 100 else bufferSize) in
     \<lparr>eventQueue = [], queueSize = nat n, stopCh = False, wg = Selecting, recorderMu = False,
      counters = [], syncRecorder = []\<rparr>)"

definition counter :: "string \<Rightarrow> 'a AsyncMetricRecorder \<Rightarrow> 64 word" where
  "counter ty r = (case gm_get (counters r) ty of Some v \<Rightarrow> v | None \<Rightarrow> 0)"

definition set_counter :: "string \<Rightarrow> 64 word \<Rightarrow> 'a AsyncMetricRecorder \<Rightarrow> 'a AsyncMetricRecorder" where
  "set_counter ty v r = r\<lparr>counters := gm_put ty v (counters r)\<rparr>"

text \<open>\<open>sendEvent\<close>: the non-blocking send on the channel.\<close>

definition sendEvent :: "'a MetricEvent \<Rightarrow> string \<Rightarrow> 'a AsyncMetricRecorder \<Rightarrow> 'a AsyncMetricRecorder" where
  "sendEvent e ident r =
    (if length (eventQueue r) < queueSize r then r\<lparr>eventQueue := eventQueue r @ [e]\<rparr>
     else r\<lparr>syncRecorder := syncRecorder r @ [SyncExecutionError (Some (queue_full_error e ident))]\<rparr>)"

definition flush_event :: "string \<Rightarrow> exec_ref \<Rightarrow> 'a AsyncMetricRecorder \<Rightarrow> 'a MetricEvent" where
  "flush_event ty se r = (zero_event ty)\<lparr>ev_StepExecution := Some se, ev_Count := counter ty r\<rparr>"

section \<open>The calls of the recorder\<close>

text \<open>
  What a goroutine that calls the recorder still has to do, in steps no other goroutine can divide.
  A range over the counters visits them in any order: the order is chosen when the lock is taken.
\<close>

datatype 'a op =
    Send "'a MetricEvent" string
  | Incr string "64 word"
  | Flush exec_ref
  | Flushing exec_ref "string list"
  | CloseStop
  | CloseWait

datatype 'a metric_call =
    RecordJobStart exec_ref
  | RecordJobEnd exec_ref
  | RecordStepStart exec_ref
  | RecordStepEnd exec_ref
  | RecordItemRead exec_ref "64 word"
  | RecordItemProcess exec_ref "64 word"
  | RecordItemWrite exec_ref "64 word"
  | RecordItemSkip exec_ref "goerr option"
  | RecordItemRetry exec_ref "goerr option"
  | RecordChunkCommit exec_ref "64 word"
  | RecordDuration string f64 "'a list"
  | RecordExecutionError "goerr option"
  | CloseRecorder

fun call_ops :: "'a metric_call \<Rightarrow> 'a op list" where
  "call_ops (RecordJobStart je) = [Send ((zero_event ''job_start'')\<lparr>ev_JobExecution := Some je\<rparr>) je]"
| "call_ops (RecordJobEnd je) = [Send ((zero_event ''job_end'')\<lparr>ev_JobExecution := Some je\<rparr>) je]"
| "call_ops (RecordStepStart se) = [Send ((zero_event ''step_start'')\<lparr>ev_StepExecution := Some se\<rparr>) se]"
| "call_ops (RecordStepEnd se) =
     [Flush se, Send ((zero_event ''step_end'')\<lparr>ev_StepExecution := Some se\<rparr>) se]"
| "call_ops (RecordItemRead se n) = [Incr ''item_read'' n]"
| "call_ops (RecordItemProcess se n) = [Incr ''item_process'' n]"
| "call_ops (RecordItemWrite se n) = [Incr ''item_write'' n]"
| "call_ops (RecordItemSkip se err) =
     [Send ((zero_event ''item_skip'')\<lparr>ev_StepExecution := Some se, ev_Err := err\<rparr>) se]"
| "call_ops (RecordItemRetry se err) =
     [Send ((zero_event ''item_retry'')\<lparr>ev_StepExecution := Some se, ev_Err := err\<rparr>) se]"
| "call_ops (RecordChunkCommit se n) = [Incr ''chunk_commit'' n]"
| "call_ops (RecordDuration nm d attrs) =
     [Send ((zero_event ''record_duration'')\<lparr>ev_Name := nm, ev_Duration := d, ev_Attrs := attrs\<rparr>) nm]"
| "call_ops (RecordExecutionError err) =
     [Send ((zero_event ''execution_error'')\<lparr>ev_Err := err\<rparr>) ''system'']"
| "call_ops CloseRecorder = [CloseStop, CloseWait]"

text \<open>The goroutines of a program, each with the calls it makes one after the other.\<close>

definition program :: "'a metric_call list list \<Rightarrow> 'a op list list" where
  "program css = map (\<lambda>cs. concat (map call_ops cs)) css"

section \<open>Steps\<close>

text \<open>The labels say what a step did to the events and the counters.\<close>

datatype 'a label =
    EvAccepted "'a MetricEvent"
  | EvDropped "'a MetricEvent" string
  | CountAdded string "64 word"
  | CountFlushed string "64 word" "'a label"
  | CountSkipped string
  | MuLocked
  | MuUnlocked
  | StopSent
  | CloseReturned
  | EvTaken "'a MetricEvent"
  | EvProcessed "'a MetricEvent"
  | StopSeen
  | WorkerReturned

definition sent_label :: "'a MetricEvent \<Rightarrow> string \<Rightarrow> 'a AsyncMetricRecorder \<Rightarrow> 'a label" where
  "sent_label e ident r = (if length (eventQueue r) < queueSize r then EvAccepted e else EvDropped e ident)"

type_synonym 'a astate = "'a op list list \<times> 'a AsyncMetricRecorder"

text \<open>
  A step of a caller, the goroutine at position \<open>i\<close>. A second \<open>Close\<close> closes the closed channel,
  which panics: it has no step.
\<close>

inductive caller_step :: "'a astate \<Rightarrow> 'a label \<Rightarrow> 'a astate \<Rightarrow> bool" where
  send: "i < length ts \<Longrightarrow> ts ! i = Send e ident # os \<Longrightarrow>
    caller_step (ts, r) (sent_label e ident r) (ts[i := os], sendEvent e ident r)"
| incr: "i < length ts \<Longrightarrow> ts ! i = Incr ty n # os \<Longrightarrow> \<not> recorderMu r \<Longrightarrow>
    caller_step (ts, r) (CountAdded ty n) (ts[i := os], set_counter ty (counter ty r + n) r)"
| flush_lock: "i < length ts \<Longrightarrow> ts ! i = Flush se # os \<Longrightarrow> \<not> recorderMu r \<Longrightarrow>
    distinct tys \<Longrightarrow> set tys = fst ` set (counters r) \<Longrightarrow>
    caller_step (ts, r) MuLocked (ts[i := Flushing se tys # os], r\<lparr>recorderMu := True\<rparr>)"
| flush_send: "i < length ts \<Longrightarrow> ts ! i = Flushing se (ty # tys) # os \<Longrightarrow> 0 <s counter ty r \<Longrightarrow>
    caller_step (ts, r) (CountFlushed ty (counter ty r) (sent_label (flush_event ty se r) se r))
      (ts[i := Flushing se tys # os], set_counter ty 0 (sendEvent (flush_event ty se r) se r))"
| flush_skip: "i < length ts \<Longrightarrow> ts ! i = Flushing se (ty # tys) # os \<Longrightarrow> \<not> 0 <s counter ty r \<Longrightarrow>
    caller_step (ts, r) (CountSkipped ty) (ts[i := Flushing se tys # os], r)"
| flush_done: "i < length ts \<Longrightarrow> ts ! i = Flushing se [] # os \<Longrightarrow>
    caller_step (ts, r) MuUnlocked (ts[i := os], r\<lparr>recorderMu := False\<rparr>)"
| close_stop: "i < length ts \<Longrightarrow> ts ! i = CloseStop # os \<Longrightarrow> \<not> stopCh r \<Longrightarrow>
    caller_step (ts, r) StopSent (ts[i := os], r\<lparr>stopCh := True\<rparr>)"
| close_wait: "i < length ts \<Longrightarrow> ts ! i = CloseWait # os \<Longrightarrow> wg r = WorkerDone \<Longrightarrow>
    caller_step (ts, r) CloseReturned (ts[i := os], r)"

text \<open>A step of the worker, \<open>run\<close>. When both channels are ready its \<open>select\<close> takes either.\<close>

inductive worker_run :: "'a AsyncMetricRecorder \<Rightarrow> 'a label \<Rightarrow> 'a AsyncMetricRecorder \<Rightarrow> bool" where
  take_event: "wg r = Selecting \<Longrightarrow> eventQueue r = e # q \<Longrightarrow>
    worker_run r (EvTaken e) (r\<lparr>eventQueue := q, wg := Handling e\<rparr>)"
| handle: "wg r = Handling e \<Longrightarrow>
    worker_run r (EvProcessed e) (r\<lparr>syncRecorder := syncRecorder r @ processEvent e, wg := Selecting\<rparr>)"
| see_stop: "wg r = Selecting \<Longrightarrow> stopCh r \<Longrightarrow>
    worker_run r StopSeen (r\<lparr>wg := Draining (length (eventQueue r))\<rparr>)"
| drain: "wg r = Draining (Suc n) \<Longrightarrow> eventQueue r = e # q \<Longrightarrow>
    worker_run r (EvTaken e) (r\<lparr>eventQueue := q, wg := DrainHandling e n\<rparr>)"
| drain_handle: "wg r = DrainHandling e n \<Longrightarrow>
    worker_run r (EvProcessed e) (r\<lparr>syncRecorder := syncRecorder r @ processEvent e, wg := Draining n\<rparr>)"
| return: "wg r = Draining 0 \<Longrightarrow> worker_run r WorkerReturned (r\<lparr>wg := WorkerDone\<rparr>)"

inductive_cases worker_runE: "worker_run r l r'"
inductive_cases caller_stepE: "caller_step s l s'"

inductive async_run :: "'a astate \<Rightarrow> 'a label list \<Rightarrow> 'a astate \<Rightarrow> bool" for s0 where
  start: "async_run s0 [] s0"
| caller: "async_run s0 ls s \<Longrightarrow> caller_step s l s' \<Longrightarrow> async_run s0 (ls @ [l]) s'"
| worker: "async_run s0 ls (ts, r) \<Longrightarrow> worker_run r l r' \<Longrightarrow> async_run s0 (ls @ [l]) (ts, r')"


section \<open>An executable scheduler\<close>

text \<open>
  A schedule says who moves: the goroutine at a position, with the order of the counters should it
  take the lock for a flush, or the worker, with its choice when both channels are ready.
\<close>

datatype choice = Caller nat "string list" | Worker bool

fun caller_next :: "nat \<Rightarrow> string list \<Rightarrow> 'a astate \<Rightarrow> ('a label \<times> 'a astate) option" where
  "caller_next i tys (ts, r) = (if i < length ts then (case ts ! i of
       Send e ident # os \<Rightarrow> Some (sent_label e ident r, ts[i := os], sendEvent e ident r)
     | Incr ty n # os \<Rightarrow>
         (if recorderMu r then None else Some (CountAdded ty n, ts[i := os], set_counter ty (counter ty r + n) r))
     | Flush se # os \<Rightarrow>
         (if \<not> recorderMu r \<and> distinct tys \<and> set tys = fst ` set (counters r)
          then Some (MuLocked, ts[i := Flushing se tys # os], r\<lparr>recorderMu := True\<rparr>) else None)
     | Flushing se [] # os \<Rightarrow> Some (MuUnlocked, ts[i := os], r\<lparr>recorderMu := False\<rparr>)
     | Flushing se (ty # rest) # os \<Rightarrow>
         (if 0 <s counter ty r
          then Some (CountFlushed ty (counter ty r) (sent_label (flush_event ty se r) se r),
            ts[i := Flushing se rest # os], set_counter ty 0 (sendEvent (flush_event ty se r) se r))
          else Some (CountSkipped ty, ts[i := Flushing se rest # os], r))
     | CloseStop # os \<Rightarrow> (if stopCh r then None else Some (StopSent, ts[i := os], r\<lparr>stopCh := True\<rparr>))
     | CloseWait # os \<Rightarrow> (case wg r of WorkerDone \<Rightarrow> Some (CloseReturned, ts[i := os], r) | _ \<Rightarrow> None)
     | [] \<Rightarrow> None) else None)"

definition worker_next :: "bool \<Rightarrow> 'a AsyncMetricRecorder \<Rightarrow> ('a label \<times> 'a AsyncMetricRecorder) option" where
  "worker_next stop r = (case wg r of
       Selecting \<Rightarrow>
         (if stop then (if stopCh r then Some (StopSeen, r\<lparr>wg := Draining (length (eventQueue r))\<rparr>) else None)
          else (case eventQueue r of [] \<Rightarrow> None | e # q \<Rightarrow> Some (EvTaken e, r\<lparr>eventQueue := q, wg := Handling e\<rparr>)))
     | Handling e \<Rightarrow>
         Some (EvProcessed e, r\<lparr>syncRecorder := syncRecorder r @ processEvent e, wg := Selecting\<rparr>)
     | Draining 0 \<Rightarrow> Some (WorkerReturned, r\<lparr>wg := WorkerDone\<rparr>)
     | Draining (Suc n) \<Rightarrow>
         (case eventQueue r of [] \<Rightarrow> None | e # q \<Rightarrow> Some (EvTaken e, r\<lparr>eventQueue := q, wg := DrainHandling e n\<rparr>))
     | DrainHandling e n \<Rightarrow>
         Some (EvProcessed e, r\<lparr>syncRecorder := syncRecorder r @ processEvent e, wg := Draining n\<rparr>)
     | WorkerDone \<Rightarrow> None)"

fun schedule :: "choice list \<Rightarrow> 'a label list \<times> 'a astate \<Rightarrow> ('a label list \<times> 'a astate) option" where
  "schedule [] c = Some c"
| "schedule (Caller i tys # cs) (ls, s) =
     (case caller_next i tys s of None \<Rightarrow> None | Some (l, s') \<Rightarrow> schedule cs (ls @ [l], s'))"
| "schedule (Worker b # cs) (ls, s) =
     (case worker_next b (snd s) of None \<Rightarrow> None | Some (l, r') \<Rightarrow> schedule cs (ls @ [l], (fst s, r')))"

lemma caller_next_step: "caller_next i tys s = Some (l, s') \<Longrightarrow> caller_step s l s'"
  by (induction i tys s rule: caller_next.induct)
    (auto split: if_splits list.splits op.splits worker_state.splits intro: caller_step.intros)

lemma worker_next_run: "worker_next b r = Some (l, r') \<Longrightarrow> worker_run r l r'"
  by (auto simp: worker_next_def split: worker_state.splits if_splits list.splits nat.splits intro: worker_run.intros)

lemma schedule_run: "async_run s0 ls s \<Longrightarrow> schedule cs (ls, s) = Some (ls', s') \<Longrightarrow> async_run s0 ls' s'"
proof (induction cs arbitrary: ls s)
  case (Cons c cs)
  show ?case
  proof (cases c)
    case (Caller i tys)
    then obtain l s1 where "caller_next i tys s = Some (l, s1)" "schedule cs (ls @ [l], s1) = Some (ls', s')"
      using Cons.prems(2) by (auto split: option.splits prod.splits)
    then show ?thesis using Cons.IH async_run.caller[OF Cons.prems(1)] caller_next_step by blast
  next
    case (Worker b)
    then obtain l r1 where n: "worker_next b (snd s) = Some (l, r1)" "schedule cs (ls @ [l], (fst s, r1)) = Some (ls', s')"
      using Cons.prems(2) by (auto split: option.splits prod.splits)
    have "async_run s0 (ls @ [l]) (fst s, r1)"
      using async_run.worker[of s0 ls "fst s" "snd s"] Cons.prems(1) worker_next_run[OF n(1)] by simp
    then show ?thesis using Cons.IH n(2) by blast
  qed
qed simp

section \<open>Accounting for the events\<close>

fun accepted_of :: "'a label \<Rightarrow> 'a MetricEvent list" where
  "accepted_of (EvAccepted e) = [e]"
| "accepted_of (CountFlushed ty v l) = accepted_of l"
| "accepted_of _ = []"

fun processed_of :: "'a label \<Rightarrow> 'a MetricEvent list" where
  "processed_of (EvProcessed e) = [e]"
| "processed_of _ = []"

fun logged_of :: "'a label \<Rightarrow> 'a sync_call list" where
  "logged_of (EvProcessed e) = processEvent e"
| "logged_of (EvDropped e ident) = [SyncExecutionError (Some (queue_full_error e ident))]"
| "logged_of (CountFlushed ty v l) = logged_of l"
| "logged_of _ = []"

abbreviation accepted :: "'a label list \<Rightarrow> 'a MetricEvent list" where
  "accepted ls \<equiv> concat (map accepted_of ls)"

abbreviation processed :: "'a label list \<Rightarrow> 'a MetricEvent list" where
  "processed ls \<equiv> concat (map processed_of ls)"

abbreviation logged :: "'a label list \<Rightarrow> 'a sync_call list" where
  "logged ls \<equiv> concat (map logged_of ls)"

definition in_hand :: "'a AsyncMetricRecorder \<Rightarrow> 'a MetricEvent list" where
  "in_hand r = (case wg r of Handling e \<Rightarrow> [e] | DrainHandling e n \<Rightarrow> [e] | _ \<Rightarrow> [])"

text \<open>The invariant of the channel: first in, first out, bounded, and every call accounted for.\<close>

definition events_inv :: "'a label list \<Rightarrow> 'a AsyncMetricRecorder \<Rightarrow> bool" where
  "events_inv ls r \<longleftrightarrow> accepted ls = processed ls @ in_hand r @ eventQueue r
     \<and> length (eventQueue r) \<le> queueSize r \<and> syncRecorder r = logged ls"

lemmas send_defs = sent_label_def sendEvent_def set_counter_def

lemma events_inv_caller: "caller_step (ts, r) l (ts', r') \<Longrightarrow> events_inv ls r \<Longrightarrow> events_inv (ls @ [l]) r'"
  by (erule caller_stepE) (auto simp: events_inv_def send_defs in_hand_def)

lemma events_inv_worker: "worker_run r l r' \<Longrightarrow> events_inv ls r \<Longrightarrow> events_inv (ls @ [l]) r'"
  by (erule worker_runE) (auto simp: events_inv_def in_hand_def)

lemma events_inv_run:
  assumes "async_run s0 ls s" "events_inv [] (snd s0)"
  shows "events_inv ls (snd s)"
  using assms
proof (induction rule: async_run.induct)
  case (caller ls s l s')
  then show ?case by (cases s; cases s') (auto intro: events_inv_caller)
next
  case (worker ls ts r l r')
  then show ?case by (auto intro: events_inv_worker)
qed simp

lemma events_inv_new: "events_inv [] (NewAsyncMetricRecorder n)"
  by (simp add: events_inv_def NewAsyncMetricRecorder_def in_hand_def Let_def)

lemma queue_size_kept: "async_run s0 ls s \<Longrightarrow> queueSize (snd s) = queueSize (snd s0)"
  by (induction rule: async_run.induct)
    (auto elim!: caller_stepE worker_runE simp: send_defs)


section \<open>Closing\<close>

text \<open>How many events of the channel the draining worker still takes.\<close>

definition to_drain :: "'a AsyncMetricRecorder \<Rightarrow> nat" where
  "to_drain r = (case wg r of Draining n \<Rightarrow> n | DrainHandling e n \<Rightarrow> n | _ \<Rightarrow> 0)"

definition past_stop :: "'a AsyncMetricRecorder \<Rightarrow> bool" where
  "past_stop r = (case wg r of Selecting \<Rightarrow> False | Handling e \<Rightarrow> False | _ \<Rightarrow> True)"

definition drain_inv :: "'a label list \<Rightarrow> 'a AsyncMetricRecorder \<Rightarrow> bool" where
  "drain_inv ls r \<longleftrightarrow> events_inv ls r \<and> (past_stop r \<longrightarrow> stopCh r) \<and> to_drain r \<le> length (eventQueue r)
     \<and> (\<forall>as bs. ls = as @ StopSent # bs \<longrightarrow> past_stop r \<longrightarrow>
          prefix (accepted as) (processed ls @ in_hand r @ take (to_drain r) (eventQueue r)))"

lemmas drain_defs = to_drain_def past_stop_def in_hand_def

lemma append_stop_cases:
  "ls @ [l] = as @ StopSent # bs \<longleftrightarrow>
     bs = [] \<and> l = StopSent \<and> as = ls \<or> (\<exists>bs'. bs = bs' @ [l] \<and> ls = as @ StopSent # bs')"
  by (cases bs rule: rev_cases) auto

text \<open>
  What a step of a caller leaves of the draining: the events still to be taken stay where they are.
\<close>

lemma caller_keeps_drain:
  assumes "caller_step (ts, r) l (ts', r')" "to_drain r \<le> length (eventQueue r)"
  shows "wg r' = wg r \<and> take (to_drain r) (eventQueue r') = take (to_drain r) (eventQueue r)
    \<and> length (eventQueue r) \<le> length (eventQueue r') \<and> (stopCh r \<longrightarrow> stopCh r') \<and> processed_of l = []
    \<and> (l = StopSent \<longrightarrow> \<not> stopCh r)"
  using assms by (auto elim!: caller_stepE simp: send_defs split: if_splits)

lemma drain_inv_caller:
  assumes st: "caller_step (ts, r) l (ts', r')" and inv: "drain_inv ls r"
  shows "drain_inv (ls @ [l]) r'"
proof -
  have le: "to_drain r \<le> length (eventQueue r)" using inv by (simp add: drain_inv_def)
  note k = caller_keeps_drain[OF st le]
  have w: "to_drain r' = to_drain r" "past_stop r' = past_stop r" "in_hand r' = in_hand r"
    using k by (simp_all add: drain_defs)
  show ?thesis
    using inv k events_inv_caller[OF st] w unfolding drain_inv_def append_stop_cases by auto
qed

lemma drain_inv_worker:
  assumes st: "worker_run r l r'" and inv: "drain_inv ls r"
  shows "drain_inv (ls @ [l]) r'"
proof -
  have e: "events_inv (ls @ [l]) r'" using events_inv_worker[OF st] inv by (simp add: drain_inv_def)
  show ?thesis using st
  proof (cases rule: worker_run.cases)
    case see_stop
    have "accepted ls = processed ls @ eventQueue r"
      using see_stop inv by (simp add: drain_inv_def events_inv_def in_hand_def)
    then have "prefix (accepted as) (processed ls @ eventQueue r)" if "ls = as @ StopSent # bs" for as bs
      using that by (metis concat_append map_append prefixI)
    then show ?thesis using see_stop inv e
      by (auto simp: drain_inv_def drain_defs append_stop_cases)
  qed (use inv e in \<open>auto simp: drain_inv_def drain_defs append_stop_cases\<close>)
qed

lemma drain_inv_run:
  assumes "async_run s0 ls s" "drain_inv [] (snd s0)"
  shows "drain_inv ls (snd s)"
  using assms
proof (induction rule: async_run.induct)
  case (caller ls s l s')
  then show ?case by (cases s; cases s') (auto intro: drain_inv_caller)
next
  case (worker ls ts r l r')
  then show ?case by (auto intro: drain_inv_worker)
qed simp

lemma drain_inv_new: "drain_inv [] (NewAsyncMetricRecorder n)"
  using events_inv_new[of n] by (simp add: drain_inv_def drain_defs NewAsyncMetricRecorder_def Let_def)

lemma async_run_prefix: "async_run s0 ls s \<Longrightarrow> ls = as @ bs \<Longrightarrow> \<exists>s1. async_run s0 as s1"
proof (induction arbitrary: bs rule: async_run.induct)
  case (caller ls s l s')
  note now = async_run.caller[OF caller.hyps(1,2)]
  show ?case using caller.IH caller.prems now by (cases bs rule: rev_cases) (auto simp del: split_paired_Ex)
next
  case (worker ls ts r l r')
  note now = async_run.worker[OF worker.hyps(1,2)]
  show ?case using worker.IH worker.prems now by (cases bs rule: rev_cases) (auto simp del: split_paired_Ex)
qed (blast intro: async_run.start)

lemma close_returned_last:
  assumes "async_run s0 (ls @ [CloseReturned]) s"
  shows "\<exists>s1. async_run s0 ls s1 \<and> wg (snd s1) = WorkerDone"
  using assms
proof (cases rule: async_run.cases)
  case (caller ls' s1 l)
  then show ?thesis by (cases s1) (auto elim!: caller_stepE simp: sent_label_def split: if_splits)
next
  case (worker ls' ts r l r')
  then show ?thesis by (auto elim!: worker_runE)
qed simp


section \<open>Counting\<close>

fun added_of :: "string \<Rightarrow> 'a label \<Rightarrow> 64 word" where
  "added_of ty (CountAdded t n) = (if t = ty then n else 0)"
| "added_of ty _ = 0"

fun flushed_of :: "string \<Rightarrow> 'a label \<Rightarrow> 64 word" where
  "flushed_of ty (CountFlushed t v l) = (if t = ty then v else 0)"
| "flushed_of ty _ = 0"

definition counts_inv :: "string \<Rightarrow> 'a label list \<Rightarrow> 'a AsyncMetricRecorder \<Rightarrow> bool" where
  "counts_inv ty ls r \<longleftrightarrow> sum_list (map (added_of ty) ls) = sum_list (map (flushed_of ty) ls) + counter ty r"

lemma counter_set [simp]: "counter ty (set_counter t v r) = (if t = ty then v else counter ty r)"
  by (simp add: counter_def set_counter_def)

lemma counter_send [simp]: "counter ty (sendEvent e ident r) = counter ty r"
  by (simp add: counter_def sendEvent_def)

lemma counts_inv_caller: "caller_step (ts, r) l (ts', r') \<Longrightarrow> counts_inv ty ls r \<Longrightarrow> counts_inv ty (ls @ [l]) r'"
  by (erule caller_stepE) (auto simp: counts_inv_def counter_def[of _ "_\<lparr>recorderMu := _\<rparr>"]
      counter_def[of _ "_\<lparr>stopCh := _\<rparr>"] sent_label_def simp flip: counter_def)

lemma counts_inv_worker: "worker_run r l r' \<Longrightarrow> counts_inv ty ls r \<Longrightarrow> counts_inv ty (ls @ [l]) r'"
  by (erule worker_runE) (auto simp: counts_inv_def counter_def)

lemma counts_inv_run:
  assumes "async_run s0 ls s" "counts_inv ty [] (snd s0)"
  shows "counts_inv ty ls (snd s)"
  using assms
proof (induction rule: async_run.induct)
  case (caller ls s l s')
  then show ?case by (cases s; cases s') (auto intro: counts_inv_caller)
next
  case (worker ls ts r l r')
  then show ?case by (auto intro: counts_inv_worker)
qed simp

section \<open>The worker alone\<close>

inductive worker_path :: "'a AsyncMetricRecorder \<Rightarrow> 'a label list \<Rightarrow> 'a AsyncMetricRecorder \<Rightarrow> bool" where
  path_done: "wg r = WorkerDone \<Longrightarrow> worker_path r [] r"
| path_step: "worker_run r l r1 \<Longrightarrow> worker_path r1 ls r2 \<Longrightarrow> worker_path r (l # ls) r2"

lemma draining_completes:
  assumes "wg r = Draining n" "n \<le> length (eventQueue r)"
  shows "\<exists>ls r'. worker_path r ls r' \<and> processed ls = take n (eventQueue r)"
  using assms
proof (induction n arbitrary: r)
  case 0
  have "worker_path r [WorkerReturned] (r\<lparr>wg := WorkerDone\<rparr>)"
    using 0 by (auto intro!: worker_path.intros worker_run.return)
  then show ?case by (intro exI conjI) auto
next
  case (Suc n)
  obtain e q where q: "eventQueue r = e # q" using Suc.prems(2) by (cases "eventQueue r") auto
  let ?r1 = "r\<lparr>eventQueue := q, wg := DrainHandling e n\<rparr>"
  let ?r2 = "?r1\<lparr>syncRecorder := syncRecorder ?r1 @ processEvent e, wg := Draining n\<rparr>"
  have s1: "worker_run r (EvTaken e) ?r1" using Suc.prems(1) q by (rule worker_run.drain)
  have s2: "worker_run ?r1 (EvProcessed e) ?r2" by (rule worker_run.drain_handle) simp
  obtain ls r' where p: "worker_path ?r2 ls r'" "processed ls = take n (eventQueue ?r2)"
    using Suc.IH[of ?r2] Suc.prems(2) q by auto
  have "worker_path r (EvTaken e # EvProcessed e # ls) r'" using s1 s2 p(1) by (blast intro: worker_path.path_step)
  moreover have "processed (EvTaken e # EvProcessed e # ls) = take (Suc n) (eventQueue r)" using p(2) q by simp
  ultimately show ?case by blast
qed

text \<open>Once the stop signal is there the worker, left alone, returns: it is never stuck in the drain.\<close>

lemma worker_completes:
  assumes inv: "drain_inv ls r" and stop: "stopCh r"
  shows "\<exists>ls r'. worker_path r ls r'"
proof -
  have sel: "\<exists>ls r'. worker_path r0 ls r'" if "wg r0 = Selecting" "stopCh r0" for r0 :: "'a AsyncMetricRecorder"
    using draining_completes[of "r0\<lparr>wg := Draining (length (eventQueue r0))\<rparr>"] worker_run.see_stop[OF that]
    by (fastforce intro: worker_path.path_step)
  show ?thesis
  proof (cases "wg r")
    case Selecting
    then show ?thesis using sel stop by blast
  next
    case (Handling e)
    then show ?thesis using worker_run.handle[OF Handling] stop
        sel[of "r\<lparr>syncRecorder := syncRecorder r @ processEvent e, wg := Selecting\<rparr>"]
      by (fastforce intro: worker_path.path_step)
  next
    case (Draining n)
    then show ?thesis using draining_completes[OF Draining] inv by (auto simp: drain_inv_def drain_defs)
  next
    case (DrainHandling e n)
    let ?r = "r\<lparr>syncRecorder := syncRecorder r @ processEvent e, wg := Draining n\<rparr>"
    have "n \<le> length (eventQueue ?r)" using DrainHandling inv by (simp add: drain_inv_def drain_defs)
    then show ?thesis using worker_run.drain_handle[OF DrainHandling] draining_completes[of ?r n]
      by (fastforce intro: worker_path.path_step)
  next
    case WorkerDone
    then show ?thesis by (blast intro: worker_path.path_done)
  qed
qed

section \<open>Properties\<close>

text \<open>
  C34: Under every interleaving the events the channel took are recorded in the order it took them:
  what has been processed, what the worker holds and what waits make them up, nothing is invented or
  recorded twice; the channel never holds more than its size; and the calls the synchronous recorder
  got are those of the processed events and one error for every event that did not fit.
\<close>

theorem recorder_accounts:
  assumes "async_run (program css, NewAsyncMetricRecorder n) ls (ts, r)"
  shows "accepted ls = processed ls @ in_hand r @ eventQueue r
    \<and> int (length (eventQueue r)) \<le> (if n \<le> 0 then 100 else n)
    \<and> syncRecorder r = logged ls"
proof -
  have "events_inv ls r" using events_inv_run[OF assms] by (simp add: events_inv_new)
  moreover have "queueSize r = nat (if n \<le> 0 then 100 else n)"
    using queue_size_kept[OF assms] by (simp add: NewAsyncMetricRecorder_def Let_def)
  ultimately show ?thesis by (auto simp: events_inv_def)
qed

text \<open>Two events, a channel of one: the second is dropped and reported, the first recorded.\<close>

definition demo_calls :: "nat metric_call list list" where
  "demo_calls = [[RecordJobStart ''j'', RecordJobEnd ''j''], [CloseRecorder]]"

definition demo_schedule :: "choice list" where
  "demo_schedule = [Caller 0 [], Caller 0 [], Caller 1 [], Worker True, Worker False, Worker False, Worker False, Caller 1 []]"

definition demo_result :: "(nat label list \<times> nat astate) option" where
  "demo_result = schedule demo_schedule ([], (program demo_calls, NewAsyncMetricRecorder 1))"

lemma demo_result_some: "demo_result \<noteq> None"
  by code_simp

lemma demo_run:
  "async_run (program demo_calls, NewAsyncMetricRecorder 1) (fst (the demo_result)) (snd (the demo_result))"
  using schedule_run[OF async_run.start, of demo_schedule "(program demo_calls, NewAsyncMetricRecorder 1)"]
    demo_result_some by (auto simp: demo_result_def)

theorem recorder_accounts_witness:
  "syncRecorder (snd (snd (the demo_result))) = logged (fst (the demo_result))
    \<and> syncRecorder (snd (snd (the demo_result))) =
      [SyncExecutionError (Some (queue_full_error ((zero_event ''job_end'')\<lparr>ev_JobExecution := Some ''j''\<rparr>) ''j'')),
       SyncJobStart (Some ''j'')]"
proof
  show "syncRecorder (snd (snd (the demo_result))) = logged (fst (the demo_result))"
    using recorder_accounts[of demo_calls 1 "fst (the demo_result)" "fst (snd (the demo_result))" "snd (snd (the demo_result))"]
      demo_run by simp
  show "syncRecorder (snd (snd (the demo_result))) =
      [SyncExecutionError (Some (queue_full_error ((zero_event ''job_end'')\<lparr>ev_JobExecution := Some ''j''\<rparr>) ''j'')),
       SyncJobStart (Some ''j'')]"
    by code_simp
qed

text \<open>
  C35: When \<open>Close\<close> has returned, every event the channel took before the stop signal has been
  recorded, and once the signal is there the worker, whatever the callers have done, can run to its
  end by itself: \<open>Close\<close> does not hang.
\<close>

theorem close_delivers:
  assumes "async_run (program css, NewAsyncMetricRecorder n) ls (ts, r)"
  shows "(\<forall>as bs cs. ls = as @ StopSent # bs @ CloseReturned # cs \<longrightarrow>
            prefix (accepted as) (processed (as @ StopSent # bs)))
    \<and> (stopCh r \<longrightarrow> (\<exists>ls' r'. worker_path r ls' r'))"
proof (intro conjI allI impI)
  have new: "drain_inv [] (snd (program css, NewAsyncMetricRecorder n))" by (simp add: drain_inv_new)
  show "\<exists>ls' r'. worker_path r ls' r'" if "stopCh r"
    using worker_completes[OF _ that] drain_inv_run[OF assms new] by auto
  fix as bs cs assume ls: "ls = as @ StopSent # bs @ CloseReturned # cs"
  then have "ls = ((as @ StopSent # bs) @ [CloseReturned]) @ cs" by simp
  then obtain s1 where "async_run (program css, NewAsyncMetricRecorder n) ((as @ StopSent # bs) @ [CloseReturned]) s1"
    using async_run_prefix[OF assms] by blast
  then obtain s2 where s2: "async_run (program css, NewAsyncMetricRecorder n) (as @ StopSent # bs) s2"
      "wg (snd s2) = WorkerDone"
    using close_returned_last by blast
  have "drain_inv (as @ StopSent # bs) (snd s2)" using drain_inv_run[OF s2(1) new] .
  then show "prefix (accepted as) (processed (as @ StopSent # bs))"
    using s2(2) by (auto simp: drain_inv_def drain_defs)
qed

theorem close_delivers_witness:
  "\<exists>as bs. fst (the demo_result) = as @ StopSent # bs @ [CloseReturned]
     \<and> accepted as = [(zero_event ''job_start'')\<lparr>ev_JobExecution := Some ''j''\<rparr>]
     \<and> prefix (accepted as) (processed (as @ StopSent # bs))"
proof (intro exI conjI)
  let ?ls = "fst (the demo_result)"
  let ?as = "take 2 ?ls" and ?bs = "butlast (drop 3 ?ls)"
  show d: "?ls = ?as @ StopSent # ?bs @ [CloseReturned]" by code_simp
  show "accepted ?as = [(zero_event ''job_start'')\<lparr>ev_JobExecution := Some ''j''\<rparr>]" by code_simp
  show "prefix (accepted ?as) (processed (?as @ StopSent # ?bs))"
    using close_delivers[THEN conjunct1, rule_format, of demo_calls 1 ?ls "fst (snd (the demo_result))"
        "snd (snd (the demo_result))" ?as ?bs "[]"] demo_run d by simp
qed

text \<open>
  The counts of an event type that callers added are, modulo $2^{64}$, those that the flushes
  turned into events and what the counter still holds: no count is lost under any interleaving of
  the callers, although an event a flush makes may be dropped.
\<close>

theorem counts_conserved:
  assumes "async_run (program css, NewAsyncMetricRecorder n) ls (ts, r)"
  shows "sum_list (map (added_of ty) ls) = sum_list (map (flushed_of ty) ls) + counter ty r"
  using counts_inv_run[OF assms, of ty] by (simp add: counts_inv_def NewAsyncMetricRecorder_def Let_def counter_def)

text \<open>
  The counters do not say whose counts they hold: the items that step \<open>A\<close> has read are recorded
  for step \<open>B\<close>, which read none, when \<open>B\<close> ends first.
\<close>

definition shared_calls :: "nat metric_call list list" where
  "shared_calls = [[RecordItemRead ''A'' 5], [RecordStepEnd ''B'']]"

definition shared_schedule :: "choice list" where
  "shared_schedule = [Caller 0 [], Caller 1 [''item_read''], Caller 1 [], Caller 1 [], Worker False, Worker False]"

definition shared_result :: "(nat label list \<times> nat astate) option" where
  "shared_result = schedule shared_schedule ([], (program shared_calls, NewAsyncMetricRecorder 0))"

lemma shared_run:
  "async_run (program shared_calls, NewAsyncMetricRecorder 0) (fst (the shared_result)) (snd (the shared_result))"
proof -
  have "shared_result \<noteq> None" by code_simp
  then show ?thesis
    using schedule_run[OF async_run.start, of shared_schedule "(program shared_calls, NewAsyncMetricRecorder 0)"]
    by (auto simp: shared_result_def)
qed

lemma counts_of_another_step: "syncRecorder (snd (snd (the shared_result))) = [SyncItemRead (Some ''B'') 5]"
  by code_simp

theorem counts_conserved_witness:
  "sum_list (map (added_of ''item_read'') (fst (the shared_result))) = 5
    \<and> sum_list (map (flushed_of ''item_read'') (fst (the shared_result))) = 5"
proof
  have "counter ''item_read'' (snd (snd (the shared_result))) = 0" by code_simp
  moreover show "sum_list (map (added_of ''item_read'') (fst (the shared_result))) = 5" by code_simp
  ultimately show "sum_list (map (flushed_of ''item_read'') (fst (the shared_result))) = 5"
    using counts_conserved[of shared_calls 0 "fst (the shared_result)" "fst (snd (the shared_result))"
        "snd (snd (the shared_result))" "''item_read''"] shared_run by simp
qed

end
