(* ===== verification/Config_Loader.thy ===== *)
theory Config_Loader
  imports Gorm_Provider Batch_Values
begin

text \<open>
  The configuration: \<open>core/config/config.go\<close>, \<open>environment_expander.go\<close> and \<open>loader.go\<close>. Defaults,
  the embedded YAML and the environment are put on top of each other; exception classes are checked.

  \<open>godotenv\<close> and the YAML decoder are third parties' and parameters: \<open>dotenv\<close> makes an environment
  from one, \<open>unmarshal\<close> a configuration from a text. What \<open>reflect\<close> sees of a struct is the list
  of its fields, each with its name, its \<open>yaml\<close> tag and its value; every field is exported. Case
  conversion is that of ASCII. Log lines and the log level are left out.
\<close>

section \<open>The configuration\<close>

record RetryConfig_core =
  rc_MaxAttempts :: int
  rc_InitialInterval :: int
  rc_MaxInterval :: int
  rc_Factor :: f64
  rc_CircuitBreakerThreshold :: int
  rc_CircuitBreakerResetInterval :: int

text \<open>A slice is \<open>None\<close> when it is \<open>nil\<close>.\<close>

record ItemRetryConfig_core =
  irc_MaxAttempts :: int
  irc_InitialInterval :: int
  irc_RetryableExceptions :: "string list option"

record ItemSkipConfig_core =
  isc_SkipLimit :: int
  isc_SkippableExceptions :: "string list option"

record BatchConfig =
  bc_PollingIntervalSeconds :: int
  bc_JobName :: string
  bc_Retry :: RetryConfig_core
  bc_ChunkSize :: int
  bc_ItemRetry :: ItemRetryConfig_core
  bc_ItemSkip :: ItemSkipConfig_core
  bc_StepExecutorRef :: string
  bc_MetricsAsyncBufferSize :: int

record LoggingConfig =
  lc_Level :: string
  lc_Format :: string

record SystemConfig =
  sys_Timezone :: string
  sys_Logging :: LoggingConfig

record InfrastructureConfig =
  inf_JobRepositoryDBRef :: string

record SecurityConfig =
  scc_MaskedParameterKeys :: "string list option"

record 'v SurfinConfig =
  sf_Batch :: BatchConfig
  sf_System :: SystemConfig
  sf_Infrastructure :: InfrastructureConfig
  sf_Security :: SecurityConfig
  sf_AdapterConfigs :: "(string, 'v) gomap option"

record 'v Config =
  cf_Surfin :: "'v SurfinConfig"
  cf_EmbeddedConfig :: "string option"

definition NewConfig :: "'v Config" where
  "NewConfig = \<lparr>cf_Surfin = \<lparr>
     sf_Batch = \<lparr>bc_PollingIntervalSeconds = 0, bc_JobName = '''',
       bc_Retry = \<lparr>rc_MaxAttempts = 0, rc_InitialInterval = 0, rc_MaxInterval = 0, rc_Factor = Fin 0,
         rc_CircuitBreakerThreshold = 0, rc_CircuitBreakerResetInterval = 0\<rparr>,
       bc_ChunkSize = 10,
       bc_ItemRetry = \<lparr>irc_MaxAttempts = 3, irc_InitialInterval = 1000,
         irc_RetryableExceptions = Some [''*exception.TemporaryNetworkError'', ''*net.OpError'',
           ''context.DeadlineExceeded'', ''context.Canceled'']\<rparr>,
       bc_ItemSkip = \<lparr>isc_SkipLimit = 0,
         isc_SkippableExceptions = Some [''*exception.DataConversionError'', ''*json.UnmarshalTypeError'']\<rparr>,
       bc_StepExecutorRef = ''simpleStepExecutor'', bc_MetricsAsyncBufferSize = 100\<rparr>,
     sf_System = \<lparr>sys_Timezone = ''UTC'', sys_Logging = \<lparr>lc_Level = ''INFO'', lc_Format = ''json''\<rparr>\<rparr>,
     sf_Infrastructure = \<lparr>inf_JobRepositoryDBRef = ''metadata''\<rparr>,
     sf_Security = \<lparr>scc_MaskedParameterKeys = Some [''password'', ''api_key'', ''secret'']\<rparr>,
     sf_AdapterConfigs = Some []\<rparr>,
   cf_EmbeddedConfig = None\<rparr>"

definition GetMaskedParameterKeys :: "'v Config option \<Rightarrow> string list option" where
  "GetMaskedParameterKeys global = (case global of None \<Rightarrow> Some [] | Some c \<Rightarrow> scc_MaskedParameterKeys (sf_Security (cf_Surfin c)))"

section \<open>Merging\<close>

definition merge_int :: "int \<Rightarrow> int \<Rightarrow> int" where
  "merge_int dest source = (if source \<noteq> 0 then source else dest)"

definition merge_str :: "string \<Rightarrow> string \<Rightarrow> string" where
  "merge_str dest source = (if source \<noteq> '''' then source else dest)"

definition merge_slice :: "string list option \<Rightarrow> string list option \<Rightarrow> string list option" where
  "merge_slice dest source = (if source \<noteq> None then source else dest)"

definition mergeRetryConfig :: "RetryConfig_core \<Rightarrow> RetryConfig_core \<Rightarrow> RetryConfig_core" where
  "mergeRetryConfig dest source = \<lparr>
     rc_MaxAttempts = merge_int (rc_MaxAttempts dest) (rc_MaxAttempts source),
     rc_InitialInterval = merge_int (rc_InitialInterval dest) (rc_InitialInterval source),
     rc_MaxInterval = merge_int (rc_MaxInterval dest) (rc_MaxInterval source),
     rc_Factor = (if \<not> f64_eq (rc_Factor source) (Fin 0) then rc_Factor source else rc_Factor dest),
     rc_CircuitBreakerThreshold = merge_int (rc_CircuitBreakerThreshold dest) (rc_CircuitBreakerThreshold source),
     rc_CircuitBreakerResetInterval =
       merge_int (rc_CircuitBreakerResetInterval dest) (rc_CircuitBreakerResetInterval source)\<rparr>"

definition mergeItemRetryConfig :: "ItemRetryConfig_core \<Rightarrow> ItemRetryConfig_core \<Rightarrow> ItemRetryConfig_core" where
  "mergeItemRetryConfig dest source = \<lparr>
     irc_MaxAttempts = merge_int (irc_MaxAttempts dest) (irc_MaxAttempts source),
     irc_InitialInterval = merge_int (irc_InitialInterval dest) (irc_InitialInterval source),
     irc_RetryableExceptions = merge_slice (irc_RetryableExceptions dest) (irc_RetryableExceptions source)\<rparr>"

definition mergeItemSkipConfig :: "ItemSkipConfig_core \<Rightarrow> ItemSkipConfig_core \<Rightarrow> ItemSkipConfig_core" where
  "mergeItemSkipConfig dest source = \<lparr>
     isc_SkipLimit = merge_int (isc_SkipLimit dest) (isc_SkipLimit source),
     isc_SkippableExceptions = merge_slice (isc_SkippableExceptions dest) (isc_SkippableExceptions source)\<rparr>"

text \<open>The format of the log is not merged.\<close>

definition mergeSystemConfig :: "SystemConfig \<Rightarrow> SystemConfig \<Rightarrow> SystemConfig" where
  "mergeSystemConfig dest source = dest\<lparr>
     sys_Timezone := merge_str (sys_Timezone dest) (sys_Timezone source),
     sys_Logging := (sys_Logging dest)\<lparr>lc_Level := merge_str (lc_Level (sys_Logging dest)) (lc_Level (sys_Logging source))\<rparr>\<rparr>"

definition merge_adapters :: "(string, 'v) gomap option \<Rightarrow> (string, 'v) gomap option \<Rightarrow> (string, 'v) gomap option" where
  "merge_adapters dest source = (case source of None \<Rightarrow> dest
     | Some s \<Rightarrow> Some (gm_merge s (case dest of None \<Rightarrow> [] | Some d \<Rightarrow> d)))"

definition mergeSurfinConfig :: "'v SurfinConfig \<Rightarrow> 'v SurfinConfig \<Rightarrow> 'v SurfinConfig" where
  "mergeSurfinConfig dest source = \<lparr>
     sf_Batch = \<lparr>
       bc_PollingIntervalSeconds = merge_int (bc_PollingIntervalSeconds (sf_Batch dest)) (bc_PollingIntervalSeconds (sf_Batch source)),
       bc_JobName = merge_str (bc_JobName (sf_Batch dest)) (bc_JobName (sf_Batch source)),
       bc_Retry = mergeRetryConfig (bc_Retry (sf_Batch dest)) (bc_Retry (sf_Batch source)),
       bc_ChunkSize = merge_int (bc_ChunkSize (sf_Batch dest)) (bc_ChunkSize (sf_Batch source)),
       bc_ItemRetry = mergeItemRetryConfig (bc_ItemRetry (sf_Batch dest)) (bc_ItemRetry (sf_Batch source)),
       bc_ItemSkip = mergeItemSkipConfig (bc_ItemSkip (sf_Batch dest)) (bc_ItemSkip (sf_Batch source)),
       bc_StepExecutorRef = merge_str (bc_StepExecutorRef (sf_Batch dest)) (bc_StepExecutorRef (sf_Batch source)),
       bc_MetricsAsyncBufferSize =
         merge_int (bc_MetricsAsyncBufferSize (sf_Batch dest)) (bc_MetricsAsyncBufferSize (sf_Batch source))\<rparr>,
     sf_System = mergeSystemConfig (sf_System dest) (sf_System source),
     sf_Infrastructure = \<lparr>inf_JobRepositoryDBRef =
       merge_str (inf_JobRepositoryDBRef (sf_Infrastructure dest)) (inf_JobRepositoryDBRef (sf_Infrastructure source))\<rparr>,
     sf_Security = \<lparr>scc_MaskedParameterKeys =
       merge_slice (scc_MaskedParameterKeys (sf_Security dest)) (scc_MaskedParameterKeys (sf_Security source))\<rparr>,
     sf_AdapterConfigs = merge_adapters (sf_AdapterConfigs dest) (sf_AdapterConfigs source)\<rparr>"

definition mergeConfig :: "'v Config \<Rightarrow> 'v Config \<Rightarrow> 'v Config" where
  "mergeConfig dest source = dest\<lparr>cf_Surfin := mergeSurfinConfig (cf_Surfin dest) (cf_Surfin source)\<rparr>"

section \<open>The exception classes\<close>

fun checkExceptionClasses :: "registry \<Rightarrow> string list \<Rightarrow> string \<Rightarrow> goerr option" where
  "checkExceptionClasses reg [] configType = None"
| "checkExceptionClasses reg (n # ns) configType =
     (if \<not> IsErrorTypeRegistered reg n
      then Some (plain_error (configType @ '' configuration references unknown exception class: '' @ quoted n
        @ ''. Ensure it is registered.''))
      else checkExceptionClasses reg ns configType)"

definition validateExceptionClasses :: "registry \<Rightarrow> 'v Config \<Rightarrow> goerr option" where
  "validateExceptionClasses reg cfg =
     (let skip = (case isc_SkippableExceptions (bc_ItemSkip (sf_Batch (cf_Surfin cfg))) of
            None \<Rightarrow> None | Some ns \<Rightarrow> checkExceptionClasses reg ns ''ItemSkip'')
      in case irc_RetryableExceptions (bc_ItemRetry (sf_Batch (cf_Surfin cfg))) of
           None \<Rightarrow> skip
         | Some ns \<Rightarrow> (case checkExceptionClasses reg ns ''ItemRetry'' of Some e \<Rightarrow> Some e | None \<Rightarrow> skip))"

section \<open>Text\<close>

definition lowers :: string where
  "lowers = ''abcdefghijklmnopqrstuvwxyz''"

definition uppers :: string where
  "uppers = ''ABCDEFGHIJKLMNOPQRSTUVWXYZ''"

definition digits :: string where
  "digits = ''0123456789''"

definition swap_chars :: "string \<Rightarrow> string \<Rightarrow> string \<Rightarrow> string" where
  "swap_chars xs ys s = map (\<lambda>c. case map_of (zip xs ys) c of Some d \<Rightarrow> d | None \<Rightarrow> c) s"

definition to_upper :: "string \<Rightarrow> string" where
  "to_upper s = swap_chars lowers uppers s"

definition to_lower :: "string \<Rightarrow> string" where
  "to_lower s = swap_chars uppers lowers s"

definition EqualFold :: "string \<Rightarrow> string \<Rightarrow> bool" where
  "EqualFold s t \<longleftrightarrow> to_lower s = to_lower t"

text \<open>The errors of \<open>strconv\<close>; the text is quoted as it is.\<close>

definition strconv_error :: "string \<Rightarrow> string \<Rightarrow> string \<Rightarrow> goerr" where
  "strconv_error f s what = LeafError (''strconv.'' @ f) ''*strconv.NumError''
     (''strconv.'' @ f @ '': parsing '' @ [CHR 0x22] @ s @ [CHR 0x22] @ '': '' @ what)"

definition is_decimal :: "char \<Rightarrow> bool" where
  "is_decimal c \<longleftrightarrow> c \<in> set digits"

text \<open>\<open>strconv.ParseUint(s, 10, 64)\<close> on a text that is not empty.\<close>

fun parse_digits :: "int \<Rightarrow> string \<Rightarrow> string + int" where
  "parse_digits n [] = Inr n"
| "parse_digits n (c # cs) =
     (if \<not> is_decimal c then Inl ''invalid syntax''
      else (let n1 = 10 * n + int (digit_val c) in
        if 18446744073709551616 \<le> n1 then Inl ''value out of range'' else parse_digits n1 cs))"

text \<open>\<open>strconv.ParseInt(s, 10, 64)\<close>\<close>

definition ParseInt :: "string \<Rightarrow> goerr + int" where
  "ParseInt s =
     (let neg = (s \<noteq> [] \<and> hd s = CHR ''-'');
          ds = (if s \<noteq> [] \<and> (hd s = CHR ''-'' \<or> hd s = CHR ''+'') then tl s else s)
      in if ds = [] then Inl (strconv_error ''ParseInt'' s ''invalid syntax'')
         else (case parse_digits 0 ds of
             Inl what \<Rightarrow> Inl (strconv_error ''ParseInt'' s what)
           | Inr n \<Rightarrow> if \<not> neg \<and> 9223372036854775808 \<le> n \<or> neg \<and> 9223372036854775808 < n
               then Inl (strconv_error ''ParseInt'' s ''value out of range'')
               else Inr (if neg then - n else n)))"

definition ParseBool :: "string \<Rightarrow> goerr + bool" where
  "ParseBool s =
     (if s \<in> {''1'', ''t'', ''T'', ''true'', ''TRUE'', ''True''} then Inr True
      else if s \<in> {''0'', ''f'', ''F'', ''false'', ''FALSE'', ''False''} then Inr False
      else Inl (strconv_error ''ParseBool'' s ''invalid syntax''))"

section \<open>The environment\<close>

text \<open>\<open>os.Environ\<close>: the first entry for a name counts.\<close>

type_synonym environ = "(string \<times> string) list"

abbreviation LookupEnv :: "environ \<Rightarrow> string \<Rightarrow> string option" where
  "LookupEnv env n \<equiv> map_of env n"

definition is_shell_special :: "char \<Rightarrow> bool" where
  "is_shell_special c \<longleftrightarrow> c \<in> set ''*#$@!?-'' \<or> is_decimal c"

definition is_alnum :: "char \<Rightarrow> bool" where
  "is_alnum c \<longleftrightarrow> c = CHR ''_'' \<or> is_decimal c \<or> c \<in> set lowers \<or> c \<in> set uppers"

text \<open>The name that follows a dollar, and how many characters it takes.\<close>

definition getShellName :: "string \<Rightarrow> string \<times> nat" where
  "getShellName s = (case s of
       [] \<Rightarrow> ([], 0)
     | c # cs \<Rightarrow>
         if c = CHR ''{'' then
           (if 2 < length s \<and> is_shell_special (s ! 1) \<and> s ! 2 = CHR ''}'' then ([s ! 1], 3)
            else (let name = takeWhile (\<lambda>x. x \<noteq> CHR ''}'') cs in
              if length name = length cs then ([], 1)
              else if name = [] then ([], 2) else (name, length name + 2)))
         else if is_shell_special c then ([c], 1)
         else (takeWhile is_alnum s, length (takeWhile is_alnum s)))"

text \<open>\<open>os.ExpandEnv\<close>\<close>

function expand_env :: "environ \<Rightarrow> string \<Rightarrow> string" where
  "expand_env env [] = []"
| "expand_env env (c # cs) =
     (if c = CHR ''$'' \<and> cs \<noteq> [] then
        (case getShellName cs of (name, w) \<Rightarrow>
           (if name = [] \<and> w > 0 then []
            else if name = [] then [c]
            else (case LookupEnv env name of None \<Rightarrow> [] | Some v \<Rightarrow> v)) @ expand_env env (drop w cs))
      else c # expand_env env cs)"
  by pat_completeness auto

termination
  by (relation "measure (\<lambda>(env, s). length s)") auto

text \<open>\<open>OsEnvironmentExpander.Expand\<close>: never an error.\<close>

definition Expand :: "environ \<Rightarrow> string \<Rightarrow> goerr + string" where
  "Expand env input = Inr (expand_env env input)"

section \<open>Reflection\<close>

text \<open>
  The kinds of values the traversals tell apart. \<open>RSlice\<close> and \<open>RAnyMap\<close> are kinds that neither
  changes; a map whose elements are structs comes with the fields of a zero element.
\<close>

datatype 'v rval =
    RString string
  | RInt int
  | RFloat f64
  | RBool bool
  | RSecretString string
  | RSecretData string
  | RSlice "string list option"
  | RAnyMap "(string \<times> 'v) list option"
  | RStruct "'v rfield list"
  | RStructMap "'v rfield list" "(string \<times> 'v rfield list) list option"
and 'v rfield = RField (rf_name: string) (rf_tag: string) (rf_val: "'v rval")

text \<open>What a secret resolver returns: a string or bytes, or a value of another type.\<close>

datatype resolved = Resolved secret | ResolvedOther string

definition SecretString_SetValue :: "resolved \<Rightarrow> goerr + string" where
  "SecretString_SetValue val = (case val of
       Resolved (SecretString v) \<Rightarrow> Inr v
     | Resolved (SecretBytes v) \<Rightarrow> Inr v
     | ResolvedOther t \<Rightarrow> Inl (plain_error (''unsupported type for SecretString: '' @ t)))"

definition SecretData_SetValue :: "resolved \<Rightarrow> goerr + string" where
  "SecretData_SetValue val = (case val of
       Resolved (SecretString v) \<Rightarrow> Inr v
     | Resolved (SecretBytes v) \<Rightarrow> Inr v
     | ResolvedOther t \<Rightarrow> Inl (plain_error (''unsupported type for SecretData: '' @ t)))"

definition is_secret_uri :: "string \<Rightarrow> bool" where
  "is_secret_uri uri \<longleftrightarrow> prefix ''file://'' uri \<or> prefix ''env://'' uri"

definition resolve_field :: "(string \<Rightarrow> goerr + resolved) \<Rightarrow> (resolved \<Rightarrow> goerr + string) \<Rightarrow> string \<Rightarrow> goerr + string" where
  "resolve_field resolver setValue uri =
     (if is_secret_uri uri then bind_res (resolver uri) setValue else Inr uri)"

text \<open>The traversal goes into structs only.\<close>

fun resolveSecrets :: "(string \<Rightarrow> goerr + resolved) \<Rightarrow> 'v rfield list \<Rightarrow> goerr + 'v rfield list" where
  "resolveSecrets resolver [] = Inr []"
| "resolveSecrets resolver (RField n t v # fs) =
     bind_res (case v of
         RSecretString uri \<Rightarrow> bind_res (resolve_field resolver SecretString_SetValue uri) (\<lambda>s. Inr (RSecretString s))
       | RSecretData uri \<Rightarrow> bind_res (resolve_field resolver SecretData_SetValue uri) (\<lambda>s. Inr (RSecretData s))
       | RStruct gs \<Rightarrow> bind_res (resolveSecrets resolver gs) (\<lambda>gs'. Inr (RStruct gs'))
       | _ \<Rightarrow> Inr v)
     (\<lambda>v'. bind_res (resolveSecrets resolver fs) (\<lambda>fs'. Inr (RField n t v' # fs')))"

text \<open>\<open>setField\<close>: a field that cannot be set, or is of another kind, stays and is no error.\<close>

definition setField :: "(string \<Rightarrow> goerr + f64) \<Rightarrow> bool \<Rightarrow> 'v rval \<Rightarrow> string \<Rightarrow> goerr + 'v rval" where
  "setField parseFloat canSet v value =
     (if \<not> canSet then Inr v
      else (case v of
          RString s \<Rightarrow> Inr (RString value)
        | RSecretString s \<Rightarrow> Inr (RSecretString value)
        | RInt i \<Rightarrow> bind_res (ParseInt value) (\<lambda>i'. Inr (RInt i'))
        | RFloat f \<Rightarrow> bind_res (parseFloat value) (\<lambda>f'. Inr (RFloat f'))
        | RBool b \<Rightarrow> bind_res (ParseBool value) (\<lambda>b'. Inr (RBool b'))
        | _ \<Rightarrow> Inr v))"

definition tagged :: "string \<Rightarrow> bool" where
  "tagged t \<longleftrightarrow> t \<noteq> '''' \<and> t \<noteq> ''-''"

fun setStructFieldFromEnv ::
  "(string \<Rightarrow> goerr + f64) \<Rightarrow> bool \<Rightarrow> 'v rfield list \<Rightarrow> string \<Rightarrow> string \<Rightarrow> goerr + 'v rfield list" where
  "setStructFieldFromEnv parseFloat canSet [] fieldName value = Inr []"
| "setStructFieldFromEnv parseFloat canSet (RField n t v # fs) fieldName value =
     (if tagged t \<and> EqualFold t fieldName
      then bind_res (setField parseFloat canSet v value) (\<lambda>v'. Inr (RField n t v' # fs))
      else bind_res (setStructFieldFromEnv parseFloat canSet fs fieldName value) (\<lambda>fs'. Inr (RField n t v # fs')))"

text \<open>
  An element that \<open>MapIndex\<close> returns is not addressable, so its fields cannot be set; a new one can.
  No prefix has an equals sign in it.
\<close>

fun loadMapOfStructsFromEnv :: "(string \<Rightarrow> goerr + f64) \<Rightarrow> environ \<Rightarrow> string \<Rightarrow> 'v rfield list \<Rightarrow>
    (string \<times> 'v rfield list) list \<Rightarrow> goerr + (string \<times> 'v rfield list) list" where
  "loadMapOfStructsFromEnv parseFloat [] pre zero m = Inr m"
| "loadMapOfStructsFromEnv parseFloat ((var, value) # env) pre zero m =
     (if \<not> prefix pre var then loadMapOfStructsFromEnv parseFloat env pre zero m
      else (case str_split (CHR ''_'') (drop (length pre) var) of
          k # n # ns \<Rightarrow>
            (let mapKey = to_lower k; fieldName = str_join ''_'' (n # ns);
                 old = gm_get m mapKey;
                 elem = (case old of None \<Rightarrow> zero | Some fs \<Rightarrow> fs)
             in bind_res (setStructFieldFromEnv parseFloat (old = None) elem fieldName value)
                  (\<lambda>elem'. loadMapOfStructsFromEnv parseFloat env pre zero (gm_put mapKey elem' m)))
        | _ \<Rightarrow> loadMapOfStructsFromEnv parseFloat env pre zero m))"

definition env_name :: "string \<Rightarrow> string \<Rightarrow> string" where
  "env_name pre t = to_upper (pre @ t)"

definition env_field_error :: "string \<Rightarrow> string \<Rightarrow> goerr \<Rightarrow> goerr" where
  "env_field_error n var e = wrapf (''failed to set field '' @ quoted n @ '' from env var '' @ quoted var @ '': '') e"

fun loadStructFromEnv :: "(string \<Rightarrow> goerr + f64) \<Rightarrow> environ \<Rightarrow> string \<Rightarrow> 'v rfield list \<Rightarrow> goerr + 'v rfield list" where
  "loadStructFromEnv parseFloat env pre [] = Inr []"
| "loadStructFromEnv parseFloat env pre (RField n t v # fs) =
     bind_res
      (if \<not> tagged t then Inr v
       else (case v of
           RStruct gs \<Rightarrow> bind_res (loadStructFromEnv parseFloat env (env_name pre t @ ''_'') gs) (\<lambda>gs'. Inr (RStruct gs'))
         | RStructMap zero m \<Rightarrow>
             bind_res (loadMapOfStructsFromEnv parseFloat env (env_name pre t @ ''_'') zero
                 (case m of None \<Rightarrow> [] | Some es \<Rightarrow> es))
               (\<lambda>m'. Inr (RStructMap zero (Some m')))
         | _ \<Rightarrow> (case LookupEnv env (env_name pre t) of
               None \<Rightarrow> Inr v
             | Some value \<Rightarrow> (case setField parseFloat True v value of
                   Inl e \<Rightarrow> Inl (env_field_error n (env_name pre t) e) | Inr v' \<Rightarrow> Inr v'))))
      (\<lambda>v'. bind_res (loadStructFromEnv parseFloat env pre fs) (\<lambda>fs'. Inr (RField n t v' # fs')))"

section \<open>What reflection sees of the configuration\<close>

definition retry_fields :: "RetryConfig_core \<Rightarrow> 'v rfield list" where
  "retry_fields c = [
     RField ''MaxAttempts'' ''max_attempts'' (RInt (rc_MaxAttempts c)),
     RField ''InitialInterval'' ''initial_interval'' (RInt (rc_InitialInterval c)),
     RField ''MaxInterval'' ''max_interval'' (RInt (rc_MaxInterval c)),
     RField ''Factor'' ''factor'' (RFloat (rc_Factor c)),
     RField ''CircuitBreakerThreshold'' ''circuit_breaker_threshold'' (RInt (rc_CircuitBreakerThreshold c)),
     RField ''CircuitBreakerResetInterval'' ''circuit_breaker_reset_interval'' (RInt (rc_CircuitBreakerResetInterval c))]"

definition item_retry_fields :: "ItemRetryConfig_core \<Rightarrow> 'v rfield list" where
  "item_retry_fields c = [
     RField ''MaxAttempts'' ''max_attempts'' (RInt (irc_MaxAttempts c)),
     RField ''InitialInterval'' ''initial_interval'' (RInt (irc_InitialInterval c)),
     RField ''RetryableExceptions'' ''retryable_exceptions'' (RSlice (irc_RetryableExceptions c))]"

definition item_skip_fields :: "ItemSkipConfig_core \<Rightarrow> 'v rfield list" where
  "item_skip_fields c = [
     RField ''SkipLimit'' ''skip_limit'' (RInt (isc_SkipLimit c)),
     RField ''SkippableExceptions'' ''skippable_exceptions'' (RSlice (isc_SkippableExceptions c))]"

definition batch_fields :: "BatchConfig \<Rightarrow> 'v rfield list" where
  "batch_fields c = [
     RField ''PollingIntervalSeconds'' ''polling_interval_seconds'' (RInt (bc_PollingIntervalSeconds c)),
     RField ''JobName'' ''job_name'' (RString (bc_JobName c)),
     RField ''Retry'' ''retry'' (RStruct (retry_fields (bc_Retry c))),
     RField ''ChunkSize'' ''chunk_size'' (RInt (bc_ChunkSize c)),
     RField ''ItemRetry'' ''item_retry'' (RStruct (item_retry_fields (bc_ItemRetry c))),
     RField ''ItemSkip'' ''item_skip'' (RStruct (item_skip_fields (bc_ItemSkip c))),
     RField ''StepExecutorRef'' ''step_executor_ref'' (RString (bc_StepExecutorRef c)),
     RField ''MetricsAsyncBufferSize'' ''metrics_async_buffer_size'' (RInt (bc_MetricsAsyncBufferSize c))]"

definition system_fields :: "SystemConfig \<Rightarrow> 'v rfield list" where
  "system_fields c = [
     RField ''Timezone'' ''timezone'' (RString (sys_Timezone c)),
     RField ''Logging'' ''logging'' (RStruct [
       RField ''Level'' ''level'' (RString (lc_Level (sys_Logging c))),
       RField ''Format'' ''format'' (RString (lc_Format (sys_Logging c)))])]"

definition surfin_fields :: "'v SurfinConfig \<Rightarrow> 'v rfield list" where
  "surfin_fields c = [
     RField ''Batch'' ''batch'' (RStruct (batch_fields (sf_Batch c))),
     RField ''System'' ''system'' (RStruct (system_fields (sf_System c))),
     RField ''Infrastructure'' ''infrastructure'' (RStruct [
       RField ''JobRepositoryDBRef'' ''job_repository_db_ref'' (RString (inf_JobRepositoryDBRef (sf_Infrastructure c)))]),
     RField ''Security'' ''security'' (RStruct [
       RField ''MaskedParameterKeys'' ''masked_parameter_keys'' (RSlice (scc_MaskedParameterKeys (sf_Security c)))]),
     RField ''AdapterConfigs'' ''adapter'' (RAnyMap (sf_AdapterConfigs c))]"

definition config_fields :: "'v Config \<Rightarrow> 'v rfield list" where
  "config_fields c = [
     RField ''Surfin'' ''surfin'' (RStruct (surfin_fields (cf_Surfin c))),
     RField ''EmbeddedConfig'' ''-'' (RSlice (map_option (\<lambda>b. [b]) (cf_EmbeddedConfig c)))]"

text \<open>The configuration whose fields these are.\<close>

fun as_int :: "'v rval \<Rightarrow> int" where "as_int (RInt i) = i" | "as_int _ = 0"
fun as_str :: "'v rval \<Rightarrow> string" where "as_str (RString s) = s" | "as_str _ = []"
fun as_float :: "'v rval \<Rightarrow> f64" where "as_float (RFloat f) = f" | "as_float _ = Fin 0"
fun as_slice :: "'v rval \<Rightarrow> string list option" where "as_slice (RSlice s) = s" | "as_slice _ = None"
fun as_map :: "'v rval \<Rightarrow> (string \<times> 'v) list option" where "as_map (RAnyMap m) = m" | "as_map _ = None"
fun as_fields :: "'v rval \<Rightarrow> 'v rfield list" where "as_fields (RStruct fs) = fs" | "as_fields _ = []"

abbreviation fld_at :: "'v rfield list \<Rightarrow> nat \<Rightarrow> 'v rval" where
  "fld_at fs i \<equiv> rf_val (fs ! i)"

definition fields_retry :: "'v rfield list \<Rightarrow> RetryConfig_core" where
  "fields_retry fs = \<lparr>rc_MaxAttempts = as_int (fld_at fs 0), rc_InitialInterval = as_int (fld_at fs 1),
     rc_MaxInterval = as_int (fld_at fs 2), rc_Factor = as_float (fld_at fs 3),
     rc_CircuitBreakerThreshold = as_int (fld_at fs 4), rc_CircuitBreakerResetInterval = as_int (fld_at fs 5)\<rparr>"

definition fields_batch :: "'v rfield list \<Rightarrow> BatchConfig" where
  "fields_batch fs = \<lparr>bc_PollingIntervalSeconds = as_int (fld_at fs 0), bc_JobName = as_str (fld_at fs 1),
     bc_Retry = fields_retry (as_fields (fld_at fs 2)), bc_ChunkSize = as_int (fld_at fs 3),
     bc_ItemRetry = (let gs = as_fields (fld_at fs 4) in \<lparr>irc_MaxAttempts = as_int (fld_at gs 0),
       irc_InitialInterval = as_int (fld_at gs 1), irc_RetryableExceptions = as_slice (fld_at gs 2)\<rparr>),
     bc_ItemSkip = (let gs = as_fields (fld_at fs 5) in
       \<lparr>isc_SkipLimit = as_int (fld_at gs 0), isc_SkippableExceptions = as_slice (fld_at gs 1)\<rparr>),
     bc_StepExecutorRef = as_str (fld_at fs 6), bc_MetricsAsyncBufferSize = as_int (fld_at fs 7)\<rparr>"

definition fields_surfin :: "'v rfield list \<Rightarrow> 'v SurfinConfig" where
  "fields_surfin fs = \<lparr>sf_Batch = fields_batch (as_fields (fld_at fs 0)),
     sf_System = (let gs = as_fields (fld_at fs 1) in \<lparr>sys_Timezone = as_str (fld_at gs 0),
       sys_Logging = (let hs = as_fields (fld_at gs 1) in \<lparr>lc_Level = as_str (fld_at hs 0), lc_Format = as_str (fld_at hs 1)\<rparr>)\<rparr>),
     sf_Infrastructure = \<lparr>inf_JobRepositoryDBRef = as_str (fld_at (as_fields (fld_at fs 2)) 0)\<rparr>,
     sf_Security = \<lparr>scc_MaskedParameterKeys = as_slice (fld_at (as_fields (fld_at fs 3)) 0)\<rparr>,
     sf_AdapterConfigs = as_map (fld_at fs 4)\<rparr>"

definition fields_config :: "'v rfield list \<Rightarrow> 'v Config" where
  "fields_config fs = \<lparr>cf_Surfin = fields_surfin (as_fields (fld_at fs 0)),
     cf_EmbeddedConfig = map_option concat (as_slice (fld_at fs 1))\<rparr>"

lemmas fields_defs = retry_fields_def item_retry_fields_def item_skip_fields_def batch_fields_def system_fields_def
  surfin_fields_def config_fields_def
lemmas of_fields_defs = fields_retry_def fields_batch_def fields_surfin_def fields_config_def

lemma fields_retry_fields [simp]: "fields_retry (retry_fields c) = c"
  by (cases c) (simp add: retry_fields_def fields_retry_def)

lemma fields_batch_fields [simp]: "fields_batch (batch_fields c) = c"
  by (intro BatchConfig.equality ItemRetryConfig_core.equality ItemSkipConfig_core.equality)
    (simp_all add: batch_fields_def fields_batch_def item_retry_fields_def item_skip_fields_def)

lemma fields_surfin_fields [simp]: "fields_surfin (surfin_fields c) = c"
  by (intro SurfinConfig.equality SystemConfig.equality LoggingConfig.equality InfrastructureConfig.equality
      SecurityConfig.equality) (simp_all add: surfin_fields_def fields_surfin_def system_fields_def)

lemma fields_config_fields [simp]: "fields_config (config_fields c) = c"
  by (intro Config.equality) (simp_all add: config_fields_def fields_config_def option.map_comp comp_def option.map_ident)

section \<open>Loading\<close>

definition config_error :: "string \<Rightarrow> goerr \<Rightarrow> goerr" where
  "config_error t e = NewBatchError ''config'' t (Some e) False False"

definition wrap_config :: "string \<Rightarrow> goerr + 'a \<Rightarrow> goerr + 'a" where
  "wrap_config t r = (case r of Inl e \<Rightarrow> Inl (config_error t e) | Inr a \<Rightarrow> Inr a)"

text \<open>The libraries: the \<open>.env\<close> file, the YAML decoder, the secret resolver and \<open>strconv.ParseFloat\<close>.\<close>

record 'v config_lib =
  cl_dotenv :: "string option \<Rightarrow> environ \<Rightarrow> environ"
  cl_unmarshal :: "string \<Rightarrow> goerr + 'v Config"
  cl_resolver :: "string \<Rightarrow> goerr + resolved"
  cl_parseFloat :: "string \<Rightarrow> goerr + f64"

definition loadConfig :: "'v config_lib \<Rightarrow> environ \<Rightarrow> string \<Rightarrow> string \<Rightarrow> goerr + 'v Config" where
  "loadConfig L env0 envFilePath embedded =
     (let env = cl_dotenv L (if envFilePath \<noteq> '''' then Some envFilePath else None) env0 in
      bind_res (wrap_config ''failed to expand environment variables in embedded config'' (Expand env embedded)) (\<lambda>expanded.
      bind_res (wrap_config ''failed to unmarshal expanded embedded config'' (cl_unmarshal L expanded)) (\<lambda>yaml.
      bind_res (wrap_config ''failed to resolve secrets in config'' (resolveSecrets (cl_resolver L) (config_fields yaml))) (\<lambda>fs.
      let cfg = mergeConfig NewConfig (fields_config fs) in
      bind_res (wrap_config ''failed to load config from environment variables''
          (loadStructFromEnv (cl_parseFloat L) env '''' (config_fields cfg))) (\<lambda>gs.
      Inr (fields_config gs))))))"

text \<open>The result, and the global configuration, which is set before the classes are checked.\<close>

definition NewConfigProvider :: "'v config_lib \<Rightarrow> registry \<Rightarrow> environ \<Rightarrow> string \<Rightarrow> string \<Rightarrow> 'v Config option \<Rightarrow>
    (goerr + 'v Config) \<times> 'v Config option" where
  "NewConfigProvider L reg env envFilePath embedded global = (case loadConfig L env envFilePath embedded of
       Inl e \<Rightarrow> (Inl (config_error ''failed to load config from environment variables'' e), global)
     | Inr cfg \<Rightarrow> (case validateExceptionClasses reg cfg of
           Some e \<Rightarrow> (Inl (config_error ''failed to validate configured exception classes'' e), Some cfg)
         | None \<Rightarrow> (Inr cfg, Some cfg)))"

end
