(* ===== verification/Config_Correct.thy ===== *)
theory Config_Correct
  imports Config_Loader Mem_Repository
begin

text \<open>
  What the loader makes of the defaults, the YAML and the environment (\<open>Config_Loader\<close>): the layers
  of every setting, the traversals that change nothing, and the check of the exception classes.
\<close>

section \<open>One field of a struct\<close>

text \<open>A setting and the environment variable that may override it.\<close>

definition env_over :: "(string \<Rightarrow> goerr + 'a) \<Rightarrow> environ \<Rightarrow> string \<Rightarrow> 'a \<Rightarrow> goerr + 'a" where
  "env_over parse env var old = (case LookupEnv env var of None \<Rightarrow> Inr old | Some v \<Rightarrow> parse v)"

lemma load_Nil: "loadStructFromEnv P env pre [] = Inr gs \<longleftrightarrow> gs = []"
  by auto

lemma load_int: "tagged t \<Longrightarrow> loadStructFromEnv P env pre (RField n t (RInt i) # fs) = Inr gs \<longleftrightarrow>
    (\<exists>i' fs'. env_over ParseInt env (env_name pre t) i = Inr i' \<and> loadStructFromEnv P env pre fs = Inr fs'
      \<and> gs = RField n t (RInt i') # fs')"
  by (auto simp: bind_res_Inr_iff env_over_def setField_def split: option.splits sum.splits)

lemma load_float: "tagged t \<Longrightarrow> loadStructFromEnv P env pre (RField n t (RFloat i) # fs) = Inr gs \<longleftrightarrow>
    (\<exists>i' fs'. env_over P env (env_name pre t) i = Inr i' \<and> loadStructFromEnv P env pre fs = Inr fs'
      \<and> gs = RField n t (RFloat i') # fs')"
  by (auto simp: bind_res_Inr_iff env_over_def setField_def split: option.splits sum.splits)

lemma load_string: "tagged t \<Longrightarrow> loadStructFromEnv P env pre (RField n t (RString s) # fs) = Inr gs \<longleftrightarrow>
    (\<exists>s' fs'. env_over Inr env (env_name pre t) s = Inr s' \<and> loadStructFromEnv P env pre fs = Inr fs'
      \<and> gs = RField n t (RString s') # fs')"
  by (auto simp: bind_res_Inr_iff env_over_def setField_def split: option.splits sum.splits)

lemma load_slice: "loadStructFromEnv P env pre (RField n t (RSlice s) # fs) = Inr gs \<longleftrightarrow>
    (\<exists>fs'. loadStructFromEnv P env pre fs = Inr fs' \<and> gs = RField n t (RSlice s) # fs')"
  by (auto simp: bind_res_Inr_iff setField_def split: option.splits sum.splits)

lemma load_any_map: "loadStructFromEnv P env pre (RField n t (RAnyMap m) # fs) = Inr gs \<longleftrightarrow>
    (\<exists>fs'. loadStructFromEnv P env pre fs = Inr fs' \<and> gs = RField n t (RAnyMap m) # fs')"
  by (auto simp: bind_res_Inr_iff setField_def split: option.splits sum.splits)

lemma load_struct: "tagged t \<Longrightarrow> loadStructFromEnv P env pre (RField n t (RStruct hs) # fs) = Inr gs \<longleftrightarrow>
    (\<exists>hs' fs'. loadStructFromEnv P env (env_name pre t @ ''_'') hs = Inr hs' \<and> loadStructFromEnv P env pre fs = Inr fs'
      \<and> gs = RField n t (RStruct hs') # fs')"
  by (auto simp: bind_res_Inr_iff)

declare loadStructFromEnv.simps [simp del]

lemmas load_fields = load_Nil load_int load_float load_string load_slice load_any_map load_struct

lemma env_names:
  "env_name '''' ''surfin'' = ''SURFIN''"
  "env_name ''SURFIN_'' ''batch'' = ''SURFIN_BATCH''"
  "env_name ''SURFIN_'' ''system'' = ''SURFIN_SYSTEM''"
  "env_name ''SURFIN_'' ''infrastructure'' = ''SURFIN_INFRASTRUCTURE''"
  "env_name ''SURFIN_'' ''security'' = ''SURFIN_SECURITY''"
  "env_name ''SURFIN_BATCH_'' ''polling_interval_seconds'' = ''SURFIN_BATCH_POLLING_INTERVAL_SECONDS''"
  "env_name ''SURFIN_BATCH_'' ''job_name'' = ''SURFIN_BATCH_JOB_NAME''"
  "env_name ''SURFIN_BATCH_'' ''retry'' = ''SURFIN_BATCH_RETRY''"
  "env_name ''SURFIN_BATCH_'' ''chunk_size'' = ''SURFIN_BATCH_CHUNK_SIZE''"
  "env_name ''SURFIN_BATCH_'' ''item_retry'' = ''SURFIN_BATCH_ITEM_RETRY''"
  "env_name ''SURFIN_BATCH_'' ''item_skip'' = ''SURFIN_BATCH_ITEM_SKIP''"
  "env_name ''SURFIN_BATCH_'' ''step_executor_ref'' = ''SURFIN_BATCH_STEP_EXECUTOR_REF''"
  "env_name ''SURFIN_BATCH_'' ''metrics_async_buffer_size'' = ''SURFIN_BATCH_METRICS_ASYNC_BUFFER_SIZE''"
  "env_name ''SURFIN_BATCH_RETRY_'' ''max_attempts'' = ''SURFIN_BATCH_RETRY_MAX_ATTEMPTS''"
  "env_name ''SURFIN_BATCH_RETRY_'' ''initial_interval'' = ''SURFIN_BATCH_RETRY_INITIAL_INTERVAL''"
  "env_name ''SURFIN_BATCH_RETRY_'' ''max_interval'' = ''SURFIN_BATCH_RETRY_MAX_INTERVAL''"
  "env_name ''SURFIN_BATCH_RETRY_'' ''factor'' = ''SURFIN_BATCH_RETRY_FACTOR''"
  "env_name ''SURFIN_BATCH_RETRY_'' ''circuit_breaker_threshold'' = ''SURFIN_BATCH_RETRY_CIRCUIT_BREAKER_THRESHOLD''"
  "env_name ''SURFIN_BATCH_RETRY_'' ''circuit_breaker_reset_interval'' = ''SURFIN_BATCH_RETRY_CIRCUIT_BREAKER_RESET_INTERVAL''"
  "env_name ''SURFIN_BATCH_ITEM_RETRY_'' ''max_attempts'' = ''SURFIN_BATCH_ITEM_RETRY_MAX_ATTEMPTS''"
  "env_name ''SURFIN_BATCH_ITEM_RETRY_'' ''initial_interval'' = ''SURFIN_BATCH_ITEM_RETRY_INITIAL_INTERVAL''"
  "env_name ''SURFIN_BATCH_ITEM_SKIP_'' ''skip_limit'' = ''SURFIN_BATCH_ITEM_SKIP_SKIP_LIMIT''"
  "env_name ''SURFIN_SYSTEM_'' ''timezone'' = ''SURFIN_SYSTEM_TIMEZONE''"
  "env_name ''SURFIN_SYSTEM_'' ''logging'' = ''SURFIN_SYSTEM_LOGGING''"
  "env_name ''SURFIN_SYSTEM_LOGGING_'' ''level'' = ''SURFIN_SYSTEM_LOGGING_LEVEL''"
  "env_name ''SURFIN_SYSTEM_LOGGING_'' ''format'' = ''SURFIN_SYSTEM_LOGGING_FORMAT''"
  "env_name ''SURFIN_INFRASTRUCTURE_'' ''job_repository_db_ref'' = ''SURFIN_INFRASTRUCTURE_JOB_REPOSITORY_DB_REF''"
  by code_simp+

text \<open>No field of the configuration is a secret, and adapters are in a map: nothing is resolved.\<close>

lemma resolve_config_fields: "resolveSecrets R (config_fields c) = Inr (config_fields c)"
  by (simp add: fields_defs)

section \<open>The environment on the configuration\<close>

definition retry_over :: "(string \<Rightarrow> goerr + f64) \<Rightarrow> environ \<Rightarrow> RetryConfig_core \<Rightarrow> RetryConfig_core \<Rightarrow> bool" where
  "retry_over P env c c' \<longleftrightarrow>
      env_over ParseInt env ''SURFIN_BATCH_RETRY_MAX_ATTEMPTS'' (rc_MaxAttempts c) = Inr (rc_MaxAttempts c')
    \<and> env_over ParseInt env ''SURFIN_BATCH_RETRY_INITIAL_INTERVAL'' (rc_InitialInterval c) = Inr (rc_InitialInterval c')
    \<and> env_over ParseInt env ''SURFIN_BATCH_RETRY_MAX_INTERVAL'' (rc_MaxInterval c) = Inr (rc_MaxInterval c')
    \<and> env_over P env ''SURFIN_BATCH_RETRY_FACTOR'' (rc_Factor c) = Inr (rc_Factor c')
    \<and> env_over ParseInt env ''SURFIN_BATCH_RETRY_CIRCUIT_BREAKER_THRESHOLD'' (rc_CircuitBreakerThreshold c)
        = Inr (rc_CircuitBreakerThreshold c')
    \<and> env_over ParseInt env ''SURFIN_BATCH_RETRY_CIRCUIT_BREAKER_RESET_INTERVAL'' (rc_CircuitBreakerResetInterval c)
        = Inr (rc_CircuitBreakerResetInterval c')"

definition batch_over :: "(string \<Rightarrow> goerr + f64) \<Rightarrow> environ \<Rightarrow> BatchConfig \<Rightarrow> BatchConfig \<Rightarrow> bool" where
  "batch_over P env c c' \<longleftrightarrow>
      env_over ParseInt env ''SURFIN_BATCH_POLLING_INTERVAL_SECONDS'' (bc_PollingIntervalSeconds c)
        = Inr (bc_PollingIntervalSeconds c')
    \<and> env_over Inr env ''SURFIN_BATCH_JOB_NAME'' (bc_JobName c) = Inr (bc_JobName c')
    \<and> retry_over P env (bc_Retry c) (bc_Retry c')
    \<and> env_over ParseInt env ''SURFIN_BATCH_CHUNK_SIZE'' (bc_ChunkSize c) = Inr (bc_ChunkSize c')
    \<and> env_over ParseInt env ''SURFIN_BATCH_ITEM_RETRY_MAX_ATTEMPTS'' (irc_MaxAttempts (bc_ItemRetry c))
        = Inr (irc_MaxAttempts (bc_ItemRetry c'))
    \<and> env_over ParseInt env ''SURFIN_BATCH_ITEM_RETRY_INITIAL_INTERVAL'' (irc_InitialInterval (bc_ItemRetry c))
        = Inr (irc_InitialInterval (bc_ItemRetry c'))
    \<and> irc_RetryableExceptions (bc_ItemRetry c') = irc_RetryableExceptions (bc_ItemRetry c)
    \<and> env_over ParseInt env ''SURFIN_BATCH_ITEM_SKIP_SKIP_LIMIT'' (isc_SkipLimit (bc_ItemSkip c))
        = Inr (isc_SkipLimit (bc_ItemSkip c'))
    \<and> isc_SkippableExceptions (bc_ItemSkip c') = isc_SkippableExceptions (bc_ItemSkip c)
    \<and> env_over Inr env ''SURFIN_BATCH_STEP_EXECUTOR_REF'' (bc_StepExecutorRef c) = Inr (bc_StepExecutorRef c')
    \<and> env_over ParseInt env ''SURFIN_BATCH_METRICS_ASYNC_BUFFER_SIZE'' (bc_MetricsAsyncBufferSize c)
        = Inr (bc_MetricsAsyncBufferSize c')"

definition surfin_over :: "(string \<Rightarrow> goerr + f64) \<Rightarrow> environ \<Rightarrow> 'v SurfinConfig \<Rightarrow> 'v SurfinConfig \<Rightarrow> bool" where
  "surfin_over P env c c' \<longleftrightarrow> batch_over P env (sf_Batch c) (sf_Batch c')
    \<and> env_over Inr env ''SURFIN_SYSTEM_TIMEZONE'' (sys_Timezone (sf_System c)) = Inr (sys_Timezone (sf_System c'))
    \<and> env_over Inr env ''SURFIN_SYSTEM_LOGGING_LEVEL'' (lc_Level (sys_Logging (sf_System c)))
        = Inr (lc_Level (sys_Logging (sf_System c')))
    \<and> env_over Inr env ''SURFIN_SYSTEM_LOGGING_FORMAT'' (lc_Format (sys_Logging (sf_System c)))
        = Inr (lc_Format (sys_Logging (sf_System c')))
    \<and> env_over Inr env ''SURFIN_INFRASTRUCTURE_JOB_REPOSITORY_DB_REF'' (inf_JobRepositoryDBRef (sf_Infrastructure c))
        = Inr (inf_JobRepositoryDBRef (sf_Infrastructure c'))
    \<and> scc_MaskedParameterKeys (sf_Security c') = scc_MaskedParameterKeys (sf_Security c)
    \<and> sf_AdapterConfigs c' = sf_AdapterConfigs c"

lemma load_retry:
  "loadStructFromEnv P env ''SURFIN_BATCH_RETRY_'' (retry_fields c) = Inr fs \<Longrightarrow> retry_over P env c (fields_retry fs)"
  by (auto simp: retry_fields_def load_fields tagged_def env_names retry_over_def fields_retry_def)

lemma load_batch:
  "loadStructFromEnv P env ''SURFIN_BATCH_'' (batch_fields c) = Inr fs \<Longrightarrow> batch_over P env c (fields_batch fs)"
  by (auto simp: batch_fields_def item_retry_fields_def item_skip_fields_def load_fields tagged_def env_names
      batch_over_def fields_batch_def dest: load_retry)

lemma load_surfin:
  "loadStructFromEnv P env ''SURFIN_'' (surfin_fields c) = Inr fs \<Longrightarrow> surfin_over P env c (fields_surfin fs)"
  by (auto simp: surfin_fields_def system_fields_def load_fields tagged_def env_names surfin_over_def fields_surfin_def
      dest: load_batch)

lemma load_config:
  "loadStructFromEnv P env '''' (config_fields c) = Inr fs \<Longrightarrow>
     surfin_over P env (cf_Surfin c) (cf_Surfin (fields_config fs))"
  by (auto simp: config_fields_def load_fields tagged_def env_names fields_config_def dest: load_surfin)

section \<open>The layers\<close>

lemma wrap_config_Inr [simp]: "wrap_config t r = Inr a \<longleftrightarrow> r = Inr a"
  by (auto simp: wrap_config_def split: sum.splits)

lemma wrap_config_simps [simp]: "wrap_config t (Inr a) = Inr a" "wrap_config t (Inl e) = Inl (config_error t e)"
  by (simp_all add: wrap_config_def)

lemma loadConfig_eq:
  "loadConfig L env0 path embedded =
    (let env = cl_dotenv L (if path \<noteq> '''' then Some path else None) env0 in
     bind_res (wrap_config ''failed to unmarshal expanded embedded config'' (cl_unmarshal L (expand_env env embedded)))
       (\<lambda>yaml. bind_res (wrap_config ''failed to load config from environment variables''
           (loadStructFromEnv (cl_parseFloat L) env '''' (config_fields (mergeConfig NewConfig yaml))))
         (\<lambda>gs. Inr (fields_config gs))))"
  by (simp add: loadConfig_def Expand_def resolve_config_fields Let_def)


text \<open>A decoder that knows two texts, and an environment with a chunk size.\<close>

definition demo_yaml :: "string list option \<Rightarrow> string list option \<Rightarrow> nat Config" where
  "demo_yaml retryable skippable = (NewConfig :: nat Config)\<lparr>cf_Surfin := (cf_Surfin (NewConfig :: nat Config))\<lparr>
     sf_Batch := (sf_Batch (cf_Surfin (NewConfig :: nat Config)))\<lparr>bc_ChunkSize := 0,
       bc_ItemRetry := \<lparr>irc_MaxAttempts = 7, irc_InitialInterval = 0, irc_RetryableExceptions = retryable\<rparr>,
       bc_ItemSkip := \<lparr>isc_SkipLimit = 0, isc_SkippableExceptions = skippable\<rparr>\<rparr>,
     sf_System := \<lparr>sys_Timezone = '''', sys_Logging = \<lparr>lc_Level = '''', lc_Format = ''text''\<rparr>\<rparr>,
     sf_AdapterConfigs := Some [(''a'', 1), (''a'', 2)]\<rparr>\<rparr>"

definition demo_config_lib :: "string list option \<Rightarrow> string list option \<Rightarrow> nat config_lib" where
  "demo_config_lib retryable skippable = \<lparr>cl_dotenv = (\<lambda>f env. env),
     cl_unmarshal = (\<lambda>s. if s = ''x: 5'' then Inr (demo_yaml retryable skippable) else Inl io_EOF),
     cl_resolver = (\<lambda>s. Inl io_EOF), cl_parseFloat = (\<lambda>s. Inl io_EOF)\<rparr>"

definition demo_environ :: environ where
  "demo_environ = [(''V'', ''5''), (''SURFIN_BATCH_CHUNK_SIZE'', ''-12'')]"

definition demo_loaded :: "string list option \<Rightarrow> string list option \<Rightarrow> goerr + nat Config" where
  "demo_loaded retryable skippable = loadConfig (demo_config_lib retryable skippable) demo_environ '''' ''x: ${V}''"

lemma demo_loaded_ok: "\<exists>cfg. demo_loaded None None = Inr cfg"
proof -
  have "(case demo_loaded None None of Inr cfg \<Rightarrow> True | _ \<Rightarrow> False)" by code_simp
  then show ?thesis by (cases "demo_loaded None None") auto
qed


section \<open>The exception classes\<close>

text \<open>The registry of a program: that of the framework and of the repositories.\<close>

definition app_registry :: registry where
  "app_registry = init_registry @ [(''ErrJobInstanceNotFound'', ErrJobInstanceNotFound),
     (''ErrJobExecutionNotFound'', ErrJobExecutionNotFound),
     (''ErrStepExecutionNotFound'', ErrStepExecutionNotFound)]"

lemma checkExceptionClasses_None: "checkExceptionClasses reg ns t = None \<longleftrightarrow> (\<forall>n\<in>set ns. IsErrorTypeRegistered reg n)"
  by (induction reg ns t rule: checkExceptionClasses.induct) auto

lemma validate_None: "validateExceptionClasses reg cfg = None \<longleftrightarrow>
    (\<forall>ns. irc_RetryableExceptions (bc_ItemRetry (sf_Batch (cf_Surfin cfg))) = Some ns \<longrightarrow> (\<forall>n\<in>set ns. IsErrorTypeRegistered reg n))
    \<and> (\<forall>ns. isc_SkippableExceptions (bc_ItemSkip (sf_Batch (cf_Surfin cfg))) = Some ns \<longrightarrow> (\<forall>n\<in>set ns. IsErrorTypeRegistered reg n))"
proof -
  have "validateExceptionClasses reg cfg = None \<longleftrightarrow>
    (\<forall>ns. irc_RetryableExceptions (bc_ItemRetry (sf_Batch (cf_Surfin cfg))) = Some ns \<longrightarrow> checkExceptionClasses reg ns ''ItemRetry'' = None)
    \<and> (\<forall>ns. isc_SkippableExceptions (bc_ItemSkip (sf_Batch (cf_Surfin cfg))) = Some ns \<longrightarrow> checkExceptionClasses reg ns ''ItemSkip'' = None)"
    by (auto simp: validateExceptionClasses_def Let_def split: option.splits)
  then show ?thesis by (simp only: checkExceptionClasses_None)
qed

lemma provider_accepts: "fst (NewConfigProvider L reg env0 path embedded global) = Inr cfg \<longleftrightarrow>
    loadConfig L env0 path embedded = Inr cfg \<and> validateExceptionClasses reg cfg = None"
  by (auto simp: NewConfigProvider_def split: sum.splits option.splits)

lemma default_classes_unknown:
  "\<not> IsErrorTypeRegistered app_registry ''*exception.TemporaryNetworkError''"
  "\<not> IsErrorTypeRegistered app_registry ''*exception.DataConversionError''"
  by code_simp+

text \<open>
  The provider of the configuration accepts a program only if its YAML names both lists of
  exception classes and every class in them is registered: the classes of the defaults, of which
  the retryable ones begin with \<open>*exception.TemporaryNetworkError\<close> and the skippable ones with
  \<open>*exception.DataConversionError\<close>, are not.
\<close>

theorem provider_needs_lists:
  "fst (NewConfigProvider L app_registry env0 path embedded global) = Inr cfg \<longleftrightarrow>
    loadConfig L env0 path embedded = Inr cfg \<and>
    (\<exists>y rs ss. cl_unmarshal L (expand_env (cl_dotenv L (if path \<noteq> '''' then Some path else None) env0) embedded) = Inr y
      \<and> irc_RetryableExceptions (bc_ItemRetry (sf_Batch (cf_Surfin y))) = Some rs
      \<and> isc_SkippableExceptions (bc_ItemSkip (sf_Batch (cf_Surfin y))) = Some ss
      \<and> list_all (IsErrorTypeRegistered app_registry) (rs @ ss))"
proof (cases "loadConfig L env0 path embedded")
  case (Inl e)
  then show ?thesis by (simp add: NewConfigProvider_def)
next
  case (Inr c)
  obtain y gs where y: "cl_unmarshal L (expand_env (cl_dotenv L (if path \<noteq> '''' then Some path else None) env0) embedded) = Inr y"
      "loadStructFromEnv (cl_parseFloat L) (cl_dotenv L (if path \<noteq> '''' then Some path else None) env0) ''''
         (config_fields (mergeConfig NewConfig y)) = Inr gs" "c = fields_config gs"
    using Inr by (auto simp: loadConfig_eq bind_res_Inr_iff Let_def)
  have "irc_RetryableExceptions (bc_ItemRetry (sf_Batch (cf_Surfin c))) =
        (case irc_RetryableExceptions (bc_ItemRetry (sf_Batch (cf_Surfin y))) of Some ns \<Rightarrow> Some ns
         | None \<Rightarrow> Some [''*exception.TemporaryNetworkError'', ''*net.OpError'', ''context.DeadlineExceeded'', ''context.Canceled''])"
    "isc_SkippableExceptions (bc_ItemSkip (sf_Batch (cf_Surfin c))) =
        (case isc_SkippableExceptions (bc_ItemSkip (sf_Batch (cf_Surfin y))) of Some ns \<Rightarrow> Some ns
         | None \<Rightarrow> Some [''*exception.DataConversionError'', ''*json.UnmarshalTypeError''])"
    using load_config[OF y(2)] y(3)
    by (auto simp: surfin_over_def batch_over_def mergeConfig_def mergeSurfinConfig_def mergeItemRetryConfig_def
        mergeItemSkipConfig_def merge_slice_def NewConfig_def split: option.splits)
  then show ?thesis
    using Inr y(1) default_classes_unknown
    by (auto simp: provider_accepts validate_None list_all_iff split: option.splits)
qed

text \<open>With both lists in the YAML, each of a registered class, the provider accepts; with none it does not.\<close>

theorem provider_needs_lists_witness:
  "\<exists>cfg. fst (NewConfigProvider (demo_config_lib (Some [''io.EOF'']) (Some [''sql.ErrNoRows''])) app_registry
       demo_environ '''' ''x: ${V}'' None) = Inr cfg
     \<and> (\<forall>cfg. fst (NewConfigProvider (demo_config_lib None None) app_registry demo_environ '''' ''x: ${V}'' None) \<noteq> Inr cfg)"
proof -
  have d: "cl_dotenv (demo_config_lib r s) f env = env" for r s f env by (simp add: demo_config_lib_def)
  have y: "cl_unmarshal (demo_config_lib r s) (expand_env demo_environ ''x: ${V}'') = Inr (demo_yaml r s)" for r s
  proof -
    have "expand_env demo_environ ''x: ${V}'' = ''x: 5''" by code_simp
    then show ?thesis by (simp add: demo_config_lib_def)
  qed
  have z: "irc_RetryableExceptions (bc_ItemRetry (sf_Batch (cf_Surfin (demo_yaml r s)))) = r"
    "isc_SkippableExceptions (bc_ItemSkip (sf_Batch (cf_Surfin (demo_yaml r s)))) = s" for r s
    by (simp_all add: demo_yaml_def)
  have "(case demo_loaded (Some [''io.EOF'']) (Some [''sql.ErrNoRows'']) of Inr cfg \<Rightarrow> True | _ \<Rightarrow> False)"
    by code_simp
  then obtain cfg where c: "demo_loaded (Some [''io.EOF'']) (Some [''sql.ErrNoRows'']) = Inr cfg"
    by (cases "demo_loaded (Some [''io.EOF'']) (Some [''sql.ErrNoRows''])") auto
  have r: "IsErrorTypeRegistered app_registry ''io.EOF''" "IsErrorTypeRegistered app_registry ''sql.ErrNoRows''"
    by code_simp+
  have "fst (NewConfigProvider (demo_config_lib (Some [''io.EOF'']) (Some [''sql.ErrNoRows''])) app_registry
       demo_environ '''' ''x: ${V}'' None) = Inr cfg"
    unfolding provider_needs_lists d y using c by (simp add: demo_loaded_def z r)
  moreover have "fst (NewConfigProvider (demo_config_lib None None) app_registry demo_environ '''' ''x: ${V}'' None) \<noteq> Inr cfg" for cfg
    unfolding provider_needs_lists d y by (simp add: z)
  ultimately show ?thesis by blast
qed

section \<open>Maps of structs\<close>

text \<open>
  A variable for an entry that is there already changes nothing: so of two variables for a new entry
  only the first counts.
\<close>

lemma unsettable_fields_kept: "setStructFieldFromEnv P False fs n v = Inr fs"
proof (induction fs)
  case (Cons f fs)
  then show ?case by (cases f) (simp add: setField_def)
qed simp

lemma variable_of_entry_ignored:
  assumes "prefix pre var" "str_split (CHR ''_'') (drop (length pre) var) = k # n # ns" "gm_get m (to_lower k) = Some fs"
  shows "loadMapOfStructsFromEnv P ((var, value) # env) pre zero m
    = loadMapOfStructsFromEnv P env pre zero (gm_put (to_lower k) fs m)"
  using assms by (simp add: unsettable_fields_kept Let_def)

end
