(* ===== verification/Migration_Tasklet.thy ===== *)
theory Migration_Tasklet
  imports Connections_Correct Config_Loader Batch_Model
begin

text \<open>
  The migration of a database schema: \<open>component/tasklet/migration\<close>, its migrator and its tasklet,
  and what a run of the tasklet leaves in the provider of GORM.

  \<open>golang-migrate\<close>, the file systems and \<open>mapstructure\<close> are third parties': what they return and the
  world they leave are the functions of \<open>migrate_lib\<close>. The configuration is that of
  \<open>Storage_Providers\<close>, the providers are those of \<open>Gorm_Provider\<close>. Log lines are left out.
\<close>

section \<open>The migrator\<close>

datatype driver_kind = PostgresDriver | MySQLDriver | SQLiteDriver

text \<open>\<open>ml_Type\<close> and \<open>ml_GetSQLDB\<close> are the methods of a connection.\<close>

record ('h, 'q, 'fs, 'src, 'drv, 'm, 'w) migrate_lib =
  ml_Type :: "'h \<Rightarrow> string"
  ml_GetSQLDB :: "'h \<Rightarrow> goerr + 'q"
  ml_iofs :: "'fs \<Rightarrow> string \<Rightarrow> goerr + 'src"
  ml_WithInstance :: "driver_kind \<Rightarrow> 'q \<Rightarrow> string \<Rightarrow> 'w \<Rightarrow> (goerr + 'drv) \<times> 'w"
  ml_NewWithInstance :: "'src \<Rightarrow> string \<Rightarrow> 'drv \<Rightarrow> 'w \<Rightarrow> (goerr + 'm) \<times> 'w"
  ml_Up :: "'m \<Rightarrow> 'w \<Rightarrow> goerr option \<times> 'w"
  ml_Version :: "'m \<Rightarrow> 'w \<Rightarrow> goerr option \<times> 'w"
  ml_CloseInstance :: "'m \<Rightarrow> 'w \<Rightarrow> 'w"
  ml_ErrNoChange :: goerr

definition getDatabaseDriver :: "('h, 'q, 'fs, 'src, 'drv, 'm, 'w) migrate_lib \<Rightarrow> string \<Rightarrow> 'q \<Rightarrow> string \<Rightarrow> 'w \<Rightarrow>
    (goerr + 'drv) \<times> 'w" where
  "getDatabaseDriver ml dbType q tableName w =
     (if dbType = ''postgres'' \<or> dbType = ''redshift'' then ml_WithInstance ml PostgresDriver q tableName w
      else if dbType = ''mysql'' then ml_WithInstance ml MySQLDriver q tableName w
      else if dbType = ''sqlite'' then ml_WithInstance ml SQLiteDriver q tableName w
      else (Inl (plain_error (''unsupported database type for migration: '' @ dbType)), w))"

definition getMigrateInstance :: "('h, 'q, 'fs, 'src, 'drv, 'm, 'w) migrate_lib \<Rightarrow> 'h \<Rightarrow> 'fs \<Rightarrow> string \<Rightarrow> string \<Rightarrow> 'w \<Rightarrow>
    (goerr + 'm) \<times> 'w" where
  "getMigrateInstance ml conn fs path tableName w = (case ml_GetSQLDB ml conn of
       Inl e \<Rightarrow> (Inl (wrapf ''failed to get underlying sql.DB: '' e), w)
     | Inr q \<Rightarrow> (case ml_iofs ml fs path of
           Inl e \<Rightarrow> (Inl (wrapf (''failed to create iofs source driver for path '' @ path @ '': '') e), w)
         | Inr src \<Rightarrow> (case getDatabaseDriver ml (ml_Type ml conn) q tableName w of
               (Inl e, w1) \<Rightarrow> (Inl (wrapf ''failed to create database driver: '' e), w1)
             | (Inr drv, w1) \<Rightarrow> (case ml_NewWithInstance ml src (ml_Type ml conn) drv w1 of
                   (Inl e, w2) \<Rightarrow> (Inl (wrapf ''failed to create migrate instance: '' e), w2)
                 | (Inr m, w2) \<Rightarrow> (Inr m, w2)))))"

text \<open>The instance is closed on every return that has made it.\<close>

definition runMigration :: "('h, 'q, 'fs, 'src, 'drv, 'm, 'w) migrate_lib \<Rightarrow> 'h \<Rightarrow> 'fs \<Rightarrow> string \<Rightarrow> string \<Rightarrow> string \<Rightarrow> 'w \<Rightarrow>
    goerr option \<times> 'w" where
  "runMigration ml conn fs path command tableName w = (case getMigrateInstance ml conn fs path tableName w of
       (Inl e, w1) \<Rightarrow> (Some (wrapf ''failed to get migrate instance: '' e), w1)
     | (Inr m, w1) \<Rightarrow>
         if command = ''up'' then (case ml_Up ml m w1 of
             (migrateErr, w2) \<Rightarrow> (case migrateErr of
                 None \<Rightarrow> (None, ml_CloseInstance ml m w2)
               | Some e \<Rightarrow>
                   if e = ml_ErrNoChange ml then (None, ml_CloseInstance ml m w2)
                   else (case ml_Version ml m w2 of (versionErr, w3) \<Rightarrow>
                     (Some (wrapf (''migration failed for command '' @ quoted command @ '' (DB: '' @ ml_Type ml conn
                        @ '', Path: '' @ path @ ''): '') e), ml_CloseInstance ml m w3))))
         else (Some (plain_error (''unsupported migration command: '' @ command)), ml_CloseInstance ml m w1))"

definition Migrator_Up :: "('h, 'q, 'fs, 'src, 'drv, 'm, 'w) migrate_lib \<Rightarrow> 'h \<Rightarrow> 'fs \<Rightarrow> string \<Rightarrow> string \<Rightarrow> 'w \<Rightarrow>
    goerr option \<times> 'w" where
  "Migrator_Up ml conn fs path tableName w = runMigration ml conn fs path ''up'' tableName w"

definition Migrator_Down :: "('h, 'q, 'fs, 'src, 'drv, 'm, 'w) migrate_lib \<Rightarrow> 'h \<Rightarrow> 'fs \<Rightarrow> string \<Rightarrow> string \<Rightarrow> 'w \<Rightarrow>
    goerr option \<times> 'w" where
  "Migrator_Down ml conn fs path tableName w = runMigration ml conn fs path ''down'' tableName w"

section \<open>The tasklet\<close>

record MigrationTasklet =
  mt_dbConnectionName :: string
  mt_fsName :: string
  mt_migrationDir :: string
  mt_command :: string
  mt_isFrameworkMigration :: bool
  mt_ec :: ec

definition tasklet_error :: "string \<Rightarrow> goerr" where
  "tasklet_error t = NewBatchErrorf ''migration_tasklet'' t []"

text \<open>A property that is a string, or missing, which is the empty one.\<close>

definition string_prop :: "(string, gval) gomap \<Rightarrow> string \<Rightarrow> goerr + string" where
  "string_prop properties k = (case gm_get properties k of
       None \<Rightarrow> Inr ''''
     | Some (VStr s) \<Rightarrow> Inr s
     | Some _ \<Rightarrow> Inl (tasklet_error (''Property '' @ quoted k @ '' must be a string for MigrationTasklet'')))"

definition required_prop :: "(string, gval) gomap \<Rightarrow> string \<Rightarrow> goerr + string" where
  "required_prop properties k = bind_res (string_prop properties k) (\<lambda>s.
     if s = '''' then Inl (tasklet_error (''Property '' @ quoted k @ '' is required for MigrationTasklet'')) else Inr s)"

definition framework_prop :: "(string, gval) gomap \<Rightarrow> goerr + bool" where
  "framework_prop properties = (case gm_get properties ''isFramework'' of
       None \<Rightarrow> Inr False
     | Some (VStr s) \<Rightarrow> Inr (to_lower s = ''true'')
     | Some (VBool b) \<Rightarrow> Inr b
     | Some _ \<Rightarrow> Inl (tasklet_error (''Property '' @ quoted ''isFramework'' @ '' must be a boolean or string ''
         @ quoted ''true'' @ ''/'' @ quoted ''false'' @ '' for MigrationTasklet'')))"

definition NewMigrationTasklet :: "(string, gval) gomap \<Rightarrow> goerr + MigrationTasklet" where
  "NewMigrationTasklet properties =
     bind_res (required_prop properties ''dbRef'') (\<lambda>db.
     bind_res (required_prop properties ''migrationFSName'') (\<lambda>fs.
     bind_res (string_prop properties ''migrationDir'') (\<lambda>dir.
     bind_res (string_prop properties ''command'') (\<lambda>command.
     bind_res (framework_prop properties) (\<lambda>fw.
     Inr \<lparr>mt_dbConnectionName = db, mt_fsName = fs, mt_migrationDir = dir,
       mt_command = (if command = '''' then ''up'' else command), mt_isFrameworkMigration = fw, mt_ec = NewExecutionContext\<rparr>)))))"

definition Migration_SetExecutionContext :: "ec \<Rightarrow> MigrationTasklet \<Rightarrow> MigrationTasklet" where
  "Migration_SetExecutionContext e t = t\<lparr>mt_ec := e\<rparr>"

definition Migration_GetExecutionContext :: "MigrationTasklet \<Rightarrow> ec" where
  "Migration_GetExecutionContext t = mt_ec t"

definition failed_with :: "goerr \<Rightarrow> ExitStatus \<times> goerr option" where
  "failed_with e = (ExitFailed, Some e)"

definition migration_table :: "MigrationTasklet \<Rightarrow> string" where
  "migration_table t = (if mt_isFrameworkMigration t then ''batch_framework_migrations'' else ''batch_app_migrations'')"

definition migration_dir :: "('h \<Rightarrow> string) \<Rightarrow> 'h \<Rightarrow> MigrationTasklet \<Rightarrow> string" where
  "migration_dir ty conn t = (if mt_migrationDir t = '''' then ty conn else mt_migrationDir t)"

text \<open>The steps after the connection is there; the providers have not changed since.\<close>

definition migrate_on :: "('h, 'q, 'fs, 'src, 'drv, 'm, 'w) migrate_lib \<Rightarrow> (string, 'fs) gomap \<Rightarrow>
    (string \<Rightarrow> 'w \<Rightarrow> ((goerr + 'h) \<times> 'w) option) \<Rightarrow> MigrationTasklet \<Rightarrow> 'h \<Rightarrow> 'w \<Rightarrow>
    ((ExitStatus \<times> goerr option) \<times> 'w) option" where
  "migrate_on ml allFS reconnect t conn w =
     (if ml_Type ml conn = ''dummy'' then Some ((ExitCompleted, None), w)
      else (case gm_get allFS (mt_fsName t) of
          None \<Rightarrow> Some (failed_with (NewBatchErrorf ''migration_tasklet'' (''Migration FS '' @ quoted ''%s'' @ '' not found'')
            [ArgStr (mt_fsName t)]), w)
        | Some fs \<Rightarrow>
            if mt_command t = ''up'' then
              (case Migrator_Up ml conn fs (migration_dir (ml_Type ml) conn t) (migration_table t) w of
                (Some e, w1) \<Rightarrow> Some (failed_with (NewBatchError ''migration_tasklet'' (''Migration '' @ quoted ''up'' @ '' failed'')
                  (Some e) False False), w1)
              | (None, w1) \<Rightarrow> (case reconnect (mt_dbConnectionName t) w1 of
                    None \<Rightarrow> None
                  | Some (Inl e, w2) \<Rightarrow> Some (failed_with (NewBatchError ''migration_tasklet''
                      ''Failed to force reconnect DB connection after migration'' (Some e) False False), w2)
                  | Some (Inr conn', w2) \<Rightarrow> Some ((ExitCompleted, None), w2)))
            else if mt_command t = ''down'' then
              Some (failed_with (NewBatchErrorf ''migration_tasklet'' (''Migration command '' @ quoted ''%s'' @ '' is not yet supported'')
                [ArgStr (mt_command t)]), w)
            else Some (failed_with (NewBatchErrorf ''migration_tasklet'' ''Unknown migration command: %s''
                [ArgStr (mt_command t)]), w)))"

text \<open>
  The errors of the decoder and of the reconnection are the last argument of \<open>NewBatchErrorf\<close>,
  which takes them off: the verbs that should print them have no argument.
\<close>

definition Migration_Execute :: "('h, 'q, 'fs, 'src, 'drv, 'm, 'w) migrate_lib \<Rightarrow> ('y, DatabaseConfig) adapter_cfg \<Rightarrow>
    (string, ('h, 'w) DBProvider) gomap \<Rightarrow> (string, 'fs) gomap \<Rightarrow> MigrationTasklet \<Rightarrow> 'w \<Rightarrow>
    ((ExitStatus \<times> goerr option) \<times> 'w) option" where
  "Migration_Execute ml c providers allFS t w = (case cfg_section c ''database'' of
       None \<Rightarrow> Some (failed_with (tasklet_error (''no '' @ quoted ''database''
         @ '' adapter configuration found in Surfin.AdapterConfigs'')), w)
     | Some m \<Rightarrow> (case gm_get m (mt_dbConnectionName t) of
           None \<Rightarrow> Some (failed_with (NewBatchErrorf ''migration_tasklet'' (''Database configuration '' @ quoted ''%s''
             @ '' not found in adapter.database configs'') [ArgStr (mt_dbConnectionName t)]), w)
         | Some raw \<Rightarrow> (case st_Decode c raw of
               Inl e \<Rightarrow> Some (failed_with (NewBatchErrorf ''migration_tasklet'' (''Failed to decode database config for ''
                 @ quoted ''%s'' @ '': %w'') [ArgStr (mt_dbConnectionName t), ArgErr e]), w)
             | Inr cfg \<Rightarrow>
                 if trim_space (to_lower (dc_Type cfg)) = ''dummy'' then Some ((ExitCompleted, None), w)
                 else (case select_provider providers (dc_Type cfg) of
                     None \<Rightarrow> Some (failed_with (NewBatchErrorf ''migration_tasklet'' (''DBProvider for type '' @ quoted ''%s''
                       @ '' not found'') [ArgStr (dc_Type cfg)]), w)
                   | Some p \<Rightarrow> (case dp_ForceReconnect p (mt_dbConnectionName t) w of
                         None \<Rightarrow> None
                       | Some (Inl e, w1) \<Rightarrow> Some (failed_with (NewBatchErrorf ''migration_tasklet''
                           (''Failed to force reconnect DB connection '' @ quoted ''%s'' @ '' before migration: %v'')
                           [ArgStr (mt_dbConnectionName t), ArgErr e]), w1)
                       | Some (Inr conn, w1) \<Rightarrow> migrate_on ml allFS (dp_ForceReconnect p) t conn w1)))))"

section \<open>On the provider of GORM\<close>

text \<open>A migration library as it acts on the state of a pool: it has no access to its map and lock.\<close>

definition on_world :: "('w \<Rightarrow> 'r \<times> 'w) \<Rightarrow> ('h, 'w) pool \<Rightarrow> 'r \<times> ('h, 'w) pool" where
  "on_world f s = (case f (pl_world s) of (r, w) \<Rightarrow> (r, s\<lparr>pl_world := w\<rparr>))"

definition pool_migrate :: "(('d, 'q) GormDBAdapter, 'q, 'fs, 'src, 'drv, 'm, 'w) migrate_lib \<Rightarrow>
    (('d, 'q) GormDBAdapter, 'q, 'fs, 'src, 'drv, 'm, (('d, 'q) GormDBAdapter, 'w) pool) migrate_lib" where
  "pool_migrate ml = \<lparr>ml_Type = gd_dbType, ml_GetSQLDB = GetSQLDB, ml_iofs = ml_iofs ml,
     ml_WithInstance = (\<lambda>k q n. on_world (ml_WithInstance ml k q n)),
     ml_NewWithInstance = (\<lambda>src ty drv. on_world (ml_NewWithInstance ml src ty drv)),
     ml_Up = (\<lambda>m. on_world (ml_Up ml m)), ml_Version = (\<lambda>m. on_world (ml_Version ml m)),
     ml_CloseInstance = (\<lambda>m s. s\<lparr>pl_world := ml_CloseInstance ml m (pl_world s)\<rparr>), ml_ErrNoChange = ml_ErrNoChange ml\<rparr>"

definition same_pool :: "('h, 'w) pool \<Rightarrow> ('h, 'w) pool \<Rightarrow> bool" where
  "same_pool s s' \<longleftrightarrow> pl_conns s' = pl_conns s \<and> pl_readers s' = pl_readers s \<and> pl_writer s' = pl_writer s"

lemma same_pool_world [simp]: "same_pool s (s\<lparr>pl_world := w\<rparr>)" "same_pool s s"
  by (simp_all add: same_pool_def)

lemma same_pool_trans: "same_pool s s1 \<Longrightarrow> same_pool s1 s2 \<Longrightarrow> same_pool s s2"
  by (simp add: same_pool_def)

lemma same_pool_unlocked: "same_pool s s' \<Longrightarrow> unlocked s' = unlocked s"
  by (simp add: same_pool_def unlocked_def)

lemma on_world_same: "on_world f s = (r, s') \<Longrightarrow> same_pool s s'"
  by (auto simp: on_world_def split: prod.splits)

lemma pool_migrate_simps [simp]:
  "ml_Type (pool_migrate ml) = gd_dbType"
  "ml_WithInstance (pool_migrate ml) k q n = on_world (ml_WithInstance ml k q n)"
  "ml_NewWithInstance (pool_migrate ml) src ty drv = on_world (ml_NewWithInstance ml src ty drv)"
  "ml_Up (pool_migrate ml) m = on_world (ml_Up ml m)"
  "ml_Version (pool_migrate ml) m = on_world (ml_Version ml m)"
  "ml_CloseInstance (pool_migrate ml) m s = s\<lparr>pl_world := ml_CloseInstance ml m (pl_world s)\<rparr>"
  by (simp_all add: pool_migrate_def)

lemma driver_same_pool: "getDatabaseDriver (pool_migrate ml) ty q n s = (r, s') \<Longrightarrow> same_pool s s'"
  by (auto simp: getDatabaseDriver_def on_world_same split: if_splits)

lemma instance_same_pool: "getMigrateInstance (pool_migrate ml) conn fs path n s = (r, s') \<Longrightarrow> same_pool s s'"
  by (auto simp: getMigrateInstance_def same_pool_def dest!: driver_same_pool on_world_same split: sum.splits prod.splits)

lemma Up_same_pool: "Migrator_Up (pool_migrate ml) conn fs path n s = (err, s') \<Longrightarrow> same_pool s s'"
  by (auto simp: Migrator_Up_def runMigration_def same_pool_def dest!: instance_same_pool on_world_same
      split: sum.splits prod.splits option.splits if_splits)

text \<open>A migration library is asked for nothing when the command is not \<open>up\<close>, but for the type of the connection.\<close>

lemma not_up_no_migration:
  assumes "mt_command t \<noteq> ''up''"
  shows "migrate_on (pool_migrate ml) allFS rc t conn s =
    (if gd_dbType conn = ''dummy'' then Some ((ExitCompleted, None), s)
     else Some (failed_with (if gm_get allFS (mt_fsName t) = None
         then NewBatchErrorf ''migration_tasklet'' (''Migration FS '' @ quoted ''%s'' @ '' not found'') [ArgStr (mt_fsName t)]
         else if mt_command t = ''down''
         then NewBatchErrorf ''migration_tasklet'' (''Migration command '' @ quoted ''%s'' @ '' is not yet supported'') [ArgStr (mt_command t)]
         else NewBatchErrorf ''migration_tasklet'' ''Unknown migration command: %s'' [ArgStr (mt_command t)]), s))"
  using assms by (auto simp: migrate_on_def split: option.splits)

text \<open>
  The migrations of the directory went through on a connection, in the table of their kind, and the
  provider keeps a connection made after them.
\<close>

definition migrated :: "('d, 'q, 'w) gorm_lib \<Rightarrow> 'y BaseProvider \<Rightarrow>
    (('d, 'q) GormDBAdapter, 'q, 'fs, 'src, 'drv, 'm, 'w) migrate_lib \<Rightarrow> (string, 'fs) gomap \<Rightarrow> MigrationTasklet \<Rightarrow>
    ('d, 'q) GormDBAdapter \<Rightarrow> (('d, 'q) GormDBAdapter, 'w) pool \<Rightarrow> bool" where
  "migrated g p ml allFS t conn s' \<longleftrightarrow> mt_command t = ''up'' \<and>
     (\<exists>fs s1 s2 h. gm_get allFS (mt_fsName t) = Some fs
        \<and> Migrator_Up (pool_migrate ml) conn fs (migration_dir gd_dbType conn t) (migration_table t) s1 = (None, s2)
        \<and> Gorm_ForceReconnect g p (mt_dbConnectionName t) s2 = Some (Inr h, s')
        \<and> gm_get (pl_conns s') (mt_dbConnectionName t) = Some h)"

lemma migrate_on_outcome:
  assumes "unlocked s1"
  shows "\<exists>st err s'. migrate_on (pool_migrate ml) allFS (Gorm_ForceReconnect g p) t conn s1 = Some ((st, err), s') \<and> unlocked s'
    \<and> (st = ExitCompleted \<and> err = None \<or> st = ExitFailed \<and> err \<noteq> None)
    \<and> (st = ExitCompleted \<longrightarrow> gd_dbType conn = ''dummy'' \<or> migrated g p ml allFS t conn s')"
proof (cases "gd_dbType conn = ''dummy'' \<or> mt_command t \<noteq> ''up'' \<or> gm_get allFS (mt_fsName t) = None")
  case True
  then show ?thesis using assms by (auto simp: migrate_on_def failed_with_def split: option.splits)
next
  case False
  then obtain fs where fs: "gm_get allFS (mt_fsName t) = Some fs" by auto
  obtain err s2 where up: "Migrator_Up (pool_migrate ml) conn fs (migration_dir gd_dbType conn t) (migration_table t) s1 = (err, s2)"
    by fastforce
  have u2: "unlocked s2" using same_pool_unlocked[OF Up_same_pool[OF up]] assms by simp
  obtain r3 s3 where r3: "Gorm_ForceReconnect g p (mt_dbConnectionName t) s2 = Some (r3, s3)" "unlocked s3"
    "case r3 of Inr h \<Rightarrow> gm_get (pl_conns s3) (mt_dbConnectionName t) = Some h
          \<and> (\<exists>w w'. gorm_create g p (mt_dbConnectionName t) w = (Inr h, w'))
       | Inl e \<Rightarrow> pl_conns s3 = pl_conns s2"
    using Gorm_ForceReconnect_returns[OF u2] by blast
  show ?thesis
  proof (cases "\<exists>h. err = None \<and> r3 = Inr h")
    case True
    then obtain h where h: "err = None" "r3 = Inr h" by blast
    then have "migrated g p ml allFS t conn s3"
      unfolding migrated_def using False fs up r3 by (intro conjI exI[of _ fs] exI[of _ s1] exI[of _ s2] exI[of _ h]) auto
    then show ?thesis using False fs up r3(1,2) h by (simp add: migrate_on_def)
  next
    case no: False
    then show ?thesis using False fs up u2 r3(1,2)
      by (cases err; cases r3) (simp_all add: migrate_on_def failed_with_def)
  qed
qed

text \<open>
  C38: A run of the migration tasklet on the provider of GORM always returns and leaves the provider
  unlocked; it reports success without an error or failure with one. It succeeds only for a dummy
  database, or when the command is \<open>up\<close>, the file system is there, the migrations of the directory
  went through in the table of their kind on a connection made for them, and the provider has then
  made another one, which is the one it keeps.
\<close>

theorem migration_outcome:
  assumes "unlocked s" "providers = NewGormDBConnectionResolver [base_db_provider g p]"
  shows "\<exists>st err s'. Migration_Execute (pool_migrate ml) c providers allFS t s = Some ((st, err), s') \<and> unlocked s'
    \<and> (st = ExitCompleted \<and> err = None \<or> st = ExitFailed \<and> err \<noteq> None)
    \<and> (st = ExitCompleted \<longrightarrow>
        (\<exists>m y cfg. cfg_section c ''database'' = Some m \<and> gm_get m (mt_dbConnectionName t) = Some y \<and> st_Decode c y = Inr cfg
          \<and> (trim_space (to_lower (dc_Type cfg)) = ''dummy''
             \<or> (\<exists>conn s1. Gorm_ForceReconnect g p (mt_dbConnectionName t) s = Some (Inr conn, s1)
                 \<and> (gd_dbType conn = ''dummy'' \<or> migrated g p ml allFS t conn s')))))"
proof (cases "\<exists>m y cfg P. cfg_section c ''database'' = Some m \<and> gm_get m (mt_dbConnectionName t) = Some y
    \<and> st_Decode c y = Inr cfg \<and> trim_space (to_lower (dc_Type cfg)) \<noteq> ''dummy''
    \<and> select_provider providers (dc_Type cfg) = Some P")
  case False
  then show ?thesis using assms(1)
    by (auto simp: Migration_Execute_def failed_with_def split: option.splits sum.splits)
next
  case True
  let ?n = "mt_dbConnectionName t"
  obtain m y cfg P where x: "cfg_section c ''database'' = Some m" "gm_get m ?n = Some y" "st_Decode c y = Inr cfg"
    "trim_space (to_lower (dc_Type cfg)) \<noteq> ''dummy''" "select_provider providers (dc_Type cfg) = Some P"
    using True by blast
  have P: "dp_ForceReconnect P = Gorm_ForceReconnect g p"
    using x(5) assms(2) by (auto simp: select_provider_def NewGormDBConnectionResolver_def base_db_provider_def
        split: option.splits if_splits)
  obtain r s1 where r: "Gorm_ForceReconnect g p ?n s = Some (r, s1)" "unlocked s1"
    using Gorm_ForceReconnect_returns[OF assms(1)] by blast
  show ?thesis
  proof (cases r)
    case (Inl e)
    then show ?thesis using x r P by (simp add: Migration_Execute_def failed_with_def)
  next
    case conn: (Inr conn)
    then have "Migration_Execute (pool_migrate ml) c providers allFS t s =
        migrate_on (pool_migrate ml) allFS (Gorm_ForceReconnect g p) t conn s1"
      using x r(1) P by (simp add: Migration_Execute_def)
    then show ?thesis using migrate_on_outcome[OF r(2), of ml allFS g p t conn] x r(1) conn by auto
  qed
qed

text \<open>A migration that changes nothing, and one that fails, on the demonstration provider.\<close>

definition demo_migrate :: "goerr option \<Rightarrow> ((nat, nat) GormDBAdapter, nat, nat, nat, nat, nat, nat) migrate_lib" where
  "demo_migrate err = \<lparr>ml_Type = gd_dbType, ml_GetSQLDB = GetSQLDB, ml_iofs = (\<lambda>fs path. Inr fs),
     ml_WithInstance = (\<lambda>k q n w. (Inr q, w)), ml_NewWithInstance = (\<lambda>src ty drv w. (Inr drv, w)),
     ml_Up = (\<lambda>m w. (err, w)), ml_Version = (\<lambda>m w. (None, w)), ml_CloseInstance = (\<lambda>m w. w),
     ml_ErrNoChange = plain_error ''no change''\<rparr>"

definition demo_migration :: MigrationTasklet where
  "demo_migration = \<lparr>mt_dbConnectionName = ''p'', mt_fsName = ''app'', mt_migrationDir = [], mt_command = ''up'',
     mt_isFrameworkMigration = False, mt_ec = []\<rparr>"

lemmas migration_eval = Migration_Execute_def migrate_on_def Migrator_Up_def runMigration_def getMigrateInstance_def
  getDatabaseDriver_def failed_with_def demo_migrate_def demo_migration_def pool_migrate_def on_world_def
  migration_dir_def migration_table_def NewGormDBConnectionResolver_def select_provider_def base_db_provider_def
  GetSQLDB_def Gorm_ForceReconnect_def Lock_def Unlock_def Let_def createAndStoreConnection_def
  create_and_store_def new_pool_def pool_put_def GormDB_Close_def gorm_defs demo_conn_defs

lemma not_dummy: "trim_space (to_lower ''postgres'') \<noteq> ''dummy''"
  by code_simp

lemma demo_new_tasklet:
  "NewMigrationTasklet [(''dbRef'', VStr ''p''), (''migrationFSName'', VStr ''app'')] = Inr demo_migration"
  by (simp add: NewMigrationTasklet_def required_prop_def string_prop_def framework_prop_def demo_migration_def
      NewExecutionContext_def)

theorem migration_outcome_witness:
  "\<exists>s'. Migration_Execute (pool_migrate (demo_migrate (Some (plain_error ''no change'')))) demo_adapters
       (NewGormDBConnectionResolver [base_db_provider demo_gorm demo_base]) [(''app'', 0)] demo_migration (new_pool 0)
       = Some ((ExitCompleted, None), s')
     \<and> unlocked s' \<and> migrated demo_gorm demo_base (demo_migrate (Some (plain_error ''no change''))) [(''app'', 0)] demo_migration
         (the (gm_get (pl_conns s') ''p'')\<lparr>gd_db := 0, gd_sqlDB := Some 0\<rparr>) s'"
proof -
  let ?ml = "demo_migrate (Some (plain_error ''no change''))" and ?s = "new_pool 0 :: ((nat, nat) GormDBAdapter, nat) pool"
  let ?ps = "NewGormDBConnectionResolver [base_db_provider demo_gorm demo_base]"
  have u: "unlocked ?s" by (simp add: unlocked_def new_pool_def)
  have e: "\<exists>s'. Migration_Execute (pool_migrate ?ml) demo_adapters ?ps [(''app'', 0)] demo_migration ?s = Some ((ExitCompleted, None), s')
      \<and> the (gm_get (pl_conns s') ''p'')\<lparr>gd_db := 0, gd_sqlDB := Some 0\<rparr> = (demo_conn ''p'')\<lparr>gd_cfg := demo_db ''postgres'', gd_dbType := ''postgres''\<rparr>"
    by (simp add: migration_eval not_dummy)
  then obtain s' where s': "Migration_Execute (pool_migrate ?ml) demo_adapters ?ps [(''app'', 0)] demo_migration ?s = Some ((ExitCompleted, None), s')"
      "the (gm_get (pl_conns s') ''p'')\<lparr>gd_db := 0, gd_sqlDB := Some 0\<rparr> = (demo_conn ''p'')\<lparr>gd_cfg := demo_db ''postgres'', gd_dbType := ''postgres''\<rparr>"
    by blast
  have f: "\<exists>s1. Gorm_ForceReconnect demo_gorm demo_base ''p'' ?s =
      Some (Inr ((demo_conn ''p'')\<lparr>gd_cfg := demo_db ''postgres'', gd_dbType := ''postgres''\<rparr>), s1)"
    by (simp add: migration_eval)
  have c: "gm_get m ''p'' = Some y \<Longrightarrow> cfg_section demo_adapters ''database'' = Some m \<Longrightarrow> st_Decode demo_adapters y = Inr cfg \<Longrightarrow>
      dc_Type cfg = ''postgres''" for m y cfg
    by (auto simp: gorm_defs demo_conn_defs)
  have n: "mt_dbConnectionName demo_migration = ''p''" by (simp add: demo_migration_def)
  have d: "gd_dbType ((demo_conn ''p'')\<lparr>gd_cfg := demo_db ''postgres'', gd_dbType := ''postgres''\<rparr>) \<noteq> ''dummy''" by simp
  show ?thesis
    using migration_outcome[OF u refl, where g = demo_gorm and p = demo_base and ml = ?ml and c = demo_adapters
        and allFS = "[(''app'', 0)]" and t = demo_migration] s' f c not_dummy d unfolding n by fastforce
qed

text \<open>A migration that fails leaves the reconnected provider and reports the failure.\<close>

lemma demo_migration_fails:
  "\<exists>e s'. Migration_Execute (pool_migrate (demo_migrate (Some io_EOF))) demo_adapters
       (NewGormDBConnectionResolver [base_db_provider demo_gorm demo_base]) [(''app'', 0)] demo_migration (new_pool 0)
       = Some ((ExitFailed, Some e), s')"
  by (simp add: migration_eval not_dummy io_EOF_def plain_error_def)

end
