(* ===== verification/Parquet_Writer.thy ===== *)
theory Parquet_Writer
  imports File_Paths Config_Loader
begin

text \<open>
  The writer of Parquet files (\<open>component/step/writer/parquet_writer.go\<close>): items are kept in memory
  by their partition until they are flushed into one file for each partition.

  The Parquet encoder, \<open>mapstructure\<close>, \<open>multierror\<close>, the storage connection, the clock, the UUIDs
  and the random numbers are the functions of \<open>parquet_lib\<close> on a world. Log lines are left out.
\<close>

section \<open>Names\<close>

text \<open>\<open>strings.ReplaceAll\<close> for a text to replace that is not empty.\<close>

function replace_all :: "string \<Rightarrow> string \<Rightarrow> string \<Rightarrow> string" where
  "replace_all s old new =
     (if old = [] \<or> s = [] then s
      else if prefix old s then new @ replace_all (drop (length old) s) old new
      else hd s # replace_all (tl s) old new)"
  by pat_completeness auto

termination
  by (relation "measure (\<lambda>(s, old, new). length s)") (auto simp: diff_less)

declare replace_all.simps [simp del]

record ParquetWriterConfig =
  pwc_StorageRef :: string
  pwc_OutputBaseDir :: string
  pwc_CompressionType :: string
  pwc_FileNameFormat :: string
  pwc_TableName :: string

datatype compression = Gzip | Uncompressed | Snappy

text \<open>
  \<open>pq_Encode\<close> is what \<open>Write\<close> and \<open>Close\<close> of an encoder return and the bytes it has written,
  \<open>pq_Stamp\<close> the time, a UUID and a random number below ten thousand.
\<close>

record ('p, 'i, 'b, 'h, 'w) parquet_lib =
  pq_Decode :: "'p \<Rightarrow> goerr + ParquetWriterConfig"
  pq_Resolve :: "string \<Rightarrow> 'w \<Rightarrow> (goerr + 'h) \<times> 'w"
  pq_Encode :: "compression \<Rightarrow> 'i list \<Rightarrow> goerr option \<times> goerr option \<times> 'b"
  pq_multierror :: "goerr list \<Rightarrow> goerr"
  pq_Stamp :: "'w \<Rightarrow> (string \<times> string \<times> nat) \<times> 'w"
  pq_Upload :: "'h \<Rightarrow> string \<Rightarrow> string \<Rightarrow> 'b \<Rightarrow> string \<Rightarrow> 'w \<Rightarrow> goerr option \<times> 'w"

record ('i, 'h) ParquetWriter =
  pw_name :: string
  pw_config :: ParquetWriterConfig
  pw_partitionKeyFunc :: "'i \<Rightarrow> goerr + string"
  pw_storageConn :: "'h option"
  pw_bufferedItems :: "(string, 'i list) gomap"
  pw_stepExecutionContext :: "ec option"
  pw_partitionSequence :: "(string, int) gomap"

definition pw_error :: "string \<Rightarrow> goerr option \<Rightarrow> goerr" where
  "pw_error t e = NewBatchError ''writer'' t e False False"

definition NewParquetWriter :: "('p, 'i, 'b, 'h, 'w) parquet_lib \<Rightarrow> string \<Rightarrow> 'p \<Rightarrow> ('i \<Rightarrow> goerr + string) \<Rightarrow>
    goerr + ('i, 'h) ParquetWriter" where
  "NewParquetWriter L name properties keyOf = (case pq_Decode L properties of
       Inl e \<Rightarrow> Inl (pw_error (''Failed to decode ParquetWriter properties for '' @ quoted name @ '': '' @ Error_text e) (Some e))
     | Inr config \<Rightarrow>
         if pwc_StorageRef config = ''''
         then Inl (pw_error (''ParquetWriter '' @ quoted name @ '' requires '' @ quoted ''storageRef'' @ '' property to be set.'') None)
         else if pwc_OutputBaseDir config = ''''
         then Inl (pw_error (''ParquetWriter '' @ quoted name @ '' requires '' @ quoted ''outputBaseDir'' @ '' property to be set.'') None)
         else Inr \<lparr>pw_name = name,
           pw_config = (if pwc_CompressionType config = '''' then config\<lparr>pwc_CompressionType := ''SNAPPY''\<rparr> else config),
           pw_partitionKeyFunc = keyOf, pw_storageConn = None, pw_bufferedItems = [],
           pw_stepExecutionContext = None, pw_partitionSequence = []\<rparr>)"

definition NewParquetWriterBuilder :: "('p, 'i, 'b, 'h, 'w) parquet_lib \<Rightarrow> ('i \<Rightarrow> goerr + string) \<Rightarrow> 'p \<Rightarrow>
    goerr + ('i, 'h) ParquetWriter" where
  "NewParquetWriterBuilder L keyOf properties = NewParquetWriter L '''' properties keyOf"

definition Parquet_IsIdempotent :: "('i, 'h) ParquetWriter \<Rightarrow> bool" where
  "Parquet_IsIdempotent pw = False"

text \<open>The files of earlier items keep their numbers: the sequences are not reset.\<close>

definition Parquet_Open :: "('p, 'i, 'b, 'h, 'w) parquet_lib \<Rightarrow> ec \<Rightarrow> ('i, 'h) ParquetWriter \<Rightarrow> 'w \<Rightarrow>
    goerr option \<times> ('i, 'h) ParquetWriter \<times> 'w" where
  "Parquet_Open L e pw w = (case pq_Resolve L (pwc_StorageRef (pw_config pw)) w of
       (Inl err, w1) \<Rightarrow> (Some (pw_error (''Failed to resolve storage connection '' @ quoted (pwc_StorageRef (pw_config pw))
         @ '' for ParquetWriter '' @ quoted (pw_name pw) @ '': '' @ Error_text err) (Some err)), pw, w1)
     | (Inr conn, w1) \<Rightarrow>
         (None, pw\<lparr>pw_storageConn := Some conn, pw_stepExecutionContext := Some e, pw_bufferedItems := []\<rparr>, w1))"

definition Parquet_Update :: "('i, 'h) ParquetWriter \<Rightarrow> goerr option" where
  "Parquet_Update pw = None"

section \<open>Buffering\<close>

definition buffer_item :: "string \<Rightarrow> 'i \<Rightarrow> (string, 'i list) gomap \<Rightarrow> (string, 'i list) gomap" where
  "buffer_item k x m = gm_put k ((case gm_get m k of None \<Rightarrow> [] | Some xs \<Rightarrow> xs) @ [x]) m"

text \<open>The items before one that has no partition stay in the buffer.\<close>

fun Parquet_Write :: "'i list \<Rightarrow> ('i, 'h) ParquetWriter \<Rightarrow> goerr option \<times> ('i, 'h) ParquetWriter" where
  "Parquet_Write [] pw = (None, pw)"
| "Parquet_Write (x # xs) pw = (case pw_partitionKeyFunc pw x of
       Inl e \<Rightarrow> (Some (pw_error (''Failed to get partition key for item in ParquetWriter '' @ quoted (pw_name pw)
         @ '': '' @ Error_text e) (Some e)), pw)
     | Inr k \<Rightarrow> Parquet_Write xs (pw\<lparr>pw_bufferedItems := buffer_item k x (pw_bufferedItems pw)\<rparr>))"

section \<open>Flushing\<close>

definition compression_of :: "string \<Rightarrow> compression" where
  "compression_of t = (if to_upper t = ''GZIP'' then Gzip else if to_upper t = ''NONE'' then Uncompressed else Snappy)"

definition sequence_no :: "(string, int) gomap \<Rightarrow> string \<Rightarrow> int" where
  "sequence_no m k = (case gm_get m k of None \<Rightarrow> 0 | Some n \<Rightarrow> n)"

definition file_name :: "ParquetWriterConfig \<Rightarrow> string \<times> string \<times> nat \<Rightarrow> int \<Rightarrow> string" where
  "file_name c stamp n = (case stamp of (time, uuid, rand) \<Rightarrow>
     (let f0 = (if pwc_FileNameFormat c = '''' then ''#{tablename}_#{timestamp}_#{uuid}.parquet'' else pwc_FileNameFormat c);
          f1 = replace_all f0 ''#{tablename}'' (pwc_TableName c);
          f2 = replace_all f1 ''#{timestamp}'' time;
          f3 = replace_all f2 ''#{uuid}'' uuid;
          f4 = replace_all f3 ''#{random}'' (nat_str rand)
      in replace_all f4 ''#{sequence}'' (int_str n)))"

definition generateFileName :: "('p, 'i, 'b, 'h, 'w) parquet_lib \<Rightarrow> string \<Rightarrow> ('i, 'h) ParquetWriter \<Rightarrow> 'w \<Rightarrow>
    string \<times> ('i, 'h) ParquetWriter \<times> 'w" where
  "generateFileName L k pw w = (case pq_Stamp L w of (stamp, w1) \<Rightarrow>
     (let n = sequence_no (pw_partitionSequence pw) k in
      (file_name (pw_config pw) stamp n, pw\<lparr>pw_partitionSequence := gm_put k (n + 1) (pw_partitionSequence pw)\<rparr>, w1)))"

text \<open>One partition: the errors it adds. \<open>None\<close>: the writer has no connection, and panics.\<close>

definition flush_partition :: "('p, 'i, 'b, 'h, 'w) parquet_lib \<Rightarrow> compression \<Rightarrow> string \<times> 'i list \<Rightarrow>
    ('i, 'h) ParquetWriter \<times> 'w \<Rightarrow> (goerr list \<times> ('i, 'h) ParquetWriter \<times> 'w) option" where
  "flush_partition L cm part s = (case (part, s) of ((k, items), (pw, w)) \<Rightarrow>
     (case pq_Encode L cm items of (writeErr, closeErr, bytes) \<Rightarrow>
        (case (writeErr, closeErr) of
          (None, None) \<Rightarrow> (case generateFileName L k pw w of (name, pw1, w1) \<Rightarrow>
             (case pw_storageConn pw of
               None \<Rightarrow> None
             | Some conn \<Rightarrow> (case pq_Upload L conn '''' (filepath_Join [pwc_OutputBaseDir (pw_config pw), k, name]) bytes
                    ''application/x-parquet'' w1 of
                 (None, w2) \<Rightarrow> Some ([], pw1, w2)
               | (Some e, w2) \<Rightarrow> Some ([e], pw1, w2))))
        | (we, ce) \<Rightarrow> Some ((case we of None \<Rightarrow> [] | Some e \<Rightarrow> [e]) @ (case ce of None \<Rightarrow> [] | Some e \<Rightarrow> [e]), pw, w))))"

fun flush_partitions :: "('p, 'i, 'b, 'h, 'w) parquet_lib \<Rightarrow> compression \<Rightarrow> (string \<times> 'i list) list \<Rightarrow>
    ('i, 'h) ParquetWriter \<times> 'w \<Rightarrow> (goerr list \<times> ('i, 'h) ParquetWriter \<times> 'w) option" where
  "flush_partitions L cm [] s = Some ([], s)"
| "flush_partitions L cm (p # ps) s = (case flush_partition L cm p s of
     None \<Rightarrow> None
   | Some (errs, s1) \<Rightarrow> (case flush_partitions L cm ps s1 of
         None \<Rightarrow> None | Some (errs', s2) \<Rightarrow> Some (errs @ errs', s2)))"

text \<open>
  \<open>Flush\<close>, on the buffer in the order of the map. The buffer is emptied whatever has happened.
\<close>

definition Parquet_Flush :: "('p, 'i, 'b, 'h, 'w) parquet_lib \<Rightarrow> ('i, 'h) ParquetWriter \<Rightarrow> 'w \<Rightarrow>
    (goerr option \<times> ('i, 'h) ParquetWriter \<times> 'w) option" where
  "Parquet_Flush L pw w =
     (if pw_bufferedItems pw = [] then Some (None, pw, w)
      else (case flush_partitions L (compression_of (pwc_CompressionType (pw_config pw))) (pw_bufferedItems pw) (pw, w) of
          None \<Rightarrow> None
        | Some (errs, pw1, w1) \<Rightarrow> Some (if errs = [] then None else Some (pq_multierror L errs),
            pw1\<lparr>pw_bufferedItems := []\<rparr>, w1)))"

definition Parquet_Close :: "('i, 'h) ParquetWriter \<Rightarrow> goerr option" where
  "Parquet_Close pw = None"

definition Parquet_SetExecutionContext :: "ec \<Rightarrow> ('i, 'h) ParquetWriter \<Rightarrow> goerr option \<times> ('i, 'h) ParquetWriter" where
  "Parquet_SetExecutionContext e pw = (None, pw\<lparr>pw_stepExecutionContext := Some e\<rparr>)"

definition Parquet_GetExecutionContext :: "('i, 'h) ParquetWriter \<Rightarrow> goerr + ec option" where
  "Parquet_GetExecutionContext pw = Inr (pw_stepExecutionContext pw)"

definition Parquet_GetTargetResourceName :: "('i, 'h) ParquetWriter \<Rightarrow> string" where
  "Parquet_GetTargetResourceName pw = pwc_StorageRef (pw_config pw)"

definition Parquet_GetResourcePath :: "('i, 'h) ParquetWriter \<Rightarrow> string" where
  "Parquet_GetResourcePath pw = pwc_OutputBaseDir (pw_config pw)"

end
