(* ===== verification/Parquet_Export.thy ===== *)
theory Parquet_Export
  imports Parquet_Writer Item_Components Batch_Model
begin

text \<open>
  The export of a table into Parquet files (\<open>component/tasklet/generic/parquet_export_tasklet.go\<close>):
  the partition of an item, how the tasklet is made and opened, and its execution, in which a
  goroutine reads rows into a channel and another takes them out, writes and flushes them.

  The decoder of the properties, and how times and values that are not strings are printed, are
  parameters. Log lines are left out.
\<close>

section \<open>The partition of an item\<close>

record PartitionDefinition =
  pd_Key :: string
  pd_Format :: string
  pd_Prefix :: string

text \<open>
  What \<open>reflect\<close> tells of a field: a \<open>time.Time\<close> or another struct, the integer type
  \<open>UnixMillis\<close>, a string, or a value of any other kind; behind a pointer or not.
\<close>

datatype ('t, 'a) field_kind = KTime 't | KStruct string | KUnixMillis int | KString string | KValue 'a

datatype ('t, 'a) item_field = PlainField "('t, 'a) field_kind" | NilPtr | PtrField "('t, 'a) field_kind"

text \<open>An item is a struct, whose flds are exported or not, or of another kind with a name.\<close>

datatype ('t, 'a) reflected = ReflStruct string "(string \<times> bool \<times> ('t, 'a) item_field) list" | ReflOther string

record ('t, 'a) fmt_lib =
  fl_time :: "string \<Rightarrow> 't \<Rightarrow> string"
  fl_unixMillis :: "int \<Rightarrow> 't"
  fl_value :: "'a \<Rightarrow> string"
  fl_sprintf :: "string \<Rightarrow> 'a \<Rightarrow> string"

definition export_error :: "string \<Rightarrow> goerr option \<Rightarrow> goerr" where
  "export_error t e = NewBatchError ''tasklet'' t e False False"

definition time_layout :: "string \<Rightarrow> string" where
  "time_layout f = (if f = '''' then ''2006-01-02T15-04-05'' else f)"

fun format_kind :: "('t, 'a) fmt_lib \<Rightarrow> PartitionDefinition \<Rightarrow> bool \<Rightarrow> ('t, 'a) field_kind \<Rightarrow> goerr + string" where
  "format_kind F d ptr (KTime t) = Inr (fl_time F (time_layout (pd_Format d)) t)"
| "format_kind F d ptr (KStruct ty) = Inl (export_error
     (''Unsupported struct type for partition key '' @ quoted (pd_Key d)
       @ (if ptr then '' (pointed to): '' @ ty @ ''. Expected *time.Time.'' else '': '' @ ty @ ''. Expected time.Time.'')) None)"
| "format_kind F d ptr (KUnixMillis ms) = Inr (fl_time F (time_layout (pd_Format d)) (fl_unixMillis F ms))"
| "format_kind F d ptr (KString s) = Inr (if pd_Format d = '''' then s else sprintf (pd_Format d) [ArgStr s])"
| "format_kind F d ptr (KValue v) = Inr (if pd_Format d = '''' then fl_value F v else fl_sprintf F (pd_Format d) v)"

fun format_field :: "('t, 'a) fmt_lib \<Rightarrow> PartitionDefinition \<Rightarrow> ('t, 'a) item_field \<Rightarrow> goerr + string" where
  "format_field F d (PlainField k) = format_kind F d False k"
| "format_field F d NilPtr = Inr ''''"
| "format_field F d (PtrField k) = format_kind F d True k"

definition partition_part :: "('t, 'a) fmt_lib \<Rightarrow> string \<Rightarrow> (string \<times> bool \<times> ('t, 'a) item_field) list \<Rightarrow> PartitionDefinition \<Rightarrow>
    goerr + string" where
  "partition_part F ty flds d = (case map_of flds (pd_Key d) of
       None \<Rightarrow> Inl (export_error (''Partition key field '' @ quoted (pd_Key d) @ '' not found in item type '' @ ty) None)
     | Some (exported, f) \<Rightarrow>
         if \<not> exported then Inl (export_error (''Partition key field '' @ quoted (pd_Key d) @ '' in item type '' @ ty
           @ '' is not exportable (unexported field)'') None)
         else bind_res (format_field F d f) (\<lambda>v.
           Inr ((if pd_Prefix d = '''' then to_lower (pd_Key d) @ ''='' else pd_Prefix d) @ v)))"

fun partition_parts :: "('t, 'a) fmt_lib \<Rightarrow> string \<Rightarrow> (string \<times> bool \<times> ('t, 'a) item_field) list \<Rightarrow> PartitionDefinition list \<Rightarrow>
    goerr + string list" where
  "partition_parts F ty flds [] = Inr []"
| "partition_parts F ty flds (d # ds) = bind_res (partition_part F ty flds d) (\<lambda>p.
     bind_res (partition_parts F ty flds ds) (\<lambda>ps. Inr (p # ps)))"

definition partitionKey :: "('t, 'a) fmt_lib \<Rightarrow> PartitionDefinition list \<Rightarrow> ('t, 'a) reflected \<Rightarrow> goerr + string" where
  "partitionKey F defs item = (case item of
       ReflOther kind \<Rightarrow> Inl (export_error (''Item type must be a struct or a pointer to a struct, got '' @ kind) None)
     | ReflStruct ty flds \<Rightarrow>
         if defs = [] then Inr ''''
         else bind_res (partition_parts F ty flds defs) (\<lambda>ps. Inr (str_join ''/'' ps)))"

section \<open>The tasklet\<close>

record ExportConfig =
  xc_DbRef :: string
  xc_StorageRef :: string
  xc_OutputBaseDir :: string
  xc_ReadBufferSize :: int
  xc_ParquetCompressionType :: string
  xc_TableName :: string
  xc_SQLSelectColumns :: string
  xc_SQLOrderBy :: string
  xc_PartitionDefinitions :: "PartitionDefinition list"
  xc_OutputFileNameFormat :: string

record ('i, 'h) ExportTasklet =
  xt_config :: ExportConfig
  xt_parquetWriter :: "('i, 'h) ParquetWriter"
  xt_stepExecutionContext :: "ec option"

definition export_required :: "(ExportConfig \<Rightarrow> string) \<Rightarrow> string \<Rightarrow> ExportConfig \<Rightarrow> goerr + ExportConfig" where
  "export_required sel n c =
     (if sel c = '''' then Inl (export_error (n @ '' is required for GenericParquetExportTasklet'') None) else Inr c)"

definition export_writer_props :: "ExportConfig \<Rightarrow> (string, gval) gomap" where
  "export_writer_props c = [(''storageRef'', VStr (xc_StorageRef c)), (''outputBaseDir'', VStr (xc_OutputBaseDir c)),
     (''compressionType'', VStr (xc_ParquetCompressionType c)), (''fileNameFormat'', VStr (xc_OutputFileNameFormat c)),
     (''tableName'', VStr (xc_TableName c))]"

text \<open>\<open>newDecoder\<close> and \<open>decode\<close> are those of \<open>mapstructure\<close>; \<open>reflOf\<close> is what reflection sees of an item.\<close>

definition NewGenericParquetExportTasklet :: "((string, gval) gomap, 'i, 'b, 'h, 'w) parquet_lib \<Rightarrow> ('t, 'a) fmt_lib \<Rightarrow>
    ('i \<Rightarrow> ('t, 'a) reflected) \<Rightarrow> goerr option \<Rightarrow> ('p \<Rightarrow> goerr + ExportConfig) \<Rightarrow> 'p \<Rightarrow> goerr + ('i, 'h) ExportTasklet" where
  "NewGenericParquetExportTasklet L F reflOf newDecoder decode properties = (case newDecoder of
       Some e \<Rightarrow> Inl (export_error (''Failed to create mapstructure decoder for GenericParquetExportTasklet: '' @ Error_text e) (Some e))
     | None \<Rightarrow> (case decode properties of
           Inl e \<Rightarrow> Inl (export_error (''Failed to decode GenericParquetExportTasklet properties: '' @ Error_text e) (Some e))
         | Inr c0 \<Rightarrow>
             bind_res (export_required xc_DbRef ''dbRef'' c0) (\<lambda>_.
             bind_res (export_required xc_StorageRef ''storageRef'' c0) (\<lambda>_.
             bind_res (export_required xc_OutputBaseDir ''outputBaseDir'' c0) (\<lambda>_.
             bind_res (export_required xc_TableName ''tableName'' c0) (\<lambda>_.
             bind_res (export_required xc_SQLSelectColumns ''sqlSelectColumns'' c0) (\<lambda>_.
             (let c1 = (if xc_ReadBufferSize c0 = 0 then c0\<lparr>xc_ReadBufferSize := 50\<rparr> else c0);
                  c = (if xc_ParquetCompressionType c1 = '''' then c1\<lparr>xc_ParquetCompressionType := ''SNAPPY''\<rparr> else c1)
              in case NewParquetWriter L ''genericParquetExportTaskletWriter'' (export_writer_props c)
                    (\<lambda>x. partitionKey F (xc_PartitionDefinitions c) (reflOf x)) of
                  Inl e \<Rightarrow> Inl (export_error (''Failed to create ParquetWriter: '' @ Error_text e) (Some e))
                | Inr pw \<Rightarrow> Inr \<lparr>xt_config = c, xt_parquetWriter = pw, xt_stepExecutionContext = None\<rparr>))))))))"

definition Export_Open :: "((string, gval) gomap, 'i, 'b, 'h, 'w) parquet_lib \<Rightarrow> ec \<Rightarrow> ('i, 'h) ExportTasklet \<Rightarrow> 'w \<Rightarrow>
    goerr option \<times> ('i, 'h) ExportTasklet \<times> 'w" where
  "Export_Open L e t w = (case Parquet_Open L e (xt_parquetWriter t) w of
       (Some err, pw, w1) \<Rightarrow> (Some (export_error (''Failed to open ParquetWriter: '' @ Error_text err) (Some err)),
          t\<lparr>xt_parquetWriter := pw\<rparr>, w1)
     | (None, pw, w1) \<Rightarrow> (None, t\<lparr>xt_parquetWriter := pw, xt_stepExecutionContext := Some e\<rparr>, w1))"

definition Export_Close :: "('i, 'h) ExportTasklet \<Rightarrow> goerr option" where
  "Export_Close t = (case Parquet_Close (xt_parquetWriter t) of
       None \<Rightarrow> None
     | Some err \<Rightarrow> Some (export_error (''Failed to close ParquetWriter: '' @ Error_text err) (Some err)))"

definition Export_SetExecutionContext :: "ec \<Rightarrow> ('i, 'h) ExportTasklet \<Rightarrow> ('i, 'h) ExportTasklet" where
  "Export_SetExecutionContext e t = t\<lparr>xt_stepExecutionContext := Some e,
     xt_parquetWriter := snd (Parquet_SetExecutionContext e (xt_parquetWriter t))\<rparr>"

definition Export_GetExecutionContext :: "('i, 'h) ExportTasklet \<Rightarrow> ec option" where
  "Export_GetExecutionContext t = xt_stepExecutionContext t"

definition export_query :: "ExportConfig \<Rightarrow> string" where
  "export_query c = (let q = ''SELECT '' @ xc_SQLSelectColumns c @ '' FROM '' @ xc_TableName c
     in if xc_SQLOrderBy c \<noteq> '''' then q @ '' ORDER BY '' @ xc_SQLOrderBy c else q)"

section \<open>The pipeline\<close>

text \<open>
  What the two goroutines call: reading an item, writing a batch into the writer and flushing it,
  where \<open>None\<close> is a panic. \<open>xo_size\<close> is the size of the channel and of a batch.
\<close>

record ('i, 'r, 's) export_ops =
  xo_Read :: "'r \<Rightarrow> (goerr + 'i) \<times> 'r"
  xo_Write :: "'i list \<Rightarrow> 's \<Rightarrow> goerr option \<times> 's"
  xo_Flush :: "'s \<Rightarrow> (goerr option \<times> 's) option"
  xo_size :: nat
  xo_StepName :: string
  xo_ctxErr :: goerr

text \<open>Where the reading goroutine stands, and what it had in its hands when it stopped.\<close>

datatype 'i reader_pc = Reading | Sending 'i | ReaderStopped "'i list"

text \<open>Where the writing goroutine stands; the flag says that the channel is closed and this is the last batch.\<close>

datatype writer_pc = Receiving | Writing bool | Flushing bool | WriterStopped

record ('i, 'r, 's) export_state =
  xs_src :: 'r
  xs_reader :: "'i reader_pc"
  xs_chan :: "'i list"
  xs_closed :: bool
  xs_batch :: "'i list"
  xs_writer :: writer_pc
  xs_sink :: 's
  xs_errs :: "goerr list"
  xs_cancelled :: bool

definition export_start :: "'r \<Rightarrow> 's \<Rightarrow> ('i, 'r, 's) export_state" where
  "export_start r k = \<lparr>xs_src = r, xs_reader = Reading, xs_chan = [], xs_closed = False, xs_batch = [],
     xs_writer = Receiving, xs_sink = k, xs_errs = [], xs_cancelled = False\<rparr>"

definition read_error :: "string \<Rightarrow> goerr \<Rightarrow> goerr" where
  "read_error n e = export_error (''Failed to read item from SqlCursorReader for step '' @ quoted n @ '': '' @ Error_text e) (Some e)"

definition write_error :: "string \<Rightarrow> bool \<Rightarrow> goerr \<Rightarrow> goerr" where
  "write_error n fin e = export_error ((if fin then ''Failed to write final batch to ParquetWriter for step ''
     else ''Failed to write batch to ParquetWriter for step '') @ quoted n @ '': '' @ Error_text e) (Some e)"

definition flush_error :: "string \<Rightarrow> bool \<Rightarrow> goerr \<Rightarrow> goerr" where
  "flush_error n fin e = export_error ((if fin then ''Failed to flush final batch from ParquetWriter for step ''
     else ''Failed to flush ParquetWriter for step '') @ quoted n @ '': '' @ Error_text e) (Some e)"

text \<open>
  The \<open>select\<close> that reports an error: there is always room in the channel of errors, but when the
  context is cancelled the other branch may be taken, and the error is lost.
\<close>

definition reported :: "('i, 'r, 's) export_state \<Rightarrow> goerr \<Rightarrow> goerr list \<Rightarrow> bool" where
  "reported s e es \<longleftrightarrow> es = [e] \<or> xs_cancelled s \<and> es = []"

datatype 'i export_label = Got 'i | Wrote "'i list" | Flushed | Quiet | Cancelled

inductive export_step :: "('i, 'r, 's) export_ops \<Rightarrow> ('i, 'r, 's) export_state \<Rightarrow> 'i export_label \<Rightarrow>
    ('i, 'r, 's) export_state \<Rightarrow> bool" for X where
  read_item: "xs_reader s = Reading \<Longrightarrow> xo_Read X (xs_src s) = (Inr x, r) \<Longrightarrow>
    export_step X s (Got x) (s\<lparr>xs_src := r, xs_reader := Sending x\<rparr>)"
| read_end: "xs_reader s = Reading \<Longrightarrow> xo_Read X (xs_src s) = (Inl e, r) \<Longrightarrow> e = io_EOF \<Longrightarrow>
    export_step X s Quiet (s\<lparr>xs_src := r, xs_reader := ReaderStopped [], xs_closed := True\<rparr>)"
| read_fail: "xs_reader s = Reading \<Longrightarrow> xo_Read X (xs_src s) = (Inl e, r) \<Longrightarrow> e \<noteq> io_EOF \<Longrightarrow>
    reported s (read_error (xo_StepName X) e) es \<Longrightarrow>
    export_step X s Quiet (s\<lparr>xs_src := r, xs_reader := ReaderStopped [], xs_closed := True, xs_errs := xs_errs s @ es\<rparr>)"
| send_item: "xs_reader s = Sending x \<Longrightarrow> length (xs_chan s) < xo_size X \<Longrightarrow>
    export_step X s Quiet (s\<lparr>xs_chan := xs_chan s @ [x], xs_reader := Reading\<rparr>)"
| send_cancel: "xs_reader s = Sending x \<Longrightarrow> xs_cancelled s \<Longrightarrow>
    export_step X s Quiet (s\<lparr>xs_reader := ReaderStopped [x], xs_closed := True, xs_errs := xs_errs s @ [xo_ctxErr X]\<rparr>)"
| take_item: "xs_writer s = Receiving \<Longrightarrow> xs_chan s = x # c \<Longrightarrow>
    export_step X s Quiet (s\<lparr>xs_chan := c, xs_batch := xs_batch s @ [x],
      xs_writer := (if xo_size X \<le> length (xs_batch s @ [x]) then Writing False else Receiving)\<rparr>)"
| take_closed: "xs_writer s = Receiving \<Longrightarrow> xs_chan s = [] \<Longrightarrow> xs_closed s \<Longrightarrow>
    export_step X s Quiet (s\<lparr>xs_writer := (if xs_batch s = [] then WriterStopped else Writing True)\<rparr>)"
| write_ok: "xs_writer s = Writing fin \<Longrightarrow> xo_Write X (xs_batch s) (xs_sink s) = (None, k) \<Longrightarrow>
    export_step X s (Wrote (xs_batch s)) (s\<lparr>xs_sink := k, xs_batch := [], xs_writer := Flushing fin\<rparr>)"
| write_fail: "xs_writer s = Writing fin \<Longrightarrow> xo_Write X (xs_batch s) (xs_sink s) = (Some e, k) \<Longrightarrow>
    reported s (write_error (xo_StepName X) fin e) es \<Longrightarrow>
    export_step X s Quiet (s\<lparr>xs_sink := k, xs_writer := WriterStopped, xs_errs := xs_errs s @ es\<rparr>)"
| flush_ok: "xs_writer s = Flushing fin \<Longrightarrow> xo_Flush X (xs_sink s) = Some (None, k) \<Longrightarrow>
    export_step X s Flushed (s\<lparr>xs_sink := k, xs_writer := (if fin then WriterStopped else Receiving)\<rparr>)"
| flush_fail: "xs_writer s = Flushing fin \<Longrightarrow> xo_Flush X (xs_sink s) = Some (Some e, k) \<Longrightarrow>
    reported s (flush_error (xo_StepName X) fin e) es \<Longrightarrow>
    export_step X s Quiet (s\<lparr>xs_sink := k, xs_writer := WriterStopped, xs_errs := xs_errs s @ es\<rparr>)"
| cancel: "\<not> xs_cancelled s \<Longrightarrow> export_step X s Cancelled (s\<lparr>xs_cancelled := True\<rparr>)"

inductive_cases export_stepE: "export_step X s l s'"

inductive export_run :: "('i, 'r, 's) export_ops \<Rightarrow> ('i, 'r, 's) export_state \<Rightarrow> 'i export_label list \<Rightarrow>
    ('i, 'r, 's) export_state \<Rightarrow> bool" for X s0 where
  export_begin: "export_run X s0 [] s0"
| export_next: "export_run X s0 ls s \<Longrightarrow> export_step X s l s' \<Longrightarrow> export_run X s0 (ls @ [l]) s'"

text \<open>\<open>wg.Wait\<close> returns when both have stopped; then the first error, if any, decides.\<close>

definition export_done :: "('i, 'r, 's) export_state \<Rightarrow> bool" where
  "export_done s \<longleftrightarrow> (\<exists>xs. xs_reader s = ReaderStopped xs) \<and> xs_writer s = WriterStopped"

definition export_result :: "('i, 'r, 's) export_state \<Rightarrow> ExitStatus \<times> goerr option" where
  "export_result s = (case xs_errs s of [] \<Rightarrow> (ExitCompleted, None) | e # es \<Rightarrow> (ExitFailed, Some e))"

section \<open>The execution\<close>

text \<open>The SQL reader and the Parquet writer in the pipeline.\<close>

definition sql_read :: "heap \<times> ('r, 'i) SqlCursorReader \<Rightarrow> (goerr + 'i) \<times> heap \<times> ('r, 'i) SqlCursorReader" where
  "sql_read s = Sql_Read (fst s) (snd s)"

definition parquet_ops :: "('p, 'i, 'b, 'h, 'w) parquet_lib \<Rightarrow> nat \<Rightarrow> string \<Rightarrow> goerr \<Rightarrow>
    ('i, heap \<times> ('r, 'i) SqlCursorReader, ('i, 'h) ParquetWriter \<times> 'w) export_ops" where
  "parquet_ops L sz stepName ctxErr = \<lparr>xo_Read = sql_read,
     xo_Write = (\<lambda>xs k. case Parquet_Write xs (fst k) of (err, pw) \<Rightarrow> (err, (pw, snd k))),
     xo_Flush = (\<lambda>k. Parquet_Flush L (fst k) (snd k)), xo_size = sz, xo_StepName = stepName,
     xo_ctxErr = ctxErr\<rparr>"

text \<open>
  What \<open>Execute\<close> does before its goroutines start: the connection is resolved, its \<open>sql.DB\<close> asked
  for, the reader made and opened on the context of the step at the address \<open>a\<close>. \<open>Inr None\<close>: the
  size of the channel is negative, and making it panics.
\<close>

definition export_prepare :: "(string \<Rightarrow> 'w \<Rightarrow> (goerr + 'c) \<times> 'w) \<Rightarrow> ('c \<Rightarrow> goerr + 'q) \<Rightarrow>
    ('q \<Rightarrow> string \<Rightarrow> gval list \<Rightarrow> goerr + 'r cursor) \<Rightarrow> ('r \<Rightarrow> goerr + 'i) \<Rightarrow> (f64 \<Rightarrow> int) \<Rightarrow>
    ('i, 'h) ExportTasklet \<Rightarrow> string \<Rightarrow> nat \<Rightarrow> heap \<Rightarrow> 'w \<Rightarrow>
    (goerr + ('i, heap \<times> ('r, 'i) SqlCursorReader, ('i, 'h) ParquetWriter \<times> 'w) export_state option) \<times> 'w" where
  "export_prepare resolve getSQLDB query mapper oor t stepName a h w = (case resolve (xc_DbRef (xt_config t)) w of
       (Inl e, w1) \<Rightarrow> (Inl (export_error (''Failed to resolve database connection '' @ quoted (xc_DbRef (xt_config t))
         @ '': '' @ Error_text e) (Some e)), w1)
     | (Inr conn, w1) \<Rightarrow> (case getSQLDB conn of
           Inl e \<Rightarrow> (Inl (export_error (''Failed to get underlying *sql.DB from connection '' @ quoted (xc_DbRef (xt_config t))
             @ '': '' @ Error_text e) (Some e)), w1)
         | Inr q \<Rightarrow> (case Sql_Open oor (query q) a h
                (NewSqlCursorReader (stepName @ ''_sql_reader'') (export_query (xt_config t)) [] mapper) of
               (Some e, r) \<Rightarrow> (Inl (export_error (''Failed to open SqlCursorReader for step '' @ quoted stepName @ '': ''
                 @ Error_text e) (Some e)), w1)
             | (None, r) \<Rightarrow>
                 (Inr (if xc_ReadBufferSize (xt_config t) < 0 then None
                       else Some (export_start (h, r) (xt_parquetWriter t, w1))), w1))))"

end
