(* ===== verification/Parquet_Correct.thy ===== *)
theory Parquet_Correct
  imports Parquet_Writer
begin

text \<open>
  What the writer of Parquet files (\<open>Parquet_Writer\<close>) does with the items it gets: how they are
  grouped, and which files a flush leaves in a storage that keeps what is uploaded.
\<close>

section \<open>Grouping\<close>

definition kept :: "(string, 'i list) gomap \<Rightarrow> string \<Rightarrow> 'i list" where
  "kept m k = (case gm_get m k of None \<Rightarrow> [] | Some xs \<Rightarrow> xs)"

definition grouped :: "('i \<Rightarrow> goerr + string) \<Rightarrow> 'i list \<Rightarrow> (string, 'i list) gomap \<Rightarrow> (string, 'i list) gomap" where
  "grouped f xs m = fold (\<lambda>x. buffer_item (projr (f x)) x) xs m"

lemma kept_buffer [simp]: "kept (buffer_item k x m) k' = kept m k' @ (if k' = k then [x] else [])"
  by (simp add: kept_def buffer_item_def split: option.splits)

lemma kept_grouped: "kept (grouped f xs m) k = kept m k @ filter (\<lambda>x. projr (f x) = k) xs"
  by (induction xs arbitrary: m) (auto simp: grouped_def)

lemma grouped_wf: "gm_wf m \<Longrightarrow> gm_wf (grouped f xs m)"
  by (induction xs arbitrary: m) (auto simp: grouped_def buffer_item_def)

lemma grouped_dom: "fst ` set (grouped f xs m) = fst ` set m \<union> (\<lambda>x. projr (f x)) ` set xs"
proof (induction xs arbitrary: m)
  case (Cons x xs)
  have "fst ` set (buffer_item k x m) = insert k (fst ` set m)" for k
    by (simp add: buffer_item_def dom_update)
  then show ?case using Cons[of "buffer_item (projr (f x)) x m"] by (auto simp: grouped_def)
qed (simp add: grouped_def)

lemma Write_groups:
  assumes "\<forall>x\<in>set xs. \<not> isl (pw_partitionKeyFunc pw x)"
  shows "Parquet_Write xs pw = (None, pw\<lparr>pw_bufferedItems := grouped (pw_partitionKeyFunc pw) xs (pw_bufferedItems pw)\<rparr>)"
  using assms
proof (induction xs arbitrary: pw)
  case (Cons x xs)
  then obtain k where "pw_partitionKeyFunc pw x = Inr k" by (cases "pw_partitionKeyFunc pw x") auto
  then show ?case
    using Cons.IH[of "pw\<lparr>pw_bufferedItems := buffer_item k x (pw_bufferedItems pw)\<rparr>"] Cons.prems
    by (simp add: grouped_def)
qed (simp add: grouped_def)

text \<open>An item without a partition: the items before it are in the buffer, the rest is not.\<close>

lemma Write_stops:
  assumes "\<forall>x\<in>set xs. \<not> isl (pw_partitionKeyFunc pw x)" "pw_partitionKeyFunc pw y = Inl e"
  shows "\<exists>e'. Parquet_Write (xs @ y # ys) pw =
    (Some e', pw\<lparr>pw_bufferedItems := grouped (pw_partitionKeyFunc pw) xs (pw_bufferedItems pw)\<rparr>)"
  using assms
proof (induction xs arbitrary: pw)
  case (Cons x xs)
  then obtain k where "pw_partitionKeyFunc pw x = Inr k" by (cases "pw_partitionKeyFunc pw x") auto
  then show ?case
    using Cons.IH[of "pw\<lparr>pw_bufferedItems := buffer_item k x (pw_bufferedItems pw)\<rparr>"] Cons.prems
    by (simp add: grouped_def)
qed (simp add: grouped_def)

lemma subseq_set: "subseq xs ys \<Longrightarrow> set xs \<subseteq> set ys"
  by (induction rule: list_emb.induct) auto

lemma subseq_distinct: "subseq xs ys \<Longrightarrow> distinct ys \<Longrightarrow> distinct xs"
  by (induction rule: list_emb.induct) (auto dest: subseq_set)

section \<open>Flushing\<close>

text \<open>
  A storage whose objects are observed: an upload that returns no error has added the object, one
  that returns an error has not; the clock and the random numbers do not touch it.
\<close>

definition keeps_objects :: "('p, 'i, 'b, 'h, 'w) parquet_lib \<Rightarrow> 'h \<Rightarrow> ('w \<Rightarrow> (string \<times> 'b) list) \<Rightarrow> bool" where
  "keeps_objects L conn obs \<longleftrightarrow>
     (\<forall>path b ct w. obs (snd (pq_Upload L conn [] path b ct w)) =
        obs w @ (if fst (pq_Upload L conn [] path b ct w) = None then [(path, b)] else []))
     \<and> (\<forall>w. obs (snd (pq_Stamp L w)) = obs w)"

text \<open>The file of a partition: its bytes, and its path below the directory of the partition.\<close>

definition file_of :: "('p, 'i, 'b, 'h, 'w) parquet_lib \<Rightarrow> ParquetWriterConfig \<Rightarrow> string \<times> 'i list \<Rightarrow> string \<times> 'b \<Rightarrow> bool" where
  "file_of L c part obj \<longleftrightarrow>
     snd obj = snd (snd (pq_Encode L (compression_of (pwc_CompressionType c)) (snd part)))
     \<and> (\<exists>stamp n. fst obj = filepath_Join [pwc_OutputBaseDir c, fst part, file_name c stamp n])"

lemma flush_partition_keeps:
  assumes "keeps_objects L conn obs" "pw_storageConn pw = Some conn" "pw_config pw = c"
    and "cm = compression_of (pwc_CompressionType c)"
  shows "\<exists>errs pw' w' objs. flush_partition L cm part (pw, w) = Some (errs, pw', w')
    \<and> pw_storageConn pw' = Some conn \<and> pw_config pw' = c \<and> pw_partitionKeyFunc pw' = pw_partitionKeyFunc pw
    \<and> obs w' = obs w @ objs \<and> (if errs = [] then \<exists>obj. objs = [obj] \<and> file_of L c part obj else objs = [])"
proof -
  obtain k items where part: "part = (k, items)" by fastforce
  obtain we ce bytes where enc: "pq_Encode L cm items = (we, ce, bytes)" by (cases "pq_Encode L cm items") auto
  obtain st w1 where st: "pq_Stamp L w = (st, w1)" by fastforce
  let ?n = "sequence_no (pw_partitionSequence pw) k"
  let ?path = "filepath_Join [pwc_OutputBaseDir c, k, file_name c st ?n]"
  obtain err w2 where up: "pq_Upload L conn [] ?path bytes ''application/x-parquet'' w1 = (err, w2)" by fastforce
  have "obs w1 = obs w" using assms(1) st unfolding keeps_objects_def by (metis snd_conv)
  moreover have "obs w2 = obs w1 @ (if err = None then [(?path, bytes)] else [])"
    using assms(1) up unfolding keeps_objects_def by (metis fst_conv snd_conv)
  ultimately have "obs w2 = obs w @ (if err = None then [(?path, bytes)] else [])" by simp
  moreover have "file_of L c part (?path, bytes)" unfolding file_of_def using part enc assms(4)
    by (intro conjI exI[of _ st] exI[of _ ?n]) simp_all
  ultimately show ?thesis
    using part enc st up assms(2-4)
    by (cases we; cases ce; cases err) (auto simp: flush_partition_def generateFileName_def Let_def)
qed

lemma flush_partitions_keep:
  assumes "keeps_objects L conn obs" "pw_storageConn pw = Some conn" "pw_config pw = c"
    and "cm = compression_of (pwc_CompressionType c)"
  shows "\<exists>errs pw' w' qs objs. flush_partitions L cm ps (pw, w) = Some (errs, pw', w')
    \<and> pw_storageConn pw' = Some conn \<and> pw_config pw' = c \<and> pw_partitionKeyFunc pw' = pw_partitionKeyFunc pw
    \<and> obs w' = obs w @ objs \<and> subseq qs ps \<and> list_all2 (file_of L c) qs objs \<and> (errs = [] \<longleftrightarrow> qs = ps)"
  using assms(2,3)
proof (induction ps arbitrary: pw w)
  case Nil
  then show ?case by (auto intro!: exI[of _ "[]"])
next
  case (Cons p ps)
  obtain errs1 pw1 w1 objs1 where f: "flush_partition L cm p (pw, w) = Some (errs1, pw1, w1)"
      "pw_storageConn pw1 = Some conn" "pw_config pw1 = c" "pw_partitionKeyFunc pw1 = pw_partitionKeyFunc pw"
      "obs w1 = obs w @ objs1" "if errs1 = [] then \<exists>obj. objs1 = [obj] \<and> file_of L c p obj else objs1 = []"
    using flush_partition_keeps[OF assms(1) Cons.prems assms(4)] by blast
  obtain errs2 pw2 w2 qs objs2 where r: "flush_partitions L cm ps (pw1, w1) = Some (errs2, pw2, w2)"
      "pw_storageConn pw2 = Some conn" "pw_config pw2 = c" "pw_partitionKeyFunc pw2 = pw_partitionKeyFunc pw1"
      "obs w2 = obs w1 @ objs2" "subseq qs ps" "list_all2 (file_of L c) qs objs2" "errs2 = [] \<longleftrightarrow> qs = ps"
    using Cons.IH[OF f(2,3)] by blast
  let ?qs = "if errs1 = [] then p # qs else qs"
  have "subseq ?qs (p # ps)" using r(6) by auto
  moreover have "list_all2 (file_of L c) ?qs (objs1 @ objs2)" using f(6) r(7) by (auto split: if_splits)
  moreover have "errs1 @ errs2 = [] \<longleftrightarrow> ?qs = p # ps"
  proof (cases "errs1 = []")
    case False
    have "qs \<noteq> p # ps" using list_emb_length[OF r(6)] by auto
    then show ?thesis using False by simp
  qed (use r(8) in simp)
  ultimately show ?case using f r by (intro exI[of _ "errs1 @ errs2"] exI[of _ pw2] exI[of _ w2] exI[of _ ?qs] exI[of _ "objs1 @ objs2"]) simp
qed

text \<open>
  C33: items that all have a partition are written and flushed by an opened writer with an empty
  buffer into the storage: every file is that of one partition, below the directory of the
  partition, with the items of that partition in their order; no partition has two files; all have
  one exactly when no error is returned. Whatever has failed, the buffer is empty after it, so what
  was not stored is not stored by another flush.
\<close>

theorem parquet_flush_files:
  assumes "keeps_objects L conn obs" "pw_storageConn pw = Some conn" "pw_bufferedItems pw = []"
    and "\<forall>x\<in>set xs. \<not> isl (pw_partitionKeyFunc pw x)"
  shows "\<exists>pw1 err pw2 w2 qs objs. Parquet_Write xs pw = (None, pw1) \<and> Parquet_Flush L pw1 w = Some (err, pw2, w2)
    \<and> pw_bufferedItems pw2 = [] \<and> obs w2 = obs w @ objs
    \<and> list_all2 (\<lambda>k. file_of L (pw_config pw) (k, filter (\<lambda>x. projr (pw_partitionKeyFunc pw x) = k) xs)) qs objs
    \<and> distinct qs \<and> set qs \<subseteq> (\<lambda>x. projr (pw_partitionKeyFunc pw x)) ` set xs
    \<and> (err = None \<longleftrightarrow> set qs = (\<lambda>x. projr (pw_partitionKeyFunc pw x)) ` set xs)"
proof -
  let ?f = "pw_partitionKeyFunc pw"
  let ?m = "grouped ?f xs []"
  let ?pw1 = "pw\<lparr>pw_bufferedItems := ?m\<rparr>"
  have w: "Parquet_Write xs pw = (None, ?pw1)" using Write_groups[OF assms(4)] assms(3) by simp
  have dist: "distinct (map fst ?m)" using grouped_wf[of "[]" ?f xs] by (simp add: gm_wf_def)
  have dom: "fst ` set ?m = (\<lambda>x. projr (?f x)) ` set xs" by (simp add: grouped_dom)
  have part: "items = filter (\<lambda>x. projr (?f x) = k) xs" if "(k, items) \<in> set ?m" for k items
    using kept_grouped[of ?f xs "[]" k] map_of_is_SomeI[OF dist that] by (simp add: kept_def)
  obtain errs pw' w' ps objs where fl:
      "flush_partitions L (compression_of (pwc_CompressionType (pw_config pw))) ?m (?pw1, w) = Some (errs, pw', w')"
      "obs w' = obs w @ objs" "subseq ps ?m" "list_all2 (file_of L (pw_config pw)) ps objs" "errs = [] \<longleftrightarrow> ps = ?m"
    using flush_partitions_keep[OF assms(1), of ?pw1 "pw_config pw" _ ?m w] assms(2) by auto
  let ?qs = "map fst ps"
  have sub: "subseq ?qs (map fst ?m)" using fl(3) by (rule subseq_map)
  have ps: "ps = map (\<lambda>k. (k, filter (\<lambda>x. projr (?f x) = k) xs)) ?qs"
  proof -
    have "set ps \<subseteq> set ?m" using fl(3) by (rule subseq_set)
    then show ?thesis using part by (induction ps) auto
  qed
  have all2: "list_all2 (\<lambda>k. file_of L (pw_config pw) (k, filter (\<lambda>x. projr (?f x) = k) xs)) ?qs objs"
    using fl(4) by (subst (asm) ps) (simp add: list.rel_map)
  have d: "distinct ?qs" using subseq_distinct[OF sub dist] .
  have s: "set ?qs \<subseteq> (\<lambda>x. projr (?f x)) ` set xs"
    using subseq_set[OF sub] dom by simp
  have e: "errs = [] \<longleftrightarrow> set ?qs = (\<lambda>x. projr (?f x)) ` set xs"
  proof
    assume "set ?qs = (\<lambda>x. projr (?f x)) ` set xs"
    then have "set ?qs = set (map fst ?m)" using dom by simp
    then have "length ?qs = length ?m" using d dist by (metis distinct_card length_map)
    then have "ps = ?m" using fl(3) by (simp add: subseq_same_length)
    then show "errs = []" using fl(5) by simp
  qed (use fl(5) dom in auto)
  show ?thesis
  proof (cases "?m = []")
    case True
    then have "xs = []" using dom by simp
    then show ?thesis using assms(3) by (intro exI[of _ pw]) (auto simp: Parquet_Flush_def)
  next
    case False
    then have "Parquet_Flush L ?pw1 w = Some (if errs = [] then None else Some (pq_multierror L errs), pw'\<lparr>pw_bufferedItems := []\<rparr>, w')"
      using fl(1) by (simp add: Parquet_Flush_def)
    then show ?thesis using w fl(2) all2 d s e
      by (intro exI[of _ ?pw1] exI[of _ "if errs = [] then None else Some (pq_multierror L errs)"]
          exI[of _ "pw'\<lparr>pw_bufferedItems := []\<rparr>"] exI[of _ w'] exI[of _ ?qs] exI[of _ objs]) simp
  qed
qed

text \<open>A storage that is a list of objects and has no room for the file of partition \<open>b\<close>.\<close>

definition demo_parquet :: "(unit, nat, nat list, unit, (string \<times> nat list) list) parquet_lib" where
  "demo_parquet = \<lparr>pq_Decode = (\<lambda>p. Inl io_EOF), pq_Resolve = (\<lambda>n w. (Inr (), w)),
     pq_Encode = (\<lambda>c xs. (None, None, xs)), pq_multierror = JoinError, pq_Stamp = (\<lambda>w. ((''T'', ''U'', 1), w)),
     pq_Upload = (\<lambda>h b path bytes ct w.
       if str_contains path ''b/'' then (Some io_EOF, w) else (None, w @ [(path, bytes)]))\<rparr>"

definition demo_writer :: "(nat, unit) ParquetWriter" where
  "demo_writer = \<lparr>pw_name = ''w'', pw_config = \<lparr>pwc_StorageRef = ''s'', pwc_OutputBaseDir = ''out'',
       pwc_CompressionType = ''gzip'', pwc_FileNameFormat = ''#{tablename}#{sequence}'', pwc_TableName = ''t''\<rparr>,
     pw_partitionKeyFunc = (\<lambda>n. Inr (if n < 10 then ''a'' else ''b'')), pw_storageConn = Some (),
     pw_bufferedItems = [], pw_stepExecutionContext = None, pw_partitionSequence = [(''a'', 4)]\<rparr>"

theorem parquet_flush_files_witness:
  "\<exists>pw2 w2. Parquet_Flush demo_parquet (snd (Parquet_Write [1, 20, 3] demo_writer)) [] = Some (Some (JoinError [io_EOF]), pw2, w2)
    \<and> w2 = [(''out/a/t4'', [1, 3])] \<and> pw_bufferedItems pw2 = []"
proof -
  have k: "keeps_objects demo_parquet () (\<lambda>w. w)" by (simp add: keeps_objects_def demo_parquet_def)
  have w: "pw_storageConn demo_writer = Some ()" "pw_bufferedItems demo_writer = []"
    "\<forall>x\<in>set [1, 20, 3]. \<not> isl (pw_partitionKeyFunc demo_writer x)" by (simp_all add: demo_writer_def)
  have e: "map_option (\<lambda>(err, pw2, w2). (err, w2)) (Parquet_Flush demo_parquet (snd (Parquet_Write [1, 20, 3] demo_writer)) [])
     = Some (Some (JoinError [io_EOF]), [(''out/a/t4'', [1, 3])])"
    by code_simp
  show ?thesis using parquet_flush_files[OF k w, of "[]"] e by auto
qed

end
