(* ===== verification/Export_Correct.thy ===== *)
theory Export_Correct
  imports Parquet_Export Parquet_Correct
begin

text \<open>
  What an execution of the export (\<open>Parquet_Export\<close>) does under every interleaving of its two
  goroutines: no item is lost or duplicated on the way, every execution ends within a bounded number
  of steps, and whether it ends done depends on the writer.

  The reader is known by its contract only, the locale \<open>item_source\<close>, which the SQL reader meets.
\<close>

section \<open>The contract of a reader\<close>

locale item_source =
  fixes read :: "'r \<Rightarrow> (goerr + 'i) \<times> 'r"
    and rest :: "'r \<Rightarrow> 'i list"
    and good :: "'r \<Rightarrow> bool"
  assumes read_Nil: "good r \<Longrightarrow> rest r = [] \<Longrightarrow> read r = (Inl io_EOF, r)"
    and read_Cons: "good r \<Longrightarrow> rest r = x # xs \<Longrightarrow> \<exists>r'. read r = (Inr x, r') \<and> good r' \<and> rest r' = xs"
begin

lemma read_Inr: "good r \<Longrightarrow> read r = (Inr x, r') \<Longrightarrow> good r' \<and> rest r = x # rest r'"
  using read_Nil[of r] read_Cons[of r] by (cases "rest r") fastforce+

lemma read_Inl: "good r \<Longrightarrow> read r = (Inl e, r') \<Longrightarrow> e = io_EOF \<and> r' = r \<and> rest r = []"
  using read_Nil[of r] read_Cons[of r] by (cases "rest r") fastforce+

lemma read_total: "good r \<Longrightarrow> \<exists>x r'. read r = (Inr x, r') \<or> read r = (Inl io_EOF, r')"
  using read_Nil[of r] read_Cons[of r] by (cases "rest r") fastforce+

end

section \<open>Where the items are\<close>

fun got_of :: "'i export_label \<Rightarrow> 'i list" where
  "got_of (Got x) = [x]"
| "got_of _ = []"

fun wrote_of :: "'i export_label \<Rightarrow> 'i list list" where
  "wrote_of (Wrote b) = [b]"
| "wrote_of _ = []"

abbreviation got :: "'i export_label list \<Rightarrow> 'i list" where
  "got ls \<equiv> concat (map got_of ls)"

abbreviation batches :: "'i export_label list \<Rightarrow> 'i list list" where
  "batches ls \<equiv> concat (map wrote_of ls)"

definition reader_hand :: "('i, 'r, 's) export_state \<Rightarrow> 'i list" where
  "reader_hand s = (case xs_reader s of Reading \<Rightarrow> [] | Sending x \<Rightarrow> [x] | ReaderStopped xs \<Rightarrow> xs)"

definition reader_stopped :: "('i, 'r, 's) export_state \<Rightarrow> bool" where
  "reader_stopped s \<longleftrightarrow> (\<exists>xs. xs_reader s = ReaderStopped xs)"

context item_source
begin

text \<open>The invariant of the pipeline: where the items are, and what the program counters say.\<close>

definition export_inv :: "'i list \<Rightarrow> nat \<Rightarrow> 'i export_label list \<Rightarrow> ('i, 'r, 's) export_state \<Rightarrow> bool" where
  "export_inv items n ls s \<longleftrightarrow> good (xs_src s)
     \<and> items = got ls @ rest (xs_src s)
     \<and> got ls = concat (batches ls) @ xs_batch s @ xs_chan s @ reader_hand s
     \<and> xs_closed s = reader_stopped s
     \<and> length (xs_chan s) \<le> n \<and> length (xs_batch s) \<le> n
     \<and> xs_cancelled s = (Cancelled \<in> set ls)
     \<and> (\<forall>b. xs_writer s = Writing b \<longrightarrow> xs_batch s \<noteq> [] \<and> (b \<or> length (xs_batch s) = n))
     \<and> (xs_writer s = Receiving \<longrightarrow> length (xs_batch s) < n)
     \<and> (\<forall>b. xs_writer s = Flushing b \<longrightarrow> xs_batch s = [])
     \<and> (xs_writer s = Writing True \<or> xs_writer s = Flushing True \<longrightarrow> xs_chan s = [] \<and> xs_closed s)
     \<and> (\<not> xs_cancelled s \<longrightarrow>
          (reader_stopped s \<longrightarrow> reader_hand s = [] \<and> rest (xs_src s) = [])
          \<and> (xs_writer s = WriterStopped \<and> xs_errs s = [] \<longrightarrow> xs_batch s = [] \<and> xs_chan s = [] \<and> xs_closed s)
          \<and> (xs_writer s \<noteq> WriterStopped \<longrightarrow> xs_errs s = []))"

lemma export_inv_step:
  assumes "export_step X s l s'" "export_inv items (xo_size X) ls s" "xo_Read X = read" "0 < xo_size X"
  shows "export_inv items (xo_size X) (ls @ [l]) s'"
  using assms(1)
proof (cases rule: export_step.cases)
  case (read_item x r)
  then show ?thesis using assms(2-4) read_Inr[of "xs_src s" x r]
    by (auto simp: export_inv_def reader_hand_def reader_stopped_def)
next
  case (read_end e r)
  then show ?thesis using assms(2-4) read_Inl[of "xs_src s" e r]
    by (auto simp: export_inv_def reader_hand_def reader_stopped_def)
next
  case (read_fail e r es)
  then show ?thesis using assms(2-4) read_Inl[of "xs_src s" e r] by (auto simp: export_inv_def)
next
  case (take_item x c)
  then show ?thesis using assms(2-4) by (auto simp: export_inv_def reader_hand_def reader_stopped_def)
qed (use assms(2-4) in \<open>auto simp: export_inv_def reader_hand_def reader_stopped_def reported_def\<close>)

lemma export_inv_run:
  assumes "export_run X (export_start r k) ls s" "good r" "xo_Read X = read" "0 < xo_size X"
  shows "export_inv (rest r) (xo_size X) ls s"
  using assms(1)
proof (induction rule: export_run.induct)
  case export_begin
  then show ?case using assms(2,4) by (simp add: export_inv_def export_start_def reader_hand_def reader_stopped_def)
next
  case (export_next ls s l s')
  then show ?case using export_inv_step assms(3,4) by blast
qed

section \<open>Every execution ends\<close>

text \<open>
  A measure that every step decreases: an item counts less the further it has come, a goroutine
  that has not stopped counts, and so does a context that may still be cancelled.
\<close>

definition export_measure :: "('i, 'r, 's) export_state \<Rightarrow> nat" where
  "export_measure s = 6 * length (rest (xs_src s)) + (case xs_reader s of Reading \<Rightarrow> 1 | Sending x \<Rightarrow> 6 | ReaderStopped xs \<Rightarrow> 0)
     + 4 * length (xs_chan s) + 3 * length (xs_batch s)
     + (case xs_writer s of Receiving \<Rightarrow> 2 | Writing b \<Rightarrow> 1 | Flushing b \<Rightarrow> 3 | WriterStopped \<Rightarrow> 0)
     + (if xs_cancelled s then 0 else 1)"

lemma export_measure_step:
  assumes "export_step X s l s'" "export_inv items (xo_size X) ls s" "xo_Read X = read"
  shows "export_measure s' < export_measure s"
  using assms(1)
proof (cases rule: export_step.cases)
  case (read_item x r)
  then show ?thesis using assms(2,3) read_Inr[of "xs_src s" x r] by (auto simp: export_inv_def export_measure_def)
next
  case (read_end e r)
  then show ?thesis using assms(2,3) read_Inl[of "xs_src s" e r] by (auto simp: export_inv_def export_measure_def)
next
  case (read_fail e r es)
  then show ?thesis using assms(2,3) read_Inl[of "xs_src s" e r] by (auto simp: export_inv_def export_measure_def)
next
  case (write_ok fin k)
  then have "xs_batch s \<noteq> []" using assms(2) by (auto simp: export_inv_def)
  then have "1 \<le> length (xs_batch s)" by (cases "xs_batch s") auto
  then show ?thesis using write_ok by (simp add: export_measure_def)
qed (auto simp: export_measure_def)

lemma export_run_bounded:
  assumes "export_run X (export_start r k) ls s" "good r" "xo_Read X = read" "0 < xo_size X"
  shows "length ls + export_measure s \<le> 6 * length (rest r) + 4"
  using assms(1)
proof (induction rule: export_run.induct)
  case export_begin
  then show ?case by (simp add: export_measure_def export_start_def)
next
  case (export_next ls s l s')
  then show ?case using export_measure_step[OF export_next.hyps(2) export_inv_run[OF export_next.hyps(1) assms(2-4)] assms(3)]
    by simp
qed

section \<open>A writer that works\<close>

text \<open>
  As long as no write, flush or cancellation fails, some goroutine can move until both have
  stopped; then the execution is complete and every item has been written, in batches of the size.
\<close>

lemma export_progress:
  assumes inv: "export_inv items (xo_size X) ls s" and X: "xo_Read X = read" "0 < xo_size X"
    and w: "\<And>b. xs_writer s = Writing b \<Longrightarrow> \<exists>k. xo_Write X (xs_batch s) (xs_sink s) = (None, k)"
    and f: "\<And>b. xs_writer s = Flushing b \<Longrightarrow> \<exists>k. xo_Flush X (xs_sink s) = Some (None, k)"
    and nd: "\<not> export_done s" and nf: "xs_writer s = WriterStopped \<Longrightarrow> xs_errs s = []" and nc: "\<not> xs_cancelled s"
  shows "\<exists>l s'. l \<noteq> Cancelled \<and> export_step X s l s'"
proof (cases "xs_writer s")
  case (Writing b)
  then show ?thesis using w by (blast intro: export_step.write_ok)
next
  case (Flushing b)
  then show ?thesis using f by (blast intro: export_step.flush_ok)
next
  case WriterStopped
  then have "xs_closed s" using inv nf nc by (auto simp: export_inv_def)
  then show ?thesis using nd WriterStopped inv by (auto simp: export_done_def export_inv_def reader_stopped_def)
next
  case Receiving
  show ?thesis
  proof (cases "xs_chan s")
    case (Cons x c)
    then show ?thesis using Receiving by (blast intro: export_step.take_item)
  next
    case Nil
    show ?thesis
    proof (cases "xs_reader s")
      case Reading
      obtain x r where "xo_Read X (xs_src s) = (Inr x, r) \<or> xo_Read X (xs_src s) = (Inl io_EOF, r)"
        using read_total[of "xs_src s"] inv X(1) by (auto simp: export_inv_def)
      then show ?thesis
        using export_step.read_item[OF Reading, of X x r] export_step.read_end[OF Reading, of X io_EOF r]
        by (metis export_label.distinct(7) export_label.distinct(19))
    next
      case (Sending x)
      then show ?thesis using export_step.send_item[OF Sending, of X] Nil X(2) by (intro exI[of _ Quiet]) auto
    next
      case (ReaderStopped xs)
      then show ?thesis using Receiving Nil inv by (auto simp: export_inv_def reader_stopped_def intro: export_step.take_closed)
    qed
  qed
qed

end

section \<open>A writer that fails\<close>

text \<open>
  When the first flush fails the writing goroutine stops, and nobody takes items out of the channel
  any more: with more items than fit into a batch, the channel and the hands of the reader, the
  reader waits for ever, unless the context is cancelled.
\<close>

context item_source
begin

definition failing_inv :: "('i, 'r, 's) export_ops \<Rightarrow> 's \<Rightarrow> 'i export_label list \<Rightarrow> ('i, 'r, 's) export_state \<Rightarrow> bool" where
  "failing_inv X k ls s \<longleftrightarrow>
     batches ls = [] \<and> xs_sink s = k \<and> (xs_writer s = Receiving \<or> (\<exists>b. xs_writer s = Writing b))
     \<or> (\<exists>b. batches ls = [b] \<and> b \<noteq> [] \<and> length b \<le> xo_size X \<and> set b \<subseteq> set (got ls) \<and> xs_batch s = []
         \<and> ((\<exists>fin. xs_writer s = Flushing fin) \<and> xs_sink s = snd (xo_Write X b k) \<or> xs_writer s = WriterStopped))
     \<or> batches ls = [] \<and> xs_writer s = WriterStopped"

lemma failing_step:
  assumes st: "export_step X s l s'" and inv: "export_inv items (xo_size X) ls s" and X: "xo_Read X = read" "0 < xo_size X"
    and fi: "failing_inv X k ls s"
    and bad: "\<And>b. b \<noteq> [] \<Longrightarrow> set b \<subseteq> set items \<Longrightarrow>
      fst (xo_Write X b k) = None \<and> (\<exists>e k'. xo_Flush X (snd (xo_Write X b k)) = Some (Some e, k'))"
  shows "failing_inv X k (ls @ [l]) s'"
  using st
proof (cases rule: export_step.cases)
  case (write_ok fin k')
  have b: "xs_batch s \<noteq> []" "set (xs_batch s) \<subseteq> set (got ls)"
    using inv write_ok by (auto simp: export_inv_def)
  have "length (xs_batch s) \<le> xo_size X"
    using inv by (simp add: export_inv_def)
  then show ?thesis using write_ok fi b by (auto simp: failing_inv_def)
next
  case (write_fail fin e k' es)
  have "xs_batch s \<noteq> []" "set (xs_batch s) \<subseteq> set items" using inv write_fail by (auto simp: export_inv_def)
  then show ?thesis using bad[of "xs_batch s"] write_fail fi by (auto simp: failing_inv_def)
next
  case (flush_ok fin k')
  then obtain b where "batches ls = [b]" "b \<noteq> []" "set b \<subseteq> set (got ls)" "xs_sink s = snd (xo_Write X b k)"
    using fi by (auto simp: failing_inv_def)
  then show ?thesis using bad[of b] flush_ok inv by (auto simp: export_inv_def)
next
  case (take_closed)
  then show ?thesis using fi inv by (auto simp: failing_inv_def export_inv_def reader_stopped_def)
qed (use fi in \<open>auto simp: failing_inv_def\<close>)

lemma failing_run:
  assumes "export_run X (export_start r k) ls s" "good r" "xo_Read X = read" "0 < xo_size X"
    and "\<And>b. b \<noteq> [] \<Longrightarrow> set b \<subseteq> set (rest r) \<Longrightarrow>
      fst (xo_Write X b k) = None \<and> (\<exists>e k'. xo_Flush X (snd (xo_Write X b k)) = Some (Some e, k'))"
  shows "failing_inv X k ls s"
  using assms(1)
proof (induction rule: export_run.induct)
  case export_begin
  then show ?case by (simp add: failing_inv_def export_start_def)
next
  case (export_next ls s l s')
  show ?case using failing_step[OF export_next.hyps(2) export_inv_run[OF export_next.hyps(1) assms(2-4)] assms(3,4)
      export_next.IH assms(5)] .
qed

lemma failing_never_done:
  assumes "export_run X (export_start r k) ls s" "good r" "xo_Read X = read" "0 < xo_size X"
    and "\<And>b. b \<noteq> [] \<Longrightarrow> set b \<subseteq> set (rest r) \<Longrightarrow>
      fst (xo_Write X b k) = None \<and> (\<exists>e k'. xo_Flush X (snd (xo_Write X b k)) = Some (Some e, k'))"
    and "Cancelled \<notin> set ls" "2 * xo_size X < length (rest r)"
  shows "\<not> export_done s"
proof
  assume d: "export_done s"
  note inv = export_inv_run[OF assms(1-4)]
  have "rest (xs_src s) = []" "reader_hand s = []"
    using d inv assms(6) by (auto simp: export_inv_def export_done_def reader_stopped_def)
  then have len: "length (rest r) = length (concat (batches ls)) + length (xs_batch s) + length (xs_chan s)"
      "length (xs_chan s) \<le> xo_size X" "length (xs_batch s) \<le> xo_size X"
    using inv by (auto simp: export_inv_def)
  have "length (concat (batches ls)) + length (xs_batch s) \<le> xo_size X"
  proof -
    from failing_run[OF assms(1-5)] consider "batches ls = []" | b where "batches ls = [b]" "length b \<le> xo_size X" "xs_batch s = []"
      unfolding failing_inv_def by blast
    then show ?thesis using len(3) by cases (simp_all del: concat_eq_Nil_conv)
  qed
  then show False using len(1,2) assms(7) by simp
qed

end

section \<open>The SQL reader as a source\<close>

text \<open>A reader whose rows are all mapped and end without an error.\<close>

definition sql_good :: "heap \<times> ('r, 'i) SqlCursorReader \<Rightarrow> bool" where
  "sql_good s = (case sr_rows (snd s) of None \<Rightarrow> False
     | Some c \<Rightarrow> cu_Err c = None \<and> (\<forall>row\<in>set (cu_rows c). \<not> isl (sr_mapper (snd s) row)))"

definition sql_rest :: "heap \<times> ('r, 'i) SqlCursorReader \<Rightarrow> 'i list" where
  "sql_rest s = (case sr_rows (snd s) of None \<Rightarrow> [] | Some c \<Rightarrow> map (\<lambda>row. projr (sr_mapper (snd s) row)) (cu_rows c))"

interpretation sql_source: item_source sql_read sql_rest sql_good
proof unfold_locales
  fix s :: "heap \<times> ('a, 'b) SqlCursorReader"
  assume g: "sql_good s"
  show "sql_read s = (Inl io_EOF, s)" if "sql_rest s = []"
    using g that by (cases s) (auto simp: sql_good_def sql_rest_def sql_read_def Sql_Read_def split: option.splits)
  show "\<exists>r'. sql_read s = (Inr x, r') \<and> sql_good r' \<and> sql_rest r' = xs" if r: "sql_rest s = x # xs" for x xs
  proof -
    obtain h rd c row rows where s: "s = (h, rd)" "sr_rows rd = Some c" "cu_rows c = row # rows"
      using g r by (cases s) (auto simp: sql_good_def sql_rest_def split: option.splits)
    obtain i where "sr_mapper rd row = Inr i"
      using g s by (cases "sr_mapper rd row") (auto simp: sql_good_def)
    then show ?thesis using g r s
      by (auto simp: sql_good_def sql_rest_def sql_read_def Sql_Read_def Let_def)
  qed
qed

section \<open>The Parquet writer as a sink\<close>

definition storage_works :: "('p, 'i, 'b, 'h, 'w) parquet_lib \<Rightarrow> 'h \<Rightarrow> bool" where
  "storage_works L conn \<longleftrightarrow> (\<forall>cm xs. \<exists>b. pq_Encode L cm xs = (None, None, b))
     \<and> (\<forall>path b ct w. fst (pq_Upload L conn [] path b ct w) = None)"

lemma flush_partition_works:
  assumes "storage_works L conn" "pw_storageConn pw = Some conn"
  shows "\<exists>pw' w'. flush_partition L cm part (pw, w) = Some ([], pw', w')"
proof -
  obtain k items where part: "part = (k, items)" by fastforce
  obtain b where "pq_Encode L cm items = (None, None, b)" using assms(1) unfolding storage_works_def by blast
  moreover have "fst (pq_Upload L conn [] p d ct w1) = None" for p d ct w1
    using assms(1) unfolding storage_works_def by blast
  ultimately show ?thesis using part assms(2)
    by (auto simp: flush_partition_def generateFileName_def Let_def split: prod.splits option.splits) (metis fst_conv option.distinct(1))
qed

lemma flush_partitions_work:
  assumes "keeps_objects L conn objsOf" "storage_works L conn" "pw_storageConn pw = Some conn" "pw_config pw = c"
    and "cm = compression_of (pwc_CompressionType c)"
  shows "\<exists>pw' w'. flush_partitions L cm ps (pw, w) = Some ([], pw', w')"
  using assms(3,4)
proof (induction ps arbitrary: pw w)
  case (Cons p ps)
  obtain pw1 w1 where p: "flush_partition L cm p (pw, w) = Some ([], pw1, w1)"
    using flush_partition_works[OF assms(2) Cons.prems(1)] by blast
  then have "pw_storageConn pw1 = Some conn" "pw_config pw1 = c"
    using flush_partition_keeps[OF assms(1) Cons.prems assms(5), of p w] by auto
  then obtain pw2 w2 where "flush_partitions L cm ps (pw1, w1) = Some ([], pw2, w2)" using Cons.IH by blast
  then show ?case using p by simp
qed simp

lemma Flush_works:
  assumes "keeps_objects L conn objsOf" "storage_works L conn" "pw_storageConn pw = Some conn"
  shows "\<exists>pw' w' objs. Parquet_Flush L pw w = Some (None, pw', w') \<and> pw_storageConn pw' = Some conn
    \<and> pw_config pw' = pw_config pw \<and> pw_partitionKeyFunc pw' = pw_partitionKeyFunc pw \<and> pw_bufferedItems pw' = []
    \<and> objsOf w' = objsOf w @ objs \<and> list_all2 (file_of L (pw_config pw)) (pw_bufferedItems pw) objs"
proof (cases "pw_bufferedItems pw = []")
  case True
  then show ?thesis using assms(3) by (intro exI[of _ pw] exI[of _ w] exI[of _ "[]"]) (simp add: Parquet_Flush_def)
next
  case False
  obtain pw' w' where f: "flush_partitions L (compression_of (pwc_CompressionType (pw_config pw))) (pw_bufferedItems pw) (pw, w)
      = Some ([], pw', w')"
    using flush_partitions_work[OF assms refl refl] by blast
  then obtain objs where "pw_storageConn pw' = Some conn" "pw_config pw' = pw_config pw"
      "pw_partitionKeyFunc pw' = pw_partitionKeyFunc pw" "objsOf w' = objsOf w @ objs"
      "list_all2 (file_of L (pw_config pw)) (pw_bufferedItems pw) objs"
    using flush_partitions_keep[OF assms(1,3) refl refl, of "pw_bufferedItems pw" w] by auto
  then show ?thesis using f False
    by (intro exI[of _ "pw'\<lparr>pw_bufferedItems := []\<rparr>"] exI[of _ w'] exI[of _ objs]) (simp add: Parquet_Flush_def)
qed

text \<open>The invariant of the writer in a pipeline whose storage works: the files of the flushed batches.\<close>

definition sink_inv :: "('p, 'i, 'b, 'h, 'w) parquet_lib \<Rightarrow> 'h \<Rightarrow> ('w \<Rightarrow> (string \<times> 'b) list) \<Rightarrow> ParquetWriterConfig \<Rightarrow>
    ('i \<Rightarrow> goerr + string) \<Rightarrow> (string \<times> 'b) list \<Rightarrow> nat \<Rightarrow> 'i export_label list \<Rightarrow>
    ('i, 'r, ('i, 'h) ParquetWriter \<times> 'w) export_state \<Rightarrow> bool" where
  "sink_inv L conn objsOf c f objs0 n ls s \<longleftrightarrow>
     pw_storageConn (fst (xs_sink s)) = Some conn \<and> pw_config (fst (xs_sink s)) = c
     \<and> pw_partitionKeyFunc (fst (xs_sink s)) = f \<and> xs_errs s = []
     \<and> (\<exists>flushed pend objss. batches ls = flushed @ pend \<and> objsOf (snd (xs_sink s)) = objs0 @ concat objss
          \<and> list_all2 (\<lambda>b objs. list_all2 (file_of L c) (grouped f b []) objs) flushed objss
          \<and> (if \<exists>fin. xs_writer s = Flushing fin then \<exists>b. pend = [b] \<and> pw_bufferedItems (fst (xs_sink s)) = grouped f b []
             else pend = [] \<and> pw_bufferedItems (fst (xs_sink s)) = [])
          \<and> (\<forall>b\<in>set (if xs_writer s = Flushing True \<or> xs_writer s = WriterStopped then butlast (batches ls) else batches ls).
               length b = n))"

lemma sink_write:
  assumes "sink_inv L conn objsOf c f objs0 n ls s" "xs_writer s = Writing fin" "\<forall>x\<in>set items. \<not> isl (f x)"
    and "sql_source.export_inv items n ls s"
  shows "Parquet_Write (xs_batch s) (fst (xs_sink s)) = (None, (fst (xs_sink s))\<lparr>pw_bufferedItems := grouped f (xs_batch s) []\<rparr>)"
proof -
  have "set (xs_batch s) \<subseteq> set items" using assms(4) by (auto simp: sql_source.export_inv_def)
  moreover have f: "pw_partitionKeyFunc (fst (xs_sink s)) = f" "pw_bufferedItems (fst (xs_sink s)) = []"
    using assms(1,2) by (auto simp: sink_inv_def)
  ultimately have "\<forall>x\<in>set (xs_batch s). \<not> isl (pw_partitionKeyFunc (fst (xs_sink s)) x)" using assms(3) by auto
  then show ?thesis using Write_groups[of "xs_batch s" "fst (xs_sink s)"] f by simp
qed

lemma sink_inv_same:
  assumes "sink_inv L conn objsOf c f objs0 n ls s" "xs_sink s' = xs_sink s" "xs_errs s' = xs_errs s" "wrote_of l = []"
    and "(\<exists>fin. xs_writer s' = Flushing fin) = (\<exists>fin. xs_writer s = Flushing fin)"
    and "(xs_writer s' = Flushing True \<or> xs_writer s' = WriterStopped) = (xs_writer s = Flushing True \<or> xs_writer s = WriterStopped)"
  shows "sink_inv L conn objsOf c f objs0 n (ls @ [l]) s'"
proof -
  have b: "batches (ls @ [l]) = batches ls" using assms(4) by simp
  show ?thesis using assms(1) unfolding sink_inv_def assms(2,3,5,6) b .
qed

lemma sink_inv_step:
  assumes st: "export_step (parquet_ops L n nm ce) s l s'"
    and inv: "sql_source.export_inv items n ls s" and k: "sink_inv L conn objsOf c f objs0 n ls s"
    and store: "keeps_objects L conn objsOf" "storage_works L conn" and keys: "\<forall>x\<in>set items. \<not> isl (f x)"
    and nc: "l \<noteq> Cancelled" "\<not> xs_cancelled s"
  shows "sink_inv L conn objsOf c f objs0 n (ls @ [l]) s'"
  using st
proof (cases rule: export_step.cases)
  case (write_ok fin k')
  have "Parquet_Write (xs_batch s) (fst (xs_sink s)) = (None, (fst (xs_sink s))\<lparr>pw_bufferedItems := grouped f (xs_batch s) []\<rparr>)"
    using sink_write[OF k _ keys inv] write_ok by blast
  moreover have "fin \<or> length (xs_batch s) = n" using inv write_ok by (auto simp: sql_source.export_inv_def)
  moreover obtain objss where "objsOf (snd (xs_sink s)) = objs0 @ concat objss"
      "list_all2 (\<lambda>b objs. list_all2 (file_of L c) (grouped f b []) objs) (batches ls) objss" "\<forall>b\<in>set (batches ls). length b = n"
    using k write_ok by (auto simp: sink_inv_def)
  ultimately show ?thesis using k write_ok
    unfolding sink_inv_def by (intro conjI exI[of _ "batches ls"] exI[of _ "[xs_batch s]"] exI[of _ objss])
      (auto simp: parquet_ops_def)
next
  case (write_fail fin e k' es)
  then show ?thesis using sink_write[OF k _ keys inv, of fin] by (auto simp: parquet_ops_def split: prod.splits)
next
  case (flush_ok fin k')
  obtain pw w where sk: "xs_sink s = (pw, w)" by fastforce
  obtain pw' w' objs where fl: "Parquet_Flush L pw w = Some (None, pw', w')" "pw_storageConn pw' = Some conn"
      "pw_config pw' = c" "pw_partitionKeyFunc pw' = f" "pw_bufferedItems pw' = []" "objsOf w' = objsOf w @ objs"
      "list_all2 (file_of L c) (pw_bufferedItems pw) objs"
    using Flush_works[OF store, of pw w] k sk by (auto simp: sink_inv_def)
  obtain flushed b objss where d: "batches ls = flushed @ [b]" "objsOf w = objs0 @ concat objss" "pw_bufferedItems pw = grouped f b []"
      "list_all2 (\<lambda>b objs. list_all2 (file_of L c) (grouped f b []) objs) flushed objss"
    using k sk flush_ok by (auto simp: sink_inv_def)
  have all: "list_all2 (\<lambda>b objs. list_all2 (file_of L c) (grouped f b []) objs) (flushed @ [b]) (objss @ [objs])"
    using d(3,4) fl(7) by (simp add: list_all2_appendI)
  have k': "k' = (pw', w')" using flush_ok fl(1) sk by (simp add: parquet_ops_def)
  have sz: "\<forall>b\<in>set (if fin then butlast (batches ls) else batches ls). length b = n" and er: "xs_errs s = []"
    using k flush_ok by (auto simp: sink_inv_def split: if_splits)
  have s': "xs_sink s' = (pw', w')" "xs_errs s' = []" "batches (ls @ [l]) = flushed @ [b]"
      "xs_writer s' = (if fin then WriterStopped else Receiving)"
    using flush_ok k' er d(1) by simp_all
  have ob: "objsOf w' = objs0 @ concat (objss @ [objs])" using fl(6) d(2) by simp
  have sz': "\<forall>b\<in>set (if xs_writer s' = Flushing True \<or> xs_writer s' = WriterStopped then butlast (flushed @ [b]) else flushed @ [b]).
      length b = n"
    using sz d(1) s'(4) by (cases fin) simp_all
  show ?thesis unfolding sink_inv_def s'(1-3) fst_conv snd_conv
    by (intro conjI exI[of _ "flushed @ [b]"] exI[of _ "[]"] exI[of _ "objss @ [objs]"] fl(2-4) ob all sz')
      (simp_all add: s'(4) fl(5))
next
  case (flush_fail fin e k' es)
  obtain pw w where sk: "xs_sink s = (pw, w)" by fastforce
  obtain pw' w' where "Parquet_Flush L pw w = Some (None, pw', w')"
    using Flush_works[OF store, of pw w] k sk by (auto simp: sink_inv_def)
  then show ?thesis using flush_fail sk by (simp add: parquet_ops_def)
next
  case (read_fail e r es)
  then show ?thesis using sql_source.read_Inl[of "xs_src s" e r] inv
    by (auto simp: parquet_ops_def sql_source.export_inv_def)
next
  case take_closed
  then obtain objss where o: "objsOf (snd (xs_sink s)) = objs0 @ concat objss"
      "list_all2 (\<lambda>b objs. list_all2 (file_of L c) (grouped f b []) objs) (batches ls) objss" "\<forall>b\<in>set (batches ls). length b = n"
    using k by (auto simp: sink_inv_def)
  have "\<forall>b\<in>set (butlast (batches ls)). length b = n" using o(3) by (meson in_set_butlastD)
  then show ?thesis using o k take_closed
    unfolding sink_inv_def by (intro conjI exI[of _ "batches ls"] exI[of _ "[]"] exI[of _ objss]) auto
qed (use nc in \<open>auto intro!: sink_inv_same[OF k]\<close>)

lemma sink_inv_run:
  assumes "export_run (parquet_ops L n nm ce) (export_start r (pw, w0)) ls s" "Cancelled \<notin> set ls" "sql_good r" "0 < n"
    and "keeps_objects L conn objsOf" "storage_works L conn" "pw_storageConn pw = Some conn" "pw_bufferedItems pw = []"
    and "\<forall>x\<in>set (sql_rest r). \<not> isl (pw_partitionKeyFunc pw x)"
  shows "sink_inv L conn objsOf (pw_config pw) (pw_partitionKeyFunc pw) (objsOf w0) n ls s"
  using assms(1,2)
proof (induction rule: export_run.induct)
  case export_begin
  then show ?case using assms(7,8) by (simp add: sink_inv_def export_start_def)
next
  case (export_next ls s l s')
  have inv: "sql_source.export_inv (sql_rest r) n ls s"
    using sql_source.export_inv_run[OF export_next.hyps(1) assms(3)] assms(4) by (simp add: parquet_ops_def)
  then show ?case
    using sink_inv_step[OF export_next.hyps(2) inv _ assms(5,6,9)] export_next by (auto simp: sql_source.export_inv_def)
qed

section \<open>Properties\<close>

text \<open>
  C31: With a storage that works and rows that are mapped and have partitions, an execution that is
  not cancelled takes a bounded number of steps, and some goroutine can move until both have
  stopped; then it is complete, and every row has been written, in order, in batches of the read
  buffer's size but the last, each batch as one file for each partition it has, with the items of
  the partition in their order.
\<close>

theorem export_complete:
  fixes L :: "('p, 'i, 'b, 'h, 'w) parquet_lib" and r :: "heap \<times> ('r, 'i) SqlCursorReader"
  assumes "export_run (parquet_ops L n nm ce) (export_start r (pw, w0)) ls s" "Cancelled \<notin> set ls" "sql_good r" "0 < n"
    and "keeps_objects L conn objsOf" "storage_works L conn" "pw_storageConn pw = Some conn" "pw_bufferedItems pw = []"
    and "\<forall>x\<in>set (sql_rest r). \<not> isl (pw_partitionKeyFunc pw x)"
  shows "length ls \<le> 6 * length (sql_rest r) + 4
    \<and> ((\<exists>l s'. l \<noteq> Cancelled \<and> export_step (parquet_ops L n nm ce) s l s')
       \<or> export_done s \<and> export_result s = (ExitCompleted, None) \<and> concat (batches ls) = sql_rest r
         \<and> (\<forall>b\<in>set (butlast (batches ls)). length b = n)
         \<and> (\<exists>objss. objsOf (snd (xs_sink s)) = objsOf w0 @ concat objss
             \<and> list_all2 (\<lambda>b objs. list_all2 (file_of L (pw_config pw)) (grouped (pw_partitionKeyFunc pw) b []) objs)
                 (batches ls) objss))"
proof -
  let ?X = "parquet_ops L n nm ce :: ('i, heap \<times> ('r, 'i) SqlCursorReader, ('i, 'h) ParquetWriter \<times> 'w) export_ops"
  have X: "xo_Read ?X = sql_read" "xo_size ?X = n" by (simp_all add: parquet_ops_def)
  have inv: "sql_source.export_inv (sql_rest r) n ls s"
    using sql_source.export_inv_run[OF assms(1,3) X(1)] assms(4) X(2) by simp
  have bound: "length ls \<le> 6 * length (sql_rest r) + 4"
    using sql_source.export_run_bounded[OF assms(1,3) X(1)] assms(4) X(2) by simp
  have nc: "\<not> xs_cancelled s" using inv assms(2) by (auto simp: sql_source.export_inv_def)
  note k = sink_inv_run[OF assms]
  have w: "\<exists>k. xo_Write ?X (xs_batch s) (xs_sink s) = (None, k)" if "xs_writer s = Writing b" for b
    using sink_write[OF k that assms(9) inv] by (simp add: parquet_ops_def)
  have f: "\<exists>k. xo_Flush ?X (xs_sink s) = Some (None, k)" if "xs_writer s = Flushing b" for b
    using Flush_works[OF assms(5,6), of "fst (xs_sink s)" "snd (xs_sink s)"] k by (auto simp: sink_inv_def parquet_ops_def)
  have er: "xs_errs s = []" using k by (simp add: sink_inv_def)
  show ?thesis
  proof (cases "export_done s")
    case False
    then show ?thesis
      using sql_source.export_progress[of "sql_rest r" ?X ls s] inv X assms(4) w f er nc bound by auto
  next
    case True
    then have st: "xs_writer s = WriterStopped" "reader_stopped s" by (auto simp: export_done_def reader_stopped_def)
    have "got ls = sql_rest r" "got ls = concat (batches ls)"
      using inv st nc er by (auto simp: sql_source.export_inv_def)
    moreover obtain objss where "objsOf (snd (xs_sink s)) = objsOf w0 @ concat objss"
        "list_all2 (\<lambda>b objs. list_all2 (file_of L (pw_config pw)) (grouped (pw_partitionKeyFunc pw) b []) objs) (batches ls) objss"
        "\<forall>b\<in>set (butlast (batches ls)). length b = n"
      using k st by (auto simp: sink_inv_def)
    ultimately show ?thesis using True bound er by (auto simp: export_result_def)
  qed
qed

text \<open>A run that can be extended until it is finished, within a bound, can be finished.\<close>

lemma bounded_finishes:
  assumes "Q ls s" and ext: "\<And>ls s. Q ls s \<Longrightarrow> length ls \<le> (N :: nat) \<and> (fin s \<or> (\<exists>l s'. Q (ls @ [l]) s'))"
  shows "\<exists>ls s. Q ls s \<and> fin s"
  using assms(1)
proof (induction "N - length ls" arbitrary: ls s)
  case 0
  then show ?case using ext[of ls s] ext[of "ls @ [l]" for l] by fastforce
next
  case (Suc m)
  show ?case
  proof (cases "fin s")
    case False
    then obtain l s' where q: "Q (ls @ [l]) s'" using ext[OF Suc.prems] by blast
    moreover have "m = N - length (ls @ [l])" using Suc.hyps(2) ext[OF q] by simp
    ultimately show ?thesis using Suc.hyps(1) by blast
  qed (use Suc.prems in blast)
qed

text \<open>Three rows in two batches, into one file for each partition of a batch.\<close>

definition demo_storage_ok :: "(unit, nat, nat list, unit, (string \<times> nat list) list) parquet_lib" where
  "demo_storage_ok = demo_parquet\<lparr>pq_Upload := (\<lambda>h b path bytes ct w. (None, w @ [(path, bytes)]))\<rparr>"

definition demo_rows :: "nat list \<Rightarrow> heap \<times> (nat, nat) SqlCursorReader" where
  "demo_rows xs = (\<lambda>_. [], (NewSqlCursorReader ''r'' ''q'' [] Inr)\<lparr>sr_rows := Some \<lparr>cu_rows = xs, cu_Err = None, cu_closeErr = None\<rparr>\<rparr>)"

lemma demo_rows_good [simp]: "sql_good (demo_rows xs)" "sql_rest (demo_rows xs) = xs"
  by (simp_all add: sql_good_def sql_rest_def demo_rows_def NewSqlCursorReader_def)

lemma demo_keys [simp]: "\<not> isl (pw_partitionKeyFunc demo_writer x)"
  by (simp add: demo_writer_def)

theorem export_complete_witness:
  "\<exists>ls s. export_run (parquet_ops demo_storage_ok 2 ''s'' io_EOF) (export_start (demo_rows [1, 20, 3]) (demo_writer, [])) ls s
     \<and> export_result s = (ExitCompleted, None) \<and> concat (batches ls) = [1, 20, 3]"
proof -
  let ?X = "parquet_ops demo_storage_ok 2 ''s'' io_EOF"
  let ?s0 = "export_start (demo_rows [1, 20, 3]) (demo_writer, [])"
  let ?Q = "\<lambda>ls s. export_run ?X ?s0 ls s \<and> Cancelled \<notin> set ls"
  let ?fin = "\<lambda>s. export_done s"
  have st: "keeps_objects demo_storage_ok () (\<lambda>w. w)" "storage_works demo_storage_ok ()"
    by (simp_all add: keeps_objects_def storage_works_def demo_storage_ok_def demo_parquet_def)
  have pw: "pw_storageConn demo_writer = Some ()" "pw_bufferedItems demo_writer = []" by (simp_all add: demo_writer_def)
  have law: "length ls \<le> 6 * length (sql_rest (demo_rows [1, 20, 3])) + 4
      \<and> ((\<exists>l s'. l \<noteq> Cancelled \<and> export_step ?X s l s') \<or> export_done s \<and> export_result s = (ExitCompleted, None)
         \<and> concat (batches ls) = sql_rest (demo_rows [1, 20, 3]))" if "?Q ls s" for ls s
    using export_complete[of demo_storage_ok 2 "''s''" io_EOF "demo_rows [1, 20, 3]" demo_writer "[]" ls s "()" "\<lambda>w. w"] that st pw
    by auto
  have "\<exists>ls s. ?Q ls s \<and> ?fin s"
  proof (rule bounded_finishes)
    show "?Q [] ?s0" by (simp add: export_run.export_begin)
    show "length ls \<le> 6 * length (sql_rest (demo_rows [1, 20, 3])) + 4 \<and> (?fin s \<or> (\<exists>l s'. ?Q (ls @ [l]) s'))"
      if "?Q ls s" for ls s
      using law[OF that] that by (auto intro: export_run.export_next)
  qed
  then obtain ls s where q: "?Q ls s" "export_done s" by blast
  have "\<not> (\<exists>l s'. l \<noteq> Cancelled \<and> export_step ?X s l s')"
    using q(2) by (auto simp: export_done_def elim!: export_stepE)
  then show ?thesis using law[OF q(1)] q(1) by auto
qed

section \<open>The deadlock\<close>

lemma failing_partition:
  assumes "pw_storageConn pw = Some conn" "\<forall>path b ct w. fst (pq_Upload L conn [] path b ct w) \<noteq> None"
  shows "\<exists>errs pw' w'. flush_partition L cm part (pw, w) = Some (errs, pw', w') \<and> errs \<noteq> [] \<and> pw_storageConn pw' = Some conn"
proof -
  obtain k items where part: "part = (k, items)" by fastforce
  obtain we ce bytes where enc: "pq_Encode L cm items = (we, ce, bytes)" by (cases "pq_Encode L cm items") auto
  obtain st w1 where st: "pq_Stamp L w = (st, w1)" by fastforce
  let ?path = "filepath_Join [pwc_OutputBaseDir (pw_config pw), k, file_name (pw_config pw) st (sequence_no (pw_partitionSequence pw) k)]"
  obtain e w2 where up: "pq_Upload L conn [] ?path bytes ''application/x-parquet'' w1 = (Some e, w2)"
    using assms(2) by (metis not_Some_eq prod.exhaust fst_conv)
  show ?thesis using part enc st up assms(1)
    by (cases we; cases ce) (auto simp: flush_partition_def generateFileName_def Let_def)
qed

lemma failing_flush:
  assumes "pw_storageConn pw = Some conn" "\<forall>path b ct w. fst (pq_Upload L conn [] path b ct w) \<noteq> None"
    and "pw_bufferedItems pw \<noteq> []"
  shows "\<exists>e k. Parquet_Flush L pw w = Some (Some e, k)"
proof -
  have all: "\<exists>errs pw' w'. flush_partitions L cm ps (p, v) = Some (errs, pw', w') \<and> (ps \<noteq> [] \<longrightarrow> errs \<noteq> [])"
    if "pw_storageConn p = Some conn" for cm ps p v
    using that
  proof (induction ps arbitrary: p v)
    case (Cons q ps)
    obtain errs p1 v1 where q: "flush_partition L cm q (p, v) = Some (errs, p1, v1)" "errs \<noteq> []" "pw_storageConn p1 = Some conn"
      using failing_partition[OF Cons.prems assms(2)] by blast
    obtain errs' p2 v2 where "flush_partitions L cm ps (p1, v1) = Some (errs', p2, v2)" using Cons.IH[OF q(3)] by blast
    then show ?case using q by simp
  qed simp
  obtain errs pw' w' where "flush_partitions L (compression_of (pwc_CompressionType (pw_config pw))) (pw_bufferedItems pw) (pw, w)
      = Some (errs, pw', w')" "errs \<noteq> []"
    using all[OF assms(1)] assms(3) by blast
  then show ?thesis using assms(3) by (simp add: Parquet_Flush_def)
qed

text \<open>
  C32: When the storage takes no file and there are more rows than two read buffers, an execution
  that is not cancelled never ends: it makes a bounded number of steps, none of them leads to a
  state in which both goroutines have stopped, and it ends up in one in which neither can move.
\<close>

theorem export_deadlock:
  fixes L :: "('p, 'i, 'b, 'h, 'w) parquet_lib" and r :: "heap \<times> ('r, 'i) SqlCursorReader"
  assumes "export_run (parquet_ops L n nm ce) (export_start r (pw, w0)) ls s" "Cancelled \<notin> set ls" "sql_good r" "0 < n"
    and "pw_storageConn pw = Some conn" "pw_bufferedItems pw = []"
    and "\<forall>x\<in>set (sql_rest r). \<not> isl (pw_partitionKeyFunc pw x)"
    and "\<forall>path b ct w. fst (pq_Upload L conn [] path b ct w) \<noteq> None" "2 * n < length (sql_rest r)"
  shows "length ls \<le> 6 * length (sql_rest r) + 4 \<and> \<not> export_done s
    \<and> (\<exists>ls' s'. export_run (parquet_ops L n nm ce) (export_start r (pw, w0)) ls' s' \<and> Cancelled \<notin> set ls'
        \<and> \<not> export_done s' \<and> (\<forall>l s''. export_step (parquet_ops L n nm ce) s' l s'' \<longrightarrow> l = Cancelled))"
proof -
  let ?X = "parquet_ops L n nm ce :: ('i, heap \<times> ('r, 'i) SqlCursorReader, ('i, 'h) ParquetWriter \<times> 'w) export_ops"
  let ?Q = "\<lambda>ls s. export_run ?X (export_start r (pw, w0)) ls s \<and> Cancelled \<notin> set ls"
  let ?stuck = "\<lambda>s. \<forall>l s''. export_step ?X s l s'' \<longrightarrow> l = Cancelled"
  have X: "xo_Read ?X = sql_read" "xo_size ?X = n" by (simp_all add: parquet_ops_def)
  have bad: "fst (xo_Write ?X b (pw, w0)) = None \<and> (\<exists>e k'. xo_Flush ?X (snd (xo_Write ?X b (pw, w0))) = Some (Some e, k'))"
    if "b \<noteq> []" "set b \<subseteq> set (sql_rest r)" for b
  proof -
    have w: "Parquet_Write b pw = (None, pw\<lparr>pw_bufferedItems := grouped (pw_partitionKeyFunc pw) b []\<rparr>)"
      using Write_groups[of b pw] assms(6,7) that(2) by auto
    have "grouped (pw_partitionKeyFunc pw) b [] \<noteq> []"
      using grouped_dom[of "pw_partitionKeyFunc pw" b "[]"] that(1) by auto
    then have "\<exists>e k. Parquet_Flush L (pw\<lparr>pw_bufferedItems := grouped (pw_partitionKeyFunc pw) b []\<rparr>) w0 = Some (Some e, k)"
      using failing_flush[of "pw\<lparr>pw_bufferedItems := grouped (pw_partitionKeyFunc pw) b []\<rparr>" conn L w0] assms(5,8) by simp
    then show ?thesis using w by (auto simp: parquet_ops_def)
  qed
  have never: "length ls \<le> 6 * length (sql_rest r) + 4 \<and> \<not> export_done s" if "?Q ls s" for ls s
    using sql_source.failing_never_done[of ?X r "(pw, w0)" ls s] sql_source.export_run_bounded[of ?X r "(pw, w0)" ls s]
      that assms(3,4,9) X bad by auto
  have "\<exists>ls s. ?Q ls s \<and> ?stuck s"
  proof (rule bounded_finishes)
    show "?Q [] (export_start r (pw, w0))" by (simp add: export_run.export_begin)
    show "length ls \<le> 6 * length (sql_rest r) + 4 \<and> (?stuck s \<or> (\<exists>l s'. ?Q (ls @ [l]) s'))" if "?Q ls s" for ls s
      using never[OF that] that by (auto intro: export_run.export_next)
  qed
  then show ?thesis using never assms(1,2) by blast
qed

text \<open>Five rows, read buffers of two, and a storage without room.\<close>

theorem export_deadlock_witness:
  "\<exists>ls s. export_run (parquet_ops (demo_storage_ok\<lparr>pq_Upload := (\<lambda>h b path bytes ct w. (Some io_EOF, w))\<rparr>) 2 ''s'' io_EOF)
       (export_start (demo_rows [1, 2, 3, 4, 5]) (demo_writer, [])) ls s \<and> \<not> export_done s
     \<and> {l. \<exists>s''. export_step (parquet_ops (demo_storage_ok\<lparr>pq_Upload := (\<lambda>h b path bytes ct w. (Some io_EOF, w))\<rparr>) 2 ''s'' io_EOF)
          s l s''} \<subseteq> {Cancelled}"
proof -
  let ?L = "demo_storage_ok\<lparr>pq_Upload := (\<lambda>h b path bytes ct w. (Some io_EOF, w))\<rparr>"
  have pw: "pw_storageConn demo_writer = Some ()" "pw_bufferedItems demo_writer = []" by (simp_all add: demo_writer_def)
  show ?thesis
    using export_deadlock[of ?L 2 "''s''" io_EOF "demo_rows [1, 2, 3, 4, 5]" demo_writer "[]" "[]"
        "export_start (demo_rows [1, 2, 3, 4, 5]) (demo_writer, [])" "()", OF export_run.export_begin] pw by (simp add: subset_iff) blast
qed

section \<open>Failures that do not show\<close>

text \<open>A reader that fails after the cancellation: the execution may still report success.\<close>

lemma cancelled_failure_completes:
  assumes "xo_Read X r = (Inl e, r')" "e \<noteq> io_EOF"
  shows "\<exists>ls s. export_run X (export_start r k) ls s \<and> export_done s \<and> export_result s = (ExitCompleted, None)"
proof -
  let ?s0 = "export_start r k :: ('a, 'b, 'c) export_state"
  let ?s1 = "?s0\<lparr>xs_cancelled := True\<rparr>"
  let ?s2 = "?s1\<lparr>xs_src := r', xs_reader := ReaderStopped [], xs_closed := True, xs_errs := xs_errs ?s1 @ []\<rparr>"
  let ?s3 = "?s2\<lparr>xs_writer := if xs_batch ?s2 = [] then WriterStopped else Writing True\<rparr>"
  have 1: "export_step X ?s0 Cancelled ?s1" by (rule export_step.cancel) (simp add: export_start_def)
  have 2: "export_step X ?s1 Quiet ?s2"
    by (rule export_step.read_fail) (use assms in \<open>simp_all add: export_start_def reported_def\<close>)
  have 3: "export_step X ?s2 Quiet ?s3" by (rule export_step.take_closed) (simp_all add: export_start_def)
  have "export_run X ?s0 (([] @ [Cancelled]) @ [Quiet] @ [Quiet]) ?s3"
    using export_run.export_next[OF export_run.export_next[OF export_run.export_next[OF export_run.export_begin 1] 2] 3] by simp
  then show ?thesis by (intro exI) (auto simp: export_done_def export_result_def export_start_def)
qed

text \<open>
  The position the context of the step holds is that of the items read, written or not: a run that
  is resumed after a failure does not read those again that were on their way.
\<close>

lemma export_position:
  assumes "export_run (parquet_ops L n nm ce) (export_start r k) ls s"
  shows "sr_readCount (snd (xs_src s)) = sr_readCount (snd r) + int (length (got ls))
    \<and> sr_name (snd (xs_src s)) = sr_name (snd r) \<and> sr_ec (snd (xs_src s)) = sr_ec (snd r)
    \<and> (\<forall>a. sr_ec (snd r) = Some a \<and> got ls \<noteq> [] \<longrightarrow>
        gm_get (fst (xs_src s) a) (sql_key (snd r)) = Some (VInt (sr_readCount (snd r) + int (length (got ls)))))"
  using assms
proof (induction rule: export_run.induct)
  case export_begin
  then show ?case by (simp add: export_start_def)
next
  case (export_next ls s l s')
  show ?case using export_next.hyps(2)
  proof (cases rule: export_step.cases)
    case (read_item x q)
    then show ?thesis using export_next.IH
      by (auto simp: parquet_ops_def sql_read_def Sql_Read_def sql_key_def Let_def ExecutionContext_Put_def
          split: option.splits list.splits sum.splits)
  next
    case (read_end e q)
    then show ?thesis using export_next.IH
      by (auto simp: parquet_ops_def sql_read_def Sql_Read_def sql_key_def Let_def split: option.splits list.splits sum.splits)
  next
    case (read_fail e q es)
    then show ?thesis using export_next.IH
      by (auto simp: parquet_ops_def sql_read_def Sql_Read_def sql_key_def Let_def split: option.splits list.splits sum.splits)
  qed (use export_next.IH in auto)
qed

end
