(* ===== verification/Query_Text.thy ===== *)
theory Query_Text
  imports Config_Loader "HOL-Library.Char_ord" "HOL-Library.List_Lexorder"
begin

text \<open>
  What the web proxy uses of \<open>net/url\<close> and \<open>net/http\<close>: the escaping of a query, the values of a
  query and their text, and the canonical names of headers. A query that was encoded is parsed back
  to the values it was made of.
\<close>

section \<open>Escaping\<close>

definition unreserved :: "char \<Rightarrow> bool" where
  "unreserved c \<longleftrightarrow> c \<in> set (lowers @ uppers @ digits @ ''-_.~'')"

definition hex_digits :: string where
  "hex_digits = ''0123456789ABCDEF''"

definition escape_char :: "char \<Rightarrow> string" where
  "escape_char c =
     (if unreserved c then [c]
      else if c = CHR '' '' then ''+''
      else [CHR ''%'', hex_digits ! (of_char c div 16), hex_digits ! (of_char c mod 16)])"

definition QueryEscape :: "string \<Rightarrow> string" where
  "QueryEscape s = concat (map escape_char s)"

definition hex_val :: "char \<Rightarrow> nat option" where
  "hex_val c = map_of (zip (hex_digits @ ''abcdef'') ([0..<16] @ [10..<16])) c"

text \<open>\<open>None\<close> is the error of an escape that is not complete.\<close>

fun QueryUnescape :: "string \<Rightarrow> string option" where
  "QueryUnescape [] = Some []"
| "QueryUnescape (c # cs) =
     (if c = CHR ''%'' then (case cs of
          a # b # rest \<Rightarrow> (case (hex_val a, hex_val b) of
              (Some x, Some y) \<Rightarrow> map_option ((#) (char_of (16 * x + y))) (QueryUnescape rest)
            | _ \<Rightarrow> None)
        | _ \<Rightarrow> None)
      else map_option ((#) (if c = CHR ''+'' then CHR '' '' else c)) (QueryUnescape cs))"

lemma hex_val_digit: "n < 16 \<Longrightarrow> hex_val (hex_digits ! n) = Some n"
proof -
  have "\<forall>n\<in>set [0..<16]. hex_val (hex_digits ! n) = Some n" by code_simp
  then show "n < 16 \<Longrightarrow> hex_val (hex_digits ! n) = Some n" by simp
qed

lemma hex_digit_unreserved: "n < 16 \<Longrightarrow> unreserved (hex_digits ! n)"
proof -
  have "\<forall>n\<in>set [0..<16]. unreserved (hex_digits ! n)" by code_simp
  then show "n < 16 \<Longrightarrow> unreserved (hex_digits ! n)" by simp
qed

lemma reserved [simp]:
  "\<not> unreserved CHR ''%''" "\<not> unreserved CHR ''+''" "\<not> unreserved CHR ''&''"
  "\<not> unreserved CHR '';''" "\<not> unreserved CHR ''=''"
  by code_simp+

lemma unescape_char: "QueryUnescape (escape_char c @ s) = map_option ((#) c) (QueryUnescape s)"
proof -
  have "unreserved c \<Longrightarrow> c \<noteq> CHR ''%'' \<and> c \<noteq> CHR ''+''" by auto
  moreover have "(of_char c :: nat) div 16 < 16" by (simp add: div_less_iff_less_mult)
  moreover have "16 * ((of_char c :: nat) div 16) + of_char c mod 16 = of_char c" by simp
  ultimately show ?thesis by (auto simp: escape_char_def hex_val_digit)
qed

lemma unescape_escape: "QueryUnescape (QueryEscape s) = Some s"
  by (induction s) (simp_all add: QueryEscape_def unescape_char)

lemma escape_char_set: "x \<in> set (escape_char c) \<Longrightarrow> unreserved x \<or> x = CHR ''%'' \<or> x = CHR ''+''"
proof -
  have "unreserved (hex_digits ! (of_char c div 16))" "unreserved (hex_digits ! (of_char c mod 16))"
    by (simp_all add: hex_digit_unreserved div_less_iff_less_mult)
  then show "x \<in> set (escape_char c) \<Longrightarrow> ?thesis"
    by (auto simp: escape_char_def split: if_splits)
qed

lemma escape_no_separator: "CHR ''&'' \<notin> set (QueryEscape s)" "CHR '';'' \<notin> set (QueryEscape s)" "CHR ''='' \<notin> set (QueryEscape s)"
  by (auto simp: QueryEscape_def dest: escape_char_set)

section \<open>The values of a query\<close>

type_synonym url_values = "(string, string list) gomap"

definition values_of :: "url_values \<Rightarrow> string \<Rightarrow> string list" where
  "values_of m k = (case gm_get m k of None \<Rightarrow> [] | Some vs \<Rightarrow> vs)"

definition values_Add :: "string \<Rightarrow> string \<Rightarrow> url_values \<Rightarrow> url_values" where
  "values_Add k v m = gm_put k (values_of m k @ [v]) m"

definition values_Set :: "string \<Rightarrow> string \<Rightarrow> url_values \<Rightarrow> url_values" where
  "values_Set k v m = gm_put k [v] m"

text \<open>\<open>strings.Cut\<close> at a character.\<close>

definition cut :: "char \<Rightarrow> string \<Rightarrow> string \<times> string" where
  "cut c s = (takeWhile (\<lambda>x. x \<noteq> c) s, drop 1 (dropWhile (\<lambda>x. x \<noteq> c) s))"

text \<open>One part of a query; parts that are empty or not well-formed are left out.\<close>

definition parse_pair :: "string \<Rightarrow> (string \<times> string) option" where
  "parse_pair p =
     (if CHR '';'' \<in> set p \<or> p = [] then None
      else (case cut CHR ''='' p of (k, v) \<Rightarrow> (case (QueryUnescape k, QueryUnescape v) of
           (Some k', Some v') \<Rightarrow> Some (k', v') | _ \<Rightarrow> None)))"

definition add_pairs :: "(string \<times> string) list \<Rightarrow> url_values \<Rightarrow> url_values" where
  "add_pairs kvs m = fold (\<lambda>(k, v). values_Add k v) kvs m"

definition ParseQuery :: "string \<Rightarrow> url_values" where
  "ParseQuery q = add_pairs (List.map_filter parse_pair (str_split CHR ''&'' q)) []"

definition query_part :: "string \<Rightarrow> string \<Rightarrow> string" where
  "query_part k v = QueryEscape k @ ''='' @ QueryEscape v"

definition Encode :: "url_values \<Rightarrow> string" where
  "Encode m = str_join ''&'' (concat (map (\<lambda>k. map (query_part k) (values_of m k)) (sort (map fst m))))"

lemma values_of_Add [simp]: "values_of (values_Add k v m) k' = values_of m k' @ (if k' = k then [v] else [])"
  by (simp add: values_of_def values_Add_def)

lemma values_of_Nil [simp]: "values_of [] k = []"
  by (simp add: values_of_def)

lemma Add_wf: "gm_wf m \<Longrightarrow> gm_wf (values_Add k v m)"
  by (simp add: values_Add_def)

lemma add_pairs_wf: "gm_wf m \<Longrightarrow> gm_wf (add_pairs kvs m)"
  by (induction kvs arbitrary: m) (auto simp: add_pairs_def Add_wf split: prod.splits)

lemma ParseQuery_wf: "gm_wf (ParseQuery q)"
  by (simp add: ParseQuery_def add_pairs_wf)

lemma values_of_pairs:
  "values_of (add_pairs kvs m) k = values_of m k @ map snd (filter (\<lambda>(k', v). k' = k) kvs)"
  by (induction kvs arbitrary: m) (auto simp: add_pairs_def split: prod.splits)

lemma cut_at: "c \<notin> set a \<Longrightarrow> cut c (a @ c # b) = (a, b)"
  by (induction a) (auto simp: cut_def)

lemma parse_part: "parse_pair (query_part k v) = Some (k, v)"
  by (simp add: parse_pair_def query_part_def escape_no_separator cut_at unescape_escape)

lemma part_no_separator: "CHR ''&'' \<notin> set (query_part k v)"
  by (simp add: query_part_def escape_no_separator)

lemma filtered_pairs:
  "distinct ks \<Longrightarrow> map snd (filter (\<lambda>(k', v). k' = k) (concat (map (\<lambda>k. map (Pair k) (f k)) ks)))
     = (if k \<in> set ks then f k else [])"
proof (induction ks)
  case (Cons a ks)
  then show ?case by (cases "a = k") (simp_all add: filter_map comp_def)
qed simp

lemma parse_encode:
  assumes "gm_wf m"
  shows "values_of (ParseQuery (Encode m)) k = values_of m k"
proof -
  let ?ks = "sort (map fst m)"
  let ?kvs = "concat (map (\<lambda>k. map (Pair k) (values_of m k)) ?ks)"
  let ?ps = "map (\<lambda>(k, v). query_part k v) ?kvs"
  have ps: "concat (map (\<lambda>k. map (query_part k) (values_of m k)) ?ks) = ?ps"
    by (simp add: map_concat comp_def)
  have "List.map_filter parse_pair (str_split CHR ''&'' (Encode m)) = ?kvs"
  proof (cases "?ps = []")
    case True
    then have "Encode m = []" unfolding Encode_def ps by (simp only: str_join.simps)
    then show ?thesis using True by (simp add: List.map_filter_def parse_pair_def)
  next
    case False
    have "\<forall>p\<in>set ?ps. CHR ''&'' \<notin> set p" by (simp add: part_no_separator split: prod.splits)
    then have "str_split CHR ''&'' (Encode m) = ?ps"
      unfolding Encode_def ps using str_split_join[OF False] by blast
    then show ?thesis by (simp add: List.map_filter_def comp_def case_prod_unfold parse_part)
  qed
  moreover have "distinct ?ks" using assms by (simp add: gm_wf_def)
  moreover have "k \<notin> set ?ks \<Longrightarrow> values_of m k = []" by (auto simp: values_of_def split: option.split dest: map_of_SomeD intro: rev_image_eqI)
  ultimately show ?thesis by (simp add: ParseQuery_def values_of_pairs filtered_pairs)
qed

section \<open>Headers\<close>

definition token_char :: "char \<Rightarrow> bool" where
  "token_char c \<longleftrightarrow> c \<in> set (lowers @ uppers @ digits @ ''!#$%&*+-.^_`|~'') \<or> c = CHR 0x27"

fun canonical_from :: "bool \<Rightarrow> string \<Rightarrow> string" where
  "canonical_from up [] = []"
| "canonical_from up (c # cs) = (if up then to_upper [c] else to_lower [c]) @ canonical_from (c = CHR ''-'') cs"

text \<open>\<open>textproto.CanonicalMIMEHeaderKey\<close>\<close>

definition CanonicalHeaderKey :: "string \<Rightarrow> string" where
  "CanonicalHeaderKey k = (if list_all token_char k then canonical_from True k else k)"

definition header_Set :: "string \<Rightarrow> string \<Rightarrow> url_values \<Rightarrow> url_values" where
  "header_Set k v h = gm_put (CanonicalHeaderKey k) [v] h"

definition header_of :: "url_values \<Rightarrow> string \<Rightarrow> string list" where
  "header_of h k = values_of h (CanonicalHeaderKey k)"

lemma header_of_Set: "header_of (header_Set k v h) k' = (if CanonicalHeaderKey k' = CanonicalHeaderKey k then [v] else header_of h k')"
  by (simp add: header_of_def header_Set_def values_of_def)

lemma canonical_names [simp]:
  "CanonicalHeaderKey ''Authorization'' = ''Authorization''"
  "CanonicalHeaderKey ''x-amz-pay-id'' = ''X-Amz-Pay-Id''"
  "CanonicalHeaderKey ''x-amz-pay-region'' = ''X-Amz-Pay-Region''"
  by code_simp+

end
