(* ===== verification/Web_Proxy.thy ===== *)
theory Web_Proxy
  imports Query_Text Connections_Correct Job_Expressions
begin

text \<open>
  The web proxy of \<open>adapter/webproxy\<close>: the making of a connection out of its configuration, whose
  secrets are resolved, the round tripper that adds the credentials to a request before it hands it
  on, and the provider that keeps the connections.

  The cryptography, \<open>url.Parse\<close>, the clock, the token endpoint and the transport the requests are
  handed to are parameters (\<open>proxy_lib\<close>); the world \<open>'w\<close> is theirs. The round tripper is used by one
  request at a time: of its mutex only the second look at the token is left.
\<close>

section \<open>Configuration and requests\<close>

record WebProxyConfig =
  wp_Type :: string
  wp_Algorithm :: string
  wp_PrivateKey :: string
  wp_PublicKeyId :: string
  wp_Region :: string
  wp_GrantType :: string
  wp_TokenUrl :: string
  wp_ClientId :: string
  wp_ClientSecret :: string
  wp_Key :: string
  wp_Prefix :: string
  wp_APIKey :: string
  wp_Placement :: string
  wp_KeyName :: string
  wp_APIEndpoint :: string
  wp_TLSKey :: string
  wp_TLSCrt :: string
  wp_TLSPem :: string

text \<open>
  A request: the parts of its URL, its \<open>Host\<close>, its header, and the payload to be signed that its
  context holds, when it is a string.
\<close>

record 'b http_request =
  rq_Method :: string
  rq_URLScheme :: string
  rq_URLHost :: string
  rq_URLPath :: string
  rq_URLRawPath :: string
  rq_URLRawQuery :: string
  rq_Host :: string
  rq_Header :: url_values
  rq_Body :: 'b
  rq_payload :: "string option"

record ('k, 'b, 'resp, 'w) proxy_lib =
  wl_resolver :: "string \<Rightarrow> goerr + resolved"
  wl_pemDecode :: "string \<Rightarrow> string option"
  wl_PKCS8 :: "string \<Rightarrow> goerr + 'k option"
  wl_PKCS1 :: "string \<Rightarrow> goerr + 'k"
  wl_urlParse :: "string \<Rightarrow> goerr + string \<times> string \<times> string"
  wl_Sha256 :: "string \<Rightarrow> string"
  wl_SignPSS :: "'k \<Rightarrow> string \<Rightarrow> 'w \<Rightarrow> (goerr + string) \<times> 'w"
  wl_Now :: "'w \<Rightarrow> int \<times> 'w"
  wl_NewRequest :: "string \<Rightarrow> goerr option"
  wl_Post :: "string \<Rightarrow> string \<Rightarrow> string \<Rightarrow> 'w \<Rightarrow> (goerr + int \<times> string) \<times> 'w"
  wl_decodeToken :: "string \<Rightarrow> goerr + string \<times> int"
  wl_Next :: "'b http_request \<Rightarrow> 'w \<Rightarrow> (goerr + 'resp) \<times> 'w"

record 'k WebProxyRoundTripper =
  wt_cfg :: WebProxyConfig
  wt_oauth2Token :: string
  wt_oauth2ExpiresAt :: int
  wt_hmacPrivateKey :: "'k option"

record 'k WebProxyConnection =
  wc_name :: string
  wc_cfg :: WebProxyConfig
  wc_transport :: "'k WebProxyRoundTripper"
  wc_privateKey :: "'k option"
  wc_tlsCert :: string
  wc_tlsKey :: string
  wc_tlsPem :: string

section \<open>Making a connection\<close>

definition unsupported_secret :: goerr where
  "unsupported_secret = plain_error ''unsupported secret type''"

definition resolve_value :: "(string \<Rightarrow> goerr + resolved) \<Rightarrow> string \<Rightarrow> goerr + string" where
  "resolve_value resolver val =
     (if is_secret_uri val then bind_res (resolver val) (\<lambda>r. case r of
          Resolved (SecretString s) \<Rightarrow> Inr s
        | Resolved (SecretBytes s) \<Rightarrow> Inr s
        | ResolvedOther t \<Rightarrow> Inl unsupported_secret)
      else Inr val)"

text \<open>The same for the bytes of TLS, which are empty when nothing is configured.\<close>

definition resolve_bytes :: "(string \<Rightarrow> goerr + resolved) \<Rightarrow> string \<Rightarrow> goerr + string" where
  "resolve_bytes resolver val = (if val = '''' then Inr '''' else resolve_value resolver val)"

definition parse_private_key :: "('k, 'b, 'resp, 'w) proxy_lib \<Rightarrow> string \<Rightarrow> WebProxyConfig \<Rightarrow> goerr + 'k option" where
  "parse_private_key L name cfg =
     (if wp_Type cfg = ''HMAC'' \<and> wp_PrivateKey cfg \<noteq> '''' then
        (case wl_pemDecode L (wp_PrivateKey cfg) of
           None \<Rightarrow> Inl (plain_error (''webproxy: failed to decode PEM block for private key for HMAC connection '' @ quoted name))
         | Some block \<Rightarrow>
             (case (case wl_PKCS8 L block of Inr k \<Rightarrow> Inr k | Inl _ \<Rightarrow> map_sum (\<lambda>e. e) Some (wl_PKCS1 L block)) of
                Inr (Some k) \<Rightarrow> Inr (Some k)
              | Inr None \<Rightarrow> Inl (plain_error (''webproxy: private key for HMAC connection '' @ quoted name @ '' is not an RSA private key''))
              | Inl e \<Rightarrow> Inl (wrapf (''webproxy: failed to parse private key for HMAC connection '' @ quoted name @ '': '') e)))
      else Inr None)"

definition check_api_key :: "string \<Rightarrow> WebProxyConfig \<Rightarrow> goerr option" where
  "check_api_key name cfg =
     (if wp_Type cfg = ''APIKEY'' then
        (if wp_Key cfg = '''' then
           Some (plain_error (''webproxy: APIKEY type for connection '' @ quoted name @ '' requires '' @ quoted ''key'' @ '' to be configured''))
         else if (wp_Placement cfg = ''query'' \<or> wp_Placement cfg = ''header'') \<and> wp_KeyName cfg = '''' then
           Some (plain_error (''webproxy: APIKEY authentication with placement '' @ quoted (wp_Placement cfg) @ '' for connection ''
             @ quoted name @ '' requires '' @ quoted ''key_name''))
         else None)
      else None)"

text \<open>The zero time of Go, in nanoseconds of Unix.\<close>

definition zero_time :: int where
  "zero_time = - 62135596800000000000"

definition NewWebProxyConnection :: "('k, 'b, 'resp, 'w) proxy_lib \<Rightarrow> string \<Rightarrow> WebProxyConfig \<Rightarrow> goerr + 'k WebProxyConnection" where
  "NewWebProxyConnection L name cfg0 =
     bind_res (resolve_value (wl_resolver L) (wp_PrivateKey cfg0)) (\<lambda>pk.
     bind_res (resolve_value (wl_resolver L) (wp_ClientSecret cfg0)) (\<lambda>cs.
     bind_res (resolve_value (wl_resolver L) (wp_Key cfg0)) (\<lambda>k.
     (let cfg = cfg0\<lparr>wp_PrivateKey := pk, wp_ClientSecret := cs, wp_Key := k\<rparr> in
      bind_res (resolve_bytes (wl_resolver L) (wp_TLSKey cfg)) (\<lambda>tlsKey.
      bind_res (resolve_bytes (wl_resolver L) (wp_TLSCrt cfg)) (\<lambda>tlsCrt.
      bind_res (resolve_bytes (wl_resolver L) (wp_TLSPem cfg)) (\<lambda>tlsPem.
      bind_res (parse_private_key L name cfg) (\<lambda>privateKey.
      (case check_api_key name cfg of
         Some e \<Rightarrow> Inl e
       | None \<Rightarrow> Inr \<lparr>wc_name = name, wc_cfg = cfg,
           wc_transport = \<lparr>wt_cfg = cfg, wt_oauth2Token = '''', wt_oauth2ExpiresAt = zero_time, wt_hmacPrivateKey = privateKey\<rparr>,
           wc_privateKey = privateKey, wc_tlsCert = tlsCrt, wc_tlsKey = tlsKey, wc_tlsPem = tlsPem\<rparr>)))))))))"

text \<open>The transport of the client is never a \<open>http.Transport\<close>: nothing is closed.\<close>

definition WebProxy_Close :: "'k WebProxyConnection \<Rightarrow> goerr option" where
  "WebProxy_Close conn = None"

section \<open>The round tripper\<close>

definition rewrite_target :: "('k, 'b, 'resp, 'w) proxy_lib \<Rightarrow> WebProxyConfig \<Rightarrow> 'b http_request \<Rightarrow> goerr + 'b http_request" where
  "rewrite_target L cfg req =
     (if wp_APIEndpoint cfg = '''' then Inr req
      else (case wl_urlParse L (wp_APIEndpoint cfg) of
          Inl e \<Rightarrow> Inl (wrapf ''webproxy: invalid APIEndpoint configured: '' e)
        | Inr (scheme, host, path) \<Rightarrow>
            (let newPath = (if \<not> suffix ''/'' path \<and> \<not> prefix ''/'' (rq_URLPath req) then path @ ''/'' else path) @ rq_URLPath req
             in Inr (req\<lparr>rq_URLScheme := scheme, rq_URLHost := host, rq_URLPath := newPath, rq_URLRawPath := newPath\<rparr>))))"

definition auth_value :: "WebProxyConfig \<Rightarrow> string" where
  "auth_value cfg = (if wp_Prefix cfg \<noteq> '''' then wp_Prefix cfg @ '' '' @ wp_Key cfg else wp_Key cfg)"

definition set_header :: "string \<Rightarrow> string \<Rightarrow> 'b http_request \<Rightarrow> 'b http_request" where
  "set_header k v req = req\<lparr>rq_Header := header_Set k v (rq_Header req)\<rparr>"

definition api_key_auth :: "WebProxyConfig \<Rightarrow> 'b http_request \<Rightarrow> goerr + 'b http_request" where
  "api_key_auth cfg req =
     (if wp_Placement cfg = ''header'' then
        (if wp_KeyName cfg \<noteq> '''' then Inr (set_header (wp_KeyName cfg) (auth_value cfg) req)
         else Inl (plain_error (''webproxy: APIKEY authentication with placement '' @ quoted ''header'' @ '' requires '' @ quoted ''key_name'')))
      else if wp_Placement cfg = ''query'' then
        (if wp_KeyName cfg \<noteq> '''' then
           Inr (req\<lparr>rq_URLRawQuery := Encode (values_Add (wp_KeyName cfg) (auth_value cfg) (ParseQuery (rq_URLRawQuery req)))\<rparr>)
         else Inl (plain_error (''webproxy: APIKEY authentication with placement '' @ quoted ''query'' @ '' requires '' @ quoted ''key_name'')))
      else if wp_Placement cfg = ''auth_header'' then Inr (set_header ''Authorization'' (auth_value cfg) req)
      else Inl (plain_error (''webproxy: unsupported APIKEY placement type: '' @ wp_Placement cfg)))"

text \<open>Five minutes, the margin before a token expires.\<close>

definition margin :: int where
  "margin = 300000000000"

definition token_form :: "WebProxyConfig \<Rightarrow> string" where
  "token_form cfg = Encode (values_Set ''client_secret'' (wp_ClientSecret cfg) (values_Set ''client_id'' (wp_ClientId cfg)
     (values_Set ''grant_type'' ''client_credentials'' [])))"

definition refreshOAuth2Token :: "('k, 'b, 'resp, 'w) proxy_lib \<Rightarrow> 'k WebProxyRoundTripper \<Rightarrow> 'w \<Rightarrow>
    goerr option \<times> 'k WebProxyRoundTripper \<times> 'w" where
  "refreshOAuth2Token L t w =
     (case (if wt_oauth2Token t \<noteq> '''' then (case wl_Now L w of (now, w1) \<Rightarrow> (now < wt_oauth2ExpiresAt t - margin, w1)) else (False, w)) of
        (True, w1) \<Rightarrow> (None, t, w1)
      | (False, w1) \<Rightarrow>
          (let cfg = wt_cfg t in
           if wp_GrantType cfg \<noteq> ''client_credentials'' then
             (Some (plain_error (''webproxy: unsupported OAuth2 grant type: '' @ wp_GrantType cfg)), t, w1)
           else if wp_TokenUrl cfg = '''' \<or> wp_ClientId cfg = '''' \<or> wp_ClientSecret cfg = '''' then
             (Some (plain_error ''webproxy: OAuth2 client_credentials requires token_url, client_id, and client_secret''), t, w1)
           else (case wl_NewRequest L (wp_TokenUrl cfg) of
               Some e \<Rightarrow> (Some (wrapf ''webproxy: failed to create token request: '' e), t, w1)
             | None \<Rightarrow> (case wl_Post L (wp_TokenUrl cfg) ''application/x-www-form-urlencoded'' (token_form cfg) w1 of
                   (Inl e, w2) \<Rightarrow> (Some (wrapf ''webproxy: failed to send token request: '' e), t, w2)
                 | (Inr (status, body), w2) \<Rightarrow>
                     if status \<noteq> 200 then
                       (Some (plain_error (''webproxy: token request failed with status '' @ int_str status @ '': '' @ body)), t, w2)
                     else (case wl_decodeToken L body of
                         Inl e \<Rightarrow> (Some (wrapf ''webproxy: failed to decode token response: '' e), t, w2)
                       | Inr (token, expiresIn) \<Rightarrow>
                           if token = '''' then (Some (plain_error ''webproxy: access_token not found in response''), t, w2)
                           else (case wl_Now L w2 of (now, w3) \<Rightarrow>
                             (None, t\<lparr>wt_oauth2Token := token, wt_oauth2ExpiresAt := now + int_wrap (expiresIn * 1000000000)\<rparr>, w3)))))))"

text \<open>The clock is only asked when there is a token.\<close>

definition token_expired :: "('k, 'b, 'resp, 'w) proxy_lib \<Rightarrow> 'k WebProxyRoundTripper \<Rightarrow> 'w \<Rightarrow> bool \<times> 'w" where
  "token_expired L t w = (if wt_oauth2Token t = '''' then (True, w)
     else (case wl_Now L w of (now, w1) \<Rightarrow> (wt_oauth2ExpiresAt t - margin < now, w1)))"

definition oauth2_auth :: "('k, 'b, 'resp, 'w) proxy_lib \<Rightarrow> 'k WebProxyRoundTripper \<Rightarrow> 'b http_request \<Rightarrow> 'w \<Rightarrow>
    (goerr + 'b http_request) \<times> 'k WebProxyRoundTripper \<times> 'w" where
  "oauth2_auth L t req w = (case token_expired L t w of (expired, w1) \<Rightarrow>
     (case (if expired then refreshOAuth2Token L t w1 else (None, t, w1)) of
        (Some e, t1, w2) \<Rightarrow> (Inl (wrapf ''webproxy: failed to refresh OAuth2 token: '' e), t1, w2)
      | (None, t1, w2) \<Rightarrow>
          if wt_oauth2Token t1 \<noteq> '''' then (Inr (set_header ''Authorization'' (''Bearer '' @ wt_oauth2Token t1) req), t1, w2)
          else (Inl (plain_error ''webproxy: OAuth2 token is empty after refresh attempt''), t1, w2)))"

definition hmac_header :: "string \<Rightarrow> string" where
  "hmac_header signed = ''AMZ-PAY-RSASSA-PSS-V2 SignedHeaders=x-amz-pay-date;x-amz-pay-id;x-amz-pay-region, Signature='' @ QueryEscape signed"

definition hmac_auth :: "('k, 'b, 'resp, 'w) proxy_lib \<Rightarrow> 'k WebProxyRoundTripper \<Rightarrow> 'b http_request \<Rightarrow> 'w \<Rightarrow>
    (goerr + 'b http_request) \<times> 'w" where
  "hmac_auth L t req w = (case wt_hmacPrivateKey t of
       None \<Rightarrow> (Inl (plain_error ''webproxy: HMAC authentication requires a valid private key configured''), w)
     | Some k \<Rightarrow> (case rq_payload req of
           None \<Rightarrow> (Inl (plain_error (''webproxy: HMAC authentication requires signature payload in context with key '' @ quoted ''signaturePayload'')), w)
         | Some p \<Rightarrow>
             if p = '''' then (Inl (plain_error (''webproxy: HMAC authentication requires signature payload in context with key '' @ quoted ''signaturePayload'')), w)
             else if wp_Algorithm (wt_cfg t) \<noteq> ''RSASSA-PSS'' then
               (Inl (plain_error (''webproxy: unsupported HMAC algorithm: '' @ wp_Algorithm (wt_cfg t))), w)
             else (case wl_SignPSS L k (wl_Sha256 L p) w of
                 (Inl e, w1) \<Rightarrow> (Inl (wrapf ''webproxy: failed to sign with RSASSA-PSS: '' e), w1)
               | (Inr signed, w1) \<Rightarrow>
                   (let r1 = set_header ''Authorization'' (hmac_header signed) req;
                        r2 = (if wp_PublicKeyId (wt_cfg t) \<noteq> '''' then set_header ''x-amz-pay-id'' (wp_PublicKeyId (wt_cfg t)) r1 else r1);
                        r3 = (if wp_Region (wt_cfg t) \<noteq> '''' then set_header ''x-amz-pay-region'' (wp_Region (wt_cfg t)) r2 else r2)
                    in (Inr r3, w1)))))"

text \<open>The \<open>switch\<close> on the type: any other type, \<open>NONE\<close> and \<open>TLS\<close> among them, adds nothing.\<close>

definition authorise :: "('k, 'b, 'resp, 'w) proxy_lib \<Rightarrow> 'k WebProxyRoundTripper \<Rightarrow> 'b http_request \<Rightarrow> 'w \<Rightarrow>
    (goerr + 'b http_request) \<times> 'k WebProxyRoundTripper \<times> 'w" where
  "authorise L t req w =
     (if wp_Type (wt_cfg t) = ''APIKEY'' then (api_key_auth (wt_cfg t) req, t, w)
      else if wp_Type (wt_cfg t) = ''OAUTH2'' then oauth2_auth L t req w
      else if wp_Type (wt_cfg t) = ''HMAC'' then (case hmac_auth L t req w of (r, w1) \<Rightarrow> (r, t, w1))
      else (Inr req, t, w))"

definition RoundTrip :: "('k, 'b, 'resp, 'w) proxy_lib \<Rightarrow> 'k WebProxyRoundTripper \<Rightarrow> 'b http_request \<Rightarrow> 'w \<Rightarrow>
    (goerr + 'resp) \<times> 'k WebProxyRoundTripper \<times> 'w" where
  "RoundTrip L t req w = (case rewrite_target L (wt_cfg t) req of
       Inl e \<Rightarrow> (Inl e, t, w)
     | Inr req1 \<Rightarrow> (case authorise L t req1 w of
           (Inl e, t1, w1) \<Rightarrow> (Inl e, t1, w1)
         | (Inr req2, t1, w1) \<Rightarrow> (case wl_Next L req2 w1 of (r, w2) \<Rightarrow> (r, t1, w2))))"

section \<open>The provider\<close>

definition web_create :: "('k, 'b, 'resp, 'w) proxy_lib \<Rightarrow> (string, WebProxyConfig) gomap \<Rightarrow> ('k WebProxyConnection, 'w) opener" where
  "web_create L configs n w = ((case gm_get configs n of
       None \<Rightarrow> Inl (plain_error (''webproxy: configuration for connection '' @ quoted n @ '' not found''))
     | Some cfg \<Rightarrow> NewWebProxyConnection L n cfg), w)"

definition WebProxy_GetConnection :: "('k, 'b, 'resp, 'w) proxy_lib \<Rightarrow> (string, WebProxyConfig) gomap \<Rightarrow> string \<Rightarrow>
    ('k WebProxyConnection, 'w) pool \<Rightarrow> ((goerr + 'k WebProxyConnection) \<times> ('k WebProxyConnection, 'w) pool) option" where
  "WebProxy_GetConnection L configs = get_connection (web_create L configs)"

definition WebProxy_CloseAll :: "('k WebProxyConnection, 'w) pool \<Rightarrow> (goerr option \<times> ('k WebProxyConnection, 'w) pool) option" where
  "WebProxy_CloseAll s = close_all (\<lambda>c w. (WebProxy_Close c, w))
     (\<lambda>n e. wrapf (''webproxy: failed to close connection '' @ quoted n @ '': '') e)
     ''webproxy: multiple errors occurred while closing connections: '' s"

definition known_type :: "string \<Rightarrow> bool" where
  "known_type t \<longleftrightarrow> t \<in> {''HMAC'', ''OAUTH2'', ''APIKEY'', ''NONE'', ''TLS''}"

text \<open>
  The loop over the entries of the section, in the order of the map: \<open>asMap\<close> is the type assertion
  and the JSON encoder and decoder are parameters.
\<close>

fun collect_configs :: "('y \<Rightarrow> 'm option) \<Rightarrow> ('m \<Rightarrow> goerr + 'j) \<Rightarrow> ('j \<Rightarrow> goerr + WebProxyConfig) \<Rightarrow> (string \<times> 'y) list \<Rightarrow>
    (string, WebProxyConfig) gomap \<Rightarrow> goerr + (string, WebProxyConfig) gomap" where
  "collect_configs asMap marshal unmarshal [] m = Inr m"
| "collect_configs asMap marshal unmarshal ((n, y) # ys) m = (case asMap y of
       None \<Rightarrow> collect_configs asMap marshal unmarshal ys m
     | Some cm \<Rightarrow> (case marshal cm of
           Inl e \<Rightarrow> Inl (wrapf (''webproxy: failed to marshal config for '' @ quoted n @ '': '') e)
         | Inr j \<Rightarrow> (case unmarshal j of
               Inl e \<Rightarrow> collect_configs asMap marshal unmarshal ys m
             | Inr cfg \<Rightarrow> collect_configs asMap marshal unmarshal ys (if known_type (wp_Type cfg) then gm_put n cfg m else m))))"

definition NewWebProxyProviderFromConfig :: "('y \<Rightarrow> 'm option) \<Rightarrow> ('m \<Rightarrow> goerr + 'j) \<Rightarrow> ('j \<Rightarrow> goerr + WebProxyConfig) \<Rightarrow>
    (string, 'y cfg_value) gomap \<Rightarrow> goerr + (string, WebProxyConfig) gomap" where
  "NewWebProxyProviderFromConfig asMap marshal unmarshal adapters = (case gm_get adapters ''webproxy'' of
       None \<Rightarrow> Inr []
     | Some CfgOther \<Rightarrow> Inl (plain_error (''webproxy: '' @ quoted ''webproxy'' @ '' section in adapter config is not a map[string]interface{}''))
     | Some (CfgMap m) \<Rightarrow> collect_configs asMap marshal unmarshal m [])"

end
