(* ===== verification/Web_Correct.thy ===== *)
theory Web_Correct
  imports Web_Proxy
begin

text \<open>
  What the web proxy promises: a request is only handed on with the credentials its connection is
  configured with, made of the resolved secrets, and with the parameters it had.
\<close>

section \<open>The provider\<close>

interpretation web_pool: connection_pool "WebProxy_GetConnection L configs" pl_conns unlocked for L configs
proof -
  have "WebProxy_GetConnection L configs = get_connection (web_create L configs)"
    by (rule ext)+ (simp add: WebProxy_GetConnection_def)
  then show "connection_pool (WebProxy_GetConnection L configs) pl_conns unlocked" by (simp add: dcl.connection_pool_axioms)
qed

lemma close_each_quiet: "close_each (\<lambda>c w. (None, w)) failed cs w = ([], w)"
  by (induction cs arbitrary: w) auto

text \<open>Nothing is closed, no error is reported, and the provider forgets its connections.\<close>

lemma WebProxy_CloseAll_forgets:
  "unlocked s \<Longrightarrow> WebProxy_CloseAll s = Some (None, s\<lparr>pl_conns := []\<rparr>)"
  by (cases s) (simp add: WebProxy_CloseAll_def close_all_def WebProxy_Close_def close_each_quiet mutex_defs)

text \<open>Every configuration that is kept has a type the round tripper knows.\<close>

lemma gm_put_set: "set (gm_put k v m) \<subseteq> insert (k, v) (set m)"
  by (induction m) auto

lemma collect_configs_known:
  "collect_configs asMap marshal unmarshal ys m = Inr m' \<Longrightarrow> (\<forall>(n, c)\<in>set m. known_type (wp_Type c)) \<Longrightarrow>
    (\<forall>(n, c)\<in>set m'. known_type (wp_Type c))"
proof (induction asMap marshal unmarshal ys m rule: collect_configs.induct)
  case (2 asMap marshal unmarshal n y ys m)
  have "set (gm_put n c m) \<subseteq> insert (n, c) (set m)" for c by (rule gm_put_set)
  then have "known_type (wp_Type c) \<Longrightarrow> \<forall>(n', c')\<in>set (gm_put n c m). known_type (wp_Type c')" for c
    using "2.prems"(2) by fastforce
  then show ?case using 2 by (auto split: option.splits sum.splits if_splits)
qed simp

section \<open>A connection\<close>

lemma new_connection:
  assumes "NewWebProxyConnection L n cfg = Inr conn"
  obtains pk cs k where "resolve_value (wl_resolver L) (wp_PrivateKey cfg) = Inr pk"
    "resolve_value (wl_resolver L) (wp_ClientSecret cfg) = Inr cs" "resolve_value (wl_resolver L) (wp_Key cfg) = Inr k"
    "wc_cfg conn = cfg\<lparr>wp_PrivateKey := pk, wp_ClientSecret := cs, wp_Key := k\<rparr>"
    "parse_private_key L n (wc_cfg conn) = Inr (wc_privateKey conn)" "check_api_key n (wc_cfg conn) = None"
    "wc_transport conn = \<lparr>wt_cfg = wc_cfg conn, wt_oauth2Token = '''', wt_oauth2ExpiresAt = zero_time,
      wt_hmacPrivateKey = wc_privateKey conn\<rparr>"
  using assms by (auto simp: NewWebProxyConnection_def Let_def bind_res_Inr_iff split: option.splits)

section \<open>The credentials\<close>

definition same_payload :: "'b http_request \<Rightarrow> 'b http_request \<Rightarrow> bool" where
  "same_payload req req' \<longleftrightarrow> rq_Method req' = rq_Method req \<and> rq_Body req' = rq_Body req \<and> rq_payload req' = rq_payload req
     \<and> rq_Host req' = rq_Host req"

definition same_target :: "'b http_request \<Rightarrow> 'b http_request \<Rightarrow> bool" where
  "same_target req req' \<longleftrightarrow> rq_URLScheme req' = rq_URLScheme req \<and> rq_URLHost req' = rq_URLHost req
     \<and> rq_URLPath req' = rq_URLPath req"

lemma same_simps [simp]:
  "same_payload req req" "same_target req req"
  "same_payload req (set_header k v req') = same_payload req req'" "same_target req (set_header k v req') = same_target req req'"
  "same_payload req (req'\<lparr>rq_URLRawQuery := q\<rparr>) = same_payload req req'"
  "same_target req (req'\<lparr>rq_URLRawQuery := q\<rparr>) = same_target req req'"
  by (simp_all add: same_payload_def same_target_def set_header_def)

lemma set_header_simps [simp]:
  "rq_URLRawQuery (set_header k v req) = rq_URLRawQuery req"
  "header_of (rq_Header (set_header k v req)) k' = (if CanonicalHeaderKey k' = CanonicalHeaderKey k then [v] else header_of (rq_Header req) k')"
  by (simp_all add: set_header_def header_of_Set)

lemma rewrite_target_facts:
  assumes "rewrite_target L cfg req = Inr req1"
  shows "same_payload req req1" "rq_Header req1 = rq_Header req" "rq_URLRawQuery req1 = rq_URLRawQuery req"
    and "if wp_APIEndpoint cfg = '''' then same_target req req1
      else \<exists>p. wl_urlParse L (wp_APIEndpoint cfg) = Inr (rq_URLScheme req1, rq_URLHost req1, p) \<and> prefix p (rq_URLPath req1)"
  using assms by (auto simp: rewrite_target_def same_payload_def Let_def split: if_splits sum.splits prod.splits)

text \<open>What the request of a connection with an API key carries.\<close>

definition carries_key :: "WebProxyConfig \<Rightarrow> string \<Rightarrow> 'b http_request \<Rightarrow> 'b http_request \<Rightarrow> bool" where
  "carries_key cfg v req req' \<longleftrightarrow>
     wp_Placement cfg = ''header'' \<and> header_of (rq_Header req') (wp_KeyName cfg) = [v] \<and> rq_URLRawQuery req' = rq_URLRawQuery req
   \<or> wp_Placement cfg = ''auth_header'' \<and> header_of (rq_Header req') ''Authorization'' = [v] \<and> rq_URLRawQuery req' = rq_URLRawQuery req
   \<or> wp_Placement cfg = ''query'' \<and> rq_Header req' = rq_Header req \<and> (\<forall>q. values_of (ParseQuery (rq_URLRawQuery req')) q
       = values_of (ParseQuery (rq_URLRawQuery req)) q @ (if q = wp_KeyName cfg then [v] else []))"

lemma api_key_auth_carries:
  assumes "api_key_auth cfg req = Inr req'"
  shows "carries_key cfg (auth_value cfg) req req' \<and> same_payload req req' \<and> same_target req req'"
  using assms by (auto simp: api_key_auth_def carries_key_def parse_encode Add_wf ParseQuery_wf split: if_splits)

text \<open>
  The token is one that was there and that the clock found more than the margin before its expiry,
  or one that the token endpoint has just given for the credentials of the connection.
\<close>

definition token_issued :: "('k, 'b, 'resp, 'w) proxy_lib \<Rightarrow> WebProxyConfig \<Rightarrow> 'k WebProxyRoundTripper \<Rightarrow> bool" where
  "token_issued L cfg t' \<longleftrightarrow> wp_GrantType cfg = ''client_credentials'' \<and>
     (\<exists>w body w1 n w2 now w3. wl_Post L (wp_TokenUrl cfg) ''application/x-www-form-urlencoded'' (token_form cfg) w = (Inr (200, body), w1)
        \<and> wl_decodeToken L body = Inr (wt_oauth2Token t', n)
        \<and> wl_Now L w2 = (now, w3) \<and> wt_oauth2ExpiresAt t' = now + int_wrap (n * 1000000000))"

definition token_valid :: "('k, 'b, 'resp, 'w) proxy_lib \<Rightarrow> 'k WebProxyRoundTripper \<Rightarrow> 'k WebProxyRoundTripper \<Rightarrow> bool" where
  "token_valid L t t' \<longleftrightarrow> wt_oauth2Token t' \<noteq> '''' \<and>
     (t' = t \<and> (\<exists>w now w1. wl_Now L w = (now, w1) \<and> now \<le> wt_oauth2ExpiresAt t - margin) \<or> token_issued L (wt_cfg t) t')"

lemma token_issuedI:
  "wp_GrantType cfg = ''client_credentials'' \<Longrightarrow>
   wl_Post L (wp_TokenUrl cfg) ''application/x-www-form-urlencoded'' (token_form cfg) w = (Inr (200, body), w1) \<Longrightarrow>
   wl_decodeToken L body = Inr (tok, n) \<Longrightarrow> wl_Now L w2 = (now, w3) \<Longrightarrow>
   token_issued L cfg (t\<lparr>wt_oauth2Token := tok, wt_oauth2ExpiresAt := now + int_wrap (n * 1000000000)\<rparr>)"
  unfolding token_issued_def by fastforce

lemma refresh_valid:
  assumes "refreshOAuth2Token L t w = (None, t', w')"
  shows "token_valid L t t' \<and> wt_cfg t' = wt_cfg t \<and> wt_hmacPrivateKey t' = wt_hmacPrivateKey t"
proof -
  obtain kept w1 where k: "(if wt_oauth2Token t \<noteq> '''' then (case wl_Now L w of (now, w1) \<Rightarrow> (now < wt_oauth2ExpiresAt t - margin, w1))
      else (False, w)) = (kept, w1)" by fastforce
  show ?thesis
  proof (cases kept)
    case True
    then have "t' = t" using assms k by (simp add: refreshOAuth2Token_def)
    moreover have "wt_oauth2Token t \<noteq> ''''" "\<exists>now w1. wl_Now L w = (now, w1) \<and> now \<le> wt_oauth2ExpiresAt t - margin"
      using k True by (auto split: if_splits prod.splits)
    ultimately show ?thesis unfolding token_valid_def by blast
  next
    case False
    show ?thesis
      using assms unfolding refreshOAuth2Token_def k Let_def
      by (auto simp: False token_valid_def token_issuedI split: if_splits option.splits prod.splits sum.splits)
  qed
qed

lemma oauth2_auth_carries:
  assumes "oauth2_auth L t req w = (Inr req', t', w')"
  shows "token_valid L t t' \<and> header_of (rq_Header req') ''Authorization'' = [''Bearer '' @ wt_oauth2Token t']
    \<and> wt_cfg t' = wt_cfg t \<and> wt_hmacPrivateKey t' = wt_hmacPrivateKey t
    \<and> same_payload req req' \<and> same_target req req' \<and> rq_URLRawQuery req' = rq_URLRawQuery req"
proof -
  obtain expired w1 where e: "token_expired L t w = (expired, w1)" by fastforce
  show ?thesis
  proof (cases expired)
    case True
    then obtain w2 where "refreshOAuth2Token L t w1 = (None, t', w2)"
      using assms e by (auto simp: oauth2_auth_def split: prod.splits option.splits if_splits)
    then show ?thesis using refresh_valid assms e True
      by (fastforce simp: oauth2_auth_def split: prod.splits option.splits if_splits)
  next
    case False
    then have t: "t' = t" "wt_oauth2Token t \<noteq> ''''" using assms e by (auto simp: oauth2_auth_def split: if_splits)
    have "\<exists>now w1. wl_Now L w = (now, w1) \<and> now \<le> wt_oauth2ExpiresAt t - margin"
      using e False t by (auto simp: token_expired_def split: prod.splits)
    then have "token_valid L t t'" unfolding token_valid_def using t by blast
    then show ?thesis using assms e False by (auto simp: oauth2_auth_def split: if_splits)
  qed
qed

lemma hmac_auth_carries:
  assumes "hmac_auth L t req w = (Inr req', w')"
  shows "\<exists>k p signed. wt_hmacPrivateKey t = Some k \<and> rq_payload req = Some p \<and> p \<noteq> '''' \<and> wp_Algorithm (wt_cfg t) = ''RSASSA-PSS''
    \<and> wl_SignPSS L k (wl_Sha256 L p) w = (Inr signed, w') \<and> header_of (rq_Header req') ''Authorization'' = [hmac_header signed]"
    "same_payload req req' \<and> same_target req req' \<and> rq_URLRawQuery req' = rq_URLRawQuery req"
  using assms by (auto simp: hmac_auth_def Let_def split: if_splits option.splits prod.splits sum.splits)


text \<open>A request with a parameter of its own, on a connection whose key comes from the environment.\<close>

definition demo_proxy :: "(nat, nat, string, unit) proxy_lib" where
  "demo_proxy = \<lparr>wl_resolver = (\<lambda>u. if u = ''env://K'' then Inr (Resolved (SecretString ''s3&'')) else Inl (plain_error u)),
     wl_pemDecode = (\<lambda>s. None), wl_PKCS8 = (\<lambda>s. Inr None), wl_PKCS1 = (\<lambda>s. Inr 0), wl_urlParse = (\<lambda>s. Inr (''https'', s, ''/v1'')),
     wl_Sha256 = (\<lambda>s. s), wl_SignPSS = (\<lambda>k s w. (Inr s, w)), wl_Now = (\<lambda>w. (0, w)), wl_NewRequest = (\<lambda>u. None),
     wl_Post = (\<lambda>u c b w. (Inr (200, b), w)), wl_decodeToken = (\<lambda>b. Inr (b, 3600)),
     wl_Next = (\<lambda>req w. (Inr (rq_URLHost req @ rq_URLPath req @ ''?'' @ rq_URLRawQuery req), w))\<rparr>"

definition demo_proxy_config :: WebProxyConfig where
  "demo_proxy_config = \<lparr>wp_Type = ''APIKEY'', wp_Algorithm = '''', wp_PrivateKey = '''', wp_PublicKeyId = '''', wp_Region = '''',
     wp_GrantType = '''', wp_TokenUrl = '''', wp_ClientId = '''', wp_ClientSecret = '''', wp_Key = ''env://K'', wp_Prefix = '''',
     wp_APIKey = '''', wp_Placement = ''query'', wp_KeyName = ''key'', wp_APIEndpoint = ''api'', wp_TLSKey = '''', wp_TLSCrt = '''',
     wp_TLSPem = ''''\<rparr>"

definition demo_request :: "nat http_request" where
  "demo_request = \<lparr>rq_Method = ''GET'', rq_URLScheme = '''', rq_URLHost = '''', rq_URLPath = ''/x'', rq_URLRawPath = '''',
     rq_URLRawQuery = ''z=1+2'', rq_Host = '''', rq_Header = [], rq_Body = 0, rq_payload = None\<rparr>"

definition demo_web_connection :: "nat WebProxyConnection" where
  "demo_web_connection = projr (NewWebProxyConnection demo_proxy ''p'' demo_proxy_config)"

lemma demo_web_made: "NewWebProxyConnection demo_proxy ''p'' demo_proxy_config = Inr demo_web_connection"
proof -
  have "\<not> isl (NewWebProxyConnection demo_proxy ''p'' demo_proxy_config)" by code_simp
  then show ?thesis by (simp add: demo_web_connection_def)
qed


section \<open>What the proxy does not do\<close>

text \<open>The certificates of a connection of type \<open>TLS\<close> are read and not used.\<close>

lemma tls_not_used:
  assumes "NewWebProxyConnection L n cfg = Inr conn" "wp_Type cfg = ''TLS''" "wp_APIEndpoint cfg = ''''"
  shows "RoundTrip L (wc_transport conn) req w = (case wl_Next L req w of (r, w') \<Rightarrow> (r, wc_transport conn, w'))"
proof -
  obtain pk cs k where "wc_cfg conn = cfg\<lparr>wp_PrivateKey := pk, wp_ClientSecret := cs, wp_Key := k\<rparr>"
    "wt_cfg (wc_transport conn) = wc_cfg conn"
    using new_connection[OF assms(1)] by (metis WebProxyRoundTripper.select_convs(1))
  then show ?thesis using assms(2,3) by (simp add: RoundTrip_def rewrite_target_def authorise_def)
qed

text \<open>An HMAC connection without a private key is made, and refuses every request.\<close>

lemma hmac_needs_key:
  assumes "NewWebProxyConnection L n cfg = Inr conn" "wp_Type cfg = ''HMAC''" "wp_PrivateKey cfg = ''''"
  shows "isl (fst (RoundTrip L (wc_transport conn) req w))"
proof -
  obtain pk cs k where c: "resolve_value (wl_resolver L) (wp_PrivateKey cfg) = Inr pk"
    "wc_cfg conn = cfg\<lparr>wp_PrivateKey := pk, wp_ClientSecret := cs, wp_Key := k\<rparr>"
    "parse_private_key L n (wc_cfg conn) = Inr (wc_privateKey conn)"
    "wc_transport conn = \<lparr>wt_cfg = wc_cfg conn, wt_oauth2Token = '''', wt_oauth2ExpiresAt = zero_time, wt_hmacPrivateKey = wc_privateKey conn\<rparr>"
    using new_connection[OF assms(1)] by metis
  have "pk = ''''" using c(1) assms(3) by (simp add: resolve_value_def is_secret_uri_def)
  then have "wc_privateKey conn = None" using c(2,3) by (simp add: parse_private_key_def)
  then show ?thesis using c(2,4) assms(2) by (auto simp: RoundTrip_def authorise_def hmac_auth_def split: sum.split)
qed

text \<open>The duration of a token of more than 292 years wraps around: it expires before it was issued.\<close>

lemma long_token_expired: "int_wrap (9223372037 * 1000000000) < 0"
  by (simp add: int_wrap_def)

text \<open>An endpoint that ends with a slash and a path that begins with one give two.\<close>

lemma slashes_doubled:
  "wl_urlParse L (wp_APIEndpoint cfg) = Inr (s, h, p @ ''/'') \<Longrightarrow> wp_APIEndpoint cfg \<noteq> '''' \<Longrightarrow> rq_URLPath req = ''/'' @ q \<Longrightarrow>
    map_sum (\<lambda>e. e) rq_URLPath (rewrite_target L cfg req) = Inr (p @ ''//'' @ q)"
  by (simp add: rewrite_target_def Let_def)

end
