(* ===== verification/Generic_Tasklets.thy ===== *)
theory Generic_Tasklets
  imports Query_Text Job_Expressions Job_Factory
begin

text \<open>
  The tasklets of \<open>component/tasklet/generic\<close> other than the export: the one that writes its
  properties into the execution context, and the one that fails for a number of runs or at random,
  which counts its runs in the execution context. \<open>strconv.ParseFloat\<close>, \<open>mapstructure\<close> and the
  random numbers are parameters.
\<close>

section \<open>The writer of the execution context\<close>

record ExecutionContextWriterTasklet =
  ew_id :: string
  ew_ec :: ec
  ew_properties :: "(string, gval) gomap"

definition NewExecutionContextWriterTasklet :: "string \<Rightarrow> (string, gval) gomap \<Rightarrow> ExecutionContextWriterTasklet" where
  "NewExecutionContextWriterTasklet ident properties = \<lparr>ew_id = ident, ew_ec = NewExecutionContext, ew_properties = properties\<rparr>"

text \<open>\<open>strconv.Atoi\<close>: an \<open>int\<close> has 64 bits.\<close>

definition Atoi :: "string \<Rightarrow> goerr + int" where
  "Atoi s = (case ParseInt s of Inr n \<Rightarrow> Inr n
     | Inl e \<Rightarrow> Inl (strconv_error ''Atoi'' s (if e = strconv_error ''ParseInt'' s ''value out of range'' then ''value out of range''
         else ''invalid syntax'')))"

definition convert_text :: "(string \<Rightarrow> goerr + f64) \<Rightarrow> string \<Rightarrow> string \<Rightarrow> goerr + gval" where
  "convert_text parseFloat typeStr s =
     (if typeStr = ''string'' then Inr (VStr s)
      else if typeStr = ''int'' then bind_res (Atoi s) (\<lambda>i. Inr (VInt i))
      else if typeStr = ''float'' \<or> typeStr = ''float64'' then bind_res (parseFloat s) (\<lambda>f. Inr (VFloat f))
      else if typeStr = ''bool'' then bind_res (ParseBool s) (\<lambda>b. Inr (VBool b))
      else Inr (VStr s))"

text \<open>A value that is not a text is kept as it is.\<close>

definition convert_property :: "(string \<Rightarrow> goerr + f64) \<Rightarrow> string \<Rightarrow> gval \<Rightarrow> goerr + gval" where
  "convert_property parseFloat keyWithType v = (case v of
       VStr s \<Rightarrow> convert_text parseFloat (to_lower (snd (cut CHR ''.'' keyWithType))) s
     | _ \<Rightarrow> Inr v)"

definition property_key :: "string \<Rightarrow> string" where
  "property_key keyWithType = fst (cut CHR ''.'' keyWithType)"

definition conversion_error :: "string \<Rightarrow> string \<Rightarrow> gval \<Rightarrow> goerr \<Rightarrow> goerr" where
  "conversion_error ident kt v e = NewBatchErrorf ident
     (''Failed to convert value '' @ quoted ''%s'' @ '' to type '' @ quoted ''%s'' @ '' for key '' @ quoted ''%s'' @ '': %w'')
     [ArgStr (case v of VStr s \<Rightarrow> s | _ \<Rightarrow> ''''), ArgStr (to_lower (snd (cut CHR ''.'' kt))), ArgStr (property_key kt), ArgErr e]"

text \<open>The loop over the properties, in the order of the map.\<close>

fun write_properties :: "(string \<Rightarrow> goerr + f64) \<Rightarrow> string \<Rightarrow> (string \<times> gval) list \<Rightarrow> ec \<Rightarrow> goerr option \<times> ec" where
  "write_properties parseFloat ident [] e = (None, e)"
| "write_properties parseFloat ident ((kt, v) # ps) e =
     (if CHR ''.'' \<notin> set kt then write_properties parseFloat ident ps e
      else (case convert_property parseFloat kt v of
          Inl err \<Rightarrow> (Some (conversion_error ident kt v err), e)
        | Inr v' \<Rightarrow> write_properties parseFloat ident ps (ExecutionContext_Put (property_key kt) v' e)))"

definition EcWriter_Execute :: "(string \<Rightarrow> goerr + f64) \<Rightarrow> ExecutionContextWriterTasklet \<Rightarrow> StepExecution \<Rightarrow>
    (ExitStatus \<times> goerr option) \<times> ExecutionContextWriterTasklet \<times> StepExecution" where
  "EcWriter_Execute parseFloat t se = (case write_properties parseFloat (ew_id t) (ew_properties t) (ew_ec t) of
       (Some err, e) \<Rightarrow> ((ExitFailed, Some err), t\<lparr>ew_ec := e\<rparr>, se)
     | (None, e) \<Rightarrow> ((ExitCompleted, None), t\<lparr>ew_ec := e\<rparr>, se\<lparr>se_ExecutionContext := e\<rparr>))"

definition EcWriter_SetExecutionContext :: "ec \<Rightarrow> ExecutionContextWriterTasklet \<Rightarrow> ExecutionContextWriterTasklet" where
  "EcWriter_SetExecutionContext e t = t\<lparr>ew_ec := e\<rparr>"

definition EcWriter_GetExecutionContext :: "ExecutionContextWriterTasklet \<Rightarrow> ec" where
  "EcWriter_GetExecutionContext t = ew_ec t"

section \<open>The tasklet that fails\<close>

record RandomFailTaskletConfig =
  rf_FailRate :: f64
  rf_FailCount :: int

record RandomFailTasklet =
  rf_id :: string
  rf_ec :: ec
  rf_config :: RandomFailTaskletConfig
  rf_currentRun :: int

text \<open>
  \<open>configbinder.BindProperties\<close>: what the decoder makes of the defaults, whose error is only
  logged.
\<close>

definition NewRandomFailTasklet :: "('p \<Rightarrow> RandomFailTaskletConfig \<Rightarrow> goerr option \<times> RandomFailTaskletConfig) \<Rightarrow> string \<Rightarrow> 'p \<Rightarrow> RandomFailTasklet" where
  "NewRandomFailTasklet bind ident properties = \<lparr>rf_id = ident, rf_ec = NewExecutionContext,
     rf_config = snd (bind properties \<lparr>rf_FailRate = Fin (1 / 2), rf_FailCount = 0\<rparr>), rf_currentRun = 0\<rparr>"

fun f64_less :: "f64 \<Rightarrow> f64 \<Rightarrow> bool" where
  "f64_less (Fin a) (Fin b) = (a < b)"
| "f64_less (Fin a) (Inf pos) = pos"
| "f64_less (Inf pos) (Fin b) = (\<not> pos)"
| "f64_less (Inf p) (Inf q) = (\<not> p \<and> q)"
| "f64_less _ _ = False"

definition RandomFail_Execute :: "('w \<Rightarrow> f64 \<times> 'w) \<Rightarrow> RandomFailTasklet \<Rightarrow> 'w \<Rightarrow>
    (ExitStatus \<times> goerr option) \<times> RandomFailTasklet \<times> 'w" where
  "RandomFail_Execute rand t w =
     (let t1 = t\<lparr>rf_currentRun := int_wrap (rf_currentRun t + 1)\<rparr>;
          (shouldFail, w1) = (if rf_FailCount (rf_config t) > 0 then (rf_currentRun t1 \<le> rf_FailCount (rf_config t), w)
            else (case rand w of (x, w1) \<Rightarrow> (f64_less x (rf_FailRate (rf_config t)), w1)))
      in if shouldFail then ((ExitFailed, Some (NewBatchErrorf (rf_id t) ''Random failure occurred on run %d''
             [ArgInt (rf_currentRun t1), ArgBool False, ArgBool False])), t1, w1)
         else ((ExitCompleted, None), t1, w1))"

definition run_key :: string where
  "run_key = ''random_fail_tasklet.current_run''"

definition RandomFail_SetExecutionContext :: "(f64 \<Rightarrow> int) \<Rightarrow> ec \<Rightarrow> RandomFailTasklet \<Rightarrow> RandomFailTasklet" where
  "RandomFail_SetExecutionContext oor e t = (case ExecutionContext_GetInt oor e run_key of
       Some run \<Rightarrow> t\<lparr>rf_ec := e, rf_currentRun := run\<rparr>
     | None \<Rightarrow> t\<lparr>rf_ec := e\<rparr>)"

text \<open>The count is put into the context that was set.\<close>

definition RandomFail_GetExecutionContext :: "RandomFailTasklet \<Rightarrow> ec \<times> RandomFailTasklet" where
  "RandomFail_GetExecutionContext t =
     (let e = ExecutionContext_Put run_key (VInt (rf_currentRun t)) (rf_ec t) in (e, t\<lparr>rf_ec := e\<rparr>))"

section \<open>The builders\<close>

datatype generic_tasklet = EcWriterTasklet ExecutionContextWriterTasklet | RandomFailing RandomFailTasklet

definition EcWriterTaskletBuilder :: "(string, gval) gomap \<Rightarrow> goerr + generic_tasklet" where
  "EcWriterTaskletBuilder properties = Inr (EcWriterTasklet (NewExecutionContextWriterTasklet ''executionContextWriterTasklet'' properties))"

definition RandomFailTaskletBuilder :: "((string, gval) gomap \<Rightarrow> RandomFailTaskletConfig \<Rightarrow> goerr option \<times> RandomFailTaskletConfig) \<Rightarrow>
    (string, gval) gomap \<Rightarrow> goerr + generic_tasklet" where
  "RandomFailTaskletBuilder bind properties = Inr (RandomFailing (NewRandomFailTasklet bind ''randomFailTasklet'' properties))"

definition RegisterExecutionContextWriterTaskletBuilder :: "'c builder \<Rightarrow> ('y, 'c, 'i, 'j) job_factory \<Rightarrow> ('y, 'c, 'i, 'j) job_factory" where
  "RegisterExecutionContextWriterTaskletBuilder b f = RegisterComponentBuilder ''executionContextWriterTasklet'' b f"

definition RegisterRandomFailTaskletBuilder :: "'c builder \<Rightarrow> ('y, 'c, 'i, 'j) job_factory \<Rightarrow> ('y, 'c, 'i, 'j) job_factory" where
  "RegisterRandomFailTaskletBuilder b f = RegisterComponentBuilder ''randomFailTasklet'' b f"

section \<open>What is written\<close>

definition typed_for :: "string \<Rightarrow> string \<times> gval \<Rightarrow> bool" where
  "typed_for k p \<longleftrightarrow> CHR ''.'' \<in> set (fst p) \<and> property_key (fst p) = k"

lemma write_properties_ok:
  assumes "write_properties pf ident ps e = (None, e')" "distinct (map (property_key \<circ> fst) (filter (\<lambda>p. CHR ''.'' \<in> set (fst p)) ps))"
  shows "(\<forall>(kt, v)\<in>set ps. CHR ''.'' \<in> set kt \<longrightarrow> \<not> isl (convert_property pf kt v))
    \<and> gm_get e' k = (case find (typed_for k) ps of Some (kt, v) \<Rightarrow> Some (projr (convert_property pf kt v)) | None \<Rightarrow> gm_get e k)"
  using assms
proof (induction ps arbitrary: e)
  case (Cons p ps)
  obtain kt v where p: "p = (kt, v)" by fastforce
  show ?case
  proof (cases "CHR ''.'' \<in> set kt")
    case False
    then show ?thesis using Cons p by (simp add: typed_for_def)
  next
    case True
    then obtain v' where v': "convert_property pf kt v = Inr v'"
      and w: "write_properties pf ident ps (ExecutionContext_Put (property_key kt) v' e) = (None, e')"
      using Cons.prems(1) p by (auto split: sum.splits)
    have d: "distinct (map (property_key \<circ> fst) (filter (\<lambda>p. CHR ''.'' \<in> set (fst p)) ps))"
      using Cons.prems(2) p True by (simp add: comp_def)
    have n: "property_key kt = k \<Longrightarrow> find (typed_for k) ps = None"
      using Cons.prems(2) p True by (auto simp: find_None_iff typed_for_def comp_def image_iff)
    note ih = Cons.IH[OF w d]
    show ?thesis
    proof (cases "property_key kt = k")
      case True
      then have "typed_for k (kt, v)" using \<open>CHR ''.'' \<in> set kt\<close> by (simp add: typed_for_def)
      then show ?thesis using ih n[OF True] p v' True by (simp add: ExecutionContext_Put_def)
    next
      case False
      then have "\<not> typed_for k (kt, v)" by (simp add: typed_for_def)
      moreover have "gm_get (ExecutionContext_Put (property_key kt) v' e) k = gm_get e k"
        using False by (auto simp: ExecutionContext_Put_def)
      ultimately show ?thesis using ih p v' by (simp cong: option.case_cong)
    qed
  qed
qed simp

lemma write_properties_failed:
  "write_properties pf ident ps e = (Some err, e') \<Longrightarrow>
    \<exists>kt v er. (kt, v) \<in> set ps \<and> CHR ''.'' \<in> set kt \<and> convert_property pf kt v = Inl er \<and> err = conversion_error ident kt v er"
  by (induction pf ident ps e rule: write_properties.induct) (auto split: if_splits sum.splits)

text \<open>
  A run of the tasklet that writes its properties either succeeds, and then every property with
  a type could be converted, the context of the step has its converted value under its key and is
  otherwise as the tasklet's was; or it fails with the error of a property that could not be
  converted, and leaves the step alone. No two properties have the same key before the type.
\<close>

theorem ec_writer_writes:
  assumes "distinct (map (property_key \<circ> fst) (filter (\<lambda>p. CHR ''.'' \<in> set (fst p)) (ew_properties t)))"
  shows "case EcWriter_Execute pf t se of ((st, err), t', se') \<Rightarrow>
      st = ExitCompleted \<and> err = None \<and> se_ExecutionContext se' = EcWriter_GetExecutionContext t'
        \<and> (\<forall>(kt, v)\<in>set (ew_properties t). CHR ''.'' \<in> set kt \<longrightarrow> \<not> isl (convert_property pf kt v))
        \<and> (\<forall>k. gm_get (se_ExecutionContext se') k = (case find (typed_for k) (ew_properties t) of
              Some (kt, v) \<Rightarrow> Some (projr (convert_property pf kt v)) | None \<Rightarrow> gm_get (ew_ec t) k))
    \<or> st = ExitFailed \<and> se' = se \<and> (\<exists>kt v e. (kt, v) \<in> set (ew_properties t) \<and> CHR ''.'' \<in> set kt
        \<and> convert_property pf kt v = Inl e \<and> err = Some (conversion_error (ew_id t) kt v e))"
proof -
  obtain err e where w: "write_properties pf (ew_id t) (ew_properties t) (ew_ec t) = (err, e)" by fastforce
  show ?thesis
  proof (cases err)
    case None
    show ?thesis using write_properties_ok[OF w[unfolded None] assms] None w
      by (simp add: EcWriter_Execute_def EcWriter_GetExecutionContext_def)
  next
    case (Some er)
    show ?thesis using write_properties_failed[OF w[unfolded Some]] Some w by (simp add: EcWriter_Execute_def)
  qed
qed

definition demo_ec_writer :: ExecutionContextWriterTasklet where
  "demo_ec_writer = NewExecutionContextWriterTasklet ''w'' [(''n.int'', VStr ''42''), (''plain'', VStr ''x''), (''s.text'', VStr ''y'')]"

theorem ec_writer_writes_witness:
  "\<exists>t' se'. EcWriter_Execute (\<lambda>s. Inr NaN) demo_ec_writer zero_StepExecution = ((ExitCompleted, None), t', se')
     \<and> gm_get (se_ExecutionContext se') ''n'' = Some (VInt 42) \<and> gm_get (se_ExecutionContext se') ''plain'' = None"
proof -
  have d: "distinct (map (property_key \<circ> fst) (filter (\<lambda>p. CHR ''.'' \<in> set (fst p)) (ew_properties demo_ec_writer)))" by code_simp
  have r: "fst (EcWriter_Execute (\<lambda>s. Inr NaN) demo_ec_writer zero_StepExecution) = (ExitCompleted, None)" by code_simp
  have f: "find (typed_for ''n'') (ew_properties demo_ec_writer) = Some (''n.int'', VStr ''42'')"
    "find (typed_for ''plain'') (ew_properties demo_ec_writer) = None"
    "projr (convert_property (\<lambda>s. Inr NaN) ''n.int'' (VStr ''42'')) = VInt 42" "gm_get (ew_ec demo_ec_writer) ''plain'' = None" by code_simp+
  obtain t' se' where e: "EcWriter_Execute (\<lambda>s. Inr NaN) demo_ec_writer zero_StepExecution = ((ExitCompleted, None), t', se')"
    using r by (metis prod.collapse)
  have "\<forall>k. gm_get (se_ExecutionContext se') k = (case find (typed_for k) (ew_properties demo_ec_writer) of
      Some (kt, v) \<Rightarrow> Some (projr (convert_property (\<lambda>s. Inr NaN) kt v)) | None \<Rightarrow> gm_get (ew_ec demo_ec_writer) k)"
    using ec_writer_writes[OF d, of "\<lambda>s. Inr NaN" zero_StepExecution] unfolding e prod.case by (elim disjE conjE) (assumption, simp)
  from this[rule_format, of "''n''"] this[rule_format, of "''plain''"] show ?thesis using e f by simp
qed

section \<open>Failing for a number of runs\<close>

text \<open>
  A run of a new tasklet on a stored context, as a tasklet step makes it, and what is stored of the
  context after it. A job that is restarted makes such runs one after the other.
\<close>

definition stored_run :: "(f64 \<Rightarrow> int) \<Rightarrow> (string \<Rightarrow> nat \<Rightarrow> goerr + json) \<Rightarrow> ('w \<Rightarrow> f64 \<times> 'w) \<Rightarrow> RandomFailTasklet \<Rightarrow> ec \<Rightarrow> 'w \<Rightarrow>
    (ExitStatus \<times> (goerr + ec)) \<times> 'w" where
  "stored_run oor mo rand t c w = (case RandomFail_Execute rand (RandomFail_SetExecutionContext oor c t) w of
       ((st, err), t', w') \<Rightarrow> ((st, bind_res (ExecutionContext_Value mo (fst (RandomFail_GetExecutionContext t')))
          (\<lambda>d. ExecutionContext_Scan d NewExecutionContext)), w'))"

fun stored_runs :: "(f64 \<Rightarrow> int) \<Rightarrow> (string \<Rightarrow> nat \<Rightarrow> goerr + json) \<Rightarrow> ('w \<Rightarrow> f64 \<times> 'w) \<Rightarrow> RandomFailTasklet \<Rightarrow> nat \<Rightarrow> ec \<Rightarrow> 'w \<Rightarrow> ExitStatus list" where
  "stored_runs oor mo rand t 0 c w = []"
| "stored_runs oor mo rand t (Suc n) c w = (case stored_run oor mo rand t c w of
       ((st, Inr c'), w') \<Rightarrow> st # stored_runs oor mo rand t n c' w'
     | ((st, Inl e), w') \<Rightarrow> [st])"

lemma storable_image: "storable v \<Longrightarrow> storable (json_image v)"
  by (induction v rule: json_image.induct) (auto simp: list_all_iff f64_of_int_def)

lemma Scan_wf: "ExecutionContext_Scan d [] = Inr c \<Longrightarrow> gm_wf c"
proof -
  have "json_unmarshal_map j [] = Inr c \<Longrightarrow> gm_wf c" for j by (cases j) auto
  then have "scan_text what t [] = Inr c \<Longrightarrow> gm_wf c" for what t
    by (auto simp: scan_text_def NewExecutionContext_def split: dbtext.splits sum.splits)
  then show "ExecutionContext_Scan d [] = Inr c \<Longrightarrow> gm_wf c"
    by (auto simp: ExecutionContext_Scan_def NewExecutionContext_def split: dbval.splits)
qed

lemma storable_entries: "gm_wf c \<Longrightarrow> (\<And>k v. gm_get c k = Some v \<Longrightarrow> storable v) \<Longrightarrow> storable (VCtx c)"
  by (auto simp: list_all_iff gm_wf_def)

text \<open>The contexts after \<open>i\<close> runs.\<close>

definition after_runs :: "(f64 \<Rightarrow> int) \<Rightarrow> nat \<Rightarrow> ec \<Rightarrow> bool" where
  "after_runs oor i c \<longleftrightarrow> gm_wf c \<and> storable (VCtx c) \<and>
     (ExecutionContext_GetInt oor c run_key = Some (int i) \<or> i = 0 \<and> ExecutionContext_GetInt oor c run_key = None)"

lemma stored_after:
  assumes "gm_wf c" "storable (VCtx c)" "i < 2 ^ 53"
  obtains d c' where "ExecutionContext_Value mo (ExecutionContext_Put run_key (VInt (int i)) c) = Inr d"
    "ExecutionContext_Scan d NewExecutionContext = Inr c'" "after_runs oor i c'"
proof -
  let ?c = "ExecutionContext_Put run_key (VInt (int i)) c"
  have st: "gm_get c k = Some v \<Longrightarrow> storable v" for k v using assms(2) by (auto simp: list_all_iff dest: map_of_SomeD)
  have g: "gm_get ?c k = (if k = run_key then Some (VInt (int i)) else gm_get c k)" for k by (simp add: ExecutionContext_Put_def)
  have wf: "gm_wf ?c" using assms(1) by (simp add: ExecutionContext_Put_def)
  have c: "gm_wf ?c" "storable (VCtx ?c)"
    using wf by (simp, intro storable_entries[OF wf]) (auto simp: g split: if_splits intro: st)
  obtain d c' where d: "ExecutionContext_Value mo ?c = Inr d" "ExecutionContext_Scan d [] = Inr c'"
    "\<And>k. gm_get c' k = map_option json_image (gm_get ?c k)"
    using ctx_roundtrip[OF c] by blast
  have "storable v" if got: "gm_get c' k = Some v" for k v
  proof -
    obtain x where "gm_get ?c k = Some x" "v = json_image x" using got d(3)[of k] by (cases "gm_get ?c k") auto
    then show ?thesis using st[of k x] storable_image[of x] by (auto simp: g split: if_splits)
  qed
  then have "storable (VCtx c')" using Scan_wf[OF d(2)] storable_entries by blast
  moreover have "ExecutionContext_GetInt oor c' run_key = Some (int i)"
    using assms(3) by (simp add: ExecutionContext_GetInt_def d(3) g int_of_f64_of_int del: int_of_f64.simps)
  ultimately show ?thesis using that d(1,2) Scan_wf[OF d(2)] by (simp add: after_runs_def NewExecutionContext_def)
qed

lemma stored_run_after:
  assumes "after_runs oor i c" "Suc i < 2 ^ 53" "rf_currentRun t = 0" "0 < rf_FailCount (rf_config t)"
  obtains c' where "stored_run oor mo rand t c w = ((if int i < rf_FailCount (rf_config t) then ExitFailed else ExitCompleted, Inr c'), w)"
    "after_runs oor (Suc i) c'"
proof -
  let ?t = "RandomFail_SetExecutionContext oor c t"
  have t: "rf_ec ?t = c" "rf_config ?t = rf_config t" "rf_currentRun ?t = int i"
    using assms(1,3) by (auto simp: RandomFail_SetExecutionContext_def after_runs_def split: option.split)
  have w: "int_wrap (int i + 1) = int (Suc i)" using assms(2) by (simp add: int_wrap_def)
  obtain d c' where d: "ExecutionContext_Value mo (ExecutionContext_Put run_key (VInt (int (Suc i))) c) = Inr d"
    "ExecutionContext_Scan d NewExecutionContext = Inr c'" "after_runs oor (Suc i) c'"
    using stored_after[of c "Suc i" mo oor] assms(1,2) unfolding after_runs_def by blast
  show ?thesis
  proof (rule that[OF _ d(3)])
    show "stored_run oor mo rand t c w = ((if int i < rf_FailCount (rf_config t) then ExitFailed else ExitCompleted, Inr c'), w)"
      using d(1,2) t w assms(4) by (simp add: stored_run_def RandomFail_Execute_def RandomFail_GetExecutionContext_def Let_def)
  qed
qed

lemma stored_runs_after:
  "after_runs oor i c \<Longrightarrow> i + n < 2 ^ 53 \<Longrightarrow> rf_currentRun t = 0 \<Longrightarrow> 0 < rf_FailCount (rf_config t) \<Longrightarrow>
    stored_runs oor mo rand t n c w = map (\<lambda>j. if int (i + j) < rf_FailCount (rf_config t) then ExitFailed else ExitCompleted) [0..<n]"
proof (induction n arbitrary: i c w)
  case (Suc n)
  obtain c' where r: "stored_run oor mo rand t c w = ((if int i < rf_FailCount (rf_config t) then ExitFailed else ExitCompleted, Inr c'), w)"
    "after_runs oor (Suc i) c'"
    using stored_run_after[OF Suc.prems(1), of t mo rand w] Suc.prems by (metis add_Suc_right add_lessD1 add_Suc)
  have "[0..<Suc n] = 0 # map Suc [0..<n]" by (simp add: map_Suc_upt upt_conv_Cons)
  then show ?case using Suc.IH[OF r(2), of w] Suc.prems r(1) by simp
qed simp

text \<open>
  C40: A failing tasklet with a count of failures, run again and again by a job that is restarted, each
  time made anew and on the context the run before has stored as JSON, fails in exactly that many
  runs and then succeeds: the count it keeps in the context survives the storage.
\<close>

theorem failures_counted:
  assumes "0 < rf_FailCount (rf_config t)" "rf_currentRun t = 0" "n < 2 ^ 53"
    and "gm_wf c" "storable (VCtx c)" "gm_get c run_key = None"
  shows "stored_runs oor mo rand t n c w = map (\<lambda>i. if int i < rf_FailCount (rf_config t) then ExitFailed else ExitCompleted) [0..<n]"
proof -
  have "after_runs oor 0 c" using assms(4-6) by (simp add: after_runs_def ExecutionContext_GetInt_def)
  from stored_runs_after[OF this, of n t mo rand w] show ?thesis using assms(1-3) by simp
qed

theorem failures_counted_witness:
  "stored_runs (\<lambda>f. 0) (\<lambda>t n. Inl json_unsupported) (\<lambda>w. (NaN, w))
     (NewRandomFailTasklet (\<lambda>p d. (None, d\<lparr>rf_FailCount := p\<rparr>)) ''f'' 2) 4 [] () = [ExitFailed, ExitFailed, ExitCompleted, ExitCompleted]"
  using failures_counted[of "NewRandomFailTasklet (\<lambda>p d. (None, d\<lparr>rf_FailCount := p\<rparr>)) ''f'' 2" 4 "[]"
      "\<lambda>f. 0" "\<lambda>t n. Inl json_unsupported" "\<lambda>w. (NaN, w)" "()"]
  by (simp add: NewRandomFailTasklet_def upt_rec)

end
