(* ===== verification/Remote_Submitter.thy ===== *)
theory Remote_Submitter
  imports Step_Executor Mem_Repository Job_Expressions
begin

text \<open>
  The submitter of \<open>infrastructure/remote/bird_submitter.go\<close>, which the remote executor asks to run
  a worker and then to wait for it: it polls the repository until the step execution is finished.
  The wait is a loop that may never end (\<open>partial_function\<close>); what it has seen after any number of
  polls is an inductive relation, and the two are proved to agree.
\<close>

section \<open>The submitter\<close>

record BirdClientSubmitter =
  apiEndpoint :: string
  pollingInterval :: int

definition NewBirdClientSubmitter :: "int \<Rightarrow> BirdClientSubmitter" where
  "NewBirdClientSubmitter pollingIntervalSeconds =
     (let interval = int_wrap (pollingIntervalSeconds * 1000000000)
      in \<lparr>apiEndpoint = '''', pollingInterval = (if interval = 0 then 10000000000 else interval)\<rparr>)"

text \<open>Nothing is submitted.\<close>

definition SubmitWorkerJob :: "StepExecution \<Rightarrow> goerr + string" where
  "SubmitWorkerJob se = Inr (''bird-job-'' @ se_ID se)"

text \<open>
  The surroundings: \<open>be_Wait\<close> says which channel the \<open>select\<close> receives from, the context's when it
  is true, else the ticker's.
\<close>

record 'w bird_env =
  be_Wait :: "'w \<Rightarrow> bool \<times> 'w"
  be_ctxErr :: goerr
  be_Now :: "'w \<Rightarrow> time \<times> 'w"
  be_Find :: "string \<Rightarrow> 'w \<Rightarrow> (goerr + StepExecution) \<times> 'w"
  be_Update :: "StepExecution \<Rightarrow> 'w \<Rightarrow> (goerr option \<times> StepExecution) \<times> 'w"

text \<open>An error of the update is only logged.\<close>

definition wait_interrupted :: "'w bird_env \<Rightarrow> StepExecution \<Rightarrow> 'w \<Rightarrow> (goerr option \<times> StepExecution) \<times> 'w" where
  "wait_interrupted E se w = (case be_Now E w of (now, w1) \<Rightarrow>
     (case be_Update E (StepExecution_MarkAsStopped now se) w1 of ((e, se'), w2) \<Rightarrow>
        ((Some (NewBatchError ''remote_agent'' (''Remote execution wait interrupted: '' @ Error_text (be_ctxErr E))
           (Some (be_ctxErr E)) False True), se'), w2)))"

definition take_result :: "StepExecution \<Rightarrow> StepExecution \<Rightarrow> StepExecution" where
  "take_result latest se = se\<lparr>se_EndTime := se_EndTime latest, se_Status := se_Status latest,
     se_ExitStatus := se_ExitStatus latest, se_Failures := se_Failures latest, se_ReadCount := se_ReadCount latest,
     se_WriteCount := se_WriteCount latest, se_CommitCount := se_CommitCount latest,
     se_RollbackCount := se_RollbackCount latest, se_FilterCount := se_FilterCount latest,
     se_SkipReadCount := se_SkipReadCount latest, se_SkipProcessCount := se_SkipProcessCount latest,
     se_SkipWriteCount := se_SkipWriteCount latest, se_ExecutionContext := se_ExecutionContext latest,
     se_LastUpdated := se_LastUpdated latest\<rparr>"

text \<open>What a poll makes of what the repository returned; \<open>None\<close>: the wait goes on.\<close>

definition poll_result :: "StepExecution \<Rightarrow> goerr + StepExecution \<Rightarrow> (goerr option \<times> StepExecution) option" where
  "poll_result se r = (case r of
       Inl e \<Rightarrow> if errors_Is e ErrStepExecutionNotFound
         then Some (Some (NewBatchErrorf ''remote_agent'' ''StepExecution not found: %s'' [ArgStr (se_ID se)]), se) else None
     | Inr latest \<Rightarrow> if IsFinished (se_Status latest) then
           Some (if se_Status latest = FAILED \<or> se_Status latest = ABANDONED
               then Some (NewBatchErrorf ''remote_agent'' (''Remote StepExecution ID '' @ quoted ''%s'' @ '' failed. Status: %s'')
                 [ArgStr (se_ID se), ArgStr (JobStatus_String (se_Status latest))]) else None, take_result latest se)
         else None)"

partial_function (option) await_loop ::
  "'w bird_env \<Rightarrow> StepExecution \<Rightarrow> 'w \<Rightarrow> ((goerr option \<times> StepExecution) \<times> 'w) option" where
  "await_loop E se w = (case be_Wait E w of (stopped, w1) \<Rightarrow>
     if stopped then Some (wait_interrupted E se w1)
     else (case be_Find E (se_ID se) w1 of (r, w2) \<Rightarrow>
       (case poll_result se r of Some res \<Rightarrow> Some (res, w2) | None \<Rightarrow> await_loop E se w2)))"

text \<open>\<open>None\<close>: the wait never ends. \<open>Some None\<close>: the ticker panics for an interval that is not positive.\<close>

definition AwaitCompletion :: "'w bird_env \<Rightarrow> BirdClientSubmitter \<Rightarrow> string \<Rightarrow> StepExecution \<Rightarrow> 'w \<Rightarrow>
    ((goerr option \<times> StepExecution) \<times> 'w) option option" where
  "AwaitCompletion E s remoteJobID se w =
     (if pollingInterval s \<le> 0 then Some None else map_option Some (await_loop E se w))"

section \<open>Polling\<close>

text \<open>A number of polls after none of which the wait was over.\<close>

inductive polls :: "'w bird_env \<Rightarrow> StepExecution \<Rightarrow> nat \<Rightarrow> 'w \<Rightarrow> 'w \<Rightarrow> bool" for E se where
  no_poll: "polls E se 0 w w"
| next_poll: "be_Wait E w = (False, w1) \<Longrightarrow> be_Find E (se_ID se) w1 = (r, w2) \<Longrightarrow> poll_result se r = None \<Longrightarrow>
    polls E se n w2 w' \<Longrightarrow> polls E se (Suc n) w w'"

inductive_cases pollsE: "polls E se n w w'"

text \<open>The wait ends with the next channel it receives from.\<close>

definition wait_ends :: "'w bird_env \<Rightarrow> StepExecution \<Rightarrow> 'w \<Rightarrow> (goerr option \<times> StepExecution) \<times> 'w \<Rightarrow> bool" where
  "wait_ends E se w res \<longleftrightarrow> (\<exists>w1. be_Wait E w = (True, w1) \<and> res = wait_interrupted E se w1)
     \<or> (\<exists>w1 r w2. be_Wait E w = (False, w1) \<and> be_Find E (se_ID se) w1 = (r, w2) \<and> poll_result se r = Some (fst res) \<and> snd res = w2)"

lemma polls_loop: "polls E se n w w' \<Longrightarrow> await_loop E se w = await_loop E se w'"
proof (induction rule: polls.induct)
  case (next_poll w w1 r w2 n w')
  then show ?case by (subst await_loop.simps) simp
qed simp

lemma polls_append: "polls E se n w w' \<Longrightarrow> polls E se m w' w'' \<Longrightarrow> polls E se (n + m) w w''"
  by (induction rule: polls.induct) (auto intro: polls.next_poll)

lemma wait_ends_loop: "wait_ends E se w res \<Longrightarrow> await_loop E se w = Some res"
  by (subst await_loop.simps) (auto simp: wait_ends_def)

lemma loop_ends:
  assumes "await_loop E se w = Some res"
  shows "\<exists>n w'. polls E se n w w' \<and> wait_ends E se w' res"
proof (rule await_loop.raw_induct[where P = "\<lambda>E se w res. \<exists>n w'. polls E se n w w' \<and> wait_ends E se w' res", OF _ assms])
  fix rec E se w res
  assume ih: "\<And>E se w res. rec E se w = Some res \<Longrightarrow> \<exists>n w'. polls E se n w w' \<and> wait_ends E se w' res"
    and body: "(case be_Wait E w of (stopped, w1) \<Rightarrow> if stopped then Some (wait_interrupted E se w1)
      else (case be_Find E (se_ID se) w1 of (r, w2) \<Rightarrow>
        (case poll_result se r of Some res \<Rightarrow> Some (res, w2) | None \<Rightarrow> rec E se w2))) = Some res"
  obtain stopped w1 where w: "be_Wait E w = (stopped, w1)" by fastforce
  obtain r w2 where f: "be_Find E (se_ID se) w1 = (r, w2)" by fastforce
  have "stopped \<or> poll_result se r \<noteq> None \<Longrightarrow> wait_ends E se w res"
    using body w f by (auto simp: wait_ends_def split: if_splits)
  moreover have "\<exists>n w'. polls E se n w w' \<and> wait_ends E se w' res" if "\<not> stopped" "poll_result se r = None"
  proof -
    have "rec E se w2 = Some res" using body w f that by simp
    then obtain n w' where "polls E se n w2 w'" "wait_ends E se w' res" using ih by blast
    then show ?thesis using polls.next_poll[of E w w1 se r w2] w f that by auto
  qed
  moreover have "wait_ends E se w res \<Longrightarrow> \<exists>n w'. polls E se n w w' \<and> wait_ends E se w' res"
    using polls.no_poll[of E se w] by auto
  ultimately show "\<exists>n w'. polls E se n w w' \<and> wait_ends E se w' res" by argo
qed

lemma loop_goes_on: "await_loop E se w = None \<Longrightarrow> \<exists>w'. polls E se n w w'"
proof (induction n)
  case 0
  show ?case by (rule exI, rule polls.no_poll)
next
  case (Suc n)
  then obtain w' where p: "polls E se n w w'" by blast
  have none: "await_loop E se w' = None" using polls_loop[OF p] Suc.prems by simp
  obtain stopped w1 r w2 where w: "be_Wait E w' = (stopped, w1)" "be_Find E (se_ID se) w1 = (r, w2)" by fastforce
  have "\<not> stopped" "poll_result se r = None"
    using none w by (subst (asm) await_loop.simps, auto split: if_splits option.splits)+
  then have "polls E se (Suc 0) w' w2" using w polls.no_poll polls.next_poll by fastforce
  then show ?case using polls_append[OF p] by fastforce
qed

text \<open>
  C20: Waiting for a remote worker ends after a number of polls exactly when the context is done, the
  step execution is not in the repository, or it is finished; otherwise it goes on for ever. When the
  context is done the step execution is marked as stopped; when it is finished its outcome, counts
  and context are taken over, but not its version, and only a failed or abandoned one is an error.
\<close>

theorem await_completion_outcome:
  assumes "0 < pollingInterval s"
  shows "case AwaitCompletion E s remoteJobID se w of
      None \<Rightarrow> \<forall>n. \<exists>w'. polls E se n w w'
    | Some None \<Rightarrow> False
    | Some (Some ((err, se'), w')) \<Rightarrow> \<exists>n w1 w2. polls E se n w w1 \<and>
        (be_Wait E w1 = (True, w2) \<and> ((err, se'), w') = wait_interrupted E se w2 \<and> err \<noteq> None
       \<or> be_Wait E w1 = (False, w2) \<and> se_Version se' = se_Version se \<and>
          (\<exists>r. be_Find E (se_ID se) w2 = (r, w') \<and> (case r of
              Inl e \<Rightarrow> errors_Is e ErrStepExecutionNotFound \<and> err \<noteq> None \<and> se' = se
            | Inr latest \<Rightarrow> IsFinished (se_Status latest) \<and> se' = take_result latest se
                \<and> (err = None \<longleftrightarrow> se_Status latest \<notin> {FAILED, ABANDONED}))))"
proof (cases "await_loop E se w")
  case None
  then show ?thesis using assms loop_goes_on[OF None] by (simp add: AwaitCompletion_def)
next
  case (Some res)
  obtain err se' w' where res: "res = ((err, se'), w')" by (metis surj_pair)
  obtain n w1 where p: "polls E se n w w1" "wait_ends E se w1 res" using loop_ends[OF Some] by blast
  have "\<exists>w2. be_Wait E w1 = (True, w2) \<and> ((err, se'), w') = wait_interrupted E se w2 \<and> err \<noteq> None
       \<or> be_Wait E w1 = (False, w2) \<and> se_Version se' = se_Version se \<and>
          (\<exists>r. be_Find E (se_ID se) w2 = (r, w') \<and> (case r of
              Inl e \<Rightarrow> errors_Is e ErrStepExecutionNotFound \<and> err \<noteq> None \<and> se' = se
            | Inr latest \<Rightarrow> IsFinished (se_Status latest) \<and> se' = take_result latest se
                \<and> (err = None \<longleftrightarrow> se_Status latest \<notin> {FAILED, ABANDONED})))"
    using p(2) unfolding wait_ends_def
  proof (elim disjE exE conjE)
    fix w2 assume "be_Wait E w1 = (True, w2)" "res = wait_interrupted E se w2"
    then show ?thesis unfolding res
      by (intro exI[of _ w2]) (auto simp: wait_interrupted_def split: prod.splits)
  next
    fix w2 r w3 assume a: "be_Wait E w1 = (False, w2)" "be_Find E (se_ID se) w2 = (r, w3)"
      "poll_result se r = Some (fst res)" "snd res = w3"
    then show ?thesis unfolding res
      by (intro exI[of _ w2]) (auto simp: poll_result_def take_result_def split: sum.splits if_splits)
  qed
  then show ?thesis using p(1) assms Some res by (simp add: AwaitCompletion_def) blast
qed

text \<open>A worker that is finished at the third poll.\<close>

definition demo_bird :: "nat bird_env" where
  "demo_bird = \<lparr>be_Wait = (\<lambda>w. (False, w)), be_ctxErr = context_Canceled, be_Now = (\<lambda>w. (0, w)),
     be_Find = (\<lambda>n w. (Inr (zero_StepExecution\<lparr>se_Status := (if w < 2 then STARTED else COMPLETED), se_ReadCount := 7, se_Version := 5\<rparr>), Suc w)),
     be_Update = (\<lambda>se w. ((None, se), w))\<rparr>"

theorem await_completion_outcome_witness:
  "\<exists>se'. AwaitCompletion demo_bird (NewBirdClientSubmitter 0) ''bird-job-'' zero_StepExecution 0 = Some (Some ((None, se'), 3))
     \<and> se_ReadCount se' = 7 \<and> se_Version se' = 0"
proof -
  have i: "0 < pollingInterval (NewBirdClientSubmitter 0)" by (simp add: NewBirdClientSubmitter_def int_wrap_def)
  have "await_loop demo_bird zero_StepExecution 2
      = Some ((None, take_result (zero_StepExecution\<lparr>se_Status := COMPLETED, se_ReadCount := 7, se_Version := 5\<rparr>) zero_StepExecution), 3)"
    by (subst await_loop.simps) (simp add: demo_bird_def poll_result_def)
  moreover have "await_loop demo_bird zero_StepExecution 0 = await_loop demo_bird zero_StepExecution 1"
    by (subst await_loop.simps) (simp add: demo_bird_def poll_result_def)
  moreover have "await_loop demo_bird zero_StepExecution 1 = await_loop demo_bird zero_StepExecution 2"
    by (subst await_loop.simps) (simp add: demo_bird_def poll_result_def numeral_2_eq_2)
  ultimately obtain se' where se': "AwaitCompletion demo_bird (NewBirdClientSubmitter 0) ''bird-job-'' zero_StepExecution 0 = Some (Some ((None, se'), 3))"
    "se_ReadCount se' = 7" using i by (simp add: AwaitCompletion_def take_result_def)
  have "se_Version se' = se_Version zero_StepExecution"
    using await_completion_outcome[OF i, where E = demo_bird and remoteJobID = "''bird-job-''" and se = zero_StepExecution and w = 0] unfolding se'(1)
    by (auto simp: demo_bird_def)
  then show ?thesis using se' by (simp add: zero_StepExecution_def)
qed

text \<open>
  Since nothing is submitted, a worker whose step execution is stored in memory and that no one else
  runs is waited for until the context is done, if ever.
\<close>

definition mem_bird :: "InMemoryJobRepository bird_env" where
  "mem_bird = \<lparr>be_Wait = (\<lambda>w. (False, w)), be_ctxErr = context_Canceled, be_Now = (\<lambda>w. (0, w)),
     be_Find = (\<lambda>n w. (mem_FindStepExecutionByID w n, w)), be_Update = (\<lambda>se w. ((None, se), w))\<rparr>"

lemma unsubmitted_worker_waits:
  assumes "mem_FindStepExecutionByID w (se_ID se) = Inr latest" "\<not> IsFinished (se_Status latest)"
  shows "await_loop mem_bird se w = None"
proof (rule ccontr)
  assume "await_loop mem_bird se w \<noteq> None"
  then obtain res where "await_loop mem_bird se w = Some res" by blast
  then obtain n w' where p: "polls mem_bird se n w w'" "wait_ends mem_bird se w' res" using loop_ends[of mem_bird se w res] by auto
  have "polls mem_bird se n w w' \<Longrightarrow> w' = w"
    by (induction rule: polls.induct) (simp_all add: mem_bird_def)
  then show False using p assms by (auto simp: wait_ends_def mem_bird_def poll_result_def)
qed

end
