(* ===== verification/Param_Masking.thy ===== *)
theory Param_Masking
  imports Config_Loader Batch_Values
begin

text \<open>
  \<open>support/util/serialization\<close>: execution contexts, job parameters and failures as JSON, where the
  job parameters whose keys the configuration lists are masked. The JSON texts are modelled by their
  values, as in the data model; a nil map or slice is \<open>None\<close>.
\<close>

section \<open>Masking\<close>

definition mask :: string where
  "mask = ''********''"

fun mask_keys :: "string list \<Rightarrow> ec \<Rightarrow> ec" where
  "mask_keys [] m = m"
| "mask_keys (k # ks) m = mask_keys ks (if gm_get m k \<noteq> None then gm_put k (VStr mask) m else m)"

definition GetMaskedJobParametersMap :: "'v Config option \<Rightarrow> ec option \<Rightarrow> ec" where
  "GetMaskedJobParametersMap global params = (case params of
       None \<Rightarrow> []
     | Some m \<Rightarrow> if m = [] then []
         else mask_keys (case GetMaskedParameterKeys global of None \<Rightarrow> [] | Some ks \<Rightarrow> ks) (gm_merge m []))"

section \<open>Maps\<close>

definition serialization_error :: "string \<Rightarrow> goerr \<Rightarrow> goerr" where
  "serialization_error t e = NewBatchError ''serialization'' t (Some e) False False"

definition marshal_map :: "(string \<Rightarrow> nat \<Rightarrow> goerr + json) \<Rightarrow> string \<Rightarrow> ec \<Rightarrow> goerr + dbtext" where
  "marshal_map mo what m = (case json_marshal mo (VMap m) of
       Inl e \<Rightarrow> Inl (serialization_error (''Failed to serialize '' @ what) e)
     | Inr j \<Rightarrow> Inr (TJson j))"

definition MarshalExecutionContext :: "(string \<Rightarrow> nat \<Rightarrow> goerr + json) \<Rightarrow> ec option \<Rightarrow> goerr + dbtext" where
  "MarshalExecutionContext mo c = (case c of None \<Rightarrow> Inr (TJson (JObj [])) | Some m \<Rightarrow> marshal_map mo ''ExecutionContext'' m)"

definition MarshalJobParameters :: "(string \<Rightarrow> nat \<Rightarrow> goerr + json) \<Rightarrow> 'v Config option \<Rightarrow> ec option \<Rightarrow> goerr + dbtext" where
  "MarshalJobParameters mo global params =
     (let m = GetMaskedJobParametersMap global params in
      if m = [] then Inr (TJson (JObj [])) else marshal_map mo ''JobParameters'' m)"

text \<open>Decoding into a map that was cleared; the map is the one left behind, also after an error.\<close>

definition unmarshal_into :: "string \<Rightarrow> dbtext \<Rightarrow> goerr option \<times> ec" where
  "unmarshal_into what t = (case t of
       TEmpty \<Rightarrow> (None, [])
     | TInvalid e \<Rightarrow> (Some (serialization_error (''Failed to deserialize '' @ what) e), [])
     | TJson JNull \<Rightarrow> (None, [])
     | TJson j \<Rightarrow> (case json_unmarshal_map j [] of
           Inl e \<Rightarrow> (Some (serialization_error (''Failed to deserialize '' @ what) e), [])
         | Inr m \<Rightarrow> (None, m)))"

definition UnmarshalExecutionContext :: "dbtext \<Rightarrow> ec option \<Rightarrow> goerr option \<times> ec" where
  "UnmarshalExecutionContext t c = unmarshal_into ''ExecutionContext'' t"

definition UnmarshalJobParameters :: "dbtext \<Rightarrow> ec option \<Rightarrow> goerr option \<times> ec" where
  "UnmarshalJobParameters t params = unmarshal_into ''JobParameters'' t"

section \<open>Failures\<close>

definition MarshalFailures :: "string list option \<Rightarrow> goerr + dbtext" where
  "MarshalFailures failures = (case failures of None \<Rightarrow> Inr (TJson (JArr [])) | Some fs \<Rightarrow> Inr (TJson (JArr (map JStr fs))))"

text \<open>Into a slice that was nil: a \<open>null\<close> among the strings leaves the zero value, the empty string.\<close>

fun json_string :: "json \<Rightarrow> goerr + string" where
  "json_string (JStr s) = Inr s"
| "json_string JNull = Inr []"
| "json_string _ = Inl json_type_error"

definition UnmarshalFailures :: "dbtext \<Rightarrow> goerr + string list" where
  "UnmarshalFailures t = (case t of
       TEmpty \<Rightarrow> Inr []
     | TInvalid e \<Rightarrow> Inl (serialization_error ''Failed to deserialize Failures'' e)
     | TJson JNull \<Rightarrow> Inr []
     | TJson (JArr js) \<Rightarrow> (case collect (map json_string js) of
           Inl e \<Rightarrow> Inl (serialization_error ''Failed to deserialize Failures'' e) | Inr fs \<Rightarrow> Inr fs)
     | TJson j \<Rightarrow> Inl (serialization_error ''Failed to deserialize Failures'' json_type_error))"

section \<open>What is stored and read back\<close>

lemma mask_keys_get: "gm_get (mask_keys ks m) k = (if k \<in> set ks \<and> gm_get m k \<noteq> None then Some (VStr mask) else gm_get m k)"
  by (induction ks arbitrary: m) auto

lemma mask_keys_wf: "gm_wf m \<Longrightarrow> gm_wf (mask_keys ks m)"
  by (induction ks arbitrary: m) auto

lemma storable_map_iff: "gm_wf m \<Longrightarrow> storable (VMap m) \<longleftrightarrow> (\<forall>k v. gm_get m k = Some v \<longrightarrow> storable v)"
  by (auto simp: list_all_iff gm_wf_def dest: map_of_SomeD)

lemma map_round_trip:
  assumes "gm_wf m" "storable (VMap m)"
  obtains j m' where "json_marshal mo (VMap m) = Inr j" "unmarshal_into what (TJson j) = (None, m')"
    "\<And>k. gm_get m' k = map_option json_image (gm_get m k)"
proof -
  obtain j where j: "json_marshal mo (VMap m) = Inr j" "json_value j = json_image (VMap m)"
    using marshal_value[OF assms(2)] by blast
  then obtain kvs where kvs: "j = JObj kvs" by (auto simp: bind_res_Inr_iff)
  let ?img = "map (\<lambda>(k, v). (k, json_image v)) m"
  have "map (\<lambda>(k, j). (k, json_value j)) kvs = ?img" using j kvs by simp
  then have "unmarshal_into what (TJson j) = (None, gm_merge ?img [])" using kvs by (simp add: unmarshal_into_def)
  moreover have "gm_get (gm_merge ?img []) k = map_option json_image (gm_get m k)" for k
    using assms(1) by (simp add: gm_get_merge gm_get_map_values split: option.splits)
  ultimately show ?thesis using that j(1) by blast
qed

lemma context_round_trip:
  assumes "gm_wf m" "storable (VMap m)"
  shows "\<exists>t m'. MarshalExecutionContext mo (Some m) = Inr t \<and> UnmarshalExecutionContext t c = (None, m')
    \<and> (\<forall>k. gm_get m' k = map_option json_image (gm_get m k))"
proof -
  obtain j m' where "json_marshal mo (VMap m) = Inr j" "unmarshal_into ''ExecutionContext'' (TJson j) = (None, m')"
    "\<And>k. gm_get m' k = map_option json_image (gm_get m k)"
    using map_round_trip[OF assms, of mo "''ExecutionContext''"] by blast
  then show ?thesis by (simp add: MarshalExecutionContext_def marshal_map_def UnmarshalExecutionContext_def del: json_marshal.simps)
qed

lemma failures_round_trip: "\<exists>t. MarshalFailures fs = Inr t \<and> UnmarshalFailures t = Inr (case fs of None \<Rightarrow> [] | Some xs \<Rightarrow> xs)"
proof -
  have "collect (map json_string (map JStr xs)) = Inr xs" for xs by (induction xs) auto
  then show ?thesis by (cases fs) (simp_all add: MarshalFailures_def UnmarshalFailures_def)
qed

text \<open>
  Job parameters that are serialized and read back have the mask under every key the configuration
  lists, and under every other key the value they had, as JSON keeps it; no key is added or lost, and
  what the target held before is gone.
\<close>

theorem masked_round_trip:
  assumes "gm_wf m" "storable (VMap m)" "GetMaskedParameterKeys global = Some ks"
  shows "\<exists>t m'. MarshalJobParameters mo global (Some m) = Inr t \<and> UnmarshalJobParameters t old = (None, m')
    \<and> (\<forall>k. gm_get m' k = (if k \<in> set ks \<and> gm_get m k \<noteq> None then Some (VStr mask) else map_option json_image (gm_get m k)))"
proof -
  let ?m = "GetMaskedJobParametersMap global (Some m)"
  have g: "gm_get ?m k = (if k \<in> set ks \<and> gm_get m k \<noteq> None then Some (VStr mask) else gm_get m k)" for k
    using assms(1,3) by (simp add: GetMaskedJobParametersMap_def mask_keys_get gm_get_merge split: option.splits)
  have wf: "gm_wf ?m" by (simp add: GetMaskedJobParametersMap_def mask_keys_wf)
  have st: "storable (VMap ?m)"
    unfolding storable_map_iff[OF wf] using assms(2)[unfolded storable_map_iff[OF assms(1)]] by (auto simp: g split: if_splits)
  show ?thesis
  proof (cases "?m = []")
    case True
    then have "gm_get m k = None" for k using g[of k] by (auto split: if_splits)
    then show ?thesis using True by (simp add: MarshalJobParameters_def UnmarshalJobParameters_def unmarshal_into_def)
  next
    case False
    obtain j m' where j: "json_marshal mo (VMap ?m) = Inr j" "unmarshal_into ''JobParameters'' (TJson j) = (None, m')"
      "\<And>k. gm_get m' k = map_option json_image (gm_get ?m k)"
      using map_round_trip[OF wf st, of mo "''JobParameters''"] by blast
    then have "MarshalJobParameters mo global (Some m) = Inr (TJson j)"
      using False by (simp add: MarshalJobParameters_def marshal_map_def del: json_marshal.simps)
    then show ?thesis using j(2,3) g by (simp add: UnmarshalJobParameters_def)
  qed
qed

theorem masked_round_trip_witness:
  "\<exists>t m'. MarshalJobParameters (\<lambda>t n. Inl json_unsupported) (Some (NewConfig :: nat Config)) (Some [(''user'', VStr ''u''), (''password'', VStr ''p'')]) = Inr t
     \<and> UnmarshalJobParameters t None = (None, m') \<and> gm_get m' ''user'' = Some (VStr ''u'') \<and> gm_get m' ''password'' = Some (VStr mask)"
proof -
  have h: "gm_wf [(''user'', VStr ''u''), (''password'', VStr ''p'')]" "storable (VMap [(''user'', VStr ''u''), (''password'', VStr ''p'')])"
    "GetMaskedParameterKeys (Some (NewConfig :: nat Config)) = Some [''password'', ''api_key'', ''secret'']"
    by (simp_all add: gm_wf_def GetMaskedParameterKeys_def NewConfig_def)
  obtain t m' where r: "MarshalJobParameters (\<lambda>t n. Inl json_unsupported) (Some (NewConfig :: nat Config))
       (Some [(''user'', VStr ''u''), (''password'', VStr ''p'')]) = Inr t" "UnmarshalJobParameters t None = (None, m')"
    "\<And>k. gm_get m' k = (if k \<in> set [''password'', ''api_key'', ''secret''] \<and> gm_get [(''user'', VStr ''u''), (''password'', VStr ''p'')] k \<noteq> None
       then Some (VStr mask) else map_option json_image (gm_get [(''user'', VStr ''u''), (''password'', VStr ''p'')] k))"
    using masked_round_trip[OF h, of "\<lambda>t n. Inl json_unsupported" None] by blast
  then have "gm_get m' ''user'' = Some (VStr ''u'')" "gm_get m' ''password'' = Some (VStr mask)" by (simp_all add: r(3))
  then show ?thesis using r(1,2) by blast
qed

text \<open>A masked key inside of a map is not masked, and what the data model stores is not masked at all.\<close>

lemma nested_secret_kept:
  "gm_get (GetMaskedJobParametersMap (Some (NewConfig :: nat Config)) (Some [(''db'', VMap [(''password'', VStr p)])])) ''db''
     = Some (VMap [(''password'', VStr p)])"
  by (simp add: GetMaskedJobParametersMap_def mask_keys_get gm_get_merge gm_wf_def GetMaskedParameterKeys_def NewConfig_def)

lemma stored_parameters_not_masked:
  "JobParameters_Value mo \<lparr>Params = Some [(''password'', VStr p)]\<rparr> = Inr (DbString (TJson (JObj [(''password'', JStr p)])))"
  by (simp add: JobParameters_Value_def)

end
