(* ===== verification/Otel_Recorder.thy ===== *)
theory Otel_Recorder
  imports Async_Recorder Generic_Tasklets
begin

text \<open>
  The recorder of \<open>adapter/observability/opentelemetry/metrics/recorder.go\<close>, the synchronous recorder
  behind the asynchronous one: which instrument each call updates, by how much and with which
  attributes. The two together account for every item that was counted.

  The meter and the exporters are third parties'. An event holds a pointer to its execution; \<open>oe_job\<close>
  and \<open>oe_step\<close> say what it points to when the event is recorded.
\<close>

section \<open>The instruments\<close>

type_synonym attributes = "(string \<times> string) list"

datatype otel_update = CounterAdd string "64 word" attributes | HistogramRecord string f64 attributes

record OtelMetricRecorder =
  itemSamplingRate :: f64

definition counter_instruments :: "(string \<times> string) list" where
  "counter_instruments = [(''jobStartCounter'', ''surfin.batch.job.start.total''), (''jobEndCounter'', ''surfin.batch.job.end.total''),
     (''stepStartCounter'', ''surfin.batch.step.start.total''), (''stepEndCounter'', ''surfin.batch.step.end.total''),
     (''itemReadCounter'', ''surfin.batch.item.read.total''), (''itemProcessCounter'', ''surfin.batch.item.process.total''),
     (''itemWriteCounter'', ''surfin.batch.item.write.total''), (''itemSkipCounter'', ''surfin.batch.item.skip.total''),
     (''itemRetryCounter'', ''surfin.batch.item.retry.total''), (''chunkCommitCounter'', ''surfin.batch.chunk.commit.total''),
     (''errorCounter'', ''surfin.batch.error.total'')]"

text \<open>The first instrument the meter refuses.\<close>

fun make_instruments :: "(string \<Rightarrow> goerr option) \<Rightarrow> (string \<times> string) list \<Rightarrow> goerr option" where
  "make_instruments meter [] = None"
| "make_instruments meter ((f, n) # is) = (case meter n of
       Some e \<Rightarrow> Some (WrapError (''failed to create '' @ f @ '': '' @ Error_text e) e)
     | None \<Rightarrow> make_instruments meter is)"

definition NewOtelMetricRecorder :: "(string \<Rightarrow> goerr option) \<Rightarrow> f64 \<Rightarrow> goerr + OtelMetricRecorder" where
  "NewOtelMetricRecorder meter rate =
     (case make_instruments meter (counter_instruments @ [(''durationHistogram'', ''surfin.batch.duration.seconds'')]) of
        Some e \<Rightarrow> Inl e | None \<Rightarrow> Inr \<lparr>itemSamplingRate = rate\<rparr>)"

section \<open>Recording\<close>

record 'w otel_env =
  oe_job :: "exec_ref \<Rightarrow> JobExecution"
  oe_step :: "exec_ref \<Rightarrow> StepExecution"
  oe_stepJob :: "exec_ref \<Rightarrow> JobExecution option"
  oe_seconds :: "time \<Rightarrow> time \<Rightarrow> f64"
  oe_isZero :: "time \<Rightarrow> bool"
  oe_rand :: "'w \<Rightarrow> f64 \<times> 'w"

definition OtelRecordDuration :: "string \<Rightarrow> f64 \<Rightarrow> attributes \<Rightarrow> otel_update" where
  "OtelRecordDuration name d attrs = HistogramRecord ''surfin.batch.duration.seconds'' d ((''metric.name'', name) # attrs)"

definition job_attrs :: "JobExecution \<Rightarrow> attributes" where
  "job_attrs je = [(''job.name'', je_JobName je), (''job.execution_id'', je_ID je)]"

definition step_attrs :: "JobExecution \<Rightarrow> StepExecution \<Rightarrow> attributes" where
  "step_attrs je se = [(''job.name'', je_JobName je), (''job.execution_id'', se_JobExecutionID se),
     (''step.name'', se_StepName se), (''step.execution_id'', se_ID se)]"

text \<open>A duration is recorded when there are both times.\<close>

definition duration_of :: "'w otel_env \<Rightarrow> string \<Rightarrow> time option \<Rightarrow> time \<Rightarrow> attributes \<Rightarrow> otel_update list" where
  "duration_of E name endTime startTime attrs = (case endTime of
       Some e \<Rightarrow> if oe_isZero E startTime then [] else [OtelRecordDuration name (oe_seconds E startTime e) attrs]
     | None \<Rightarrow> [])"

definition sampled_out :: "'w otel_env \<Rightarrow> OtelMetricRecorder \<Rightarrow> 'w \<Rightarrow> bool \<times> 'w" where
  "sampled_out E r w = (if f64_less (itemSamplingRate r) (Fin 1)
     then (case oe_rand E w of (x, w1) \<Rightarrow> (f64_less (itemSamplingRate r) x, w1)) else (False, w))"

text \<open>The attributes of a step dereference its job. \<open>None\<close>: a pointer is nil, and the call panics.\<close>

definition on_step :: "'w otel_env \<Rightarrow> exec_ref option \<Rightarrow> (StepExecution \<Rightarrow> attributes \<Rightarrow> otel_update list) \<Rightarrow> otel_update list option" where
  "on_step E se f = (case se of None \<Rightarrow> None
     | Some p \<Rightarrow> (case oe_stepJob E p of None \<Rightarrow> None | Some je \<Rightarrow> Some (f (oe_step E p) (step_attrs je (oe_step E p)))))"

definition count_items :: "'w otel_env \<Rightarrow> OtelMetricRecorder \<Rightarrow> string \<Rightarrow> exec_ref option \<Rightarrow> 64 word \<Rightarrow> 'w \<Rightarrow> otel_update list option \<times> 'w" where
  "count_items E r name se n w = (case sampled_out E r w of
       (True, w1) \<Rightarrow> (Some [], w1) | (False, w1) \<Rightarrow> (on_step E se (\<lambda>_ attrs. [CounterAdd name n attrs]), w1))"

fun otel_record :: "'w otel_env \<Rightarrow> OtelMetricRecorder \<Rightarrow> (string \<times> string) sync_call \<Rightarrow> 'w \<Rightarrow> otel_update list option \<times> 'w" where
  "otel_record E r (SyncJobStart je) w = ((case je of None \<Rightarrow> None
     | Some p \<Rightarrow> Some [CounterAdd ''surfin.batch.job.start.total'' 1 (job_attrs (oe_job E p))]), w)"
| "otel_record E r (SyncJobEnd je) w = ((case je of None \<Rightarrow> None
     | Some p \<Rightarrow> (let j = oe_job E p; attrs = job_attrs j @ [(''job.status'', JobStatus_String (je_Status j)),
          (''job.exit_status'', ExitStatus_String (je_ExitStatus j))]
        in Some (CounterAdd ''surfin.batch.job.end.total'' 1 attrs # duration_of E ''job.duration'' (je_EndTime j) (je_StartTime j) attrs))), w)"
| "otel_record E r (SyncStepStart se) w = (on_step E se (\<lambda>_ attrs. [CounterAdd ''surfin.batch.step.start.total'' 1 attrs]), w)"
| "otel_record E r (SyncStepEnd se) w = (on_step E se (\<lambda>s attrs0.
     (let attrs = attrs0 @ [(''step.status'', JobStatus_String (se_Status s)), (''step.exit_status'', ExitStatus_String (se_ExitStatus s))]
      in CounterAdd ''surfin.batch.step.end.total'' 1 attrs # duration_of E ''step.duration'' (se_EndTime s) (se_StartTime s) attrs)), w)"
| "otel_record E r (SyncItemRead se n) w = count_items E r ''surfin.batch.item.read.total'' se n w"
| "otel_record E r (SyncItemProcess se n) w = count_items E r ''surfin.batch.item.process.total'' se n w"
| "otel_record E r (SyncItemWrite se n) w = count_items E r ''surfin.batch.item.write.total'' se n w"
| "otel_record E r (SyncItemSkip se err) w = (on_step E se (\<lambda>_ attrs.
     [CounterAdd ''surfin.batch.item.skip.total'' 1 (attrs @ [(''skip.reason'', ExtractErrorMessage err)])]), w)"
| "otel_record E r (SyncItemRetry se err) w = (on_step E se (\<lambda>_ attrs.
     [CounterAdd ''surfin.batch.item.retry.total'' 1 (attrs @ [(''retry.reason'', ExtractErrorMessage err)])]), w)"
| "otel_record E r (SyncChunkCommit se n) w = (on_step E se (\<lambda>_ attrs. [CounterAdd ''surfin.batch.chunk.commit.total'' n attrs]), w)"
| "otel_record E r (SyncDuration name d attrs) w = (Some [OtelRecordDuration name d attrs], w)"
| "otel_record E r (SyncExecutionError err) w =
     (Some [CounterAdd ''surfin.batch.error.total'' 1 [(''error.message'', ExtractErrorMessage err)]], w)"

fun otel_records :: "'w otel_env \<Rightarrow> OtelMetricRecorder \<Rightarrow> (string \<times> string) sync_call list \<Rightarrow> 'w \<Rightarrow> otel_update list option \<times> 'w" where
  "otel_records E r [] w = (Some [], w)"
| "otel_records E r (c # cs) w = (case otel_record E r c w of
       (None, w1) \<Rightarrow> (None, w1)
     | (Some us, w1) \<Rightarrow> (case otel_records E r cs w1 of (None, w2) \<Rightarrow> (None, w2) | (Some vs, w2) \<Rightarrow> (Some (us @ vs), w2)))"

section \<open>Totals\<close>

text \<open>What a counter shows, summed over its attributes.\<close>

fun added_to :: "string \<Rightarrow> otel_update \<Rightarrow> 64 word" where
  "added_to nm (CounterAdd n v attrs) = (if n = nm then v else 0)"
| "added_to nm (HistogramRecord n d attrs) = 0"

definition added_total :: "string \<Rightarrow> otel_update list \<Rightarrow> 64 word" where
  "added_total nm us = sum_list (map (added_to nm) us)"

text \<open>The types of events the asynchronous recorder counts, and the counters they end up in.\<close>

definition counted :: "(string \<times> string) list" where
  "counted = [(''item_read'', ''surfin.batch.item.read.total''), (''item_process'', ''surfin.batch.item.process.total''),
     (''item_write'', ''surfin.batch.item.write.total''), (''chunk_commit'', ''surfin.batch.chunk.commit.total'')]"

fun call_count :: "string \<Rightarrow> 'a sync_call \<Rightarrow> 64 word" where
  "call_count ty (SyncItemRead se n) = (if ty = ''item_read'' then n else 0)"
| "call_count ty (SyncItemProcess se n) = (if ty = ''item_process'' then n else 0)"
| "call_count ty (SyncItemWrite se n) = (if ty = ''item_write'' then n else 0)"
| "call_count ty (SyncChunkCommit se n) = (if ty = ''chunk_commit'' then n else 0)"
| "call_count ty _ = 0"

definition event_counts :: "string \<Rightarrow> 'a MetricEvent list \<Rightarrow> 64 word" where
  "event_counts ty es = sum_list (map (\<lambda>e. if ev_Type e = ty then ev_Count e else 0) es)"

lemma event_counts_simps [simp]:
  "event_counts ty [] = 0" "event_counts ty (e # es) = (if ev_Type e = ty then ev_Count e else 0) + event_counts ty es"
  "event_counts ty (es @ es') = event_counts ty es + event_counts ty es'"
  by (simp_all add: event_counts_def)

lemma added_total_append [simp]: "added_total nm (us @ vs) = added_total nm us + added_total nm vs"
  by (simp add: added_total_def)

lemma counted_cases:
  assumes "(ty, nm) \<in> set counted"
  obtains "ty = ''item_read''" "nm = ''surfin.batch.item.read.total''" | "ty = ''item_process''" "nm = ''surfin.batch.item.process.total''"
  | "ty = ''item_write''" "nm = ''surfin.batch.item.write.total''" | "ty = ''chunk_commit''" "nm = ''surfin.batch.chunk.commit.total''"
proof -
  have "(ty, nm) = (''item_read'', ''surfin.batch.item.read.total'') \<or> (ty, nm) = (''item_process'', ''surfin.batch.item.process.total'')
    \<or> (ty, nm) = (''item_write'', ''surfin.batch.item.write.total'') \<or> (ty, nm) = (''chunk_commit'', ''surfin.batch.chunk.commit.total'')"
    using assms unfolding counted_def list.set insert_iff empty_iff by (simp only: HOL.simp_thms)
  then show thesis unfolding prod.inject by (elim disjE conjE) (erule (1) that)+
qed

lemma added_total_simps [simp]:
  "added_total nm [] = 0" "added_total nm (CounterAdd n v attrs # us) = (if n = nm then v else 0) + added_total nm us"
  "added_total nm (OtelRecordDuration n d attrs # us) = added_total nm us" "added_total nm (duration_of E n et st attrs) = 0"
  by (simp_all add: added_total_def duration_of_def OtelRecordDuration_def split: option.splits)

lemma on_step_total: "on_step E se f = Some us \<Longrightarrow> (\<And>s attrs. added_total nm (f s attrs) = v) \<Longrightarrow> added_total nm us = v"
  by (auto simp: on_step_def split: option.splits)

lemma count_items_total:
  "count_items E r n se v w = (Some us, w') \<Longrightarrow> \<not> f64_less (itemSamplingRate r) (Fin 1) \<Longrightarrow> added_total nm us = (if n = nm then v else 0)"
  by (auto simp: count_items_def sampled_out_def elim!: on_step_total)

text \<open>The counter a call adds to when it is not sampled out, and what it adds.\<close>

fun adds_to :: "'a sync_call \<Rightarrow> string \<times> 64 word" where
  "adds_to (SyncJobStart je) = (''surfin.batch.job.start.total'', 1)"
| "adds_to (SyncJobEnd je) = (''surfin.batch.job.end.total'', 1)"
| "adds_to (SyncStepStart se) = (''surfin.batch.step.start.total'', 1)"
| "adds_to (SyncStepEnd se) = (''surfin.batch.step.end.total'', 1)"
| "adds_to (SyncItemRead se n) = (''surfin.batch.item.read.total'', n)"
| "adds_to (SyncItemProcess se n) = (''surfin.batch.item.process.total'', n)"
| "adds_to (SyncItemWrite se n) = (''surfin.batch.item.write.total'', n)"
| "adds_to (SyncItemSkip se err) = (''surfin.batch.item.skip.total'', 1)"
| "adds_to (SyncItemRetry se err) = (''surfin.batch.item.retry.total'', 1)"
| "adds_to (SyncChunkCommit se n) = (''surfin.batch.chunk.commit.total'', n)"
| "adds_to (SyncDuration name d attrs) = ([], 0)"
| "adds_to (SyncExecutionError err) = (''surfin.batch.error.total'', 1)"

lemma record_adds:
  assumes "\<not> f64_less (itemSamplingRate r) (Fin 1)" "otel_record E r c w = (Some us, w')"
  shows "added_total nm us = (if fst (adds_to c) = nm then snd (adds_to c) else 0)"
  using assms
  by (cases c) (auto simp: Let_def on_step_def
      dest!: count_items_total[where nm=nm] split: option.splits)

lemma call_count_adds: "(ty, nm) \<in> set counted \<Longrightarrow> call_count ty c = (if fst (adds_to c) = nm then snd (adds_to c) else 0)"
  by (cases c; erule counted_cases; simp)

lemma record_total:
  "(ty, nm) \<in> set counted \<Longrightarrow> \<not> f64_less (itemSamplingRate r) (Fin 1) \<Longrightarrow> otel_record E r c w = (Some us, w')
    \<Longrightarrow> added_total nm us = call_count ty c"
  by (simp add: record_adds call_count_adds)

lemma records_total:
  assumes "(ty, nm) \<in> set counted" "\<not> f64_less (itemSamplingRate r) (Fin 1)"
  shows "otel_records E r cs w = (Some us, w') \<Longrightarrow> added_total nm us = sum_list (map (call_count ty) cs)"
proof (induction cs arbitrary: w us)
  case Nil
  then show ?case by (simp add: added_total_def)
next
  case (Cons c cs)
  then obtain us1 w1 us2 where "otel_record E r c w = (Some us1, w1)" "otel_records E r cs w1 = (Some us2, w')" "us = us1 @ us2"
    by (auto split: prod.splits option.splits)
  then show ?case using record_total[OF assms] Cons.IH by fastforce
qed

lemma processEvent_count:
  "(ty, nm) \<in> set counted \<Longrightarrow> sum_list (map (call_count ty) (processEvent e)) = (if ev_Type e = ty then ev_Count e else 0)"
  by (cases "ev_Type e = ty"; erule counted_cases; simp add: processEvent_def)

section \<open>Where the counts go\<close>

definition drops_of :: "string \<Rightarrow> 'a label \<Rightarrow> 64 word" where
  "drops_of ty l = (case l of CountFlushed t v (EvDropped e ident) \<Rightarrow> if t = ty then v else 0 | _ \<Rightarrow> 0)"

text \<open>An event with a count comes from a flush, and holds what was flushed.\<close>

definition label_ok :: "'a label \<Rightarrow> bool" where
  "label_ok l = (case l of
       CountFlushed t v (EvAccepted e) \<Rightarrow> ev_Type e = t \<and> ev_Count e = v
     | CountFlushed t v l' \<Rightarrow> (\<exists>e ident. l' = EvDropped e ident)
     | EvAccepted e \<Rightarrow> ev_Type e \<notin> fst ` set counted
     | _ \<Rightarrow> True)"

definition sends_ok :: "'a op list \<Rightarrow> bool" where
  "sends_ok os \<longleftrightarrow> (\<forall>e ident. Send e ident \<in> set os \<longrightarrow> ev_Type e \<notin> fst ` set counted)"

lemma call_ops_ok: "sends_ok (call_ops c)"
  by (cases c) (auto simp: sends_ok_def counted_def zero_event_def)

lemma program_ok: "\<forall>os\<in>set (program css). sends_ok os"
  using call_ops_ok by (auto simp: program_def sends_ok_def)

lemma caller_ops_ok: "sends_ok (op # os) \<Longrightarrow> sends_ok os"
  by (simp add: sends_ok_def)

lemma callers_updated: "\<forall>x\<in>set ts. P x \<Longrightarrow> P y \<Longrightarrow> \<forall>x\<in>set (ts[i := y]). P x"
  using set_update_subset_insert[of ts i y] by auto

lemma caller_step_ok:
  assumes "caller_step (ts, r) l (ts', r')" "\<forall>os\<in>set ts. sends_ok os"
  shows "label_ok l \<and> (\<forall>os\<in>set ts'. sends_ok os)"
proof -
  have ok: "sends_ok (ts ! i)" if "i < length ts" for i using assms(2) that by simp
  show ?thesis
    using assms(1)
  proof (cases rule: caller_step.cases)
    case (send i e ident os)
    then show ?thesis using ok[of i] callers_updated[OF assms(2), of os i]
      by (auto simp: label_ok_def sent_label_def sends_ok_def)
  next
    case (incr i ty n os)
    then show ?thesis using ok[of i] callers_updated[OF assms(2), of os i] by (auto simp: label_ok_def dest: caller_ops_ok)
  next
    case (flush_lock i se os tys)
    then show ?thesis using ok[of i] callers_updated[OF assms(2), of "Flushing se tys # os" i] by (auto simp: label_ok_def sends_ok_def)
  next
    case (flush_send i se ty tys os)
    then show ?thesis using ok[of i] callers_updated[OF assms(2), of "Flushing se tys # os" i]
      by (auto simp: label_ok_def sent_label_def flush_event_def zero_event_def sends_ok_def)
  next
    case (flush_skip i se ty tys os)
    then show ?thesis using ok[of i] callers_updated[OF assms(2), of "Flushing se tys # os" i] by (auto simp: label_ok_def sends_ok_def)
  next
    case (flush_done i se os)
    then show ?thesis using ok[of i] callers_updated[OF assms(2), of os i] by (auto simp: label_ok_def dest: caller_ops_ok)
  next
    case (close_stop i os)
    then show ?thesis using ok[of i] callers_updated[OF assms(2), of os i] by (auto simp: label_ok_def dest: caller_ops_ok)
  next
    case (close_wait i os)
    then show ?thesis using ok[of i] callers_updated[OF assms(2), of os i] by (auto simp: label_ok_def dest: caller_ops_ok)
  qed
qed

lemma labels_ok_run:
  assumes "async_run s0 ls s" "\<forall>os\<in>set (fst s0). sends_ok os"
  shows "(\<forall>l\<in>set ls. label_ok l) \<and> (\<forall>os\<in>set (fst s). sends_ok os)"
  using assms
proof (induction rule: async_run.induct)
  case (caller ls s l s')
  have ih: "\<forall>l\<in>set ls. label_ok l" "\<forall>os\<in>set (fst s). sends_ok os" using caller.IH[OF caller.prems] by simp_all
  have "label_ok l \<and> (\<forall>os\<in>set (fst s'). sends_ok os)"
    by (rule caller_step_ok[of "fst s" "snd s" l "fst s'" "snd s'"]) (use caller.hyps ih in simp_all)
  then show ?case using ih by simp
next
  case (worker ls ts r l r')
  then show ?case by (auto elim!: worker_runE simp: label_ok_def)
qed simp

lemma flushed_splits:
  "label_ok l \<Longrightarrow> ty \<in> fst ` set counted \<Longrightarrow> flushed_of ty l = event_counts ty (accepted_of l) + drops_of ty l"
  by (cases l) (auto simp: label_ok_def drops_of_def split: label.splits)

lemma logged_counts:
  "label_ok l \<Longrightarrow> (ty, nm) \<in> set counted \<Longrightarrow> sum_list (map (call_count ty) (logged_of l)) = event_counts ty (processed_of l)"
  by (cases l) (auto simp: label_ok_def processEvent_count split: label.splits)

lemma flushed_counts:
  assumes "\<forall>l\<in>set ls. label_ok l" "(ty, nm) \<in> set counted"
  shows "sum_list (map (flushed_of ty) ls) = event_counts ty (accepted ls) + sum_list (map (drops_of ty) ls)"
    and "sum_list (map (call_count ty) (logged ls)) = event_counts ty (processed ls)"
proof -
  have "ty \<in> fst ` set counted" using assms(2) by force
  then show "sum_list (map (flushed_of ty) ls) = event_counts ty (accepted ls) + sum_list (map (drops_of ty) ls)"
    using assms(1) by (induction ls) (simp_all add: flushed_splits)
  show "sum_list (map (call_count ty) (logged ls)) = event_counts ty (processed ls)"
    using assms(1) by (induction ls) (simp_all add: logged_counts[OF _ assms(2)])
qed

section \<open>Properties\<close>

text \<open>
  C36: Of what the calls of a program counted, under every interleaving, the counter of OpenTelemetry has
  been added, modulo $2^{64}$, all but what the worker holds or the queue still keeps, what was dropped
  because the queue was full and what no step end has flushed yet, when no items are sampled out.
\<close>

theorem otel_counts_items:
  assumes "async_run (program css, NewAsyncMetricRecorder n) ls (ts, r)" "(ty, nm) \<in> set counted"
    "\<not> f64_less (itemSamplingRate R) (Fin 1)" "otel_records E R (syncRecorder r) w = (Some us, w')"
  shows "sum_list (map (added_of ty) ls) = added_total nm us + event_counts ty (in_hand r @ eventQueue r)
    + sum_list (map (drops_of ty) ls) + counter ty r"
proof -
  have ok: "\<forall>l\<in>set ls. label_ok l" using labels_ok_run[OF assms(1)] program_ok[of css] by auto
  have ev: "events_inv ls r" using events_inv_run[OF assms(1)] by (simp add: events_inv_new)
  have "sum_list (map (added_of ty) ls) = sum_list (map (flushed_of ty) ls) + counter ty r"
    using counts_inv_run[OF assms(1), of ty] by (simp add: counts_inv_def NewAsyncMetricRecorder_def Let_def counter_def)
  moreover have "added_total nm us = event_counts ty (processed ls)"
    using records_total[OF assms(2,3,4)] flushed_counts(2)[OF ok assms(2)] ev by (simp add: events_inv_def)
  ultimately show ?thesis using flushed_counts(1)[OF ok assms(2)] ev by (simp add: events_inv_def)
qed

text \<open>A step that reads five items and ends, and its job.\<close>

definition count_calls :: "(string \<times> string) metric_call list list" where
  "count_calls = [[RecordItemRead ''A'' 5, RecordItemRead ''A'' 2], [RecordStepEnd ''A'']]"

definition count_schedule :: "choice list" where
  "count_schedule = [Caller 0 [], Caller 1 [''item_read''], Caller 1 [], Caller 1 [], Worker False, Worker False, Caller 0 []]"

definition count_result :: "((string \<times> string) label list \<times> (string \<times> string) astate) option" where
  "count_result = schedule count_schedule ([], (program count_calls, NewAsyncMetricRecorder 0))"

definition count_job :: JobExecution where
  "count_job = NewJobExecution ''e'' 0 0 ''i'' ''job'' NewJobParameters"

lemma count_some: "count_result \<noteq> None"
  by code_simp

lemma count_facts:
  "(case the count_result of (ls, ts, r) \<Rightarrow> syncRecorder r = [SyncItemRead (Some ''A'') 5] \<and> in_hand r = [] \<and> eventQueue r = []
     \<and> counter ''item_read'' r = 2 \<and> sum_list (map (drops_of ''item_read'') ls) = 0)"
  by code_simp

definition count_env :: "unit otel_env" where
  "count_env = \<lparr>oe_job = (\<lambda>p. count_job),
     oe_step = (\<lambda>p. NewStepExecution 0 p count_job ''read''),
     oe_stepJob = (\<lambda>p. Some count_job), oe_seconds = (\<lambda>s e. Fin 0), oe_isZero = (\<lambda>t. t = 0),
     oe_rand = (\<lambda>w. (Fin 0, w))\<rparr>"

theorem otel_counts_items_witness:
  "\<exists>ls ts r us. count_result = Some (ls, ts, r)
    \<and> otel_records count_env \<lparr>itemSamplingRate = Fin 1\<rparr> (syncRecorder r) () = (Some us, ())
    \<and> sum_list (map (added_of ''item_read'') ls) = 7 \<and> added_total ''surfin.batch.item.read.total'' us = 5 \<and> counter ''item_read'' r = 2"
proof -
  obtain ls ts r where res: "count_result = Some (ls, ts, r)"
    using option.exhaust[of count_result] prod_cases3 by (metis (no_types) count_some)
  have run: "async_run (program count_calls, NewAsyncMetricRecorder 0) ls (ts, r)"
    using schedule_run[OF async_run.start, of count_schedule "(program count_calls, NewAsyncMetricRecorder 0)"] res
    by (simp add: count_result_def)
  have log: "syncRecorder r = [SyncItemRead (Some ''A'') 5]" "in_hand r = []" "eventQueue r = []" "counter ''item_read'' r = 2"
    "sum_list (map (drops_of ''item_read'') ls) = 0"
    using count_facts unfolding res option.sel prod.case by blast+
  have rec: "otel_records count_env \<lparr>itemSamplingRate = Fin 1\<rparr> [SyncItemRead (Some ''A'') 5] ()
    = (Some [CounterAdd ''surfin.batch.item.read.total'' 5 (step_attrs count_job (oe_step count_env ''A''))], ())"
    by (simp add: count_items_def sampled_out_def on_step_def count_env_def)
  have "sum_list (map (added_of ''item_read'') ls) = 5 + 2"
    using otel_counts_items[OF run, of "''item_read''" "''surfin.batch.item.read.total''" "\<lparr>itemSamplingRate = Fin 1\<rparr>" count_env "()"] rec log
    by (simp add: counted_def)
  then have "count_result = Some (ls, ts, r)
    \<and> otel_records count_env \<lparr>itemSamplingRate = Fin 1\<rparr> (syncRecorder r) ()
      = (Some [CounterAdd ''surfin.batch.item.read.total'' 5 (step_attrs count_job (oe_step count_env ''A''))], ())
    \<and> sum_list (map (added_of ''item_read'') ls) = 7
    \<and> added_total ''surfin.batch.item.read.total''
        [CounterAdd ''surfin.batch.item.read.total'' 5 (step_attrs count_job (oe_step count_env ''A''))] = 5 \<and> counter ''item_read'' r = 2"
    unfolding log(1) rec using res log by simp
  then show ?thesis by blast
qed

end
