(* ===== verification/Job_Listeners.thy ===== *)
theory Job_Listeners
  imports Chunk_Step Async_Recorder
begin

text \<open>
  The listeners with a state or an effect beyond a log line: the signaler that closes a channel when
  a job is done (\<open>listener/job_completion_signaler.go\<close>), the tracing listeners
  (\<open>listener/tracing\<close>), the metrics listeners (\<open>listener/metrics/metrics_listeners.go\<close>) with
  what they record of a chunk step, and the waiter between retries (\<open>engine/step/retry/backoff.go\<close>).
\<close>

section \<open>The end of a job\<close>

text \<open>
  \<open>AfterJob\<close> first asks whether the channel is closed and then closes it, in two steps: other
  goroutines, for other jobs with the same channel, may run between. Closing a closed channel panics.
\<close>

datatype after_job = ToCheck | ToClose | Signalled | ClosePanic

type_synonym signal_state = "bool \<times> after_job list"

inductive AfterJob_step :: "signal_state \<Rightarrow> signal_state \<Rightarrow> bool" where
  already_closed: "i < length ts \<Longrightarrow> ts ! i = ToCheck \<Longrightarrow> AfterJob_step (True, ts) (True, ts[i := Signalled])"
| not_closed: "i < length ts \<Longrightarrow> ts ! i = ToCheck \<Longrightarrow> AfterJob_step (False, ts) (False, ts[i := ToClose])"
| close_channel: "i < length ts \<Longrightarrow> ts ! i = ToClose \<Longrightarrow> AfterJob_step (False, ts) (True, ts[i := Signalled])"
| close_closed: "i < length ts \<Longrightarrow> ts ! i = ToClose \<Longrightarrow> AfterJob_step (True, ts) (True, ts[i := ClosePanic])"

inductive_cases AfterJob_stepE: "AfterJob_step s s'"

definition signal_start :: "nat \<Rightarrow> signal_state" where
  "signal_start n = (False, replicate n ToCheck)"

text \<open>An open channel has signalled nobody; a closed one was closed by one goroutine that did not panic.\<close>

definition signal_inv :: "nat \<Rightarrow> signal_state \<Rightarrow> bool" where
  "signal_inv n s \<longleftrightarrow> length (snd s) = n \<and>
     (if fst s then Signalled \<in> set (snd s) else set (snd s) \<subseteq> {ToCheck, ToClose})"

lemma signal_inv_step: "AfterJob_step s s' \<Longrightarrow> signal_inv n s \<Longrightarrow> signal_inv n s'"
proof (induction rule: AfterJob_step.induct)
  case (already_closed i ts)
  then show ?case by (auto simp: signal_inv_def set_update_memI)
next
  case (not_closed i ts)
  then show ?case using set_update_subset_insert[of ts i ToClose] by (auto simp: signal_inv_def)
next
  case (close_channel i ts)
  then show ?case by (auto simp: signal_inv_def set_update_memI)
next
  case (close_closed i ts)
  then obtain j where "j < length ts" "ts ! j = Signalled" by (auto simp: signal_inv_def in_set_conv_nth)
  then have "j < length (ts[i := ClosePanic])" "ts[i := ClosePanic] ! j = Signalled"
    using close_closed(2) by (cases "i = j"; simp)+
  then have "Signalled \<in> set (ts[i := ClosePanic])" by (metis nth_mem)
  then show ?case using close_closed by (simp add: signal_inv_def)
qed

lemma signal_inv_reach:
  assumes "AfterJob_step\<^sup>*\<^sup>* (signal_start n) s" shows "signal_inv n s"
  using assms
proof (induction rule: rtranclp_induct)
  case base
  show ?case by (auto simp: signal_start_def signal_inv_def)
next
  case (step s s')
  then show ?case using signal_inv_step by blast
qed

lemma signal_stuck: "(\<nexists>s'. AfterJob_step (c, ts) s') \<longleftrightarrow> set ts \<subseteq> {Signalled, ClosePanic}"
proof
  assume h: "\<nexists>s'. AfterJob_step (c, ts) s'"
  show "set ts \<subseteq> {Signalled, ClosePanic}"
  proof
    fix t assume "t \<in> set ts"
    then obtain i where i: "i < length ts" "ts ! i = t" by (auto simp: in_set_conv_nth)
    show "t \<in> {Signalled, ClosePanic}"
      using h i(2) AfterJob_step.intros[OF i(1)] by (cases t; cases c) auto
  qed
next
  assume "set ts \<subseteq> {Signalled, ClosePanic}"
  then show "\<nexists>s'. AfterJob_step (c, ts) s'" by (auto elim!: AfterJob_stepE dest!: nth_mem)
qed

text \<open>
  When \<open>n\<close> jobs end with the same signaler, under every interleaving a state in which no goroutine
  can go on has the channel closed, by one of them that returned; with one job none panics, and with
  two or more there is an interleaving in which one does, for want of a lock around check and close.
\<close>

theorem jobs_signalled:
  assumes "0 < n"
  shows "(\<forall>c ts. AfterJob_step\<^sup>*\<^sup>* (signal_start n) (c, ts) \<and> set ts \<subseteq> {Signalled, ClosePanic} \<longrightarrow> c \<and> Signalled \<in> set ts)
    \<and> ((\<exists>c ts. AfterJob_step\<^sup>*\<^sup>* (signal_start n) (c, ts) \<and> ClosePanic \<in> set ts) \<longleftrightarrow> 2 \<le> n)"
proof (intro conjI allI impI iffI)
  fix c ts assume r: "AfterJob_step\<^sup>*\<^sup>* (signal_start n) (c, ts) \<and> set ts \<subseteq> {Signalled, ClosePanic}"
  then have inv: "signal_inv n (c, ts)" using signal_inv_reach by blast
  have "ts \<noteq> []" using inv assms by (auto simp: signal_inv_def)
  then have "\<not> set ts \<subseteq> {ToCheck, ToClose}" using r by (cases ts) auto
  then show "c" "Signalled \<in> set ts" using inv by (auto simp: signal_inv_def split: if_splits)
next
  assume "\<exists>c ts. AfterJob_step\<^sup>*\<^sup>* (signal_start n) (c, ts) \<and> ClosePanic \<in> set ts"
  then obtain c ts where r: "AfterJob_step\<^sup>*\<^sup>* (signal_start n) (c, ts)" "ClosePanic \<in> set ts" by blast
  have inv: "signal_inv n (c, ts)" using signal_inv_reach[OF r(1)] .
  then have "Signalled \<in> set ts" using r(2) by (auto simp: signal_inv_def split: if_splits)
  then have "card {Signalled, ClosePanic} \<le> card (set ts)" using r(2) by (intro card_mono) auto
  then show "2 \<le> n" using inv card_length[of ts] by (simp add: signal_inv_def)
next
  assume "2 \<le> n"
  then obtain m where n: "n = Suc (Suc m)" by (metis Suc_le_D numeral_2_eq_2 Suc_le_mono)
  let ?r = "replicate m ToCheck"
  have "AfterJob_step (False, ToCheck # ToCheck # ?r) (False, ToClose # ToCheck # ?r)"
    using not_closed[of 0 "ToCheck # ToCheck # ?r"] by simp
  moreover have "AfterJob_step (False, ToClose # ToCheck # ?r) (False, ToClose # ToClose # ?r)"
    using not_closed[of 1 "ToClose # ToCheck # ?r"] by simp
  moreover have "AfterJob_step (False, ToClose # ToClose # ?r) (True, Signalled # ToClose # ?r)"
    using close_channel[of 0 "ToClose # ToClose # ?r"] by simp
  moreover have "AfterJob_step (True, Signalled # ToClose # ?r) (True, Signalled # ClosePanic # ?r)"
    using close_closed[of 1 "Signalled # ToClose # ?r"] by simp
  ultimately have "AfterJob_step\<^sup>*\<^sup>* (signal_start n) (True, Signalled # ClosePanic # ?r)"
    unfolding signal_start_def n replicate_Suc by (meson converse_rtranclp_into_rtranclp rtranclp.rtrancl_refl)
  then show "\<exists>c ts. AfterJob_step\<^sup>*\<^sup>* (signal_start n) (c, ts) \<and> ClosePanic \<in> set ts" by force
qed

theorem jobs_signalled_witness:
  "\<exists>c ts. AfterJob_step\<^sup>*\<^sup>* (signal_start 2) (c, ts) \<and> ClosePanic \<in> set ts"
  using jobs_signalled[of 2] by simp

section \<open>Spans\<close>

text \<open>
  The tracer starts a span and hands back the function that ends it; spans are numbered in the order
  they start. The listeners of jobs and of steps differ only in what the span is started for.
\<close>

record tracer_state =
  spans_started :: nat
  spans_ended :: "nat list"

record TracingJobListener =
  jobSpanEndFuncs :: "(string, nat) gomap"

definition StartSpan :: "tracer_state \<Rightarrow> nat \<times> tracer_state" where
  "StartSpan t = (spans_started t, t\<lparr>spans_started := Suc (spans_started t)\<rparr>)"

definition Tracing_BeforeJob :: "string \<Rightarrow> TracingJobListener \<times> tracer_state \<Rightarrow> TracingJobListener \<times> tracer_state" where
  "Tracing_BeforeJob i lt = (case lt of (l, t) \<Rightarrow> (case StartSpan t of (sp, t') \<Rightarrow>
     (l\<lparr>jobSpanEndFuncs := gm_put i sp (jobSpanEndFuncs l)\<rparr>, t')))"

definition Tracing_AfterJob :: "string \<Rightarrow> TracingJobListener \<times> tracer_state \<Rightarrow> TracingJobListener \<times> tracer_state" where
  "Tracing_AfterJob i lt = (case lt of (l, t) \<Rightarrow> (case gm_get (jobSpanEndFuncs l) i of
       Some sp \<Rightarrow> (l\<lparr>jobSpanEndFuncs := gm_del i (jobSpanEndFuncs l)\<rparr>, t\<lparr>spans_ended := spans_ended t @ [sp]\<rparr>)
     | None \<Rightarrow> (l, t)))"

datatype traced = BeginsAs string | EndsAs string

primrec trace_one :: "traced \<Rightarrow> TracingJobListener \<times> tracer_state \<Rightarrow> TracingJobListener \<times> tracer_state" where
  "trace_one (BeginsAs i) lt = Tracing_BeforeJob i lt"
| "trace_one (EndsAs i) lt = Tracing_AfterJob i lt"

definition trace_new :: "TracingJobListener \<times> tracer_state" where
  "trace_new = (\<lparr>jobSpanEndFuncs = []\<rparr>, \<lparr>spans_started = 0, spans_ended = []\<rparr>)"

definition trace_run :: "traced list \<Rightarrow> TracingJobListener \<times> tracer_state" where
  "trace_run es = fold trace_one es trace_new"

text \<open>No span begins under an identifier under which one is open.\<close>

fun no_overlap :: "string set \<Rightarrow> traced list \<Rightarrow> bool" where
  "no_overlap S [] = True"
| "no_overlap S (BeginsAs i # es) = (i \<notin> S \<and> no_overlap (insert i S) es)"
| "no_overlap S (EndsAs i # es) = no_overlap (S - {i}) es"

definition open_spans :: "TracingJobListener \<times> tracer_state \<Rightarrow> nat set" where
  "open_spans lt = {sp. \<exists>i. gm_get (jobSpanEndFuncs (fst lt)) i = Some sp}"

definition open_ids :: "TracingJobListener \<times> tracer_state \<Rightarrow> string set" where
  "open_ids lt = {i. gm_get (jobSpanEndFuncs (fst lt)) i \<noteq> None}"

definition spans_inv :: "TracingJobListener \<times> tracer_state \<Rightarrow> bool" where
  "spans_inv lt \<longleftrightarrow> distinct (spans_ended (snd lt)) \<and> set (spans_ended (snd lt)) \<union> open_spans lt \<subseteq> {..<spans_started (snd lt)}
     \<and> set (spans_ended (snd lt)) \<inter> open_spans lt = {}
     \<and> (\<forall>i j. i \<in> open_ids lt \<longrightarrow> gm_get (jobSpanEndFuncs (fst lt)) i = gm_get (jobSpanEndFuncs (fst lt)) j \<longrightarrow> i = j)"

definition spans_kept :: "TracingJobListener \<times> tracer_state \<Rightarrow> bool" where
  "spans_kept lt \<longleftrightarrow> {..<spans_started (snd lt)} \<subseteq> set (spans_ended (snd lt)) \<union> open_spans lt"

lemmas span_defs = Tracing_BeforeJob_def Tracing_AfterJob_def StartSpan_def open_spans_def open_ids_def

lemma before_job_spans:
  assumes "spans_inv lt"
  shows "spans_inv (Tracing_BeforeJob i lt)" "spans_kept (Tracing_BeforeJob i lt) \<longleftrightarrow> i \<notin> open_ids lt \<and> spans_kept lt"
    "open_ids (Tracing_BeforeJob i lt) = insert i (open_ids lt)"
proof -
  obtain l t where lt: "lt = (l, t)" by fastforce
  let ?f = "gm_get (jobSpanEndFuncs l)" and ?n = "spans_started t"
  have inv: "distinct (spans_ended t)" "\<And>sp. sp \<in> set (spans_ended t) \<Longrightarrow> sp < ?n" "\<And>j sp. ?f j = Some sp \<Longrightarrow> sp < ?n"
    "\<And>j sp. ?f j = Some sp \<Longrightarrow> sp \<notin> set (spans_ended t)" "\<And>j k sp. ?f j = Some sp \<Longrightarrow> ?f k = Some sp \<Longrightarrow> j = k"
    using assms by (auto simp: spans_inv_def lt open_spans_def open_ids_def)
  show "spans_inv (Tracing_BeforeJob i lt)"
    using inv by (auto simp: spans_inv_def lt span_defs less_Suc_eq dest: inv(2,3) inv(3)[OF sym] split: if_splits)
  show "open_ids (Tracing_BeforeJob i lt) = insert i (open_ids lt)" by (auto simp: lt span_defs)
  show "spans_kept (Tracing_BeforeJob i lt) \<longleftrightarrow> i \<notin> open_ids lt \<and> spans_kept lt"
  proof (cases "?f i")
    case None
    have "spans_kept (Tracing_BeforeJob i lt) \<longleftrightarrow> (\<forall>sp < ?n. sp \<in> set (spans_ended t) \<or> (\<exists>j. ?f j = Some sp))"
      using None by (auto simp: spans_kept_def lt span_defs less_Suc_eq subset_iff) (metis option.distinct(1))+
    then show ?thesis using None by (auto simp: spans_kept_def lt open_spans_def open_ids_def subset_iff)
  next
    case (Some sp)
    then have "sp < ?n" "sp \<notin> set (spans_ended t)" "\<And>j. ?f j = Some sp \<Longrightarrow> j = i" using inv by blast+
    then have "sp \<in> {..<Suc ?n}" "sp \<notin> set (spans_ended t) \<union> open_spans (Tracing_BeforeJob i lt)"
      by (auto simp: lt span_defs split: if_splits)
    then have "\<not> spans_kept (Tracing_BeforeJob i lt)" unfolding spans_kept_def
      by (auto simp: lt Tracing_BeforeJob_def StartSpan_def subset_iff)
    then show ?thesis using Some by (simp add: lt open_ids_def)
  qed
qed

lemma after_job_spans:
  assumes "spans_inv lt"
  shows "spans_inv (Tracing_AfterJob i lt)" "spans_kept (Tracing_AfterJob i lt) \<longleftrightarrow> spans_kept lt"
    "open_ids (Tracing_AfterJob i lt) = open_ids lt - {i}"
proof -
  obtain l t where lt: "lt = (l, t)" by fastforce
  let ?f = "gm_get (jobSpanEndFuncs l)" and ?n = "spans_started t"
  have inv: "distinct (spans_ended t)" "\<And>sp. sp \<in> set (spans_ended t) \<Longrightarrow> sp < ?n" "\<And>j sp. ?f j = Some sp \<Longrightarrow> sp < ?n"
    "\<And>j sp. ?f j = Some sp \<Longrightarrow> sp \<notin> set (spans_ended t)" "\<And>j k sp. ?f j = Some sp \<Longrightarrow> ?f k = Some sp \<Longrightarrow> j = k"
    using assms by (auto simp: spans_inv_def lt open_spans_def open_ids_def)
  show "open_ids (Tracing_AfterJob i lt) = open_ids lt - {i}" by (auto simp: lt span_defs split: option.splits)
  show "spans_inv (Tracing_AfterJob i lt)"
  proof (cases "?f i")
    case None
    then show ?thesis using assms by (simp add: lt Tracing_AfterJob_def)
  next
    case (Some sp)
    have "distinct (spans_ended t @ [sp])" using inv(1) inv(4)[OF Some] by simp
    moreover have "set (spans_ended t @ [sp]) \<union> {x. \<exists>j. j \<noteq> i \<and> ?f j = Some x} \<subseteq> {..<?n}"
      using inv(2) inv(3) Some by auto
    moreover have "set (spans_ended t @ [sp]) \<inter> {x. \<exists>j. j \<noteq> i \<and> ?f j = Some x} = {}"
      using inv(4) inv(5)[OF Some] by auto
    moreover have "j = k" if "?f j \<noteq> None" "?f j = ?f k" for j k using inv(5) that by (metis not_None_eq)
    ultimately show ?thesis using Some by (auto simp: spans_inv_def lt span_defs split: if_splits)
  qed
  show "spans_kept (Tracing_AfterJob i lt) \<longleftrightarrow> spans_kept lt"
  proof (cases "?f i")
    case None
    then show ?thesis by (simp add: lt Tracing_AfterJob_def)
  next
    case (Some sp)
    have "open_spans lt = insert sp {x. \<exists>j. j \<noteq> i \<and> ?f j = Some x}" using Some by (auto simp: open_spans_def lt) (metis option.inject)
    moreover have "open_spans (Tracing_AfterJob i lt) = {x. \<exists>j. j \<noteq> i \<and> ?f j = Some x}"
      using Some by (auto simp: span_defs lt split: if_splits)
    ultimately show ?thesis using Some by (simp add: spans_kept_def lt Tracing_AfterJob_def)
  qed
qed

lemma trace_run_from:
  "spans_inv lt \<Longrightarrow> spans_inv (fold trace_one es lt) \<and>
    (spans_kept (fold trace_one es lt) \<longleftrightarrow> spans_kept lt \<and> no_overlap (open_ids lt) es)"
proof (induction es arbitrary: lt)
  case (Cons e es)
  then show ?case
    using before_job_spans[OF Cons.prems] after_job_spans[OF Cons.prems] by (cases e) auto
qed simp

text \<open>
  Whatever the order of the notifications, a tracing listener ends no span twice, and no span is
  lost, that is every span started has been ended or is still held, exactly when none began under the
  identifier of one that was open.
\<close>

theorem spans_ended_once:
  "distinct (spans_ended (snd (trace_run es)))
    \<and> set (spans_ended (snd (trace_run es))) \<inter> open_spans (trace_run es) = {}
    \<and> (set (spans_ended (snd (trace_run es))) \<union> open_spans (trace_run es) = {..<spans_started (snd (trace_run es))}
        \<longleftrightarrow> no_overlap {} es)"
proof -
  have new: "spans_inv trace_new" "spans_kept trace_new" "open_ids trace_new = {}"
    by (auto simp: trace_new_def spans_inv_def spans_kept_def open_spans_def open_ids_def)
  then show ?thesis using trace_run_from[OF new(1), of es]
    by (auto simp: trace_run_def spans_inv_def spans_kept_def)
qed

text \<open>The steps of a restarted job share one identifier: of two that overlap the first span is lost.\<close>

lemma overlapping_span_lost:
  "spans_ended (snd (trace_run [BeginsAs i, BeginsAs i, EndsAs i, EndsAs i])) = [1]"
  by (simp add: trace_run_def trace_new_def span_defs)

section \<open>Metrics of a chunk step\<close>

text \<open>What the metrics listeners record of a notification; all others do nothing.\<close>

fun metrics_calls :: "exec_ref \<Rightarrow> ('i, 'o) ev \<Rightarrow> 'a metric_call list" where
  "metrics_calls se BeforeStep = [RecordStepStart se]"
| "metrics_calls se AfterStep = [RecordStepEnd se]"
| "metrics_calls se AfterChunk = [RecordChunkCommit se 1]"
| "metrics_calls se (ChunkOnError e) = [RecordExecutionError (Some e)]"
| "metrics_calls se _ = []"

definition MetricsJob_BeforeJob :: "exec_ref \<Rightarrow> 'a metric_call" where
  "MetricsJob_BeforeJob je = RecordJobStart je"

definition MetricsJob_AfterJob :: "exec_ref \<Rightarrow> 'a metric_call" where
  "MetricsJob_AfterJob je = RecordJobEnd je"

fun commits_recorded :: "(string \<times> string) metric_call \<Rightarrow> nat" where
  "commits_recorded (RecordChunkCommit se n) = unat n"
| "commits_recorded _ = 0"

definition metrics_commits :: "exec_ref \<Rightarrow> ('i, 'o) ev list \<Rightarrow> nat" where
  "metrics_commits se es = sum_list (map commits_recorded (concat (map (metrics_calls se) es)))"

lemma metrics_commits_simps [simp]:
  "metrics_commits se [] = 0" "metrics_commits se (es @ es') = metrics_commits se es + metrics_commits se es'"
  "metrics_commits se (AfterChunk # es) = Suc (metrics_commits se es)"
  "metrics_commits se (ChunkOnError e # es) = metrics_commits se es"
  by (simp_all add: metrics_commits_def)

text \<open>
  A chunk that was rolled back, or that was empty, is recorded as one more commit, although the step
  does not count it.
\<close>

lemma rolled_back_chunk_recorded:
  assumes "begin_chunk st s = (Inr t, s1)" "read_loop st 0 [] s1 = (r, s2)" "r = LoopEnd 0 [] eof \<or> r = LoopFatal e"
    "cs_log (rollback st t s2) = cs_log s @ es"
  shows "metrics_commits se (cs_log (snd (chunk_round st s))) = Suc (metrics_commits se (cs_log s @ es))"
    "cs_commitCount (snd (chunk_round st s)) = cs_commitCount (rollback st t s2)"
  using assms by (auto simp: chunk_round_def)

section \<open>Waiting between retries\<close>

text \<open>\<open>timer_first\<close>: the timer's channel is received from, when it is or both are ready.\<close>

definition RealBackoff_Wait :: "goerr option \<Rightarrow> bool \<Rightarrow> int \<Rightarrow> goerr option" where
  "RealBackoff_Wait ctxErr timer_first duration =
     (if duration \<le> 0 then None else if timer_first then None else ctxErr)"

end
