(* ===== verification/Forecast_Reader.thy ===== *)
theory Forecast_Reader
  imports Item_Components
begin

text \<open>
  The reader of the weather example that fetches a forecast and hands it out hour by hour
  (\<open>example/weather/internal/step/reader/hourly_forecast_api_reader.go\<close>), with its position and the
  forecast kept in a context of its own inside of the context of the step.

  Contexts are shared maps, as in the other readers: the step's has an address. HTTP and the texts of
  \<open>encoding/json\<close> are parameters.
\<close>

section \<open>The reader\<close>

record Hourly =
  hr_Time :: "string list"
  hr_WeatherCode :: "int list"
  hr_Temperature2M :: "f64 list"

record OpenMeteoForecast =
  om_Latitude :: f64
  om_Longitude :: f64
  om_Hourly :: Hourly

definition zero_forecast :: OpenMeteoForecast where
  "zero_forecast = \<lparr>om_Latitude = Fin 0, om_Longitude = Fin 0,
     om_Hourly = \<lparr>hr_Time = [], hr_WeatherCode = [], hr_Temperature2M = []\<rparr>\<rparr>"

record HourlyForecastAPIReaderConfig =
  fc_WebProxyRef :: string
  fc_Timezone :: string

record 'c HourlyForecastAPIReader =
  fr_config :: HourlyForecastAPIReaderConfig
  fr_webProxyConn :: "'c option"
  fr_forecastData :: "OpenMeteoForecast option"
  fr_currentIndex :: int
  fr_stepExecutionContext :: "nat option"
  fr_readerState :: ec

definition forecast_error :: "string \<Rightarrow> goerr option \<Rightarrow> bool \<Rightarrow> goerr" where
  "forecast_error t e retryable = NewBatchError ''HourlyForecastAPIReader'' t e retryable False"

text \<open>
  \<open>bound\<close> is what binding the properties gives, \<open>proxies\<close> the provider registered as \<open>webproxy\<close>;
  a connection of another type is \<open>None\<close>.
\<close>

definition NewHourlyForecastAPIReader :: "goerr + HourlyForecastAPIReaderConfig \<Rightarrow> (string \<Rightarrow> goerr + 'c option) option \<Rightarrow>
    goerr + 'c HourlyForecastAPIReader" where
  "NewHourlyForecastAPIReader bound proxies =
     (let new = (\<lambda>cfg conn. \<lparr>fr_config = cfg, fr_webProxyConn = conn, fr_forecastData = None, fr_currentIndex = 0,
          fr_stepExecutionContext = None, fr_readerState = NewExecutionContext\<rparr>)
      in case bound of
       Inl e \<Rightarrow> Inl (forecast_error ''Failed to bind properties'' (Some e) False)
     | Inr cfg \<Rightarrow>
         if fc_WebProxyRef cfg = [] then Inr (new cfg None)
         else (case proxies of
             None \<Rightarrow> Inl (forecast_error (''WebProxyProvider not found for ref '' @ quoted (fc_WebProxyRef cfg)) None False)
           | Some get \<Rightarrow> (case get (fc_WebProxyRef cfg) of
               Inl e \<Rightarrow> Inl (forecast_error (''Failed to get WebProxyConnection for ref '' @ quoted (fc_WebProxyRef cfg)) (Some e) False)
             | Inr None \<Rightarrow> Inl (forecast_error (''Resolved connection for ref '' @ quoted (fc_WebProxyRef cfg)
                 @ '' is not a WebProxyConnection'') None False)
             | Inr (Some c) \<Rightarrow> Inr (new cfg (Some c)))))"

text \<open>
  \<open>fe_Do\<close> is \<open>Client.Do\<close> of the connection's client, or of a plain one, with the status and the body
  of the answer; \<open>fe_Unmarshal\<close> returns the value that was decoded up to an error.
\<close>

record ('c, 'w) forecast_env =
  fe_ctxErr :: "goerr option"
  fe_oor :: "f64 \<Rightarrow> int"
  fe_NewRequest :: "string \<Rightarrow> goerr option"
  fe_Do :: "'c option \<Rightarrow> string \<Rightarrow> 'w \<Rightarrow> (goerr + int \<times> string) \<times> 'w"
  fe_Decode :: "string \<Rightarrow> goerr + OpenMeteoForecast"
  fe_Unmarshal :: "string \<Rightarrow> goerr option \<times> OpenMeteoForecast"
  fe_Marshal :: "OpenMeteoForecast \<Rightarrow> goerr + string"

section \<open>Fetching\<close>

definition forecast_url :: "HourlyForecastAPIReaderConfig \<Rightarrow> string" where
  "forecast_url cfg = (let timezone = (if fc_Timezone cfg = [] then ''UTC'' else fc_Timezone cfg)
     in ''/forecast?latitude=35.658600&longitude=139.745400&hourly=temperature_2m,weather_code&timezone='' @ timezone
        @ ''&forecast_days=3'')"

definition fetchWeatherData :: "('c, 'w) forecast_env \<Rightarrow> 'c HourlyForecastAPIReader \<Rightarrow> 'w \<Rightarrow>
    goerr option \<times> 'c HourlyForecastAPIReader \<times> 'w" where
  "fetchWeatherData E r w = (let url = forecast_url (fr_config r) in
     case fe_NewRequest E url of
       Some e \<Rightarrow> (Some (forecast_error ''Failed to create API request'' (Some e) False), r, w)
     | None \<Rightarrow> (case fe_Do E (fr_webProxyConn r) url w of
           (Inl e, w1) \<Rightarrow> (Some (forecast_error ''API call failed'' (Some e) True), r, w1)
         | (Inr (status, body), w1) \<Rightarrow>
             if status \<noteq> 200 then
               (let t = trim_space body
                in (Some (forecast_error (''Error response from API: Status code '' @ int_str status @ '', Body: '' @ t)
                      (Some (plain_error t)) (500 \<le> status)), r, w1))
             else (case fe_Decode E body of
                 Inl e \<Rightarrow> (Some (forecast_error ''Failed to decode API response'' (Some e) False), r, w1)
               | Inr f \<Rightarrow> (None, r\<lparr>fr_forecastData := Some f, fr_currentIndex := 0\<rparr>, w1))))"

section \<open>The state in the context\<close>

definition ForecastReaderContextKey :: string where
  "ForecastReaderContextKey = ''forecast_reader_context''"

definition ForecastDataKey :: string where
  "ForecastDataKey = ''forecastData''"

definition ForecastCurrentIndexKey :: string where
  "ForecastCurrentIndexKey = ''currentIndex''"

text \<open>
  The reader's context in the step's. A missing, nil or wrongly typed one is replaced: what was
  stored and read back is a plain map and is wrongly typed.
\<close>

definition reader_ctx :: "ec \<Rightarrow> ec" where
  "reader_ctx c = (case ExecutionContext_Get c ForecastReaderContextKey of Some (VCtx m) \<Rightarrow> m | _ \<Rightarrow> NewExecutionContext)"

definition put_reader_ctx :: "ec \<Rightarrow> ec \<Rightarrow> ec" where
  "put_reader_ctx m c = ExecutionContext_Put ForecastReaderContextKey (VCtx m) c"

definition restoreReaderState :: "('c, 'w) forecast_env \<Rightarrow> nat \<Rightarrow> heap \<Rightarrow> 'c HourlyForecastAPIReader \<Rightarrow>
    goerr option \<times> heap \<times> 'c HourlyForecastAPIReader" where
  "restoreReaderState E a h r =
     (let readerCtx = reader_ctx (h a); h1 = h(a := put_reader_ctx readerCtx (h a));
          st = ExecutionContext_Copy readerCtx;
          r1 = r\<lparr>fr_stepExecutionContext := Some a, fr_readerState := st,
            fr_currentIndex := (case ExecutionContext_GetInt (fe_oor E) st ForecastCurrentIndexKey of Some i \<Rightarrow> i | None \<Rightarrow> 0)\<rparr>
      in case ExecutionContext_GetString st ForecastDataKey of
           Some s \<Rightarrow> if s \<noteq> [] then
               (case fe_Unmarshal E s of (err, f) \<Rightarrow>
                 (case err of
                    Some e \<Rightarrow> (Some (forecast_error ''Failed to deserialize forecastData JSON'' (Some e) False), h1, r1\<lparr>fr_forecastData := Some f\<rparr>)
                  | None \<Rightarrow> (None, h1, r1\<lparr>fr_forecastData := Some f\<rparr>)))
             else (None, h1, r1\<lparr>fr_forecastData := None\<rparr>)
         | None \<Rightarrow> (None, h1, r1\<lparr>fr_forecastData := None\<rparr>))"

text \<open>Without a step's context the reader saves into a context nobody sees.\<close>

definition saveReaderState :: "('c, 'w) forecast_env \<Rightarrow> heap \<Rightarrow> 'c HourlyForecastAPIReader \<Rightarrow>
    goerr option \<times> heap \<times> 'c HourlyForecastAPIReader" where
  "saveReaderState E h r =
     (let upd = (\<lambda>f. case fr_stepExecutionContext r of None \<Rightarrow> h | Some a \<Rightarrow> h(a := put_reader_ctx (f (reader_ctx (h a))) (h a)));
          index = ExecutionContext_Put ForecastCurrentIndexKey (VInt (fr_currentIndex r))
      in case fr_forecastData r of
           None \<Rightarrow> (let f = (\<lambda>c. ExecutionContext_Remove ForecastDataKey (index c))
             in (None, upd f, r\<lparr>fr_readerState := f (fr_readerState r)\<rparr>))
         | Some d \<Rightarrow> (case fe_Marshal E d of
               Inl e \<Rightarrow> (Some (forecast_error ''Failed to encode forecastData'' (Some e) False), upd index,
                   r\<lparr>fr_readerState := index (fr_readerState r)\<rparr>)
             | Inr s \<Rightarrow> (let f = (\<lambda>c. ExecutionContext_Put ForecastDataKey (VStr s) (index c))
                 in (None, upd f, r\<lparr>fr_readerState := f (fr_readerState r)\<rparr>))))"

section \<open>The operations\<close>

definition Forecast_Open :: "('c, 'w) forecast_env \<Rightarrow> nat \<Rightarrow> heap \<Rightarrow> 'c HourlyForecastAPIReader \<Rightarrow> 'w \<Rightarrow>
    goerr option \<times> heap \<times> 'c HourlyForecastAPIReader \<times> 'w" where
  "Forecast_Open E a h r w = (case fe_ctxErr E of
       Some e \<Rightarrow> (Some e, h, r, w)
     | None \<Rightarrow> (case restoreReaderState E a h r of
           (Some e, h1, r1) \<Rightarrow> (Some e, h1, r1, w)
         | (None, h1, r1) \<Rightarrow>
             if (case fr_forecastData r1 of None \<Rightarrow> True | Some d \<Rightarrow> hr_Time (om_Hourly d) = [])
             then (case fetchWeatherData E r1 w of (err, r2, w1) \<Rightarrow> (err, h1, r2, w1))
             else (None, h1, r1, w)))"

text \<open>An hour of the forecast; an index out of the range of a slice panics, and is \<open>None\<close>.\<close>

definition hour_at :: "OpenMeteoForecast \<Rightarrow> nat \<Rightarrow> OpenMeteoForecast option" where
  "hour_at d i = (if i < length (hr_Time (om_Hourly d)) \<and> i < length (hr_WeatherCode (om_Hourly d))
       \<and> i < length (hr_Temperature2M (om_Hourly d))
     then Some \<lparr>om_Latitude = om_Latitude d, om_Longitude = om_Longitude d,
       om_Hourly = \<lparr>hr_Time = [hr_Time (om_Hourly d) ! i], hr_WeatherCode = [hr_WeatherCode (om_Hourly d) ! i],
         hr_Temperature2M = [hr_Temperature2M (om_Hourly d) ! i]\<rparr>\<rparr>
     else None)"

definition Forecast_Read :: "('c, 'w) forecast_env \<Rightarrow> 'c HourlyForecastAPIReader \<Rightarrow>
    ((goerr + OpenMeteoForecast) \<times> 'c HourlyForecastAPIReader) option" where
  "Forecast_Read E r = (case fe_ctxErr E of
       Some e \<Rightarrow> Some (Inl e, r)
     | None \<Rightarrow> (case fr_forecastData r of
           None \<Rightarrow> Some (Inl io_EOF, r\<lparr>fr_forecastData := None, fr_currentIndex := 0\<rparr>)
         | Some d \<Rightarrow>
             if int (length (hr_Time (om_Hourly d))) \<le> fr_currentIndex r
             then Some (Inl io_EOF, r\<lparr>fr_forecastData := None, fr_currentIndex := 0\<rparr>)
             else if fr_currentIndex r < 0 then None
             else (case hour_at d (nat (fr_currentIndex r)) of
                 None \<Rightarrow> None
               | Some item \<Rightarrow> Some (Inr item, r\<lparr>fr_currentIndex := fr_currentIndex r + 1\<rparr>))))"

text \<open>The error of saving is only logged.\<close>

definition Forecast_Close :: "('c, 'w) forecast_env \<Rightarrow> heap \<Rightarrow> 'c HourlyForecastAPIReader \<Rightarrow>
    goerr option \<times> heap \<times> 'c HourlyForecastAPIReader" where
  "Forecast_Close E h r = (case fe_ctxErr E of
       Some e \<Rightarrow> (Some e, h, r)
     | None \<Rightarrow> (case saveReaderState E h r of (err, h1, r1) \<Rightarrow> (None, h1, r1)))"

definition Forecast_SetExecutionContext :: "('c, 'w) forecast_env \<Rightarrow> nat \<Rightarrow> heap \<Rightarrow> 'c HourlyForecastAPIReader \<Rightarrow>
    goerr option \<times> heap \<times> 'c HourlyForecastAPIReader" where
  "Forecast_SetExecutionContext E a h r = (case fe_ctxErr E of
       Some e \<Rightarrow> (Some e, h, r) | None \<Rightarrow> restoreReaderState E a h r)"

definition Forecast_GetExecutionContext :: "('c, 'w) forecast_env \<Rightarrow> heap \<Rightarrow> 'c HourlyForecastAPIReader \<Rightarrow>
    (goerr + ec) \<times> heap \<times> 'c HourlyForecastAPIReader" where
  "Forecast_GetExecutionContext E h r = (case fe_ctxErr E of
       Some e \<Rightarrow> (Inl e, h, r)
     | None \<Rightarrow> (case saveReaderState E h r of
           (Some e, h1, r1) \<Rightarrow> (Inl e, h1, r1) | (None, h1, r1) \<Rightarrow> (Inr (fr_readerState r1), h1, r1)))"

section \<open>What is delivered\<close>

fun forecast_reads :: "('c, 'w) forecast_env \<Rightarrow> nat \<Rightarrow> 'c HourlyForecastAPIReader \<Rightarrow>
    (OpenMeteoForecast list \<times> 'c HourlyForecastAPIReader) option" where
  "forecast_reads E 0 r = Some ([], r)"
| "forecast_reads E (Suc n) r = (case Forecast_Read E r of
       Some (Inr x, r1) \<Rightarrow> (case forecast_reads E n r1 of Some (xs, r2) \<Rightarrow> Some (x # xs, r2) | None \<Rightarrow> None)
     | _ \<Rightarrow> None)"

definition hour_count :: "OpenMeteoForecast \<Rightarrow> nat" where
  "hour_count d = length (hr_Time (om_Hourly d))"

definition complete :: "OpenMeteoForecast \<Rightarrow> bool" where
  "complete d \<longleftrightarrow> hour_count d \<le> length (hr_WeatherCode (om_Hourly d)) \<and> hour_count d \<le> length (hr_Temperature2M (om_Hourly d))"

definition hours :: "OpenMeteoForecast \<Rightarrow> OpenMeteoForecast list" where
  "hours d = map (\<lambda>i. the (hour_at d i)) [0..<hour_count d]"

lemma length_hours [simp]: "length (hours d) = hour_count d"
  by (simp add: hours_def)

lemma hour_at_hours: "complete d \<Longrightarrow> i < hour_count d \<Longrightarrow> hour_at d i = Some (hours d ! i)"
  by (auto simp: hour_at_def hours_def complete_def hour_count_def)

lemma reads_from:
  assumes "complete d" "fe_ctxErr E = None"
  shows "fr_forecastData r = Some d \<Longrightarrow> fr_currentIndex r = int i \<Longrightarrow> i + n \<le> hour_count d \<Longrightarrow>
    forecast_reads E n r = Some (take n (drop i (hours d)), r\<lparr>fr_currentIndex := int (i + n)\<rparr>)"
proof (induction n arbitrary: r i)
  case 0
  then show ?case by simp
next
  case (Suc n)
  have i: "i < hour_count d" using Suc.prems(3) by simp
  let ?r1 = "r\<lparr>fr_currentIndex := int (Suc i)\<rparr>"
  have "Forecast_Read E r = Some (Inr (hours d ! i), ?r1)"
    using Suc.prems(1,2) i assms(2) hour_at_hours[OF assms(1) i] by (simp add: Forecast_Read_def hour_count_def add.commute)
  moreover have "forecast_reads E n ?r1 = Some (take n (drop (Suc i) (hours d)), ?r1\<lparr>fr_currentIndex := int (Suc i + n)\<rparr>)"
    using Suc.IH[of ?r1 "Suc i"] Suc.prems by simp
  ultimately show ?case using Cons_nth_drop_Suc[of i "hours d"] i by (simp flip: take_Suc_Cons)
qed

lemma read_past_end:
  "fe_ctxErr E = None \<Longrightarrow> fr_forecastData r = Some d \<Longrightarrow> fr_currentIndex r = int (hour_count d) \<Longrightarrow>
    Forecast_Read E r = Some (Inl io_EOF, r\<lparr>fr_forecastData := None, fr_currentIndex := 0\<rparr>)"
  by (simp add: Forecast_Read_def hour_count_def)

text \<open>An answer of the API, and the texts of JSON reading back as what was written.\<close>

definition answers :: "('c, 'w) forecast_env \<Rightarrow> 'c HourlyForecastAPIReader \<Rightarrow> 'w \<Rightarrow> OpenMeteoForecast \<Rightarrow> 'w \<Rightarrow> bool" where
  "answers E r w d w1 \<longleftrightarrow> fe_NewRequest E (forecast_url (fr_config r)) = None \<and>
     (\<exists>body. fe_Do E (fr_webProxyConn r) (forecast_url (fr_config r)) w = (Inr (200, body), w1) \<and> fe_Decode E body = Inr d)"

definition reads_back :: "('c, 'w) forecast_env \<Rightarrow> OpenMeteoForecast \<Rightarrow> bool" where
  "reads_back E d \<longleftrightarrow> (\<exists>s. fe_Marshal E d = Inr s \<and> s \<noteq> [] \<and> fe_Unmarshal E s = (None, d))"

lemma fetch_answered: "answers E r w d w1 \<Longrightarrow> fetchWeatherData E r w = (None, r\<lparr>fr_forecastData := Some d, fr_currentIndex := 0\<rparr>, w1)"
  by (auto simp: answers_def fetchWeatherData_def Let_def)

lemma restore_defaults:
  assumes "reader_ctx (h a) = []"
  shows "restoreReaderState E a h r = (None, h(a := put_reader_ctx [] (h a)),
    r\<lparr>fr_stepExecutionContext := Some a, fr_readerState := [], fr_currentIndex := 0, fr_forecastData := None\<rparr>)"
  using assms by (simp add: restoreReaderState_def Let_def ExecutionContext_Copy_def gm_merge_def
      ExecutionContext_GetInt_def ExecutionContext_GetString_def NewExecutionContext_def)

lemma open_fetches:
  assumes "fe_ctxErr E = None" "reader_ctx (h a) = []" "answers E r w d w1"
  shows "Forecast_Open E a h r w = (None, h(a := put_reader_ctx [] (h a)),
    r\<lparr>fr_stepExecutionContext := Some a, fr_readerState := [], fr_currentIndex := 0, fr_forecastData := Some d\<rparr>, w1)"
proof -
  have "answers E (r\<lparr>fr_stepExecutionContext := Some a, fr_readerState := [], fr_currentIndex := 0, fr_forecastData := None\<rparr>) w d w1"
    using assms(3) by (simp add: answers_def)
  then show ?thesis using assms(1,2) by (simp add: Forecast_Open_def restore_defaults fetch_answered)
qed

lemma reader_ctx_put [simp]: "reader_ctx (put_reader_ctx m c) = m"
  by (simp add: reader_ctx_def put_reader_ctx_def ExecutionContext_Get_def ExecutionContext_Put_def)

lemma open_resumes:
  assumes "fe_ctxErr E = None" "gm_wf (reader_ctx (h a))" "gm_get (reader_ctx (h a)) ForecastCurrentIndexKey = Some (VInt i)"
    "gm_get (reader_ctx (h a)) ForecastDataKey = Some (VStr s)" "s \<noteq> []" "fe_Unmarshal E s = (None, d)" "hour_count d \<noteq> 0"
  shows "Forecast_Open E a h r w = (None, h(a := put_reader_ctx (reader_ctx (h a)) (h a)),
    r\<lparr>fr_stepExecutionContext := Some a, fr_readerState := ExecutionContext_Copy (reader_ctx (h a)), fr_currentIndex := i,
      fr_forecastData := Some d\<rparr>, w)"
proof -
  have "gm_get (ExecutionContext_Copy (reader_ctx (h a))) k = gm_get (reader_ctx (h a)) k" for k
    using assms(2) by (simp add: ExecutionContext_Copy_def gm_get_merge NewExecutionContext_def split: option.splits)
  then have "restoreReaderState E a h r = (None, h(a := put_reader_ctx (reader_ctx (h a)) (h a)),
      r\<lparr>fr_stepExecutionContext := Some a, fr_readerState := ExecutionContext_Copy (reader_ctx (h a)), fr_currentIndex := i,
        fr_forecastData := Some d\<rparr>)"
    using assms(3-6) by (simp add: restoreReaderState_def Let_def ExecutionContext_GetInt_def ExecutionContext_GetString_def)
  then show ?thesis using assms(1,7) by (simp add: Forecast_Open_def hour_count_def)
qed

lemma close_saves:
  assumes "fe_ctxErr E = None" "fr_stepExecutionContext r = Some a" "fr_forecastData r = Some d" "fe_Marshal E d = Inr s"
    "gm_wf (reader_ctx (h a))"
  obtains m r' where "Forecast_Close E h r = (None, h(a := put_reader_ctx m (h a)), r')" "gm_wf m"
    "gm_get m ForecastCurrentIndexKey = Some (VInt (fr_currentIndex r))" "gm_get m ForecastDataKey = Some (VStr s)"
  using assms by (auto simp: Forecast_Close_def saveReaderState_def Let_def ExecutionContext_Put_def ForecastCurrentIndexKey_def
      ForecastDataKey_def intro: that)

section \<open>Properties\<close>

text \<open>
  The hours of a complete forecast are read once and in order, each as a forecast of one hour, and
  then the end of the input; a reader closed after any number of them and another one opened on the
  same context, without asking the API again, go on with the next hour. The texts of JSON are taken
  to read back as what they were written from.
\<close>

theorem forecast_resumes:
  assumes "fe_ctxErr E = None" "reader_ctx (h a) = []" "answers E r w d w1" "complete d" "hour_count d \<noteq> 0"
    "reads_back E d" "k \<le> hour_count d"
  shows "\<exists>h1 r1 r2 h2 r3. Forecast_Open E a h r w = (None, h1, r1, w1)
    \<and> forecast_reads E k r1 = Some (take k (hours d), r2) \<and> Forecast_Close E h1 r2 = (None, h2, r3)
    \<and> (\<forall>r' w'. \<exists>h3 r4 r5 r6. Forecast_Open E a h2 r' w' = (None, h3, r4, w')
        \<and> forecast_reads E (hour_count d - k) r4 = Some (drop k (hours d), r5) \<and> Forecast_Read E r5 = Some (Inl io_EOF, r6))"
proof -
  obtain s where s: "fe_Marshal E d = Inr s" "s \<noteq> []" "fe_Unmarshal E s = (None, d)" using assms(6) by (auto simp: reads_back_def)
  let ?h1 = "h(a := put_reader_ctx [] (h a))"
    and ?r1 = "r\<lparr>fr_stepExecutionContext := Some a, fr_readerState := [], fr_currentIndex := 0, fr_forecastData := Some d\<rparr>"
  let ?r2 = "?r1\<lparr>fr_currentIndex := int k\<rparr>"
  have o1: "Forecast_Open E a h r w = (None, ?h1, ?r1, w1)" by (rule open_fetches[of E h a r w d w1]) (fact assms)+
  have rd: "forecast_reads E k ?r1 = Some (take k (hours d), ?r2)"
    using reads_from[OF assms(4,1), of ?r1 0 k] assms(7) by simp
  obtain m r3 where m: "Forecast_Close E ?h1 ?r2 = (None, ?h1(a := put_reader_ctx m (?h1 a)), r3)" "gm_wf m"
    "gm_get m ForecastCurrentIndexKey = Some (VInt (int k))" "gm_get m ForecastDataKey = Some (VStr s)"
    by (rule close_saves[OF assms(1), of ?r2 a d s ?h1]) (simp_all add: s)
  let ?h2 = "?h1(a := put_reader_ctx m (?h1 a))"
  have "\<exists>h3 r4 r5 r6. Forecast_Open E a ?h2 r' w' = (None, h3, r4, w')
      \<and> forecast_reads E (hour_count d - k) r4 = Some (drop k (hours d), r5) \<and> Forecast_Read E r5 = Some (Inl io_EOF, r6)" for r' w'
  proof -
    let ?r4 = "r'\<lparr>fr_stepExecutionContext := Some a, fr_readerState := ExecutionContext_Copy m, fr_currentIndex := int k,
      fr_forecastData := Some d\<rparr>"
    let ?r5 = "?r4\<lparr>fr_currentIndex := int (hour_count d)\<rparr>"
    have "Forecast_Open E a ?h2 r' w' = (None, ?h2(a := put_reader_ctx m (?h2 a)), ?r4, w')"
      using open_resumes[OF assms(1), of ?h2 a "int k" s d r' w'] m s assms(5) by simp
    moreover have "forecast_reads E (hour_count d - k) ?r4 = Some (drop k (hours d), ?r5)"
      using reads_from[OF assms(4,1), of ?r4 k "hour_count d - k"] assms(7) by simp
    moreover have "Forecast_Read E ?r5 = Some (Inl io_EOF, ?r5\<lparr>fr_forecastData := None, fr_currentIndex := 0\<rparr>)"
      by (rule read_past_end[OF assms(1)]) simp_all
    ultimately show ?thesis by blast
  qed
  then show ?thesis using o1 rd m(1) by blast
qed

text \<open>Three hours, of which one is read before the reader is closed.\<close>

definition demo_forecast :: OpenMeteoForecast where
  "demo_forecast = zero_forecast\<lparr>om_Hourly := \<lparr>hr_Time = [''T00'', ''T01'', ''T02''], hr_WeatherCode = [1, 2, 3],
     hr_Temperature2M = [Fin 10, Fin 11, Fin 12]\<rparr>\<rparr>"

definition demo_forecast_env :: "(unit, nat) forecast_env" where
  "demo_forecast_env = \<lparr>fe_ctxErr = None, fe_oor = (\<lambda>f. 0), fe_NewRequest = (\<lambda>u. None),
     fe_Do = (\<lambda>c u n. (Inr (200, ''body''), Suc n)), fe_Decode = (\<lambda>b. Inr demo_forecast),
     fe_Unmarshal = (\<lambda>s. (None, demo_forecast)), fe_Marshal = (\<lambda>d. Inr ''json'')\<rparr>"

definition demo_forecast_reader :: "unit HourlyForecastAPIReader" where
  "demo_forecast_reader = \<lparr>fr_config = \<lparr>fc_WebProxyRef = [], fc_Timezone = []\<rparr>, fr_webProxyConn = None, fr_forecastData = None,
     fr_currentIndex = 0, fr_stepExecutionContext = None, fr_readerState = []\<rparr>"

theorem forecast_resumes_witness:
  "\<exists>h1 r1 r2 h2 r3 h3 r4 r5. Forecast_Open demo_forecast_env 0 (\<lambda>a. []) demo_forecast_reader 0 = (None, h1, r1, 1)
    \<and> forecast_reads demo_forecast_env 1 r1 = Some (take 1 (hours demo_forecast), r2)
    \<and> Forecast_Close demo_forecast_env h1 r2 = (None, h2, r3)
    \<and> Forecast_Open demo_forecast_env 0 h2 demo_forecast_reader 5 = (None, h3, r4, 5)
    \<and> forecast_reads demo_forecast_env 2 r4 = Some (drop 1 (hours demo_forecast), r5)"
proof -
  have c: "hour_count demo_forecast = 3" "complete demo_forecast" by (simp_all add: hour_count_def complete_def demo_forecast_def)
  have e: "fe_ctxErr demo_forecast_env = None" "reader_ctx [] = []" "answers demo_forecast_env demo_forecast_reader 0 demo_forecast 1"
    "reads_back demo_forecast_env demo_forecast"
    by (simp_all add: demo_forecast_env_def reader_ctx_def ExecutionContext_Get_def NewExecutionContext_def answers_def reads_back_def)
  show ?thesis
    using forecast_resumes[of demo_forecast_env "\<lambda>a. []" 0 demo_forecast_reader 0 demo_forecast 1 1] c e by fastforce
qed

text \<open>What was stored and read back is not recognised: the API is asked again, and the position is lost.\<close>

lemma stored_position_lost:
  assumes "fe_ctxErr E = None" "gm_get (h a) ForecastReaderContextKey = Some (json_image (VCtx m))" "answers E r w d w1"
  shows "\<exists>h1 r1. Forecast_Open E a h r w = (None, h1, r1, w1) \<and> fr_currentIndex r1 = 0 \<and> fr_forecastData r1 = Some d"
proof -
  have "reader_ctx (h a) = []" using assms(2) by (simp add: reader_ctx_def ExecutionContext_Get_def NewExecutionContext_def)
  then show ?thesis using open_fetches[of E h a r w d w1] assms(1,3) by fastforce
qed

text \<open>A forecast with fewer codes than times makes \<open>Read\<close> panic.\<close>

lemma short_forecast_panics:
  assumes "fe_ctxErr E = None" "fr_forecastData r = Some d" "fr_currentIndex r = int i" "i < hour_count d"
    "length (hr_WeatherCode (om_Hourly d)) \<le> i"
  shows "Forecast_Read E r = None"
  using assms by (simp add: Forecast_Read_def hour_at_def hour_count_def)

end
