(* ===== verification/Weather_Store.thy ===== *)
theory Weather_Store
  imports Forecast_Reader Item_Correct
begin

text \<open>
  The rest of the weather example: the processor and the writer of forecasts, and the reader, the
  processor and the writer of historical weather
  (\<open>example/weather/internal/step/{reader,processor,writer}\<close>), over the bulk writer of the library.
  Times, floating-point texts, HTTP and \<open>encoding/csv\<close> are parameters.
\<close>

section \<open>Rows\<close>

record HourlyForecastToStore =
  ts_Time :: time
  ts_WeatherCode :: int
  ts_Temperature2M :: f64
  ts_Latitude :: f64
  ts_Longitude :: f64
  ts_CollectedAt :: time

type_synonym HourlyHistoryToStore = HourlyForecastToStore

text \<open>The dynamic types the components tell apart; \<open>None\<close> is a nil pointer.\<close>

datatype weather_item =
    AForecast "OpenMeteoForecast option"
  | AForecastRow "HourlyForecastToStore option"
  | AHistoryRow "HourlyHistoryToStore option"
  | AnotherItem string

fun type_name :: "weather_item \<Rightarrow> string" where
  "type_name (AForecast f) = ''*weather_entity.OpenMeteoForecast''"
| "type_name (AForecastRow r) = ''*weather_entity.HourlyForecastToStore''"
| "type_name (AHistoryRow r) = ''*weather_entity.HourlyHistoryToStore''"
| "type_name (AnotherItem t) = t"

definition unexpected_item :: "string \<Rightarrow> string \<Rightarrow> weather_item \<Rightarrow> goerr" where
  "unexpected_item modul expected item =
     NewBatchError modul (''unexpected input item type: '' @ type_name item @ expected) None False True"

section \<open>Processors\<close>

text \<open>\<open>now\<close> is the clock; \<open>None\<close>: the processor panics.\<close>

definition Forecast_Process :: "goerr option \<Rightarrow> (string \<Rightarrow> goerr + time) \<Rightarrow> time \<Rightarrow> weather_item \<Rightarrow>
    (goerr + weather_item option) option" where
  "Forecast_Process ctxErr parse now item = (case ctxErr of
       Some e \<Rightarrow> Some (Inl e)
     | None \<Rightarrow> (case item of
           AForecast None \<Rightarrow> None
         | AForecast (Some f) \<Rightarrow> (case hr_Time (om_Hourly f) of
               [] \<Rightarrow> Some (Inr None)
             | t # _ \<Rightarrow> (case parse t of
                   Inl e \<Rightarrow> Some (Inl (NewBatchError ''hourly_forecast_transform_processor'' (''failed to parse time: '' @ t) (Some e) False True))
                 | Inr tm \<Rightarrow> (case (hr_WeatherCode (om_Hourly f), hr_Temperature2M (om_Hourly f)) of
                       (c # _, x # _) \<Rightarrow> Some (Inr (Some (AForecastRow (Some \<lparr>ts_Time = tm, ts_WeatherCode = c,
                          ts_Temperature2M = x, ts_Latitude = om_Latitude f, ts_Longitude = om_Longitude f, ts_CollectedAt = now\<rparr>))))
                     | _ \<Rightarrow> None)))
         | _ \<Rightarrow> Some (Inl (unexpected_item ''hourly_forecast_transform_processor'' [] item))))"

definition History_Process :: "goerr option \<Rightarrow> weather_item \<Rightarrow> goerr + weather_item" where
  "History_Process ctxErr item = (case ctxErr of
       Some e \<Rightarrow> Inl e
     | None \<Rightarrow> (case item of
           AHistoryRow r \<Rightarrow> Inr item
         | _ \<Rightarrow> Inl (unexpected_item ''hourly_history_transform_processor'' [] item)))"

section \<open>Writers\<close>

record weather_writer =
  ww_sqlBulkWriter :: "SqlBulkWriter option"
  ww_TargetResourceName :: string
  ww_ResourcePath :: string
  ww_bulkSize :: int
  ww_stepExecutionContext :: "nat option"
  ww_writerState :: ec

record weather_writer_config =
  wc_TargetResourceName :: string
  wc_Database :: string
  wc_BulkSize :: int

definition new_weather_writer :: "string \<Rightarrow> string \<Rightarrow> goerr + weather_writer_config \<Rightarrow> goerr + weather_writer" where
  "new_weather_writer modul table bound = (case bound of
       Inl e \<Rightarrow> Inl (NewBatchError modul ''Failed to bind properties'' (Some e) False False)
     | Inr c \<Rightarrow> Inr \<lparr>ww_sqlBulkWriter = None,
         ww_TargetResourceName = (if wc_TargetResourceName c \<noteq> [] then wc_TargetResourceName c
           else if wc_Database c \<noteq> [] then wc_Database c else ''workload''),
         ww_ResourcePath = table, ww_bulkSize = (if wc_BulkSize c \<le> 0 then 1000 else wc_BulkSize c),
         ww_stepExecutionContext = None, ww_writerState = NewExecutionContext\<rparr>)"

definition NewHourlyForecastDatabaseWriter :: "goerr + weather_writer_config \<Rightarrow> goerr + weather_writer" where
  "NewHourlyForecastDatabaseWriter bound = new_weather_writer ''hourly_forecast_database_writer'' ''hourly_forecast'' bound"

definition NewHourlyHistoryDatabaseWriter :: "goerr + weather_writer_config \<Rightarrow> goerr + weather_writer" where
  "NewHourlyHistoryDatabaseWriter bound = new_weather_writer ''hourly_history_database_writer'' ''hourly_history'' bound"

definition weather_conflict_columns :: "string list" where
  "weather_conflict_columns = [''time'', ''latitude'', ''longitude'']"

definition weather_update_columns :: "string list" where
  "weather_update_columns = [''weather_code'', ''temperature_2m'', ''collected_at'']"

text \<open>The columns an existing row is updated in; \<open>None\<close>: the type of database is not supported.\<close>

definition forecast_update_columns :: "string \<Rightarrow> string list option" where
  "forecast_update_columns dbType =
     (if dbType = ''postgres'' \<or> dbType = ''redshift'' \<or> dbType = ''sqlite'' then Some []
      else if dbType = ''mysql'' then Some weather_update_columns else None)"

definition writer_ctx :: "ec \<Rightarrow> ec" where
  "writer_ctx c = (case ExecutionContext_Get c ''writer_context'' of Some (VCtx m) \<Rightarrow> m | _ \<Rightarrow> NewExecutionContext)"

definition restoreWriterState :: "nat \<Rightarrow> heap \<Rightarrow> weather_writer \<Rightarrow> heap \<times> weather_writer" where
  "restoreWriterState a h w = (h(a := ExecutionContext_Put ''writer_context'' (VCtx (writer_ctx (h a))) (h a)),
     w\<lparr>ww_stepExecutionContext := Some a, ww_writerState := ExecutionContext_Copy (writer_ctx (h a))\<rparr>)"

definition saveWriterState :: "heap \<Rightarrow> weather_writer \<Rightarrow> heap \<times> weather_writer" where
  "saveWriterState h w = (let decide = ExecutionContext_Put ''decision.condition'' (VStr ''true'')
     in ((case ww_stepExecutionContext w of None \<Rightarrow> h
          | Some a \<Rightarrow> h(a := ExecutionContext_Put ''writer_context'' (VCtx (decide (writer_ctx (h a)))) (h a))),
         w\<lparr>ww_writerState := decide (ww_writerState w)\<rparr>))"

text \<open>\<open>resolve\<close> gives the type of the resolved connection. Opening the bulk writer does not fail.\<close>

definition resolve_failed :: "weather_writer \<Rightarrow> goerr \<Rightarrow> goerr" where
  "resolve_failed w e = WrapError (''failed to resolve database connection '' @ quoted (ww_TargetResourceName w) @ '': '' @ Error_text e) e"

definition ForecastWriter_Open :: "goerr option \<Rightarrow> (string \<Rightarrow> goerr + string) \<Rightarrow> nat \<Rightarrow> heap \<Rightarrow> weather_writer \<Rightarrow>
    goerr option \<times> heap \<times> weather_writer" where
  "ForecastWriter_Open ctxErr resolve a h w = (case ctxErr of
       Some e \<Rightarrow> (Some e, h, w)
     | None \<Rightarrow> (case resolve (ww_TargetResourceName w) of
           Inl e \<Rightarrow> (Some (resolve_failed w e), h, w)
         | Inr dbType \<Rightarrow> (case forecast_update_columns dbType of
               None \<Rightarrow> (Some (plain_error (''unsupported database type '' @ quoted dbType)), h, w)
             | Some cols \<Rightarrow>
                 (let w1 = w\<lparr>ww_sqlBulkWriter := Some (Bulk_Open a (NewSqlBulkWriter (ww_TargetResourceName w @ ''_sql_bulk_writer'')
                        (ww_bulkSize w) ''hourly_forecast'' weather_conflict_columns cols))\<rparr>
                  in case restoreWriterState a h w1 of (h1, w2) \<Rightarrow> (None, h1, w2)))))"

definition HistoryWriter_Open :: "(string \<Rightarrow> goerr + string) \<Rightarrow> nat \<Rightarrow> weather_writer \<Rightarrow> goerr option \<times> weather_writer" where
  "HistoryWriter_Open resolve a w = (case resolve (ww_TargetResourceName w) of
       Inl e \<Rightarrow> (Some (resolve_failed w e), w)
     | Inr dbType \<Rightarrow> (None, w\<lparr>ww_sqlBulkWriter := Some (Bulk_Open a (NewSqlBulkWriter ''hourly_history_writer'' (ww_bulkSize w)
          (ww_ResourcePath w) weather_conflict_columns weather_update_columns)), ww_stepExecutionContext := Some a\<rparr>))"

text \<open>The items as rows: nil pointers are left out, an item of another type is an error.\<close>

fun forecast_rows :: "weather_item list \<Rightarrow> goerr + HourlyForecastToStore list" where
  "forecast_rows [] = Inr []"
| "forecast_rows (AForecastRow r # is) = (case forecast_rows is of
       Inl e \<Rightarrow> Inl e | Inr rs \<Rightarrow> Inr (case r of None \<Rightarrow> rs | Some x \<Rightarrow> x # rs))"
| "forecast_rows (i # is) = Inl (unexpected_item ''hourly_forecast_database_writer''
     '', expected type: *weather_entity.HourlyForecastToStore'' i)"

fun history_rows :: "weather_item list \<Rightarrow> goerr + HourlyHistoryToStore list" where
  "history_rows [] = Inr []"
| "history_rows (AHistoryRow r # is) = (case history_rows is of
       Inl e \<Rightarrow> Inl e | Inr rs \<Rightarrow> Inr (case r of None \<Rightarrow> rs | Some x \<Rightarrow> x # rs))"
| "history_rows (i # is) = Inl (unexpected_item ''hourly_history_database_writer'' [] i)"

type_synonym 'w upsert = "HourlyForecastToStore list \<Rightarrow> string \<Rightarrow> string list \<Rightarrow> string list \<Rightarrow> 'w \<Rightarrow> goerr option \<times> 'w"

definition ForecastWriter_Write :: "goerr option \<Rightarrow> nat \<Rightarrow> weather_writer \<Rightarrow> 'w upsert \<Rightarrow> bool \<Rightarrow> weather_item list \<Rightarrow> 'w \<Rightarrow>
    (bulk_result \<times> 'w) option" where
  "ForecastWriter_Write ctxErr fuel w upsert inTx items s = (case ctxErr of
       Some e \<Rightarrow> Some (BulkDone (Some e), s)
     | None \<Rightarrow>
         if items = [] then Some (BulkDone None, s)
         else (case forecast_rows items of
             Inl e \<Rightarrow> Some (BulkDone (Some e), s)
           | Inr rows \<Rightarrow>
               if rows = [] then Some (BulkDone None, s)
               else (case ww_sqlBulkWriter w of
                   None \<Rightarrow> Some (BulkDone (Some (NewBatchError ''hourly_forecast_database_writer''
                       ''SqlBulkWriter is not initialized (was Open called?)'' None True False)), s)
                 | Some bw \<Rightarrow> (case Bulk_Write fuel bw upsert inTx rows s of
                       Some (BulkDone (Some e), s1) \<Rightarrow> Some (BulkDone (Some (NewBatchError ''hourly_forecast_database_writer''
                           ''failed to bulk insert weather data via SqlBulkWriter'' (Some e) True True)), s1)
                     | res \<Rightarrow> res))))"

text \<open>In a transaction a writer that was never opened panics.\<close>

definition HistoryWriter_Write :: "nat \<Rightarrow> weather_writer \<Rightarrow> 'w upsert \<Rightarrow> bool \<Rightarrow> weather_item list \<Rightarrow> 'w \<Rightarrow>
    (bulk_result \<times> 'w) option" where
  "HistoryWriter_Write fuel w upsert inTx items s =
     (if items = [] then Some (BulkDone None, s)
      else (case history_rows items of
          Inl e \<Rightarrow> Some (BulkDone (Some e), s)
        | Inr rows \<Rightarrow>
            if rows = [] then Some (BulkDone None, s)
            else (case ww_sqlBulkWriter w of
                None \<Rightarrow> Some (if inTx then BulkPanic else BulkDone (Some (NewBatchError ''writer''
                    ''transaction not found in context for SqlBulkWriter'' None False False)), s)
              | Some bw \<Rightarrow> Bulk_Write fuel bw upsert inTx rows s)))"

text \<open>Closing the bulk writer does not fail.\<close>

definition ForecastWriter_Close :: "goerr option \<Rightarrow> heap \<Rightarrow> weather_writer \<Rightarrow> goerr option \<times> heap \<times> weather_writer" where
  "ForecastWriter_Close ctxErr h w = (case ctxErr of
       Some e \<Rightarrow> (Some e, h, w) | None \<Rightarrow> (case saveWriterState h w of (h1, w1) \<Rightarrow> (None, h1, w1)))"

definition ForecastWriter_SetExecutionContext :: "goerr option \<Rightarrow> nat \<Rightarrow> heap \<Rightarrow> weather_writer \<Rightarrow> goerr option \<times> heap \<times> weather_writer" where
  "ForecastWriter_SetExecutionContext ctxErr a h w = (case ctxErr of
       Some e \<Rightarrow> (Some e, h, w) | None \<Rightarrow> (case restoreWriterState a h w of (h1, w1) \<Rightarrow> (None, h1, w1)))"

definition ForecastWriter_GetExecutionContext :: "goerr option \<Rightarrow> heap \<Rightarrow> weather_writer \<Rightarrow> (goerr + ec) \<times> heap \<times> weather_writer" where
  "ForecastWriter_GetExecutionContext ctxErr h w = (case ctxErr of
       Some e \<Rightarrow> (Inl e, h, w) | None \<Rightarrow> (case saveWriterState h w of (h1, w1) \<Rightarrow> (Inr (ww_writerState w1), h1, w1)))"

section \<open>Historical weather\<close>

record HourlyHistoryAPIReaderConfig =
  hc_WebProxyRef :: string
  hc_Latitude :: string
  hc_Longitude :: string
  hc_Timezone :: string
  hc_StartDate :: string
  hc_EndDate :: string

text \<open>\<open>csvReader\<close> is what its \<open>Read\<close> has still to return; then \<open>io.EOF\<close> for ever.\<close>

record 'c HourlyHistoryAPIReader =
  hh_config :: HourlyHistoryAPIReaderConfig
  hh_webProxyConn :: "'c option"
  hh_csvReader :: "(goerr + string list) list option"
  hh_respBody :: "string option"

text \<open>\<open>he_DaysAgo\<close> is the date so many days before the clock's, \<open>he_ParseFloat\<close> also the value beside an error.\<close>

record ('c, 'w) history_env =
  he_DaysAgo :: "nat \<Rightarrow> 'w \<Rightarrow> string \<times> 'w"
  he_NewRequest :: "string \<Rightarrow> goerr option"
  he_Do :: "'c option \<Rightarrow> string \<Rightarrow> 'w \<Rightarrow> (goerr + int \<times> string) \<times> 'w"
  he_csv :: "string \<Rightarrow> (goerr + string list) list"
  he_CloseBody :: "string \<Rightarrow> goerr option"
  he_ParseTime :: "string \<Rightarrow> goerr + time"
  he_ParseFloat :: "string \<Rightarrow> goerr option \<times> f64"
  he_Now :: "'w \<Rightarrow> time \<times> 'w"

definition history_error :: "string \<Rightarrow> goerr option \<Rightarrow> bool \<Rightarrow> goerr" where
  "history_error t e retryable = NewBatchError ''HourlyHistoryAPIReader'' t e retryable False"

definition or_else :: "string \<Rightarrow> string \<Rightarrow> string" where
  "or_else s d = (if s = [] then d else s)"

definition history_url :: "HourlyHistoryAPIReaderConfig \<Rightarrow> string \<Rightarrow> string \<Rightarrow> string" where
  "history_url c startDate endDate = ''https://archive-api.open-meteo.com/v1/archive?latitude='' @ or_else (hc_Latitude c) ''52.52''
     @ ''&longitude='' @ or_else (hc_Longitude c) ''13.41'' @ ''&start_date='' @ startDate @ ''&end_date='' @ endDate
     @ ''&hourly=temperature_2m,weather_code&timezone='' @ or_else (hc_Timezone c) ''UTC'' @ ''&format=csv''"

definition date_or :: "('c, 'w) history_env \<Rightarrow> string \<Rightarrow> nat \<Rightarrow> 'w \<Rightarrow> string \<times> 'w" where
  "date_or E d n w = (if d = [] then he_DaysAgo E n w else (d, w))"

text \<open>The header lines: \<open>Read\<close> at the end of the input is an error as well.\<close>

fun skip_header :: "nat \<Rightarrow> (goerr + string list) list \<Rightarrow> goerr option \<times> (goerr + string list) list" where
  "skip_header 0 rs = (None, rs)"
| "skip_header (Suc n) [] = (Some (history_error ''Failed to skip CSV header'' (Some io_EOF) False), [])"
| "skip_header (Suc n) (Inl e # rs) = (Some (history_error ''Failed to skip CSV header'' (Some e) False), rs)"
| "skip_header (Suc n) (Inr r # rs) = skip_header n rs"

definition fetchHourlyHistoryData :: "('c, 'w) history_env \<Rightarrow> 'c HourlyHistoryAPIReader \<Rightarrow> 'w \<Rightarrow>
    goerr option \<times> 'c HourlyHistoryAPIReader \<times> 'w" where
  "fetchHourlyHistoryData E r w =
     (case date_or E (hc_EndDate (hh_config r)) 3 w of (endDate, w1) \<Rightarrow>
      (case date_or E (hc_StartDate (hh_config r)) 10 w1 of (startDate, w2) \<Rightarrow>
      (let url = history_url (hh_config r) startDate endDate in
       case he_NewRequest E url of
         Some e \<Rightarrow> (Some (history_error ''Failed to create API request'' (Some e) False), r, w2)
       | None \<Rightarrow> (case he_Do E (hh_webProxyConn r) url w2 of
             (Inl e, w3) \<Rightarrow> (Some (history_error ''API call failed'' (Some e) True), r, w3)
           | (Inr (status, body), w3) \<Rightarrow>
               if status \<noteq> 200
               then (Some (history_error (''API error: '' @ int_str status) (Some (plain_error body)) True), r, w3)
               else (case skip_header 3 (he_csv E body) of (err, rs) \<Rightarrow>
                   (err, r\<lparr>hh_respBody := Some body, hh_csvReader := Some rs\<rparr>, w3))))))"

definition NewHourlyHistoryAPIReader :: "goerr + HourlyHistoryAPIReaderConfig \<Rightarrow> (string \<Rightarrow> goerr + 'c option) option \<Rightarrow>
    goerr + 'c HourlyHistoryAPIReader" where
  "NewHourlyHistoryAPIReader bound proxies =
     (let new = (\<lambda>cfg conn. \<lparr>hh_config = cfg, hh_webProxyConn = conn, hh_csvReader = None, hh_respBody = None\<rparr>)
      in case bound of
       Inl e \<Rightarrow> Inl (history_error ''Failed to bind properties'' (Some e) False)
     | Inr cfg \<Rightarrow>
         if hc_WebProxyRef cfg = [] then Inr (new cfg None)
         else (case proxies of
             None \<Rightarrow> Inl (history_error (''WebProxyProvider not found for ref '' @ quoted (hc_WebProxyRef cfg)) None False)
           | Some get \<Rightarrow> (case get (hc_WebProxyRef cfg) of
               Inl e \<Rightarrow> Inl (history_error (''Failed to get WebProxyConnection for ref '' @ quoted (hc_WebProxyRef cfg)) (Some e) False)
             | Inr None \<Rightarrow> Inl (history_error (''Resolved connection for ref '' @ quoted (hc_WebProxyRef cfg)
                 @ '' is not a WebProxyConnection'') None False)
             | Inr (Some c) \<Rightarrow> Inr (new cfg (Some c)))))"

definition History_Open :: "('c, 'w) history_env \<Rightarrow> 'c HourlyHistoryAPIReader \<Rightarrow> 'w \<Rightarrow>
    goerr option \<times> 'c HourlyHistoryAPIReader \<times> 'w" where
  "History_Open E r w = fetchHourlyHistoryData E r w"

text \<open>A record of three fields as a row; \<open>None\<close>: an index out of range panics.\<close>

definition history_row :: "('c, 'w) history_env \<Rightarrow> HourlyHistoryAPIReaderConfig \<Rightarrow> string list \<Rightarrow> 'w \<Rightarrow>
    ((goerr + HourlyHistoryToStore) \<times> 'w) option" where
  "history_row E c rec w = (case rec of
       [] \<Rightarrow> None
     | t # rec1 \<Rightarrow> (case he_ParseTime E t of
           Inl e \<Rightarrow> Some (Inl (history_error ''Failed to parse time'' (Some e) False), w)
         | Inr tm \<Rightarrow> (case rec1 of
               [] \<Rightarrow> None
             | x # rec2 \<Rightarrow> (case he_ParseFloat E x of
                   (Some e, temp) \<Rightarrow> Some (Inl (history_error ''Failed to parse temperature'' (Some e) False), w)
                 | (None, temp) \<Rightarrow> (case rec2 of
                       [] \<Rightarrow> None
                     | n # rec3 \<Rightarrow> (case strconv_Atoi n of
                           Inl e \<Rightarrow> Some (Inl (history_error ''Failed to parse weather code'' (Some e) False), w)
                         | Inr code \<Rightarrow> (case he_Now E w of (now, w1) \<Rightarrow>
                             Some (Inr \<lparr>ts_Time = tm, ts_WeatherCode = code, ts_Temperature2M = temp,
                               ts_Latitude = snd (he_ParseFloat E (hc_Latitude c)), ts_Longitude = snd (he_ParseFloat E (hc_Longitude c)),
                               ts_CollectedAt = now\<rparr>, w1))))))))"

definition History_Read :: "('c, 'w) history_env \<Rightarrow> 'c HourlyHistoryAPIReader \<Rightarrow> 'w \<Rightarrow>
    ((goerr + HourlyHistoryToStore) \<times> 'c HourlyHistoryAPIReader \<times> 'w) option" where
  "History_Read E r w = (case hh_csvReader r of
       None \<Rightarrow> None
     | Some [] \<Rightarrow> Some (Inl io_EOF, r, w)
     | Some (x # xs) \<Rightarrow> (let r1 = r\<lparr>hh_csvReader := Some xs\<rparr>
         in case x of
              Inl e \<Rightarrow> Some (Inl (history_error ''Failed to read CSV record'' (Some e) False), r1, w)
            | Inr rec \<Rightarrow> map_option (\<lambda>(res, w1). (res, r1, w1)) (history_row E (hh_config r) rec w)))"

definition History_Close :: "('c, 'w) history_env \<Rightarrow> 'c HourlyHistoryAPIReader \<Rightarrow> goerr option" where
  "History_Close E r = (case hh_respBody r of None \<Rightarrow> None | Some body \<Rightarrow> he_CloseBody E body)"

section \<open>What is stored\<close>

lemma read_hours_processed:
  assumes "complete d" "i < hour_count d" "parse (hr_Time (om_Hourly d) ! i) = Inr tm"
  shows "Forecast_Process None parse now (AForecast (Some (hours d ! i))) = Some (Inr (Some (AForecastRow (Some
    \<lparr>ts_Time = tm, ts_WeatherCode = hr_WeatherCode (om_Hourly d) ! i, ts_Temperature2M = hr_Temperature2M (om_Hourly d) ! i,
     ts_Latitude = om_Latitude d, ts_Longitude = om_Longitude d, ts_CollectedAt = now\<rparr>))))"
proof -
  have "hour_at d i = Some (hours d ! i)" using hour_at_hours[OF assms(1,2)] .
  then have "hours d ! i = \<lparr>om_Latitude = om_Latitude d, om_Longitude = om_Longitude d,
      om_Hourly = \<lparr>hr_Time = [hr_Time (om_Hourly d) ! i], hr_WeatherCode = [hr_WeatherCode (om_Hourly d) ! i],
        hr_Temperature2M = [hr_Temperature2M (om_Hourly d) ! i]\<rparr>\<rparr>"
    by (simp add: hour_at_def split: if_splits)
  then show ?thesis using assms(3) by (simp add: Forecast_Process_def)
qed

lemma parts_at_most: "\<forall>p\<in>set ps. p \<noteq> [] \<Longrightarrow> length ps \<le> length (concat ps)"
proof (induction ps)
  case (Cons p ps)
  then have "length ps \<le> length (concat ps)" "0 < length p" by simp_all
  then show ?case unfolding list.size concat.simps length_append by linarith
qed simp

lemma rows_of_items: "forecast_rows (map (\<lambda>r. AForecastRow (Some r)) rs) = Inr rs"
  by (induction rs) simp_all

text \<open>
  What the forecast writer makes of a chunk of rows, once opened on a supported database: it
  upserts them in order in parts of at most the bulk size, which is always positive, up to the first
  failure, which is retryable and skippable.
\<close>

theorem forecast_rows_written:
  assumes "NewHourlyForecastDatabaseWriter (Inr c) = Inr w0" "ForecastWriter_Open None resolve a h w0 = (None, h1, w)"
    "rows \<noteq> []" "length rows < fuel"
  shows "\<exists>bw cs. ww_sqlBulkWriter w = Some bw \<and> 0 < bw_bulkSize bw \<and> concat cs = rows
    \<and> (\<forall>p\<in>set cs. p \<noteq> [] \<and> int (length p) \<le> bw_bulkSize bw)
    \<and> (case upsert_all bw upsert 0 cs s of (e, s1) \<Rightarrow>
        \<exists>e'. ForecastWriter_Write None fuel w upsert True (map (\<lambda>r. AForecastRow (Some r)) rows) s = Some (BulkDone e', s1)
          \<and> (e' = None \<longleftrightarrow> e = None) \<and> (\<forall>x. e' = Some x \<longrightarrow> BatchError_IsRetryable x \<and> BatchError_IsSkippable x))"
proof -
  obtain bw where bw: "ww_sqlBulkWriter w = Some bw" "bw_bulkSize bw = ww_bulkSize w0" "0 < ww_bulkSize w0"
    using assms(1,2)
    by (auto simp: NewHourlyForecastDatabaseWriter_def new_weather_writer_def ForecastWriter_Open_def restoreWriterState_def
        Let_def NewSqlBulkWriter_def Bulk_Open_def split: sum.splits option.splits if_splits)
  let ?b = "nat (bw_bulkSize bw)" and ?cs = "chunks_of (nat (bw_bulkSize bw)) rows"
  have b: "0 < ?b" "0 < bw_bulkSize bw" using bw by simp_all
  note parts = chunks_of_parts[OF b(1), of rows]
  have "length ?cs \<le> length rows" using parts parts_at_most[of ?cs] by simp
  then have wr: "Bulk_Write fuel bw upsert True rows s = (case upsert_all bw upsert 0 ?cs s of (e, s1) \<Rightarrow> Some (BulkDone e, s1))"
    using bulk_loop_all[OF b(2) refl, of 0 rows fuel upsert s] assms(3,4) by (simp add: Bulk_Write_def)
  obtain e s1 where u: "upsert_all bw upsert 0 ?cs s = (e, s1)" by fastforce
  have "\<exists>e'. ForecastWriter_Write None fuel w upsert True (map (\<lambda>r. AForecastRow (Some r)) rows) s = Some (BulkDone e', s1)
      \<and> (e' = None \<longleftrightarrow> e = None) \<and> (\<forall>x. e' = Some x \<longrightarrow> BatchError_IsRetryable x \<and> BatchError_IsSkippable x)"
    using wr u bw(1) assms(3)
    by (cases e) (auto simp: ForecastWriter_Write_def rows_of_items NewBatchError_def)
  moreover have "\<forall>p\<in>set ?cs. p \<noteq> [] \<and> int (length p) \<le> bw_bulkSize bw" using parts b by (auto simp: le_nat_iff)
  ultimately show ?thesis using bw(1) b(2) parts u by (intro exI[of _ bw] exI[of _ ?cs]) simp
qed

text \<open>Without a configured place the request is made for Berlin, and the rows are stored for the place of the empty text.\<close>

lemma default_place_not_stored:
  assumes "hc_Latitude c = []" "history_row E c rec w = Some (Inr row, w1)"
  shows "ts_Latitude row = snd (he_ParseFloat E [])"
    and "\<exists>t t'. history_url c d1 d2 = t @ ''52.52'' @ t'"
proof -
  show "ts_Latitude row = snd (he_ParseFloat E [])"
    using assms by (auto simp: history_row_def split: list.splits sum.splits prod.splits option.splits)
  show "\<exists>t t'. history_url c d1 d2 = t @ ''52.52'' @ t'"
    using assms(1) unfolding history_url_def or_else_def by (simp only: simp_thms if_True) blast
qed

section \<open>The repositories\<close>

text \<open>\<open>weather_repository.go\<close>: the same upsert and deletion for each type of database.\<close>

definition insert_weather :: "string \<Rightarrow> string list \<Rightarrow> 'w upsert \<Rightarrow> HourlyForecastToStore list \<Rightarrow> 'w \<Rightarrow> goerr option \<times> 'w" where
  "insert_weather what cols upsert items s =
     (if items = [] then (None, s)
      else (case upsert items ''hourly_forecast'' weather_conflict_columns cols s of
          (Some e, s1) \<Rightarrow> (Some (WrapError (''failed to bulk insert '' @ what @ '' using ExecuteUpsert: '' @ Error_text e) e), s1)
        | (None, s1) \<Rightarrow> (None, s1)))"

definition Postgres_BulkInsertWeatherData :: "'w upsert \<Rightarrow> HourlyForecastToStore list \<Rightarrow> 'w \<Rightarrow> goerr option \<times> 'w" where
  "Postgres_BulkInsertWeatherData upsert items s = insert_weather ''hourly_forecast data'' [] upsert items s"

definition MySQL_BulkInsertWeatherData :: "'w upsert \<Rightarrow> HourlyForecastToStore list \<Rightarrow> 'w \<Rightarrow> goerr option \<times> 'w" where
  "MySQL_BulkInsertWeatherData upsert items s = insert_weather ''hourly_forecast data'' weather_update_columns upsert items s"

definition SQLite_BulkInsertWeatherData :: "'w upsert \<Rightarrow> HourlyForecastToStore list \<Rightarrow> 'w \<Rightarrow> goerr option \<times> 'w" where
  "SQLite_BulkInsertWeatherData upsert items s = insert_weather ''hourly_forecast data into SQLite'' [] upsert items s"

text \<open>\<open>update\<close> is \<open>ExecuteUpdate\<close> with an operation and a table and no condition.\<close>

definition truncate_weather :: "string \<Rightarrow> (string \<Rightarrow> string \<Rightarrow> 'w \<Rightarrow> goerr option \<times> 'w) \<Rightarrow> 'w \<Rightarrow> goerr option \<times> 'w" where
  "truncate_weather op update s = (case update ''DELETE'' ''hourly_forecast'' s of
       (Some e, s1) \<Rightarrow> (Some (NewBatchError op ''Table data deletion error'' (Some e) False False), s1)
     | (None, s1) \<Rightarrow> (None, s1))"

definition Postgres_TruncateHourlyForecast :: "(string \<Rightarrow> string \<Rightarrow> 'w \<Rightarrow> goerr option \<times> 'w) \<Rightarrow> 'w \<Rightarrow> goerr option \<times> 'w" where
  "Postgres_TruncateHourlyForecast update s = truncate_weather ''PostgresRepositoryWrapper.TruncateHourlyForecast'' update s"

definition MySQL_TruncateHourlyForecast :: "(string \<Rightarrow> string \<Rightarrow> 'w \<Rightarrow> goerr option \<times> 'w) \<Rightarrow> 'w \<Rightarrow> goerr option \<times> 'w" where
  "MySQL_TruncateHourlyForecast update s = truncate_weather ''MySQLRepositoryWrapper.TruncateHourlyForecast'' update s"

definition SQLite_TruncateHourlyForecast :: "(string \<Rightarrow> string \<Rightarrow> 'w \<Rightarrow> goerr option \<times> 'w) \<Rightarrow> 'w \<Rightarrow> goerr option \<times> 'w" where
  "SQLite_TruncateHourlyForecast update s = truncate_weather ''SQLiteRepositoryWrapper.TruncateHourlyForecast'' update s"

text \<open>The repositories and the writer update an existing row on MySQL only.\<close>

lemma existing_rows_updated: "forecast_update_columns dbType = Some cols \<Longrightarrow> cols \<noteq> [] \<longleftrightarrow> dbType = ''mysql''"
  by (auto simp: forecast_update_columns_def weather_update_columns_def split: if_splits)

end
