(* ===== verification/Example_Runner.thy ===== *)
theory Example_Runner
  imports Flow_Job
begin

text \<open>
  The runner of the hello-world example, which walks through a flow by itself instead of running the
  flow job (\<open>example/hello-world/internal/app/runner/flow_job_runner.go\<close>), and the example's tasklet
  (\<open>internal/step/hello_tasklet.go\<close>). Elements, repository and clock are those of the flow job; the
  step executor is a parameter and may return a nil step execution.
\<close>

section \<open>The walk\<close>

text \<open>The executor returns the step execution its result points to, an error, and what it made of its arguments.\<close>

type_synonym 'w step_executor = "'w flow_step \<Rightarrow> JobExecution \<Rightarrow> StepExecution \<Rightarrow> 'w \<Rightarrow>
  ((StepExecution option \<times> goerr option) \<times> JobExecution \<times> StepExecution) \<times> 'w"

datatype run_outcome = RunReturn | RunPanic | RunOutcome ExitStatus "goerr option"

fun flat_keys :: "string list \<Rightarrow> ec \<Rightarrow> ec \<Rightarrow> ec" where
  "flat_keys [] sec jec = jec"
| "flat_keys (key # keys) sec jec = flat_keys keys sec (case ExecutionContext_Get sec key of
       Some v \<Rightarrow> ExecutionContext_Put key v jec | None \<Rightarrow> jec)"

fun flat_renamed :: "(string, string) gomap \<Rightarrow> ec \<Rightarrow> ec \<Rightarrow> ec" where
  "flat_renamed [] sec jec = jec"
| "flat_renamed ((stepKey, jobKey) # m) sec jec = flat_renamed m sec (case ExecutionContext_Get sec stepKey of
       Some v \<Rightarrow> ExecutionContext_Put jobKey v jec | None \<Rightarrow> jec)"

text \<open>\<open>None\<close>: the context of a nil step execution is asked for.\<close>

definition flat_promotion :: "ExecutionContextPromotion option \<Rightarrow> StepExecution option \<Rightarrow> JobExecution \<Rightarrow> JobExecution option" where
  "flat_promotion p se je = (case p of
       None \<Rightarrow> Some je
     | Some pr \<Rightarrow> (case se of
           None \<Rightarrow> if pr_Keys pr = [] \<and> pr_JobLevelKeys pr = [] then Some je else None
         | Some x \<Rightarrow> Some (je\<lparr>je_ExecutionContext := flat_renamed (pr_JobLevelKeys pr) (se_ExecutionContext x)
             (flat_keys (pr_Keys pr) (se_ExecutionContext x) (je_ExecutionContext je))\<rparr>)))"

definition runner_step :: "'w flow_job \<Rightarrow> 'w step_executor \<Rightarrow> 'w flow_step \<Rightarrow> 'w fstate \<Rightarrow> run_outcome \<times> 'w fstate" where
  "runner_step fj ex st s =
     (case fcall (fj_NewID fj) s of (newID, s1) \<Rightarrow>
      (case fcall (fj_Now fj) s1 of (now, s2) \<Rightarrow>
        (let i = length (je_StepExecutions (fl_je s2));
             s3 = on_je (\<lambda>je. (AddStepExecution (NewStepExecution now newID je (fs_StepName st)) je)
               \<lparr>je_CurrentStepName := fs_StepName st\<rparr>) s2
         in case save_step fj i s3 of
              (Some e, s4) \<Rightarrow> (RunReturn, update_job fj (fail_job fj (NewBatchError (fs_StepName st)
                  ''Failed to save initial StepExecution'' (Some e) False False) s4))
            | (None, s4) \<Rightarrow>
                (case fcall (ex st (fl_je s4) (je_StepExecutions (fl_je s4) ! i)) s4 of
                   (((ret, err), je, se), s5) \<Rightarrow>
                     (let s6 = s5\<lparr>fl_je := set_step i se je\<rparr>
                      in case (err, ret) of
                           (None, None) \<Rightarrow> (RunPanic, s6)
                         | _ \<Rightarrow> (case flat_promotion (fs_Promotion st) ret (fl_je s6) of
                               None \<Rightarrow> (RunPanic, s6)
                             | Some je' \<Rightarrow> (RunOutcome (case err of Some e \<Rightarrow> ExitFailed | None \<Rightarrow> se_ExitStatus (the ret)) err,
                                 s6\<lparr>fl_je := je'\<rparr>)))))))"

definition runner_error :: "string \<Rightarrow> string list \<Rightarrow> goerr" where
  "runner_error format args = NewBatchErrorf ''flow_runner'' format (map ArgStr args)"

definition runner_element :: "'w flow_job \<Rightarrow> 'w step_executor \<Rightarrow> string \<Rightarrow> 'w element \<Rightarrow> 'w fstate \<Rightarrow> run_outcome \<times> 'w fstate" where
  "runner_element fj ex cur el s = (case el of
       StepElement st \<Rightarrow> runner_step fj ex st s
     | DecisionElement d \<Rightarrow> (case fcall (de_Decide d (fl_je s) (je_Parameters (fl_je s))) s of
           ((status, Some e), s1) \<Rightarrow> (RunOutcome ExitFailed (Some e), s1)
         | ((status, None), s1) \<Rightarrow> (RunOutcome status None, s1))
     | SplitElement p \<Rightarrow> (RunOutcome ExitFailed (Some (runner_error (''Split execution is not yet implemented for Split '' @ quoted ''%s'')
           [sp_ID p])), s)
     | UnknownElement i ty \<Rightarrow> (RunOutcome ExitFailed (Some (runner_error (''Unknown flow element type for ID '' @ quoted ''%s'' @ '': %T'')
           [cur, ty])), s)
     | NoFlowElement ty \<Rightarrow> (RunOutcome ExitFailed (Some (runner_error (''Unknown flow element type for ID '' @ quoted ''%s'' @ '': %T'')
           [cur, ty])), s))"

datatype runner_next = RunTo string | RunEnds | RunStops | RunFails goerr | RunPanics

text \<open>
  The rule for the element: both searches return its first rule. \<open>RunStops\<close> returns from \<open>Run\<close>,
  \<open>RunEnds\<close> leaves the loop. A job marked as failed without an error panics.
\<close>

definition runner_transition :: "'w flow_job \<Rightarrow> string \<Rightarrow> ExitStatus \<Rightarrow> goerr option \<Rightarrow> 'w fstate \<Rightarrow> runner_next \<times> 'w fstate" where
  "runner_transition fj cur status err s =
     (case (case GetTransitionRule (fj_flow fj) cur status (err \<noteq> None) of
              Some r \<Rightarrow> Some r | None \<Rightarrow> GetTransitionRule (fj_flow fj) cur ExitUnknown (err \<noteq> None)) of
        None \<Rightarrow> (RunStops, update_job fj (fail_job fj (runner_error
            (''No transition rule found for element '' @ quoted ''%s'' @ '' with ExitStatus '' @ quoted ''%s'' @ '' (error: %v)'')
            [cur, ExitStatus_String status, (case err of None \<Rightarrow> ''<nil>'' | Some e \<Rightarrow> Error_text e)]) s))
      | Some r \<Rightarrow>
          if tr_End r then (RunEnds, (case err of None \<Rightarrow> complete_job fj s | Some e \<Rightarrow> note_failure e (complete_job fj s)))
          else if tr_Fail r then (case err of None \<Rightarrow> (RunPanics, s) | Some e \<Rightarrow> (RunEnds, fail_job fj e s))
          else if tr_Stop r then (RunEnds, stop_job fj s)
          else if tr_To r \<noteq> [] then (RunTo (tr_To r), s)
          else (RunEnds, fail_job fj (runner_error (''Invalid transition rule for element '' @ quoted ''%s'' @ '': no '' @ quoted ''to''
              @ '', '' @ quoted ''end'' @ '', '' @ quoted ''fail'' @ '', or '' @ quoted ''stop'' @ '' specified'') [cur]) s))"

text \<open>The outer \<open>None\<close>: the fuel ran out. The inner one: a panic.\<close>

definition finish_run :: "'w flow_job \<Rightarrow> 'w fstate \<Rightarrow> 'w fstate" where
  "finish_run fj s = update_job fj (if IsFinished (je_Status (fl_je s)) then s else complete_job fj s)"

fun runner_loop :: "nat \<Rightarrow> 'w flow_job \<Rightarrow> 'w step_executor \<Rightarrow> string \<Rightarrow> 'w fstate \<Rightarrow> 'w fstate option option" where
  "runner_loop 0 fj ex cur s = None"
| "runner_loop (Suc n) fj ex cur s =
     (if fj_ctxErr fj (fl_world s) \<noteq> None then Some (Some (update_job fj (stop_job fj s)))
      else (case gm_get (fd_Elements (fj_flow fj)) cur of
          None \<Rightarrow> Some (Some (update_job fj (fail_job fj (runner_error
              (''Flow element '' @ quoted ''%s'' @ '' not found in flow definition for job '' @ quoted ''%s'') [cur, fj_name fj]) s)))
        | Some el \<Rightarrow> (case runner_element fj ex cur el (s\<lparr>fl_visited := fl_visited s @ [cur]\<rparr>) of
              (RunReturn, s1) \<Rightarrow> Some (Some s1)
            | (RunPanic, s1) \<Rightarrow> Some None
            | (RunOutcome status err, s1) \<Rightarrow> (case runner_transition fj cur status err s1 of
                  (RunTo to, s2) \<Rightarrow> runner_loop n fj ex to s2
                | (RunEnds, s2) \<Rightarrow> Some (Some (finish_run fj s2))
                | (RunPanics, s2) \<Rightarrow> Some None
                | (_, s2) \<Rightarrow> Some (Some s2)))))"

definition FlowJobRunner_Run :: "nat \<Rightarrow> 'w flow_job \<Rightarrow> 'w step_executor \<Rightarrow> 'w fstate \<Rightarrow> 'w fstate option option" where
  "FlowJobRunner_Run fuel fj ex s =
     (case fcall (fj_Now fj) s of (now, s1) \<Rightarrow>
       (let s2 = on_je (JobExecution_MarkAsStarted now) s1
        in case fcall (fj_UpdateJobExecution fj (fl_je s2)) s2 of
             ((Some e, je), s3) \<Rightarrow> Some (Some (update_job fj (fail_job fj e (s3\<lparr>fl_je := je\<rparr>))))
           | ((None, je), s3) \<Rightarrow> runner_loop fuel fj ex (fd_StartElement (fj_flow fj)) (s3\<lparr>fl_je := je\<rparr>)))"

section \<open>The tasklet\<close>

record HelloWorldTasklet =
  hw_Message :: string
  hw_executionContext :: ec
  hw_stepName :: string

definition NewHelloWorldTasklet :: "goerr + string \<Rightarrow> goerr + HelloWorldTasklet" where
  "NewHelloWorldTasklet bound = (case bound of
       Inl e \<Rightarrow> Inl (NewBatchError ''hello_world_tasklet'' ''Failed to bind properties'' (Some e) False False)
     | Inr m \<Rightarrow> if m = [] then Inl (plain_error ''message property is required for HelloWorldTasklet'')
         else Inr \<lparr>hw_Message = m, hw_executionContext = NewExecutionContext, hw_stepName = ''helloWorldStep''\<rparr>)"

text \<open>With the lines it logs at the level of information.\<close>

definition HelloWorld_Execute :: "goerr option \<Rightarrow> HelloWorldTasklet \<Rightarrow> (ExitStatus \<times> goerr option) \<times> string list" where
  "HelloWorld_Execute ctxErr t = (case ctxErr of
       Some e \<Rightarrow> ((ExitFailed, Some e), [])
     | None \<Rightarrow> ((ExitCompleted, None), [''HelloWorldTasklet: '' @ hw_Message t]))"

section \<open>What a run leaves behind\<close>

text \<open>The repository changes at most the version of what it is given.\<close>

definition keeps_but_version :: "'w flow_job \<Rightarrow> bool" where
  "keeps_but_version fj \<longleftrightarrow> (\<forall>je w err je' w'. fj_UpdateJobExecution fj je w = ((err, je'), w') \<longrightarrow> (\<exists>v. je' = je\<lparr>je_Version := v\<rparr>))"

lemma update_keeps:
  assumes "keeps_but_version fj"
  shows "\<exists>v. fl_je (update_job fj s) = (fl_je s)\<lparr>je_Version := v\<rparr>"
  using assms unfolding keeps_but_version_def update_job_def fcall_def by (auto split: prod.splits)

definition run_left :: "'w fstate \<Rightarrow> bool" where
  "run_left s \<longleftrightarrow> job_closed (fl_je s) \<and> je_Status (fl_je s) \<in> {COMPLETED, FAILED, STOPPED}"

lemma update_left: "keeps_but_version fj \<Longrightarrow> run_left s \<Longrightarrow> run_left (update_job fj s)"
  using update_keeps[of fj s] by (auto simp: run_left_def job_closed_def)

lemma marks_left [simp]:
  "run_left (fail_job fj e s)" "run_left (stop_job fj s)" "run_left (complete_job fj s)"
  by (simp_all add: run_left_def)

lemma note_left [simp]: "run_left (note_failure e s) = run_left s"
  by (auto simp: run_left_def note_failure_def job_closed_def JobExecution_AddFailureException_def)

lemma runner_step_left:
  "keeps_but_version fj \<Longrightarrow> runner_step fj ex st s = (RunReturn, s') \<Longrightarrow> run_left s'"
  by (auto simp: runner_step_def Let_def intro: update_left split: prod.splits option.splits)

lemma runner_element_left:
  "keeps_but_version fj \<Longrightarrow> runner_element fj ex cur el s = (RunReturn, s') \<Longrightarrow> run_left s'"
  by (auto simp: runner_element_def intro: runner_step_left split: element.splits prod.splits option.splits)

lemma runner_transition_left:
  "keeps_but_version fj \<Longrightarrow> runner_transition fj cur status err s = (nx, s') \<Longrightarrow> nx \<noteq> RunPanics \<Longrightarrow> \<forall>t. nx \<noteq> RunTo t \<Longrightarrow> run_left s'"
  by (auto simp: runner_transition_def intro: update_left split: option.splits if_splits)

lemma finish_left: "keeps_but_version fj \<Longrightarrow> run_left s \<Longrightarrow> run_left (finish_run fj s)"
  by (simp add: finish_run_def update_left)

lemma runner_loop_left:
  assumes "keeps_but_version fj"
  shows "runner_loop n fj ex cur s = Some (Some s') \<Longrightarrow> run_left s'"
proof (induction n arbitrary: cur s)
  case (Suc n)
  show ?case
  proof (cases "fj_ctxErr fj (fl_world s) = None \<and> gm_get (fd_Elements (fj_flow fj)) cur \<noteq> None")
    case False
    then show ?thesis using Suc.prems update_left[OF assms] by (auto split: if_splits)
  next
    case True
    then obtain el where el: "gm_get (fd_Elements (fj_flow fj)) cur = Some el" by blast
    obtain out s1 where ex: "runner_element fj ex cur el (s\<lparr>fl_visited := fl_visited s @ [cur]\<rparr>) = (out, s1)" by fastforce
    show ?thesis
    proof (cases out)
      case RunReturn
      then show ?thesis using Suc.prems True el ex runner_element_left[OF assms] by auto
    next
      case RunPanic
      then show ?thesis using Suc.prems True el ex by auto
    next
      case (RunOutcome status err)
      obtain nx s2 where tr: "runner_transition fj cur status err s1 = (nx, s2)" by fastforce
      show ?thesis using Suc.prems True el ex RunOutcome tr Suc.IH runner_transition_left[OF assms tr] finish_left[OF assms]
        by (cases nx) auto
    qed
  qed
qed simp

text \<open>
  When the runner returns, the job is completed, failed or stopped and has an end time and the exit
  status of its status, whatever the flow and the steps are.
\<close>

lemma example_run_left:
  assumes "keeps_but_version fj" "FlowJobRunner_Run fuel fj ex s = Some (Some s')"
  shows "run_left s'"
  using assms(2) runner_loop_left[OF assms(1)] update_left[OF assms(1)]
  by (auto simp: FlowJobRunner_Run_def Let_def split: prod.splits option.splits)

text \<open>A rule that lets the job fail after a step that succeeded makes the runner panic.\<close>

lemma fail_rule_panics:
  assumes "GetTransitionRule (fj_flow fj) cur status False = Some r" "\<not> tr_End r" "tr_Fail r"
  shows "runner_transition fj cur status None s = (RunPanics, s)"
  using assms by (simp add: runner_transition_def)

text \<open>A step that fails and whose rule ends the job leaves it completed.\<close>

lemma failed_step_completes:
  assumes "GetTransitionRule (fj_flow fj) cur status True = Some r" "tr_End r"
  shows "\<exists>s'. runner_transition fj cur status (Some e) s = (RunEnds, s') \<and> je_Status (fl_je s') = COMPLETED"
  using assms by (auto simp: runner_transition_def note_failure_def JobExecution_AddFailureException_def)

end
