(* ===== verification/Spec2Isabelle.thy ===== *)
theory Spec2Isabelle
  imports Chunk_Flow Partition_Step Job_Launch JSL_Correct Restart_Flow Storage_Correct Gorm_Adapter Job_Factory
    Async_Recorder Config_Correct Migration_Tasklet Export_Correct Web_Correct Generic_Tasklets Remote_Submitter Param_Masking Otel_Recorder Job_Listeners Weather_Store Example_Runner
begin

text \<open>
  A verification of surfin, a batch framework in Go: jobs are flows of steps, a step reads, processes
  and writes items in chunks or runs a tasklet, and a repository keeps what was executed so that a
  job can be launched again. The paths below are those under \<open>src/\<close>; without a directory of their
  own they begin at \<open>src/pkg/batch/\<close>.

  \<^bold>\<open>The parts and how they interact.\<close> A launcher (\<open>core/application/usecase\<close>) looks for an execution
  to restart in the repository, makes a job execution and hands it to the runner and the flow job
  (\<open>core/job/runner\<close>), which walk through the elements of the flow: steps, decisions, splits. A step is
  a \<open>ChunkStep\<close>, a \<open>TaskletStep\<close> or a \<open>PartitionStep\<close> (\<open>engine/step\<close>), the last of which runs a worker
  step once per partition through an executor. All of them keep the job and the step execution of
  the data model (\<open>core/domain/model\<close>), report errors as \<open>BatchError\<close> (\<open>support/util/exception\<close>), and
  store executions and checkpoints in the repository, in memory or in SQL. What runs is described by a
  job specification (\<open>core/config/jsl\<close>), which a factory turns into a flow. Readers, writers and
  tasklets (\<open>component\<close>) use database, storage and HTTP connections (\<open>adapter\<close>), which providers keep
  under locks and make from the configuration, whose secrets are resolved. Listeners and recorders
  observe.

  \<^bold>\<open>What models what.\<close> Records, datatypes and functions have the names of the source where Isabelle
  allows it; a function that several types of the source have gets the name of its type in front.

    \<^item> \<open>Prelude\<close>: Go's results, strings and maps. A map is an association list whose order is the
      order of one \<open>range\<close>, so that what holds for every list holds for every iteration order.
    \<^item> \<open>Batch_Errors\<close> (\<open>exception.go\<close>), \<open>Batch_Values\<close> and \<open>Batch_Model\<close> (\<open>models.go\<close>): errors by their
      dynamic type; execution contexts, job parameters and their storage as JSON; statuses, executions,
      transitions and flow definitions. \<open>Fault_Policies\<close>: \<open>engine/step/skip\<close> and \<open>engine/step/retry\<close>.
    \<^item> \<open>Chunk_Items\<close>, \<open>Chunk_Step\<close>: \<open>engine/step/item/chunk_step.go\<close>, from one item to \<open>Execute\<close>.
      \<open>Tasklet_Step\<close>, \<open>Step_Executor\<close>, \<open>Partition_Step\<close>, \<open>Remote_Submitter\<close>: the other steps, the
      executors and the wait for a remote worker (\<open>infrastructure/remote\<close>).
    \<^item> \<open>Flow_Job\<close>, \<open>Job_Launch\<close>, \<open>Job_Expressions\<close>: the flow job and its runner, the launcher, the
      operator and the explorer, and the decisions, expressions and parameter incrementers.
    \<^item> \<open>Mem_Repository\<close>, \<open>SQL_Repository\<close>: \<open>infrastructure/repository\<close>.
    \<^item> \<open>JSL_Conversion\<close>, \<open>Job_Factory\<close>: the job specification, its loader, its conversion and the
      factories. \<open>Config_Loader\<close>: \<open>core/config\<close>. \<open>Param_Masking\<close>: \<open>support/util/serialization\<close>.
    \<^item> \<open>Item_Components\<close>: the readers, writers and partitioner of \<open>component\<close>. \<open>Generic_Tasklets\<close>,
      \<open>Parquet_Writer\<close>, \<open>Parquet_Export\<close>, \<open>Migration_Tasklet\<close>: its tasklets and the Parquet writer.
    \<^item> \<open>File_Paths\<close>, \<open>Local_Storage\<close>, \<open>Storage_Providers\<close>, \<open>Connection_Pool\<close>, \<open>Gorm_Provider\<close>,
      \<open>Gorm_Adapter\<close>, \<open>Query_Text\<close>, \<open>Web_Proxy\<close>: \<open>adapter\<close> and \<open>core/secret\<close>.
    \<^item> \<open>Async_Recorder\<close>, \<open>Otel_Recorder\<close>, \<open>Job_Listeners\<close>: recorders and listeners.
    \<^item> \<open>Forecast_Reader\<close>, \<open>Weather_Store\<close>, \<open>Example_Runner\<close>: the components of \<open>src/example\<close>.

  State is passed explicitly: an operation takes the record of its component and returns it changed.
  A function that can fail returns a sum or an option of \<open>goerr\<close>; a panic, a blocked call and a call
  that never returns are values of their own where they can happen. What is shared by goroutines
  (partitions, asking for connections, the recorder, the export, the signaler) is a labelled or plain
  step relation, and its theorems hold for every interleaving. Execution contexts that components
  share are a heap of addresses in the theories where aliasing matters.

  \<^bold>\<open>What is a parameter.\<close> Databases and GORM, cloud storage, Parquet, \<open>golang-migrate\<close>,
  \<open>mapstructure\<close>, OpenTelemetry, the clock, random numbers, HTTP and cryptography are functions on a
  world \<open>'w\<close> only they look into. What a theorem needs of them is a named hypothesis: that an
  update names its row by identifier and version (\<open>versioned_rows\<close>), that a connection keeps what it
  is given, that the text of a value reads back as the value. Each such theorem has an instance.

  \<^bold>\<open>What the lemmas show.\<close>

    \<^item> \<open>Chunk_Safety\<close>, \<open>Chunk_Correct\<close>, \<open>Chunk_Flow\<close>: the protocol of the transactions, the budget of
      the skips, the statuses on every return, what a run commits, splitting, retries that never end.
    \<^item> \<open>Checkpoint_Resume\<close>, \<open>Restart_Flow\<close>: the engine with readers and repositories: a run cut off
      and continued commits every row once; what a restarted job runs.
    \<^item> \<open>Flow_Job\<close>, \<open>Job_Launch\<close>, \<open>Partition_Step\<close>, \<open>Step_Executor\<close>, \<open>Tasklet_Step\<close>: how executions are
      left, when flows end, how many workers run, which transactions are begun and ended.
    \<^item> \<open>Mem_Repository\<close>, \<open>SQL_Repository\<close>: refinement of maps, no lost updates, restartable executions.
    \<^item> \<open>JSL_Correct\<close>, \<open>Job_Factory\<close>, \<open>Config_Correct\<close>: well-formedness of what is built, and the layers
      of the configuration. \<open>Item_Correct\<close>, \<open>Parquet_Correct\<close>, \<open>Export_Correct\<close>: what readers deliver
      and writers store, and when an export ends or is stuck.
    \<^item> \<open>Storage_Correct\<close>, \<open>Connections_Correct\<close>, \<open>Web_Correct\<close>: confinement below the base directory,
      pools of connections, credentials.

  The interfaces are locales, each interpreted on the code's own definitions: \<open>skip_contract\<close>,
  \<open>keyed_store\<close>, \<open>execution_repository\<close>, \<open>step_store\<close>, \<open>expression_resolver\<close>, \<open>connection_pool\<close> (for
  four providers) and \<open>item_source\<close>.

  \<^bold>\<open>Bounds and fuel.\<close> \<open>chunk_loop\<close>, \<open>flow_loop\<close>, \<open>runner_loop\<close> and \<open>bulk_loop\<close> take the number of
  rounds as fuel and give \<open>None\<close> when it runs out; the recursion over retries of one item ends with
  the attempts the policy allows. That enough fuel gives a result is proved for fault-free chunk
  loops (one more than the full chunks of the input), for flows with a rank (more than the rank of the
  start) and for bulk writes (more than the chunks); that no fuel does is proved for a writer that
  keeps failing and for a bulk size of zero. The wait for a remote worker is a
  \<open>partial_function\<close>. Integers are unbounded where the source counts items, words of 64 bits in the
  recorders, and wrapped where the source multiplies durations.

  \<^bold>\<open>Not modelled.\<close> The wiring for the dependency injection of uber/fx (\<open>module.go\<close>, \<open>bootstrap\<close>, the
  \<open>main\<close> functions of the examples): it registers what is modelled. Log lines, and the listeners and
  the notifier that only log. Tracing and the exporters of metrics, which are calls of their
  libraries; \<open>prometheus_recorder.go\<close> is not compiled with the module. The dummy database, whose
  operations return constants. Interface declarations, stack traces, test helpers. Within what is
  modelled: the goroutines of a split run one after the other, listeners do not change what they are
  given, and data races on the fields of an execution are not followed.
\<close>

end
